(* ===== verification/Pof_Prelude.thy ===== *)
theory Pof_Prelude
  imports Main "HOL-Library.Word" "HOL-Library.Monad_Syntax"
begin

text \<open>
  Shared vocabulary of the development: the C integer types, buffers as byte lists with
  bounds-checked access, the network-order bit view of a buffer, and the generic lemmas on
  these that the component theories use.

  Undefined behaviour of the C code (an access outside an array, a dereference of
  \<^verbatim>\<open>NULL\<close>) is the value \<open>None\<close> of an \<open>option\<close> result throughout; a routine
  that returns normally gives \<open>Some\<close>.
\<close>

unbundle bit_operations_syntax

type_synonym u8 = "8 word"
type_synonym u16 = "16 word"
type_synonym u32 = "32 word"
type_synonym u64 = "64 word"
type_synonym bytes = "u8 list"

named_theorems buf_simps \<open>access to buffers\<close>

section \<open>Bounds-checked access to arrays\<close>

definition rd :: "'a list \<Rightarrow> nat \<Rightarrow> 'a option" where
  "rd xs i = (if i < length xs then Some (xs ! i) else None)"

definition wr :: "'a list \<Rightarrow> nat \<Rightarrow> 'a \<Rightarrow> 'a list option" where
  "wr xs i v = (if i < length xs then Some (xs[i := v]) else None)"

lemma rd_Some [buf_simps]: "i < length xs \<Longrightarrow> rd xs i = Some (xs ! i)"
  by (simp add: rd_def)

lemma rd_None [buf_simps]: "length xs \<le> i \<Longrightarrow> rd xs i = None"
  by (simp add: rd_def)

lemma wr_Some [buf_simps]: "i < length xs \<Longrightarrow> wr xs i v = Some (xs[i := v])"
  by (simp add: wr_def)

lemma wr_None [buf_simps]: "length xs \<le> i \<Longrightarrow> wr xs i v = None"
  by (simp add: wr_def)

lemma rd_eq_Some_iff: "rd xs i = Some v \<longleftrightarrow> i < length xs \<and> v = xs ! i"
  by (auto simp: rd_def)

lemma wr_eq_Some_iff: "wr xs i v = Some ys \<longleftrightarrow> i < length xs \<and> ys = xs[i := v]"
  by (auto simp: wr_def)

text \<open>
  A pointer into the middle of an array is the array and an index. \<open>upd_from\<close> runs a
  routine that takes a pointer on the part of the array from that index on.
\<close>

definition upd_from :: "nat \<Rightarrow> ('a list \<Rightarrow> 'a list option) \<Rightarrow> 'a list \<Rightarrow> 'a list option" where
  "upd_from base f xs =
     (if base \<le> length xs then map_option (\<lambda>ys. take base xs @ ys) (f (drop base xs)) else None)"

section \<open>The bits of a buffer in network order\<close>

text \<open>
  Bit \<open>i\<close> of a buffer, counted from the most significant bit of the first byte: the
  numbering of every offset and length \<^emph>\<open>in bit unit\<close> of the protocol.
\<close>

definition bit_at :: "bytes \<Rightarrow> nat \<Rightarrow> bool" where
  "bit_at bs i = bit (bs ! (i div 8)) (7 - i mod 8)"

definition bits_from :: "bytes \<Rightarrow> nat \<Rightarrow> nat \<Rightarrow> bool list" where
  "bits_from bs off n = map (\<lambda>i. bit_at bs (off + i)) [0..<n]"

lemma bit_at_byte: "j < 8 \<Longrightarrow> bit_at bs (8 * b + j) = bit (bs ! b) (7 - j)"
  by (simp add: bit_at_def)

lemma bit_at_Cons_0: "i < 8 \<Longrightarrow> bit_at (b # bs) i = bit b (7 - i)"
  by (simp add: bit_at_def)

lemma bit_at_drop: "n \<le> length bs \<Longrightarrow> bit_at (drop n bs) i = bit_at bs (8 * n + i)"
  by (simp add: bit_at_def)

lemma bit_at_append_right:
  "8 * length xs \<le> i \<Longrightarrow> bit_at (xs @ ys) i = bit_at ys (i - 8 * length xs)"
proof -
  assume le: "8 * length xs \<le> i"
  then obtain k where k: "i = 8 * length xs + k"
    using nat_le_iff_add by auto
  show ?thesis by (simp add: k bit_at_def nth_append)
qed

lemma bit_at_append_left: "i < 8 * length xs \<Longrightarrow> bit_at (xs @ ys) i = bit_at xs i"
  by (simp add: bit_at_def nth_append div_less_iff_less_mult mult.commute)

lemma bytes_eq_iff_bit_at:
  assumes "length xs = length ys"
  shows "xs = ys \<longleftrightarrow> (\<forall>i < 8 * length xs. bit_at xs i = bit_at ys i)"
proof (intro iffI)
  assume *: "\<forall>i < 8 * length xs. bit_at xs i = bit_at ys i"
  show "xs = ys"
  proof (rule nth_equalityI [OF assms])
    fix b assume b: "b < length xs"
    show "xs ! b = ys ! b"
    proof (rule bit_word_eqI)
      fix n assume "n < LENGTH(8)"
      then have n: "n < 8" by simp
      have "bit_at xs (8 * b + (7 - n)) = bit_at ys (8 * b + (7 - n))"
        using * b n by simp
      moreover have "bit_at xs (8 * b + (7 - n)) = bit (xs ! b) (7 - (7 - n))"
        and "bit_at ys (8 * b + (7 - n)) = bit (ys ! b) (7 - (7 - n))"
        by (rule bit_at_byte, simp)+
      moreover have "7 - (7 - n) = n" using n by simp
      ultimately show "bit (xs ! b) n = bit (ys ! b) n" by simp
    qed
  qed
qed simp

lemma length_bits_from [simp]: "length (bits_from bs off n) = n"
  by (simp add: bits_from_def)

lemma bits_from_nth [simp]: "i < n \<Longrightarrow> bits_from bs off n ! i = bit_at bs (off + i)"
  by (simp add: bits_from_def)

section \<open>Bits of bytes\<close>

lemma u8_255: "(255 :: u8) = - 1"
  by simp

lemma bit_255 [simp]: "bit (255 :: u8) n \<longleftrightarrow> n < 8"
  by (simp only: u8_255) (simp add: bit_simps)

lemma bit_int_255 [simp]: "bit (255 :: int) n \<longleftrightarrow> n < 8"
proof -
  have "(255 :: int) = mask 8" by (simp add: mask_eq_exp_minus_1)
  then show ?thesis by (simp only: bit_mask_iff) simp
qed

lemma bit_u8_imp: "bit (w :: u8) n \<Longrightarrow> n < 8"
  using bit_imp_le_length [of w n] by simp

lemma bit_u8_ge [simp]: "8 \<le> n \<Longrightarrow> \<not> bit (w :: u8) n"
  using bit_u8_imp [of w n] by linarith

lemma bit_push_u8: "bit (push_bit m w :: u8) n \<longleftrightarrow> m \<le> n \<and> n < 8 \<and> bit w (n - m)"
  by (auto simp: bit_push_bit_iff)

text \<open>
  The C code computes on bytes promoted to \<^verbatim>\<open>int\<close> and truncates on the store; shifts to the
  left, conjunction and disjunction commute with the truncation, so they are modelled on
  bytes directly.
\<close>

lemma byte_trunc_shift: "ucast (push_bit n (ucast (a :: u8)) :: u32) = (push_bit n a :: u8)"
  by (rule bit_word_eqI) (auto simp: bit_simps)

lemma byte_trunc_or: "ucast (a OR b :: u32) = (ucast a OR ucast b :: u8)"
  by (rule bit_word_eqI) (auto simp: bit_simps)

lemma byte_trunc_and: "ucast (a AND b :: u32) = (ucast a AND ucast b :: u8)"
  by (rule bit_word_eqI) (auto simp: bit_simps)

section \<open>Widening\<close>

lemma unat_u16_less: "unat (x :: u16) < 65536"
  using unsigned_less [of x, where 'a = nat] by simp

lemma unat_u8_less: "unat (x :: u8) < 256"
  using unsigned_less [of x, where 'a = nat] by simp

lemma unat_ucast_u16_u32 [simp]: "unat (ucast (x :: u16) :: u32) = unat x"
  using unat_u16_less [of x] by (simp add: unsigned_ucast_eq take_bit_nat_eq_self_iff)

lemma unat_ucast_u8_u32 [simp]: "unat (ucast (x :: u8) :: u32) = unat x"
  using unat_u8_less [of x] by (simp add: unsigned_ucast_eq take_bit_nat_eq_self_iff)

lemma unat_ucast_u8_u16 [simp]: "unat (ucast (x :: u8) :: u16) = unat x"
  using unat_u8_less [of x] by (simp add: unsigned_ucast_eq take_bit_nat_eq_self_iff)

lemma unat_of_nat_u32: "m < 4294967296 \<Longrightarrow> unat (of_nat m :: u32) = m"
  by (simp add: unat_of_nat)

lemma unat_of_nat_u16: "m < 65536 \<Longrightarrow> unat (of_nat m :: u16) = m"
  by (simp add: unat_of_nat)

section \<open>Lengths in bits and bytes\<close>

text \<open>\<^verbatim>\<open>POF_BITNUM_TO_BYTENUM_CEIL\<close> for lengths that do not overflow.\<close>

definition byte_ceil :: "nat \<Rightarrow> nat" where
  "byte_ceil n = (n + 7) div 8"

lemma byte_ceil_bounds: "n \<le> 8 * byte_ceil n" "8 * byte_ceil n < n + 8"
  unfolding byte_ceil_def by presburger+

lemma byte_ceil_0 [simp]: "byte_ceil 0 = 0"
  by (simp add: byte_ceil_def)

lemma byte_ceil_pos [simp]: "0 < byte_ceil n \<longleftrightarrow> 0 < n"
  unfolding byte_ceil_def by presburger

end
