(* ===== verification/Pof_Bits.thy ===== *)
theory Pof_Bits
  imports Pof_Prelude
begin

text \<open>
  The bit-field routines of \<^verbatim>\<open>common/pof_basefunc.c\<close>: \<open>pofbf_cover_bit\<close> writes a bit
  string into a buffer at a bit offset and \<open>pofbf_copy_bit\<close> reads one out. Every match
  field, \<^verbatim>\<open>SET_FIELD\<close>, \<^verbatim>\<open>ADD_FIELD\<close>, metadata write and checksum of the data path goes
  through them.

  A buffer is the byte list that starts at the pointer passed and ends with the object it
  points into, so an access past its end is \<open>None\<close>. In an expression such as
  \<^verbatim>\<open>*value << a | *(++value) >> b\<close> the C code relies on the left operand being evaluated
  first, which is what the model does.
\<close>

section \<open>Definitions\<close>

text \<open>\<^verbatim>\<open>POF_MOVE_BIT_LEFT\<close> and \<^verbatim>\<open>POF_MOVE_BIT_RIGHT\<close> on a byte, stored into a byte.\<close>

definition POF_MOVE_BIT_LEFT :: "u8 \<Rightarrow> nat \<Rightarrow> u8" where
  "POF_MOVE_BIT_LEFT x n = push_bit n x"

definition POF_MOVE_BIT_RIGHT :: "u8 \<Rightarrow> nat \<Rightarrow> u8" where
  "POF_MOVE_BIT_RIGHT x n = drop_bit n x"

text \<open>
  The middle loop of \<open>pofbf_cover_bit\<close>. The guard \<^verbatim>\<open>process_len_b < (len_b-8)\<close> compares a
  \<^verbatim>\<open>uint32_t\<close> with an \<^verbatim>\<open>int\<close>, hence unsigned at 32 bits.
\<close>

function cover_bit_loop ::
  "nat \<Rightarrow> u32 \<Rightarrow> bytes \<Rightarrow> bytes \<Rightarrow> nat \<Rightarrow> nat \<Rightarrow> u32 \<Rightarrow> (bytes \<times> nat \<times> nat \<times> u32) option" where
  "cover_bit_loop pos_b_x bound data value ptr vp process_len_b =
     (if process_len_b < bound then do {
        a \<leftarrow> rd value vp;
        b \<leftarrow> rd value (vp + 1);
        data' \<leftarrow> wr data (ptr + 1)
          (POF_MOVE_BIT_LEFT a (8 - pos_b_x) OR POF_MOVE_BIT_RIGHT b pos_b_x);
        cover_bit_loop pos_b_x bound data' value (ptr + 1) (vp + 1) (process_len_b + 8)
      } else Some (data, ptr, vp, process_len_b))"
  by pat_completeness auto
termination
  by (relation "measure (\<lambda>(_, _, data, _, ptr, _, _). length data - ptr)")
     (auto simp: wr_eq_Some_iff)

declare cover_bit_loop.simps [simp del]

definition pofbf_cover_bit :: "bytes \<Rightarrow> bytes \<Rightarrow> u16 \<Rightarrow> u16 \<Rightarrow> bytes option" where
  "pofbf_cover_bit data_ori value pos_b len_b = (
     let pos_b_x = unat pos_b mod 8;
         after_len_b_x = (if unat len_b + unat pos_b = 0 then 0
                          else (unat len_b + unat pos_b - 1) mod 8 + 1);
         ptr = unat pos_b div 8
     in if unat len_b \<le> 8 - pos_b_x then do {
          d \<leftarrow> rd data_ori ptr;
          v \<leftarrow> rd value 0;
          wr data_ori ptr
            ((d AND POF_MOVE_BIT_LEFT 0xff (8 - pos_b_x))
             OR (POF_MOVE_BIT_RIGHT v pos_b_x AND POF_MOVE_BIT_LEFT 0xff (8 - after_len_b_x))
             OR (d AND POF_MOVE_BIT_RIGHT 0xff after_len_b_x))
        }
        else do {
          d \<leftarrow> rd data_ori ptr;
          v \<leftarrow> rd value 0;
          data1 \<leftarrow> wr data_ori ptr
            ((d AND POF_MOVE_BIT_LEFT 0xff (8 - pos_b_x)) OR POF_MOVE_BIT_RIGHT v pos_b_x);
          (data2, ptr2, vp, process_len_b) \<leftarrow>
            cover_bit_loop pos_b_x (ucast len_b - 8) data1 value ptr 0
              (of_nat (8 - pos_b_x));
          let rem = unat (ucast len_b - process_len_b);
          a \<leftarrow> rd value vp;
          b \<leftarrow> rd value (vp + 1);
          e \<leftarrow> rd data2 (ptr2 + 1);
          wr data2 (ptr2 + 1)
            ((POF_MOVE_BIT_LEFT a (8 - pos_b_x)
              OR (POF_MOVE_BIT_RIGHT b pos_b_x AND POF_MOVE_BIT_LEFT 0xff (8 - rem)))
             OR (e AND POF_MOVE_BIT_RIGHT 0xff rem))
        })"

function copy_bit_loop ::
  "bytes \<Rightarrow> nat \<Rightarrow> u32 \<Rightarrow> bytes \<Rightarrow> nat \<Rightarrow> nat \<Rightarrow> u32 \<Rightarrow> (bytes \<times> nat \<times> u32) option" where
  "copy_bit_loop data_ori offset_b_x len_b data_res ptr rp process_len_b =
     (if process_len_b < len_b then do {
        a \<leftarrow> rd data_ori ptr;
        b \<leftarrow> rd data_ori (ptr + 1);
        data_res' \<leftarrow> wr data_res rp
          (POF_MOVE_BIT_LEFT a offset_b_x OR POF_MOVE_BIT_RIGHT b (8 - offset_b_x));
        copy_bit_loop data_ori offset_b_x len_b data_res' (ptr + 1) (rp + 1) (process_len_b + 8)
      } else Some (data_res, rp, process_len_b))"
  by pat_completeness auto
termination
  by (relation "measure (\<lambda>(_, _, _, data_res, _, rp, _). length data_res - rp)")
     (auto simp: wr_eq_Some_iff)

declare copy_bit_loop.simps [simp del]

text \<open>
  Null pointers are \<open>None\<close> arguments. With \<^verbatim>\<open>len_b = 0\<close> the loop does not run and the final
  \<^verbatim>\<open>data_res--\<close> leaves the result buffer, which is the case \<open>rp = 0\<close>.
\<close>

definition pofbf_copy_bit ::
  "bytes option \<Rightarrow> bytes option \<Rightarrow> u16 \<Rightarrow> u16 \<Rightarrow> bytes option option" where
  "pofbf_copy_bit data_ori data_res offset_b len_b = (
     case (data_ori, data_res) of
       (Some ori, Some res) \<Rightarrow> do {
         (res1, rp, process_len_b) \<leftarrow>
           copy_bit_loop ori (unat offset_b mod 8) (ucast len_b) res (unat offset_b div 8) 0 0;
         (if rp = 0 then None else do {
           d \<leftarrow> rd res1 (rp - 1);
           res2 \<leftarrow> wr res1 (rp - 1)
             (d AND POF_MOVE_BIT_LEFT 0xff (unat (process_len_b - ucast len_b)));
           Some (Some res2)
         })
       }
     | _ \<Rightarrow> Some data_res)"

section \<open>The loops\<close>

lemma bit_MOVE_BIT_LEFT [simp]:
  "bit (POF_MOVE_BIT_LEFT x n) m \<longleftrightarrow> n \<le> m \<and> m < 8 \<and> bit x (m - n)"
  by (simp add: POF_MOVE_BIT_LEFT_def bit_push_u8)

lemma bit_MOVE_BIT_RIGHT [simp]: "bit (POF_MOVE_BIT_RIGHT x n) m \<longleftrightarrow> bit x (n + m)"
  by (simp add: POF_MOVE_BIT_RIGHT_def bit_drop_bit_eq)

lemma bit_mask_LEFT [simp]: "bit (POF_MOVE_BIT_LEFT 255 n) m \<longleftrightarrow> n \<le> m \<and> m < 8"
  by auto

lemma bit_mask_RIGHT [simp]: "bit (POF_MOVE_BIT_RIGHT 255 n) m \<longleftrightarrow> n + m < 8"
  by simp

text \<open>The byte the loops assemble from two neighbouring bytes of the source.\<close>

definition splice :: "nat \<Rightarrow> bytes \<Rightarrow> nat \<Rightarrow> u8" where
  "splice s xs k = POF_MOVE_BIT_LEFT (xs ! k) s OR POF_MOVE_BIT_RIGHT (xs ! (k + 1)) (8 - s)"

lemma bit_splice:
  assumes "s \<le> 8" "j < 8"
  shows "bit (splice s xs k) (7 - j) = bit_at xs (8 * k + s + j)"
proof (cases "s + j < 8")
  case True
  then have "bit_at xs (8 * k + (s + j)) = bit (xs ! k) (7 - (s + j))"
    by (rule bit_at_byte)
  then show ?thesis
    using True assms by (auto simp: splice_def bit_or_iff add.assoc add.commute [of j])
next
  case False
  then have "bit_at xs (8 * (k + 1) + (s + j - 8)) = bit (xs ! (k + 1)) (7 - (s + j - 8))"
    using assms by (intro bit_at_byte) linarith
  moreover have "8 * (k + 1) + (s + j - 8) = 8 * k + s + j"
    and "7 - (s + j - 8) = (8 - s) + (7 - j)"
    using False assms by simp_all
  ultimately show ?thesis
    using False assms by (auto simp: splice_def bit_or_iff add.assoc)
qed

lemma unat_add_8: "unat (p :: u32) < 100000 \<Longrightarrow> unat (p + 8) = unat p + 8"
  by (simp add: unat_word_ariths)

lemma cover_bit_loop_result:
  assumes "n = (unat bound - unat p + 7) div 8" "unat bound \<le> 65535" "px \<le> 8"
    and "ptr + n < length data" "vp + n < length value"
  shows "\<exists>data'. cover_bit_loop px bound data value ptr vp p = Some (data', ptr + n, vp + n, p + 8 * of_nat n)
           \<and> length data' = length data
           \<and> (\<forall>i < length data. data' ! i =
                (if ptr < i \<and> i \<le> ptr + n then splice (8 - px) value (vp + (i - ptr - 1)) else data ! i))"
  using assms
proof (induction n arbitrary: data ptr vp p)
  case 0
  then have "\<not> p < bound" by (auto simp: word_less_nat_alt)
  then show ?case by (subst cover_bit_loop.simps) auto
next
  case (Suc n)
  then have lt: "p < bound" by (auto simp: word_less_nat_alt)
  then have ltn: "unat p < unat bound" by (simp add: word_less_nat_alt)
  have p8: "unat (p + 8) = unat p + 8" using Suc.prems ltn by (intro unat_add_8) simp
  have n: "n = (unat bound - unat (p + 8) + 7) div 8"
  proof (cases "unat p + 8 \<le> unat bound")
    case True
    then have "unat bound - unat p + 7 = (unat bound - unat (p + 8) + 7) + 8"
      using p8 by linarith
    then show ?thesis using Suc.prems(1) by simp
  next
    case False
    then show ?thesis using Suc.prems(1) p8 ltn by simp
  qed
  let ?d = "data[ptr + 1 := splice (8 - px) value vp]"
  have "\<exists>data'. cover_bit_loop px bound ?d value (ptr + 1) (vp + 1) (p + 8)
            = Some (data', ptr + 1 + n, vp + 1 + n, p + 8 + 8 * of_nat n)
         \<and> length data' = length ?d
         \<and> (\<forall>i < length ?d. data' ! i =
              (if ptr + 1 < i \<and> i \<le> ptr + 1 + n
               then splice (8 - px) value (vp + 1 + (i - (ptr + 1) - 1)) else ?d ! i))"
    using Suc.prems(2-5) by (intro Suc.IH n) auto
  then obtain data' where 1: "cover_bit_loop px bound ?d value (ptr + 1) (vp + 1) (p + 8)
            = Some (data', ptr + 1 + n, vp + 1 + n, p + 8 + 8 * of_nat n)"
    and 2: "length data' = length data"
    and 3: "\<And>i. i < length data \<Longrightarrow> data' ! i =
              (if ptr + 1 < i \<and> i \<le> ptr + 1 + n
               then splice (8 - px) value (vp + 1 + (i - (ptr + 1) - 1)) else ?d ! i)"
    by auto
  have "POF_MOVE_BIT_LEFT (value ! vp) (8 - px) OR POF_MOVE_BIT_RIGHT (value ! (vp + 1)) px
          = splice (8 - px) value vp"
    using Suc.prems by (simp add: splice_def)
  then have "cover_bit_loop px bound data value ptr vp p
      = Some (data', ptr + Suc n, vp + Suc n, p + 8 * of_nat (Suc n))"
    using lt 1 Suc.prems(4,5)
    by (subst cover_bit_loop.simps) (simp add: rd_Some wr_Some algebra_simps)
  moreover have "\<forall>i < length data. data' ! i =
                (if ptr < i \<and> i \<le> ptr + Suc n then splice (8 - px) value (vp + (i - ptr - 1)) else data ! i)"
  proof (intro allI impI)
    fix i assume i: "i < length data"
    consider "i = ptr + 1" | "ptr + 1 < i" | "i \<le> ptr" by linarith
    then show "data' ! i = (if ptr < i \<and> i \<le> ptr + Suc n
        then splice (8 - px) value (vp + (i - ptr - 1)) else data ! i)"
    proof cases
      case 2
      then have "vp + 1 + (i - (ptr + 1) - 1) = vp + (i - ptr - 1)" by linarith
      then show ?thesis using 2 3 [OF i] by auto
    qed (use 3 [OF i] i in auto)
  qed
  ultimately show ?case using 2 by blast
qed

lemma copy_bit_loop_result:
  assumes "n = (unat len - unat p + 7) div 8" "unat len \<le> 65535" "s \<le> 8"
    and "rp + n \<le> length res" "n = 0 \<or> ptr + n < length ori"
  shows "\<exists>res'. copy_bit_loop ori s len res ptr rp p = Some (res', rp + n, p + 8 * of_nat n)
           \<and> length res' = length res
           \<and> (\<forall>i < length res. res' ! i =
                (if rp \<le> i \<and> i < rp + n then splice s ori (ptr + (i - rp)) else res ! i))"
  using assms
proof (induction n arbitrary: res ptr rp p)
  case 0
  then have "\<not> p < len" by (auto simp: word_less_nat_alt)
  then show ?case by (subst copy_bit_loop.simps) auto
next
  case (Suc n)
  then have lt: "p < len" by (auto simp: word_less_nat_alt)
  then have ltn: "unat p < unat len" by (simp add: word_less_nat_alt)
  have p8: "unat (p + 8) = unat p + 8" using Suc.prems ltn by (intro unat_add_8) simp
  have n: "n = (unat len - unat (p + 8) + 7) div 8"
    using Suc.prems(1) p8 ltn by (cases "unat p + 8 \<le> unat len") auto
  let ?r = "res[rp := splice s ori ptr]"
  have "\<exists>res'. copy_bit_loop ori s len ?r (ptr + 1) (rp + 1) (p + 8)
            = Some (res', rp + 1 + n, p + 8 + 8 * of_nat n)
         \<and> length res' = length ?r
         \<and> (\<forall>i < length ?r. res' ! i =
              (if rp + 1 \<le> i \<and> i < rp + 1 + n
               then splice s ori (ptr + 1 + (i - (rp + 1))) else ?r ! i))"
    using Suc.prems(2-5) by (intro Suc.IH n) auto
  then obtain res' where 1: "copy_bit_loop ori s len ?r (ptr + 1) (rp + 1) (p + 8)
            = Some (res', rp + 1 + n, p + 8 + 8 * of_nat n)"
    and 2: "length res' = length res"
    and 3: "\<And>i. i < length res \<Longrightarrow> res' ! i =
              (if rp + 1 \<le> i \<and> i < rp + 1 + n
               then splice s ori (ptr + 1 + (i - (rp + 1))) else ?r ! i)"
    by auto
  have "copy_bit_loop ori s len res ptr rp p = Some (res', rp + Suc n, p + 8 * of_nat (Suc n))"
    using lt 1 Suc.prems(4,5)
    by (subst copy_bit_loop.simps) (simp add: rd_Some wr_Some splice_def algebra_simps)
  moreover have "\<forall>i < length res. res' ! i =
                (if rp \<le> i \<and> i < rp + Suc n then splice s ori (ptr + (i - rp)) else res ! i)"
  proof (intro allI impI)
    fix i assume i: "i < length res"
    consider "i = rp" | "rp < i" | "i < rp" by linarith
    then show "res' ! i = (if rp \<le> i \<and> i < rp + Suc n then splice s ori (ptr + (i - rp)) else res ! i)"
    proof cases
      case 2
      then have "ptr + 1 + (i - (rp + 1)) = ptr + (i - rp)" by linarith
      then show ?thesis using 2 3 [OF i] by auto
    qed (use 3 [OF i] i in auto)
  qed
  ultimately show ?case using 2 by blast
qed

section \<open>Writing a field\<close>

text \<open>
  The last byte is stored as \<^verbatim>\<open>L | R & mask | old\<close>: the mask is applied to the right part only,
  so the bits of \<^verbatim>\<open>L\<close> behind the field are or-ed into the neighbour. These are the positions:
\<close>

definition cover_leak :: "nat \<Rightarrow> nat \<Rightarrow> nat \<Rightarrow> bool" where
  "cover_leak pos len i \<longleftrightarrow> 8 < pos mod 8 + len \<and> pos + len \<le> i
     \<and> i div 8 = (pos + len - 1) div 8 \<and> i mod 8 < pos mod 8"

definition cover_bit_at :: "bytes \<Rightarrow> bytes \<Rightarrow> nat \<Rightarrow> nat \<Rightarrow> nat \<Rightarrow> bool" where
  "cover_bit_at data value pos len i \<longleftrightarrow>
     (if pos \<le> i \<and> i < pos + len then bit_at value (i - pos)
      else bit_at data i \<or> cover_leak pos len i \<and> bit_at value (i - pos))"

lemma bit_at_byteI:
  assumes "\<And>b j. b < length res \<Longrightarrow> j < 8 \<Longrightarrow> bit (res ! b) (7 - j) = P (8 * b + j)"
  shows "\<forall>i < 8 * length res. bit_at res i = P i"
proof (intro allI impI)
  fix i assume "i < 8 * length res"
  then have "i div 8 < length res" by (simp add: div_less_iff_less_mult mult.commute)
  from assms [OF this, of "i mod 8"] show "bit_at res i = P i"
    by (simp add: bit_at_def)
qed

lemma cover_one_byte:
  assumes len: "0 < len_b" and fits: "unat pos_b mod 8 + unat len_b \<le> 8"
    and data: "unat pos_b div 8 < length data" and v: "value \<noteq> []"
  shows "\<exists>res. pofbf_cover_bit data value pos_b len_b = Some res \<and> length res = length data
    \<and> (\<forall>i < 8 * length res. bit_at res i = cover_bit_at data value (unat pos_b) (unat len_b) i)"
proof -
  define B where "B = unat pos_b div 8"
  define px where "px = unat pos_b mod 8"
  define l where "l = unat len_b"
  have pos: "unat pos_b = 8 * B + px" by (simp add: B_def px_def)
  have l0: "0 < l" using len by (simp add: l_def unat_gt_0 word_gt_0)
  have pl: "px + l \<le> 8" using fits by (simp add: px_def l_def)
  have px7: "px < 8" by (simp add: px_def)
  have after: "(l + unat pos_b - 1) mod 8 + 1 = px + l"
  proof -
    obtain k where k: "px + l = Suc k" using l0 by (cases l) auto
    then have "l + unat pos_b - 1 = 8 * B + k" using pos by simp
    then show ?thesis using k pl by simp
  qed
  define byte where "byte =
    (data ! B AND POF_MOVE_BIT_LEFT 0xff (8 - px))
             OR (POF_MOVE_BIT_RIGHT (value ! 0) px AND POF_MOVE_BIT_LEFT 0xff (8 - (px + l)))
             OR (data ! B AND POF_MOVE_BIT_RIGHT 0xff (px + l))"
  have "l \<le> 8 - px" using pl by simp
  have res: "pofbf_cover_bit data value pos_b len_b = Some (data[B := byte])"
    using pl px7 l0 data v after \<open>l \<le> 8 - px\<close>
    by (simp add: pofbf_cover_bit_def Let_def rd_Some wr_Some byte_def
                  flip: B_def px_def l_def)
  have bits: "bit byte (7 - j) = cover_bit_at data value (8 * B + px) l (8 * B + j)" if "j < 8" for j
  proof -
    consider "j < px" | "px \<le> j" "j < px + l" | "px + l \<le> j" by linarith
    then show ?thesis
    proof cases
      case 1
      then show ?thesis using that pl
        by (auto simp: byte_def bit_or_iff bit_and_iff cover_bit_at_def cover_leak_def
                       bit_at_byte)
    next
      case 2
      then have "px + (7 - j) = 7 - (j - px)" using that by simp
      then show ?thesis using 2 that pl
        by (auto simp: byte_def bit_or_iff bit_and_iff cover_bit_at_def bit_at_def)
    next
      case 3
      then show ?thesis using that pl
        by (auto simp: byte_def bit_or_iff bit_and_iff cover_bit_at_def cover_leak_def
                       bit_at_byte)
    qed
  qed
  have "\<forall>i < 8 * length (data[B := byte]).
          bit_at (data[B := byte]) i = cover_bit_at data value (8 * B + px) l i"
  proof (rule bit_at_byteI)
    fix b j assume b: "b < length (data[B := byte])" and j: "(j::nat) < 8"
    show "bit (data[B := byte] ! b) (7 - j) = cover_bit_at data value (8 * B + px) l (8 * b + j)"
    proof (cases "b = B")
      case True
      then show ?thesis using bits [OF j] b by simp
    next
      case False
      then consider "b < B" | "B < b" by linarith
      then have "\<not> (8 * B + px \<le> 8 * b + j \<and> 8 * b + j < 8 * B + px + l)"
        by cases (use j pl in auto)
      then show ?thesis
        using False j pl px7 by (auto simp: cover_bit_at_def cover_leak_def bit_at_byte)
    qed
  qed
  then show ?thesis using res pos by (auto simp: l_def)
qed

lemma bit_last_byte:
  assumes "px \<le> 7" "j < 8" "0 < rem" "rem \<le> 8"
  shows "bit ((POF_MOVE_BIT_LEFT a (8 - px)
               OR (POF_MOVE_BIT_RIGHT c px AND POF_MOVE_BIT_LEFT 0xff (8 - rem)))
              OR (e AND POF_MOVE_BIT_RIGHT 0xff rem)) (7 - j) =
     ((if j < px then bit a (px - Suc j) else j < rem \<and> bit c (7 - (j - px)))
      \<or> rem \<le> j \<and> bit e (7 - j))"
proof (cases "j < px")
  case True
  then have "8 - px \<le> 7 - j" "7 - j - (8 - px) = px - Suc j" "8 \<le> px + (7 - j)" using assms by auto
  moreover have "rem + (7 - j) < 8 \<longleftrightarrow> rem \<le> j" using assms by linarith
  ultimately show ?thesis using True assms by (auto simp: bit_or_iff bit_and_iff)
next
  case False
  then have "\<not> 8 - px \<le> 7 - j" "px + (7 - j) = 7 - (j - px)" using assms by auto
  moreover have "rem + (7 - j) < 8 \<longleftrightarrow> rem \<le> j" "8 - rem \<le> 7 - j \<longleftrightarrow> j < rem" using assms by linarith+
  ultimately show ?thesis using False assms by (auto simp: bit_or_iff bit_and_iff)
qed

lemma cover_many_bytes:
  assumes len: "8 \<le> unat len_b" and cross: "8 < unat pos_b mod 8 + unat len_b"
    and data: "unat pos_b + unat len_b \<le> 8 * length data"
    and v: "byte_ceil (unat pos_b mod 8 + unat len_b) \<le> length value"
  shows "\<exists>res. pofbf_cover_bit data value pos_b len_b = Some res \<and> length res = length data
    \<and> (\<forall>i < 8 * length res. bit_at res i = cover_bit_at data value (unat pos_b) (unat len_b) i)"
proof -
  define B where "B = unat pos_b div 8"
  define px where "px = unat pos_b mod 8"
  define l where "l = unat len_b"
  define n where "n = (l - 8 - (8 - px) + 7) div 8"
  define rem where "rem = l - (8 - px) - 8 * n"
  have pos: "unat pos_b = 8 * B + px" by (simp add: B_def px_def)
  have px7: "px \<le> 7" by (simp add: px_def)
  have l8: "8 \<le> l" and pl: "8 < px + l" using len cross by (simp_all add: l_def px_def)
  have l16: "l \<le> 65535" using unat_u16_less [of len_b] by (simp add: l_def)
  have n: "8 * n + rem + 8 = px + l" "0 < rem" "rem \<le> 8"
  proof -
    have "8 * n \<le> l - 8 - (8 - px) + 7" "l - 8 - (8 - px) + 7 < 8 * n + 8"
      unfolding n_def by simp_all
    then have "8 * n + 8 < px + l \<and> px + l \<le> 8 * n + 16"
      using l8 pl px7 by (cases n) auto
    moreover have "l - (8 - px) = px + l - 8" using px7 l8 by simp
    ultimately show "8 * n + rem + 8 = px + l" "0 < rem" "rem \<le> 8"
      by (auto simp: rem_def)
  qed
  have Bn: "B + n + 1 < length data"
    using data n unfolding pos l_def [symmetric] by linarith
  have vn: "n + 1 < length value"
    using v n byte_ceil_bounds(1) [of "px + l"]
    unfolding px_def [symmetric] l_def [symmetric] by linarith
  define first where "first = (data ! B AND POF_MOVE_BIT_LEFT 0xff (8 - px)) OR POF_MOVE_BIT_RIGHT (value ! 0) px"
  define last where "last = (POF_MOVE_BIT_LEFT (value ! n) (8 - px)
              OR (POF_MOVE_BIT_RIGHT (value ! (n + 1)) px AND POF_MOVE_BIT_LEFT 0xff (8 - rem)))
             OR (data ! (B + n + 1) AND POF_MOVE_BIT_RIGHT 0xff rem)"
  let ?d1 = "data[B := first]"
  let ?bound = "ucast len_b - 8 :: u32"
  have bound: "unat ?bound = l - 8"
    using l8 by (subst unat_sub) (auto simp: word_le_nat_alt l_def)
  have p0: "unat (of_nat (8 - px) :: u32) = 8 - px" by (simp add: unat_of_nat)
  have "\<exists>data'. cover_bit_loop px ?bound ?d1 value B 0 (of_nat (8 - px))
              = Some (data', B + n, 0 + n, of_nat (8 - px) + 8 * of_nat n)
           \<and> length data' = length ?d1
           \<and> (\<forall>i < length ?d1. data' ! i =
                (if B < i \<and> i \<le> B + n then splice (8 - px) value (0 + (i - B - 1)) else ?d1 ! i))"
    using Bn vn px7 l16 by (intro cover_bit_loop_result) (simp_all only: bound p0 n_def, simp_all)
  then obtain d2 where loop: "cover_bit_loop px ?bound ?d1 value B 0 (of_nat (8 - px))
              = Some (d2, B + n, n, of_nat (8 - px) + 8 * of_nat n)"
    and len2: "length d2 = length data"
    and d2: "\<And>i. i < length data \<Longrightarrow> d2 ! i =
       (if B < i \<and> i \<le> B + n then splice (8 - px) value (i - B - 1) else ?d1 ! i)"
    by auto
  have "unat (ucast len_b - (of_nat (8 - px) + 8 * of_nat n) :: u32) = rem"
  proof -
    have "(of_nat (8 - px) + 8 * of_nat n :: u32) = of_nat (8 - px + 8 * n)" by simp
    moreover have "ucast len_b = (of_nat l :: u32)" by (simp add: l_def)
    ultimately have "(ucast len_b - (of_nat (8 - px) + 8 * of_nat n) :: u32) = of_nat rem"
      using n px7 pl by (simp add: rem_def of_nat_diff)
    then show ?thesis using n by (simp add: unat_of_nat)
  qed
  moreover have "\<not> l \<le> 8 - px" using pl px7 by linarith
  moreover have "B < length data" "0 < length value" using Bn vn by linarith+
  ultimately have res: "pofbf_cover_bit data value pos_b len_b = Some (d2[B + n + 1 := last])"
    using loop len2 Bn vn d2 [of "B + n + 1"]
    by (simp add: pofbf_cover_bit_def Let_def rd_Some wr_Some last_def first_def
             flip: B_def px_def l_def)
  have "\<forall>i < 8 * length (d2[B + n + 1 := last]).
          bit_at (d2[B + n + 1 := last]) i = cover_bit_at data value (8 * B + px) l i"
  proof (rule bit_at_byteI)
    fix b j assume "b < length (d2[B + n + 1 := last])" and j: "(j::nat) < 8"
    then have b: "b < length data" using len2 by simp
    consider "b < B" | "b = B" | "B < b" "b \<le> B + n" | "b = B + n + 1" | "B + n + 1 < b" by linarith
    then show "bit (d2[B + n + 1 := last] ! b) (7 - j)
                 = cover_bit_at data value (8 * B + px) l (8 * b + j)"
    proof cases
      case 1
      then show ?thesis using j b d2 [OF b] by (simp add: cover_bit_at_def cover_leak_def bit_at_byte)
    next
      case 2
      then have "bit (d2[B + n + 1 := last] ! b) (7 - j) = bit first (7 - j)"
        using d2 [OF b] b by simp
      also have "\<dots> = cover_bit_at data value (8 * B + px) l (8 * b + j)"
      proof (cases "j < px")
        case True
        then show ?thesis using j 2 px7
          by (auto simp: first_def bit_or_iff bit_and_iff cover_bit_at_def cover_leak_def bit_at_byte)
      next
        case False
        then have "px + (7 - j) = 7 - (j - px)" using j by simp
        then show ?thesis using False j 2 pl
          by (auto simp: first_def bit_or_iff bit_and_iff cover_bit_at_def bit_at_def)
      qed
      finally show ?thesis .
    next
      case 3
      then have "bit (d2[B + n + 1 := last] ! b) (7 - j) = bit_at value (8 * (b - B - 1) + (8 - px) + j)"
        using d2 [OF b] b j by (simp add: bit_splice)
      moreover have "8 * (b - B - 1) + (8 - px) + j = 8 * b + j - (8 * B + px)"
        using 3 px7 j by simp
      moreover have "8 * B + px \<le> 8 * b + j" "8 * b + j < 8 * B + px + l"
        using 3 px7 j n by linarith+
      ultimately show ?thesis by (simp only: cover_bit_at_def simp_thms if_True)
    next
      case 4
      define x where "x = 8 * b + j - (8 * B + px)"
      have field: "8 * b + j < 8 * B + px + l \<longleftrightarrow> j < rem" "8 * B + px \<le> 8 * b + j"
        using 4 n px7 by linarith+
      have leak: "cover_leak (8 * B + px) l (8 * b + j) \<longleftrightarrow> rem \<le> j \<and> j < px"
      proof -
        have "8 * B + px + l - 1 = 8 * b + (rem - 1)" using 4 n by simp
        then have "(8 * B + px + l - 1) div 8 = b" using n by simp
        then show ?thesis using field pl px7 j by (auto simp: cover_leak_def)
      qed
      have "bit_at value x = (if j < px then bit (value ! n) (px - Suc j)
                              else bit (value ! (n + 1)) (7 - (j - px)))"
      proof (cases "j < px")
        case True
        define y where "y = 8 - px + j"
        then have y: "x = 8 * n + y" "7 - y = px - Suc j" "y < 8"
          using True 4 px7 by (auto simp: x_def)
        then show ?thesis using True bit_at_byte [OF y(3), of "value" n] by simp
      next
        case False
        then have "x = 8 * (n + 1) + (j - px)" using 4 by (simp add: x_def)
        then show ?thesis using False j bit_at_byte [of "j - px" "value" "n + 1"] by simp
      qed
      moreover have "bit_at data (8 * b + j) = bit (data ! (B + n + 1)) (7 - j)"
        using bit_at_byte [OF j, of data b] by (simp only: 4)
      ultimately have "bit last (7 - j) =
          (if j < rem then bit_at value x else bit_at data (8 * b + j) \<or> j < px \<and> bit_at value x)"
        using bit_last_byte [OF px7 j n(2,3), of "value ! n" "value ! (n + 1)"] by (auto simp: last_def)
      then show ?thesis
        using 4 b len2 px7 unfolding cover_bit_at_def leak field x_def by auto
    next
      case 5
      then have "\<not> 8 * b + j < 8 * B + px + l" using n px7 by linarith
      moreover have "(8 * B + px + l - 1) div 8 \<noteq> b" using 5 n by simp
      ultimately show ?thesis
        using 5 j d2 [OF b] by (auto simp: cover_bit_at_def cover_leak_def bit_at_byte)
    qed
  qed
  then show ?thesis using res pos len2 by (auto simp: l_def)
qed

lemma cover_bit_ok:
  assumes "0 < len_b" and "8 \<le> unat len_b \<or> unat pos_b mod 8 + unat len_b \<le> 8"
    and data: "unat pos_b + unat len_b \<le> 8 * length data"
    and v: "byte_ceil (unat pos_b mod 8 + unat len_b) \<le> length value"
  shows "\<exists>res. pofbf_cover_bit data value pos_b len_b = Some res \<and> length res = length data
    \<and> (\<forall>i < 8 * length res. bit_at res i = cover_bit_at data value (unat pos_b) (unat len_b) i)"
proof (cases "unat pos_b mod 8 + unat len_b \<le> 8")
  case True
  have l: "0 < unat len_b" using assms(1) by (simp add: unat_gt_0 word_gt_0)
  then have "0 < byte_ceil (unat pos_b mod 8 + unat len_b)" by simp
  then have "0 < length value" using v by linarith
  then have "value \<noteq> []" by simp
  moreover have "unat pos_b div 8 < length data" using data l by linarith
  ultimately show ?thesis using cover_one_byte [OF assms(1) True] by blast
next
  case False
  then show ?thesis using assms by (intro cover_many_bytes) auto
qed

text \<open>
  C1. \<open>pofbf_cover_bit\<close> on a field inside the buffer, with a value buffer that covers the
  bytes the field spans: it returns, keeps the length, puts the bits of the value at the
  field, and leaves every other bit alone but for the or-ed positions \<open>cover_leak\<close>; where the
  value has zeros behind the field (as the controller sends it) there is no such effect and
  the result is exactly the replacement of the field.
\<close>

theorem pofbf_cover_bit_correct:
  assumes "0 < len_b" and "8 \<le> unat len_b \<or> unat pos_b mod 8 + unat len_b \<le> 8"
    and "unat pos_b + unat len_b \<le> 8 * length data"
    and "byte_ceil (unat pos_b mod 8 + unat len_b) \<le> length value"
    and "\<forall>k < 8 * length value. unat len_b \<le> k \<and> k < unat len_b + 8 \<longrightarrow> \<not> bit_at value k"
  shows "\<exists>res. pofbf_cover_bit data value pos_b len_b = Some res \<and> length res = length data
    \<and> bits_from res (unat pos_b) (unat len_b) = bits_from value 0 (unat len_b)
    \<and> (\<forall>i < 8 * length data. i < unat pos_b \<or> unat pos_b + unat len_b \<le> i
          \<longrightarrow> bit_at res i = bit_at data i)"
proof -
  obtain res where res: "pofbf_cover_bit data value pos_b len_b = Some res" "length res = length data"
    and bits: "\<And>i. i < 8 * length res \<Longrightarrow>
      bit_at res i = cover_bit_at data value (unat pos_b) (unat len_b) i"
    using cover_bit_ok [OF assms(1-4)] by blast
  have leak: "\<not> bit_at value (i - unat pos_b)" if "cover_leak (unat pos_b) (unat len_b) i" for i
  proof -
    let ?e = "unat pos_b + unat len_b - 1"
    have "?e + 1 \<le> i" "i div 8 = ?e div 8" "0 < unat len_b" "i mod 8 < unat pos_b mod 8"
      using that assms(1) by (auto simp: cover_leak_def unat_gt_0 word_gt_0)
    moreover have "i = 8 * (i div 8) + i mod 8" "8 * (?e div 8) \<le> ?e" by simp_all
    moreover have "unat pos_b mod 8 + unat len_b \<le> 8 * length value"
      using assms(4) byte_ceil_bounds(1) [of "unat pos_b mod 8 + unat len_b"] by linarith
    moreover have "unat pos_b mod 8 < 8" by simp
    ultimately have "unat len_b \<le> i - unat pos_b" "i - unat pos_b < unat len_b + 8"
      and "i - unat pos_b < 8 * length value"
      by linarith+
    then show ?thesis using assms(5) by blast
  qed
  have "bits_from res (unat pos_b) (unat len_b) = bits_from value 0 (unat len_b)"
    using assms(3) res(2) by (intro nth_equalityI) (auto simp: bits cover_bit_at_def)
  moreover have "\<forall>i < 8 * length data. i < unat pos_b \<or> unat pos_b + unat len_b \<le> i
          \<longrightarrow> bit_at res i = bit_at data i"
    using res(2) leak by (auto simp: bits cover_bit_at_def) (auto simp: cover_leak_def)
  ultimately show ?thesis using res by blast
qed

lemma pofbf_cover_bit_correct_witness:
  "\<exists>res. pofbf_cover_bit [0xff, 0xff, 0xff] [0x12, 0x30, 0] 4 12 = Some res
    \<and> length res = length [0xff, 0xff, 0xff :: u8]
    \<and> bits_from res 4 12 = bits_from [0x12, 0x30, 0] 0 12"
proof -
  have z: "\<forall>k < 8 * length [0x12, 0x30, 0 :: u8]. unat (12 :: u16) \<le> k \<and> k < unat (12 :: u16) + 8
      \<longrightarrow> \<not> bit_at [0x12, 0x30, 0] k"
  proof (intro allI impI)
    fix k :: nat assume "unat (12 :: u16) \<le> k \<and> k < unat (12 :: u16) + 8"
    then have "k \<in> {12, 13, 14, 15, 16, 17, 18, 19}" by auto
    then show "\<not> bit_at [0x12, 0x30, 0] k" by (auto simp: bit_at_def)
  qed
  show ?thesis
    using pofbf_cover_bit_correct [of 12 4 "[0xff, 0xff, 0xff]" "[0x12, 0x30, 0]", OF _ _ _ _ z]
    by (simp add: byte_ceil_def) blast
qed

lemma cover_bit_loop_faults:
  assumes "4294967000 \<le> unat bound" "unat p + 8 * (length data - ptr) < 4294967000"
  shows "cover_bit_loop px bound data value ptr vp p = None"
  using assms(2)
proof (induction "length data - ptr" arbitrary: data ptr vp p rule: less_induct)
  case less
  have lt: "p < bound" using less.prems assms(1) by (simp add: word_less_nat_alt)
  show ?case
  proof (cases "ptr + 1 < length data")
    case True
    have "unat (p + 8) = unat p + 8"
      using less.prems True by (subst unat_plus_if') simp
    then have "cover_bit_loop px bound (data[ptr + 1 := x]) value (ptr + 1) (vp + 1) (p + 8) = None" for x
      using less.prems True by (intro less.hyps) auto
    then show ?thesis
      using lt by (subst cover_bit_loop.simps) (auto simp: rd_def wr_def)
  next
    case False
    then show ?thesis
      using lt by (subst cover_bit_loop.simps) (auto simp: rd_def wr_def)
  qed
qed

text \<open>
  A field of fewer than eight bits that crosses a byte boundary: the guard of the middle
  loop, \<^verbatim>\<open>process_len_b < (len_b-8)\<close>, compares unsigned and stays true, so the routine runs on
  until it reads or writes outside its buffers, whatever their contents and lengths (below
  \<open>2 ^ 28\<close> bytes).
\<close>

theorem pofbf_cover_bit_short_crossing_faults:
  assumes "unat len_b < 8" "8 < unat pos_b mod 8 + unat len_b" "length data < 2 ^ 28"
  shows "pofbf_cover_bit data value pos_b len_b = None"
proof -
  have "unat (ucast len_b - 8 :: u32) = 4294967288 + unat len_b"
    using assms(1) by (subst unat_sub_if') simp
  then have "cover_bit_loop (unat pos_b mod 8) (ucast len_b - 8) data1 value (unat pos_b div 8) 0
      (of_nat (8 - unat pos_b mod 8)) = None" if "length data1 = length data" for data1
    using that assms(3) unat_of_nat_u32 [of "8 - unat pos_b mod 8"]
    by (intro cover_bit_loop_faults) auto
  moreover have "\<not> unat len_b \<le> 8 - unat pos_b mod 8" using assms(2) by linarith
  ultimately show ?thesis
    by (auto simp: pofbf_cover_bit_def Let_def rd_def wr_def)
qed

lemma pofbf_cover_bit_short_crossing_faults_witness:
  "pofbf_cover_bit [0, 0, 0, 0] [0xf0, 0, 0, 0] 6 4 = None"
  using pofbf_cover_bit_short_crossing_faults [of 4 6 "[0, 0, 0, 0]" "[0xf0, 0, 0, 0]"] by simp

text \<open>
  Two further deviations, on concrete inputs: bits of the value behind a 12-bit field at bit 6
  reach the bits after it, and an empty field at a byte boundary other than the first byte
  overwrites a whole byte.
\<close>

lemma cover_bit_leaks: "pofbf_cover_bit [0, 0, 0] [0, 0x0f, 0] 6 12 = Some [0, 0, 0x3c]"
  by code_simp

lemma cover_bit_empty_field: "pofbf_cover_bit [1, 2] [0xff] 8 0 = Some [1, 0xff]"
  by code_simp

section \<open>Reading a field\<close>

lemma copy_bit_ok:
  assumes len: "0 < len_b"
    and ori: "unat offset_b div 8 + byte_ceil (unat len_b) < length ori"
    and res: "byte_ceil (unat len_b) \<le> length res"
  shows "\<exists>out. pofbf_copy_bit (Some ori) (Some res) offset_b len_b = Some (Some out)
    \<and> length out = length res
    \<and> (\<forall>i < 8 * length out. bit_at out i =
         (if i < unat len_b then bit_at ori (unat offset_b + i)
          else 8 * byte_ceil (unat len_b) \<le> i \<and> bit_at res i))"
proof -
  define B where "B = unat offset_b div 8"
  define s where "s = unat offset_b mod 8"
  define l where "l = unat len_b"
  define n where "n = byte_ceil l"
  have pos: "unat offset_b = 8 * B + s" by (simp add: B_def s_def)
  have s7: "s \<le> 7" by (simp add: s_def)
  have l0: "0 < l" using len by (simp add: l_def unat_gt_0 word_gt_0)
  have n: "l \<le> 8 * n" "8 * n < l + 8" "0 < n"
    using byte_ceil_bounds [of l] l0 by (simp_all add: n_def)
  have l16: "l < 65536" using unat_u16_less [of len_b] by (simp add: l_def)
  have "\<exists>res'. copy_bit_loop ori s (ucast len_b) res B 0 0 = Some (res', 0 + n, 0 + 8 * of_nat n)
           \<and> length res' = length res
           \<and> (\<forall>i < length res. res' ! i =
                (if 0 \<le> i \<and> i < 0 + n then splice s ori (B + (i - 0)) else res ! i))"
    using ori res s7 l16
    by (intro copy_bit_loop_result) (auto simp: n_def l_def byte_ceil_def B_def)
  then obtain r where loop: "copy_bit_loop ori s (ucast len_b) res B 0 0 = Some (r, n, 8 * of_nat n)"
    and lenr: "length r = length res"
    and r: "\<And>i. i < length res \<Longrightarrow> r ! i = (if i < n then splice s ori (B + i) else res ! i)"
    by auto
  have k: "unat (8 * of_nat n - ucast len_b :: u32) = 8 * n - l"
  proof -
    have "(8 * of_nat n - ucast len_b :: u32) = of_nat (8 * n - l)"
      using n by (simp add: of_nat_diff l_def)
    then have "unat (8 * of_nat n - ucast len_b :: u32) = unat (of_nat (8 * n - l) :: u32)"
      by (simp only:)
    also have "\<dots> = 8 * n - l" using n by (intro unat_of_nat_u32) linarith
    finally show ?thesis .
  qed
  have nres: "n \<le> length res" using res by (simp add: n_def l_def)
  define last where "last = splice s ori (B + (n - 1)) AND POF_MOVE_BIT_LEFT 0xff (8 * n - l)"
  have out: "pofbf_copy_bit (Some ori) (Some res) offset_b len_b = Some (Some (r[n - 1 := last]))"
    using loop n nres lenr r [of "n - 1"]
    by (simp add: pofbf_copy_bit_def rd_Some wr_Some k last_def flip: B_def s_def)
  have "\<forall>i < 8 * length (r[n - 1 := last]). bit_at (r[n - 1 := last]) i =
         (if i < l then bit_at ori (8 * B + s + i) else 8 * n \<le> i \<and> bit_at res i)"
  proof (rule bit_at_byteI)
    fix b j assume "b < length (r[n - 1 := last])" and j: "(j::nat) < 8"
    then have b: "b < length res" using lenr by simp
    have sp: "bit (splice s ori (B + b)) (7 - j) = bit_at ori (8 * B + s + (8 * b + j))"
      using bit_splice [of s j ori "B + b"] s7 j by (simp add: algebra_simps)
    consider "b < n - 1" | "b = n - 1" | "n \<le> b" by linarith
    then show "bit (r[n - 1 := last] ! b) (7 - j) =
         (if 8 * b + j < l then bit_at ori (8 * B + s + (8 * b + j))
          else 8 * n \<le> 8 * b + j \<and> bit_at res (8 * b + j))"
    proof cases
      case 1
      then have "8 * b + j < l" "b < n" using n j by linarith+
      then show ?thesis using 1 r [OF b] sp by simp
    next
      case 2
      then have "8 * n - l \<le> 7 - j \<longleftrightarrow> 8 * b + j < l" "\<not> 8 * n \<le> 8 * b + j"
        using n j by linarith+
      then show ?thesis using 2 b lenr sp j by (auto simp: last_def bit_and_iff)
    next
      case 3
      then have "\<not> 8 * b + j < l" "8 * n \<le> 8 * b + j" using n j by linarith+
      then show ?thesis using 3 r [OF b] n j by (simp add: bit_at_byte)
    qed
  qed
  then show ?thesis
    using out lenr by (simp only: pos n_def l_def) auto
qed

text \<open>
  \<open>pofbf_copy_bit\<close> on a non-empty field, with one readable byte behind the last byte it
  needs: it returns, the first bits of the result are the field, the rest of the last byte
  is cleared and the bytes of the result buffer behind it are kept.
\<close>

theorem pofbf_copy_bit_correct:
  assumes "0 < len_b"
    and "unat offset_b div 8 + byte_ceil (unat len_b) < length ori"
    and "byte_ceil (unat len_b) \<le> length res"
  shows "\<exists>out. pofbf_copy_bit (Some ori) (Some res) offset_b len_b = Some (Some out)
    \<and> length out = length res
    \<and> bits_from out 0 (unat len_b) = bits_from ori (unat offset_b) (unat len_b)
    \<and> (\<forall>i. unat len_b \<le> i \<and> i < 8 * byte_ceil (unat len_b) \<longrightarrow> \<not> bit_at out i)
    \<and> drop (byte_ceil (unat len_b)) out = drop (byte_ceil (unat len_b)) res"
proof -
  let ?n = "byte_ceil (unat len_b)"
  obtain out where out: "pofbf_copy_bit (Some ori) (Some res) offset_b len_b = Some (Some out)"
    and len: "length out = length res"
    and bits: "\<And>i. i < 8 * length out \<Longrightarrow> bit_at out i =
         (if i < unat len_b then bit_at ori (unat offset_b + i) else 8 * ?n \<le> i \<and> bit_at res i)"
    using copy_bit_ok [OF assms] by blast
  have n: "unat len_b \<le> 8 * ?n" "8 * ?n \<le> 8 * length out"
    using byte_ceil_bounds(1) assms(3) len by auto
  have "drop ?n out = drop ?n res"
  proof (subst bytes_eq_iff_bit_at)
    show "\<forall>i < 8 * length (drop ?n out). bit_at (drop ?n out) i = bit_at (drop ?n res) i"
      using n len by (auto simp: bit_at_drop bits)
  qed (simp add: len)
  moreover have "bits_from out 0 (unat len_b) = bits_from ori (unat offset_b) (unat len_b)"
    using n by (intro nth_equalityI) (auto simp: bits)
  moreover have "\<not> bit_at out i" if "unat len_b \<le> i" "i < 8 * ?n" for i
    using that n by (simp add: bits)
  ultimately show ?thesis using out len by blast
qed

lemma pofbf_copy_bit_correct_witness:
  "\<exists>out. pofbf_copy_bit (Some [0xab, 0xcd, 0xef]) (Some [0, 0, 7]) 4 12 = Some (Some out)
    \<and> bits_from out 0 12 = bits_from [0xab, 0xcd, 0xef] 4 12
    \<and> drop 2 out = [7]"
  using pofbf_copy_bit_correct [of 12 4 "[0xab, 0xcd, 0xef]" "[0, 0, 7]"]
  by (simp add: byte_ceil_def) blast

text \<open>
  C11. Round trip: a field written with \<open>pofbf_cover_bit\<close> and read back with
  \<open>pofbf_copy_bit\<close> at the same position gives the value's bits again.
\<close>

theorem cover_copy_roundtrip:
  assumes "0 < len_b" and "8 \<le> unat len_b \<or> unat pos_b mod 8 + unat len_b \<le> 8"
    and "unat pos_b div 8 + byte_ceil (unat len_b) < length data"
    and "unat pos_b + unat len_b \<le> 8 * length data"
    and "byte_ceil (unat pos_b mod 8 + unat len_b) \<le> length value"
    and "byte_ceil (unat len_b) \<le> length res"
  shows "\<exists>data' out. pofbf_cover_bit data value pos_b len_b = Some data'
    \<and> pofbf_copy_bit (Some data') (Some res) pos_b len_b = Some (Some out)
    \<and> bits_from out 0 (unat len_b) = bits_from value 0 (unat len_b)"
proof -
  obtain d where d: "pofbf_cover_bit data value pos_b len_b = Some d" "length d = length data"
    and dbits: "\<And>i. i < 8 * length d \<Longrightarrow>
      bit_at d i = cover_bit_at data value (unat pos_b) (unat len_b) i"
    using cover_bit_ok [OF assms(1,2,4,5)] by blast
  have "unat pos_b div 8 + byte_ceil (unat len_b) < length d" using assms(3) d(2) by simp
  then obtain out where out: "pofbf_copy_bit (Some d) (Some res) pos_b len_b = Some (Some out)"
    and len: "length out = length res"
    and bits: "\<And>i. i < 8 * length out \<Longrightarrow> bit_at out i = (if i < unat len_b
         then bit_at d (unat pos_b + i) else 8 * byte_ceil (unat len_b) \<le> i \<and> bit_at res i)"
    using copy_bit_ok [OF assms(1) _ assms(6)] by blast
  have "unat len_b \<le> 8 * length out"
    using byte_ceil_bounds(1) [of "unat len_b"] assms(6) len by linarith
  then have "bits_from out 0 (unat len_b) = bits_from value 0 (unat len_b)"
    using assms(4) d(2) by (intro nth_equalityI) (auto simp: bits dbits cover_bit_at_def)
  then show ?thesis using d(1) out by blast
qed

lemma cover_copy_roundtrip_witness:
  "\<exists>data' out. pofbf_cover_bit [1, 2, 3, 4] [0xab, 0xcd, 0xef] 3 13 = Some data'
    \<and> pofbf_copy_bit (Some data') (Some [0, 0]) 3 13 = Some (Some out)
    \<and> bits_from out 0 13 = bits_from [0xab, 0xcd, 0xef] 0 13"
  using cover_copy_roundtrip [of 13 3 "[1, 2, 3, 4]" "[0xab, 0xcd, 0xef]" "[0, 0]"]
  by (simp add: byte_ceil_def)

end
