(* ===== verification/Pof_Global.thy ===== *)
theory Pof_Global
  imports Pof_Prelude
begin

text \<open>
  The program-wide vocabulary of \<^verbatim>\<open>include/pof_global.h\<close> and \<^verbatim>\<open>include/pof_conn.h\<close>: the error
  types and codes, the message types, the channel states, the return values, and the state
  \<open>glob\<close> of the process outside the forwarding resources (allocator, transaction ids, last
  error, control channel and its send queue, frames handed to the network).
\<close>

section \<open>Enumerations\<close>

text \<open>The error types and codes of \<^verbatim>\<open>include/pof_global.h\<close>, one datatype per enumeration.\<close>

datatype pof_error_type =
    POFET_HELLO_FAILED
  | POFET_BAD_REQUEST
  | POFET_BAD_ACTION
  | POFET_BAD_INSTRUCTION
  | POFET_BAD_MATCH
  | POFET_FLOW_MOD_FAILED
  | POFET_GROUP_MOD_FAILED
  | POFET_PORT_MOD_FAILED
  | POFET_TABLE_MOD_FAILED
  | POFET_QUEUE_OP_FAILED
  | POFET_SWITCH_CONFIG_FAILED
  | POFET_ROLE_REQUEST_FAILED
  | POFET_METER_MOD_FAILED
  | POFET_TABLE_FEATURES_FAILED
  | POFET_SOFTWARE_FAILED
  | POFET_COUNTER_MOD_FAILED
  | POFET_EXPERIMENTER

datatype pof_hello_failed_code =
    POFHFC_INCOMPATIBLE
  | POFHFC_EPERM

datatype pof_bad_request_code =
    POFBRC_BAD_VERSION
  | POFBRC_BAD_TYPE
  | POFBRC_BAD_MULTIPART
  | POFBRC_BAD_EXPERIMENTER
  | POFBRC_BAD_EXP_TYPE
  | POFBRC_EPERM
  | POFBRC_BAD_LEN
  | POFBRC_BUFFER_EMPTY
  | POFBRC_BUFFER_UNKNOWN
  | POFBRC_BAD_TABLE_ID
  | POFBRC_IS_SLAVE
  | POFBRC_BAD_PORT
  | POFBRC_BAD_PACKET
  | POFBRC_MULTIPART_BUFFER_OVERFLOW

datatype pof_bad_action_code =
    POFBAC_BAD_TYPE
  | POFBAC_BAD_LEN
  | POFBAC_BAD_EXPERIMENTER
  | POFBAC_BAD_EXP_TYPE
  | POFBAC_BAD_OUT_PORT
  | POFBAC_BAD_ARGUMENT
  | POFBAC_EPERM
  | POFBAC_TOO_MANY
  | POFBAC_BAD_QUEUE
  | POFBAC_BAD_OUT_GROUP
  | POFBAC_MATCH_INCONSISTENT
  | POFBAC_UNSUPPORTED_ORDER
  | POFBAC_BAD_TAG
  | POFBAC_BAD_SET_TYPE
  | POFBAC_BAD_SET_LEN
  | POFBAC_BAD_SET_ARGUMENT
  | POFBAC_BAD_TABLE_ID

datatype pof_bad_instruction_code =
    POFBIC_UNKNOWN_INST
  | POFBIC_UNSUP_INST
  | POFBIC_BAD_TABLE_ID
  | POFBIC_BAD_TABLE_TYPE
  | POFBIC_UNSUP_METADATA
  | POFBIC_UNSUP_METADATA_MASK
  | POFBIC_BAD_EXPERIMENTER
  | POFBIC_BAD_EXP_TYPE
  | POFBIC_BAD_LEN
  | POFBIC_EPERM
  | POFBIC_TOO_MANY_ACTIONS
  | POFBIC_TABLE_UNEXIST
  | POFBIC_ENTRY_UNEXIST
  | POFBIC_BAD_OFFSET
  | POFBIC_JUM_TO_INVALID_INST

datatype pof_bad_match_code =
    POFBMC_BAD_TYPE
  | POFBMC_BAD_LEN
  | POFBMC_BAD_TAG
  | POFBMC_BAD_DL_ADDR_MASK
  | POFBMC_BAD_NW_ADDR_MASK
  | POFBMC_BAD_WILDCARDS
  | POFBMC_BAD_FIELD
  | POFBMC_BAD_VALUE
  | POFBMC_BAD_MASK
  | POFBMC_BAD_PREREQ
  | POFBMC_DUP_FIELD
  | POFBMC_EPERM

datatype pof_flow_mod_failed_code =
    POFFMFC_UNKNOWN
  | POFFMFC_TABLE_FULL
  | POFFMFC_BAD_TABLE_ID
  | POFFMFC_OVERLAP
  | POFFMFC_EPERM
  | POFFMFC_BAD_TIMEOUT
  | POFFMFC_BAD_COMMAND
  | POFFMFC_BAD_FLAGS
  | POFFMFC_ENTRY_EXIST
  | POFFMFC_ENTRY_UNEXIST
  | POFFMFC_BAD_TABLE_TYPE
  | POFFMFC_BAD_ENTRY_ID
  | POFFMFC_BAD_COUNTER_ID

datatype pof_table_mod_failed_code =
    POFTMFC_UNKNOWN
  | POFTMFC_BAD_COMMAND
  | POFTMFC_BAD_TABLE_TYPE
  | POFTMFC_BAD_TABLE_ID
  | POFTMFC_TABLE_EXIST
  | POFTMFC_TABLE_UNEXIST
  | POFTMFC_BAD_TABLE_SIZE
  | POFTMFC_BAD_KEY_LEN
  | POFTMFC_TABLE_UNEMPTY

datatype pof_group_mod_failed_code =
    POFGMFC_GROUP_EXISTS
  | POFGMFC_INVALID_GROUP
  | POFGMFC_WEIGHT_UNSUPPORTED
  | POFGMFC_OUT_OF_GROUPS
  | POFGMFC_OUT_OF_BUCKETS
  | POFGMFC_CHAINING_UNSUPPORTED
  | POFGMFC_WATCH_UNSUPPORTED
  | POFGMFC_LOOP
  | POFGMFC_UNKNOWN_GROUP
  | POFGMFC_CHAINED_GROUP
  | POFGMFC_BAD_TYPE
  | POFGMFC_BAD_COMMAND
  | POFGMFC_BAD_BUCKET
  | POFGMFC_BAD_WATCH
  | POFGMFC_EPERM
  | POFGMFC_BAD_COUNTER_ID

datatype pof_meter_mod_failed_code =
    POFMMFC_UNKNOWN
  | POFMMFC_METER_EXISTS
  | POFMMFC_INVALID_METER
  | POFMMFC_UNKNOWN_METER
  | POFMMFC_BAD_COMMAND
  | POFMMFC_BAD_FLAGS
  | POFMMFC_BAD_RATE
  | POFMMFC_BAD_BURST
  | POFMMFC_BAD_BAND
  | POFMMFC_BAD_BAND_VALUE
  | POFMMFC_OUT_OF_METERS
  | POFMMFC_OUT_OF_BANDS

datatype pof_port_mod_failed_code =
    POFPMFC_UNKNOWN
  | POFPMFC_BAD_PORT_ID

datatype pof_counter_mod_failed_code =
    POFCMFC_UNKNOWN
  | POFCMFC_BAD_COUNTER_ID
  | POFCMFC_BAD_COMMAND
  | POFCMFC_COUNTER_UNEXIST
  | POFCMFC_COUNTER_EXIST

datatype pof_soft_error =
    POF_GET_PORT_INFO_FAILURE
  | POF_PACKET_LEN_ERROR
  | POF_METADATA_LEN_ERROR
  | POF_PARA_LEN_ERROR
  | POF_FIELD_LEN_ERROR
  | POF_ALLOCATE_RESOURCE_FAILURE
  | POF_ADD_EXIST_FLOW
  | POF_DELETE_UNEXIST_FLOW
  | POF_COUNTER_REQUEST_FAILURE
  | POF_DELETE_NOT_EMPTY_TABLE
  | POF_INVALID_SLOT_ID
  | POF_INVALID_TABLE_TYPE
  | POF_INVALID_KEY_LENGTH
  | POF_INVALID_TABLE_SIZE
  | POF_INVALID_MATCH_KEY
  | POF_UNSUPPORT_INSTRUTION_LENGTH
  | POF_UNSUPPORT_INSTRUTION_TYPE
  | POF_UNSUPPORT_ACTION_LENGTH
  | POF_UNSUPPORT_ACTION_TYPE
  | POF_TABLE_NOT_CREATED
  | POF_UNSUPPORT_COMMAND
  | POF_UNSUPPORT_FLOW_TABLE_COMMAND
  | POF_UPWARD_TOO_LARGE_PACKET
  | POF_BAD_TABLE_ID
  | POF_BAD_TABLE_TYPE
  | POF_PORT_DELETE_FAIL
  | POF_BAD_INS_BLOCK_ID
  | POF_CREATE_SOCKET_FAILURE
  | POF_CONNECT_SERVER_FAILURE
  | POF_SEND_MSG_FAILURE
  | POF_RECEIVE_MSG_FAILURE
  | POF_WRONG_CHANNEL_STATE
  | POF_WRITE_MSG_QUEUE_FAILURE
  | POF_READ_MSG_QUEUE_FAILURE
  | POF_MESSAGE_SIZE_TOO_BIG
  | POF_BIND_SOCKET_FAILURE
  | POF_QUEUE_CREATE_FAIL
  | POF_QUEUE_DELETE_FAIL
  | POF_TASK_CREATE_FAIL
  | POF_TASK_DELETE_FAIL
  | POF_TIMER_CREATE_FAIL
  | POF_TIMER_DELETE_FAIL
  | POF_PTR_NULL
  | POF_IPC_SEND_FAILURE

datatype pof_type =
    POFT_HELLO
  | POFT_ERROR
  | POFT_ECHO_REQUEST
  | POFT_ECHO_REPLY
  | POFT_EXPERIMENTER
  | POFT_FEATURES_REQUEST
  | POFT_FEATURES_REPLY
  | POFT_GET_CONFIG_REQUEST
  | POFT_GET_CONFIG_REPLY
  | POFT_SET_CONFIG
  | POFT_PACKET_IN
  | POFT_FLOW_REMOVED
  | POFT_PORT_STATUS
  | POFT_RESOURCE_REPORT
  | POFT_PACKET_OUT
  | POFT_FLOW_MOD
  | POFT_GROUP_MOD
  | POFT_PORT_MOD
  | POFT_TABLE_MOD
  | POFT_MULTIPART_REQUEST
  | POFT_MULTIPART_REPLY
  | POFT_BARRIER_REQUEST
  | POFT_BARRIER_REPLY
  | POFT_QUEUE_GET_CONFIG_REQUEST
  | POFT_QUEUE_GET_CONFIG_REPLY
  | POFT_ROLE_REQUEST
  | POFT_ROLE_REPLY
  | POFT_GET_ASYNC_REQUEST
  | POFT_GET_ASYNC_REPLY
  | POFT_SET_ASYNC
  | POFT_METER_MOD
  | POFT_COUNTER_MOD
  | POFT_COUNTER_REQUEST
  | POFT_COUNTER_REPLY
  | POFT_QUERYALL_REQUEST
  | POFT_QUERYALL_FIN

text \<open>The channel states of \<^verbatim>\<open>include/pof_conn.h\<close>.\<close>

datatype pof_channel_state =
    POFCS_CHANNEL_INVALID
  | POFCS_CHANNEL_CONNECTING
  | POFCS_CHANNEL_CONNECTED
  | POFCS_HELLO
  | POFCS_REQUEST_FEATURE
  | POFCS_SET_CONFIG
  | POFCS_REQUEST_GET_CONFIG
  | POFCS_CHANNEL_RUN
  | POFCS_STATE_MAX

primrec pof_type_val :: "pof_type \<Rightarrow> u8" where
  "pof_type_val POFT_HELLO = 0"
| "pof_type_val POFT_ERROR = 1"
| "pof_type_val POFT_ECHO_REQUEST = 2"
| "pof_type_val POFT_ECHO_REPLY = 3"
| "pof_type_val POFT_EXPERIMENTER = 4"
| "pof_type_val POFT_FEATURES_REQUEST = 5"
| "pof_type_val POFT_FEATURES_REPLY = 6"
| "pof_type_val POFT_GET_CONFIG_REQUEST = 7"
| "pof_type_val POFT_GET_CONFIG_REPLY = 8"
| "pof_type_val POFT_SET_CONFIG = 9"
| "pof_type_val POFT_PACKET_IN = 10"
| "pof_type_val POFT_FLOW_REMOVED = 11"
| "pof_type_val POFT_PORT_STATUS = 12"
| "pof_type_val POFT_RESOURCE_REPORT = 13"
| "pof_type_val POFT_PACKET_OUT = 14"
| "pof_type_val POFT_FLOW_MOD = 15"
| "pof_type_val POFT_GROUP_MOD = 16"
| "pof_type_val POFT_PORT_MOD = 17"
| "pof_type_val POFT_TABLE_MOD = 18"
| "pof_type_val POFT_MULTIPART_REQUEST = 19"
| "pof_type_val POFT_MULTIPART_REPLY = 20"
| "pof_type_val POFT_BARRIER_REQUEST = 21"
| "pof_type_val POFT_BARRIER_REPLY = 22"
| "pof_type_val POFT_QUEUE_GET_CONFIG_REQUEST = 23"
| "pof_type_val POFT_QUEUE_GET_CONFIG_REPLY = 24"
| "pof_type_val POFT_ROLE_REQUEST = 25"
| "pof_type_val POFT_ROLE_REPLY = 26"
| "pof_type_val POFT_GET_ASYNC_REQUEST = 27"
| "pof_type_val POFT_GET_ASYNC_REPLY = 28"
| "pof_type_val POFT_SET_ASYNC = 29"
| "pof_type_val POFT_METER_MOD = 30"
| "pof_type_val POFT_COUNTER_MOD = 31"
| "pof_type_val POFT_COUNTER_REQUEST = 32"
| "pof_type_val POFT_COUNTER_REPLY = 33"
| "pof_type_val POFT_QUERYALL_REQUEST = 34"
| "pof_type_val POFT_QUERYALL_FIN = 35"

primrec pof_error_type_val :: "pof_error_type \<Rightarrow> u16" where
  "pof_error_type_val POFET_HELLO_FAILED = 0"
| "pof_error_type_val POFET_BAD_REQUEST = 1"
| "pof_error_type_val POFET_BAD_ACTION = 2"
| "pof_error_type_val POFET_BAD_INSTRUCTION = 3"
| "pof_error_type_val POFET_BAD_MATCH = 4"
| "pof_error_type_val POFET_FLOW_MOD_FAILED = 5"
| "pof_error_type_val POFET_GROUP_MOD_FAILED = 6"
| "pof_error_type_val POFET_PORT_MOD_FAILED = 7"
| "pof_error_type_val POFET_TABLE_MOD_FAILED = 8"
| "pof_error_type_val POFET_QUEUE_OP_FAILED = 9"
| "pof_error_type_val POFET_SWITCH_CONFIG_FAILED = 10"
| "pof_error_type_val POFET_ROLE_REQUEST_FAILED = 11"
| "pof_error_type_val POFET_METER_MOD_FAILED = 12"
| "pof_error_type_val POFET_TABLE_FEATURES_FAILED = 13"
| "pof_error_type_val POFET_SOFTWARE_FAILED = 14"
| "pof_error_type_val POFET_COUNTER_MOD_FAILED = 15"
| "pof_error_type_val POFET_EXPERIMENTER = 65535"

primrec pof_hello_failed_code_val :: "pof_hello_failed_code \<Rightarrow> u16" where
  "pof_hello_failed_code_val POFHFC_INCOMPATIBLE = 0"
| "pof_hello_failed_code_val POFHFC_EPERM = 1"

primrec pof_hello_failed_code_str :: "pof_hello_failed_code \<Rightarrow> string" where
  "pof_hello_failed_code_str POFHFC_INCOMPATIBLE = ''POFHFC_INCOMPATIBLE''"
| "pof_hello_failed_code_str POFHFC_EPERM = ''POFHFC_EPERM''"

primrec pof_bad_request_code_val :: "pof_bad_request_code \<Rightarrow> u16" where
  "pof_bad_request_code_val POFBRC_BAD_VERSION = 0"
| "pof_bad_request_code_val POFBRC_BAD_TYPE = 1"
| "pof_bad_request_code_val POFBRC_BAD_MULTIPART = 2"
| "pof_bad_request_code_val POFBRC_BAD_EXPERIMENTER = 3"
| "pof_bad_request_code_val POFBRC_BAD_EXP_TYPE = 4"
| "pof_bad_request_code_val POFBRC_EPERM = 5"
| "pof_bad_request_code_val POFBRC_BAD_LEN = 6"
| "pof_bad_request_code_val POFBRC_BUFFER_EMPTY = 7"
| "pof_bad_request_code_val POFBRC_BUFFER_UNKNOWN = 8"
| "pof_bad_request_code_val POFBRC_BAD_TABLE_ID = 9"
| "pof_bad_request_code_val POFBRC_IS_SLAVE = 10"
| "pof_bad_request_code_val POFBRC_BAD_PORT = 11"
| "pof_bad_request_code_val POFBRC_BAD_PACKET = 12"
| "pof_bad_request_code_val POFBRC_MULTIPART_BUFFER_OVERFLOW = 13"

primrec pof_bad_request_code_str :: "pof_bad_request_code \<Rightarrow> string" where
  "pof_bad_request_code_str POFBRC_BAD_VERSION = ''POFBRC_BAD_VERSION''"
| "pof_bad_request_code_str POFBRC_BAD_TYPE = ''POFBRC_BAD_TYPE''"
| "pof_bad_request_code_str POFBRC_BAD_MULTIPART = ''POFBRC_BAD_MULTIPART''"
| "pof_bad_request_code_str POFBRC_BAD_EXPERIMENTER = ''POFBRC_BAD_EXPERIMENTER''"
| "pof_bad_request_code_str POFBRC_BAD_EXP_TYPE = ''POFBRC_BAD_EXP_TYPE''"
| "pof_bad_request_code_str POFBRC_EPERM = ''POFBRC_EPERM''"
| "pof_bad_request_code_str POFBRC_BAD_LEN = ''POFBRC_BAD_LEN''"
| "pof_bad_request_code_str POFBRC_BUFFER_EMPTY = ''POFBRC_BUFFER_EMPTY''"
| "pof_bad_request_code_str POFBRC_BUFFER_UNKNOWN = ''POFBRC_BUFFER_UNKNOWN''"
| "pof_bad_request_code_str POFBRC_BAD_TABLE_ID = ''POFBRC_BAD_TABLE_ID''"
| "pof_bad_request_code_str POFBRC_IS_SLAVE = ''POFBRC_IS_SLAVE''"
| "pof_bad_request_code_str POFBRC_BAD_PORT = ''POFBRC_BAD_PORT''"
| "pof_bad_request_code_str POFBRC_BAD_PACKET = ''POFBRC_BAD_PACKET''"
| "pof_bad_request_code_str POFBRC_MULTIPART_BUFFER_OVERFLOW = ''POFBRC_MULTIPART_BUFFER_OVERFLOW''"

primrec pof_bad_action_code_val :: "pof_bad_action_code \<Rightarrow> u16" where
  "pof_bad_action_code_val POFBAC_BAD_TYPE = 0"
| "pof_bad_action_code_val POFBAC_BAD_LEN = 1"
| "pof_bad_action_code_val POFBAC_BAD_EXPERIMENTER = 2"
| "pof_bad_action_code_val POFBAC_BAD_EXP_TYPE = 3"
| "pof_bad_action_code_val POFBAC_BAD_OUT_PORT = 4"
| "pof_bad_action_code_val POFBAC_BAD_ARGUMENT = 5"
| "pof_bad_action_code_val POFBAC_EPERM = 6"
| "pof_bad_action_code_val POFBAC_TOO_MANY = 7"
| "pof_bad_action_code_val POFBAC_BAD_QUEUE = 8"
| "pof_bad_action_code_val POFBAC_BAD_OUT_GROUP = 9"
| "pof_bad_action_code_val POFBAC_MATCH_INCONSISTENT = 10"
| "pof_bad_action_code_val POFBAC_UNSUPPORTED_ORDER = 11"
| "pof_bad_action_code_val POFBAC_BAD_TAG = 12"
| "pof_bad_action_code_val POFBAC_BAD_SET_TYPE = 13"
| "pof_bad_action_code_val POFBAC_BAD_SET_LEN = 14"
| "pof_bad_action_code_val POFBAC_BAD_SET_ARGUMENT = 15"
| "pof_bad_action_code_val POFBAC_BAD_TABLE_ID = 16"

primrec pof_bad_action_code_str :: "pof_bad_action_code \<Rightarrow> string" where
  "pof_bad_action_code_str POFBAC_BAD_TYPE = ''POFBAC_BAD_TYPE''"
| "pof_bad_action_code_str POFBAC_BAD_LEN = ''POFBAC_BAD_LEN''"
| "pof_bad_action_code_str POFBAC_BAD_EXPERIMENTER = ''POFBAC_BAD_EXPERIMENTER''"
| "pof_bad_action_code_str POFBAC_BAD_EXP_TYPE = ''POFBAC_BAD_EXP_TYPE''"
| "pof_bad_action_code_str POFBAC_BAD_OUT_PORT = ''POFBAC_BAD_OUT_PORT''"
| "pof_bad_action_code_str POFBAC_BAD_ARGUMENT = ''POFBAC_BAD_ARGUMENT''"
| "pof_bad_action_code_str POFBAC_EPERM = ''POFBAC_EPERM''"
| "pof_bad_action_code_str POFBAC_TOO_MANY = ''POFBAC_TOO_MANY''"
| "pof_bad_action_code_str POFBAC_BAD_QUEUE = ''POFBAC_BAD_QUEUE''"
| "pof_bad_action_code_str POFBAC_BAD_OUT_GROUP = ''POFBAC_BAD_OUT_GROUP''"
| "pof_bad_action_code_str POFBAC_MATCH_INCONSISTENT = ''POFBAC_MATCH_INCONSISTENT''"
| "pof_bad_action_code_str POFBAC_UNSUPPORTED_ORDER = ''POFBAC_UNSUPPORTED_ORDER''"
| "pof_bad_action_code_str POFBAC_BAD_TAG = ''POFBAC_BAD_TAG''"
| "pof_bad_action_code_str POFBAC_BAD_SET_TYPE = ''POFBAC_BAD_SET_TYPE''"
| "pof_bad_action_code_str POFBAC_BAD_SET_LEN = ''POFBAC_BAD_SET_LEN''"
| "pof_bad_action_code_str POFBAC_BAD_SET_ARGUMENT = ''POFBAC_BAD_SET_ARGUMENT''"
| "pof_bad_action_code_str POFBAC_BAD_TABLE_ID = ''POFBAC_BAD_TABLE_ID''"

primrec pof_bad_instruction_code_val :: "pof_bad_instruction_code \<Rightarrow> u16" where
  "pof_bad_instruction_code_val POFBIC_UNKNOWN_INST = 0"
| "pof_bad_instruction_code_val POFBIC_UNSUP_INST = 1"
| "pof_bad_instruction_code_val POFBIC_BAD_TABLE_ID = 2"
| "pof_bad_instruction_code_val POFBIC_BAD_TABLE_TYPE = 2"
| "pof_bad_instruction_code_val POFBIC_UNSUP_METADATA = 3"
| "pof_bad_instruction_code_val POFBIC_UNSUP_METADATA_MASK = 4"
| "pof_bad_instruction_code_val POFBIC_BAD_EXPERIMENTER = 5"
| "pof_bad_instruction_code_val POFBIC_BAD_EXP_TYPE = 6"
| "pof_bad_instruction_code_val POFBIC_BAD_LEN = 7"
| "pof_bad_instruction_code_val POFBIC_EPERM = 8"
| "pof_bad_instruction_code_val POFBIC_TOO_MANY_ACTIONS = 9"
| "pof_bad_instruction_code_val POFBIC_TABLE_UNEXIST = 17"
| "pof_bad_instruction_code_val POFBIC_ENTRY_UNEXIST = 18"
| "pof_bad_instruction_code_val POFBIC_BAD_OFFSET = 19"
| "pof_bad_instruction_code_val POFBIC_JUM_TO_INVALID_INST = 20"

primrec pof_bad_instruction_code_str :: "pof_bad_instruction_code \<Rightarrow> string" where
  "pof_bad_instruction_code_str POFBIC_UNKNOWN_INST = ''POFBIC_UNKNOWN_INST''"
| "pof_bad_instruction_code_str POFBIC_UNSUP_INST = ''POFBIC_UNSUP_INST''"
| "pof_bad_instruction_code_str POFBIC_BAD_TABLE_ID = ''POFBIC_BAD_TABLE_ID''"
| "pof_bad_instruction_code_str POFBIC_BAD_TABLE_TYPE = ''POFBIC_BAD_TABLE_TYPE''"
| "pof_bad_instruction_code_str POFBIC_UNSUP_METADATA = ''POFBIC_UNSUP_METADATA''"
| "pof_bad_instruction_code_str POFBIC_UNSUP_METADATA_MASK = ''POFBIC_UNSUP_METADATA_MASK''"
| "pof_bad_instruction_code_str POFBIC_BAD_EXPERIMENTER = ''POFBIC_BAD_EXPERIMENTER''"
| "pof_bad_instruction_code_str POFBIC_BAD_EXP_TYPE = ''POFBIC_BAD_EXP_TYPE''"
| "pof_bad_instruction_code_str POFBIC_BAD_LEN = ''POFBIC_BAD_LEN''"
| "pof_bad_instruction_code_str POFBIC_EPERM = ''POFBIC_EPERM''"
| "pof_bad_instruction_code_str POFBIC_TOO_MANY_ACTIONS = ''POFBIC_TOO_MANY_ACTIONS''"
| "pof_bad_instruction_code_str POFBIC_TABLE_UNEXIST = ''POFBIC_TABLE_UNEXIST''"
| "pof_bad_instruction_code_str POFBIC_ENTRY_UNEXIST = ''POFBIC_ENTRY_UNEXIST''"
| "pof_bad_instruction_code_str POFBIC_BAD_OFFSET = ''POFBIC_BAD_OFFSET''"
| "pof_bad_instruction_code_str POFBIC_JUM_TO_INVALID_INST = ''POFBIC_JUM_TO_INVALID_INST''"

primrec pof_bad_match_code_val :: "pof_bad_match_code \<Rightarrow> u16" where
  "pof_bad_match_code_val POFBMC_BAD_TYPE = 0"
| "pof_bad_match_code_val POFBMC_BAD_LEN = 1"
| "pof_bad_match_code_val POFBMC_BAD_TAG = 2"
| "pof_bad_match_code_val POFBMC_BAD_DL_ADDR_MASK = 3"
| "pof_bad_match_code_val POFBMC_BAD_NW_ADDR_MASK = 4"
| "pof_bad_match_code_val POFBMC_BAD_WILDCARDS = 5"
| "pof_bad_match_code_val POFBMC_BAD_FIELD = 6"
| "pof_bad_match_code_val POFBMC_BAD_VALUE = 7"
| "pof_bad_match_code_val POFBMC_BAD_MASK = 8"
| "pof_bad_match_code_val POFBMC_BAD_PREREQ = 9"
| "pof_bad_match_code_val POFBMC_DUP_FIELD = 10"
| "pof_bad_match_code_val POFBMC_EPERM = 11"

primrec pof_bad_match_code_str :: "pof_bad_match_code \<Rightarrow> string" where
  "pof_bad_match_code_str POFBMC_BAD_TYPE = ''POFBMC_BAD_TYPE''"
| "pof_bad_match_code_str POFBMC_BAD_LEN = ''POFBMC_BAD_LEN''"
| "pof_bad_match_code_str POFBMC_BAD_TAG = ''POFBMC_BAD_TAG''"
| "pof_bad_match_code_str POFBMC_BAD_DL_ADDR_MASK = ''POFBMC_BAD_DL_ADDR_MASK''"
| "pof_bad_match_code_str POFBMC_BAD_NW_ADDR_MASK = ''POFBMC_BAD_NW_ADDR_MASK''"
| "pof_bad_match_code_str POFBMC_BAD_WILDCARDS = ''POFBMC_BAD_WILDCARDS''"
| "pof_bad_match_code_str POFBMC_BAD_FIELD = ''POFBMC_BAD_FIELD''"
| "pof_bad_match_code_str POFBMC_BAD_VALUE = ''POFBMC_BAD_VALUE''"
| "pof_bad_match_code_str POFBMC_BAD_MASK = ''POFBMC_BAD_MASK''"
| "pof_bad_match_code_str POFBMC_BAD_PREREQ = ''POFBMC_BAD_PREREQ''"
| "pof_bad_match_code_str POFBMC_DUP_FIELD = ''POFBMC_DUP_FIELD''"
| "pof_bad_match_code_str POFBMC_EPERM = ''POFBMC_EPERM''"

primrec pof_flow_mod_failed_code_val :: "pof_flow_mod_failed_code \<Rightarrow> u16" where
  "pof_flow_mod_failed_code_val POFFMFC_UNKNOWN = 0"
| "pof_flow_mod_failed_code_val POFFMFC_TABLE_FULL = 1"
| "pof_flow_mod_failed_code_val POFFMFC_BAD_TABLE_ID = 2"
| "pof_flow_mod_failed_code_val POFFMFC_OVERLAP = 3"
| "pof_flow_mod_failed_code_val POFFMFC_EPERM = 4"
| "pof_flow_mod_failed_code_val POFFMFC_BAD_TIMEOUT = 5"
| "pof_flow_mod_failed_code_val POFFMFC_BAD_COMMAND = 6"
| "pof_flow_mod_failed_code_val POFFMFC_BAD_FLAGS = 7"
| "pof_flow_mod_failed_code_val POFFMFC_ENTRY_EXIST = 8"
| "pof_flow_mod_failed_code_val POFFMFC_ENTRY_UNEXIST = 9"
| "pof_flow_mod_failed_code_val POFFMFC_BAD_TABLE_TYPE = 10"
| "pof_flow_mod_failed_code_val POFFMFC_BAD_ENTRY_ID = 11"
| "pof_flow_mod_failed_code_val POFFMFC_BAD_COUNTER_ID = 12"

primrec pof_flow_mod_failed_code_str :: "pof_flow_mod_failed_code \<Rightarrow> string" where
  "pof_flow_mod_failed_code_str POFFMFC_UNKNOWN = ''POFFMFC_UNKNOWN''"
| "pof_flow_mod_failed_code_str POFFMFC_TABLE_FULL = ''POFFMFC_TABLE_FULL''"
| "pof_flow_mod_failed_code_str POFFMFC_BAD_TABLE_ID = ''POFFMFC_BAD_TABLE_ID''"
| "pof_flow_mod_failed_code_str POFFMFC_OVERLAP = ''POFFMFC_OVERLAP''"
| "pof_flow_mod_failed_code_str POFFMFC_EPERM = ''POFFMFC_EPERM''"
| "pof_flow_mod_failed_code_str POFFMFC_BAD_TIMEOUT = ''POFFMFC_BAD_TIMEOUT''"
| "pof_flow_mod_failed_code_str POFFMFC_BAD_COMMAND = ''POFFMFC_BAD_COMMAND''"
| "pof_flow_mod_failed_code_str POFFMFC_BAD_FLAGS = ''POFFMFC_BAD_FLAGS''"
| "pof_flow_mod_failed_code_str POFFMFC_ENTRY_EXIST = ''POFFMFC_ENTRY_EXIST''"
| "pof_flow_mod_failed_code_str POFFMFC_ENTRY_UNEXIST = ''POFFMFC_ENTRY_UNEXIST''"
| "pof_flow_mod_failed_code_str POFFMFC_BAD_TABLE_TYPE = ''POFFMFC_BAD_TABLE_TYPE''"
| "pof_flow_mod_failed_code_str POFFMFC_BAD_ENTRY_ID = ''POFFMFC_BAD_ENTRY_ID''"
| "pof_flow_mod_failed_code_str POFFMFC_BAD_COUNTER_ID = ''POFFMFC_BAD_COUNTER_ID''"

primrec pof_table_mod_failed_code_val :: "pof_table_mod_failed_code \<Rightarrow> u16" where
  "pof_table_mod_failed_code_val POFTMFC_UNKNOWN = 0"
| "pof_table_mod_failed_code_val POFTMFC_BAD_COMMAND = 1"
| "pof_table_mod_failed_code_val POFTMFC_BAD_TABLE_TYPE = 2"
| "pof_table_mod_failed_code_val POFTMFC_BAD_TABLE_ID = 3"
| "pof_table_mod_failed_code_val POFTMFC_TABLE_EXIST = 4"
| "pof_table_mod_failed_code_val POFTMFC_TABLE_UNEXIST = 5"
| "pof_table_mod_failed_code_val POFTMFC_BAD_TABLE_SIZE = 6"
| "pof_table_mod_failed_code_val POFTMFC_BAD_KEY_LEN = 7"
| "pof_table_mod_failed_code_val POFTMFC_TABLE_UNEMPTY = 8"

primrec pof_table_mod_failed_code_str :: "pof_table_mod_failed_code \<Rightarrow> string" where
  "pof_table_mod_failed_code_str POFTMFC_UNKNOWN = ''POFTMFC_UNKNOWN''"
| "pof_table_mod_failed_code_str POFTMFC_BAD_COMMAND = ''POFTMFC_BAD_COMMAND''"
| "pof_table_mod_failed_code_str POFTMFC_BAD_TABLE_TYPE = ''POFTMFC_BAD_TABLE_TYPE''"
| "pof_table_mod_failed_code_str POFTMFC_BAD_TABLE_ID = ''POFTMFC_BAD_TABLE_ID''"
| "pof_table_mod_failed_code_str POFTMFC_TABLE_EXIST = ''POFTMFC_TABLE_EXIST''"
| "pof_table_mod_failed_code_str POFTMFC_TABLE_UNEXIST = ''POFTMFC_TABLE_UNEXIST''"
| "pof_table_mod_failed_code_str POFTMFC_BAD_TABLE_SIZE = ''POFTMFC_BAD_TABLE_SIZE''"
| "pof_table_mod_failed_code_str POFTMFC_BAD_KEY_LEN = ''POFTMFC_BAD_KEY_LEN''"
| "pof_table_mod_failed_code_str POFTMFC_TABLE_UNEMPTY = ''POFTMFC_TABLE_UNEMPTY''"

primrec pof_group_mod_failed_code_val :: "pof_group_mod_failed_code \<Rightarrow> u16" where
  "pof_group_mod_failed_code_val POFGMFC_GROUP_EXISTS = 0"
| "pof_group_mod_failed_code_val POFGMFC_INVALID_GROUP = 1"
| "pof_group_mod_failed_code_val POFGMFC_WEIGHT_UNSUPPORTED = 2"
| "pof_group_mod_failed_code_val POFGMFC_OUT_OF_GROUPS = 3"
| "pof_group_mod_failed_code_val POFGMFC_OUT_OF_BUCKETS = 4"
| "pof_group_mod_failed_code_val POFGMFC_CHAINING_UNSUPPORTED = 5"
| "pof_group_mod_failed_code_val POFGMFC_WATCH_UNSUPPORTED = 6"
| "pof_group_mod_failed_code_val POFGMFC_LOOP = 7"
| "pof_group_mod_failed_code_val POFGMFC_UNKNOWN_GROUP = 8"
| "pof_group_mod_failed_code_val POFGMFC_CHAINED_GROUP = 9"
| "pof_group_mod_failed_code_val POFGMFC_BAD_TYPE = 10"
| "pof_group_mod_failed_code_val POFGMFC_BAD_COMMAND = 11"
| "pof_group_mod_failed_code_val POFGMFC_BAD_BUCKET = 12"
| "pof_group_mod_failed_code_val POFGMFC_BAD_WATCH = 13"
| "pof_group_mod_failed_code_val POFGMFC_EPERM = 14"
| "pof_group_mod_failed_code_val POFGMFC_BAD_COUNTER_ID = 15"

primrec pof_group_mod_failed_code_str :: "pof_group_mod_failed_code \<Rightarrow> string" where
  "pof_group_mod_failed_code_str POFGMFC_GROUP_EXISTS = ''POFGMFC_GROUP_EXISTS''"
| "pof_group_mod_failed_code_str POFGMFC_INVALID_GROUP = ''POFGMFC_INVALID_GROUP''"
| "pof_group_mod_failed_code_str POFGMFC_WEIGHT_UNSUPPORTED = ''POFGMFC_WEIGHT_UNSUPPORTED''"
| "pof_group_mod_failed_code_str POFGMFC_OUT_OF_GROUPS = ''POFGMFC_OUT_OF_GROUPS''"
| "pof_group_mod_failed_code_str POFGMFC_OUT_OF_BUCKETS = ''POFGMFC_OUT_OF_BUCKETS''"
| "pof_group_mod_failed_code_str POFGMFC_CHAINING_UNSUPPORTED = ''POFGMFC_CHAINING_UNSUPPORTED''"
| "pof_group_mod_failed_code_str POFGMFC_WATCH_UNSUPPORTED = ''POFGMFC_WATCH_UNSUPPORTED''"
| "pof_group_mod_failed_code_str POFGMFC_LOOP = ''POFGMFC_LOOP''"
| "pof_group_mod_failed_code_str POFGMFC_UNKNOWN_GROUP = ''POFGMFC_UNKNOWN_GROUP''"
| "pof_group_mod_failed_code_str POFGMFC_CHAINED_GROUP = ''POFGMFC_CHAINED_GROUP''"
| "pof_group_mod_failed_code_str POFGMFC_BAD_TYPE = ''POFGMFC_BAD_TYPE''"
| "pof_group_mod_failed_code_str POFGMFC_BAD_COMMAND = ''POFGMFC_BAD_COMMAND''"
| "pof_group_mod_failed_code_str POFGMFC_BAD_BUCKET = ''POFGMFC_BAD_BUCKET''"
| "pof_group_mod_failed_code_str POFGMFC_BAD_WATCH = ''POFGMFC_BAD_WATCH''"
| "pof_group_mod_failed_code_str POFGMFC_EPERM = ''POFGMFC_EPERM''"
| "pof_group_mod_failed_code_str POFGMFC_BAD_COUNTER_ID = ''POFGMFC_BAD_COUNTER_ID''"

primrec pof_meter_mod_failed_code_val :: "pof_meter_mod_failed_code \<Rightarrow> u16" where
  "pof_meter_mod_failed_code_val POFMMFC_UNKNOWN = 0"
| "pof_meter_mod_failed_code_val POFMMFC_METER_EXISTS = 1"
| "pof_meter_mod_failed_code_val POFMMFC_INVALID_METER = 2"
| "pof_meter_mod_failed_code_val POFMMFC_UNKNOWN_METER = 3"
| "pof_meter_mod_failed_code_val POFMMFC_BAD_COMMAND = 4"
| "pof_meter_mod_failed_code_val POFMMFC_BAD_FLAGS = 5"
| "pof_meter_mod_failed_code_val POFMMFC_BAD_RATE = 6"
| "pof_meter_mod_failed_code_val POFMMFC_BAD_BURST = 7"
| "pof_meter_mod_failed_code_val POFMMFC_BAD_BAND = 8"
| "pof_meter_mod_failed_code_val POFMMFC_BAD_BAND_VALUE = 9"
| "pof_meter_mod_failed_code_val POFMMFC_OUT_OF_METERS = 10"
| "pof_meter_mod_failed_code_val POFMMFC_OUT_OF_BANDS = 11"

primrec pof_meter_mod_failed_code_str :: "pof_meter_mod_failed_code \<Rightarrow> string" where
  "pof_meter_mod_failed_code_str POFMMFC_UNKNOWN = ''POFMMFC_UNKNOWN''"
| "pof_meter_mod_failed_code_str POFMMFC_METER_EXISTS = ''POFMMFC_METER_EXISTS''"
| "pof_meter_mod_failed_code_str POFMMFC_INVALID_METER = ''POFMMFC_INVALID_METER''"
| "pof_meter_mod_failed_code_str POFMMFC_UNKNOWN_METER = ''POFMMFC_UNKNOWN_METER''"
| "pof_meter_mod_failed_code_str POFMMFC_BAD_COMMAND = ''POFMMFC_BAD_COMMAND''"
| "pof_meter_mod_failed_code_str POFMMFC_BAD_FLAGS = ''POFMMFC_BAD_FLAGS''"
| "pof_meter_mod_failed_code_str POFMMFC_BAD_RATE = ''POFMMFC_BAD_RATE''"
| "pof_meter_mod_failed_code_str POFMMFC_BAD_BURST = ''POFMMFC_BAD_BURST''"
| "pof_meter_mod_failed_code_str POFMMFC_BAD_BAND = ''POFMMFC_BAD_BAND''"
| "pof_meter_mod_failed_code_str POFMMFC_BAD_BAND_VALUE = ''POFMMFC_BAD_BAND_VALUE''"
| "pof_meter_mod_failed_code_str POFMMFC_OUT_OF_METERS = ''POFMMFC_OUT_OF_METERS''"
| "pof_meter_mod_failed_code_str POFMMFC_OUT_OF_BANDS = ''POFMMFC_OUT_OF_BANDS''"

primrec pof_port_mod_failed_code_val :: "pof_port_mod_failed_code \<Rightarrow> u16" where
  "pof_port_mod_failed_code_val POFPMFC_UNKNOWN = 0"
| "pof_port_mod_failed_code_val POFPMFC_BAD_PORT_ID = 1"

primrec pof_port_mod_failed_code_str :: "pof_port_mod_failed_code \<Rightarrow> string" where
  "pof_port_mod_failed_code_str POFPMFC_UNKNOWN = ''POFPMFC_UNKNOWN''"
| "pof_port_mod_failed_code_str POFPMFC_BAD_PORT_ID = ''POFPMFC_BAD_PORT_ID''"

primrec pof_counter_mod_failed_code_val :: "pof_counter_mod_failed_code \<Rightarrow> u16" where
  "pof_counter_mod_failed_code_val POFCMFC_UNKNOWN = 0"
| "pof_counter_mod_failed_code_val POFCMFC_BAD_COUNTER_ID = 1"
| "pof_counter_mod_failed_code_val POFCMFC_BAD_COMMAND = 2"
| "pof_counter_mod_failed_code_val POFCMFC_COUNTER_UNEXIST = 3"
| "pof_counter_mod_failed_code_val POFCMFC_COUNTER_EXIST = 4"

primrec pof_counter_mod_failed_code_str :: "pof_counter_mod_failed_code \<Rightarrow> string" where
  "pof_counter_mod_failed_code_str POFCMFC_UNKNOWN = ''POFCMFC_UNKNOWN''"
| "pof_counter_mod_failed_code_str POFCMFC_BAD_COUNTER_ID = ''POFCMFC_BAD_COUNTER_ID''"
| "pof_counter_mod_failed_code_str POFCMFC_BAD_COMMAND = ''POFCMFC_BAD_COMMAND''"
| "pof_counter_mod_failed_code_str POFCMFC_COUNTER_UNEXIST = ''POFCMFC_COUNTER_UNEXIST''"
| "pof_counter_mod_failed_code_str POFCMFC_COUNTER_EXIST = ''POFCMFC_COUNTER_EXIST''"

primrec pof_soft_error_val :: "pof_soft_error \<Rightarrow> u16" where
  "pof_soft_error_val POF_GET_PORT_INFO_FAILURE = 4096"
| "pof_soft_error_val POF_PACKET_LEN_ERROR = 4097"
| "pof_soft_error_val POF_METADATA_LEN_ERROR = 4098"
| "pof_soft_error_val POF_PARA_LEN_ERROR = 4099"
| "pof_soft_error_val POF_FIELD_LEN_ERROR = 4100"
| "pof_soft_error_val POF_ALLOCATE_RESOURCE_FAILURE = 20481"
| "pof_soft_error_val POF_ADD_EXIST_FLOW = 20482"
| "pof_soft_error_val POF_DELETE_UNEXIST_FLOW = 20483"
| "pof_soft_error_val POF_COUNTER_REQUEST_FAILURE = 20484"
| "pof_soft_error_val POF_DELETE_NOT_EMPTY_TABLE = 20485"
| "pof_soft_error_val POF_INVALID_SLOT_ID = 20486"
| "pof_soft_error_val POF_INVALID_TABLE_TYPE = 24576"
| "pof_soft_error_val POF_INVALID_KEY_LENGTH = 24577"
| "pof_soft_error_val POF_INVALID_TABLE_SIZE = 24578"
| "pof_soft_error_val POF_INVALID_MATCH_KEY = 24579"
| "pof_soft_error_val POF_UNSUPPORT_INSTRUTION_LENGTH = 24580"
| "pof_soft_error_val POF_UNSUPPORT_INSTRUTION_TYPE = 24581"
| "pof_soft_error_val POF_UNSUPPORT_ACTION_LENGTH = 24582"
| "pof_soft_error_val POF_UNSUPPORT_ACTION_TYPE = 24583"
| "pof_soft_error_val POF_TABLE_NOT_CREATED = 24584"
| "pof_soft_error_val POF_UNSUPPORT_COMMAND = 24585"
| "pof_soft_error_val POF_UNSUPPORT_FLOW_TABLE_COMMAND = 24586"
| "pof_soft_error_val POF_UPWARD_TOO_LARGE_PACKET = 24587"
| "pof_soft_error_val POF_BAD_TABLE_ID = 24588"
| "pof_soft_error_val POF_BAD_TABLE_TYPE = 24589"
| "pof_soft_error_val POF_PORT_DELETE_FAIL = 24590"
| "pof_soft_error_val POF_BAD_INS_BLOCK_ID = 24591"
| "pof_soft_error_val POF_CREATE_SOCKET_FAILURE = 28673"
| "pof_soft_error_val POF_CONNECT_SERVER_FAILURE = 28674"
| "pof_soft_error_val POF_SEND_MSG_FAILURE = 28675"
| "pof_soft_error_val POF_RECEIVE_MSG_FAILURE = 28676"
| "pof_soft_error_val POF_WRONG_CHANNEL_STATE = 28677"
| "pof_soft_error_val POF_WRITE_MSG_QUEUE_FAILURE = 28678"
| "pof_soft_error_val POF_READ_MSG_QUEUE_FAILURE = 28679"
| "pof_soft_error_val POF_MESSAGE_SIZE_TOO_BIG = 28680"
| "pof_soft_error_val POF_BIND_SOCKET_FAILURE = 28681"
| "pof_soft_error_val POF_QUEUE_CREATE_FAIL = 28682"
| "pof_soft_error_val POF_QUEUE_DELETE_FAIL = 28683"
| "pof_soft_error_val POF_TASK_CREATE_FAIL = 28684"
| "pof_soft_error_val POF_TASK_DELETE_FAIL = 28685"
| "pof_soft_error_val POF_TIMER_CREATE_FAIL = 28686"
| "pof_soft_error_val POF_TIMER_DELETE_FAIL = 28687"
| "pof_soft_error_val POF_PTR_NULL = 28688"
| "pof_soft_error_val POF_IPC_SEND_FAILURE = 32769"

primrec pof_soft_error_str :: "pof_soft_error \<Rightarrow> string" where
  "pof_soft_error_str POF_GET_PORT_INFO_FAILURE = ''POF_GET_PORT_INFO_FAILURE''"
| "pof_soft_error_str POF_PACKET_LEN_ERROR = ''POF_PACKET_LEN_ERROR''"
| "pof_soft_error_str POF_METADATA_LEN_ERROR = ''POF_METADATA_LEN_ERROR''"
| "pof_soft_error_str POF_PARA_LEN_ERROR = ''POF_PARA_LEN_ERROR''"
| "pof_soft_error_str POF_FIELD_LEN_ERROR = ''POF_FIELD_LEN_ERROR''"
| "pof_soft_error_str POF_ALLOCATE_RESOURCE_FAILURE = ''POF_ALLOCATE_RESOURCE_FAILURE''"
| "pof_soft_error_str POF_ADD_EXIST_FLOW = ''POF_ADD_EXIST_FLOW''"
| "pof_soft_error_str POF_DELETE_UNEXIST_FLOW = ''POF_DELETE_UNEXIST_FLOW''"
| "pof_soft_error_str POF_COUNTER_REQUEST_FAILURE = ''POF_COUNTER_REQUEST_FAILURE''"
| "pof_soft_error_str POF_DELETE_NOT_EMPTY_TABLE = ''POF_DELETE_NOT_EMPTY_TABLE''"
| "pof_soft_error_str POF_INVALID_SLOT_ID = ''POF_INVALID_SLOT_ID''"
| "pof_soft_error_str POF_INVALID_TABLE_TYPE = ''POF_INVALID_TABLE_TYPE''"
| "pof_soft_error_str POF_INVALID_KEY_LENGTH = ''POF_INVALID_KEY_LENGTH''"
| "pof_soft_error_str POF_INVALID_TABLE_SIZE = ''POF_INVALID_TABLE_SIZE''"
| "pof_soft_error_str POF_INVALID_MATCH_KEY = ''POF_INVALID_MATCH_KEY''"
| "pof_soft_error_str POF_UNSUPPORT_INSTRUTION_LENGTH = ''POF_UNSUPPORT_INSTRUTION_LENGTH''"
| "pof_soft_error_str POF_UNSUPPORT_INSTRUTION_TYPE = ''POF_UNSUPPORT_INSTRUTION_TYPE''"
| "pof_soft_error_str POF_UNSUPPORT_ACTION_LENGTH = ''POF_UNSUPPORT_ACTION_LENGTH''"
| "pof_soft_error_str POF_UNSUPPORT_ACTION_TYPE = ''POF_UNSUPPORT_ACTION_TYPE''"
| "pof_soft_error_str POF_TABLE_NOT_CREATED = ''POF_TABLE_NOT_CREATED''"
| "pof_soft_error_str POF_UNSUPPORT_COMMAND = ''POF_UNSUPPORT_COMMAND''"
| "pof_soft_error_str POF_UNSUPPORT_FLOW_TABLE_COMMAND = ''POF_UNSUPPORT_FLOW_TABLE_COMMAND''"
| "pof_soft_error_str POF_UPWARD_TOO_LARGE_PACKET = ''POF_UPWARD_TOO_LARGE_PACKET''"
| "pof_soft_error_str POF_BAD_TABLE_ID = ''POF_BAD_TABLE_ID''"
| "pof_soft_error_str POF_BAD_TABLE_TYPE = ''POF_BAD_TABLE_TYPE''"
| "pof_soft_error_str POF_PORT_DELETE_FAIL = ''POF_PORT_DELETE_FAIL''"
| "pof_soft_error_str POF_BAD_INS_BLOCK_ID = ''POF_BAD_INS_BLOCK_ID''"
| "pof_soft_error_str POF_CREATE_SOCKET_FAILURE = ''POF_CREATE_SOCKET_FAILURE''"
| "pof_soft_error_str POF_CONNECT_SERVER_FAILURE = ''POF_CONNECT_SERVER_FAILURE''"
| "pof_soft_error_str POF_SEND_MSG_FAILURE = ''POF_SEND_MSG_FAILURE''"
| "pof_soft_error_str POF_RECEIVE_MSG_FAILURE = ''POF_RECEIVE_MSG_FAILURE''"
| "pof_soft_error_str POF_WRONG_CHANNEL_STATE = ''POF_WRONG_CHANNEL_STATE''"
| "pof_soft_error_str POF_WRITE_MSG_QUEUE_FAILURE = ''POF_WRITE_MSG_QUEUE_FAILURE''"
| "pof_soft_error_str POF_READ_MSG_QUEUE_FAILURE = ''POF_READ_MSG_QUEUE_FAILURE''"
| "pof_soft_error_str POF_MESSAGE_SIZE_TOO_BIG = ''POF_MESSAGE_SIZE_TOO_BIG''"
| "pof_soft_error_str POF_BIND_SOCKET_FAILURE = ''POF_BIND_SOCKET_FAILURE''"
| "pof_soft_error_str POF_QUEUE_CREATE_FAIL = ''POF_QUEUE_CREATE_FAIL''"
| "pof_soft_error_str POF_QUEUE_DELETE_FAIL = ''POF_QUEUE_DELETE_FAIL''"
| "pof_soft_error_str POF_TASK_CREATE_FAIL = ''POF_TASK_CREATE_FAIL''"
| "pof_soft_error_str POF_TASK_DELETE_FAIL = ''POF_TASK_DELETE_FAIL''"
| "pof_soft_error_str POF_TIMER_CREATE_FAIL = ''POF_TIMER_CREATE_FAIL''"
| "pof_soft_error_str POF_TIMER_DELETE_FAIL = ''POF_TIMER_DELETE_FAIL''"
| "pof_soft_error_str POF_PTR_NULL = ''POF_PTR_NULL''"
| "pof_soft_error_str POF_IPC_SEND_FAILURE = ''POF_IPC_SEND_FAILURE''"

text \<open>Any error code, with its number and the name the macros put into the error string.\<close>

datatype err_code =
    HelloE pof_hello_failed_code
  | ReqE pof_bad_request_code
  | ActE pof_bad_action_code
  | InsE pof_bad_instruction_code
  | MatchE pof_bad_match_code
  | FlowE pof_flow_mod_failed_code
  | TableE pof_table_mod_failed_code
  | GroupE pof_group_mod_failed_code
  | MeterE pof_meter_mod_failed_code
  | PortE pof_port_mod_failed_code
  | CounterE pof_counter_mod_failed_code
  | SoftE pof_soft_error

primrec err_val :: "err_code \<Rightarrow> u16" where
  "err_val (HelloE c) = pof_hello_failed_code_val c"
| "err_val (ReqE c) = pof_bad_request_code_val c"
| "err_val (ActE c) = pof_bad_action_code_val c"
| "err_val (InsE c) = pof_bad_instruction_code_val c"
| "err_val (MatchE c) = pof_bad_match_code_val c"
| "err_val (FlowE c) = pof_flow_mod_failed_code_val c"
| "err_val (TableE c) = pof_table_mod_failed_code_val c"
| "err_val (GroupE c) = pof_group_mod_failed_code_val c"
| "err_val (MeterE c) = pof_meter_mod_failed_code_val c"
| "err_val (PortE c) = pof_port_mod_failed_code_val c"
| "err_val (CounterE c) = pof_counter_mod_failed_code_val c"
| "err_val (SoftE c) = pof_soft_error_val c"

primrec err_str :: "err_code \<Rightarrow> string" where
  "err_str (HelloE c) = pof_hello_failed_code_str c"
| "err_str (ReqE c) = pof_bad_request_code_str c"
| "err_str (ActE c) = pof_bad_action_code_str c"
| "err_str (InsE c) = pof_bad_instruction_code_str c"
| "err_str (MatchE c) = pof_bad_match_code_str c"
| "err_str (FlowE c) = pof_flow_mod_failed_code_str c"
| "err_str (TableE c) = pof_table_mod_failed_code_str c"
| "err_str (GroupE c) = pof_group_mod_failed_code_str c"
| "err_str (MeterE c) = pof_meter_mod_failed_code_str c"
| "err_str (PortE c) = pof_port_mod_failed_code_str c"
| "err_str (CounterE c) = pof_counter_mod_failed_code_str c"
| "err_str (SoftE c) = pof_soft_error_str c"

section \<open>Return values\<close>

text \<open>
  A routine returns \<^verbatim>\<open>POF_OK\<close>, the bare \<^verbatim>\<open>POF_ERROR\<close>, or, through the error macros,
  \<^verbatim>\<open>code | 0xF0000000\<close>.
\<close>

datatype ret = POF_OK | POF_ERROR | ERR err_code

primrec ret_val :: "ret \<Rightarrow> u32" where
  "ret_val POF_OK = 0"
| "ret_val POF_ERROR = 0xffff"
| "ret_val (ERR c) = ucast (err_val c) OR 0xF0000000"

lemma ret_val_OK_iff: "ret_val r = 0 \<longleftrightarrow> r = POF_OK"
proof (cases r)
  case (ERR c)
  have "bit (0xF0000000 :: u32) 31" by simp
  then have "bit (ucast (err_val c) OR 0xF0000000 :: u32) 31" by (simp add: bit_or_iff)
  then have "ucast (err_val c) OR 0xF0000000 \<noteq> (0 :: u32)" by auto
  then show ?thesis using ERR by simp
qed simp_all

section \<open>The state of the process\<close>

text \<open>
  \<open>malloc_n\<close> counts the calls of \<^verbatim>\<open>malloc\<close>; the \<open>n\<close>-th call fails when \<open>malloc_fail n\<close> and
  otherwise returns the fresh non-null address \<open>n + 1\<close>. \<open>msgsnd_fail\<close> plays the same part
  for \<^verbatim>\<open>msgsnd\<close> on the queue of the messages to the controller, \<open>sendto_fail\<close> for \<^verbatim>\<open>sendto\<close>
  on a raw socket. \<open>send_queue\<close> holds the messages queued for the controller and \<open>tx\<close> the
  frames sent with the interface they left by, oldest first.
\<close>

record pofec_error =
  pe_type :: pof_error_type
  pe_code :: err_code

text \<open>
  The operating system as the process sees it at one moment: what the system calls the program
  makes would give. The interfaces are looked up by name; an address or a thread id that is
  \<open>None\<close> is a failing call. \<open>os_stream\<close> are the bytes the controller sends on a connection made
  now and \<open>os_read_len\<close> how many of them the network has delivered for a \<^verbatim>\<open>read\<close>. \<open>sys\<close> makes
  one call, at the next moment. \<open>rx\<close> is what is left to read of the stream of the present
  connection and \<open>sent\<close> what was written to it.
\<close>

record os_view =
  os_socket :: "int option"
  os_bind :: bool
  os_ifindex :: "bytes \<Rightarrow> u32 option"
  os_hwaddr :: "bytes \<Rightarrow> bytes option"
  os_ifaddr :: "bytes \<Rightarrow> bytes option"
  os_ifflags :: "bytes \<Rightarrow> u16 option"
  os_ifaddrs :: "(bytes \<times> bool) list option"
  os_thread :: "u64 option"
  os_cancel :: "u64 \<Rightarrow> bool"
  os_self :: u64
  os_connect :: bool
  os_stream :: bytes
  os_sockname :: "bytes option"
  os_read_len :: nat
  os_write :: bool
  os_time :: u64
  os_msgrcv :: bool
  os_msgget :: bool
  os_msgctl :: bool
  os_signal :: bool
  os_setitimer :: bool

record glob =
  malloc_n :: nat
  malloc_fail :: "nat \<Rightarrow> bool"
  g_pofec_error :: "pofec_error option"
  g_recv_xid :: u32
  g_upward_xid :: u32
  g_poflr_dev_id :: u32
  conn_state :: pof_channel_state
  pofec_queue_msg_buf :: bytes
  send_q_valid :: bool
  msgsnd_n :: nat
  msgsnd_fail :: "nat \<Rightarrow> bool"
  send_queue :: "bytes list"
  sendto_n :: nat
  sendto_fail :: "nat \<Rightarrow> bool"
  tx :: "(u32 \<times> bytes) list"
  poflr_key_len :: u32
  poflr_key_len_each_type :: "u16 list"
  local_port_index :: u8
  portIndex :: u8
  portNameList :: "(bytes \<times> u16) list"
  poflr_switch_config :: bytes
  poflr_switch_feature :: bytes
  poflr_table_resource_desc :: bytes
  g_versionStr :: bytes
  pofc_cmd_auto_clear :: bool
  rx :: bytes
  sent :: "bytes list"
  os :: "nat \<Rightarrow> os_view"
  os_n :: nat

definition sys :: "(os_view \<Rightarrow> 'a) \<Rightarrow> glob \<Rightarrow> 'a \<times> glob" where
  "sys call g = (call (os g (os_n g)), g\<lparr>os_n := os_n g + 1\<rparr>)"

definition malloc :: "glob \<Rightarrow> nat option \<times> glob" where
  "malloc g = (let n = malloc_n g; g' = g\<lparr>malloc_n := n + 1\<rparr>
               in (if malloc_fail g n then None else Some (n + 1), g'))"

definition pofec_set_error :: "pof_error_type \<Rightarrow> err_code \<Rightarrow> glob \<Rightarrow> glob" where
  "pofec_set_error type code g = g\<lparr>g_pofec_error := Some \<lparr>pe_type = type, pe_code = code\<rparr>\<rparr>"

text \<open>\<^verbatim>\<open>POF_MALLOC_SAFE_RETURN\<close>: allocate, recording the error on failure.\<close>

definition POF_MALLOC_SAFE :: "glob \<Rightarrow> nat option \<times> glob" where
  "POF_MALLOC_SAFE g =
     (case malloc g of
        (None, g') \<Rightarrow> (None, pofec_set_error POFET_SOFTWARE_FAILED (SoftE POF_ALLOCATE_RESOURCE_FAILURE) g')
      | (Some p, g') \<Rightarrow> (Some p, g'))"

lemma malloc_fresh: "malloc g = (Some p, g') \<Longrightarrow> p = malloc_n g + 1 \<and> malloc_n g' = malloc_n g + 1"
  by (auto simp: malloc_def Let_def split: if_splits)

lemma malloc_n_mono: "malloc_n (snd (malloc g)) = malloc_n g + 1"
  by (simp add: malloc_def Let_def)

lemma set_error_sel [simp]:
  "malloc_n (pofec_set_error t c g) = malloc_n g"
  "malloc_fail (pofec_set_error t c g) = malloc_fail g"
  "send_queue (pofec_set_error t c g) = send_queue g"
  "conn_state (pofec_set_error t c g) = conn_state g"
  by (simp_all add: pofec_set_error_def)

lemma POF_MALLOC_SAFE_fresh:
  "POF_MALLOC_SAFE g = (Some p, g') \<Longrightarrow> p = malloc_n g + 1 \<and> malloc_n g' = malloc_n g + 1"
  by (auto simp: POF_MALLOC_SAFE_def split: prod.splits option.splits dest: malloc_fresh)

end
