(* ===== verification/Pof_Hmap.thy ===== *)
theory Pof_Hmap
  imports Pof_Global
begin

text \<open>
  The intrusive hash map of \<^verbatim>\<open>common/pof_hmap.c\<close>. A node embedded in an object is the
  object's address, the cached hash and the object itself; the singly linked chain that hangs
  off a bucket is a list of nodes. Nodes are identified by address, as the C code does.
  A lookup result \<open>None\<close> outside is undefined behaviour, inside it is \<^verbatim>\<open>NULL\<close>.

  The map is abstracted to its traversal order \<open>hmap_nodes\<close> and to the chain of the nodes that
  carry a given hash, \<open>hmap_chain\<close>, newest first. The locale \<open>hash_store\<close> states the contract
  clients rely on and is interpreted on the model.
\<close>

section \<open>Definitions\<close>

record 'a hnode =
  hn_ptr :: nat
  hn_hash :: u32
  hn_obj :: 'a

record 'a hmap =
  hm_buckets :: "'a hnode list list"
  hm_mask :: u32
  hm_n :: u32

definition hmapInit :: "u32 \<Rightarrow> glob \<Rightarrow> 'a hmap option \<times> glob" where
  "hmapInit bktSize g = (case POF_MALLOC_SAFE g of
      (None, g') \<Rightarrow> (None, g')
    | (Some _, g') \<Rightarrow>
        (Some \<lparr>hm_buckets = replicate (unat bktSize) [], hm_mask = bktSize - 1, hm_n = 0\<rparr>, g'))"

definition bucketsNum :: "u32 \<Rightarrow> u32" where
  "bucketsNum sz = (
     let s = drop_bit 1 sz;
         s = s OR drop_bit 1 s;
         s = s OR drop_bit 2 s;
         s = s OR drop_bit 4 s;
         s = s OR drop_bit 8 s;
         s = s OR drop_bit 16 s
     in s + 1)"

definition hmap_create :: "u32 \<Rightarrow> glob \<Rightarrow> 'a hmap option \<times> glob" where
  "hmap_create sz g = (case POF_MALLOC_SAFE g of
      (None, g') \<Rightarrow> (None, g')
    | (Some _, g') \<Rightarrow> hmapInit (bucketsNum sz) g')"

definition HMAP_BUCKETS_COUNT :: "'a hmap \<Rightarrow> u32" where
  "HMAP_BUCKETS_COUNT m = hm_mask m + 1"

definition hmap_clear :: "'a hmap \<Rightarrow> 'a hmap option" where
  "hmap_clear m = (let c = unat (HMAP_BUCKETS_COUNT m)
     in if c \<le> length (hm_buckets m)
        then Some (m\<lparr>hm_buckets := replicate c [] @ drop c (hm_buckets m), hm_n := 0\<rparr>) else None)"

definition hmap_empty :: "'a hmap \<Rightarrow> bool" where
  "hmap_empty m \<longleftrightarrow> hm_n m = 0"

definition hmap_nodesCountMax :: "'a hmap \<Rightarrow> u32" where
  "hmap_nodesCountMax m = 2 * hm_mask m + 1"

definition bucketWithHash :: "'a hmap \<Rightarrow> u32 \<Rightarrow> nat" where
  "bucketWithHash m hash = unat (hm_mask m AND hash)"

text \<open>\<^verbatim>\<open>NODES_TRAVERSE_IN_BUCKET\<close> with a test that returns the node.\<close>

fun node_find :: "('a hnode \<Rightarrow> bool) \<Rightarrow> 'a hnode list \<Rightarrow> 'a hnode option" where
  "node_find P [] = None"
| "node_find P (node # rest) = (if P node then Some node else node_find P rest)"

definition hmap_nodeGetWithHash :: "'a hmap \<Rightarrow> u32 \<Rightarrow> 'a hnode option option" where
  "hmap_nodeGetWithHash m hash = do {
     bkt \<leftarrow> rd (hm_buckets m) (bucketWithHash m hash);
     Some (node_find (\<lambda>node. hn_hash node = hash) bkt)
   }"

text \<open>
  The loop condition \<^verbatim>\<open>node, node->hash != hash\<close> is the comma operator, so the end of the
  chain is dereferenced: \<open>None\<close>. A node pointer is the rest of the chain that starts there.
\<close>

fun hmap_nodeGetWithHashNext :: "'a hnode list \<Rightarrow> u32 \<Rightarrow> 'a hnode list option" where
  "hmap_nodeGetWithHashNext [] hash = None"
| "hmap_nodeGetWithHashNext (node # rest) hash =
     (if hn_hash node \<noteq> hash then hmap_nodeGetWithHashNext rest hash else Some (node # rest))"

definition hmap_nodePosBktId :: "'a hmap \<Rightarrow> 'a hnode \<Rightarrow> u32" where
  "hmap_nodePosBktId m node = hm_mask m AND hn_hash node"

fun pos_deep :: "nat \<Rightarrow> 'a hnode list \<Rightarrow> u32 \<Rightarrow> u32" where
  "pos_deep p [] deep = 0xffff"
| "pos_deep p (node # rest) deep = (if hn_ptr node = p then deep else pos_deep p rest (deep + 1))"

definition hmap_nodePosDeep :: "'a hmap \<Rightarrow> 'a hnode \<Rightarrow> u32 option" where
  "hmap_nodePosDeep m node = do {
     bkt \<leftarrow> rd (hm_buckets m) (bucketWithHash m (hn_hash node));
     Some (pos_deep (hn_ptr node) bkt 0)
   }"

text \<open>\<^verbatim>\<open>BUCKETS_TRAVERSE\<close> with the test for a non-empty bucket.\<close>

fun first_node :: "'a hnode list list \<Rightarrow> 'a hnode option" where
  "first_node [] = None"
| "first_node (bkt # rest) = (case bkt of node # _ \<Rightarrow> Some node | [] \<Rightarrow> first_node rest)"

definition buckets_traverse :: "'a hmap \<Rightarrow> nat \<Rightarrow> 'a hnode option" where
  "buckets_traverse m start =
     first_node (drop start (take (unat (HMAP_BUCKETS_COUNT m)) (hm_buckets m)))"

text \<open>\<^verbatim>\<open>node->next\<close> of the node with address \<open>p\<close> in its chain: \<open>None\<close> if it is not there.\<close>

fun node_next :: "nat \<Rightarrow> 'a hnode list \<Rightarrow> 'a hnode option option" where
  "node_next p [] = None"
| "node_next p (node # rest) =
     (if hn_ptr node = p then Some (case rest of [] \<Rightarrow> None | n # _ \<Rightarrow> Some n) else node_next p rest)"

definition hmap_nodeNext :: "'a hmap \<Rightarrow> 'a hnode \<Rightarrow> 'a hnode option option" where
  "hmap_nodeNext m node = do {
     bkt \<leftarrow> rd (hm_buckets m) (bucketWithHash m (hn_hash node));
     next \<leftarrow> node_next (hn_ptr node) bkt;
     (case next of
        Some n \<Rightarrow> Some (Some n)
      | None \<Rightarrow> Some (buckets_traverse m (unat ((hm_mask m AND hn_hash node) + 1))))
   }"

definition hmap_nodeFirst :: "'a hmap \<Rightarrow> 'a hnode option" where
  "hmap_nodeFirst m = buckets_traverse m 0"

definition hmap_nodeInsert :: "'a hmap \<Rightarrow> 'a hnode \<Rightarrow> 'a hmap option" where
  "hmap_nodeInsert m node = do {
     let i = bucketWithHash m (hn_hash node);
     bkt \<leftarrow> rd (hm_buckets m) i;
     bkts \<leftarrow> wr (hm_buckets m) i (node # bkt);
     Some (m\<lparr>hm_buckets := bkts, hm_n := hm_n m + 1\<rparr>)
   }"

text \<open>The unlinking loop: the chain without the node, or \<open>None\<close> if it is not on it.\<close>

fun node_unlink :: "nat \<Rightarrow> 'a hnode list \<Rightarrow> 'a hnode list option" where
  "node_unlink p [] = None"
| "node_unlink p (node # rest) =
     (if hn_ptr node = p then Some rest else map_option (Cons node) (node_unlink p rest))"

definition hmap_nodeDelete :: "'a hmap \<Rightarrow> 'a hnode \<Rightarrow> 'a hmap option" where
  "hmap_nodeDelete m node = do {
     let i = bucketWithHash m (hn_hash node);
     bkt \<leftarrow> rd (hm_buckets m) i;
     (case node_unlink (hn_ptr node) bkt of
        None \<Rightarrow> Some m
      | Some bkt' \<Rightarrow> do {
          bkts \<leftarrow> wr (hm_buckets m) i bkt';
          Some (m\<lparr>hm_buckets := bkts, hm_n := hm_n m - 1\<rparr>)
        })
   }"

definition hmap_nodeContain :: "'a hmap \<Rightarrow> 'a hnode \<Rightarrow> bool option" where
  "hmap_nodeContain m node = do {
     bkt \<leftarrow> rd (hm_buckets m) (bucketWithHash m (hn_hash node));
     Some (list_ex (\<lambda>tmp. hn_ptr tmp = hn_ptr node) bkt)
   }"

text \<open>The traversal calls \<^verbatim>\<open>func(arg)\<close> once per node; the node itself is not passed on.\<close>

fun trav_calls :: "('s \<Rightarrow> ret \<times> 's) \<Rightarrow> 'a hnode list \<Rightarrow> 's \<Rightarrow> ret \<times> 's" where
  "trav_calls func [] s = (POF_OK, s)"
| "trav_calls func (node # rest) s =
     (case func s of (r, s') \<Rightarrow> if r \<noteq> POF_OK then (POF_ERROR, s') else trav_calls func rest s')"

definition hmap_nodeTrav :: "'a hmap \<Rightarrow> ('s \<Rightarrow> ret \<times> 's) \<Rightarrow> 's \<Rightarrow> ret \<times> 's" where
  "hmap_nodeTrav m func arg =
     trav_calls func (concat (take (unat (HMAP_BUCKETS_COUNT m)) (hm_buckets m))) arg"

definition hmap_hashForLinear :: "u32 \<Rightarrow> u32" where
  "hmap_hashForLinear value = value"

definition hmap_hashForUint32 :: "u32 \<Rightarrow> u32" where
  "hmap_hashForUint32 value =
     (value + 3 * drop_bit 8 value + 7 * drop_bit 16 value + 13 * drop_bit 24 value) * 0x9E3779B9"

text \<open>The words are read in host order (little endian); a short rest is padded with zeros.\<close>

definition le32 :: "bytes \<Rightarrow> u32" where
  "le32 bs = (case bs of
      a # b # c # d # _ \<Rightarrow> ucast a OR push_bit 8 (ucast b) OR push_bit 16 (ucast c) OR push_bit 24 (ucast d)
    | _ \<Rightarrow> 0)"

fun hash_words :: "bytes \<Rightarrow> u32 \<Rightarrow> u32" where
  "hash_words (a # b # c # d # rest) hash =
     hash_words rest (hash XOR hmap_hashForUint32 (le32 [a, b, c, d]))"
| "hash_words rest hash =
     (if rest = [] then hash
      else hash XOR hmap_hashForUint32 (le32 (take 4 (rest @ [0, 0, 0]))))"

definition hmap_hashForBytes :: "bytes \<Rightarrow> u32" where
  "hmap_hashForBytes value = hash_words value 0"

text \<open>A string is the bytes before its terminating zero.\<close>

definition hmap_hashForString :: "bytes \<Rightarrow> u32" where
  "hmap_hashForString str = hmap_hashForBytes (takeWhile (\<lambda>b. b \<noteq> 0) str)"

text \<open>An assignment through a pointer to a stored object.\<close>

definition hmap_write :: "nat \<Rightarrow> ('a \<Rightarrow> 'a) \<Rightarrow> 'a hmap \<Rightarrow> 'a hmap" where
  "hmap_write p f m = m\<lparr>hm_buckets := map (map (\<lambda>node.
      if hn_ptr node = p then node\<lparr>hn_obj := f (hn_obj node)\<rparr> else node)) (hm_buckets m)\<rparr>"

section \<open>Abstraction and invariant\<close>

definition hmap_nodes :: "'a hmap \<Rightarrow> 'a hnode list" where
  "hmap_nodes m = concat (hm_buckets m)"

definition hmap_chain :: "'a hmap \<Rightarrow> u32 \<Rightarrow> 'a hnode list" where
  "hmap_chain m hash = filter (\<lambda>node. hn_hash node = hash) (hmap_nodes m)"

definition hmap_ptrs :: "'a hmap \<Rightarrow> nat set" where
  "hmap_ptrs m = hn_ptr ` set (hmap_nodes m)"

definition hmap_ok :: "'a hmap \<Rightarrow> bool" where
  "hmap_ok m \<longleftrightarrow> length (hm_buckets m) = unat (hm_mask m) + 1
     \<and> length (hm_buckets m) < 2 ^ 32
     \<and> (\<forall>i < length (hm_buckets m). \<forall>node \<in> set (hm_buckets m ! i). bucketWithHash m (hn_hash node) = i)
     \<and> distinct (map hn_ptr (hmap_nodes m))
     \<and> hm_n m = of_nat (length (hmap_nodes m))"

section \<open>Chains and buckets\<close>

lemma concat_update:
  "i < length xs \<Longrightarrow> concat (xs[i := y]) = concat (take i xs) @ y @ concat (drop (Suc i) xs)"
  by (simp add: upd_conv_take_nth_drop)

lemma concat_split:
  "i < length xs \<Longrightarrow> concat xs = concat (take i xs) @ xs ! i @ concat (drop (Suc i) xs)"
  using concat_update [of i xs "xs ! i"] by simp

lemma bucket_less: "hmap_ok m \<Longrightarrow> bucketWithHash m h < length (hm_buckets m)"
proof -
  have "hm_mask m AND h \<le> hm_mask m" by (rule word_and_le2)
  then have "unat (hm_mask m AND h) \<le> unat (hm_mask m)" by (simp add: word_le_nat_alt)
  then show "hmap_ok m \<Longrightarrow> bucketWithHash m h < length (hm_buckets m)"
    by (simp add: hmap_ok_def bucketWithHash_def)
qed

lemma other_bucket_hash:
  assumes "hmap_ok m" "bkt \<in> set (take (bucketWithHash m h) (hm_buckets m))
      \<or> bkt \<in> set (drop (Suc (bucketWithHash m h)) (hm_buckets m))"
    and "node \<in> set bkt"
  shows "hn_hash node \<noteq> h"
proof
  assume h: "hn_hash node = h"
  have *: "\<And>i. i < length (hm_buckets m) \<Longrightarrow> node \<in> set (hm_buckets m ! i) \<Longrightarrow>
      bucketWithHash m h = i"
    using assms(1) h by (auto simp: hmap_ok_def)
  show False using assms(2)
  proof
    assume "bkt \<in> set (take (bucketWithHash m h) (hm_buckets m))"
    then obtain i where "i < bucketWithHash m h" "i < length (hm_buckets m)" "bkt = hm_buckets m ! i"
      by (auto simp: in_set_conv_nth)
    then show False using * [of i] assms(3) by simp
  next
    assume "bkt \<in> set (drop (Suc (bucketWithHash m h)) (hm_buckets m))"
    then obtain i where "i < length (hm_buckets m) - Suc (bucketWithHash m h)"
        "bkt = hm_buckets m ! (Suc (bucketWithHash m h) + i)"
      by (auto simp: in_set_conv_nth)
    moreover from this(1) have "Suc (bucketWithHash m h) + i < length (hm_buckets m)" by linarith
    ultimately show False using * [of "Suc (bucketWithHash m h) + i"] assms(3) by simp
  qed
qed

lemma chain_bucket:
  assumes "hmap_ok m"
  shows "hmap_chain m h = filter (\<lambda>node. hn_hash node = h) (hm_buckets m ! bucketWithHash m h)"
proof -
  have "filter (\<lambda>node. hn_hash node = h) (concat (take (bucketWithHash m h) (hm_buckets m))) = []"
    and "filter (\<lambda>node. hn_hash node = h) (concat (drop (Suc (bucketWithHash m h)) (hm_buckets m))) = []"
    using other_bucket_hash [OF assms] by (fastforce simp: filter_empty_conv)+
  then show ?thesis
    unfolding hmap_chain_def hmap_nodes_def
    by (subst concat_split [OF bucket_less [OF assms, of h]]) simp
qed

lemma node_find_filter: "node_find P xs = (case filter P xs of [] \<Rightarrow> None | n # _ \<Rightarrow> Some n)"
  by (induction xs) auto

lemma hmap_nodeGetWithHash_chain:
  assumes "hmap_ok m"
  shows "hmap_nodeGetWithHash m h = Some (case hmap_chain m h of [] \<Rightarrow> None | n # _ \<Rightarrow> Some n)"
  using bucket_less [OF assms, of h]
  by (simp add: hmap_nodeGetWithHash_def rd_Some node_find_filter chain_bucket [OF assms])

lemma bucket_same: "hm_mask m' = hm_mask m \<Longrightarrow> bucketWithHash m' h = bucketWithHash m h"
  by (simp add: bucketWithHash_def)

lemma hmap_ok_update:
  assumes "hmap_ok m" "i < length (hm_buckets m)"
    and "\<forall>node \<in> set bkt. bucketWithHash m (hn_hash node) = i"
    and "m' = m\<lparr>hm_buckets := (hm_buckets m)[i := bkt], hm_n := k\<rparr>"
    and "distinct (map hn_ptr (hmap_nodes m'))" "k = of_nat (length (hmap_nodes m'))"
  shows "hmap_ok m'"
proof -
  have sel: "hm_buckets m' = (hm_buckets m)[i := bkt]" "hm_mask m' = hm_mask m" "hm_n m' = k"
    by (simp_all add: assms(4))
  have "bucketWithHash m' (hn_hash node) = j"
    if "j < length (hm_buckets m')" "node \<in> set (hm_buckets m' ! j)" for j node
    using that assms(1-3) bucket_same [OF sel(2)] unfolding sel
    by (cases "j = i") (auto simp: hmap_ok_def)
  then show ?thesis
    using assms(1,5,6) unfolding hmap_ok_def by (simp add: sel)
qed

section \<open>Insertion and deletion\<close>

lemma hmap_nodeInsert_eq:
  assumes "hmap_ok m"
  shows "hmap_nodeInsert m node = Some (m\<lparr>hm_buckets :=
      (hm_buckets m)[bucketWithHash m (hn_hash node) := node # hm_buckets m ! bucketWithHash m (hn_hash node)],
      hm_n := hm_n m + 1\<rparr>)"
  using bucket_less [OF assms, of "hn_hash node"] by (simp add: hmap_nodeInsert_def Let_def rd_Some wr_Some)

lemma nodes_insert:
  assumes "hmap_ok m" "hmap_nodeInsert m node = Some m'"
  shows "\<exists>xs ys. hmap_nodes m = xs @ ys \<and> hmap_nodes m' = xs @ node # ys"
proof -
  let ?i = "bucketWithHash m (hn_hash node)"
  have i: "?i < length (hm_buckets m)" using bucket_less [OF assms(1)] .
  have "hmap_nodes m' = concat (take ?i (hm_buckets m)) @ node # (hm_buckets m ! ?i @ concat (drop (Suc ?i) (hm_buckets m)))"
    using assms hmap_nodeInsert_eq [OF assms(1), of node] i
    by (auto simp: hmap_nodes_def concat_update)
  moreover have "hmap_nodes m = concat (take ?i (hm_buckets m)) @ (hm_buckets m ! ?i @ concat (drop (Suc ?i) (hm_buckets m)))"
    unfolding hmap_nodes_def by (rule concat_split [OF i])
  ultimately show ?thesis by blast
qed

lemma hmap_insert_ok:
  assumes "hmap_ok m" "hn_ptr node \<notin> hmap_ptrs m"
  shows "\<exists>m'. hmap_nodeInsert m node = Some m' \<and> hmap_ok m'"
proof -
  let ?i = "bucketWithHash m (hn_hash node)"
  define m' where "m' = m\<lparr>hm_buckets := (hm_buckets m)[?i := node # hm_buckets m ! ?i], hm_n := hm_n m + 1\<rparr>"
  have eq: "hmap_nodeInsert m node = Some m'" using hmap_nodeInsert_eq [OF assms(1)] by (simp add: m'_def)
  obtain xs ys where xy: "hmap_nodes m = xs @ ys" "hmap_nodes m' = xs @ node # ys"
    using nodes_insert [OF assms(1) eq] by blast
  have i: "?i < length (hm_buckets m)" using bucket_less [OF assms(1)] .
  have "hmap_ok m'"
  proof (rule hmap_ok_update [OF assms(1) i _ m'_def])
    show "\<forall>n \<in> set (node # hm_buckets m ! ?i). bucketWithHash m (hn_hash n) = ?i"
      using assms(1) i by (auto simp: hmap_ok_def)
    show "distinct (map hn_ptr (hmap_nodes m'))"
      using assms xy by (auto simp: hmap_ok_def hmap_ptrs_def)
    show "hm_n m + 1 = of_nat (length (hmap_nodes m'))"
      using assms(1) xy by (simp add: hmap_ok_def)
  qed
  then show ?thesis using eq by blast
qed

lemma chain_insert:
  assumes "hmap_ok m" "hn_ptr node \<notin> hmap_ptrs m" "hmap_nodeInsert m node = Some m'"
  shows "hmap_chain m' h = (if h = hn_hash node then node # hmap_chain m h else hmap_chain m h)"
proof -
  have ok': "hmap_ok m'" using hmap_insert_ok [OF assms(1,2)] assms(3) by auto
  have m': "m' = m\<lparr>hm_buckets := (hm_buckets m)[bucketWithHash m (hn_hash node)
      := node # hm_buckets m ! bucketWithHash m (hn_hash node)], hm_n := hm_n m + 1\<rparr>"
    using assms(3) hmap_nodeInsert_eq [OF assms(1)] by simp
  have "bucketWithHash m' h = bucketWithHash m h" by (rule bucket_same) (simp add: m')
  moreover have "hm_buckets m' = (hm_buckets m)[bucketWithHash m (hn_hash node)
      := node # hm_buckets m ! bucketWithHash m (hn_hash node)]" by (simp add: m')
  ultimately show ?thesis
    using bucket_less [OF assms(1), of "hn_hash node"]
    by (auto simp: chain_bucket [OF ok'] chain_bucket [OF assms(1)] nth_list_update)
qed

lemma node_unlink_None: "node_unlink p xs = None \<longleftrightarrow> p \<notin> hn_ptr ` set xs"
  by (induction xs) auto

lemma node_unlink_Some:
  "distinct (map hn_ptr xs) \<Longrightarrow> node_unlink p xs = Some ys \<Longrightarrow>
   ys = filter (\<lambda>n. hn_ptr n \<noteq> p) xs \<and> length xs = Suc (length ys)"
proof (induction xs arbitrary: ys)
  case (Cons x xs)
  then show ?case
  proof (cases "hn_ptr x = p")
    case True
    then have "\<forall>n \<in> set xs. hn_ptr n \<noteq> p" using Cons.prems by (metis distinct.simps(2) image_eqI list.set_map list.simps(9))
    then show ?thesis using True Cons.prems by simp
  qed auto
qed simp

lemma node_in_bucket:
  assumes "hmap_ok m" "node \<in> set (hmap_nodes m)"
  shows "node \<in> set (hm_buckets m ! bucketWithHash m (hn_hash node))"
proof -
  obtain bkt where "bkt \<in> set (hm_buckets m)" "node \<in> set bkt"
    using assms(2) by (auto simp: hmap_nodes_def)
  then obtain i where "i < length (hm_buckets m)" "node \<in> set (hm_buckets m ! i)"
    by (auto simp: in_set_conv_nth)
  then show ?thesis using assms(1) by (auto simp: hmap_ok_def)
qed

lemma hmap_delete_ok:
  assumes ok: "hmap_ok m" and "in": "node \<in> set (hmap_nodes m)"
  shows "\<exists>m'. hmap_nodeDelete m node = Some m' \<and> hmap_ok m'
     \<and> hmap_nodes m' = filter (\<lambda>n. hn_ptr n \<noteq> hn_ptr node) (hmap_nodes m)"
proof -
  let ?i = "bucketWithHash m (hn_hash node)"
  let ?b = "hm_buckets m ! ?i"
  let ?P = "\<lambda>n. hn_ptr n \<noteq> hn_ptr node"
  have i: "?i < length (hm_buckets m)" using bucket_less [OF ok] .
  have nodes: "hmap_nodes m = concat (take ?i (hm_buckets m)) @ ?b @ concat (drop (Suc ?i) (hm_buckets m))"
    unfolding hmap_nodes_def by (rule concat_split [OF i])
  have dist: "distinct (map hn_ptr (hmap_nodes m))" using ok by (simp add: hmap_ok_def)
  have inb: "node \<in> set ?b" using node_in_bucket [OF ok "in"] .
  then obtain ys where ys: "node_unlink (hn_ptr node) ?b = Some ys"
    by (metis image_eqI node_unlink_None option.exhaust)
  then have ys': "ys = filter ?P ?b" "length ?b = Suc (length ys)"
    using node_unlink_Some [OF _ ys] dist nodes by auto
  define m' where "m' = m\<lparr>hm_buckets := (hm_buckets m)[?i := ys], hm_n := hm_n m - 1\<rparr>"
  have eq: "hmap_nodeDelete m node = Some m'"
    using i ys by (simp add: hmap_nodeDelete_def Let_def rd_Some wr_Some m'_def)
  have disj: "hn_ptr node \<notin> hn_ptr ` set (concat (take ?i (hm_buckets m)))"
    "hn_ptr node \<notin> hn_ptr ` set (concat (drop (Suc ?i) (hm_buckets m)))"
  proof -
    have "hn_ptr node \<in> set (map hn_ptr ?b)" using inb by simp
    then show "hn_ptr node \<notin> hn_ptr ` set (concat (take ?i (hm_buckets m)))"
      "hn_ptr node \<notin> hn_ptr ` set (concat (drop (Suc ?i) (hm_buckets m)))"
      using dist unfolding nodes map_append distinct_append set_append set_map by blast+
  qed
  have "filter ?P (concat (take ?i (hm_buckets m))) = concat (take ?i (hm_buckets m))"
    and "filter ?P (concat (drop (Suc ?i) (hm_buckets m))) = concat (drop (Suc ?i) (hm_buckets m))"
    using disj unfolding filter_id_conv by (metis imageI)+
  then have nodes': "hmap_nodes m' = filter ?P (hmap_nodes m)"
    by (subst nodes) (simp add: m'_def hmap_nodes_def concat_update [OF i] ys')
  have len: "length (hmap_nodes m) = Suc (length (hmap_nodes m'))"
    using ys' arg_cong [OF nodes, of length]
    by (simp add: m'_def hmap_nodes_def [of m'] concat_update [OF i]) (simp add: hmap_nodes_def concat_update [OF i])
  have "hmap_ok m'"
  proof (rule hmap_ok_update [OF ok i _ m'_def])
    show "\<forall>n \<in> set ys. bucketWithHash m (hn_hash n) = ?i"
      using ok i ys' by (auto simp: hmap_ok_def)
    show "distinct (map hn_ptr (hmap_nodes m'))"
      unfolding nodes' using dist by (rule distinct_map_filter)
    show "hm_n m - 1 = of_nat (length (hmap_nodes m'))"
      using ok len by (simp add: hmap_ok_def)
  qed
  then show ?thesis using eq nodes' by blast
qed

lemma hmap_delete_absent:
  assumes "hmap_ok m" "hn_ptr node \<notin> hmap_ptrs m"
  shows "hmap_nodeDelete m node = Some m"
proof -
  let ?i = "bucketWithHash m (hn_hash node)"
  have i: "?i < length (hm_buckets m)" using bucket_less [OF assms(1)] .
  then have "hn_ptr node \<notin> hn_ptr ` set (hm_buckets m ! ?i)"
    using assms(2) nth_mem [OF i] unfolding hmap_ptrs_def hmap_nodes_def by fastforce
  then show ?thesis
    using i node_unlink_None [of "hn_ptr node" "hm_buckets m ! ?i"]
    by (simp add: hmap_nodeDelete_def Let_def rd_Some)
qed

section \<open>Assignment through a pointer\<close>

lemma hmap_nodes_write:
  "hmap_nodes (hmap_write p f m) =
     map (\<lambda>n. if hn_ptr n = p then n\<lparr>hn_obj := f (hn_obj n)\<rparr> else n) (hmap_nodes m)"
  by (simp add: hmap_nodes_def hmap_write_def map_concat)

lemma hmap_ok_write:
  assumes "hmap_ok m" shows "hmap_ok (hmap_write p f m)"
proof -
  let ?m = "hmap_write p f m"
  have len: "length (hm_buckets ?m) = length (hm_buckets m)"
    and sel: "hm_mask ?m = hm_mask m" "hm_n ?m = hm_n m"
    by (simp_all add: hmap_write_def)
  have "bucketWithHash ?m (hn_hash node) = i"
    if "i < length (hm_buckets m)" "node \<in> set (hm_buckets ?m ! i)" for i node
  proof -
    have "node \<in> (\<lambda>n. if hn_ptr n = p then n\<lparr>hn_obj := f (hn_obj n)\<rparr> else n) ` set (hm_buckets m ! i)"
      using that by (simp add: hmap_write_def)
    then obtain n where n: "n \<in> set (hm_buckets m ! i)"
      and "node = (if hn_ptr n = p then n\<lparr>hn_obj := f (hn_obj n)\<rparr> else n)"
      by (rule imageE)
    then have "hn_hash node = hn_hash n" by simp
    with n show ?thesis using assms that(1) bucket_same [OF sel(1)] by (auto simp: hmap_ok_def)
  qed
  moreover have "map hn_ptr (hmap_nodes ?m) = map hn_ptr (hmap_nodes m)"
    by (auto simp: hmap_nodes_write)
  moreover have "length (hmap_nodes ?m) = length (hmap_nodes m)" by (simp add: hmap_nodes_write)
  ultimately show ?thesis using assms unfolding hmap_ok_def by (simp add: len sel)
qed

lemma hmap_chain_write:
  fixes f :: "'a \<Rightarrow> 'a"
  shows "hmap_chain (hmap_write p f m) h =
     map (\<lambda>n. if hn_ptr n = p then n\<lparr>hn_obj := f (hn_obj n)\<rparr> else n) (hmap_chain m h)"
proof -
  let ?g = "\<lambda>n :: 'a hnode. if hn_ptr n = p then n\<lparr>hn_obj := f (hn_obj n)\<rparr> else n"
  have "(\<lambda>n. hn_hash n = h) \<circ> ?g = (\<lambda>n. hn_hash n = h)" by (simp add: fun_eq_iff)
  then show ?thesis unfolding hmap_chain_def hmap_nodes_write filter_map by simp
qed

section \<open>The number of buckets\<close>

lemma smear_step:
  fixes x s :: u32
  assumes "\<And>n. bit x n \<longleftrightarrow> (\<exists>j < a. bit s (n + j))"
  shows "bit (x OR drop_bit a x) n \<longleftrightarrow> (\<exists>j < 2 * a. bit s (n + j))"
proof -
  have "(\<exists>j < 2 * a. bit s (n + j)) \<longleftrightarrow> (\<exists>j < a. bit s (n + j)) \<or> (\<exists>j < a. bit s (n + (a + j)))"
  proof
    assume "\<exists>j < 2 * a. bit s (n + j)"
    then obtain j where j: "j < 2 * a" "bit s (n + j)" by blast
    show "(\<exists>j < a. bit s (n + j)) \<or> (\<exists>j < a. bit s (n + (a + j)))"
    proof (cases "j < a")
      case False
      then have "j - a < a" "bit s (n + (a + (j - a)))" using j by auto
      then show ?thesis by blast
    qed (use j in blast)
  next
    assume "(\<exists>j < a. bit s (n + j)) \<or> (\<exists>j < a. bit s (n + (a + j)))"
    then show "\<exists>j < 2 * a. bit s (n + j)"
    proof
      assume "\<exists>j < a. bit s (n + j)"
      then obtain j where "j < a" "bit s (n + j)" by blast
      then show ?thesis by (intro exI [of _ j]) simp
    next
      assume "\<exists>j < a. bit s (n + (a + j))"
      then obtain j where "j < a" "bit s (n + (a + j))" by blast
      then show ?thesis by (intro exI [of _ "a + j"]) simp
    qed
  qed
  then show ?thesis by (simp add: bit_or_iff bit_drop_bit_eq assms ac_simps)
qed

lemma bucketsNum_smear:
  "\<exists>r. bucketsNum sz = r + 1 \<and> (\<forall>n. bit r n \<longleftrightarrow> (\<exists>j < 32. bit (drop_bit 1 sz) (n + j)))"
proof -
  define s0 where "s0 = drop_bit 1 sz"
  define s1 where "s1 = s0 OR drop_bit 1 s0"
  define s2 where "s2 = s1 OR drop_bit 2 s1"
  define s3 where "s3 = s2 OR drop_bit 4 s2"
  define s4 where "s4 = s3 OR drop_bit 8 s3"
  define s5 where "s5 = s4 OR drop_bit 16 s4"
  have 0: "bit s0 n \<longleftrightarrow> (\<exists>j < 1. bit s0 (n + j))" for n by simp
  have 1: "bit s1 n \<longleftrightarrow> (\<exists>j < 2. bit s0 (n + j))" for n
    using smear_step [OF 0, of n] by (simp only: s1_def) simp
  have 2: "bit s2 n \<longleftrightarrow> (\<exists>j < 4. bit s0 (n + j))" for n
    using smear_step [OF 1, of n] by (simp only: s2_def) simp
  have 3: "bit s3 n \<longleftrightarrow> (\<exists>j < 8. bit s0 (n + j))" for n
    using smear_step [OF 2, of n] by (simp only: s3_def) simp
  have 4: "bit s4 n \<longleftrightarrow> (\<exists>j < 16. bit s0 (n + j))" for n
    using smear_step [OF 3, of n] by (simp only: s4_def) simp
  have 5: "bit s5 n \<longleftrightarrow> (\<exists>j < 32. bit s0 (n + j))" for n
    using smear_step [OF 4, of n] by (simp only: s5_def) simp
  have "bucketsNum sz = s5 + 1"
    by (simp only: bucketsNum_def Let_def s0_def s1_def s2_def s3_def s4_def s5_def)
  then show ?thesis using 5 unfolding s0_def by blast
qed

lemma downward_closed_mask:
  fixes r :: u32
  assumes "\<And>m n. bit r m \<Longrightarrow> n \<le> m \<Longrightarrow> bit r n"
  shows "\<exists>k \<le> 32. r = mask k \<and> (k = 0 \<or> bit r (k - 1))"
proof (cases "r = 0")
  case True
  then show ?thesis by (intro exI [of _ 0]) simp
next
  case False
  then obtain b where b: "bit r b" using bit_eq_iff [of r 0] by auto
  have bound: "bit r n \<Longrightarrow> n \<le> 31" for n using bit_imp_le_length [of r n] by simp
  define k where "k = (GREATEST n. bit r n)"
  have k: "bit r k" unfolding k_def using GreatestI_nat [of "bit r" b 31] b bound by blast
  have max: "bit r n \<Longrightarrow> n \<le> k" for n
    unfolding k_def using Greatest_le_nat [of "bit r" n 31] bound by blast
  have "bit r n \<longleftrightarrow> n \<le> k" for n using k max assms by blast
  then have "r = mask (Suc k)"
    by (intro bit_word_eqI) (simp add: bit_mask_iff less_Suc_eq_le)
  then show ?thesis using k bound [OF k] by (intro exI [of _ "Suc k"]) auto
qed

lemma mask_Suc_unat: "k \<le> 31 \<Longrightarrow> unat (mask k + 1 :: u32) = 2 ^ k"
proof -
  assume "k \<le> 31"
  then have "(2 :: nat) ^ k \<le> 2 ^ 31" by (intro power_increasing) auto
  moreover have "(mask k + 1 :: u32) = of_nat (2 ^ k)" by (simp add: mask_eq_exp_minus_1)
  ultimately show ?thesis by (simp only: unat_of_nat) simp
qed

lemma bucketsNum_pow2:
  "\<exists>k \<le> 31. unat (bucketsNum sz) = 2 ^ k \<and> unat sz < 2 * 2 ^ k \<and> (k = 0 \<or> 2 ^ k \<le> unat sz)"
proof -
  obtain r where r: "bucketsNum sz = r + 1"
    and rb: "\<And>n. bit r n \<longleftrightarrow> (\<exists>j < 32. bit (drop_bit 1 sz) (n + j))"
    using bucketsNum_smear by blast
  have rb': "bit r n \<longleftrightarrow> (\<exists>m \<ge> n. bit (drop_bit 1 sz) m)" for n
  proof
    assume "\<exists>m \<ge> n. bit (drop_bit 1 sz) m"
    then obtain m where m: "n \<le> m" "bit (drop_bit 1 sz) m" by blast
    then have "m < 32" using bit_imp_le_length [of "drop_bit 1 sz" m] by simp
    then show "bit r n" unfolding rb using m by (intro exI [of _ "m - n"]) auto
  qed (use rb in \<open>auto intro: le_add1\<close>)
  have "bit r n" if "bit r m" "n \<le> m" for m n using that unfolding rb' by (meson le_trans)
  then obtain k where k: "k \<le> 32" "r = mask k" "k = 0 \<or> bit r (k - 1)"
    using downward_closed_mask [of r] by blast
  have top: "\<not> bit (drop_bit 1 sz) m" if "31 \<le> m" for m
    using that bit_imp_le_length [of sz "m + 1"] by (auto simp: bit_drop_bit_eq)
  have k31: "k \<le> 31"
  proof (rule ccontr)
    assume "\<not> k \<le> 31"
    then have "bit r 31" using k by (cases "k = 32") auto
    then show False using rb' top by blast
  qed
  have "unat sz div 2 < 2 ^ k"
  proof -
    have "drop_bit 1 sz = take_bit k (drop_bit 1 sz)"
      by (rule bit_word_eqI) (use rb' k in \<open>auto simp: bit_take_bit_iff bit_mask_iff\<close>)
    then have "unat (drop_bit 1 sz) < 2 ^ k"
      by (metis take_bit_nat_less_exp unsigned_take_bit_eq)
    then show ?thesis by (simp add: drop_bit_eq_div unat_div)
  qed
  moreover have "2 ^ k \<le> unat sz" if "k \<noteq> 0"
  proof -
    have "bit r (k - 1)" using k that by blast
    then obtain m where m: "k - 1 \<le> m" "bit sz (m + 1)" using rb' by (auto simp: bit_drop_bit_eq)
    then have "bit (unat sz) (m + 1)" by (simp add: bit_unsigned_iff)
    then have "2 ^ (m + 1) \<le> unat sz" using bit_imp_possible_bit
      by (metis bit_iff_odd div_less even_zero leI)
    moreover have "(2 :: nat) ^ k \<le> 2 ^ (m + 1)" using m that by (intro power_increasing) auto
    ultimately show ?thesis by linarith
  qed
  moreover have "unat (bucketsNum sz) = 2 ^ k" using mask_Suc_unat [OF k31] by (simp only: r k(2))
  ultimately show ?thesis using k31 by (intro exI [of _ k]) auto
qed

text \<open>
  C12. The bucket count of a map for \<open>sz\<close> elements is the largest power of two not above
  \<open>sz\<close> (and 1 for \<open>sz = 0\<close>): a power of two, so that \<^verbatim>\<open>mask & hash\<close> reaches every bucket, and
  at least half of \<open>sz\<close>, so that chains average fewer than two nodes.
\<close>

theorem bucketsNum_power_of_two:
  "\<exists>k \<le> 31. unat (bucketsNum sz) = 2 ^ k \<and> unat sz < 2 * 2 ^ k \<and> (k = 0 \<or> 2 ^ k \<le> unat sz)"
  by (rule bucketsNum_pow2)

lemma hmap_create_ok:
  assumes "hmap_create sz g = (Some m, g')"
  shows "hmap_ok m \<and> hmap_nodes m = []"
proof -
  obtain k where k: "k \<le> 31" "unat (bucketsNum sz) = 2 ^ k"
    using bucketsNum_pow2 by blast
  have m: "m = \<lparr>hm_buckets = replicate (unat (bucketsNum sz)) [], hm_mask = bucketsNum sz - 1, hm_n = 0\<rparr>"
    using assms by (auto simp: hmap_create_def hmapInit_def split: prod.splits option.splits)
  have pos: "0 < unat (bucketsNum sz)" using k by simp
  then have "1 \<le> bucketsNum sz" by (simp add: word_le_nat_alt)
  then have "unat (bucketsNum sz - 1) = unat (bucketsNum sz) - 1" by (simp add: unat_sub)
  then show ?thesis
    using pos unsigned_less [of "bucketsNum sz", where 'a = nat]
    by (auto simp: m hmap_ok_def hmap_nodes_def)
qed

section \<open>Traversal\<close>

lemma buckets_count:
  assumes "hmap_ok m" shows "unat (HMAP_BUCKETS_COUNT m) = length (hm_buckets m)"
proof -
  have "unat (hm_mask m) + 1 < 2 ^ 32" using assms by (simp add: hmap_ok_def)
  then have "unat (hm_mask m + 1) = unat (hm_mask m) + 1" by (simp add: unat_word_ariths)
  then show ?thesis using assms by (simp add: HMAP_BUCKETS_COUNT_def hmap_ok_def)
qed

lemma first_node_concat: "first_node bkts = (case concat bkts of [] \<Rightarrow> None | n # _ \<Rightarrow> Some n)"
proof (induction bkts)
  case (Cons b bs)
  then show ?case by (cases b) auto
qed simp

lemma hmap_nodeFirst_nodes:
  "hmap_ok m \<Longrightarrow> hmap_nodeFirst m = (case hmap_nodes m of [] \<Rightarrow> None | n # _ \<Rightarrow> Some n)"
  by (simp add: hmap_nodeFirst_def buckets_traverse_def buckets_count first_node_concat hmap_nodes_def)

lemma node_next_split:
  "distinct (map hn_ptr (xs @ node # ys)) \<Longrightarrow>
   node_next (hn_ptr node) (xs @ node # ys) = Some (case ys of [] \<Rightarrow> None | n # _ \<Rightarrow> Some n)"
  by (induction xs) auto

lemma hmap_nodeNext_nodes:
  assumes ok: "hmap_ok m" and nodes: "hmap_nodes m = pre @ node # post"
  shows "hmap_nodeNext m node = Some (case post of [] \<Rightarrow> None | n # _ \<Rightarrow> Some n)"
proof -
  let ?i = "bucketWithHash m (hn_hash node)"
  let ?b = "hm_buckets m ! ?i"
  have i: "?i < length (hm_buckets m)" using bucket_less [OF ok] .
  obtain xs ys where b: "?b = xs @ node # ys"
    using node_in_bucket [OF ok, of node] nodes by (auto simp: in_set_conv_decomp)
  let ?r = "concat (drop (Suc ?i) (hm_buckets m))"
  have "hmap_nodes m = (concat (take ?i (hm_buckets m)) @ xs) @ node # (ys @ ?r)"
    unfolding hmap_nodes_def by (subst concat_split [OF i]) (simp add: b)
  moreover have dist: "distinct (map hn_ptr (hmap_nodes m))" using ok by (simp add: hmap_ok_def)
  moreover have "node \<notin> set pre" "node \<notin> set post"
    using dist unfolding nodes by auto
  ultimately have post: "post = ys @ ?r"
    using nodes append_Cons_eq_iff by metis
  have "node_next (hn_ptr node) ?b = Some (case ys of [] \<Rightarrow> None | n # _ \<Rightarrow> Some n)"
  proof -
    have "distinct (map hn_ptr (hm_buckets m ! ?i))"
      using dist unfolding hmap_nodes_def by (subst (asm) concat_split [OF i]) simp
    then show ?thesis unfolding b by (rule node_next_split)
  qed
  moreover have "unat ((hm_mask m AND hn_hash node) + 1) = Suc ?i"
  proof -
    have "unat (hm_mask m AND hn_hash node) + 1 < 2 ^ 32"
      using i ok by (simp add: bucketWithHash_def hmap_ok_def)
    then show ?thesis by (simp add: bucketWithHash_def unat_word_ariths)
  qed
  moreover have "buckets_traverse m (Suc ?i) = (case ?r of [] \<Rightarrow> None | n # _ \<Rightarrow> Some n)"
    by (simp add: buckets_traverse_def buckets_count [OF ok] first_node_concat)
  ultimately show ?thesis
    using i by (auto simp: hmap_nodeNext_def rd_Some post simp del: concat_eq_Nil_conv split: list.splits)
qed

text \<open>
  Traversal with \<open>hmap_nodeFirst\<close> and \<open>hmap_nodeNext\<close> visits exactly the nodes of the map,
  each once and in the order of the buckets: the first node is the head of \<open>hmap_nodes\<close>, the
  successor of the \<open>i\<close>-th node is the next one, and the last node has none.
\<close>

theorem hmap_traversal:
  assumes "hmap_ok m"
  shows "hmap_nodeFirst m = (if hmap_nodes m = [] then None else Some (hmap_nodes m ! 0))
    \<and> distinct (hmap_nodes m)
    \<and> (\<forall>i < length (hmap_nodes m). hmap_nodeNext m (hmap_nodes m ! i) =
         Some (if i + 1 < length (hmap_nodes m) then Some (hmap_nodes m ! (i + 1)) else None))"
proof (intro conjI allI impI)
  show "hmap_nodeFirst m = (if hmap_nodes m = [] then None else Some (hmap_nodes m ! 0))"
    by (simp add: hmap_nodeFirst_nodes [OF assms] split: list.split)
  show "distinct (hmap_nodes m)" using assms by (simp add: hmap_ok_def distinct_map)
  fix i assume i: "i < length (hmap_nodes m)"
  have "hmap_nodeNext m (hmap_nodes m ! i) =
      Some (case drop (Suc i) (hmap_nodes m) of [] \<Rightarrow> None | n # _ \<Rightarrow> Some n)"
    by (rule hmap_nodeNext_nodes [OF assms]) (rule id_take_nth_drop [OF i])
  then show "hmap_nodeNext m (hmap_nodes m ! i) =
         Some (if i + 1 < length (hmap_nodes m) then Some (hmap_nodes m ! (i + 1)) else None)"
    by (cases "i + 1 < length (hmap_nodes m)") (auto simp: Cons_nth_drop_Suc [symmetric])
qed

lemma hmap_traversal_witness:
  "hmap_nodeFirst \<lparr>hm_buckets = [[], [\<lparr>hn_ptr = 7, hn_hash = 3, hn_obj = ()\<rparr>]], hm_mask = 1, hm_n = 1\<rparr>
     = Some \<lparr>hn_ptr = 7, hn_hash = 3, hn_obj = ()\<rparr>"
proof -
  let ?m = "\<lparr>hm_buckets = [[], [\<lparr>hn_ptr = 7, hn_hash = 3, hn_obj = ()\<rparr>]], hm_mask = 1, hm_n = 1\<rparr>"
  have "hmap_ok ?m"
    by (simp add: hmap_ok_def hmap_nodes_def bucketWithHash_def less_Suc_eq all_conj_distrib)
  from hmap_traversal [OF this] show ?thesis by (simp add: hmap_nodes_def)
qed

section \<open>The contract of the map\<close>

text \<open>
  What the resource tables rely on: a lookup returns the newest node with the hash, insertion
  puts a node in front of its chain, deletion removes the node with that address, and nothing
  else changes.
\<close>

locale hash_store =
  fixes get :: "'m \<Rightarrow> u32 \<Rightarrow> 'n option option"
    and ins :: "'m \<Rightarrow> 'n \<Rightarrow> 'm option"
    and del :: "'m \<Rightarrow> 'n \<Rightarrow> 'm option"
    and chain :: "'m \<Rightarrow> u32 \<Rightarrow> 'n list"
    and addrs :: "'m \<Rightarrow> nat set"
    and key :: "'n \<Rightarrow> u32"
    and addr :: "'n \<Rightarrow> nat"
    and ok :: "'m \<Rightarrow> bool"
  assumes get_chain: "ok m \<Longrightarrow> get m h = Some (case chain m h of [] \<Rightarrow> None | n # _ \<Rightarrow> Some n)"
    and ins_ok: "ok m \<Longrightarrow> addr x \<notin> addrs m \<Longrightarrow> \<exists>m'. ins m x = Some m' \<and> ok m'
        \<and> addrs m' = insert (addr x) (addrs m)
        \<and> (\<forall>h. chain m' h = (if h = key x then x # chain m h else chain m h))"
    and del_ok: "ok m \<Longrightarrow> x \<in> set (chain m (key x)) \<Longrightarrow> \<exists>m'. del m x = Some m' \<and> ok m'
        \<and> addrs m' = addrs m - {addr x}
        \<and> (\<forall>h. chain m' h = filter (\<lambda>n. addr n \<noteq> addr x) (chain m h))"
    and chain_addr: "ok m \<Longrightarrow> x \<in> set (chain m h) \<Longrightarrow> addr x \<in> addrs m"
    and chain_key: "ok m \<Longrightarrow> x \<in> set (chain m h) \<Longrightarrow> key x = h"
begin

lemma get_after_ins:
  assumes "ok m" "addr x \<notin> addrs m" "ins m x = Some m'"
  shows "get m' h = (if h = key x then Some (Some x) else get m h)"
  using ins_ok [OF assms(1,2)] assms get_chain [OF assms(1)] get_chain [of m'] by auto

lemma get_in_chain: "ok m \<Longrightarrow> get m h = Some (Some x) \<Longrightarrow> x \<in> set (chain m h)"
  using get_chain [of m h] by (auto split: list.splits)

lemma get_key: "ok m \<Longrightarrow> get m h = Some (Some x) \<Longrightarrow> key x = h"
  using get_in_chain chain_key by blast

lemma get_none_iff: "ok m \<Longrightarrow> get m h = Some None \<longleftrightarrow> chain m h = []"
  using get_chain [of m h] by (auto split: list.splits)

lemma ins_del_roundtrip:
  assumes "ok m" "addr x \<notin> addrs m" "ins m x = Some m'"
  shows "\<exists>m''. del m' x = Some m'' \<and> ok m'' \<and> addrs m'' = addrs m \<and> (\<forall>h. chain m'' h = chain m h)"
proof -
  have m': "ok m'" "addrs m' = insert (addr x) (addrs m)"
      "\<And>h. chain m' h = (if h = key x then x # chain m h else chain m h)"
    using ins_ok [OF assms(1,2)] assms(3) by auto
  have "x \<in> set (chain m' (key x))" using m'(3) by simp
  then obtain m'' where m'': "del m' x = Some m''" "ok m''" "addrs m'' = addrs m' - {addr x}"
      "\<And>h. chain m'' h = filter (\<lambda>n. addr n \<noteq> addr x) (chain m' h)"
    using del_ok [OF m'(1)] by blast
  have "filter (\<lambda>n. addr n \<noteq> addr x) (chain m h) = chain m h" for h
    using chain_addr [OF assms(1)] assms(2) unfolding filter_id_conv by metis
  then show ?thesis using m'' m'(2,3) assms(2) by auto
qed

lemma get_after_del_unique:
  assumes "ok m" "chain m (key x) = [x]" "del m x = Some m'"
  shows "get m' (key x) = Some None \<and> (\<forall>h. h \<noteq> key x \<longrightarrow> (\<forall>y \<in> set (chain m h). addr y \<noteq> addr x) \<longrightarrow> get m' h = get m h)"
proof -
  have m': "ok m'" "\<And>h. chain m' h = filter (\<lambda>n. addr n \<noteq> addr x) (chain m h)"
    using del_ok [OF assms(1), of x] assms(2,3) by auto
  have "chain m' h = chain m h" if "\<forall>y \<in> set (chain m h). addr y \<noteq> addr x" for h
    using that m'(2) by (simp add: filter_id_conv)
  then show ?thesis using get_chain [OF m'(1)] get_chain [OF assms(1)] m'(2) assms(2) by auto
qed

end

lemma hmap_chain_in_nodes: "x \<in> set (hmap_chain m h) \<Longrightarrow> x \<in> set (hmap_nodes m)"
  by (simp add: hmap_chain_def)

interpretation hm: hash_store hmap_nodeGetWithHash hmap_nodeInsert hmap_nodeDelete hmap_chain
    hmap_ptrs hn_hash hn_ptr hmap_ok
proof
  fix m :: "'a hmap" and x :: "'a hnode" and h
  show "hmap_nodeGetWithHash m h = Some (case hmap_chain m h of [] \<Rightarrow> None | n # _ \<Rightarrow> Some n)"
    if "hmap_ok m" using hmap_nodeGetWithHash_chain [OF that] .
  show "\<exists>m'. hmap_nodeInsert m x = Some m' \<and> hmap_ok m' \<and> hmap_ptrs m' = insert (hn_ptr x) (hmap_ptrs m)
     \<and> (\<forall>h. hmap_chain m' h = (if h = hn_hash x then x # hmap_chain m h else hmap_chain m h))"
    if ok: "hmap_ok m" and new: "hn_ptr x \<notin> hmap_ptrs m"
  proof -
    obtain m' where m': "hmap_nodeInsert m x = Some m'" "hmap_ok m'" using hmap_insert_ok [OF ok new] by blast
    have "hmap_ptrs m' = insert (hn_ptr x) (hmap_ptrs m)"
      using nodes_insert [OF ok m'(1)] by (auto simp: hmap_ptrs_def)
    then show ?thesis using m' chain_insert [OF ok new m'(1)] by blast
  qed
  show "\<exists>m'. hmap_nodeDelete m x = Some m' \<and> hmap_ok m' \<and> hmap_ptrs m' = hmap_ptrs m - {hn_ptr x}
     \<and> (\<forall>h. hmap_chain m' h = filter (\<lambda>n. hn_ptr n \<noteq> hn_ptr x) (hmap_chain m h))"
    if ok: "hmap_ok m" and "in": "x \<in> set (hmap_chain m (hn_hash x))"
  proof -
    obtain m' where m': "hmap_nodeDelete m x = Some m'" "hmap_ok m'"
        "hmap_nodes m' = filter (\<lambda>n. hn_ptr n \<noteq> hn_ptr x) (hmap_nodes m)"
      using hmap_delete_ok [OF ok hmap_chain_in_nodes [OF "in"]] by blast
    then show ?thesis by (auto simp: hmap_ptrs_def hmap_chain_def conj_commute)
  qed
  show "hn_ptr x \<in> hmap_ptrs m" if "x \<in> set (hmap_chain m h)"
    using hmap_chain_in_nodes [OF that] by (simp add: hmap_ptrs_def)
  show "hn_hash x = h" if "x \<in> set (hmap_chain m h)" using that by (simp add: hmap_chain_def)
qed

text \<open>
  C2. The map implements its contract: inserting a node at a fresh address keeps the invariant,
  the lookup of its hash then finds it and every other lookup is unchanged; deleting it again
  restores every chain.
\<close>

theorem hmap_insert_lookup_delete:
  assumes "hmap_ok m" "hn_ptr node \<notin> hmap_ptrs m"
  shows "\<exists>m' m''. hmap_nodeInsert m node = Some m' \<and> hmap_ok m'
    \<and> (\<forall>h. hmap_nodeGetWithHash m' h = (if h = hn_hash node then Some (Some node) else hmap_nodeGetWithHash m h))
    \<and> hmap_nodeDelete m' node = Some m'' \<and> hmap_ok m'' \<and> (\<forall>h. hmap_chain m'' h = hmap_chain m h)"
proof -
  obtain m' where m': "hmap_nodeInsert m node = Some m'" "hmap_ok m'"
    using hm.ins_ok [OF assms] by blast
  then show ?thesis
    using hm.get_after_ins [OF assms m'(1)] hm.ins_del_roundtrip [OF assms m'(1)] by blast
qed

definition example_hmap :: "nat hmap" where
  "example_hmap = \<lparr>hm_buckets = [[], [\<lparr>hn_ptr = 7, hn_hash = 3, hn_obj = 5\<rparr>]], hm_mask = 1, hm_n = 1\<rparr>"

lemma hmap_insert_lookup_delete_witness:
  "\<exists>m'. hmap_nodeInsert example_hmap \<lparr>hn_ptr = 8, hn_hash = 1, hn_obj = 6\<rparr> = Some m' \<and> hmap_ok m'
    \<and> hmap_nodeGetWithHash m' 1 = Some (Some \<lparr>hn_ptr = 8, hn_hash = 1, hn_obj = 6\<rparr>)"
proof -
  have "hmap_ok example_hmap" "8 \<notin> hmap_ptrs example_hmap"
    by (simp_all add: example_hmap_def hmap_ptrs_def hmap_ok_def hmap_nodes_def bucketWithHash_def
        less_Suc_eq all_conj_distrib)
  then show ?thesis
    using hmap_insert_lookup_delete [of example_hmap "\<lparr>hn_ptr = 8, hn_hash = 1, hn_obj = 6\<rparr>"] by auto
qed

section \<open>Hash functions\<close>

text \<open>
  The byte hash exclusive-ors the hashes of the 4-byte words, so swapping two words never
  changes it: exact-match tables, which compare hashes only, cannot tell such keys apart.
\<close>

lemma hashForBytes_swap_words:
  "hmap_hashForBytes [a, b, c, d, e, f, g, h] = hmap_hashForBytes [e, f, g, h, a, b, c, d]"
  by (simp add: hmap_hashForBytes_def xor.commute)

end
