(* ===== verification/Pof_Tree.thy ===== *)
theory Pof_Tree
  imports Pof_Global
begin

text \<open>
  The binary tree of \<^verbatim>\<open>common/pof_tree.c\<close> behind the longest-prefix-match tables. A node is
  \<open>NULL\<close> or carries a pointer and two sons; the key is a byte buffer that the routines shift to
  the left one bit per level, so the path of a key is its bits in network order.

  \<open>tree_map\<close> abstracts a tree to a partial function from bit strings; insertion and deletion
  update it at the key, and \<open>tree_nodeLookup\<close> computes the longest stored prefix.
\<close>

section \<open>Definitions\<close>

datatype 'a treeNode = NULL | Node "'a option" "'a treeNode" "'a treeNode"

record 'a tree =
  tr_root :: "'a treeNode"
  tr_count :: u32

definition tree_nodeCreate :: "glob \<Rightarrow> 'a treeNode \<times> glob" where
  "tree_nodeCreate g = (case POF_MALLOC_SAFE g of
      (None, g') \<Rightarrow> (NULL, g')
    | (Some _, g') \<Rightarrow> (Node None NULL NULL, g'))"

definition tree_create :: "glob \<Rightarrow> 'a tree option \<times> glob" where
  "tree_create g = (case POF_MALLOC_SAFE g of
      (None, g1) \<Rightarrow> (None, g1)
    | (Some _, g1) \<Rightarrow>
        (case tree_nodeCreate g1 of
           (NULL, g2) \<Rightarrow> (None, pofec_set_error POFET_SOFTWARE_FAILED (SoftE POF_ALLOCATE_RESOURCE_FAILURE) g2)
         | (node, g2) \<Rightarrow> (Some \<lparr>tr_root = node, tr_count = 0\<rparr>, g2)))"

text \<open>The recursion frees every node; it dereferences its argument first.\<close>

fun tree_nodeDestroy :: "'a treeNode \<Rightarrow> 'a treeNode option" where
  "tree_nodeDestroy NULL = None"
| "tree_nodeDestroy (Node p l r) = do {
     _ \<leftarrow> (if l \<noteq> NULL then tree_nodeDestroy l else Some NULL);
     _ \<leftarrow> (if r \<noteq> NULL then tree_nodeDestroy r else Some NULL);
     Some NULL
   }"

definition tree_destroy :: "'a tree \<Rightarrow> ret option" where
  "tree_destroy t = do { _ \<leftarrow> tree_nodeDestroy (tr_root t); Some POF_OK }"

text \<open>\<^verbatim>\<open>tree_clear\<close> sets the count through the pointer even when it is null.\<close>

definition tree_clear :: "'a tree option \<Rightarrow> (ret \<times> 'a tree) option" where
  "tree_clear t = (case t of
      None \<Rightarrow> None
    | Some t \<Rightarrow> do {
        root \<leftarrow> tree_nodeDestroy (tr_root t);
        Some (POF_OK, t\<lparr>tr_root := root, tr_count := 0\<rparr>)
      })"

text \<open>\<^verbatim>\<open>POF_BITNUM_TO_BYTENUM_CEIL\<close> at 32 bits.\<close>

definition BYTENUM_CEIL :: "u32 \<Rightarrow> u32" where
  "BYTENUM_CEIL len_b = (len_b + 7) div 8"

fun moveLeft_loop :: "bytes \<Rightarrow> nat \<Rightarrow> nat \<Rightarrow> bytes option" where
  "moveLeft_loop value i 0 = do { a \<leftarrow> rd value i; wr value i (push_bit 1 a) }"
| "moveLeft_loop value i (Suc k) = do {
     a \<leftarrow> rd value i;
     b \<leftarrow> rd value (i + 1);
     value' \<leftarrow> wr value i (push_bit 1 a OR drop_bit 7 b);
     moveLeft_loop value' (i + 1) k
   }"

definition moveLeft :: "bytes \<Rightarrow> u32 \<Rightarrow> bytes option" where
  "moveLeft value bitNum =
     (if bitNum = 0 then Some value else moveLeft_loop value 0 (unat (BYTENUM_CEIL bitNum - 1)))"

definition toLeft :: "bytes \<Rightarrow> bool option" where
  "toLeft value = do { b \<leftarrow> rd value 0; Some (b AND 0x80 \<noteq> 0x80) }"

definition isLeaf :: "'a treeNode \<Rightarrow> bool" where
  "isLeaf node = (case node of Node _ NULL NULL \<Rightarrow> True | _ \<Rightarrow> False)"

text \<open>
  The insertion loop from a node on, \<open>bitNum\<close> being the bits left. The loop creates the missing
  nodes; when an allocation fails it leaves the nodes created so far in place.
\<close>

fun nodeInsert :: "'a treeNode \<Rightarrow> 'a \<Rightarrow> bytes \<Rightarrow> nat \<Rightarrow> glob \<Rightarrow> (ret \<times> 'a treeNode \<times> glob) option" where
  "nodeInsert NULL ptr value bitNum g = None"
| "nodeInsert (Node p l r) ptr value 0 g = Some (POF_OK, Node (Some ptr) l r, g)"
| "nodeInsert (Node p l r) ptr value (Suc n) g = do {
     left \<leftarrow> toLeft value;
     value' \<leftarrow> moveLeft value (of_nat (Suc n));
     let son = (if left then l else r);
     let plug = (\<lambda>s. if left then Node p s r else Node p l s);
     (if son \<noteq> NULL then do {
        (ret, son', g') \<leftarrow> nodeInsert son ptr value' n g;
        Some (ret, plug son', g')
      } else (case tree_nodeCreate g of
          (NULL, g') \<Rightarrow> Some (ERR (SoftE POF_ALLOCATE_RESOURCE_FAILURE), plug NULL,
              pofec_set_error POFET_SOFTWARE_FAILED (SoftE POF_ALLOCATE_RESOURCE_FAILURE) g')
        | (node, g') \<Rightarrow> do {
            (ret, son', g'') \<leftarrow> nodeInsert node ptr value' n g';
            Some (ret, plug son', g'')
          }))
   }"

definition tree_nodeInsert ::
  "'a tree \<Rightarrow> 'a \<Rightarrow> bytes \<Rightarrow> u32 \<Rightarrow> glob \<Rightarrow> (ret \<times> 'a tree \<times> glob) option" where
  "tree_nodeInsert t ptr value bitNum g = do {
     (ret, root, g') \<leftarrow> nodeInsert (tr_root t) ptr value (unat bitNum) g;
     Some (ret, t\<lparr>tr_root := root, tr_count := (if ret = POF_OK then tr_count t + 1 else tr_count t)\<rparr>, g')
   }"

text \<open>The deletion loop; the node at the end of the path is freed if it is a leaf but the root.\<close>

fun nodeDelete :: "bool \<Rightarrow> 'a treeNode \<Rightarrow> bytes \<Rightarrow> nat \<Rightarrow> (ret \<times> 'a treeNode) option" where
  "nodeDelete isRoot NULL value bitNum = None"
| "nodeDelete isRoot (Node p l r) value 0 =
     (let node = Node None l r
      in Some (POF_OK, if isLeaf node \<and> \<not> isRoot then NULL else node))"
| "nodeDelete isRoot (Node p l r) value (Suc n) = do {
     left \<leftarrow> toLeft value;
     value' \<leftarrow> moveLeft value (of_nat (Suc n));
     let son = (if left then l else r);
     let plug = (\<lambda>s. if left then Node p s r else Node p l s);
     (if son = NULL then Some (POF_ERROR, Node p l r) else do {
        (ret, son') \<leftarrow> nodeDelete False son value' n;
        Some (ret, plug son')
      })
   }"

definition tree_nodeDelete :: "'a tree \<Rightarrow> bytes \<Rightarrow> u32 \<Rightarrow> (ret \<times> 'a tree) option" where
  "tree_nodeDelete t value bitNum = do {
     (ret, root) \<leftarrow> nodeDelete True (tr_root t) value (unat bitNum);
     Some (ret, t\<lparr>tr_root := root, tr_count := (if ret = POF_OK then tr_count t - 1 else tr_count t)\<rparr>)
   }"

fun nodeLookup :: "'a treeNode \<Rightarrow> bytes \<Rightarrow> u32 \<Rightarrow> 'a option \<Rightarrow> 'a option option" where
  "nodeLookup NULL value bitNum ptr = Some ptr"
| "nodeLookup (Node p l r) value bitNum ptr = do {
     left \<leftarrow> toLeft value;
     value' \<leftarrow> moveLeft value bitNum;
     nodeLookup (if left then l else r) value' (bitNum - 1) (if p \<noteq> None then p else ptr)
   }"

definition tree_nodeLookup :: "'a tree \<Rightarrow> bytes \<Rightarrow> u32 \<Rightarrow> 'a option option" where
  "tree_nodeLookup t value bitNum = nodeLookup (tr_root t) value bitNum None"

text \<open>The traversal visits the sons first and stops at the first failing call.\<close>

fun nodeTrav :: "'a treeNode \<Rightarrow> ('a \<Rightarrow> 's \<Rightarrow> ret \<times> 's) \<Rightarrow> 's \<Rightarrow> ret \<times> 's" where
  "nodeTrav NULL func s = (POF_OK, s)"
| "nodeTrav (Node p l r) func s =
     (case nodeTrav l func s of (r1, s1) \<Rightarrow>
        if r1 \<noteq> POF_OK then (POF_ERROR, s1)
        else (case nodeTrav r func s1 of (r2, s2) \<Rightarrow>
          if r2 \<noteq> POF_OK then (POF_ERROR, s2)
          else (case p of Some x \<Rightarrow> func x s2 | None \<Rightarrow> (POF_OK, s2))))"

definition tree_nodeTrav :: "'a tree \<Rightarrow> ('a \<Rightarrow> 's \<Rightarrow> ret \<times> 's) \<Rightarrow> 's \<Rightarrow> ret \<times> 's" where
  "tree_nodeTrav t func arg = nodeTrav (tr_root t) func arg"

section \<open>Abstraction\<close>

fun tree_map :: "'a treeNode \<Rightarrow> bool list \<Rightarrow> 'a option" where
  "tree_map NULL bs = None"
| "tree_map (Node p l r) [] = p"
| "tree_map (Node p l r) (b # bs) = tree_map (if b then r else l) bs"

fun tree_height :: "'a treeNode \<Rightarrow> nat" where
  "tree_height NULL = 0"
| "tree_height (Node p l r) = Suc (max (tree_height l) (tree_height r))"

text \<open>The longest prefix of a bit string in the domain of a map.\<close>

fun longest_prefix :: "(bool list \<Rightarrow> 'a option) \<Rightarrow> bool list \<Rightarrow> 'a option" where
  "longest_prefix m [] = m []"
| "longest_prefix m (b # bs) =
     (case longest_prefix (\<lambda>ks. m (b # ks)) bs of Some x \<Rightarrow> Some x | None \<Rightarrow> m [])"

section \<open>Shifting the key\<close>

lemma moveLeft_loop_result:
  "i + k < length value \<Longrightarrow> \<exists>v'. moveLeft_loop value i k = Some v' \<and> length v' = length value
     \<and> (\<forall>j < length value. v' ! j =
          (if i \<le> j \<and> j < i + k then push_bit 1 (value ! j) OR drop_bit 7 (value ! (j + 1))
           else if j = i + k then push_bit 1 (value ! j) else value ! j))"
proof (induction k arbitrary: i "value")
  case 0
  then show ?case by (auto simp: rd_Some wr_Some nth_list_update)
next
  case (Suc k)
  let ?v = "value[i := push_bit 1 (value ! i) OR drop_bit 7 (value ! (i + 1))]"
  have "\<exists>v'. moveLeft_loop ?v (i + 1) k = Some v' \<and> length v' = length ?v
     \<and> (\<forall>j < length ?v. v' ! j =
          (if i + 1 \<le> j \<and> j < i + 1 + k then push_bit 1 (?v ! j) OR drop_bit 7 (?v ! (j + 1))
           else if j = i + 1 + k then push_bit 1 (?v ! j) else ?v ! j))"
    using Suc.prems by (intro Suc.IH) simp
  then obtain v' where v': "moveLeft_loop ?v (i + 1) k = Some v'" "length v' = length value"
    "\<And>j. j < length value \<Longrightarrow> v' ! j =
          (if i + 1 \<le> j \<and> j < i + 1 + k then push_bit 1 (?v ! j) OR drop_bit 7 (?v ! (j + 1))
           else if j = i + 1 + k then push_bit 1 (?v ! j) else ?v ! j)"
    by auto
  have "moveLeft_loop value i (Suc k) = Some v'"
    using v'(1) Suc.prems by (simp add: rd_Some wr_Some)
  moreover have "v' ! j =
          (if i \<le> j \<and> j < i + Suc k then push_bit 1 (value ! j) OR drop_bit 7 (value ! (j + 1))
           else if j = i + Suc k then push_bit 1 (value ! j) else value ! j)" if "j < length value" for j
    using v'(3) [OF that] that Suc.prems by (cases "j = i") (auto simp: nth_list_update)
  ultimately show ?case using v'(2) by blast
qed

lemma BYTENUM_CEIL_nat: "n + 7 < 2 ^ 32 \<Longrightarrow> unat (BYTENUM_CEIL (of_nat n)) = byte_ceil n"
proof -
  assume n: "n + 7 < 2 ^ 32"
  have "(of_nat n + 7 :: u32) = of_nat (n + 7)" by simp
  moreover have "unat (of_nat (n + 7) :: u32) = n + 7" using n by (intro unat_of_nat_u32) simp
  ultimately have "unat (of_nat n + 7 :: u32) = n + 7" by (simp only:)
  then show ?thesis by (simp add: BYTENUM_CEIL_def unat_div byte_ceil_def)
qed

lemma bit_double_u8: "bit (x * 2 :: u8) m \<longleftrightarrow> 0 < m \<and> m < 8 \<and> bit x (m - 1)"
proof -
  have "x * 2 = push_bit 1 x" by (simp add: push_bit_eq_mult)
  then show ?thesis by (simp only: bit_push_u8) auto
qed

lemma moveLeft_bits:
  assumes n: "0 < n" "n + 7 < 2 ^ 32" and len: "byte_ceil n \<le> length value"
  shows "\<exists>v'. moveLeft value (of_nat n) = Some v' \<and> length v' = length value
     \<and> bits_from v' 0 (n - 1) = tl (bits_from value 0 n)"
proof -
  let ?c = "byte_ceil n"
  have c: "0 < ?c" "n \<le> 8 * ?c" using n byte_ceil_bounds(1) [of n] by auto
  have "unat (BYTENUM_CEIL (of_nat n) - 1) = ?c - 1"
    using BYTENUM_CEIL_nat [OF n(2)] c by (subst unat_sub) (auto simp: word_le_nat_alt)
  moreover have "(of_nat n :: u32) \<noteq> 0"
    using n unat_of_nat_u32 [of n] by (auto simp: unat_eq_zero [symmetric])
  ultimately have ml: "moveLeft value (of_nat n) = moveLeft_loop value 0 (?c - 1)"
    by (simp add: moveLeft_def)
  have c1: "0 + (?c - 1) < length value" using c len by linarith
  obtain v' where v': "moveLeft_loop value 0 (?c - 1) = Some v'" "length v' = length value"
    "\<And>j. j < length value \<Longrightarrow> v' ! j =
          (if j < ?c - 1 then push_bit 1 (value ! j) OR drop_bit 7 (value ! (j + 1))
           else if j = ?c - 1 then push_bit 1 (value ! j) else value ! j)"
    using moveLeft_loop_result [OF c1] by auto
  have "bit_at v' i = bit_at value (i + 1)" if i: "i + 1 < n" for i
  proof -
    define b j where "b = i div 8" and "j = i mod 8"
    have ij: "i = 8 * b + j" "j < 8" by (simp_all add: b_def j_def)
    have b: "b < ?c" using ij i c by linarith
    have bl: "b < length value" using b len by simp
    show ?thesis
    proof (cases "j = 7")
      case True
      then have "b < ?c - 1" using ij i c by linarith
      then have "v' ! b = push_bit 1 (value ! b) OR drop_bit 7 (value ! (b + 1))" using v'(3) [OF bl] by simp
      then have "bit (v' ! b) 0 = bit (value ! (b + 1)) 7"
        unfolding bit_or_iff bit_drop_bit_eq bit_push_u8 by (simp only: bit_or_iff bit_drop_bit_eq bit_push_u8) simp
      moreover have "i + 1 = 8 * (b + 1) + 0" using ij True by simp
      ultimately show ?thesis
        using True bit_at_byte [of 7 v' b] bit_at_byte [of 0 "value" "b + 1"] by (simp add: ij(1))
    next
      case False
      then have j: "j + 1 < 8" using ij by simp
      have "bit (v' ! b) (7 - j) = bit (value ! b) (7 - (j + 1))"
        using v'(3) [OF bl] b j by (auto simp: bit_or_iff bit_drop_bit_eq bit_double_u8)
      then show ?thesis
        using bit_at_byte [OF ij(2), of v' b] bit_at_byte [OF j, of "value" b] by (simp add: ij(1))
    qed
  qed
  then have "bits_from v' 0 (n - 1) = tl (bits_from value 0 n)"
    using n by (intro nth_equalityI) (auto simp: nth_tl)
  then show ?thesis using v' ml by auto
qed

lemma bit_u8_128: "bit (0x80 :: u8) n \<longleftrightarrow> n = 7"
proof -
  have *: "(0x80 :: u8) = 2 ^ 7" by simp
  show ?thesis unfolding * bit_exp_iff by auto
qed

lemma toLeft_bits: "value \<noteq> [] \<Longrightarrow> toLeft value = Some (\<not> bit_at value 0)"
proof -
  have "b AND 0x80 = 0x80 \<longleftrightarrow> bit b 7" for b :: u8
  proof
    assume "b AND 0x80 = 0x80"
    then have "bit (b AND 0x80) 7" by (simp only: bit_u8_128)
    then show "bit b 7" by (simp only: bit_and_iff)
  next
    assume "bit b 7"
    then show "b AND 0x80 = 0x80"
      by (intro bit_word_eqI) (auto simp only: bit_and_iff bit_u8_128)
  qed
  then show "value \<noteq> [] \<Longrightarrow> toLeft value = Some (\<not> bit_at value 0)"
    by (simp add: toLeft_def rd_Some bit_at_def)
qed

text \<open>One level of descent consumes the first bit of the key.\<close>

lemma key_step:
  assumes "Suc n + 7 < 2 ^ 32" "byte_ceil (Suc n) \<le> length value" "bits_from value 0 (Suc n) = b # bs"
  shows "\<exists>v'. toLeft value = Some (\<not> b) \<and> moveLeft value (of_nat (Suc n)) = Some v'
     \<and> byte_ceil n \<le> length v' \<and> length v' = length value \<and> bits_from v' 0 n = bs"
proof -
  have "0 < byte_ceil (Suc n)" by simp
  then have "0 < length value" using assms(2) by linarith
  then have ne: "value \<noteq> []" by simp
  have "b = bit_at value 0" using assms(3) by (simp add: bits_from_def upt_rec)
  moreover have "byte_ceil n \<le> byte_ceil (Suc n)" by (simp add: byte_ceil_def div_le_mono)
  ultimately show ?thesis
    using moveLeft_bits [of "Suc n" "value"] toLeft_bits [OF ne] assms by auto
qed

section \<open>Insertion\<close>

lemma tree_nodeCreate_cases:
  "tree_nodeCreate g = (node, g') \<Longrightarrow> node = NULL \<or> node = Node None NULL NULL"
  by (auto simp: tree_nodeCreate_def split: prod.splits option.splits)

lemma tree_map_empty_node [simp]: "tree_map (Node None NULL NULL) bs = None"
  by (cases bs) auto

text \<open>
  Insertion at a key of \<open>n\<close> bits: it returns, and either the key now maps to the pointer and
  nothing else changed, or an allocation failed and the map is as before.
\<close>

lemma nodeInsert_map:
  fixes t :: "'a treeNode"
  assumes "t \<noteq> NULL" "n + 7 < 2 ^ 32" "byte_ceil n \<le> length value" "bits_from value 0 n = bs"
  shows "\<exists>ret t' g'. nodeInsert t ptr value n g = Some (ret, t', g') \<and> t' \<noteq> NULL
     \<and> tree_height t' \<le> max (tree_height t) (n + 1)
     \<and> (ret = POF_OK \<and> tree_map t' = (tree_map t)(bs := Some ptr)
        \<or> ret = ERR (SoftE POF_ALLOCATE_RESOURCE_FAILURE) \<and> tree_map t' = tree_map t)"
  using assms
proof (induction n arbitrary: t "value" bs g)
  case 0
  obtain p l r where t: "t = Node p l r" using 0 by (cases t) auto
  have "tree_map (Node (Some ptr) l r) = (tree_map t)([] := Some ptr)"
    unfolding t by (rule ext, rename_tac ks, case_tac ks) auto
  then show ?case using 0 t by (auto simp: bits_from_def)
next
  case (Suc n)
  obtain p l r where t: "t = Node p l r" using Suc.prems by (cases t) auto
  obtain b bs' where bs: "bs = b # bs'"
    using Suc.prems(4) by (cases bs) (auto simp: bits_from_def)
  obtain v' where v': "toLeft value = Some (\<not> b)" "moveLeft value (of_nat (Suc n)) = Some v'"
    "byte_ceil n \<le> length v'" "bits_from v' 0 n = bs'"
    using key_step [OF Suc.prems(2,3)] Suc.prems(4) bs by blast
  define son where "son = (if b then r else l)"
  define plug where "plug = (\<lambda>s. if b then Node p l s else Node p s r)"
  have pm: "tree_map (plug s) ks = (case ks of [] \<Rightarrow> p
      | k # ks' \<Rightarrow> if k = b then tree_map s ks' else tree_map t ks)" for s ks
    by (cases ks) (auto simp: plug_def t)
  have upd: "tree_map (plug s) = (tree_map t)(bs := Some ptr)"
    if "tree_map s = (tree_map son)(bs' := Some ptr)" for s
  proof
    fix ks show "tree_map (plug s) ks = ((tree_map t)(bs := Some ptr)) ks"
      by (cases ks) (auto simp: pm that bs t son_def)
  qed
  have same: "tree_map (plug s) = tree_map t" if "tree_map s = tree_map son" for s
  proof
    fix ks show "tree_map (plug s) ks = tree_map t ks"
      by (cases ks) (auto simp: pm that t son_def)
  qed
  have height: "tree_height (plug s) \<le> max (tree_height t) (Suc n + 1)"
    if "tree_height s \<le> max (tree_height son) (n + 1)" for s
    using that by (auto simp: plug_def son_def t split: if_splits)
  have n: "n + 7 < 2 ^ 32" using Suc.prems(2) by simp
  show ?case
  proof (cases "son = NULL")
    case False
    then obtain ret s g' where "nodeInsert son ptr v' n g = Some (ret, s, g')" "s \<noteq> NULL"
      "tree_height s \<le> max (tree_height son) (n + 1)"
      "ret = POF_OK \<and> tree_map s = (tree_map son)(bs' := Some ptr)
        \<or> ret = ERR (SoftE POF_ALLOCATE_RESOURCE_FAILURE) \<and> tree_map s = tree_map son"
      using Suc.IH [OF False n v'(3,4)] by blast
    moreover from this(1) have "nodeInsert t ptr value (Suc n) g = Some (ret, plug s, g')"
      using v' False by (auto simp: t son_def plug_def Let_def)
    moreover have "plug s \<noteq> NULL" by (simp add: plug_def)
    ultimately show ?thesis using upd same height by blast
  next
    case True
    obtain node :: "'a treeNode" and g1 where c: "tree_nodeCreate g = (node, g1)" by fastforce
    show ?thesis
    proof (cases "node = NULL")
      case nul: True
      then have "nodeInsert t ptr value (Suc n) g = Some (ERR (SoftE POF_ALLOCATE_RESOURCE_FAILURE), plug NULL,
          pofec_set_error POFET_SOFTWARE_FAILED (SoftE POF_ALLOCATE_RESOURCE_FAILURE) g1)"
        using v' True c by (auto simp: t son_def plug_def Let_def)
      moreover have "plug NULL \<noteq> NULL" by (simp add: plug_def)
      moreover have "tree_height (plug NULL) \<le> max (tree_height t) (Suc n + 1)" by (rule height) simp
      ultimately show ?thesis using same [of NULL] True by blast
    next
      case False
      then have node: "node = Node None NULL NULL" using tree_nodeCreate_cases [OF c] by simp
      obtain ret s g' where "nodeInsert node ptr v' n g1 = Some (ret, s, g')" "s \<noteq> NULL"
        "tree_height s \<le> max (tree_height node) (n + 1)"
        "ret = POF_OK \<and> tree_map s = (tree_map node)(bs' := Some ptr)
          \<or> ret = ERR (SoftE POF_ALLOCATE_RESOURCE_FAILURE) \<and> tree_map s = tree_map node"
        using Suc.IH [OF False n v'(3,4)] by blast
      moreover from this(1) have "nodeInsert t ptr value (Suc n) g = Some (ret, plug s, g')"
        using v' True c by (auto simp: t son_def plug_def node Let_def)
      moreover have "tree_map node = tree_map son" using True by (simp add: node fun_eq_iff)
      moreover have "plug s \<noteq> NULL" by (simp add: plug_def)
      moreover have "tree_height s \<le> max (tree_height son) (n + 1)" using calculation(3) by (simp add: node)
      ultimately show ?thesis using upd same height by (metis)
    qed
  qed
qed

section \<open>Deletion\<close>

lemma isLeaf_map: "isLeaf (Node p l r) \<Longrightarrow> l = NULL \<and> r = NULL"
  by (auto simp: isLeaf_def split: treeNode.splits)

lemma nodeDelete_map:
  fixes t :: "'a treeNode"
  assumes "t \<noteq> NULL" "n + 7 < 2 ^ 32" "byte_ceil n \<le> length value" "bits_from value 0 n = bs"
  shows "\<exists>ret t'. nodeDelete isRoot t value n = Some (ret, t') \<and> (isRoot \<longrightarrow> t' \<noteq> NULL)
     \<and> tree_height t' \<le> tree_height t
     \<and> (ret = POF_OK \<and> tree_map t' = (tree_map t)(bs := None)
        \<or> ret = POF_ERROR \<and> t' = t \<and> tree_map t bs = None)"
  using assms
proof (induction n arbitrary: t "value" bs isRoot)
  case 0
  obtain p l r where t: "t = Node p l r" using 0 by (cases t) auto
  define node where "node = Node None l r"
  have bs: "bs = []" using 0 by (simp add: bits_from_def)
  have upd: "tree_map node = (tree_map t)([] := None)"
    unfolding t node_def by (rule ext, rename_tac ks, case_tac ks) auto
  moreover have "tree_map NULL = tree_map node" if "isLeaf node"
    using isLeaf_map [of None l r] that by (auto simp: node_def fun_eq_iff)
  ultimately have "tree_map (if isLeaf node \<and> \<not> isRoot then NULL else node) = (tree_map t)(bs := None)"
    by (simp add: bs)
  moreover have "nodeDelete isRoot t value 0 = Some (POF_OK, if isLeaf node \<and> \<not> isRoot then NULL else node)"
    by (simp add: t node_def Let_def)
  moreover have "isRoot \<longrightarrow> (if isLeaf node \<and> \<not> isRoot then NULL else node) \<noteq> NULL"
    by (simp add: node_def)
  moreover have "tree_height (if isLeaf node \<and> \<not> isRoot then NULL else node) \<le> tree_height t"
    by (simp add: node_def t)
  ultimately show ?case by blast
next
  case (Suc n)
  obtain p l r where t: "t = Node p l r" using Suc.prems by (cases t) auto
  obtain b bs' where bs: "bs = b # bs'"
    using Suc.prems(4) by (cases bs) (auto simp: bits_from_def)
  obtain v' where v': "toLeft value = Some (\<not> b)" "moveLeft value (of_nat (Suc n)) = Some v'"
    "byte_ceil n \<le> length v'" "bits_from v' 0 n = bs'"
    using key_step [OF Suc.prems(2,3)] Suc.prems(4) bs by blast
  define son where "son = (if b then r else l)"
  define plug where "plug = (\<lambda>s. if b then Node p l s else Node p s r)"
  have n: "n + 7 < 2 ^ 32" using Suc.prems(2) by simp
  show ?case
  proof (cases "son = NULL")
    case True
    then have "nodeDelete isRoot t value (Suc n) = Some (POF_ERROR, t)"
      using v' by (auto simp: t son_def Let_def)
    moreover have "tree_map t bs = None" using True by (simp add: t bs son_def)
    ultimately show ?thesis using t by auto
  next
    case False
    then obtain ret s where s: "nodeDelete False son v' n = Some (ret, s)" "tree_height s \<le> tree_height son"
      "ret = POF_OK \<and> tree_map s = (tree_map son)(bs' := None)
        \<or> ret = POF_ERROR \<and> s = son \<and> tree_map son bs' = None"
      using Suc.IH [OF False n v'(3,4), of False] by blast
    then have "nodeDelete isRoot t value (Suc n) = Some (ret, plug s)"
      using v' False by (auto simp: t son_def plug_def Let_def)
    moreover have "plug s \<noteq> NULL" by (simp add: plug_def)
    moreover have "tree_height (plug s) \<le> tree_height t"
      using s(2) by (auto simp: plug_def son_def t split: if_splits)
    moreover have "tree_map (plug s) = (tree_map t)(bs := None)" if "tree_map s = (tree_map son)(bs' := None)"
    proof
      fix ks show "tree_map (plug s) ks = ((tree_map t)(bs := None)) ks"
        by (cases ks) (auto simp: plug_def that bs t son_def)
    qed
    moreover have "plug son = t" by (simp add: plug_def son_def t)
    moreover have "tree_map t bs = tree_map son bs'" by (simp add: t bs son_def)
    ultimately show ?thesis using s(3) by auto
  qed
qed

section \<open>Lookup\<close>

lemma longest_prefix_cong: "(\<And>ks. m ks = m' ks) \<Longrightarrow> longest_prefix m bs = longest_prefix m' bs"
  by (metis ext)

lemma longest_prefix_None: "(\<And>ks. m ks = None) \<Longrightarrow> longest_prefix m bs = None"
  by (induction bs arbitrary: m) auto

lemma all_le_Suc: "(\<forall>k \<le> Suc n. P k) \<longleftrightarrow> P 0 \<and> (\<forall>k \<le> n. P (Suc k))"
  by (metis Suc_le_mono le0 not0_implies_Suc)

lemma longest_prefix_None_iff:
  "longest_prefix m bs = None \<longleftrightarrow> (\<forall>k \<le> length bs. m (take k bs) = None)"
proof (induction bs arbitrary: m)
  case (Cons b bs)
  show ?case
    using Cons.IH [of "\<lambda>ks. m (b # ks)"]
    by (cases "longest_prefix (\<lambda>ks. m (b # ks)) bs") (auto simp: all_le_Suc)
qed simp

lemma longest_prefix_spec:
  "longest_prefix m bs = Some x \<longleftrightarrow>
     (\<exists>k \<le> length bs. m (take k bs) = Some x \<and> (\<forall>j. k < j \<and> j \<le> length bs \<longrightarrow> m (take j bs) = None))"
proof (induction bs arbitrary: m x)
  case Nil
  show ?case by auto
next
  case (Cons b bs)
  let ?m = "\<lambda>ks. m (b # ks)"
    show ?case
    proof (cases "longest_prefix ?m bs")
      case None
      then have no: "\<forall>k \<le> length bs. m (b # take k bs) = None" using longest_prefix_None_iff [of ?m bs] by simp
      have up: "m (take j (b # bs)) = None" if "0 < j" "j \<le> Suc (length bs)" for j
        using no that by (cases j) auto
      show ?thesis
      proof
        assume "longest_prefix m (b # bs) = Some x"
        then have "m [] = Some x" using None by simp
        then show "\<exists>k \<le> length (b # bs). m (take k (b # bs)) = Some x
            \<and> (\<forall>j. k < j \<and> j \<le> length (b # bs) \<longrightarrow> m (take j (b # bs)) = None)"
          using up by (intro exI [of _ 0]) auto
      next
        assume "\<exists>k \<le> length (b # bs). m (take k (b # bs)) = Some x
            \<and> (\<forall>j. k < j \<and> j \<le> length (b # bs) \<longrightarrow> m (take j (b # bs)) = None)"
        then obtain k where k: "k \<le> Suc (length bs)" "m (take k (b # bs)) = Some x" by auto
        then have "k = 0" using up [of k] by (cases k) auto
        then show "longest_prefix m (b # bs) = Some x" using k None by simp
      qed
    next
      case (Some y)
      then obtain k where k: "k \<le> length bs" "m (b # take k bs) = Some y"
          "\<And>j. k < j \<Longrightarrow> j \<le> length bs \<Longrightarrow> m (b # take j bs) = None"
        using Cons.IH [of ?m y] by auto
      have above: "m (take j (b # bs)) = None" if "Suc k < j" "j \<le> Suc (length bs)" for j
        using k(3) that by (cases j) auto
      show ?thesis
      proof
        assume "longest_prefix m (b # bs) = Some x"
        then have "x = y" using Some by simp
        then show "\<exists>k \<le> length (b # bs). m (take k (b # bs)) = Some x
            \<and> (\<forall>j. k < j \<and> j \<le> length (b # bs) \<longrightarrow> m (take j (b # bs)) = None)"
          using k above by (intro exI [of _ "Suc k"]) auto
      next
        assume "\<exists>k \<le> length (b # bs). m (take k (b # bs)) = Some x
            \<and> (\<forall>j. k < j \<and> j \<le> length (b # bs) \<longrightarrow> m (take j (b # bs)) = None)"
        then obtain k' where k': "k' \<le> Suc (length bs)" "m (take k' (b # bs)) = Some x"
            "\<And>j. k' < j \<Longrightarrow> j \<le> Suc (length bs) \<Longrightarrow> m (take j (b # bs)) = None" by auto
        have "k' = Suc k"
        proof (rule ccontr)
          assume "k' \<noteq> Suc k"
          then consider "k' < Suc k" | "Suc k < k'" by linarith
          then show False by cases (use k'(3) [of "Suc k"] k'(1,2) k(1,2) above [of k'] in auto)
        qed
        then show "longest_prefix m (b # bs) = Some x" using k'(2) k(2) Some by simp
      qed
    qed
qed

lemma nodeLookup_lpm:
  fixes t :: "'a treeNode"
  assumes "tree_height t \<le> Suc n" "n + 7 < 2 ^ 32" "byte_ceil n \<le> length value" "value \<noteq> []"
    "bits_from value 0 n = bs"
  shows "nodeLookup t value (of_nat n) ptr =
     Some (case longest_prefix (tree_map t) bs of Some x \<Rightarrow> Some x | None \<Rightarrow> ptr)"
  using assms
proof (induction n arbitrary: t "value" bs ptr)
  case 0
  show ?case
  proof (cases t)
    case (Node p l r)
    then have "l = NULL" "r = NULL" using 0 by (cases l; cases r; simp)+
    then show ?thesis using Node 0 by (auto simp: toLeft_bits moveLeft_def bits_from_def split: option.splits)
  qed (use 0 in \<open>simp add: bits_from_def\<close>)
next
  case (Suc n)
  show ?case
  proof (cases t)
    case NULL
    then show ?thesis by (simp add: longest_prefix_None)
  next
    case (Node p l r)
    obtain b bs' where bs: "bs = b # bs'"
      using Suc.prems(5) by (cases bs) (auto simp: bits_from_def)
    obtain v' where v': "toLeft value = Some (\<not> b)" "moveLeft value (of_nat (Suc n)) = Some v'"
      "byte_ceil n \<le> length v'" "length v' = length value" "bits_from v' 0 n = bs'"
      using key_step [OF Suc.prems(2,3)] Suc.prems(5) bs by blast
    define son where "son = (if b then r else l)"
    have h: "tree_height son \<le> Suc n" using Suc.prems(1) by (simp add: Node son_def)
    have "v' \<noteq> []" using v'(4) Suc.prems(4) by auto
    then have look: "nodeLookup son v' (of_nat n) (if p \<noteq> None then p else ptr) =
        Some (case longest_prefix (tree_map son) bs' of Some x \<Rightarrow> Some x | None \<Rightarrow> if p \<noteq> None then p else ptr)"
      using Suc.prems(2) by (intro Suc.IH [OF h _ v'(3) _ v'(5)]) simp_all
    have "longest_prefix (\<lambda>ks. tree_map t (b # ks)) bs' = longest_prefix (tree_map son) bs'"
      by (rule longest_prefix_cong) (simp add: Node son_def)
    moreover have "nodeLookup t value (of_nat (Suc n)) ptr =
        nodeLookup son v' (of_nat n) (if p \<noteq> None then p else ptr)"
      using v'(1,2) by (simp add: Node son_def)
    ultimately show ?thesis using look by (auto simp: bs Node split: option.splits)
  qed
qed

section \<open>Properties\<close>

text \<open>
  Longest-prefix match: on a tree whose paths are no longer than the key, the lookup of a
  key of \<open>n\<close> bits returns without fault, and returns the pointer stored at the longest prefix of
  the key that is stored in the tree, or \<^verbatim>\<open>NULL\<close> if no prefix is.
\<close>

theorem tree_nodeLookup_longest_prefix:
  assumes "tree_height (tr_root t) \<le> Suc (unat bitNum)" "unat bitNum + 7 < 2 ^ 32"
    and "byte_ceil (unat bitNum) \<le> length value" "value \<noteq> []"
  shows "\<exists>res. tree_nodeLookup t value bitNum = Some res
    \<and> (\<forall>x. res = Some x \<longleftrightarrow> (\<exists>k \<le> unat bitNum. tree_map (tr_root t) (bits_from value 0 k) = Some x
          \<and> (\<forall>j. k < j \<and> j \<le> unat bitNum \<longrightarrow> tree_map (tr_root t) (bits_from value 0 j) = None)))
    \<and> (res = None \<longleftrightarrow> (\<forall>k \<le> unat bitNum. tree_map (tr_root t) (bits_from value 0 k) = None))"
proof -
  let ?n = "unat bitNum"
  let ?m = "tree_map (tr_root t)"
  let ?bs = "bits_from value 0 ?n"
  have take: "take k ?bs = bits_from value 0 k" if "k \<le> ?n" for k
    using that by (simp add: bits_from_def take_map)
  have "tree_nodeLookup t value bitNum = Some (longest_prefix ?m ?bs)"
    using nodeLookup_lpm [OF assms refl, of None]
    by (simp add: tree_nodeLookup_def split: option.split)
  moreover have "longest_prefix ?m ?bs = Some x \<longleftrightarrow> (\<exists>k \<le> ?n. ?m (bits_from value 0 k) = Some x
          \<and> (\<forall>j. k < j \<and> j \<le> ?n \<longrightarrow> ?m (bits_from value 0 j) = None))" for x
    using longest_prefix_spec [of ?m ?bs x] take by (metis length_bits_from)
  moreover have "longest_prefix ?m ?bs = None \<longleftrightarrow> (\<forall>k \<le> ?n. ?m (bits_from value 0 k) = None)"
    using longest_prefix_None_iff [of ?m ?bs] take by simp
  ultimately show ?thesis by (intro exI [of _ "longest_prefix ?m ?bs"] conjI allI)
qed

definition example_tree :: "nat tree" where
  "example_tree = \<lparr>tr_root = Node (Some 1) NULL (Node (Some 2) NULL NULL), tr_count = 2\<rparr>"

lemma tree_nodeLookup_longest_prefix_witness:
  "\<exists>res. tree_nodeLookup example_tree [0xc0] 8 = Some res \<and> res \<noteq> None"
proof -
  have "tree_map (tr_root example_tree) (bits_from [0xc0] 0 0) = Some 1"
    by (simp add: example_tree_def bits_from_def)
  then have "\<exists>k \<le> unat (8 :: u32). tree_map (tr_root example_tree) (bits_from [0xc0] 0 k) \<noteq> None"
    by (intro exI [of _ 0]) simp
  then show ?thesis
    using tree_nodeLookup_longest_prefix [of example_tree 8 "[0xc0]"]
    by (auto simp: example_tree_def byte_ceil_def)
qed

text \<open>
  C13. Insertion of a pointer at the first \<open>bitNum\<close> bits of a key, with the root in place: it
  returns; on \<^verbatim>\<open>POF_OK\<close> exactly that key has been updated and the count has grown by one, and
  otherwise an allocation failed and no key has changed. Deletion then gives the map with the
  key removed, or reports that the path is absent and changes nothing.
\<close>

theorem tree_insert_delete_map:
  fixes t :: "'a tree"
  assumes "tr_root t \<noteq> NULL" "unat bitNum + 7 < 2 ^ 32" "byte_ceil (unat bitNum) \<le> length value"
  shows "(\<exists>ret t' g'. tree_nodeInsert t ptr value bitNum g = Some (ret, t', g') \<and> tr_root t' \<noteq> NULL
      \<and> (ret = POF_OK \<and> tr_count t' = tr_count t + 1
           \<and> tree_map (tr_root t') = (tree_map (tr_root t))(bits_from value 0 (unat bitNum) := Some ptr)
         \<or> ret = ERR (SoftE POF_ALLOCATE_RESOURCE_FAILURE) \<and> tr_count t' = tr_count t
           \<and> tree_map (tr_root t') = tree_map (tr_root t)))
    \<and> (\<exists>ret t'. tree_nodeDelete t value bitNum = Some (ret, t') \<and> tr_root t' \<noteq> NULL
      \<and> (ret = POF_OK \<and> tr_count t' = tr_count t - 1
           \<and> tree_map (tr_root t') = (tree_map (tr_root t))(bits_from value 0 (unat bitNum) := None)
         \<or> ret = POF_ERROR \<and> t' = t \<and> tree_map (tr_root t) (bits_from value 0 (unat bitNum)) = None))"
proof
  obtain ret root g' where "nodeInsert (tr_root t) ptr value (unat bitNum) g = Some (ret, root, g')"
    "root \<noteq> NULL" "ret = POF_OK \<and> tree_map root = (tree_map (tr_root t))(bits_from value 0 (unat bitNum) := Some ptr)
        \<or> ret = ERR (SoftE POF_ALLOCATE_RESOURCE_FAILURE) \<and> tree_map root = tree_map (tr_root t)"
    using nodeInsert_map [OF assms refl, of ptr g] by blast
  then show "\<exists>ret t' g'. tree_nodeInsert t ptr value bitNum g = Some (ret, t', g') \<and> tr_root t' \<noteq> NULL
      \<and> (ret = POF_OK \<and> tr_count t' = tr_count t + 1
           \<and> tree_map (tr_root t') = (tree_map (tr_root t))(bits_from value 0 (unat bitNum) := Some ptr)
         \<or> ret = ERR (SoftE POF_ALLOCATE_RESOURCE_FAILURE) \<and> tr_count t' = tr_count t
           \<and> tree_map (tr_root t') = tree_map (tr_root t))"
    by (auto simp: tree_nodeInsert_def)
  obtain ret root where "nodeDelete True (tr_root t) value (unat bitNum) = Some (ret, root)" "root \<noteq> NULL"
    "ret = POF_OK \<and> tree_map root = (tree_map (tr_root t))(bits_from value 0 (unat bitNum) := None)
        \<or> ret = POF_ERROR \<and> root = tr_root t \<and> tree_map (tr_root t) (bits_from value 0 (unat bitNum)) = None"
    using nodeDelete_map [OF assms refl, of True] by blast
  then show "\<exists>ret t'. tree_nodeDelete t value bitNum = Some (ret, t') \<and> tr_root t' \<noteq> NULL
      \<and> (ret = POF_OK \<and> tr_count t' = tr_count t - 1
           \<and> tree_map (tr_root t') = (tree_map (tr_root t))(bits_from value 0 (unat bitNum) := None)
         \<or> ret = POF_ERROR \<and> t' = t \<and> tree_map (tr_root t) (bits_from value 0 (unat bitNum)) = None)"
    by (auto simp: tree_nodeDelete_def)
qed

lemma tree_insert_delete_map_witness:
  "\<exists>ret t'. tree_nodeDelete example_tree [0x80] 1 = Some (ret, t')
      \<and> (ret = POF_OK \<and> tr_count t' = tr_count example_tree - 1
           \<and> tree_map (tr_root t') = (tree_map (tr_root example_tree))(bits_from [0x80] 0 1 := None)
         \<or> ret = POF_ERROR \<and> t' = example_tree)"
proof -
  have "tr_root example_tree \<noteq> NULL" "unat (1 :: u32) + 7 < 2 ^ 32"
    "byte_ceil (unat (1 :: u32)) \<le> length [0x80 :: u8]"
    by (simp_all add: example_tree_def byte_ceil_def)
  from tree_insert_delete_map [OF this, THEN conjunct2] show ?thesis by auto
qed

text \<open>
  Destroying a tree leaves no root, and the tree routines dereference the root: a tree emptied
  with \<open>tree_clear\<close> cannot be inserted into again.
\<close>

lemma tree_clear_then_insert_faults:
  "tree_clear (Some t) = Some (r, t') \<Longrightarrow> tree_nodeInsert t' ptr value bitNum g = None"
proof -
  assume "tree_clear (Some t) = Some (r, t')"
  then obtain root where d: "tree_nodeDestroy (tr_root t) = Some root" and t': "tr_root t' = root"
    by (auto simp: tree_clear_def split: Option.bind_splits)
  have "root = NULL" using d by (cases "tr_root t") (auto split: Option.bind_splits)
  then show ?thesis by (simp add: tree_nodeInsert_def t')
qed

end
