(* ===== verification/Pof_Byteorder.thy ===== *)
theory Pof_Byteorder
  imports Pof_Global
begin

text \<open>
  Structures in memory and their byte order: \<^verbatim>\<open>include/pof_byte_transfer.h\<close> and
  \<^verbatim>\<open>common/pof_byte_transfer.c\<close>, for a little-endian host and the configuration that is built
  (\<^verbatim>\<open>POF_SD2N\<close>, \<^verbatim>\<open>POF_SD2N_AFTER1015\<close>, \<^verbatim>\<open>POF_MULTIPLE_SLOTS\<close>).

  Messages and the structures in them stay byte lists; a field is read and written at its
  offset. A transfer routine is the list of conversions it applies, each one of the macros
  \<^verbatim>\<open>POF_NTOHS_FUNC\<close>, \<^verbatim>\<open>POF_NTOHL_FUNC\<close>, \<^verbatim>\<open>POF_NTOH64_FUNC\<close> at an offset (the \<^verbatim>\<open>HTON\<close> macros
  are the same formulas); nested structures pass their offset on.
\<close>

section \<open>Fields of structures in memory\<close>

text \<open>Little-endian words of \<open>n\<close> bytes.\<close>

definition le_bytes :: "nat \<Rightarrow> 'a::len word \<Rightarrow> bytes" where
  "le_bytes n w = map (\<lambda>i. ucast (drop_bit (8 * i) w)) [0..<n]"

primrec of_le :: "bytes \<Rightarrow> 'a::len word" where
  "of_le [] = 0"
| "of_le (b # bs) = ucast b OR push_bit 8 (of_le bs)"

definition get_le :: "nat \<Rightarrow> bytes \<Rightarrow> nat \<Rightarrow> 'a::len word option" where
  "get_le n bs off = (if off + n \<le> length bs then Some (of_le (take n (drop off bs))) else None)"

definition put_le :: "nat \<Rightarrow> bytes \<Rightarrow> nat \<Rightarrow> 'a::len word \<Rightarrow> bytes option" where
  "put_le n bs off w =
     (if off + n \<le> length bs then Some (take off bs @ le_bytes n w @ drop (off + n) bs) else None)"

definition get16 :: "bytes \<Rightarrow> nat \<Rightarrow> u16 option" where "get16 = get_le 2"
definition get32 :: "bytes \<Rightarrow> nat \<Rightarrow> u32 option" where "get32 = get_le 4"
definition get64 :: "bytes \<Rightarrow> nat \<Rightarrow> u64 option" where "get64 = get_le 8"
definition put16 :: "bytes \<Rightarrow> nat \<Rightarrow> u16 \<Rightarrow> bytes option" where "put16 = put_le 2"
definition put32 :: "bytes \<Rightarrow> nat \<Rightarrow> u32 \<Rightarrow> bytes option" where "put32 = put_le 4"
definition put64 :: "bytes \<Rightarrow> nat \<Rightarrow> u64 \<Rightarrow> bytes option" where "put64 = put_le 8"

section \<open>The conversion macros\<close>

definition POF_NTOHS :: "u16 \<Rightarrow> u16" where
  "POF_NTOHS x = push_bit 8 (x AND 0x00ff) OR drop_bit 8 (x AND 0xff00)"

definition POF_NTOHL :: "u32 \<Rightarrow> u32" where
  "POF_NTOHL x = push_bit 24 (x AND 0x000000ff) OR push_bit 8 (x AND 0x0000ff00)
     OR drop_bit 8 (x AND 0x00ff0000) OR drop_bit 24 (x AND 0xff000000)"

definition POF_NTOH64 :: "u64 \<Rightarrow> u64" where
  "POF_NTOH64 x = push_bit 56 (x AND 0x00000000000000ff) OR push_bit 40 (x AND 0x000000000000ff00)
     OR push_bit 24 (x AND 0x0000000000ff0000) OR push_bit 8 (x AND 0x00000000ff000000)
     OR drop_bit 8 (x AND 0x000000ff00000000) OR drop_bit 24 (x AND 0x0000ff0000000000)
     OR drop_bit 40 (x AND 0x00ff000000000000) OR drop_bit 56 (x AND 0xff00000000000000)"

text \<open>A conversion in place, at an offset.\<close>

datatype conv = NTOHS nat | NTOHL nat | NTOH64 nat

primrec conv_step :: "conv \<Rightarrow> bytes \<Rightarrow> bytes option" where
  "conv_step (NTOHS off) bs = do { w \<leftarrow> get16 bs off; put16 bs off (POF_NTOHS w) }"
| "conv_step (NTOHL off) bs = do { w \<leftarrow> get32 bs off; put32 bs off (POF_NTOHL w) }"
| "conv_step (NTOH64 off) bs = do { w \<leftarrow> get64 bs off; put64 bs off (POF_NTOH64 w) }"

primrec run_conv :: "conv list \<Rightarrow> bytes \<Rightarrow> bytes option" where
  "run_conv [] bs = Some bs"
| "run_conv (c # cs) bs = do { bs' \<leftarrow> conv_step c bs; run_conv cs bs' }"

section \<open>The transfer routines\<close>

definition nt_match :: "nat \<Rightarrow> conv list" where
  "nt_match p = [NTOHS p, NTOHS (p + 2), NTOHS (p + 4)]"

definition nt_match_x :: "nat \<Rightarrow> conv list" where
  "nt_match_x p = [NTOHS p, NTOHS (p + 2), NTOHS (p + 4)]"

text \<open>A value given by its type: an immediate number (\<^verbatim>\<open>POFVT_IMMEDIATE_NUM\<close>) or a field.\<close>

definition nt_value :: "u8 \<Rightarrow> nat \<Rightarrow> conv list" where
  "nt_value type p = (if type = 0 then [NTOHL p] else nt_match p)"

definition pof_NtoH_transfer_error :: "nat \<Rightarrow> conv list" where
  "pof_NtoH_transfer_error p = [NTOHS (p + 8), NTOHS p, NTOHS (p + 2), NTOHL (p + 4)]"

definition pof_NtoH_transfer_packet_in :: "nat \<Rightarrow> conv list" where
  "pof_NtoH_transfer_packet_in p =
     [NTOHL p, NTOHS (p + 4), NTOH64 (p + 8), NTOHL (p + 16), NTOHS (p + 20), NTOHS (p + 22)]"

definition pof_NtoH_transfer_header :: "nat \<Rightarrow> conv list" where
  "pof_NtoH_transfer_header p = [NTOHS (p + 2), NTOHL (p + 4)]"

definition pof_HtoN_transfer_header :: "nat \<Rightarrow> conv list" where
  "pof_HtoN_transfer_header p = [NTOHS (p + 2), NTOHL (p + 4)]"

definition pof_NtoH_transfer_port :: "nat \<Rightarrow> conv list" where
  "pof_NtoH_transfer_port p =
     [NTOHS p, NTOHS (p + 2), NTOHL (p + 4), NTOHL (p + 80), NTOHL (p + 84), NTOHL (p + 88),
      NTOHL (p + 92), NTOHL (p + 96), NTOHL (p + 100), NTOHL (p + 104), NTOHL (p + 108)]"

definition pof_NtoH_transfer_flow_table :: "nat \<Rightarrow> conv list" where
  "pof_NtoH_transfer_flow_table p = [NTOHL (p + 4), NTOHS (p + 8), NTOHS (p + 10)]
     @ concat (map (\<lambda>i. nt_match (p + 80 + 8 * i)) [0..<8])"

definition pof_NtoH_transfer_meter :: "nat \<Rightarrow> conv list" where
  "pof_NtoH_transfer_meter p = [NTOHS (p + 2), NTOHL (p + 8), NTOHL (p + 4)]"

definition pof_NtoH_transfer_counter :: "nat \<Rightarrow> conv list" where
  "pof_NtoH_transfer_counter p = [NTOHL (p + 4), NTOHS (p + 2), NTOH64 (p + 8), NTOH64 (p + 16)]"

definition pof_HtoN_transfer_switch_features :: "nat \<Rightarrow> conv list" where
  "pof_HtoN_transfer_switch_features p =
     [NTOHL p, NTOHS (p + 4), NTOHS (p + 6), NTOHS (p + 8), NTOHL (p + 12)]"

definition pof_HtoN_transfer_table_resource_desc :: "nat \<Rightarrow> conv list" where
  "pof_HtoN_transfer_table_resource_desc p = [NTOHL p, NTOHS (p + 6), NTOHL (p + 8)]"

definition pof_HtoN_transfer_flow_table_resource :: "nat \<Rightarrow> conv list" where
  "pof_HtoN_transfer_flow_table_resource p =
     [NTOHS (p + 2), NTOHL (p + 4), NTOHL (p + 8), NTOHL (p + 12)]
     @ concat (map (\<lambda>i. pof_HtoN_transfer_table_resource_desc (p + 16 + 16 * i)) [0..<4])"

definition nt_port :: "nat \<Rightarrow> conv list" where
  "nt_port p =
     [NTOHS p, NTOHS (p + 2), NTOHL (p + 4), NTOHL (p + 80), NTOHL (p + 84), NTOHL (p + 88),
      NTOHL (p + 92), NTOHL (p + 96), NTOHL (p + 100), NTOHL (p + 104), NTOHL (p + 108)]"

definition pof_HtoN_transfer_port_status :: "nat \<Rightarrow> conv list" where
  "pof_HtoN_transfer_port_status p = nt_port (p + 8)"

definition pof_HtoN_transfer_switch_config :: "nat \<Rightarrow> conv list" where
  "pof_HtoN_transfer_switch_config p = [NTOHL p, NTOHS (p + 4), NTOHS (p + 6)]"

definition pof_HtoN_transfer_queryall_request :: "nat \<Rightarrow> conv list" where
  "pof_HtoN_transfer_queryall_request p = [NTOHS p]"

subsection \<open>Actions\<close>

definition nt_action_OUTPUT :: "u8 \<Rightarrow> nat \<Rightarrow> conv list" where
  "nt_action_OUTPUT portId_type p =
     nt_value portId_type (p + 8) @ [NTOHS (p + 2), NTOHS (p + 4), NTOHS (p + 6)]"

definition nt_action_ADD_FIELD :: "nat \<Rightarrow> conv list" where
  "nt_action_ADD_FIELD p = [NTOHS (p + 2), NTOHS p, NTOHL (p + 4)]"

definition nt_action_DROP :: "nat \<Rightarrow> conv list" where
  "nt_action_DROP p = [NTOHL p]"

definition nt_action_PACKET_IN :: "nat \<Rightarrow> conv list" where
  "nt_action_PACKET_IN p = [NTOHL p]"

definition nt_action_DELETE_FIELD :: "u8 \<Rightarrow> nat \<Rightarrow> conv list" where
  "nt_action_DELETE_FIELD len_type p = [NTOHS p] @ nt_value len_type (p + 8)"

definition nt_action_CALCULATE_CHECKSUM :: "nat \<Rightarrow> conv list" where
  "nt_action_CALCULATE_CHECKSUM p = [NTOHS (p + 2), NTOHS (p + 4), NTOHS (p + 6), NTOHS (p + 8)]"

definition nt_action_SET_FIELD :: "nat \<Rightarrow> conv list" where
  "nt_action_SET_FIELD p = nt_match_x p"

definition nt_action_SET_FIELD_FROM_METADATA :: "nat \<Rightarrow> conv list" where
  "nt_action_SET_FIELD_FROM_METADATA p = nt_match p @ [NTOHS (p + 8)]"

definition nt_action_MODIFY_FIELD :: "nat \<Rightarrow> conv list" where
  "nt_action_MODIFY_FIELD p = nt_match p @ [NTOHL (p + 8)]"

definition nt_action_COUNTER :: "nat \<Rightarrow> conv list" where
  "nt_action_COUNTER p = [NTOHL p]"

definition nt_action_GROUP :: "nat \<Rightarrow> conv list" where
  "nt_action_GROUP p = [NTOHL p]"

text \<open>
  The switch over the action types; \<open>b\<close> gives the bytes of the action data, from which
  the value types are taken. Experimenter and unknown types convert nothing.
\<close>

definition nt_action_data :: "u16 \<Rightarrow> (nat \<Rightarrow> u8) \<Rightarrow> nat \<Rightarrow> conv list" where
  "nt_action_data type b p = (
     if type = 0 then nt_action_OUTPUT (b p) p
     else if type = 1 then nt_action_SET_FIELD p
     else if type = 2 then nt_action_SET_FIELD_FROM_METADATA p
     else if type = 3 then nt_action_MODIFY_FIELD p
     else if type = 4 then nt_action_ADD_FIELD p
     else if type = 5 then nt_action_DELETE_FIELD (b (p + 2)) p
     else if type = 6 then nt_action_CALCULATE_CHECKSUM p
     else if type = 7 then nt_action_GROUP p
     else if type = 8 then nt_action_DROP p
     else if type = 9 then nt_action_PACKET_IN p
     else if type = 10 then nt_action_COUNTER p
     else [])"

text \<open>
  The direction of the conversion is guessed from the length field: above \<^verbatim>\<open>0x00FF\<close> the action
  is taken to be in network order, otherwise in host order.
\<close>

definition nt_action :: "nat \<Rightarrow> bytes \<Rightarrow> bytes option" where
  "nt_action p bs = do {
     len \<leftarrow> get16 bs (p + 2);
     (if len > 0x00FF then do {
        bs1 \<leftarrow> run_conv [NTOHS p, NTOHS (p + 2)] bs;
        type \<leftarrow> get16 bs1 p;
        _ \<leftarrow> rd bs1 (p + 6);
        run_conv (nt_action_data type (\<lambda>i. bs1 ! i) (p + 4)) bs1
      } else do {
        type \<leftarrow> get16 bs p;
        _ \<leftarrow> rd bs (p + 6);
        bs1 \<leftarrow> run_conv (nt_action_data type (\<lambda>i. bs ! i) (p + 4)) bs;
        run_conv [NTOHS p, NTOHS (p + 2)] bs1
      })
   }"

text \<open>\<open>count\<close> consecutive actions of 48 bytes.\<close>

fun nt_actions :: "nat \<Rightarrow> nat \<Rightarrow> bytes \<Rightarrow> bytes option" where
  "nt_actions 0 p bs = Some bs"
| "nt_actions (Suc count) p bs = do { bs' \<leftarrow> nt_action p bs; nt_actions count (p + 48) bs' }"

definition pof_NtoH_transfer_packet_out :: "nat \<Rightarrow> bytes \<Rightarrow> bytes option" where
  "pof_NtoH_transfer_packet_out p bs = do {
     bs1 \<leftarrow> run_conv [NTOHL p, NTOHL (p + 4), NTOHL (p + 12)] bs;
     actionNum \<leftarrow> rd bs1 (p + 8);
     nt_actions (unat actionNum) (p + 16) bs1
   }"

definition pof_NtoH_transfer_group :: "nat \<Rightarrow> bytes \<Rightarrow> bytes option" where
  "pof_NtoH_transfer_group p bs = do {
     bs1 \<leftarrow> run_conv [NTOHL (p + 4), NTOHL (p + 8), NTOHS (p + 12)] bs;
     nt_actions 4 (p + 16) bs1
   }"

subsection \<open>Instructions\<close>

definition nt_instruction_GOTO_DIRECT_TABLE :: "u8 \<Rightarrow> nat \<Rightarrow> conv list" where
  "nt_instruction_GOTO_DIRECT_TABLE index_type p = nt_value index_type (p + 8) @ [NTOHS (p + 2)]"

definition nt_instruction_METER :: "nat \<Rightarrow> conv list" where
  "nt_instruction_METER p = [NTOHL p]"

definition nt_instruction_WRITE_METADATA :: "nat \<Rightarrow> conv list" where
  "nt_instruction_WRITE_METADATA p = [NTOHS p, NTOHS (p + 2)]"

definition nt_instruction_WRITE_METADATA_FROM_PACKET :: "nat \<Rightarrow> conv list" where
  "nt_instruction_WRITE_METADATA_FROM_PACKET p = [NTOHS p, NTOHS (p + 2), NTOHS (p + 4)]"

definition nt_instruction_GOTO_TABLE :: "nat \<Rightarrow> conv list" where
  "nt_instruction_GOTO_TABLE p =
     [NTOHS (p + 2)] @ concat (map (\<lambda>i. nt_match (p + 8 + 8 * i)) [0..<8])"

definition nt_instruction_CONDITIONAL_JMP :: "u8 \<Rightarrow> u8 \<Rightarrow> u8 \<Rightarrow> u8 \<Rightarrow> nat \<Rightarrow> conv list" where
  "nt_instruction_CONDITIONAL_JMP field2_type offset1_type offset2_type offset3_type p =
     nt_match (p + 8) @ nt_value field2_type (p + 16) @ nt_value offset1_type (p + 24)
     @ nt_value offset2_type (p + 32) @ nt_value offset3_type (p + 40)"

definition nt_instruction_CALCULATE_FIELD :: "u8 \<Rightarrow> nat \<Rightarrow> conv list" where
  "nt_instruction_CALCULATE_FIELD src_type p =
     [NTOHS p] @ nt_match (p + 8) @ nt_value src_type (p + 16)"

definition nt_instruction_MOVE_PACKET_OFFSET :: "u8 \<Rightarrow> nat \<Rightarrow> conv list" where
  "nt_instruction_MOVE_PACKET_OFFSET value_type p = nt_value value_type (p + 8)"

definition nt_instruction_APPLY_ACTIONS :: "nat \<Rightarrow> bytes \<Rightarrow> bytes option" where
  "nt_instruction_APPLY_ACTIONS p bs = do {
     action_num \<leftarrow> rd bs p;
     nt_actions (unat action_num) (p + 8) bs
   }"

text \<open>
  The switch over the instruction types. \<^verbatim>\<open>WRITE_ACTIONS\<close>, \<^verbatim>\<open>CLEAR_ACTIONS\<close> and the
  experimenter instruction are known but convert nothing; \<open>None\<close> inside is an unknown type.
\<close>

definition nt_instruction_data :: "u16 \<Rightarrow> nat \<Rightarrow> bytes \<Rightarrow> bytes option option" where
  "nt_instruction_data type p bs = (
     let b = (\<lambda>i. bs ! i); run = (\<lambda>cs. do { _ \<leftarrow> rd bs (p + 8); bs' \<leftarrow> run_conv cs bs; Some (Some bs') }) in
     if type = 1 then run (nt_instruction_GOTO_TABLE p)
     else if type = 2 then run (nt_instruction_WRITE_METADATA p)
     else if type = 3 then Some (Some bs)
     else if type = 4 then do { bs' \<leftarrow> nt_instruction_APPLY_ACTIONS p bs; Some (Some bs') }
     else if type = 5 then Some (Some bs)
     else if type = 6 then run (nt_instruction_METER p)
     else if type = 7 then run (nt_instruction_WRITE_METADATA_FROM_PACKET p)
     else if type = 8 then run (nt_instruction_GOTO_DIRECT_TABLE (b (p + 1)) p)
     else if type = 9 then run (nt_instruction_CONDITIONAL_JMP (b p) (b (p + 2)) (b (p + 4)) (b (p + 6)) p)
     else if type = 10 then run (nt_instruction_CALCULATE_FIELD (b (p + 2)) p)
     else if type = 11 then run (nt_instruction_MOVE_PACKET_OFFSET (b (p + 1)) p)
     else if type = 0xFFFF then Some (Some bs)
     else Some None)"

definition nt_instruction_HtoN :: "nat \<Rightarrow> bytes \<Rightarrow> (ret \<times> bytes) option" where
  "nt_instruction_HtoN p bs = do {
     type \<leftarrow> get16 bs p;
     data \<leftarrow> nt_instruction_data type (p + 8) bs;
     (case data of
        None \<Rightarrow> Some (POF_ERROR, bs)
      | Some bs1 \<Rightarrow> do { bs2 \<leftarrow> run_conv [NTOHS p, NTOHS (p + 2)] bs1; Some (POF_OK, bs2) })
   }"

definition nt_instruction_NtoH :: "nat \<Rightarrow> bytes \<Rightarrow> (ret \<times> bytes) option" where
  "nt_instruction_NtoH p bs = do {
     bs1 \<leftarrow> run_conv [NTOHS p, NTOHS (p + 2)] bs;
     type \<leftarrow> get16 bs1 p;
     data \<leftarrow> nt_instruction_data type (p + 8) bs1;
     (case data of None \<Rightarrow> Some (POF_ERROR, bs1) | Some bs2 \<Rightarrow> Some (POF_OK, bs2))
   }"

text \<open>\<open>count\<close> consecutive instructions of 304 bytes; the results are not looked at.\<close>

fun nt_instructions :: "(nat \<Rightarrow> bytes \<Rightarrow> (ret \<times> bytes) option) \<Rightarrow> nat \<Rightarrow> nat \<Rightarrow> bytes \<Rightarrow> bytes option" where
  "nt_instructions f 0 p bs = Some bs"
| "nt_instructions f (Suc count) p bs = do {
     (_, bs') \<leftarrow> f p bs;
     nt_instructions f count (p + 304) bs'
   }"

definition nt_flow_entry_fixed :: "nat \<Rightarrow> conv list" where
  "nt_flow_entry_fixed p = [NTOHL (p + 4), NTOH64 (p + 8), NTOH64 (p + 16), NTOHS (p + 26),
     NTOHS (p + 28), NTOHS (p + 30), NTOHL (p + 32), NTOHS (p + 36)]"

definition nt_matches_x :: "nat \<Rightarrow> nat \<Rightarrow> conv list" where
  "nt_matches_x count p = concat (map (\<lambda>i. nt_match_x (p + 40 * i)) [0..<count])"

definition pof_HtoN_transfer_flow_entry :: "nat \<Rightarrow> bytes \<Rightarrow> bytes option" where
  "pof_HtoN_transfer_flow_entry p bs = do {
     bs1 \<leftarrow> run_conv (nt_flow_entry_fixed p) bs;
     match_field_num \<leftarrow> rd bs1 (p + 1);
     bs2 \<leftarrow> run_conv (nt_matches_x (unat match_field_num) (p + 40)) bs1;
     instruction_num \<leftarrow> rd bs2 (p + 2);
     nt_instructions nt_instruction_HtoN (unat instruction_num) (p + 360) bs2
   }"

definition pof_NtoH_transfer_flow_entry :: "nat \<Rightarrow> bytes \<Rightarrow> bytes option" where
  "pof_NtoH_transfer_flow_entry p bs = do {
     bs1 \<leftarrow> run_conv (nt_flow_entry_fixed p) bs;
     match_field_num \<leftarrow> rd bs1 (p + 1);
     bs2 \<leftarrow> run_conv (nt_matches_x (unat match_field_num) (p + 40)) bs1;
     instruction_num \<leftarrow> rd bs2 (p + 2);
     nt_instructions nt_instruction_NtoH (unat instruction_num) (p + 360) bs2
   }"

section \<open>Words and bytes\<close>

lemma length_le_bytes [simp]: "length (le_bytes n w) = n"
  by (simp add: le_bytes_def)

lemma bit_of_le:
  "bit (of_le bs :: 'a::len word) i \<longleftrightarrow> i < LENGTH('a) \<and> i < 8 * length bs \<and> bit (bs ! (i div 8)) (i mod 8)"
proof (induction bs arbitrary: i)
  case (Cons b bs)
  show ?case
  proof (cases "i < 8")
    case True
    then show ?thesis by (auto simp: bit_or_iff bit_ucast_iff bit_push_bit_iff dest: bit_imp_le_length)
  next
    case False
    then obtain k where "i = k + 8" by (metis add.commute le_Suc_ex not_less)
    then have "i div 8 = Suc (k div 8)" "i mod 8 = k mod 8" by simp_all
    then show ?thesis using Cons.IH [of k] \<open>i = k + 8\<close>
      by (auto simp: bit_or_iff bit_ucast_iff bit_push_bit_iff dest: bit_imp_le_length)
  qed
qed simp

lemma of_le_le_bytes: "LENGTH('a) = 8 * n \<Longrightarrow> of_le (le_bytes n w) = (w :: 'a::len word)"
  by (rule bit_word_eqI) (auto simp: bit_of_le le_bytes_def bit_ucast_iff bit_drop_bit_eq)

lemma le_bytes_of_le:
  "LENGTH('a) = 8 * length bs \<Longrightarrow> le_bytes (length bs) (of_le bs :: 'a::len word) = bs"
proof (rule nth_equalityI)
  fix i assume L: "LENGTH('a) = 8 * length bs" and "i < length (le_bytes (length bs) (of_le bs :: 'a word))"
  then have i: "i < length bs" by simp
  show "le_bytes (length bs) (of_le bs :: 'a word) ! i = bs ! i"
    by (rule bit_word_eqI) (use i L in \<open>auto simp: le_bytes_def bit_ucast_iff bit_drop_bit_eq bit_of_le\<close>)
qed simp

lemma bit_byte_mask: "bit (push_bit k (mask 8) :: int) n \<longleftrightarrow> k \<le> n \<and> n < k + 8"
  by (auto simp: bit_push_bit_iff bit_mask_iff)

lemma bit_byte_masks:
  "bit (0xff00 :: int) n \<longleftrightarrow> 8 \<le> n \<and> n < 16"
  "bit (0xff0000 :: int) n \<longleftrightarrow> 16 \<le> n \<and> n < 24"
  "bit (0xff000000 :: int) n \<longleftrightarrow> 24 \<le> n \<and> n < 32"
  "bit (0xff00000000 :: int) n \<longleftrightarrow> 32 \<le> n \<and> n < 40"
  "bit (0xff0000000000 :: int) n \<longleftrightarrow> 40 \<le> n \<and> n < 48"
  "bit (0xff000000000000 :: int) n \<longleftrightarrow> 48 \<le> n \<and> n < 56"
  "bit (0xff00000000000000 :: int) n \<longleftrightarrow> 56 \<le> n \<and> n < 64"
  using bit_byte_mask [of 8 n] bit_byte_mask [of 16 n] bit_byte_mask [of 24 n] bit_byte_mask [of 32 n]
    bit_byte_mask [of 40 n] bit_byte_mask [of 48 n] bit_byte_mask [of 56 n]
  by (simp_all add: mask_eq_exp_minus_1 push_bit_eq_mult)

lemmas byte_bits = bit_or_iff bit_and_iff bit_push_bit_iff bit_drop_bit_eq bit_ucast_iff bit_byte_masks

lemma le_bytes_NTOHS: "length bs = 2 \<Longrightarrow> le_bytes 2 (POF_NTOHS (of_le bs)) = rev bs"
proof -
  assume "length bs = 2"
  then obtain a b where bs: "bs = [a, b]" by (auto simp: length_Suc_conv eval_nat_numeral)
  have "ucast (drop_bit 0 (POF_NTOHS (of_le [a, b]))) = b" "ucast (drop_bit 8 (POF_NTOHS (of_le [a, b]))) = a"
    by (rule bit_word_eqI; auto simp: POF_NTOHS_def byte_bits dest: bit_imp_le_length)+
  then show ?thesis by (simp add: bs le_bytes_def upt_rec)
qed

lemma bit_NTOHL:
  "j < 8 \<Longrightarrow> bit (POF_NTOHL w) (0 + j) = bit w (24 + j)"
  "j < 8 \<Longrightarrow> bit (POF_NTOHL w) (8 + j) = bit w (16 + j)"
  "j < 8 \<Longrightarrow> bit (POF_NTOHL w) (16 + j) = bit w (8 + j)"
  "j < 8 \<Longrightarrow> bit (POF_NTOHL w) (24 + j) = bit w (0 + j)"
  by (simp_all add: POF_NTOHL_def byte_bits)

lemma bit_NTOH64:
  "j < 8 \<Longrightarrow> bit (POF_NTOH64 w) (0 + j) = bit w (56 + j)"
  "j < 8 \<Longrightarrow> bit (POF_NTOH64 w) (8 + j) = bit w (48 + j)"
  "j < 8 \<Longrightarrow> bit (POF_NTOH64 w) (16 + j) = bit w (40 + j)"
  "j < 8 \<Longrightarrow> bit (POF_NTOH64 w) (24 + j) = bit w (32 + j)"
  "j < 8 \<Longrightarrow> bit (POF_NTOH64 w) (32 + j) = bit w (24 + j)"
  "j < 8 \<Longrightarrow> bit (POF_NTOH64 w) (40 + j) = bit w (16 + j)"
  "j < 8 \<Longrightarrow> bit (POF_NTOH64 w) (48 + j) = bit w (8 + j)"
  "j < 8 \<Longrightarrow> bit (POF_NTOH64 w) (56 + j) = bit w (0 + j)"
  by (simp_all add: POF_NTOH64_def byte_bits)

text \<open>A conversion that moves byte \<open>k\<close> to byte \<open>n - 1 - k\<close> reverses the bytes.\<close>

lemma le_bytes_rev:
  fixes f :: "'a::len word \<Rightarrow> 'a word"
  assumes L: "LENGTH('a) = 8 * n" and len: "length bs = n"
    and f: "\<And>k j w. k < n \<Longrightarrow> j < 8 \<Longrightarrow> bit (f w) (8 * k + j) = bit w (8 * (n - 1 - k) + j)"
  shows "le_bytes n (f (of_le bs)) = rev bs"
proof (rule nth_equalityI)
  fix k assume "k < length (le_bytes n (f (of_le bs)))"
  then have k: "k < n" by simp
  show "le_bytes n (f (of_le bs)) ! k = rev bs ! k"
  proof (rule bit_word_eqI)
    fix j assume "j < LENGTH(8)"
    then have j: "j < 8" by simp
    have "n - 1 - k < n" using k by simp
    then have "8 * (n - 1 - k) + j < 8 * n" using j by linarith
    then have "bit (of_le bs :: 'a word) (8 * (n - 1 - k) + j) = bit (bs ! (n - 1 - k)) j"
      using j L len by (simp add: bit_of_le)
    then show "bit (le_bytes n (f (of_le bs)) ! k) j = bit (rev bs ! k) j"
      using k j len f [OF k j] by (simp add: le_bytes_def bit_ucast_iff bit_drop_bit_eq rev_nth)
  qed
qed (simp add: len)

lemma less_4_cases: "k < (4 :: nat) \<Longrightarrow> k = 0 \<or> k = 1 \<or> k = 2 \<or> k = 3"
  by linarith

lemma less_8_cases: "k < (8 :: nat) \<Longrightarrow> k = 0 \<or> k = 1 \<or> k = 2 \<or> k = 3 \<or> k = 4 \<or> k = 5 \<or> k = 6 \<or> k = 7"
  by linarith

lemma le_bytes_NTOHL: "length bs = 4 \<Longrightarrow> le_bytes 4 (POF_NTOHL (of_le bs)) = rev bs"
  by (rule le_bytes_rev; (drule less_4_cases)?; auto simp: bit_NTOHL bit_NTOHL(1) [simplified])

lemma le_bytes_NTOH64: "length bs = 8 \<Longrightarrow> le_bytes 8 (POF_NTOH64 (of_le bs)) = rev bs"
  by (rule le_bytes_rev; (drule less_8_cases)?; auto simp: bit_NTOH64 bit_NTOH64(1) [simplified])

section \<open>Conversions reverse bytes\<close>

primrec conv_off :: "conv \<Rightarrow> nat" where
  "conv_off (NTOHS p) = p" | "conv_off (NTOHL p) = p" | "conv_off (NTOH64 p) = p"

primrec conv_len :: "conv \<Rightarrow> nat" where
  "conv_len (NTOHS p) = 2" | "conv_len (NTOHL p) = 4" | "conv_len (NTOH64 p) = 8"

definition conv_end :: "conv \<Rightarrow> nat" where
  "conv_end c = conv_off c + conv_len c"

definition mirror :: "conv \<Rightarrow> nat \<Rightarrow> nat" where
  "mirror c i = (if conv_off c \<le> i \<and> i < conv_end c then conv_off c + (conv_end c - 1 - i) else i)"

lemma conv_step_rev:
  "conv_step c bs = (if conv_end c \<le> length bs
     then Some (take (conv_off c) bs @ rev (take (conv_len c) (drop (conv_off c) bs)) @ drop (conv_end c) bs)
     else None)"
  by (cases c) (simp_all add: conv_end_def get16_def put16_def get32_def put32_def get64_def put64_def
      get_le_def put_le_def le_bytes_NTOHS le_bytes_NTOHL le_bytes_NTOH64)

lemma conv_step_mirror:
  assumes "conv_end c \<le> length bs"
  shows "\<exists>bs'. conv_step c bs = Some bs' \<and> length bs' = length bs \<and> (\<forall>i < length bs. bs' ! i = bs ! mirror c i)"
proof -
  have "(take (conv_off c) bs @ rev (take (conv_len c) (drop (conv_off c) bs)) @ drop (conv_end c) bs) ! i
      = bs ! mirror c i" if "i < length bs" for i
  proof -
    define o1 n1 where "o1 = conv_off c" and "n1 = conv_len c"
    have e: "conv_end c = o1 + n1" "o1 + n1 \<le> length bs" using assms by (simp_all add: o1_def n1_def conv_end_def)
    consider "i < o1" | "o1 \<le> i" "i < o1 + n1" | "o1 + n1 \<le> i" by linarith
    then show ?thesis
    proof cases
      case 2
      then have "o1 + (n1 - Suc (i - o1)) = o1 + (o1 + n1 - 1 - i)" "i - o1 < n1" by auto
      then show ?thesis using 2 e by (simp add: nth_append rev_nth mirror_def min_absorb2 flip: o1_def n1_def)
    qed (use e that in \<open>auto simp: nth_append mirror_def min_absorb2 simp flip: o1_def n1_def\<close>)
  qed
  moreover have "length (take (conv_off c) bs @ rev (take (conv_len c) (drop (conv_off c) bs)) @ drop (conv_end c) bs)
      = length bs"
    using assms by (cases c) (auto simp: conv_end_def)
  ultimately show ?thesis using assms by (simp add: conv_step_rev)
qed

definition conv_disj :: "conv \<Rightarrow> conv \<Rightarrow> bool" where
  "conv_disj c d \<longleftrightarrow> conv_end c \<le> conv_off d \<or> conv_end d \<le> conv_off c"

primrec convs_disj :: "conv list \<Rightarrow> bool" where
  "convs_disj [] \<longleftrightarrow> True"
| "convs_disj (c # cs) \<longleftrightarrow> (\<forall>d \<in> set cs. conv_disj c d) \<and> convs_disj cs"

primrec perm :: "conv list \<Rightarrow> nat \<Rightarrow> nat" where
  "perm [] i = i"
| "perm (c # cs) i = mirror c (perm cs i)"

lemma mirror_mirror [simp]: "mirror c (mirror c i) = i"
  by (auto simp: mirror_def)

lemma mirror_less: "conv_end c \<le> n \<Longrightarrow> i < n \<Longrightarrow> mirror c i < n"
  by (auto simp: mirror_def)

lemma mirror_commute: "conv_disj c d \<Longrightarrow> mirror c (mirror d i) = mirror d (mirror c i)"
  by (auto simp: mirror_def conv_disj_def)

lemma mirror_perm: "\<forall>d \<in> set cs. conv_disj c d \<Longrightarrow> mirror c (perm cs i) = perm cs (mirror c i)"
  by (induction cs) (auto simp: mirror_commute)

lemma perm_perm: "convs_disj cs \<Longrightarrow> perm cs (perm cs i) = i"
  by (induction cs arbitrary: i) (auto simp: mirror_perm [symmetric])

lemma perm_less: "\<forall>c \<in> set cs. conv_end c \<le> n \<Longrightarrow> i < n \<Longrightarrow> perm cs i < n"
  by (induction cs) (auto intro: mirror_less)

lemma perm_outside: "\<forall>c \<in> set cs. \<not> (conv_off c \<le> i \<and> i < conv_end c) \<Longrightarrow> perm cs i = i"
  by (induction cs) (auto simp: mirror_def)

lemma run_conv_perm:
  "\<forall>c \<in> set cs. conv_end c \<le> length bs \<Longrightarrow> \<exists>bs'. run_conv cs bs = Some bs' \<and> length bs' = length bs
     \<and> (\<forall>i < length bs. bs' ! i = bs ! perm cs i)"
proof (induction cs arbitrary: bs)
  case (Cons c cs)
  obtain b1 where b1: "conv_step c bs = Some b1" "length b1 = length bs"
      "\<forall>i < length bs. b1 ! i = bs ! mirror c i"
    using conv_step_mirror [of c bs] Cons.prems by auto
  then obtain b2 where b2: "run_conv cs b1 = Some b2" "length b2 = length b1"
      "\<forall>i < length b1. b2 ! i = b1 ! perm cs i"
    using Cons.IH [of b1] Cons.prems by auto
  have "b2 ! i = bs ! perm (c # cs) i" if "i < length bs" for i
    using b1 b2 that perm_less [of cs "length bs" i] Cons.prems by auto
  then show ?case using b1 b2 by simp
qed simp

text \<open>Disjoint conversions in range are an involution that leaves every other byte alone.\<close>

lemma run_conv_involution:
  assumes "\<forall>c \<in> set cs. conv_end c \<le> length bs" "convs_disj cs"
  shows "\<exists>bs'. run_conv cs bs = Some bs' \<and> length bs' = length bs \<and> run_conv cs bs' = Some bs
    \<and> (\<forall>i < length bs. (\<forall>c \<in> set cs. \<not> (conv_off c \<le> i \<and> i < conv_end c)) \<longrightarrow> bs' ! i = bs ! i)"
proof -
  obtain b1 where b1: "run_conv cs bs = Some b1" "length b1 = length bs"
      "\<forall>i < length bs. b1 ! i = bs ! perm cs i"
    using run_conv_perm [OF assms(1)] by blast
  obtain b2 where b2: "run_conv cs b1 = Some b2" "length b2 = length b1"
      "\<forall>i < length b1. b2 ! i = b1 ! perm cs i"
    using run_conv_perm [of cs b1] assms(1) b1(2) by auto
  have "b2 = bs"
  proof (rule nth_equalityI)
    fix i assume "i < length b2"
    then show "b2 ! i = bs ! i"
      using b1 b2 perm_less [OF assms(1), of i] perm_perm [OF assms(2)] by simp
  qed (simp add: b1 b2)
  moreover have "b1 ! i = bs ! i"
    if "i < length bs" "\<forall>c \<in> set cs. \<not> (conv_off c \<le> i \<and> i < conv_end c)" for i
    using b1(3) that perm_outside [OF that(2)] by simp
  ultimately show ?thesis using b1 b2 by blast
qed

section \<open>Round trips\<close>

text \<open>All conversions of a list lie within \<open>[a, b)\<close>.\<close>

definition convs_in :: "nat \<Rightarrow> nat \<Rightarrow> conv list \<Rightarrow> bool" where
  "convs_in a b cs \<longleftrightarrow> (\<forall>c \<in> set cs. a \<le> conv_off c \<and> conv_end c \<le> b)"

lemmas conv_simps = convs_in_def conv_disj_def conv_end_def

lemma run_conv_roundtrip:
  assumes "convs_in a b cs" "b \<le> length bs" "convs_disj cs"
  shows "\<exists>bs'. run_conv cs bs = Some bs' \<and> length bs' = length bs \<and> run_conv cs bs' = Some bs
    \<and> (\<forall>i < length bs. i < a \<or> b \<le> i \<or> (\<forall>c \<in> set cs. \<not> (conv_off c \<le> i \<and> i < conv_end c))
         \<longrightarrow> bs' ! i = bs ! i)"
proof -
  have "\<forall>c \<in> set cs. conv_end c \<le> length bs" using assms(1,2) by (auto simp: convs_in_def)
  then obtain bs' where "run_conv cs bs = Some bs'" "length bs' = length bs" "run_conv cs bs' = Some bs"
    "\<forall>i < length bs. (\<forall>c \<in> set cs. \<not> (conv_off c \<le> i \<and> i < conv_end c)) \<longrightarrow> bs' ! i = bs ! i"
    using run_conv_involution assms(3) by blast
  then show ?thesis using assms(1) by (fastforce simp: convs_in_def)
qed

text \<open>
  The transfers of the fixed-layout structures are their own inverse: applying one twice
  to a buffer that holds the structure gives the buffer back, so a message converted to
  network order by the sender is restored by the receiver.
\<close>

theorem fixed_transfers_roundtrip:
  assumes "(cs, n) \<in> {(pof_NtoH_transfer_header 0, 8), (pof_HtoN_transfer_header 0, 8),
      (pof_NtoH_transfer_error 0, 272), (pof_NtoH_transfer_packet_in 0, 24), (pof_NtoH_transfer_port 0, 120),
      (pof_NtoH_transfer_flow_table 0, 144), (pof_NtoH_transfer_meter 0, 16), (pof_NtoH_transfer_counter 0, 24),
      (pof_HtoN_transfer_switch_features 0, 208), (pof_HtoN_transfer_flow_table_resource 0, 80),
      (pof_HtoN_transfer_port_status 0, 128), (pof_HtoN_transfer_switch_config 0, 8),
      (pof_HtoN_transfer_queryall_request 0, 8)}"
    and "n \<le> length bs"
  shows "\<exists>bs'. run_conv cs bs = Some bs' \<and> length bs' = length bs \<and> run_conv cs bs' = Some bs"
proof -
  have "convs_in 0 n cs \<and> convs_disj cs"
    using assms(1)
    by (auto simp: conv_simps pof_NtoH_transfer_header_def pof_HtoN_transfer_header_def
        pof_NtoH_transfer_error_def pof_NtoH_transfer_packet_in_def pof_NtoH_transfer_port_def
        pof_NtoH_transfer_flow_table_def pof_NtoH_transfer_meter_def pof_NtoH_transfer_counter_def
        pof_HtoN_transfer_switch_features_def pof_HtoN_transfer_flow_table_resource_def
        pof_HtoN_transfer_table_resource_desc_def pof_HtoN_transfer_port_status_def nt_port_def
        pof_HtoN_transfer_switch_config_def pof_HtoN_transfer_queryall_request_def nt_match_def upt_rec)
  then show ?thesis using run_conv_roundtrip [of 0 n cs bs] assms(2) by blast
qed

lemma fixed_transfers_roundtrip_witness:
  "\<exists>bs'. run_conv (pof_NtoH_transfer_header 0) [4, 10, 0, 8, 0, 0, 0, 1] = Some bs'
     \<and> run_conv (pof_NtoH_transfer_header 0) bs' = Some [4, 10, 0, 8, 0, 0, 0, 1]"
  using fixed_transfers_roundtrip [of "pof_NtoH_transfer_header 0" 8 "[4, 10, 0, 8, 0, 0, 0, 1]"] by auto

subsection \<open>Actions\<close>

lemma nt_action_data_in: "convs_in p (p + 44) (nt_action_data type b p)"
  by (simp add: nt_action_data_def nt_action_OUTPUT_def nt_action_SET_FIELD_def
      nt_action_SET_FIELD_FROM_METADATA_def nt_action_MODIFY_FIELD_def nt_action_ADD_FIELD_def
      nt_action_DELETE_FIELD_def nt_action_CALCULATE_CHECKSUM_def nt_action_GROUP_def nt_action_DROP_def
      nt_action_PACKET_IN_def nt_action_COUNTER_def nt_value_def nt_match_def nt_match_x_def conv_simps)

lemma nt_action_data_disj: "convs_disj (nt_action_data type b p)"
  by (simp add: nt_action_data_def nt_action_OUTPUT_def nt_action_SET_FIELD_def
      nt_action_SET_FIELD_FROM_METADATA_def nt_action_MODIFY_FIELD_def nt_action_ADD_FIELD_def
      nt_action_DELETE_FIELD_def nt_action_CALCULATE_CHECKSUM_def nt_action_GROUP_def nt_action_DROP_def
      nt_action_PACKET_IN_def nt_action_COUNTER_def nt_value_def nt_match_def nt_match_x_def conv_simps)

text \<open>The bytes that select the layout of a value are not converted themselves.\<close>

lemma nt_action_data_control:
  assumes "\<And>i. \<forall>c \<in> set (nt_action_data type b p). \<not> (conv_off c \<le> i \<and> i < conv_end c) \<Longrightarrow>
      i < p + 44 \<Longrightarrow> b' i = b i"
  shows "nt_action_data type b' p = nt_action_data type b p"
proof -
  have "b' p = b p" if "type = 0"
    by (rule assms) (auto simp: that nt_action_data_def nt_action_OUTPUT_def nt_value_def nt_match_def conv_end_def)
  moreover have "b' (p + 2) = b (p + 2)" if "type = 5"
    by (rule assms) (auto simp: that nt_action_data_def nt_action_DELETE_FIELD_def nt_value_def nt_match_def conv_end_def)
  ultimately show ?thesis by (simp add: nt_action_data_def)
qed

lemma get16_bytes:
  "p + 2 \<le> length bs \<Longrightarrow> get16 bs p = Some (ucast (bs ! p) OR push_bit 8 (ucast (bs ! (p + 1))))"
proof -
  assume p: "p + 2 \<le> length bs"
  then have "take 2 (drop p bs) = [bs ! p, bs ! (p + 1)]"
    by (intro nth_equalityI) (auto simp: less_Suc_eq eval_nat_numeral)
  then show ?thesis using p by (simp add: get16_def get_le_def)
qed

lemma get16_bytes_2:
  "p + 4 \<le> length bs \<Longrightarrow> get16 bs (p + 2) = Some (ucast (bs ! (p + 2)) OR push_bit 8 (ucast (bs ! (p + 3))))"
  using get16_bytes [of "p + 2" bs] by (simp add: eval_nat_numeral)

lemma header_conv:
  assumes "p + 48 \<le> length bs"
  shows "\<exists>bs'. run_conv [NTOHS p, NTOHS (p + 2)] bs = Some bs' \<and> length bs' = length bs
    \<and> run_conv [NTOHS p, NTOHS (p + 2)] bs' = Some bs
    \<and> bs' ! p = bs ! (p + 1) \<and> bs' ! (p + 1) = bs ! p \<and> bs' ! (p + 2) = bs ! (p + 3) \<and> bs' ! (p + 3) = bs ! (p + 2)
    \<and> (\<forall>i < length bs. i < p \<or> p + 4 \<le> i \<longrightarrow> bs' ! i = bs ! i)"
proof -
  let ?cs = "[NTOHS p, NTOHS (p + 2)]"
  have d: "convs_in p (p + 4) ?cs" "convs_disj ?cs" by (simp_all add: conv_simps)
  obtain bs' where bs': "run_conv ?cs bs = Some bs'" "length bs' = length bs" "run_conv ?cs bs' = Some bs"
    "\<forall>i < length bs. i < p \<or> p + 4 \<le> i \<longrightarrow> bs' ! i = bs ! i"
    using run_conv_roundtrip [OF d(1) _ d(2), of bs] assms by auto
  have nth: "bs' ! i = bs ! perm ?cs i" if "i < length bs" for i
    using run_conv_perm [of ?cs bs] bs'(1) assms that by (auto simp: conv_end_def)
  have "perm ?cs p = p + 1" "perm ?cs (p + 1) = p" "perm ?cs (p + 2) = p + 3" "perm ?cs (p + 3) = p + 2"
    by (simp_all add: mirror_def conv_end_def)
  then have "bs' ! p = bs ! (p + 1)" "bs' ! (p + 1) = bs ! p" "bs' ! (p + 2) = bs ! (p + 3)" "bs' ! (p + 3) = bs ! (p + 2)"
    using nth [of p] nth [of "p + 1"] nth [of "p + 2"] nth [of "p + 3"] assms by auto
  then show ?thesis using bs' by blast
qed

lemma get16_gt_255: "a = 0 \<Longrightarrow> b \<noteq> 0 \<Longrightarrow> (ucast (a :: u8) OR push_bit 8 (ucast (b :: u8)) :: u16) > 0xff"
proof -
  assume a: "a = 0" and b: "b \<noteq> 0"
  have "push_bit 8 (ucast b :: u16) = of_nat (256 * unat b)"
    by (simp add: push_bit_eq_mult unat_word_ariths mult.commute)
  moreover have "256 * unat b < 65536" using unat_u8_less [of b] by simp
  ultimately have "unat (push_bit 8 (ucast b :: u16)) = 256 * unat b" by (simp only: unat_of_nat_u16)
  moreover have "0 < unat b" using b by (simp add: unat_gt_0)
  ultimately show ?thesis using a by (simp add: word_less_nat_alt)
qed

lemma get16_le_255: "\<not> (ucast (a :: u8) OR push_bit 8 (ucast (0 :: u8)) :: u16) > 0xff"
  using unat_u8_less [of a] by (simp add: word_less_nat_alt not_less)

text \<open>
  The direction test is right for actions whose length field is between 1 and 255: such an
  action in network order is converted to host order, and converting the result restores it.
  Bytes outside the action are not touched.
\<close>

lemma nt_action_roundtrip_aux:
  assumes len: "p + 48 \<le> length bs" and net: "bs ! (p + 2) = 0" "bs ! (p + 3) \<noteq> 0"
  shows "\<exists>bs'. nt_action p bs = Some bs' \<and> length bs' = length bs \<and> nt_action p bs' = Some bs
     \<and> get16 bs' p = Some (ucast (bs ! (p + 1)) OR push_bit 8 (ucast (bs ! p)))
     \<and> get16 bs' (p + 2) = Some (ucast (bs ! (p + 3)))
     \<and> (\<forall>i < length bs. i < p \<or> p + 48 \<le> i \<longrightarrow> bs' ! i = bs ! i)"
proof -
  obtain b1 where b1: "run_conv [NTOHS p, NTOHS (p + 2)] bs = Some b1" "length b1 = length bs"
    "run_conv [NTOHS p, NTOHS (p + 2)] b1 = Some bs"
    "b1 ! p = bs ! (p + 1)" "b1 ! (p + 1) = bs ! p" "b1 ! (p + 2) = bs ! (p + 3)" "b1 ! (p + 3) = bs ! (p + 2)"
    "\<forall>i < length bs. i < p \<or> p + 4 \<le> i \<longrightarrow> b1 ! i = bs ! i"
    using header_conv [OF len] by blast
  define type where "type = (ucast (bs ! (p + 1)) OR push_bit 8 (ucast (bs ! p)) :: u16)"
  have t1: "get16 b1 p = Some type" using len b1 by (simp add: get16_bytes type_def)
  let ?cs = "nt_action_data type (\<lambda>i. b1 ! i) (p + 4)"
  have r: "convs_in (p + 4) (p + 48) ?cs" using nt_action_data_in [of "p + 4"] by (simp add: add.commute)
  obtain b2 where b2: "run_conv ?cs b1 = Some b2" "length b2 = length b1" "run_conv ?cs b2 = Some b1"
    "\<forall>i < length b1. i < p + 4 \<or> p + 48 \<le> i \<or> (\<forall>c \<in> set ?cs. \<not> (conv_off c \<le> i \<and> i < conv_end c))
       \<longrightarrow> b2 ! i = b1 ! i"
    using run_conv_roundtrip [OF r _ nt_action_data_disj, of b1] len b1(2) by auto
  have ctl: "nt_action_data type (\<lambda>i. b2 ! i) (p + 4) = ?cs"
    by (rule nt_action_data_control) (use b2(4) len b1(2) in auto)
  have hdr: "b2 ! i = b1 ! i" if "i < p + 4" for i using b2(4) that len b1(2) by auto
  have 1: "nt_action p bs = Some b2"
  proof -
    have "get16 bs (p + 2) = Some (ucast (bs ! (p + 2)) OR push_bit 8 (ucast (bs ! (p + 3))))"
      using len get16_bytes_2 [of p bs] by simp
    then show ?thesis
      using get16_gt_255 [OF net] b1(1,2) t1 b2(1) len by (simp add: nt_action_def rd_Some)
  qed
  have 2: "nt_action p b2 = Some bs"
  proof -
    have "get16 b2 (p + 2) = Some (ucast (bs ! (p + 3)) OR push_bit 8 (ucast (0 :: u8)))"
      using len get16_bytes_2 [of p b2] b2(2) b1 hdr [of "p + 2"] hdr [of "p + 3"] net(1) by simp
    moreover have "get16 b2 p = Some type"
      using t1 len get16_bytes [of p b2] get16_bytes [of p b1] b2(2) b1(2) hdr [of p] hdr [of "p + 1"] by simp
    ultimately show ?thesis
      using get16_le_255 [of "bs ! (p + 3)"] ctl b2(2,3) b1(2,3) len by (simp add: nt_action_def rd_Some)
  qed
  have "get16 b2 p = Some type"
    using t1 len get16_bytes [of p b2] get16_bytes [of p b1] b2(2) b1(2) hdr [of p] hdr [of "p + 1"] by simp
  moreover have "get16 b2 (p + 2) = Some (ucast (bs ! (p + 3)))"
    using len get16_bytes_2 [of p b2] b2(2) b1 hdr [of "p + 2"] hdr [of "p + 3"] net(1) by simp
  moreover have "\<forall>i < length bs. i < p \<or> p + 48 \<le> i \<longrightarrow> b2 ! i = bs ! i"
  proof (intro allI impI)
    fix i assume i: "i < length bs" and out: "i < p \<or> p + 48 \<le> i"
    then have "b2 ! i = b1 ! i" using b2(4) [rule_format, of i] b1(2) by linarith
    moreover have "b1 ! i = bs ! i" using b1(8) [rule_format, of i] i out by linarith
    ultimately show "b2 ! i = bs ! i" by simp
  qed
  moreover have "length b2 = length bs" using b1(2) b2(2) by simp
  ultimately show ?thesis using 1 2 unfolding type_def by (intro exI [of _ b2] conjI)
qed



text \<open>Outside that range the guess is wrong: a network-order action of length 256 is not converted back.\<close>

lemma nt_action_wrong_guess:
  "nt_action 0 ([0, 8, 1, 0, 0, 0, 0, 7] @ replicate 40 0) = Some ([8, 0, 0, 1, 0, 0, 0, 7] @ replicate 40 0)"
  by code_simp

end
