(* ===== verification/Pof_Encap.thy ===== *)
theory Pof_Encap
  imports Pof_Byteorder
begin

text \<open>
  Messages to the controller: \<^verbatim>\<open>switch_control/pof_encap.c\<close>, with the queue routine of
  \<^verbatim>\<open>common/pof_basefunc.c\<close> and the queueing of \<^verbatim>\<open>switch_control/pof_switch.c\<close> it goes through.
  Every error reported with \<^verbatim>\<open>POF_ERROR_HANDLE_RETURN_UPWARD\<close> becomes a message here.
\<close>

section \<open>Definitions\<close>

text \<open>\<^verbatim>\<open>memcpy\<close> of a byte list into a buffer, at an offset.\<close>

definition mem_write :: "bytes \<Rightarrow> nat \<Rightarrow> bytes \<Rightarrow> bytes option" where
  "mem_write buf off src =
     (if off + length src \<le> length buf
      then Some (take off buf @ src @ drop (off + length src) buf) else None)"

text \<open>\<^verbatim>\<open>n\<close> bytes read from the start of a buffer.\<close>

definition mem_read :: "bytes \<Rightarrow> nat \<Rightarrow> bytes option" where
  "mem_read buf n = (if n \<le> length buf then Some (take n buf) else None)"

definition err_no_upward :: "pof_error_type \<Rightarrow> err_code \<Rightarrow> glob \<Rightarrow> ret \<times> glob" where
  "err_no_upward type code g = (ERR code, pofec_set_error type code g)"

definition pofbf_queue_write :: "bytes option \<Rightarrow> u32 \<Rightarrow> bool \<Rightarrow> glob \<Rightarrow> (ret \<times> glob) option" where
  "pofbf_queue_write message msg_len timeout_valid g = (
     if \<not> send_q_valid g \<or> message = None then
       Some (err_no_upward POFET_SOFTWARE_FAILED (SoftE POF_WRITE_MSG_QUEUE_FAILURE) g)
     else if msg_len > 2560 then
       Some (err_no_upward POFET_SOFTWARE_FAILED (SoftE POF_MESSAGE_SIZE_TOO_BIG) g)
     else if \<not> timeout_valid then
       Some (err_no_upward POFET_SOFTWARE_FAILED (SoftE POF_WRITE_MSG_QUEUE_FAILURE) g)
     else (case malloc g of
         (None, g1) \<Rightarrow> Some (err_no_upward POFET_SOFTWARE_FAILED (SoftE POF_ALLOCATE_RESOURCE_FAILURE) g1)
       | (Some _, g1) \<Rightarrow> do {
           mdata \<leftarrow> mem_read (the message) (unat msg_len);
           let n = msgsnd_n g1;
           let g2 = g1\<lparr>msgsnd_n := n + 1\<rparr>;
           (if msgsnd_fail g n then
              Some (err_no_upward POFET_SOFTWARE_FAILED (SoftE POF_WRITE_MSG_QUEUE_FAILURE) g2)
            else Some (POF_OK, g2\<lparr>send_queue := send_queue g2 @ [mdata]\<rparr>))
         }))"

definition pofsc_send_packet_upward :: "bytes \<Rightarrow> u32 \<Rightarrow> glob \<Rightarrow> (ret \<times> glob) option" where
  "pofsc_send_packet_upward packet len g = do {
     (r, g1) \<leftarrow> pofbf_queue_write (Some packet) len True g;
     (if r \<noteq> POF_OK
      then Some (err_no_upward POFET_SOFTWARE_FAILED (SoftE POF_WRITE_MSG_QUEUE_FAILURE) g1)
      else Some (POF_OK, g1))
   }"

text \<open>The header is built in the message buffer; a body that is not \<^verbatim>\<open>NULL\<close> is copied behind it.\<close>

definition pofec_reply_msg :: "pof_type \<Rightarrow> u32 \<Rightarrow> u32 \<Rightarrow> bytes option \<Rightarrow> glob \<Rightarrow> (ret \<times> glob) option" where
  "pofec_reply_msg type xid msg_len msg_body g = (
     if conn_state g \<in> {POFCS_REQUEST_FEATURE, POFCS_SET_CONFIG, POFCS_REQUEST_GET_CONFIG, POFCS_CHANNEL_RUN}
     then do {
       let total_len = msg_len + 8;
       b1 \<leftarrow> wr (pofec_queue_msg_buf g) 0 0x04;
       b2 \<leftarrow> wr b1 1 (pof_type_val type);
       b3 \<leftarrow> put32 b2 4 xid;
       b4 \<leftarrow> put16 b3 2 (ucast total_len);
       b5 \<leftarrow> run_conv (pof_HtoN_transfer_header 0) b4;
       b6 \<leftarrow> (case msg_body of
                None \<Rightarrow> Some b5
              | Some body \<Rightarrow> do { d \<leftarrow> mem_read body (unat msg_len); mem_write b5 8 d });
       let g1 = g\<lparr>pofec_queue_msg_buf := b6\<rparr>;
       (r, g2) \<leftarrow> pofsc_send_packet_upward b6 total_len g1;
       (if r \<noteq> POF_OK
        then Some (err_no_upward POFET_SOFTWARE_FAILED (SoftE POF_WRITE_MSG_QUEUE_FAILURE) g2)
        else Some (POF_OK, g2))
     }
     else Some (POF_OK, g))"

text \<open>The characters of an error string and its terminating zero.\<close>

definition c_string :: "string \<Rightarrow> bytes" where
  "c_string s = map (\<lambda>c. of_nat (of_char c)) s @ [0]"

text \<open>The body of an error message, put into the message buffer behind the header.\<close>

definition error_body :: "pof_error_type \<Rightarrow> err_code \<Rightarrow> glob \<Rightarrow> bytes option" where
  "error_body type code g = do {
     b1 \<leftarrow> put16 (pofec_queue_msg_buf g) 10 (err_val code);
     b2 \<leftarrow> put32 b1 12 (g_poflr_dev_id g);
     b3 \<leftarrow> put16 b2 16 0;
     b4 \<leftarrow> put16 b3 8 (pof_error_type_val type);
     b5 \<leftarrow> mem_write b4 24 (c_string (err_str code));
     run_conv (pof_NtoH_transfer_error 8) b5
   }"

text \<open>
  A failure to queue the error message is itself reported with an error message; as long as
  queueing fails the routine calls itself. A call that does not come back is \<open>None\<close>.
\<close>

partial_function (option) pofec_reply_error ::
  "pof_error_type \<Rightarrow> err_code \<Rightarrow> u32 \<Rightarrow> glob \<Rightarrow> (ret \<times> glob) option" where
  "pofec_reply_error type code xid g = do {
     buf \<leftarrow> error_body type code g;
     (r, g1) \<leftarrow> pofec_reply_msg POFT_ERROR xid 272 None (g\<lparr>pofec_queue_msg_buf := buf\<rparr>);
     (if r \<noteq> POF_OK then do {
        let g2 = pofec_set_error POFET_SOFTWARE_FAILED (SoftE POF_WRITE_MSG_QUEUE_FAILURE) g1;
        (_, g3) \<leftarrow> pofec_reply_error POFET_SOFTWARE_FAILED (SoftE POF_WRITE_MSG_QUEUE_FAILURE)
            (g_upward_xid g2) (g2\<lparr>g_upward_xid := g_upward_xid g2 + 1\<rparr>);
        Some (ERR (SoftE POF_WRITE_MSG_QUEUE_FAILURE), g3)
      } else Some (POF_OK, g1))
   }"

declare pofec_reply_error.simps [code]

text \<open>
  \<^verbatim>\<open>POF_ERROR_HANDLE_RETURN_UPWARD\<close> and \<^verbatim>\<open>POF_ERROR_HANDLE_NO_RETURN_UPWARD\<close>, with the
  transaction id of the request and with \<^verbatim>\<open>g_upward_xid++\<close>.
\<close>

definition err_upward :: "pof_error_type \<Rightarrow> err_code \<Rightarrow> glob \<Rightarrow> (ret \<times> glob) option" where
  "err_upward type code g = do {
     (_, g1) \<leftarrow> pofec_reply_error type code (g_recv_xid g) (pofec_set_error type code g);
     Some (ERR code, g1)
   }"

definition err_upward_new :: "pof_error_type \<Rightarrow> err_code \<Rightarrow> glob \<Rightarrow> (ret \<times> glob) option" where
  "err_upward_new type code g = do {
     (_, g1) \<leftarrow> pofec_reply_error type code (g_upward_xid g)
       ((pofec_set_error type code g)\<lparr>g_upward_xid := g_upward_xid g + 1\<rparr>);
     Some (ERR code, g1)
   }"

section \<open>Sending\<close>

text \<open>
  The channel works: the message buffer has its size, the queue exists, and neither the
  allocator nor \<^verbatim>\<open>msgsnd\<close> fails from now on.
\<close>

definition chan_ok :: "glob \<Rightarrow> bool" where
  "chan_ok g \<longleftrightarrow> length (pofec_queue_msg_buf g) = 2560 \<and> send_q_valid g
     \<and> (\<forall>n \<ge> malloc_n g. \<not> malloc_fail g n) \<and> (\<forall>n \<ge> msgsnd_n g. \<not> msgsnd_fail g n)"

definition sending :: "glob \<Rightarrow> bool" where
  "sending g \<longleftrightarrow>
     conn_state g \<in> {POFCS_REQUEST_FEATURE, POFCS_SET_CONFIG, POFCS_REQUEST_GET_CONFIG, POFCS_CHANNEL_RUN}"

text \<open>What sending may change of the process state.\<close>

definition same_but_queue :: "glob \<Rightarrow> glob \<Rightarrow> bool" where
  "same_but_queue g g' \<longleftrightarrow> conn_state g' = conn_state g \<and> g_recv_xid g' = g_recv_xid g
     \<and> g_upward_xid g' = g_upward_xid g \<and> malloc_fail g' = malloc_fail g \<and> tx g' = tx g
     \<and> g_poflr_dev_id g' = g_poflr_dev_id g \<and> sendto_n g' = sendto_n g \<and> malloc_n g \<le> malloc_n g'
     \<and> sendto_fail g' = sendto_fail g \<and> poflr_key_len_each_type g' = poflr_key_len_each_type g
     \<and> os g' = os g \<and> os_n g' = os_n g \<and> portIndex g' = portIndex g \<and> portNameList g' = portNameList g"

lemma same_but_queue_refl [simp]: "same_but_queue g g"
  by (simp add: same_but_queue_def)

lemma same_but_queue_trans: "same_but_queue g g1 \<Longrightarrow> same_but_queue g1 g2 \<Longrightarrow> same_but_queue g g2"
  by (auto simp: same_but_queue_def)

lemma list_8: "8 \<le> length xs \<Longrightarrow> \<exists>a b c d e f g h r. xs = a # b # c # d # e # f # g # h # r"
  by (auto simp: Suc_le_length_iff eval_nat_numeral)

lemma length_4: "length xs = 4 \<Longrightarrow> \<exists>a b c d. xs = [a, b, c, d]"
  by (auto simp: length_Suc_conv eval_nat_numeral)

lemma length_2: "length xs = 2 \<Longrightarrow> \<exists>a b. xs = [a, b]"
  by (auto simp: length_Suc_conv eval_nat_numeral)

text \<open>The eight header bytes of a message: version, type, length and id in network order.\<close>

definition msg_header :: "pof_type \<Rightarrow> u32 \<Rightarrow> u32 \<Rightarrow> bytes" where
  "msg_header type xid total_len =
     [0x04, pof_type_val type] @ rev (le_bytes 2 (ucast total_len :: u16)) @ rev (le_bytes 4 xid)"

lemma length_msg_header [simp]: "length (msg_header type xid l) = 8"
  by (simp add: msg_header_def)

lemma header_build:
  assumes "8 \<le> length buf"
  shows "(do { b1 \<leftarrow> wr buf 0 0x04; b2 \<leftarrow> wr b1 1 (pof_type_val type); b3 \<leftarrow> put32 b2 4 xid;
               b4 \<leftarrow> put16 b3 2 (ucast total_len); run_conv (pof_HtoN_transfer_header 0) b4 })
         = Some (msg_header type xid total_len @ drop 8 buf)"
proof -
  obtain a b c d e f g h r where buf: "buf = a # b # c # d # e # f # g # h # r" using list_8 [OF assms] by blast
  obtain l0 l1 where l: "le_bytes 2 (ucast total_len :: u16) = [l0, l1]" using length_2 length_le_bytes by blast
  obtain x0 x1 x2 x3 where x: "le_bytes 4 xid = [x0, x1, x2, x3]" using length_4 length_le_bytes by blast
  show ?thesis
    by (simp add: buf wr_def put32_def put16_def put_le_def l x msg_header_def pof_HtoN_transfer_header_def
        conv_step_rev conv_end_def eval_nat_numeral del: conv_step.simps)
qed

lemma queue_write_ok:
  assumes "chan_ok g" "msg_len \<le> 2560" "unat msg_len \<le> length message"
  shows "\<exists>g'. pofbf_queue_write (Some message) msg_len True g = Some (POF_OK, g') \<and> chan_ok g'
    \<and> send_queue g' = send_queue g @ [take (unat msg_len) message] \<and> same_but_queue g g'
    \<and> pofec_queue_msg_buf g' = pofec_queue_msg_buf g \<and> g_pofec_error g' = g_pofec_error g"
  using assms
  by (auto simp: pofbf_queue_write_def malloc_def Let_def chan_ok_def mem_read_def same_but_queue_def not_less)

text \<open>The message \<open>pofec_reply_msg\<close> queues.\<close>

definition reply_bytes :: "pof_type \<Rightarrow> u32 \<Rightarrow> u32 \<Rightarrow> bytes \<Rightarrow> bytes" where
  "reply_bytes type xid msg_len body = msg_header type xid (msg_len + 8) @ take (unat msg_len) body"

lemma reply_msg_ok:
  assumes ok: "chan_ok g" and len: "unat msg_len \<le> 2552"
    and body: "case msg_body of None \<Rightarrow> body = drop 8 (pofec_queue_msg_buf g)
                              | Some b \<Rightarrow> body = b \<and> unat msg_len \<le> length b"
  shows "\<exists>g'. pofec_reply_msg type xid msg_len msg_body g = Some (POF_OK, g') \<and> chan_ok g' \<and> same_but_queue g g'
    \<and> send_queue g' = (if sending g then send_queue g @ [reply_bytes type xid msg_len body] else send_queue g)
    \<and> g_pofec_error g' = g_pofec_error g"
proof (cases "sending g")
  case False
  then show ?thesis using ok by (simp add: pofec_reply_msg_def sending_def)
next
  case True
  let ?buf = "pofec_queue_msg_buf g"
  have buf: "length ?buf = 2560" using ok by (simp add: chan_ok_def)
  define h where "h = msg_header type xid (msg_len + 8)"
  define b6 where "b6 = (case msg_body of None \<Rightarrow> h @ drop 8 ?buf
      | Some b \<Rightarrow> h @ take (unat msg_len) b @ drop (8 + unat msg_len) ?buf)"
  have lh: "length h = 8" by (simp add: h_def)
  have l6: "length b6 = 2560" using buf len body lh by (auto simp: b6_def split: option.splits)
  have tot: "unat (msg_len + 8) = unat msg_len + 8" using len by (simp add: unat_word_ariths)
  have t6: "take (unat (msg_len + 8)) b6 = reply_bytes type xid msg_len body"
    using body len lh buf by (auto simp: tot b6_def reply_bytes_def h_def split: option.splits)
  have step: "(case msg_body of None \<Rightarrow> Some (h @ drop 8 ?buf)
      | Some b \<Rightarrow> do { d \<leftarrow> mem_read b (unat msg_len); mem_write (h @ drop 8 ?buf) 8 d }) = Some b6"
    using body len buf lh by (auto simp: b6_def mem_read_def mem_write_def add.commute split: option.splits)
  let ?g1 = "g\<lparr>pofec_queue_msg_buf := b6\<rparr>"
  have "chan_ok ?g1" using ok l6 by (simp add: chan_ok_def)
  moreover have "msg_len + 8 \<le> 2560" using tot len by (simp add: word_le_nat_alt)
  moreover have "unat (msg_len + 8) \<le> length b6" using tot len l6 by simp
  ultimately obtain g2 where g2: "pofbf_queue_write (Some b6) (msg_len + 8) True ?g1 = Some (POF_OK, g2)"
    "chan_ok g2" "send_queue g2 = send_queue ?g1 @ [take (unat (msg_len + 8)) b6]" "same_but_queue ?g1 g2"
    "g_pofec_error g2 = g_pofec_error ?g1"
    using queue_write_ok [of ?g1 "msg_len + 8" b6] by blast
  have "pofec_reply_msg type xid msg_len msg_body g = Some (POF_OK, g2)"
  proof -
    have "pofec_reply_msg type xid msg_len msg_body g = do {
       b5 \<leftarrow> (do { b1 \<leftarrow> wr ?buf 0 0x04; b2 \<leftarrow> wr b1 1 (pof_type_val type); b3 \<leftarrow> put32 b2 4 xid;
               b4 \<leftarrow> put16 b3 2 (ucast (msg_len + 8)); run_conv (pof_HtoN_transfer_header 0) b4 });
       b6 \<leftarrow> (case msg_body of
                None \<Rightarrow> Some b5
              | Some body \<Rightarrow> do { d \<leftarrow> mem_read body (unat msg_len); mem_write b5 8 d });
       (r, g2) \<leftarrow> pofsc_send_packet_upward b6 (msg_len + 8) (g\<lparr>pofec_queue_msg_buf := b6\<rparr>);
       (if r \<noteq> POF_OK
        then Some (err_no_upward POFET_SOFTWARE_FAILED (SoftE POF_WRITE_MSG_QUEUE_FAILURE) g2)
        else Some (POF_OK, g2)) }"
      using True by (simp add: pofec_reply_msg_def sending_def Let_def)
    also have "\<dots> = Some (POF_OK, g2)"
      using header_build [of ?buf type xid "msg_len + 8"] buf step g2(1)
      by (simp add: pofsc_send_packet_upward_def flip: h_def)
    finally show ?thesis .
  qed
  then show ?thesis using g2 t6 True by (auto simp: same_but_queue_def)
qed

text \<open>
  On a working channel \<open>pofec_reply_msg\<close> succeeds for every body that fits the message
  buffer. In the states in which the switch talks to the controller it appends exactly one
  message to the queue: version 4, the type, the total length and the transaction id in network
  order, then the body. In the other states nothing is queued.
\<close>

theorem pofec_reply_msg_queues:
  assumes "chan_ok g" "unat msg_len \<le> 2552" "unat msg_len \<le> length body"
  shows "\<exists>g'. pofec_reply_msg type xid msg_len (Some body) g = Some (POF_OK, g') \<and> chan_ok g'
    \<and> send_queue g' = (if sending g then send_queue g @ [[0x04, pof_type_val type]
         @ rev (le_bytes 2 (ucast (msg_len + 8) :: u16)) @ rev (le_bytes 4 xid) @ take (unat msg_len) body]
       else send_queue g)"
  using reply_msg_ok [OF assms(1,2), of body "Some body" type xid] assms(3)
  by (auto simp: reply_bytes_def msg_header_def)

text \<open>The process state at start-up, with a running channel.\<close>

definition example_os :: os_view where
  "example_os = \<lparr>os_socket = Some 5, os_bind = True,
     os_ifindex = (\<lambda>n. if n = [101] then Some 2 else if n = [102] then Some 3 else None),
     os_hwaddr = (\<lambda>n. if n = [101] then Some [2, 0, 0, 0, 0, 1] else if n = [102] then Some [2, 0, 0, 0, 0, 2] else None),
     os_ifaddr = (\<lambda>n. if n = [101] then Some [10, 0, 0, 1] else None),
     os_ifflags = (\<lambda>n. if n \<in> {[101], [102]} then Some 0x41 else None),
     os_ifaddrs = Some [([101], True), ([102], True)], os_thread = Some 77, os_cancel = (\<lambda>_. True), os_self = 1,
     os_connect = True, os_stream = [], os_sockname = Some [10, 0, 0, 1], os_read_len = 100, os_write = True, os_time = 0,
     os_msgrcv = True, os_msgget = True, os_msgctl = True, os_signal = True, os_setitimer = True\<rparr>"

definition example_glob :: glob where
  "example_glob = \<lparr>malloc_n = 0, malloc_fail = (\<lambda>_. False), g_pofec_error = None, g_recv_xid = 1,
     g_upward_xid = 2, g_poflr_dev_id = 3, conn_state = POFCS_CHANNEL_RUN,
     pofec_queue_msg_buf = replicate 2560 0, send_q_valid = True, msgsnd_n = 0,
     msgsnd_fail = (\<lambda>_. False), send_queue = [], sendto_n = 0, sendto_fail = (\<lambda>_. False), tx = [],
     poflr_key_len = 160, poflr_key_len_each_type = [160, 160, 160, 160],
     local_port_index = 9, portIndex = 3, portNameList = [],
     poflr_switch_config = replicate 8 0, poflr_switch_feature = replicate 208 0,
     poflr_table_resource_desc = replicate 80 0, g_versionStr = [80, 79, 70], pofc_cmd_auto_clear = True,
     rx = [], sent = [], os = (\<lambda>_. example_os), os_n = 0\<rparr>"

lemma example_glob_ok: "chan_ok example_glob" "sending example_glob"
  by (simp_all add: chan_ok_def sending_def example_glob_def)

lemma pofec_reply_msg_queues_witness:
  "\<exists>g'. pofec_reply_msg POFT_ECHO_REPLY 7 2 (Some [1, 2, 3]) example_glob = Some (POF_OK, g')
    \<and> length (send_queue g') = 1"
  using pofec_reply_msg_queues [of example_glob 2 "[1, 2, 3]" POFT_ECHO_REPLY 7] example_glob_ok
  by (auto simp: example_glob_def)

section \<open>Error messages\<close>

lemma err_str_short: "length (err_str code) \<le> 100"
proof (cases code)
  case (HelloE c) then show ?thesis by (cases c) simp_all
next
  case (ReqE c) then show ?thesis by (cases c) simp_all
next
  case (ActE c) then show ?thesis by (cases c) simp_all
next
  case (InsE c) then show ?thesis by (cases c) simp_all
next
  case (MatchE c) then show ?thesis by (cases c) simp_all
next
  case (FlowE c) then show ?thesis by (cases c) simp_all
next
  case (TableE c) then show ?thesis by (cases c) simp_all
next
  case (GroupE c) then show ?thesis by (cases c) simp_all
next
  case (MeterE c) then show ?thesis by (cases c) simp_all
next
  case (PortE c) then show ?thesis by (cases c) simp_all
next
  case (CounterE c) then show ?thesis by (cases c) simp_all
next
  case (SoftE c) then show ?thesis by (cases c) simp_all
qed

lemma put_le_length: "put_le n bs off w = Some bs' \<Longrightarrow> length bs' = length bs"
  by (auto simp: put_le_def split: if_splits)

text \<open>The head of an error message: type, code and device in network order and the slot, which is 0.\<close>

definition error_wire :: "pof_error_type \<Rightarrow> err_code \<Rightarrow> u32 \<Rightarrow> bytes" where
  "error_wire type code dev = rev (le_bytes 2 (pof_error_type_val type)) @ rev (le_bytes 2 (err_val code)) @ rev (le_bytes 4 dev) @ [0, 0]"

lemma length_error_wire [simp]: "length (error_wire type code dev) = 10"
  by (simp add: error_wire_def)

lemma error_body_wire:
  assumes "length (pofec_queue_msg_buf g) = 2560"
  shows "error_body type code g = Some (take 8 (pofec_queue_msg_buf g) @ error_wire type code (g_poflr_dev_id g)
    @ take 6 (drop 18 (pofec_queue_msg_buf g)) @ c_string (err_str code) @ drop (24 + length (c_string (err_str code))) (pofec_queue_msg_buf g))"
proof -
  define w where "w = c_string (err_str code)"
  have n: "length w \<le> 101" using err_str_short [of code] by (simp add: c_string_def w_def)
  have z: "le_bytes 2 (0 :: u16) = [0, 0]" by (simp add: le_bytes_def upt_rec)
  have d: "drop (8 + length w) (0 # 0 # drop 18 B) = drop (24 + length w) B" for B :: bytes by (simp add: drop_Cons' add.commute)
  show ?thesis using assms n unfolding error_body_def w_def [symmetric] error_wire_def
    by (simp add: put16_def put32_def put_le_def mem_write_def z d pof_NtoH_transfer_error_def conv_step_rev conv_end_def del: conv_step.simps)
qed

definition error_message :: "pof_error_type \<Rightarrow> err_code \<Rightarrow> u32 \<Rightarrow> bytes \<Rightarrow> bool" where
  "error_message type code dev body \<longleftrightarrow> length body = 272
     \<and> (\<exists>pad rest. length pad = 6 \<and> body = error_wire type code dev @ pad @ c_string (err_str code) @ rest)"

lemma error_body_message:
  assumes "length (pofec_queue_msg_buf g) = 2560" "error_body type code g = Some buf"
  shows "length buf = 2560" "error_message type code (g_poflr_dev_id g) (take 272 (drop 8 buf))"
proof -
  let ?B = "pofec_queue_msg_buf g" and ?w = "c_string (err_str code)"
  have n: "length ?w \<le> 101" using err_str_short [of code] by (simp add: c_string_def)
  have buf: "buf = take 8 ?B @ error_wire type code (g_poflr_dev_id g) @ take 6 (drop 18 ?B) @ ?w @ drop (24 + length ?w) ?B"
    using assms(2) unfolding error_body_wire [OF assms(1)] by simp
  then show "length buf = 2560" using assms(1) n by simp
  have "take 272 (drop 8 buf) = error_wire type code (g_poflr_dev_id g) @ take 6 (drop 18 ?B) @ ?w
      @ take (256 - length ?w) (drop (24 + length ?w) ?B)" using assms(1) n unfolding buf by simp
  then show "error_message type code (g_poflr_dev_id g) (take 272 (drop 8 buf))"
    using assms(1) n unfolding error_message_def
    by (intro conjI exI [of _ "take 6 (drop 18 ?B)"] exI [of _ "take (256 - length ?w) (drop (24 + length ?w) ?B)"]) simp_all
qed

lemma reply_error_ok:
  assumes "chan_ok g"
  shows "\<exists>g' body. pofec_reply_error type code xid g = Some (POF_OK, g') \<and> chan_ok g' \<and> same_but_queue g g'
    \<and> error_message type code (g_poflr_dev_id g) body
    \<and> send_queue g' = (if sending g then send_queue g @ [msg_header POFT_ERROR xid 280 @ body] else send_queue g)
    \<and> g_pofec_error g' = g_pofec_error g"
proof -
  have len: "length (pofec_queue_msg_buf g) = 2560" using assms by (simp add: chan_ok_def)
  obtain buf where buf: "error_body type code g = Some buf" using error_body_wire [OF len] by blast
  note msg = error_body_message [OF len buf]
  let ?g1 = "g\<lparr>pofec_queue_msg_buf := buf\<rparr>"
  have "chan_ok ?g1" using assms msg by (simp add: chan_ok_def)
  then obtain g' where g': "pofec_reply_msg POFT_ERROR xid 272 None ?g1 = Some (POF_OK, g')" "chan_ok g'"
    "same_but_queue ?g1 g'" "send_queue g' = (if sending ?g1 then send_queue ?g1 @ [reply_bytes POFT_ERROR xid 272 (drop 8 buf)] else send_queue ?g1)"
    "g_pofec_error g' = g_pofec_error ?g1"
    using reply_msg_ok [of ?g1 272 "drop 8 buf" None POFT_ERROR xid] by auto
  have "pofec_reply_error type code xid g = Some (POF_OK, g')"
    using buf g'(1) by (subst pofec_reply_error.simps) simp
  moreover have "same_but_queue g g'" using g'(3) by (simp add: same_but_queue_def)
  moreover have "sending ?g1 = sending g" by (simp add: sending_def)
  ultimately show ?thesis
    using g' msg(2) by (intro exI [of _ g'] exI [of _ "take 272 (drop 8 buf)"]) (simp add: reply_bytes_def)
qed

lemma chan_ok_set_error [simp]: "chan_ok (pofec_set_error t c g) = chan_ok g"
  by (simp add: chan_ok_def pofec_set_error_def)

lemma sending_set_error [simp]: "sending (pofec_set_error t c g) = sending g"
  by (simp add: sending_def pofec_set_error_def)

lemma same_but_queue_set_error: "same_but_queue (pofec_set_error t c g) g' \<longleftrightarrow> same_but_queue g g'"
  by (simp add: same_but_queue_def pofec_set_error_def)

text \<open>
  Reporting an error to the controller returns the error code and leaves the channel working;
  what changes is the queue, which has one more message when the channel is up, and the last
  error.
\<close>

lemma err_upward_ok:
  assumes "chan_ok g"
  shows "\<exists>g'. err_upward type code g = Some (ERR code, g') \<and> chan_ok g' \<and> same_but_queue g g'
    \<and> length (send_queue g') = length (send_queue g) + (if sending g then 1 else 0)
    \<and> g_pofec_error g' = Some \<lparr>pe_type = type, pe_code = code\<rparr>"
proof -
  let ?g = "pofec_set_error type code g"
  have "chan_ok ?g" using assms by simp
  then obtain g' body where "pofec_reply_error type code (g_recv_xid g) ?g = Some (POF_OK, g')" "chan_ok g'"
    "same_but_queue ?g g'" "send_queue g' = (if sending ?g then send_queue ?g @ [msg_header POFT_ERROR (g_recv_xid g) 280 @ body] else send_queue ?g)"
    "g_pofec_error g' = g_pofec_error ?g"
    using reply_error_ok by blast
  then show ?thesis
    by (auto simp: err_upward_def same_but_queue_set_error) (simp_all add: pofec_set_error_def)
qed

lemma err_upward_queue:
  assumes "chan_ok g"
  shows "\<exists>g' m. err_upward type code g = Some (ERR code, g') \<and> chan_ok g'
    \<and> send_queue g' = (if sending g then send_queue g @ [m] else send_queue g)"
proof -
  have "chan_ok (pofec_set_error type code g)" using assms by simp
  from reply_error_ok [OF this, of type code "g_recv_xid g"] show ?thesis
    by (auto simp: err_upward_def)
qed

lemma err_upward_message:
  assumes "chan_ok g"
  shows "\<exists>g' body. err_upward type code g = Some (ERR code, g') \<and> chan_ok g' \<and> error_message type code (g_poflr_dev_id g) body
    \<and> send_queue g' = (if sending g then send_queue g @ [msg_header POFT_ERROR (g_recv_xid g) 280 @ body] else send_queue g)"
proof -
  let ?g = "pofec_set_error type code g"
  have "g_poflr_dev_id ?g = g_poflr_dev_id g" "send_queue ?g = send_queue g" "sending ?g = sending g" "chan_ok ?g"
    using assms by (simp_all add: pofec_set_error_def sending_def chan_ok_def)
  then show ?thesis using reply_error_ok [of ?g type code "g_recv_xid g"] by (auto simp: err_upward_def)
qed

lemma err_upward_new_ok:
  assumes "chan_ok g"
  shows "\<exists>g'. err_upward_new type code g = Some (ERR code, g') \<and> chan_ok g'
    \<and> length (send_queue g') = length (send_queue g) + (if sending g then 1 else 0)
    \<and> g_upward_xid g' = g_upward_xid g + 1 \<and> conn_state g' = conn_state g \<and> g_recv_xid g' = g_recv_xid g"
proof -
  let ?g = "(pofec_set_error type code g)\<lparr>g_upward_xid := g_upward_xid g + 1\<rparr>"
  have "chan_ok ?g" using assms by (simp add: chan_ok_def pofec_set_error_def)
  then obtain g' body where "pofec_reply_error type code (g_upward_xid g) ?g = Some (POF_OK, g')" "chan_ok g'"
    "same_but_queue ?g g'" "send_queue g' = (if sending ?g then send_queue ?g @ [msg_header POFT_ERROR (g_upward_xid g) 280 @ body] else send_queue ?g)"
    using reply_error_ok by blast
  then show ?thesis
    by (auto simp: err_upward_new_def same_but_queue_def sending_def pofec_set_error_def)
qed

text \<open>
  C15. Reporting an error on a working channel: it returns, and when the channel is up exactly
  one error message of 280 bytes is queued: the header with the transaction id of the report, the
  type, the code and the device in network order, and the text of the code with its terminating
  zero 16 bytes behind the header.
\<close>

theorem pofec_reply_error_queues:
  assumes "chan_ok g" "sending g"
  shows "\<exists>g' pad rest. pofec_reply_error type code xid g = Some (POF_OK, g') \<and> chan_ok g' \<and> length pad = 8
    \<and> length (c_string (err_str code) @ rest) = 256
    \<and> send_queue g' = send_queue g @ [[0x04, 1, 0x01, 0x18] @ rev (le_bytes 4 xid)
        @ rev (le_bytes 2 (pof_error_type_val type)) @ rev (le_bytes 2 (err_val code)) @ rev (le_bytes 4 (g_poflr_dev_id g))
        @ pad @ c_string (err_str code) @ rest]"
proof -
  have "msg_header POFT_ERROR xid 280 = [0x04, 1, 0x01, 0x18] @ rev (le_bytes 4 xid)"
    by (simp add: msg_header_def le_bytes_def upt_rec drop_bit_eq_div)
  moreover obtain g' body where g': "pofec_reply_error type code xid g = Some (POF_OK, g')" "chan_ok g'"
    "error_message type code (g_poflr_dev_id g) body" "send_queue g' = send_queue g @ [msg_header POFT_ERROR xid 280 @ body]"
    using reply_error_ok [OF assms(1), of type code xid] assms(2) by auto
  moreover obtain pad rest where "length pad = 6" "length body = 272"
    "body = error_wire type code (g_poflr_dev_id g) @ pad @ c_string (err_str code) @ rest"
    using g'(3) by (auto simp: error_message_def)
  ultimately show ?thesis
    by (intro exI [of _ g'] exI [of _ "[0, 0] @ pad"] exI [of _ rest]) (simp add: error_wire_def)
qed

lemma pofec_reply_error_queues_witness:
  "\<exists>g' pad rest. pofec_reply_error POFET_FLOW_MOD_FAILED (FlowE POFFMFC_TABLE_FULL) 5 example_glob = Some (POF_OK, g')
    \<and> send_queue g' = [[0x04, 1, 0x01, 0x18] @ rev (le_bytes 4 (5 :: u32))
        @ rev (le_bytes 2 (pof_error_type_val POFET_FLOW_MOD_FAILED)) @ rev (le_bytes 2 (err_val (FlowE POFFMFC_TABLE_FULL)))
        @ rev (le_bytes 4 (g_poflr_dev_id example_glob)) @ pad @ c_string (err_str (FlowE POFFMFC_TABLE_FULL)) @ rest]"
proof -
  have "send_queue example_glob = []" by (simp add: example_glob_def)
  then show ?thesis using pofec_reply_error_queues [OF example_glob_ok, of POFET_FLOW_MOD_FAILED "FlowE POFFMFC_TABLE_FULL" 5] by auto
qed

text \<open>The channel is up but \<^verbatim>\<open>msgsnd\<close> keeps failing.\<close>

definition chan_stuck :: "glob \<Rightarrow> bool" where
  "chan_stuck g \<longleftrightarrow> sending g \<and> (\<forall>n. msgsnd_fail g n)"

lemma chan_stuck_upd [simp]:
  "chan_stuck (pofec_set_error t c g) = chan_stuck g"
  "chan_stuck (g\<lparr>pofec_queue_msg_buf := b\<rparr>) = chan_stuck g"
  "chan_stuck (g\<lparr>g_upward_xid := x\<rparr>) = chan_stuck g"
  "chan_stuck (g\<lparr>malloc_n := n\<rparr>) = chan_stuck g"
  "chan_stuck (g\<lparr>msgsnd_n := n\<rparr>) = chan_stuck g"
  by (simp_all add: chan_stuck_def sending_def pofec_set_error_def)

lemma queue_write_stuck:
  "chan_stuck g \<Longrightarrow> pofbf_queue_write msg l t g = Some (r, g') \<Longrightarrow> r \<noteq> POF_OK \<and> chan_stuck g'"
  by (auto simp: pofbf_queue_write_def err_no_upward_def malloc_def Let_def bind_eq_Some_conv split: if_splits)
     (auto simp: chan_stuck_def)

lemma send_packet_stuck:
  "chan_stuck g \<Longrightarrow> pofsc_send_packet_upward b l g = Some (r, g') \<Longrightarrow> r \<noteq> POF_OK \<and> chan_stuck g'"
  by (auto simp: pofsc_send_packet_upward_def err_no_upward_def bind_eq_Some_conv split: if_splits
      dest: queue_write_stuck)

lemma send_packet_stuck_buf:
  "chan_stuck g \<Longrightarrow> pofsc_send_packet_upward b l (g\<lparr>pofec_queue_msg_buf := b'\<rparr>) = Some (r, g') \<Longrightarrow>
   r \<noteq> POF_OK \<and> chan_stuck g'"
  using send_packet_stuck [of "g\<lparr>pofec_queue_msg_buf := b'\<rparr>"] by simp

lemma reply_msg_stuck:
  assumes "chan_stuck g" "pofec_reply_msg type xid len body g = Some (r, g')"
  shows "r \<noteq> POF_OK \<and> chan_stuck g'"
proof -
  have "sending g" using assms(1) by (simp add: chan_stuck_def)
  then show ?thesis
    using assms
    by (auto simp: pofec_reply_msg_def sending_def [symmetric] Let_def bind_eq_Some_conv err_no_upward_def
        simp del: insert_iff split: if_splits dest: send_packet_stuck_buf)
qed

lemma reply_error_stuck:
  assumes "pofec_reply_error type code xid g = Some y"
  shows "\<not> chan_stuck g"
proof (rule pofec_reply_error.raw_induct [where P = "\<lambda>type code xid g y. \<not> chan_stuck g", OF _ assms])
  fix f type code xid g y
  assume IH: "\<And>type code xid g y. f type code xid g = Some y \<Longrightarrow> \<not> chan_stuck g"
    and step: "(do {
     buf \<leftarrow> error_body type code g;
     (r, g1) \<leftarrow> pofec_reply_msg POFT_ERROR xid 272 None (g\<lparr>pofec_queue_msg_buf := buf\<rparr>);
     (if r \<noteq> POF_OK then do {
        let g2 = pofec_set_error POFET_SOFTWARE_FAILED (SoftE POF_WRITE_MSG_QUEUE_FAILURE) g1;
        (_, g3) \<leftarrow> f POFET_SOFTWARE_FAILED (SoftE POF_WRITE_MSG_QUEUE_FAILURE)
            (g_upward_xid g2) (g2\<lparr>g_upward_xid := g_upward_xid g2 + 1\<rparr>);
        Some (ERR (SoftE POF_WRITE_MSG_QUEUE_FAILURE), g3)
      } else Some (POF_OK, g1)) }) = Some y"
  show "\<not> chan_stuck g"
  proof
    assume st: "chan_stuck g"
    from step obtain buf r g1 where "pofec_reply_msg POFT_ERROR xid 272 None (g\<lparr>pofec_queue_msg_buf := buf\<rparr>) = Some (r, g1)"
      and rest: "(if r \<noteq> POF_OK then do {
        let g2 = pofec_set_error POFET_SOFTWARE_FAILED (SoftE POF_WRITE_MSG_QUEUE_FAILURE) g1;
        (_, g3) \<leftarrow> f POFET_SOFTWARE_FAILED (SoftE POF_WRITE_MSG_QUEUE_FAILURE)
            (g_upward_xid g2) (g2\<lparr>g_upward_xid := g_upward_xid g2 + 1\<rparr>);
        Some (ERR (SoftE POF_WRITE_MSG_QUEUE_FAILURE), g3)
      } else Some (POF_OK, g1)) = Some y"
      by (auto simp: bind_eq_Some_conv split del: if_split)
    then have r: "r \<noteq> POF_OK" "chan_stuck g1" using reply_msg_stuck st by (metis chan_stuck_upd(2))+
    then show False using rest by (auto simp: Let_def bind_eq_Some_conv dest: IH)
  qed
qed

text \<open>
  C16. When \<^verbatim>\<open>msgsnd\<close> keeps failing while the channel is up, reporting an error never returns:
  the failure to queue the error message is reported by another error message, without end.
\<close>

theorem pofec_reply_error_diverges:
  assumes "chan_stuck g"
  shows "pofec_reply_error type code xid g = None"
  using reply_error_stuck assms by (metis not_Some_eq)

lemma pofec_reply_error_diverges_witness:
  "pofec_reply_error POFET_FLOW_MOD_FAILED (FlowE POFFMFC_TABLE_FULL) 5 (example_glob\<lparr>msgsnd_fail := \<lambda>_. True\<rparr>) = None"
  using pofec_reply_error_diverges [of "example_glob\<lparr>msgsnd_fail := \<lambda>_. True\<rparr>"]
  by (simp add: chan_stuck_def sending_def example_glob_def)

section \<open>Reports and the allocator\<close>

text \<open>
  Whatever sending does, and whether or not it fails, addresses handed out before stay below the
  allocator's counter: an address allocated later is fresh.
\<close>

lemma queue_write_mono: "pofbf_queue_write msg l t g = Some (r, g') \<Longrightarrow> malloc_n g \<le> malloc_n g'"
  by (auto simp: pofbf_queue_write_def err_no_upward_def malloc_def Let_def bind_eq_Some_conv split: if_splits)

lemma send_packet_mono: "pofsc_send_packet_upward b l g = Some (r, g') \<Longrightarrow> malloc_n g \<le> malloc_n g'"
  by (auto simp: pofsc_send_packet_upward_def err_no_upward_def bind_eq_Some_conv split: if_splits
      dest: queue_write_mono)

lemma reply_msg_mono:
  assumes "pofec_reply_msg type xid len body g = Some (r, g')"
  shows "malloc_n g \<le> malloc_n g'"
  using assms
  by (auto simp: pofec_reply_msg_def Let_def bind_eq_Some_conv err_no_upward_def simp del: insert_iff
      split: if_splits dest!: send_packet_mono)

lemma reply_error_mono:
  assumes "pofec_reply_error type code xid g = Some y"
  shows "malloc_n g \<le> malloc_n (snd y)"
proof (rule pofec_reply_error.raw_induct [where P = "\<lambda>type code xid g y. malloc_n g \<le> malloc_n (snd y)", OF _ assms])
  fix f type code xid g y
  assume IH: "\<And>type code xid g y. f type code xid g = Some y \<Longrightarrow> malloc_n g \<le> malloc_n (snd y)"
    and step: "(do {
     buf \<leftarrow> error_body type code g;
     (r, g1) \<leftarrow> pofec_reply_msg POFT_ERROR xid 272 None (g\<lparr>pofec_queue_msg_buf := buf\<rparr>);
     (if r \<noteq> POF_OK then do {
        let g2 = pofec_set_error POFET_SOFTWARE_FAILED (SoftE POF_WRITE_MSG_QUEUE_FAILURE) g1;
        (_, g3) \<leftarrow> f POFET_SOFTWARE_FAILED (SoftE POF_WRITE_MSG_QUEUE_FAILURE)
            (g_upward_xid g2) (g2\<lparr>g_upward_xid := g_upward_xid g2 + 1\<rparr>);
        Some (ERR (SoftE POF_WRITE_MSG_QUEUE_FAILURE), g3)
      } else Some (POF_OK, g1)) }) = Some y"
  from step obtain buf r g1 where "pofec_reply_msg POFT_ERROR xid 272 None (g\<lparr>pofec_queue_msg_buf := buf\<rparr>) = Some (r, g1)"
    and rest: "(if r \<noteq> POF_OK then do {
        let g2 = pofec_set_error POFET_SOFTWARE_FAILED (SoftE POF_WRITE_MSG_QUEUE_FAILURE) g1;
        (_, g3) \<leftarrow> f POFET_SOFTWARE_FAILED (SoftE POF_WRITE_MSG_QUEUE_FAILURE)
            (g_upward_xid g2) (g2\<lparr>g_upward_xid := g_upward_xid g2 + 1\<rparr>);
        Some (ERR (SoftE POF_WRITE_MSG_QUEUE_FAILURE), g3)
      } else Some (POF_OK, g1)) = Some y"
    by (auto simp: bind_eq_Some_conv split del: if_split)
  then have "malloc_n g \<le> malloc_n g1" using reply_msg_mono by fastforce
  then show "malloc_n g \<le> malloc_n (snd y)"
    using rest by (auto simp: Let_def bind_eq_Some_conv pofec_set_error_def split: if_splits dest!: IH)
qed

lemma err_upward_mono: "err_upward type code g = Some (r, g') \<Longrightarrow> r = ERR code \<and> malloc_n g \<le> malloc_n g'"
  by (auto simp: err_upward_def bind_eq_Some_conv pofec_set_error_def dest!: reply_error_mono)

lemma err_upward_new_mono: "err_upward_new type code g = Some (r, g') \<Longrightarrow> r = ERR code \<and> malloc_n g \<le> malloc_n g'"
  by (auto simp: err_upward_new_def bind_eq_Some_conv pofec_set_error_def dest!: reply_error_mono)

end
