(* ===== verification/Pof_Resource.thy ===== *)
theory Pof_Resource
  imports Pof_Hmap Pof_Tree Pof_Encap
begin

text \<open>
  The local resource of a slot, \<^verbatim>\<open>struct pof_local_resource\<close> of
  \<^verbatim>\<open>include/pof_local_resource.h\<close>: the records kept in it, and what the counter, meter, group
  and flow tables share. Each of these tables is a hash map keyed by an id with a count beside
  it. The locale \<open>id_table\<close> states the operations such a table has and proves once that they
  behave as a finite map from ids to records; the component theories interpret it.
\<close>

section \<open>Records\<close>

record counterInfo =
  ci_id :: u32
  ci_value :: u64
  ci_byte_value :: u64

record meterInfo =
  mi_rate :: u32
  mi_id :: u32

record groupInfo =
  gi_type :: u8
  gi_action_number :: u8
  gi_id :: u32
  gi_counter_id :: u32
  gi_action :: bytes

record entryInfo =
  ei_index :: u32
  ei_counter_id :: u32
  ei_instruction_num :: u8
  ei_instruction :: bytes
  ei_priority :: u16
  ei_keyLen :: u16
  ei_match_field_num :: u8
  ei_match :: bytes
  ei_value :: bytes
  ei_mask :: bytes

record tableInfo =
  ti_id :: u8
  ti_type :: u8
  ti_name :: bytes
  ti_entryMap :: "entryInfo hmap option"
  ti_entryNum :: u32
  ti_size :: u32
  ti_keyLen :: u16
  ti_tree :: "nat tree option"
  ti_match_field_num :: u8
  ti_match :: bytes

text \<open>
  A port is in two maps at once: the node of \<^verbatim>\<open>portPofIndexMap\<close> carries the structure, the
  node of \<^verbatim>\<open>portNameMap\<close> at the same address stands for its \<^verbatim>\<open>nameNode\<close>.
\<close>

record portInfo =
  pi_name :: bytes
  pi_hwaddr :: bytes
  pi_ip :: bytes
  pi_sysIndex :: u32
  pi_pofIndex :: u8
  pi_pofState :: u32
  pi_slotID :: u16
  pi_of_enable :: u8
  pi_taskID :: u64
  pi_queue_fd :: "int list"
  pi_num_queues :: u16
  pi_config :: u32

text \<open>A map is \<open>None\<close> before it is created: \<^verbatim>\<open>NULL\<close>.\<close>

record pof_local_resource =
  slotID :: u16
  portPofIndexMap :: "portInfo hmap option"
  portNameMap :: "unit hmap option"
  portNumMax :: u16
  portNum :: u16
  portFlag :: u32
  tableIdMap :: "tableInfo hmap option"
  tableNumMax :: u16
  tableNumMaxEachType :: "u16 list"
  tableNum :: u16
  tableSizeMax :: u32
  groupMap :: "groupInfo hmap option"
  groupNumMax :: u32
  groupNum :: u32
  meterMap :: "meterInfo hmap option"
  meterNumMax :: u32
  meterNum :: u32
  counterMap :: "counterInfo hmap option"
  counterNumMax :: u32
  counterNum :: u32

text \<open>A routine that fails without having changed the resource.\<close>

definition with_lr :: "pof_local_resource \<Rightarrow> (ret \<times> glob) option \<Rightarrow> (ret \<times> pof_local_resource \<times> glob) option" where
  "with_lr lr x = map_option (\<lambda>(r, g). (r, lr, g)) x"

lemma filter_notin_image [simp]: "y \<notin> f ` set xs \<Longrightarrow> filter (\<lambda>x. f x \<noteq> y) xs = xs"
  by (induction xs) auto

lemma filter_eq_notin_image [simp]: "y \<notin> f ` set xs \<Longrightarrow> filter (\<lambda>x. f x = y) xs = []"
  by (induction xs) auto

section \<open>\<^verbatim>\<open>HMAP_NODES_IN_STRUCT_TRAVERSE\<close>\<close>

text \<open>
  The successor is fetched before the body runs, so the body may delete the node it is given.
  A body that gives \<open>Some r\<close> returns \<open>r\<close> from the enclosing routine. \<open>mp\<close> reads the map in the
  current state.
\<close>

partial_function (option) hmap_trav ::
  "('s \<Rightarrow> 'a hmap option) \<Rightarrow> ('a hnode \<Rightarrow> 's \<Rightarrow> ('r option \<times> 's) option) \<Rightarrow> 'a hnode option \<Rightarrow> 's
    \<Rightarrow> ('r option \<times> 's) option" where
  "hmap_trav mp body cur s = (case cur of
      None \<Rightarrow> Some (None, s)
    | Some node \<Rightarrow> do {
        m \<leftarrow> mp s;
        nxt \<leftarrow> hmap_nodeNext m node;
        (r, s') \<leftarrow> body node s;
        (case r of Some v \<Rightarrow> Some (Some v, s') | None \<Rightarrow> hmap_trav mp body nxt s')
      })"

declare hmap_trav.simps [code]

definition hmap_struct_traverse ::
  "('s \<Rightarrow> 'a hmap option) \<Rightarrow> ('a hnode \<Rightarrow> 's \<Rightarrow> ('r option \<times> 's) option) \<Rightarrow> 's \<Rightarrow> ('r option \<times> 's) option" where
  "hmap_struct_traverse mp body s = do { m \<leftarrow> mp s; hmap_trav mp body (hmap_nodeFirst m) s }"

text \<open>The same loop over a list of nodes.\<close>

fun trav_list :: "('n \<Rightarrow> 's \<Rightarrow> ('r option \<times> 's) option) \<Rightarrow> 'n list \<Rightarrow> 's \<Rightarrow> ('r option \<times> 's) option" where
  "trav_list body [] s = Some (None, s)"
| "trav_list body (n # ns) s = do {
     (r, s') \<leftarrow> body n s;
     (case r of Some v \<Rightarrow> Some (Some v, s') | None \<Rightarrow> trav_list body ns s')
   }"

abbreviation (input) head_opt :: "'n list \<Rightarrow> 'n option" where
  "head_opt ns \<equiv> (case ns of [] \<Rightarrow> None | n # _ \<Rightarrow> Some n)"

lemma hmap_trav_readonly:
  assumes ok: "hmap_ok m"
    and keep: "\<And>node s r s'. mp s = Some m \<Longrightarrow> body node s = Some (r, s') \<Longrightarrow> mp s' = Some m"
    and "hmap_nodes m = xs @ ys" "mp s = Some m"
  shows "hmap_trav mp body (head_opt ys) s = trav_list body ys s"
  using assms(3,4)
proof (induction ys arbitrary: xs s)
  case Nil
  then show ?case by (subst hmap_trav.simps) simp
next
  case (Cons y ys)
  have nxt: "hmap_nodeNext m y = Some (head_opt ys)"
    using hmap_nodeNext_nodes [OF ok Cons.prems(1)] .
  have IH: "hmap_trav mp body (head_opt ys) s' = trav_list body ys s'" if "mp s' = Some m" for s'
    using Cons.IH [of "xs @ [y]" s'] Cons.prems(1) that by simp
  show ?case
    by (subst hmap_trav.simps)
       (auto simp: Cons.prems nxt IH keep [OF Cons.prems(2)] split: option.splits prod.splits Option.bind_split)
qed

lemma hmap_struct_traverse_readonly:
  assumes "hmap_ok m" "\<And>node s r s'. mp s = Some m \<Longrightarrow> body node s = Some (r, s') \<Longrightarrow> mp s' = Some m"
    and "mp s = Some m"
  shows "hmap_struct_traverse mp body s = trav_list body (hmap_nodes m) s"
  using hmap_trav_readonly [of m mp body "[]" "hmap_nodes m" s] assms hmap_nodeFirst_nodes [OF assms(1)]
  by (simp add: hmap_struct_traverse_def)

lemma hmap_trav_delete:
  assumes step: "\<And>s m node. I s \<Longrightarrow> mp s = Some m \<Longrightarrow> hmap_ok m \<Longrightarrow> node \<in> set (hmap_nodes m) \<Longrightarrow>
      \<exists>s' m'. body node s = Some (None, s') \<and> I s' \<and> mp s' = Some m' \<and> hmap_ok m'
        \<and> hmap_nodes m' = filter (\<lambda>n. hn_ptr n \<noteq> hn_ptr node) (hmap_nodes m)"
    and "I s" "mp s = Some m" "hmap_ok m" "hmap_nodes m = ys"
  shows "\<exists>s' m'. hmap_trav mp body (head_opt ys) s = Some (None, s') \<and> I s' \<and> mp s' = Some m'
    \<and> hmap_ok m' \<and> hmap_nodes m' = []"
  using assms(2-5)
proof (induction ys arbitrary: s m)
  case Nil
  then show ?case by (intro exI conjI) (subst hmap_trav.simps, simp, assumption+)
next
  case (Cons y ys)
  have nxt: "hmap_nodeNext m y = Some (head_opt ys)"
    using hmap_nodeNext_nodes [OF Cons.prems(3), of "[]" y ys] Cons.prems(4) by simp
  have "y \<in> set (hmap_nodes m)" using Cons.prems(4) by simp
  from step [OF Cons.prems(1-3) this] obtain s' m' where s': "body y s = Some (None, s')" "I s'"
    "mp s' = Some m'" "hmap_ok m'" "hmap_nodes m' = filter (\<lambda>n. hn_ptr n \<noteq> hn_ptr y) (hmap_nodes m)"
    by blast
  have "distinct (map hn_ptr (y # ys))" using Cons.prems(3,4) by (simp add: hmap_ok_def)
  then have "filter (\<lambda>n. hn_ptr n \<noteq> hn_ptr y) ys = ys" by simp
  then have "hmap_nodes m' = ys" using s'(5) Cons.prems(4) by simp
  from Cons.IH [OF s'(2,3,4) this] show ?case
    by (subst hmap_trav.simps) (simp add: Cons.prems(2) nxt s'(1))
qed

lemma hmap_struct_traverse_delete:
  assumes "\<And>s m node. I s \<Longrightarrow> mp s = Some m \<Longrightarrow> hmap_ok m \<Longrightarrow> node \<in> set (hmap_nodes m) \<Longrightarrow>
      \<exists>s' m'. body node s = Some (None, s') \<and> I s' \<and> mp s' = Some m' \<and> hmap_ok m'
        \<and> hmap_nodes m' = filter (\<lambda>n. hn_ptr n \<noteq> hn_ptr node) (hmap_nodes m)"
    and "I s" "mp s = Some m" "hmap_ok m"
  shows "\<exists>s' m'. hmap_struct_traverse mp body s = Some (None, s') \<and> I s' \<and> mp s' = Some m'
    \<and> hmap_ok m' \<and> hmap_nodes m' = []"
  using hmap_trav_delete [of I mp body s m "hmap_nodes m", OF assms(1)] assms(2-) hmap_nodeFirst_nodes [OF assms(4)]
  by (simp add: hmap_struct_traverse_def)

text \<open>A property that the body of a traversal keeps holds after the traversal.\<close>

lemma hmap_trav_keeps:
  assumes "hmap_trav mp body cur s = Some y" "\<And>n s r s'. body n s = Some (r, s') \<Longrightarrow> P s \<Longrightarrow> P s'" "P s"
  shows "P (snd y)"
proof -
  have "(\<forall>n s r s'. body n s = Some (r, s') \<longrightarrow> P s \<longrightarrow> P s') \<longrightarrow> P s \<longrightarrow> P (snd y)"
  proof (rule hmap_trav.raw_induct [where P = "\<lambda>mp body cur s y. (\<forall>n s r s'. body n s = Some (r, s') \<longrightarrow> P s \<longrightarrow> P s')
      \<longrightarrow> P s \<longrightarrow> P (snd y)", OF _ assms(1)])
    fix f mp body cur s y
    assume IH: "\<And>mp body cur s y. f mp body cur s = Some y \<Longrightarrow>
        (\<forall>n s r s'. body n s = Some (r, s') \<longrightarrow> P s \<longrightarrow> P s') \<longrightarrow> P s \<longrightarrow> P (snd y)"
      and step: "(case cur of None \<Rightarrow> Some (None, s) | Some node \<Rightarrow> do {
        m \<leftarrow> mp s;
        nxt \<leftarrow> hmap_nodeNext m node;
        (r, s') \<leftarrow> body node s;
        (case r of Some v \<Rightarrow> Some (Some v, s') | None \<Rightarrow> f mp body nxt s') }) = Some y"
    show "(\<forall>n s r s'. body n s = Some (r, s') \<longrightarrow> P s \<longrightarrow> P s') \<longrightarrow> P s \<longrightarrow> P (snd y)"
      using step by (auto simp: bind_eq_Some_conv split: option.splits dest!: IH)
  qed
  then show ?thesis using assms(2,3) by blast
qed

lemma trav_keeps:
  assumes "hmap_struct_traverse mp body s = Some (r, s')" "\<And>n s r s'. body n s = Some (r, s') \<Longrightarrow> P s \<Longrightarrow> P s'" "P s"
  shows "P s'"
proof -
  obtain m where "hmap_trav mp body (hmap_nodeFirst m) s = Some (r, s')"
    using assms(1) by (auto simp: hmap_struct_traverse_def bind_eq_Some_conv)
  then show ?thesis using hmap_trav_keeps [of mp body _ s "(r, s')" P] assms(2,3) by auto
qed

section \<open>Maps keyed by an id\<close>

text \<open>
  The invariant of a keyed map: the hash of every node is the key of its record, and no two
  records have the same key. Its abstraction is a finite map from keys to records.
\<close>

definition tbl_ok :: "('a \<Rightarrow> u32) \<Rightarrow> 'a hmap \<Rightarrow> bool" where
  "tbl_ok key m \<longleftrightarrow> hmap_ok m \<and> (\<forall>n \<in> set (hmap_nodes m). hn_hash n = key (hn_obj n))
     \<and> distinct (map hn_hash (hmap_nodes m))"

definition tbl_abs :: "'a hmap \<Rightarrow> u32 \<Rightarrow> 'a option" where
  "tbl_abs m k = map_option hn_obj (head_opt (hmap_chain m k))"

definition res_ok :: "('a \<Rightarrow> u32) \<Rightarrow> 'a hmap option \<Rightarrow> 'w::len word \<Rightarrow> bool" where
  "res_ok key mo num = (case mo of None \<Rightarrow> False
     | Some m \<Rightarrow> tbl_ok key m \<and> num = of_nat (length (hmap_nodes m)))"

definition res_abs :: "'a hmap option \<Rightarrow> u32 \<Rightarrow> 'a option" where
  "res_abs mo k = (case mo of None \<Rightarrow> None | Some m \<Rightarrow> tbl_abs m k)"

definition res_ptrs :: "'a hmap option \<Rightarrow> nat set" where
  "res_ptrs mo = (case mo of None \<Rightarrow> {} | Some m \<Rightarrow> hmap_ptrs m)"

text \<open>All addresses of a set have been handed out by the allocator.\<close>

definition below :: "nat \<Rightarrow> nat set \<Rightarrow> bool" where
  "below n S \<longleftrightarrow> (\<forall>p \<in> S. p \<le> n)"

lemma below_mono: "below n S \<Longrightarrow> n \<le> n' \<Longrightarrow> below n' S"
  by (auto simp: below_def)

lemma filter_hash_single:
  assumes "distinct (map hn_hash ns)" "n \<in> set ns"
  shows "filter (\<lambda>x. hn_hash x = hn_hash n) ns = [n]"
  using assms
proof (induction ns)
  case (Cons a ns)
  have "filter (\<lambda>x. hn_hash x = hn_hash a) ns = []" using Cons.prems(1) by simp
  then show ?case using Cons by (cases "n = a") auto
qed simp

lemma tbl_chain_single:
  assumes "tbl_ok key m" "n \<in> set (hmap_nodes m)"
  shows "hmap_chain m (hn_hash n) = [n]"
  unfolding hmap_chain_def using assms by (intro filter_hash_single) (simp_all add: tbl_ok_def)

lemma tbl_chain_cases:
  assumes "tbl_ok key m"
  obtains "hmap_chain m k = []" | n where "hmap_chain m k = [n]" "n \<in> set (hmap_nodes m)" "hn_hash n = k"
proof (cases "hmap_chain m k")
  case (Cons n ns)
  then have "n \<in> set (hmap_chain m k)" by simp
  then have n: "n \<in> set (hmap_nodes m)" "hn_hash n = k" by (auto simp: hmap_chain_def)
  then show ?thesis using that(2) tbl_chain_single [OF assms n(1)] by simp
qed (rule that)

lemma tbl_get:
  assumes "tbl_ok key m"
  shows "(tbl_abs m k = None \<and> hmap_nodeGetWithHash m k = Some None) \<or>
    (\<exists>n. tbl_abs m k = Some (hn_obj n) \<and> hmap_nodeGetWithHash m k = Some (Some n)
       \<and> n \<in> set (hmap_nodes m) \<and> hn_hash n = k \<and> key (hn_obj n) = k)"
proof -
  have ok: "hmap_ok m" using assms by (simp add: tbl_ok_def)
  show ?thesis
    using assms hm.get_chain [OF ok, of k]
    by (rule_tac tbl_chain_cases [OF assms, of k]) (auto simp: tbl_abs_def tbl_ok_def)
qed

lemma tbl_abs_key: "tbl_ok key m \<Longrightarrow> tbl_abs m k = Some x \<Longrightarrow> key x = k"
  using tbl_get [of key m k] by auto

lemma tbl_abs_in:
  assumes "tbl_ok key m"
  shows "tbl_abs m k = Some x \<longleftrightarrow> (\<exists>n \<in> set (hmap_nodes m). hn_obj n = x \<and> hn_hash n = k)"
proof
  assume "\<exists>n \<in> set (hmap_nodes m). hn_obj n = x \<and> hn_hash n = k"
  then show "tbl_abs m k = Some x" using tbl_chain_single [OF assms] by (auto simp: tbl_abs_def)
next
  assume "tbl_abs m k = Some x"
  then show "\<exists>n \<in> set (hmap_nodes m). hn_obj n = x \<and> hn_hash n = k" using tbl_get [OF assms, of k] by auto
qed

lemma tbl_insert:
  fixes m :: "'a hmap"
  assumes "tbl_ok key m" "hn_ptr n \<notin> hmap_ptrs m" "hn_hash n = key (hn_obj n)" "tbl_abs m (hn_hash n) = None"
  shows "\<exists>m'. hmap_nodeInsert m n = Some m' \<and> tbl_ok key m' \<and> tbl_abs m' = (tbl_abs m)(hn_hash n \<mapsto> hn_obj n)
    \<and> hmap_ptrs m' = insert (hn_ptr n) (hmap_ptrs m) \<and> length (hmap_nodes m') = length (hmap_nodes m) + 1
    \<and> set (hmap_nodes m') = insert n (set (hmap_nodes m))"
proof -
  have ok: "hmap_ok m" using assms(1) by (simp add: tbl_ok_def)
  obtain m' where m': "hmap_nodeInsert m n = Some m'" "hmap_ok m'" "hmap_ptrs m' = insert (hn_ptr n) (hmap_ptrs m)"
    "\<And>h. hmap_chain m' h = (if h = hn_hash n then n # hmap_chain m h else hmap_chain m h)"
    using hm.ins_ok [OF ok assms(2)] by blast
  obtain xs ys where xy: "hmap_nodes m = xs @ ys" "hmap_nodes m' = xs @ n # ys"
    using nodes_insert [OF ok m'(1)] by blast
  have "hn_hash n \<notin> hn_hash ` set (hmap_nodes m)"
    using assms(1,4) tbl_chain_single [OF assms(1)] by (fastforce simp: tbl_abs_def)
  then have "tbl_ok key m'" using assms(1,3) m'(2) unfolding tbl_ok_def xy by auto
  moreover have "tbl_abs m' = (tbl_abs m)(hn_hash n \<mapsto> hn_obj n)" by (rule ext) (simp add: tbl_abs_def m'(4))
  ultimately show ?thesis using m' xy by auto
qed

lemma tbl_delete:
  fixes m :: "'a hmap"
  assumes "tbl_ok key m" "n \<in> set (hmap_nodes m)"
  shows "\<exists>m'. hmap_nodeDelete m n = Some m' \<and> tbl_ok key m' \<and> tbl_abs m' = (tbl_abs m)(hn_hash n := None)
    \<and> hmap_ptrs m' = hmap_ptrs m - {hn_ptr n} \<and> length (hmap_nodes m) = length (hmap_nodes m') + 1
    \<and> hmap_nodes m' = filter (\<lambda>x. hn_ptr x \<noteq> hn_ptr n) (hmap_nodes m)"
proof -
  have ok: "hmap_ok m" using assms(1) by (simp add: tbl_ok_def)
  obtain m' where m': "hmap_nodeDelete m n = Some m'" "hmap_ok m'"
    "hmap_nodes m' = filter (\<lambda>x. hn_ptr x \<noteq> hn_ptr n) (hmap_nodes m)"
    using hmap_delete_ok [OF ok assms(2)] by blast
  have dp: "distinct (map hn_ptr (hmap_nodes m))" using ok by (simp add: hmap_ok_def)
  obtain xs ys where xy: "hmap_nodes m = xs @ n # ys" using assms(2) by (auto simp: in_set_conv_decomp)
  then have nodes': "hmap_nodes m' = xs @ ys" using dp m'(3) by simp
  have "hn_hash n \<notin> hn_hash ` set (xs @ ys)"
    using assms(1) unfolding tbl_ok_def xy by auto
  then have ne: "x \<in> set (xs @ ys) \<Longrightarrow> hn_hash x \<noteq> hn_hash n" for x
    by (metis image_eqI)
  have "tbl_abs m' h = ((tbl_abs m)(hn_hash n := None)) h" for h
    using ne by (fastforce simp: tbl_abs_def hmap_chain_def nodes' xy filter_empty_conv split: list.splits)
  moreover have "tbl_ok key m'" using assms(1) m'(2) unfolding tbl_ok_def nodes' xy by auto
  moreover have "hmap_ptrs m' = hmap_ptrs m - {hn_ptr n}" using m'(3) by (auto simp: hmap_ptrs_def)
  moreover have "length (hmap_nodes m) = length (hmap_nodes m') + 1" unfolding nodes' xy by simp
  ultimately show ?thesis using m' by blast
qed

lemma tbl_write:
  fixes m :: "'a hmap"
  assumes "tbl_ok key m" "n \<in> set (hmap_nodes m)" "key (f (hn_obj n)) = key (hn_obj n)"
  shows "tbl_ok key (hmap_write (hn_ptr n) f m)
    \<and> tbl_abs (hmap_write (hn_ptr n) f m) = (tbl_abs m)(hn_hash n \<mapsto> f (hn_obj n))
    \<and> hmap_ptrs (hmap_write (hn_ptr n) f m) = hmap_ptrs m"
proof -
  let ?m = "hmap_write (hn_ptr n) f m"
  let ?g = "\<lambda>x :: 'a hnode. if hn_ptr x = hn_ptr n then x\<lparr>hn_obj := f (hn_obj x)\<rparr> else x"
  have ok: "hmap_ok m" using assms(1) by (simp add: tbl_ok_def)
  have uniq: "x = n" if "x \<in> set (hmap_nodes m)" "hn_ptr x = hn_ptr n" for x
    using ok that assms(2) by (auto simp: hmap_ok_def distinct_map inj_on_def)
  have hash: "map hn_hash (map ?g ns) = map hn_hash ns" for ns by simp
  have "hn_hash (?g x) = key (hn_obj (?g x))" if "x \<in> set (hmap_nodes m)" for x
    using that assms(1,2,3) uniq [OF that] by (auto simp: tbl_ok_def)
  then have "\<forall>x \<in> set (map ?g (hmap_nodes m)). hn_hash x = key (hn_obj x)"
    unfolding set_map by blast
  then have "tbl_ok key ?m"
    using assms(1) hmap_ok_write [OF ok] unfolding tbl_ok_def hmap_nodes_write hash by blast
  moreover have "tbl_abs ?m h = ((tbl_abs m)(hn_hash n \<mapsto> f (hn_obj n))) h" for h
  proof (rule tbl_chain_cases [OF assms(1), of h])
    assume "hmap_chain m h = []"
    moreover from this have "h \<noteq> hn_hash n" using tbl_chain_single [OF assms(1,2)] by auto
    ultimately show ?thesis by (simp add: tbl_abs_def hmap_chain_write)
  next
    fix x assume x: "hmap_chain m h = [x]" "x \<in> set (hmap_nodes m)" "hn_hash x = h"
    show ?thesis
    proof (cases "h = hn_hash n")
      case True
      then have "x = n" using x tbl_chain_single [OF assms(1,2)] by simp
      then show ?thesis using x by (simp add: tbl_abs_def hmap_chain_write)
    next
      case False
      then have "hn_ptr x \<noteq> hn_ptr n" using x uniq by blast
      then show ?thesis using x False by (simp add: tbl_abs_def hmap_chain_write)
    qed
  qed
  moreover have "map hn_ptr (map ?g (hmap_nodes m)) = map hn_ptr (hmap_nodes m)" by simp
  then have "hmap_ptrs ?m = hmap_ptrs m" unfolding hmap_ptrs_def hmap_nodes_write by (metis set_map)
  ultimately show ?thesis by blast
qed

section \<open>The tables of the local resource\<close>

text \<open>
  The operations of a table: insertion, deletion and lookup of a node and writing through a
  pointer, on a state that holds the map, the count and other things (\<open>rest\<close>).
\<close>

locale id_table =
  fixes rmap :: "'l \<Rightarrow> 'a hmap option"
    and rnum :: "'l \<Rightarrow> 'w::len word"
    and rest :: "'l \<Rightarrow> 'r"
    and rins :: "'a hnode \<Rightarrow> 'l \<Rightarrow> 'l option"
    and rdel :: "'a hnode \<Rightarrow> 'l \<Rightarrow> 'l option"
    and rget :: "u32 \<Rightarrow> 'l \<Rightarrow> 'a hnode option option"
    and rwrite :: "nat \<Rightarrow> ('a \<Rightarrow> 'a) \<Rightarrow> 'l \<Rightarrow> 'l"
    and key :: "'a \<Rightarrow> u32"
  assumes rget: "rmap l = Some m \<Longrightarrow> rget k l = hmap_nodeGetWithHash m k"
    and rins: "rmap l = Some m \<Longrightarrow> hmap_nodeInsert m n = Some m' \<Longrightarrow>
        \<exists>l'. rins n l = Some l' \<and> rmap l' = Some m' \<and> rnum l' = rnum l + 1 \<and> rest l' = rest l"
    and rdel: "rmap l = Some m \<Longrightarrow> hmap_nodeDelete m n = Some m' \<Longrightarrow>
        \<exists>l'. rdel n l = Some l' \<and> rmap l' = Some m' \<and> rnum l' = rnum l - 1 \<and> rest l' = rest l"
    and rwrite: "rmap l = Some m \<Longrightarrow> rmap (rwrite p f l) = Some (hmap_write p f m)"
    and rwrite_rest: "rnum (rwrite p f l) = rnum l" "rest (rwrite p f l) = rest l"
begin

lemma get_cases:
  assumes "res_ok key (rmap l) (rnum l)"
  obtains "res_abs (rmap l) k = None" "rget k l = Some None"
  | n m where "rmap l = Some m" "n \<in> set (hmap_nodes m)" "hn_hash n = k" "key (hn_obj n) = k"
      "res_abs (rmap l) k = Some (hn_obj n)" "rget k l = Some (Some n)"
proof -
  obtain m where m: "rmap l = Some m" "tbl_ok key m" using assms by (auto simp: res_ok_def split: option.splits)
  show ?thesis using tbl_get [OF m(2), of k] that rget [OF m(1)] m(1) by (auto simp: res_abs_def)
qed

lemma get_None: "res_ok key (rmap l) (rnum l) \<Longrightarrow> res_abs (rmap l) k = None \<Longrightarrow> rget k l = Some None"
  by (rule get_cases [of l k]) auto

lemma get_Some:
  "res_ok key (rmap l) (rnum l) \<Longrightarrow> res_abs (rmap l) k = Some x \<Longrightarrow>
   \<exists>n. rget k l = Some (Some n) \<and> hn_obj n = x \<and> hn_hash n = k \<and> key x = k"
  by (rule get_cases [of l k]) auto

lemma insert:
  assumes "res_ok key (rmap l) (rnum l)" "hn_ptr n \<notin> res_ptrs (rmap l)" "hn_hash n = key (hn_obj n)"
    and "res_abs (rmap l) (hn_hash n) = None"
  shows "\<exists>l'. rins n l = Some l' \<and> res_ok key (rmap l') (rnum l')
    \<and> res_abs (rmap l') = (res_abs (rmap l))(hn_hash n \<mapsto> hn_obj n)
    \<and> res_ptrs (rmap l') = insert (hn_ptr n) (res_ptrs (rmap l)) \<and> rest l' = rest l"
proof -
  obtain m where m: "rmap l = Some m" "tbl_ok key m" "rnum l = of_nat (length (hmap_nodes m))"
    using assms(1) by (auto simp: res_ok_def split: option.splits)
  then obtain m' where m': "hmap_nodeInsert m n = Some m'" "tbl_ok key m'"
    "tbl_abs m' = (tbl_abs m)(hn_hash n \<mapsto> hn_obj n)" "hmap_ptrs m' = insert (hn_ptr n) (hmap_ptrs m)"
    "length (hmap_nodes m') = length (hmap_nodes m) + 1"
    using tbl_insert [of key m n] assms by (auto simp: res_ptrs_def res_abs_def)
  obtain l' where l': "rins n l = Some l'" "rmap l' = Some m'" "rnum l' = rnum l + 1" "rest l' = rest l"
    using rins [OF m(1) m'(1)] by blast
  have "res_abs (rmap l') = (res_abs (rmap l))(hn_hash n \<mapsto> hn_obj n)"
    using l' m' m by (auto simp: res_abs_def fun_eq_iff)
  then show ?thesis using l' m' m by (auto simp: res_ok_def res_ptrs_def)
qed

lemma delete:
  assumes "res_ok key (rmap l) (rnum l)" "rget k l = Some (Some n)"
  shows "\<exists>l'. rdel n l = Some l' \<and> res_ok key (rmap l') (rnum l')
    \<and> res_abs (rmap l') = (res_abs (rmap l))(k := None)
    \<and> res_ptrs (rmap l') = res_ptrs (rmap l) - {hn_ptr n} \<and> rest l' = rest l"
proof -
  obtain m where m: "rmap l = Some m" "tbl_ok key m" "rnum l = of_nat (length (hmap_nodes m))"
    using assms(1) by (auto simp: res_ok_def split: option.splits)
  have n: "n \<in> set (hmap_nodes m)" "hn_hash n = k"
    using tbl_get [OF m(2), of k] assms(2) rget [OF m(1)] by auto
  obtain m' where m': "hmap_nodeDelete m n = Some m'" "tbl_ok key m'" "tbl_abs m' = (tbl_abs m)(hn_hash n := None)"
    "hmap_ptrs m' = hmap_ptrs m - {hn_ptr n}" "length (hmap_nodes m) = length (hmap_nodes m') + 1"
    using tbl_delete [OF m(2) n(1)] by blast
  obtain l' where l': "rdel n l = Some l'" "rmap l' = Some m'" "rnum l' = rnum l - 1" "rest l' = rest l"
    using rdel [OF m(1) m'(1)] by blast
  have "res_abs (rmap l') = (res_abs (rmap l))(k := None)"
    using l' m' m n by (auto simp: res_abs_def fun_eq_iff)
  then show ?thesis using l' m' m by (auto simp: res_ok_def res_ptrs_def)
qed

lemma update_at:
  assumes "res_ok key (rmap l) (rnum l)" "rget k l = Some (Some n)" "key (f (hn_obj n)) = key (hn_obj n)"
  shows "res_ok key (rmap (rwrite (hn_ptr n) f l)) (rnum (rwrite (hn_ptr n) f l))
    \<and> res_abs (rmap (rwrite (hn_ptr n) f l)) = (res_abs (rmap l))(k \<mapsto> f (hn_obj n))
    \<and> res_ptrs (rmap (rwrite (hn_ptr n) f l)) = res_ptrs (rmap l)"
proof -
  obtain m where m: "rmap l = Some m" "tbl_ok key m" "rnum l = of_nat (length (hmap_nodes m))"
    using assms(1) by (auto simp: res_ok_def split: option.splits)
  have n: "n \<in> set (hmap_nodes m)" "hn_hash n = k"
    using tbl_get [OF m(2), of k] assms(2) rget [OF m(1)] by auto
  show ?thesis
    using tbl_write [where f = f, OF m(2) n(1) assms(3)] rwrite [OF m(1)] m n(2)
    by (auto simp: res_ok_def res_abs_def res_ptrs_def rwrite_rest hmap_nodes_write fun_eq_iff)
qed

text \<open>Traversal with deletion of every node, as the \<^verbatim>\<open>poflr_empty\<close> routines do, empties the table.\<close>

lemma delete_all:
  assumes "res_ok key (rmap l) (rnum l)"
  shows "\<exists>l'. hmap_struct_traverse rmap (\<lambda>n s. map_option (\<lambda>s'. (None :: ret option, s')) (rdel n s)) l = Some (None, l')
    \<and> res_ok key (rmap l') (rnum l') \<and> res_abs (rmap l') = (\<lambda>_. None) \<and> res_ptrs (rmap l') = {}
    \<and> rnum l' = 0 \<and> rest l' = rest l"
proof -
  let ?body = "\<lambda>n s. map_option (\<lambda>s'. (None :: ret option, s')) (rdel n s)"
  let ?I = "\<lambda>s. res_ok key (rmap s) (rnum s) \<and> rest s = rest l"
  obtain m where m: "rmap l = Some m" "tbl_ok key m" using assms by (auto simp: res_ok_def split: option.splits)
  then have ok: "hmap_ok m" by (simp add: tbl_ok_def)
  have step: "\<exists>s' m'. ?body n s = Some (None, s') \<and> ?I s' \<and> rmap s' = Some m' \<and> hmap_ok m'
      \<and> hmap_nodes m' = filter (\<lambda>x. hn_ptr x \<noteq> hn_ptr n) (hmap_nodes m)"
    if I: "?I s" and sm: "rmap s = Some m" and n: "n \<in> set (hmap_nodes m)" for s m n
  proof -
    have t: "tbl_ok key m" "rnum s = of_nat (length (hmap_nodes m))" using I sm by (auto simp: res_ok_def)
    obtain m' where m': "hmap_nodeDelete m n = Some m'" "tbl_ok key m'" "length (hmap_nodes m) = length (hmap_nodes m') + 1"
      "hmap_nodes m' = filter (\<lambda>x. hn_ptr x \<noteq> hn_ptr n) (hmap_nodes m)"
      using tbl_delete [OF t(1) n] by blast
    obtain s' where s': "rdel n s = Some s'" "rmap s' = Some m'" "rnum s' = rnum s - 1" "rest s' = rest s"
      using rdel [OF sm m'(1)] by blast
    have "rnum s' = of_nat (length (hmap_nodes m'))" using s'(3) t(2) m'(3) by simp
    then have "res_ok key (rmap s') (rnum s')" using s'(2) m'(2) by (simp add: res_ok_def)
    moreover have "hmap_ok m'" using m'(2) by (simp add: tbl_ok_def)
    ultimately show ?thesis using s' m' I by simp
  qed
  obtain l' m' where l': "hmap_struct_traverse rmap ?body l = Some (None, l')" "?I l'" "rmap l' = Some m'"
    "hmap_ok m'" "hmap_nodes m' = []"
    using hmap_struct_traverse_delete [of ?I rmap ?body l m] step assms m(1) ok by blast
  then show ?thesis
    by (intro exI [of _ l']) (auto simp: res_abs_def tbl_abs_def hmap_chain_def res_ptrs_def hmap_ptrs_def res_ok_def)
qed

end

text \<open>A freshly created map is an empty table.\<close>

lemma res_create_ok:
  assumes "hmap_create sz g = (Some m, g')"
  shows "res_ok key (Some m) 0 \<and> res_abs (Some m) = (\<lambda>_. None) \<and> res_ptrs (Some m) = {}"
  using hmap_create_ok [OF assms]
  by (auto simp: res_ok_def tbl_ok_def res_abs_def tbl_abs_def hmap_chain_def res_ptrs_def hmap_ptrs_def fun_eq_iff)

text \<open>A small local resource with empty tables.\<close>

definition empty_hmap :: "'a hmap" where
  "empty_hmap = \<lparr>hm_buckets = [[], []], hm_mask = 1, hm_n = 0\<rparr>"

definition example_lr :: pof_local_resource where
  "example_lr = \<lparr>slotID = 7, portPofIndexMap = Some empty_hmap, portNameMap = Some empty_hmap,
     portNumMax = 4, portNum = 0, portFlag = 0, tableIdMap = Some empty_hmap, tableNumMax = 8,
     tableNumMaxEachType = [2, 2, 2, 2], tableNum = 0, tableSizeMax = 16,
     groupMap = Some empty_hmap, groupNumMax = 4, groupNum = 0, meterMap = Some empty_hmap,
     meterNumMax = 4, meterNum = 0, counterMap = Some empty_hmap, counterNumMax = 4, counterNum = 0\<rparr>"

lemma empty_hmap_nodes [simp]: "hmap_nodes empty_hmap = []"
  by (simp add: hmap_nodes_def empty_hmap_def)

lemma empty_hmap_ok [simp]:
  "tbl_ok key empty_hmap" "res_ok key (Some empty_hmap) 0" "res_ptrs (Some empty_hmap) = {}"
  "res_abs (Some empty_hmap) k = None" "below n {}"
  by (simp_all add: tbl_ok_def hmap_ok_def res_ok_def res_ptrs_def hmap_ptrs_def res_abs_def tbl_abs_def
      hmap_chain_def below_def) (simp_all add: empty_hmap_def less_Suc_eq)

lemma empty_hmap_abs [simp]: "res_abs (Some empty_hmap) = (\<lambda>_. None)"
  by (rule ext) simp

end
