(* ===== verification/Pof_Counter.thy ===== *)
theory Pof_Counter
  imports Pof_Resource
begin

text \<open>
  The counter table: \<^verbatim>\<open>local_resource/pof_counter.c\<close>. The state is the counter part of the local
  resource; the theorems show that the operations implement a finite map from counter ids to
  a packet and a byte count, with every error of the code reported to the controller.
\<close>

section \<open>Definitions\<close>

definition map_counterCreate :: "glob \<Rightarrow> nat option \<times> glob" where
  "map_counterCreate g = POF_MALLOC_SAFE g"

definition map_counterDelete :: "counterInfo hnode \<Rightarrow> pof_local_resource \<Rightarrow> pof_local_resource option" where
  "map_counterDelete counter lr = do {
     m \<leftarrow> counterMap lr;
     m' \<leftarrow> hmap_nodeDelete m counter;
     Some (lr\<lparr>counterMap := Some m', counterNum := counterNum lr - 1\<rparr>)
   }"

definition map_counterInsert :: "counterInfo hnode \<Rightarrow> pof_local_resource \<Rightarrow> pof_local_resource option" where
  "map_counterInsert counter lr = do {
     m \<leftarrow> counterMap lr;
     m' \<leftarrow> hmap_nodeInsert m counter;
     Some (lr\<lparr>counterMap := Some m', counterNum := counterNum lr + 1\<rparr>)
   }"

definition map_counterHashByID :: "u32 \<Rightarrow> u32" where
  "map_counterHashByID i = hmap_hashForLinear i"

definition poflr_get_counter_with_ID :: "u32 \<Rightarrow> pof_local_resource \<Rightarrow> counterInfo hnode option option" where
  "poflr_get_counter_with_ID i lr = do {
     m \<leftarrow> counterMap lr;
     hmap_nodeGetWithHash m (map_counterHashByID i)
   }"

text \<open>Assignments through a pointer to a counter.\<close>

definition counter_write :: "nat \<Rightarrow> (counterInfo \<Rightarrow> counterInfo) \<Rightarrow> pof_local_resource \<Rightarrow> pof_local_resource" where
  "counter_write p f lr = lr\<lparr>counterMap := map_option (hmap_write p f) (counterMap lr)\<rparr>"

definition poflr_counter_init :: "u32 \<Rightarrow> pof_local_resource \<Rightarrow> glob \<Rightarrow> (ret \<times> pof_local_resource \<times> glob) option" where
  "poflr_counter_init counter_id lr g = (
     if counter_id = 0 then Some (POF_OK, lr, g)
     else if counterNumMax lr \<le> counter_id then
       with_lr lr (err_upward POFET_COUNTER_MOD_FAILED (CounterE POFCMFC_BAD_COUNTER_ID) g)
     else do {
       c \<leftarrow> poflr_get_counter_with_ID counter_id lr;
       (case c of
          Some _ \<Rightarrow> Some (POF_OK, lr, g)
        | None \<Rightarrow> (case map_counterCreate g of
            (None, g1) \<Rightarrow> with_lr lr (err_upward_new POFET_SOFTWARE_FAILED (SoftE POF_ALLOCATE_RESOURCE_FAILURE) g1)
          | (Some p, g1) \<Rightarrow> do {
              lr' \<leftarrow> map_counterInsert \<lparr>hn_ptr = p, hn_hash = map_counterHashByID counter_id,
                       hn_obj = \<lparr>ci_id = counter_id, ci_value = 0, ci_byte_value = 0\<rparr>\<rparr> lr;
              Some (POF_OK, lr', g1)
            }))
     })"

definition poflr_counter_delete :: "u32 \<Rightarrow> pof_local_resource \<Rightarrow> glob \<Rightarrow> (ret \<times> pof_local_resource \<times> glob) option" where
  "poflr_counter_delete counter_id lr g = (
     if counter_id = 0 then Some (POF_OK, lr, g)
     else if counterNumMax lr \<le> counter_id then
       with_lr lr (err_upward POFET_COUNTER_MOD_FAILED (CounterE POFCMFC_BAD_COUNTER_ID) g)
     else do {
       c \<leftarrow> poflr_get_counter_with_ID counter_id lr;
       (case c of
          None \<Rightarrow> with_lr lr (err_upward POFET_COUNTER_MOD_FAILED (CounterE POFCMFC_COUNTER_UNEXIST) g)
        | Some counter \<Rightarrow> do { lr' \<leftarrow> map_counterDelete counter lr; Some (POF_OK, lr', g) })
     })"

definition poflr_counter_clear :: "u32 \<Rightarrow> pof_local_resource \<Rightarrow> glob \<Rightarrow> (ret \<times> pof_local_resource \<times> glob) option" where
  "poflr_counter_clear counter_id lr g = (
     if counter_id = 0 then Some (POF_OK, lr, g)
     else if counterNumMax lr \<le> counter_id then
       with_lr lr (err_upward POFET_COUNTER_MOD_FAILED (CounterE POFCMFC_BAD_COUNTER_ID) g)
     else do {
       c \<leftarrow> poflr_get_counter_with_ID counter_id lr;
       (case c of
          None \<Rightarrow> with_lr lr (err_upward POFET_COUNTER_MOD_FAILED (CounterE POFCMFC_COUNTER_UNEXIST) g)
        | Some counter \<Rightarrow>
            Some (POF_OK, counter_write (hn_ptr counter) (\<lambda>c. c\<lparr>ci_value := 0, ci_byte_value := 0\<rparr>) lr, g))
     })"

text \<open>The bytes of a \<^verbatim>\<open>struct pof_counter\<close> in host order, and its conversion.\<close>

definition pof_counter_bytes :: "u16 \<Rightarrow> counterInfo \<Rightarrow> bytes" where
  "pof_counter_bytes slot c = [4, 0] @ le_bytes 2 slot @ le_bytes 4 (ci_id c)
     @ le_bytes 8 (ci_value c) @ le_bytes 8 (ci_byte_value c)"

definition counter_reply :: "pof_local_resource \<Rightarrow> counterInfo \<Rightarrow> glob \<Rightarrow> (ret \<times> glob) option" where
  "counter_reply lr c g = do {
     body \<leftarrow> run_conv (pof_NtoH_transfer_counter 0) (pof_counter_bytes (slotID lr) c);
     (r, g1) \<leftarrow> pofec_reply_msg POFT_COUNTER_REPLY (g_recv_xid g) 24 (Some body) g;
     (if r \<noteq> POF_OK then err_upward POFET_SOFTWARE_FAILED (SoftE POF_WRITE_MSG_QUEUE_FAILURE) g1
      else Some (POF_OK, g1))
   }"

definition poflr_get_counter_value :: "u32 \<Rightarrow> pof_local_resource \<Rightarrow> glob \<Rightarrow> (ret \<times> glob) option" where
  "poflr_get_counter_value counter_id lr g = (
     if counter_id = 0 \<or> counterNumMax lr \<le> counter_id then
       err_upward POFET_COUNTER_MOD_FAILED (CounterE POFCMFC_BAD_COUNTER_ID) g
     else do {
       c \<leftarrow> poflr_get_counter_with_ID counter_id lr;
       (case c of
          None \<Rightarrow> err_upward POFET_COUNTER_MOD_FAILED (CounterE POFCMFC_COUNTER_UNEXIST) g
        | Some counter \<Rightarrow> counter_reply lr ((hn_obj counter)\<lparr>ci_id := counter_id\<rparr>) g)
     })"

text \<open>
  The routine has no \<^verbatim>\<open>return\<close> at its end: a value is returned only after a failure to send.
\<close>

definition poflr_reply_counter_all :: "pof_local_resource \<Rightarrow> glob \<Rightarrow> (ret option \<times> glob) option" where
  "poflr_reply_counter_all lr g =
     hmap_struct_traverse (\<lambda>_. counterMap lr)
       (\<lambda>counter g. do {
          (r, g1) \<leftarrow> counter_reply lr (hn_obj counter) g;
          Some (if r \<noteq> POF_OK then Some r else None, g1)
        }) g"

text \<open>A counter that is not there is created but the pointer that is then used is still \<^verbatim>\<open>NULL\<close>.\<close>

definition poflr_counter_increace ::
  "u32 \<Rightarrow> u16 \<Rightarrow> pof_local_resource \<Rightarrow> glob \<Rightarrow> (ret \<times> pof_local_resource \<times> glob) option" where
  "poflr_counter_increace counter_id byte_len lr g = (
     if counter_id = 0 then Some (POF_OK, lr, g)
     else if counterNumMax lr \<le> counter_id then
       with_lr lr (err_upward_new POFET_COUNTER_MOD_FAILED (CounterE POFCMFC_BAD_COUNTER_ID) g)
     else do {
       c \<leftarrow> poflr_get_counter_with_ID counter_id lr;
       (case c of
          None \<Rightarrow> do { _ \<leftarrow> poflr_counter_init counter_id lr g; None }
        | Some counter \<Rightarrow>
            Some (POF_OK, counter_write (hn_ptr counter)
              (\<lambda>c. c\<lparr>ci_value := ci_value c + 1, ci_byte_value := ci_byte_value c + ucast byte_len\<rparr>) lr, g))
     })"

definition poflr_init_counter :: "pof_local_resource \<Rightarrow> glob \<Rightarrow> ret \<times> pof_local_resource \<times> glob" where
  "poflr_init_counter lr g = (case hmap_create (counterNumMax lr) g of
      (None, g1) \<Rightarrow> (case err_no_upward POFET_SOFTWARE_FAILED (SoftE POF_ALLOCATE_RESOURCE_FAILURE) g1 of
          (r, g2) \<Rightarrow> (r, lr\<lparr>counterMap := None\<rparr>, g2))
    | (Some m, g1) \<Rightarrow> (POF_OK, lr\<lparr>counterMap := Some m\<rparr>, g1))"

definition poflr_empty_counter :: "pof_local_resource \<Rightarrow> (ret \<times> pof_local_resource) option" where
  "poflr_empty_counter lr = (case counterMap lr of
      None \<Rightarrow> Some (POF_OK, lr)
    | Some _ \<Rightarrow> do {
        (r, lr') \<leftarrow> hmap_struct_traverse counterMap
          (\<lambda>counter l. map_option (\<lambda>l'. (None, l')) (map_counterDelete counter l)) lr;
        Some (case r of Some v \<Rightarrow> v | None \<Rightarrow> POF_OK, lr')
      })"

section \<open>The table as a finite map\<close>

abbreviation counter_ok :: "pof_local_resource \<Rightarrow> bool" where
  "counter_ok lr \<equiv> res_ok ci_id (counterMap lr) (counterNum lr)"

abbreviation counters :: "pof_local_resource \<Rightarrow> u32 \<Rightarrow> counterInfo option" where
  "counters lr \<equiv> res_abs (counterMap lr)"

text \<open>The part of the local resource that the counter operations leave alone.\<close>

definition but_counters :: "pof_local_resource \<Rightarrow> pof_local_resource" where
  "but_counters lr = lr\<lparr>counterMap := None, counterNum := 0\<rparr>"

interpretation ct: id_table counterMap counterNum but_counters map_counterInsert map_counterDelete
    poflr_get_counter_with_ID counter_write ci_id
  by unfold_locales
    (simp_all add: map_counterInsert_def map_counterDelete_def poflr_get_counter_with_ID_def counter_write_def
      but_counters_def map_counterHashByID_def hmap_hashForLinear_def)

text \<open>Every node of the table was allocated before.\<close>

abbreviation counters_below :: "pof_local_resource \<Rightarrow> glob \<Rightarrow> bool" where
  "counters_below lr g \<equiv> below (malloc_n g) (res_ptrs (counterMap lr))"

lemma with_lr_Some: "with_lr lr x = Some (r, lr', g') \<longleftrightarrow> x = Some (r, g') \<and> lr' = lr"
  by (auto simp: with_lr_def)

lemma but_counters_sel:
  assumes "but_counters l' = but_counters l"
  shows "groupMap l' = groupMap l" "groupNum l' = groupNum l" "groupNumMax l' = groupNumMax l"
    "tableIdMap l' = tableIdMap l" "tableNum l' = tableNum l" "tableNumMax l' = tableNumMax l"
    "counterNumMax l' = counterNumMax l" "slotID l' = slotID l" "tableNumMaxEachType l' = tableNumMaxEachType l"
    "tableSizeMax l' = tableSizeMax l"
  using assms by (cases l, cases l', simp add: but_counters_def)+

text \<open>What \<open>poflr_counter_init\<close> does to the table when the channel works, as a function on finite maps.\<close>

definition init_spec :: "u32 \<Rightarrow> u32 \<Rightarrow> (u32 \<Rightarrow> counterInfo option) \<Rightarrow> ret \<times> (u32 \<Rightarrow> counterInfo option)" where
  "init_spec mx i cs = (
     if i = 0 then (POF_OK, cs)
     else if mx \<le> i then (ERR (CounterE POFCMFC_BAD_COUNTER_ID), cs)
     else (POF_OK, if cs i = None then cs(i \<mapsto> \<lparr>ci_id = i, ci_value = 0, ci_byte_value = 0\<rparr>) else cs))"

lemma counter_init_ok:
  assumes "counter_ok lr" "counters_below lr g" "chan_ok g"
  shows "\<exists>r lr' g'. poflr_counter_init i lr g = Some (r, lr', g') \<and> counter_ok lr' \<and> counters_below lr' g'
    \<and> chan_ok g' \<and> same_but_queue g g' \<and> but_counters lr' = but_counters lr
    \<and> (r, counters lr') = init_spec (counterNumMax lr) i (counters lr)
    \<and> (r = POF_OK \<longrightarrow> send_queue g' = send_queue g)"
proof -
  consider "i = 0" | "i \<noteq> 0" "counterNumMax lr \<le> i" | "i \<noteq> 0" "\<not> counterNumMax lr \<le> i" by blast
  then show ?thesis
  proof cases
    case 1
    then show ?thesis using assms by (simp add: poflr_counter_init_def init_spec_def)
  next
    case 2
    obtain g' where "err_upward POFET_COUNTER_MOD_FAILED (CounterE POFCMFC_BAD_COUNTER_ID) g =
        Some (ERR (CounterE POFCMFC_BAD_COUNTER_ID), g')" "chan_ok g'" "same_but_queue g g'"
      using err_upward_ok [OF assms(3)] by blast
    then show ?thesis using 2 assms
      by (auto simp: poflr_counter_init_def init_spec_def with_lr_def same_but_queue_def intro: below_mono)
  next
    case 3
    show ?thesis
    proof (rule ct.get_cases [OF assms(1), of i])
      assume n: "counters lr i = None" "poflr_get_counter_with_ID i lr = Some None"
      obtain p g1 where p: "map_counterCreate g = (Some p, g1)" "p = malloc_n g + 1" "g1 = g\<lparr>malloc_n := p\<rparr>"
        using assms(3) by (auto simp: map_counterCreate_def POF_MALLOC_SAFE_def malloc_def Let_def chan_ok_def)
      let ?n = "\<lparr>hn_ptr = p, hn_hash = i, hn_obj = \<lparr>ci_id = i, ci_value = 0, ci_byte_value = 0\<rparr>\<rparr>"
      have "hn_ptr ?n \<notin> res_ptrs (counterMap lr)" using assms(2) p(2) by (auto simp: below_def)
      then obtain lr' where lr': "map_counterInsert ?n lr = Some lr'" "counter_ok lr'"
        "counters lr' = (counters lr)(i \<mapsto> hn_obj ?n)"
        "res_ptrs (counterMap lr') = insert p (res_ptrs (counterMap lr))" "but_counters lr' = but_counters lr"
        using ct.insert [OF assms(1), of ?n] n(1) by auto
      moreover have "counters_below lr' g1" using lr'(4) p assms(2) by (auto simp: below_def)
      moreover have "chan_ok g1" "same_but_queue g g1" "send_queue g1 = send_queue g"
        using assms(3) p by (auto simp: chan_ok_def same_but_queue_def)
      ultimately show ?thesis
        using 3 n p by (simp add: poflr_counter_init_def init_spec_def map_counterHashByID_def hmap_hashForLinear_def)
    next
      fix n m assume "counters lr i = Some (hn_obj n)" "poflr_get_counter_with_ID i lr = Some (Some n)"
      then show ?thesis using 3 assms by (auto simp: poflr_counter_init_def init_spec_def)
    qed
  qed
qed

text \<open>The same for deletion and clearing: only a counter that exists can be deleted or cleared.\<close>

definition change_spec :: "(counterInfo \<Rightarrow> counterInfo option) \<Rightarrow> u32 \<Rightarrow> u32 \<Rightarrow> (u32 \<Rightarrow> counterInfo option)
    \<Rightarrow> ret \<times> (u32 \<Rightarrow> counterInfo option)" where
  "change_spec f mx i cs = (
     if i = 0 then (POF_OK, cs)
     else if mx \<le> i then (ERR (CounterE POFCMFC_BAD_COUNTER_ID), cs)
     else case cs i of None \<Rightarrow> (ERR (CounterE POFCMFC_COUNTER_UNEXIST), cs) | Some c \<Rightarrow> (POF_OK, cs(i := f c)))"

lemma counter_err:
  assumes "counters_below lr g" "chan_ok g"
  shows "\<exists>g'. err_upward t c g = Some (ERR c, g') \<and> chan_ok g' \<and> same_but_queue g g' \<and> counters_below lr g'"
proof -
  obtain g' where g': "err_upward t c g = Some (ERR c, g')" "chan_ok g'" "same_but_queue g g'"
    using err_upward_ok [OF assms(2)] by blast
  then have "counters_below lr g'" using assms(1) below_mono by (fastforce simp: same_but_queue_def)
  then show ?thesis using g' by blast
qed

lemma counter_delete_ok:
  assumes "counter_ok lr" "counters_below lr g" "chan_ok g"
  shows "\<exists>r lr' g'. poflr_counter_delete i lr g = Some (r, lr', g') \<and> counter_ok lr' \<and> counters_below lr' g'
    \<and> chan_ok g' \<and> same_but_queue g g' \<and> but_counters lr' = but_counters lr
    \<and> (r, counters lr') = change_spec (\<lambda>_. None) (counterNumMax lr) i (counters lr)"
proof (rule ct.get_cases [OF assms(1), of i])
  assume "counters lr i = None" "poflr_get_counter_with_ID i lr = Some None"
  then show ?thesis using assms counter_err [OF assms(2,3)]
    by (fastforce simp: poflr_counter_delete_def change_spec_def with_lr_def)
next
  fix n m assume n: "counters lr i = Some (hn_obj n)" "poflr_get_counter_with_ID i lr = Some (Some n)"
  obtain lr' where lr': "map_counterDelete n lr = Some lr'" "counter_ok lr'" "counters lr' = (counters lr)(i := None)"
    "res_ptrs (counterMap lr') = res_ptrs (counterMap lr) - {hn_ptr n}" "but_counters lr' = but_counters lr"
    using ct.delete [OF assms(1) n(2)] by blast
  have "counters_below lr' g" using lr'(4) assms(2) by (auto simp: below_def)
  then show ?thesis using n lr' assms counter_err [OF assms(2,3)]
    by (fastforce simp: poflr_counter_delete_def change_spec_def with_lr_def)
qed

lemma counter_write_ok:
  assumes "counter_ok lr" "poflr_get_counter_with_ID i lr = Some (Some n)" "\<And>c. ci_id (f c) = ci_id c"
  shows "counter_ok (counter_write (hn_ptr n) f lr)
    \<and> counters (counter_write (hn_ptr n) f lr) = (counters lr)(i \<mapsto> f (hn_obj n))
    \<and> res_ptrs (counterMap (counter_write (hn_ptr n) f lr)) = res_ptrs (counterMap lr)
    \<and> but_counters (counter_write (hn_ptr n) f lr) = but_counters lr"
  using ct.update_at [OF assms(1,2), where f = f] assms(3) by (simp add: but_counters_def counter_write_def)

lemma counter_clear_ok:
  assumes "counter_ok lr" "counters_below lr g" "chan_ok g"
  shows "\<exists>r lr' g'. poflr_counter_clear i lr g = Some (r, lr', g') \<and> counter_ok lr' \<and> counters_below lr' g'
    \<and> chan_ok g' \<and> same_but_queue g g' \<and> but_counters lr' = but_counters lr
    \<and> (r, counters lr') = change_spec (\<lambda>c. Some (c\<lparr>ci_value := 0, ci_byte_value := 0\<rparr>)) (counterNumMax lr) i (counters lr)"
proof (rule ct.get_cases [OF assms(1), of i])
  assume "counters lr i = None" "poflr_get_counter_with_ID i lr = Some None"
  then show ?thesis using assms counter_err [OF assms(2,3)]
    by (fastforce simp: poflr_counter_clear_def change_spec_def with_lr_def)
next
  fix n m assume n: "counters lr i = Some (hn_obj n)" "poflr_get_counter_with_ID i lr = Some (Some n)"
  show ?thesis
    using n counter_write_ok [OF assms(1) n(2), of "\<lambda>c. c\<lparr>ci_value := 0, ci_byte_value := 0\<rparr>"] assms
      counter_err [OF assms(2,3)]
    by (fastforce simp: poflr_counter_clear_def change_spec_def with_lr_def)
qed

text \<open>
  C17. The counter table is a finite map. Creating, deleting and clearing a counter return on
  a working channel, keep the table's invariant and everything else of the local resource, and
  act on the map as specified: id 0 is no counter and changes nothing, an id beyond the
  configured number is refused, creation keeps an existing counter and otherwise starts one at
  zero, deletion and clearing need an existing counter.
\<close>

theorem counter_operations_refine:
  assumes "counter_ok lr" "counters_below lr g" "chan_ok g"
  shows "\<exists>r1 l1 g1 r2 l2 g2 r3 l3 g3.
    poflr_counter_init i lr g = Some (r1, l1, g1) \<and> poflr_counter_delete i lr g = Some (r2, l2, g2)
    \<and> poflr_counter_clear i lr g = Some (r3, l3, g3)
    \<and> counter_ok l1 \<and> counter_ok l2 \<and> counter_ok l3
    \<and> counters_below l1 g1 \<and> counters_below l2 g2 \<and> counters_below l3 g3
    \<and> but_counters l1 = but_counters lr \<and> but_counters l2 = but_counters lr \<and> but_counters l3 = but_counters lr
    \<and> (r1, counters l1) = init_spec (counterNumMax lr) i (counters lr)
    \<and> (r2, counters l2) = change_spec (\<lambda>_. None) (counterNumMax lr) i (counters lr)
    \<and> (r3, counters l3) = change_spec (\<lambda>c. Some (c\<lparr>ci_value := 0, ci_byte_value := 0\<rparr>)) (counterNumMax lr) i (counters lr)"
  using counter_init_ok [OF assms, of i] counter_delete_ok [OF assms, of i] counter_clear_ok [OF assms, of i]
  by blast

lemma example_counters:
  "counter_ok example_lr" "counters_below example_lr g" "counters example_lr = (\<lambda>_. None)"
  by (simp_all add: example_lr_def fun_eq_iff)

lemma counter_operations_refine_witness:
  "\<exists>r l g. poflr_counter_init 3 example_lr example_glob = Some (POF_OK, l, g) \<and> counter_ok l
    \<and> counters l = [3 \<mapsto> \<lparr>ci_id = 3, ci_value = 0, ci_byte_value = 0\<rparr>]"
  using counter_operations_refine [of example_lr example_glob 3] example_counters example_glob_ok
  by (auto simp: init_spec_def example_lr_def)

section \<open>Counting\<close>

lemma counter_increace_present:
  assumes "counter_ok lr" "i \<noteq> 0" "i < counterNumMax lr" "counters lr i = Some c"
  shows "\<exists>lr'. poflr_counter_increace i byte_len lr g = Some (POF_OK, lr', g) \<and> counter_ok lr'
    \<and> but_counters lr' = but_counters lr \<and> res_ptrs (counterMap lr') = res_ptrs (counterMap lr)
    \<and> counters lr' = (counters lr)(i \<mapsto>
        c\<lparr>ci_value := ci_value c + 1, ci_byte_value := ci_byte_value c + ucast byte_len\<rparr>)"
proof (rule ct.get_cases [OF assms(1), of i])
  fix n m assume n: "counters lr i = Some (hn_obj n)" "poflr_get_counter_with_ID i lr = Some (Some n)"
  let ?f = "\<lambda>c. c\<lparr>ci_value := ci_value c + 1, ci_byte_value := ci_byte_value c + ucast byte_len\<rparr>"
  have "poflr_counter_increace i byte_len lr g = Some (POF_OK, counter_write (hn_ptr n) ?f lr, g)"
    using assms(2) not_le [THEN iffD2, OF assms(3)] n by (simp add: poflr_counter_increace_def)
  moreover have "hn_obj n = c" using n assms(4) by simp
  ultimately show ?thesis using counter_write_ok [OF assms(1) n(2), of ?f] by simp
qed (use assms in simp)

text \<open>
  Counting a packet: an existing counter gains one packet and the packet's bytes, both
  modulo \<open>2 ^ 64\<close>, and nothing else changes. For an id in range that has no counter the call
  does not survive: the counter is created, but the pointer that is then written through is the
  \<^verbatim>\<open>NULL\<close> of the failed lookup.
\<close>

theorem poflr_counter_increace_counts:
  assumes "counter_ok lr" "i \<noteq> 0" "i < counterNumMax lr"
  shows "case counters lr i of
      None \<Rightarrow> poflr_counter_increace i byte_len lr g = None
    | Some c \<Rightarrow> (\<exists>lr'. poflr_counter_increace i byte_len lr g = Some (POF_OK, lr', g) \<and> counter_ok lr'
        \<and> but_counters lr' = but_counters lr
        \<and> counters lr' = (counters lr)(i \<mapsto> \<lparr>ci_id = i, ci_value = ci_value c + 1,
            ci_byte_value = ci_byte_value c + ucast byte_len\<rparr>))"
proof (rule ct.get_cases [OF assms(1), of i])
  assume "counters lr i = None" "poflr_get_counter_with_ID i lr = Some None"
  then show ?thesis
    using assms(2) not_le [THEN iffD2, OF assms(3)]
    by (simp add: poflr_counter_increace_def split: Option.bind_split)
next
  fix n m assume n: "counters lr i = Some (hn_obj n)" "ci_id (hn_obj n) = i"
  then have "(hn_obj n)\<lparr>ci_value := v, ci_byte_value := b\<rparr> = \<lparr>ci_id = i, ci_value = v, ci_byte_value = b\<rparr>" for v b
    by simp
  then show ?thesis using counter_increace_present [OF assms n(1), of byte_len g] n(1) by auto
qed

definition counted_lr :: pof_local_resource where
  "counted_lr = example_lr\<lparr>counterMap := Some \<lparr>hm_buckets = [[], [\<lparr>hn_ptr = 1, hn_hash = 3,
     hn_obj = \<lparr>ci_id = 3, ci_value = 5, ci_byte_value = 88\<rparr>\<rparr>]], hm_mask = 1, hm_n = 1\<rparr>, counterNum := 1\<rparr>"

lemma counted_lr_ok: "counter_ok counted_lr" "counters counted_lr = [3 \<mapsto> \<lparr>ci_id = 3, ci_value = 5, ci_byte_value = 88\<rparr>]"
  by (auto simp: counted_lr_def res_ok_def tbl_ok_def hmap_ok_def hmap_nodes_def bucketWithHash_def less_Suc_eq
      res_abs_def tbl_abs_def hmap_chain_def fun_eq_iff)

lemma poflr_counter_increace_counts_witness:
  "\<exists>lr'. poflr_counter_increace 3 64 counted_lr example_glob = Some (POF_OK, lr', example_glob)
    \<and> counters lr' = [3 \<mapsto> \<lparr>ci_id = 3, ci_value = 6, ci_byte_value = 152\<rparr>]"
  using poflr_counter_increace_counts [of counted_lr 3 64 example_glob] counted_lr_ok
  by (auto simp: counted_lr_def example_lr_def)

section \<open>Reporting\<close>

text \<open>The body of a counter reply: everything in network order.\<close>

definition counter_wire :: "u16 \<Rightarrow> counterInfo \<Rightarrow> bytes" where
  "counter_wire slot c = [4, 0] @ rev (le_bytes 2 slot) @ rev (le_bytes 4 (ci_id c))
     @ rev (le_bytes 8 (ci_value c)) @ rev (le_bytes 8 (ci_byte_value c))"

lemma counter_bytes_conv:
  "run_conv (pof_NtoH_transfer_counter 0) (pof_counter_bytes slot c) = Some (counter_wire slot c)"
  by (simp add: pof_NtoH_transfer_counter_def pof_counter_bytes_def counter_wire_def conv_step_rev conv_end_def
      del: conv_step.simps)

lemma length_counter_wire [simp]: "length (counter_wire slot c) = 24"
  by (simp add: counter_wire_def)

lemma counter_reply_ok:
  assumes "chan_ok g"
  shows "\<exists>g'. counter_reply lr c g = Some (POF_OK, g') \<and> chan_ok g' \<and> same_but_queue g g'
    \<and> send_queue g' = (if sending g then send_queue g
         @ [msg_header POFT_COUNTER_REPLY (g_recv_xid g) 32 @ counter_wire (slotID lr) c] else send_queue g)"
proof -
  obtain g' where g': "pofec_reply_msg POFT_COUNTER_REPLY (g_recv_xid g) 24 (Some (counter_wire (slotID lr) c)) g = Some (POF_OK, g')"
    "chan_ok g'" "same_but_queue g g'"
    "send_queue g' = (if sending g then send_queue g @ [reply_bytes POFT_COUNTER_REPLY (g_recv_xid g) 24 (counter_wire (slotID lr) c)] else send_queue g)"
    using reply_msg_ok [OF assms, of 24 "counter_wire (slotID lr) c" "Some (counter_wire (slotID lr) c)" POFT_COUNTER_REPLY "g_recv_xid g"]
    by auto
  then show ?thesis
    by (intro exI [of _ g']) (simp add: counter_reply_def counter_bytes_conv reply_bytes_def)
qed

text \<open>
  A counter query answers with exactly one counter reply that carries the id of the request,
  the slot and the two values of the counter in network order; ids that are 0, out of range or
  without a counter are refused with an error and the reply is an error message instead.
\<close>

theorem poflr_get_counter_value_replies:
  assumes "counter_ok lr" "chan_ok g" "sending g"
  shows "\<exists>r g' m. poflr_get_counter_value i lr g = Some (r, g') \<and> chan_ok g' \<and> send_queue g' = send_queue g @ [m]
    \<and> (if i = 0 \<or> counterNumMax lr \<le> i then r = ERR (CounterE POFCMFC_BAD_COUNTER_ID)
       else case counters lr i of
           None \<Rightarrow> r = ERR (CounterE POFCMFC_COUNTER_UNEXIST)
         | Some c \<Rightarrow> r = POF_OK \<and> m = msg_header POFT_COUNTER_REPLY (g_recv_xid g) 32
             @ [4, 0] @ rev (le_bytes 2 (slotID lr)) @ rev (le_bytes 4 i)
             @ rev (le_bytes 8 (ci_value c)) @ rev (le_bytes 8 (ci_byte_value c)))"
proof -
  have err: "\<exists>g' m. err_upward t c g = Some (ERR c, g') \<and> chan_ok g' \<and> send_queue g' = send_queue g @ [m]" for t c
    using err_upward_queue [OF assms(2), of t c] assms(3) by auto
  show ?thesis
  proof (cases "i = 0 \<or> counterNumMax lr \<le> i")
    case True
    then show ?thesis using err by (fastforce simp: poflr_get_counter_value_def)
  next
    case False
    show ?thesis
    proof (rule ct.get_cases [OF assms(1), of i])
      assume "counters lr i = None" "poflr_get_counter_with_ID i lr = Some None"
      then show ?thesis using False err by (fastforce simp: poflr_get_counter_value_def)
    next
      fix n m assume n: "counters lr i = Some (hn_obj n)" "poflr_get_counter_with_ID i lr = Some (Some n)" "ci_id (hn_obj n) = i"
      then show ?thesis
        using False assms(3) counter_reply_ok [OF assms(2), of lr "(hn_obj n)\<lparr>ci_id := i\<rparr>"]
        by (auto simp: poflr_get_counter_value_def counter_wire_def)
    qed
  qed
qed

lemma poflr_get_counter_value_replies_witness:
  "\<exists>g'. poflr_get_counter_value 3 counted_lr example_glob = Some (POF_OK, g')
    \<and> send_queue g' = [[4, 33, 0, 32, 0, 0, 0, 1, 4, 0, 0, 7, 0, 0, 0, 3, 0, 0, 0, 0, 0, 0, 0, 5, 0, 0, 0, 0, 0, 0, 0, 88]]"
  using poflr_get_counter_value_replies [OF counted_lr_ok(1) example_glob_ok, of 3] counted_lr_ok(2)
  by (auto simp: counted_lr_def example_lr_def example_glob_def msg_header_def le_bytes_def upt_rec drop_bit_eq_div)

lemma counter_reply_all_list:
  assumes "chan_ok g"
  shows "\<exists>g'. trav_list (\<lambda>counter g. do { (r, g1) \<leftarrow> counter_reply lr (hn_obj counter) g;
            Some (if r \<noteq> POF_OK then Some r else None, g1) }) ns g = Some (None, g') \<and> chan_ok g' \<and> same_but_queue g g'
    \<and> send_queue g' = send_queue g @ (if sending g then map (\<lambda>n. msg_header POFT_COUNTER_REPLY (g_recv_xid g) 32
        @ counter_wire (slotID lr) (hn_obj n)) ns else [])"
  using assms
proof (induction ns arbitrary: g)
  case (Cons n ns)
  obtain g1 where g1: "counter_reply lr (hn_obj n) g = Some (POF_OK, g1)" "chan_ok g1" "same_but_queue g g1"
    "send_queue g1 = (if sending g then send_queue g @ [msg_header POFT_COUNTER_REPLY (g_recv_xid g) 32
         @ counter_wire (slotID lr) (hn_obj n)] else send_queue g)"
    using counter_reply_ok [OF Cons.prems] by blast
  have "sending g1 = sending g" "g_recv_xid g1 = g_recv_xid g"
    using g1(3) by (auto simp: same_but_queue_def sending_def)
  then show ?case using Cons.IH [OF g1(2)] g1 same_but_queue_trans by fastforce
qed simp

text \<open>Replying with all counters queues one reply per counter, in the order of the map.\<close>

lemma poflr_reply_counter_all_ok:
  assumes "counter_ok lr" "counterMap lr = Some m" "chan_ok g"
  shows "\<exists>g'. poflr_reply_counter_all lr g = Some (None, g') \<and> chan_ok g' \<and> same_but_queue g g'
    \<and> send_queue g' = send_queue g @ (if sending g then map (\<lambda>n. msg_header POFT_COUNTER_REPLY (g_recv_xid g) 32
        @ counter_wire (slotID lr) (hn_obj n)) (hmap_nodes m) else [])"
proof -
  have "hmap_ok m" using assms(1,2) by (simp add: res_ok_def tbl_ok_def)
  then show ?thesis
    using counter_reply_all_list [OF assms(3), of lr "hmap_nodes m"]
    unfolding poflr_reply_counter_all_def
    by (subst hmap_struct_traverse_readonly [where m = m]) (simp_all add: assms(2))
qed

section \<open>Set-up and reset\<close>

lemma poflr_init_counter_ok:
  assumes "poflr_init_counter lr g = (POF_OK, lr', g')" "counterNum lr = 0"
  shows "counter_ok lr' \<and> counters lr' = (\<lambda>_. None) \<and> res_ptrs (counterMap lr') = {}"
proof -
  obtain m where m: "hmap_create (counterNumMax lr) g = (Some m, g')" "lr' = lr\<lparr>counterMap := Some m\<rparr>"
    using assms(1) by (auto simp: poflr_init_counter_def err_no_upward_def split: prod.splits option.splits)
  show ?thesis using assms(2) res_create_ok [OF m(1)] by (simp add: m(2))
qed

lemma poflr_empty_counter_ok:
  assumes "counter_ok lr"
  shows "\<exists>lr'. poflr_empty_counter lr = Some (POF_OK, lr') \<and> counter_ok lr' \<and> counters lr' = (\<lambda>_. None)
    \<and> counterNum lr' = 0 \<and> res_ptrs (counterMap lr') = {} \<and> but_counters lr' = but_counters lr"
proof -
  obtain m where "counterMap lr = Some m" using assms by (auto simp: res_ok_def split: option.splits)
  then show ?thesis using ct.delete_all [OF assms] by (auto simp: poflr_empty_counter_def)
qed

end
