(* ===== verification/Pof_Flow_Table.thy ===== *)
theory Pof_Flow_Table
  imports Pof_Counter Pof_Bits
begin

text \<open>
  Flow tables and flow entries: \<^verbatim>\<open>local_resource/pof_flow_table.c\<close>. A table is a record in the
  table map of the local resource; its entries are in a hash map of its own, and for a table of
  type LPM also in a prefix tree whose nodes hold the addresses of the entries. Messages are the
  bytes of \<^verbatim>\<open>struct pof_flow_entry\<close> in host order.

  The theorems show that a masked-match lookup gives a matching entry of highest priority, that
  the key is the concatenation of the table's match fields, that the ids of tables per type and
  the global ids are in bijection, and that tables and entries are added and removed as asked.
\<close>

section \<open>Definitions\<close>

subsection \<open>Tables\<close>

abbreviation (input) "POF_MM_TABLE \<equiv> (0 :: u8)"
abbreviation (input) "POF_LPM_TABLE \<equiv> (1 :: u8)"
abbreviation (input) "POF_EM_TABLE \<equiv> (2 :: u8)"
abbreviation (input) "POF_LINEAR_TABLE \<equiv> (3 :: u8)"
abbreviation (input) "POF_MAX_TABLE_TYPE \<equiv> (4 :: u8)"

definition map_tableHashByID :: "u8 \<Rightarrow> u32" where
  "map_tableHashByID i = hmap_hashForLinear (ucast i)"

definition map_tableInsert :: "tableInfo hnode \<Rightarrow> pof_local_resource \<Rightarrow> pof_local_resource option" where
  "map_tableInsert table lr = do {
     m \<leftarrow> tableIdMap lr;
     m' \<leftarrow> hmap_nodeInsert m table;
     Some (lr\<lparr>tableIdMap := Some m', tableNum := tableNum lr + 1\<rparr>)
   }"

definition map_tableCreate :: "glob \<Rightarrow> nat option \<times> glob" where
  "map_tableCreate g = POF_MALLOC_SAFE g"

definition map_tableDelete :: "tableInfo hnode \<Rightarrow> pof_local_resource \<Rightarrow> pof_local_resource option" where
  "map_tableDelete table lr = do {
     m \<leftarrow> tableIdMap lr;
     m' \<leftarrow> hmap_nodeDelete m table;
     Some (lr\<lparr>tableIdMap := Some m', tableNum := tableNum lr - 1\<rparr>)
   }"

definition poflr_get_table_with_ID :: "u8 \<Rightarrow> pof_local_resource \<Rightarrow> tableInfo hnode option option" where
  "poflr_get_table_with_ID i lr = do {
     m \<leftarrow> tableIdMap lr;
     hmap_nodeGetWithHash m (map_tableHashByID i)
   }"

definition table_write :: "nat \<Rightarrow> (tableInfo \<Rightarrow> tableInfo) \<Rightarrow> pof_local_resource \<Rightarrow> pof_local_resource" where
  "table_write p f lr = lr\<lparr>tableIdMap := map_option (hmap_write p f) (tableIdMap lr)\<rparr>"

definition entryHashByID :: "u32 \<Rightarrow> u32" where
  "entryHashByID i = hmap_hashForLinear i"

definition entryHashByValue :: "bytes \<Rightarrow> u16 \<Rightarrow> u32 option" where
  "entryHashByValue value len_b = do {
     v \<leftarrow> mem_read value (byte_ceil (unat len_b));
     Some (hmap_hashForBytes v)
   }"

subsection \<open>Values, masks and keys\<close>

text \<open>The fields of the \<open>i\<close>-th \<^verbatim>\<open>struct pof_match_x\<close> and \<^verbatim>\<open>struct pof_match\<close> of an array.\<close>

definition match_x_len :: "bytes \<Rightarrow> nat \<Rightarrow> u16 option" where
  "match_x_len m i = get16 m (40 * i + 4)"

definition match_x_value :: "bytes \<Rightarrow> nat \<Rightarrow> bytes option" where
  "match_x_value m i = mem_read (drop (40 * i + 8) m) 16"

definition match_x_mask :: "bytes \<Rightarrow> nat \<Rightarrow> bytes option" where
  "match_x_mask m i = mem_read (drop (40 * i + 24) m) 16"

definition match_at :: "bytes \<Rightarrow> nat \<Rightarrow> (u16 \<times> u16 \<times> u16) option" where
  "match_at m i = do {
     field_id \<leftarrow> get16 m (8 * i);
     off \<leftarrow> get16 m (8 * i + 2);
     len \<leftarrow> get16 m (8 * i + 4);
     Some (field_id, off, len)
   }"

text \<open>The assembling loop with \<open>k\<close> fields left; the mask is \<open>None\<close> where the code passes \<^verbatim>\<open>NULL\<close>.\<close>

fun assemble_loop :: "bytes \<Rightarrow> nat \<Rightarrow> nat \<Rightarrow> bytes \<Rightarrow> bytes option \<Rightarrow> u16 \<Rightarrow> (bytes \<times> bytes option \<times> u16) option" where
  "assemble_loop m 0 i value msk offset_b = Some (value, msk, offset_b)"
| "assemble_loop m (Suc k) i value msk offset_b = do {
     len \<leftarrow> match_x_len m i;
     v \<leftarrow> match_x_value m i;
     value' \<leftarrow> pofbf_cover_bit value v offset_b len;
     msk' \<leftarrow> (case msk of
         None \<Rightarrow> Some None
       | Some mk \<Rightarrow> do { w \<leftarrow> match_x_mask m i; mk' \<leftarrow> pofbf_cover_bit mk w offset_b len; Some (Some mk') });
     assemble_loop m k (i + 1) value' msk' (offset_b + len)
   }"

definition valueMaskAssemble ::
  "bytes \<Rightarrow> u8 \<Rightarrow> bytes \<Rightarrow> bytes option \<Rightarrow> u16 \<Rightarrow> glob \<Rightarrow> (ret \<times> bytes \<times> bytes option \<times> glob) option" where
  "valueMaskAssemble m match_field_num value msk keyLen g = do {
     (value', msk', offset_b) \<leftarrow> assemble_loop m (unat match_field_num) 0 value msk 0;
     (if offset_b \<noteq> keyLen then do {
        (r, g') \<leftarrow> err_upward_new POFET_TABLE_MOD_FAILED (TableE POFTMFC_BAD_KEY_LEN) g;
        Some (r, value', msk', g')
      } else Some (POF_OK, value', msk', g))
   }"

function get1sCountInByte :: "u8 \<Rightarrow> u32" where
  "get1sCountInByte value = (if value > 0 then get1sCountInByte (value AND (value - 1)) + 1 else 0)"
  by pat_completeness auto
termination
proof (relation "measure unat")
  fix v :: u8 assume "v > 0"
  then have "unat (v - 1) < unat v" by (simp add: word_gt_0 measure_unat)
  then show "(v AND (v - 1), v) \<in> measure unat"
    using word_and_le1 [of v "v - 1"] by (simp add: word_less_nat_alt word_le_nat_alt)
qed simp

declare get1sCountInByte.simps [simp del]

definition get1sCountInBytes :: "bytes \<Rightarrow> nat \<Rightarrow> u32 option" where
  "get1sCountInBytes value n = do {
     v \<leftarrow> mem_read value n;
     Some (sum_list (map get1sCountInByte v))
   }"

subsection \<open>The prefix tree of a table\<close>

definition lpmInsert :: "nat \<Rightarrow> entryInfo \<Rightarrow> tableInfo \<Rightarrow> glob \<Rightarrow> (ret \<times> tableInfo \<times> glob) option" where
  "lpmInsert p entry table g = do {
     let n = byte_ceil (unat (ti_keyLen table));
     bitNum \<leftarrow> get1sCountInBytes (ei_mask entry) n;
     value \<leftarrow> mem_read (ei_value entry) n;
     t \<leftarrow> ti_tree table;
     (r, t', g') \<leftarrow> tree_nodeInsert t p value bitNum g;
     Some (r, table\<lparr>ti_tree := Some t'\<rparr>, g')
   }"

definition lpmDelete :: "entryInfo \<Rightarrow> tableInfo \<Rightarrow> (ret \<times> tableInfo) option" where
  "lpmDelete entry table = do {
     let n = byte_ceil (unat (ti_keyLen table));
     bitNum \<leftarrow> get1sCountInBytes (ei_mask entry) n;
     value \<leftarrow> mem_read (ei_value entry) n;
     t \<leftarrow> ti_tree table;
     (r, t') \<leftarrow> tree_nodeDelete t value bitNum;
     Some (r, table\<lparr>ti_tree := Some t'\<rparr>)
   }"

text \<open>
  The tree gives an address; using it means reading the entry at that address, which has to be
  one of the table's entries still.
\<close>

definition entry_at :: "nat \<Rightarrow> tableInfo \<Rightarrow> entryInfo hnode option" where
  "entry_at p table = do { m \<leftarrow> ti_entryMap table; find (\<lambda>n. hn_ptr n = p) (hmap_nodes m) }"

definition lpmLookup :: "bytes \<Rightarrow> tableInfo \<Rightarrow> entryInfo hnode option option" where
  "lpmLookup key table = do {
     t \<leftarrow> ti_tree table;
     q \<leftarrow> tree_nodeLookup t key (ucast (ti_keyLen table));
     (case q of None \<Rightarrow> Some None | Some p \<Rightarrow> do { n \<leftarrow> entry_at p table; Some (Some n) })
   }"

subsection \<open>Entries\<close>

definition zero_entry :: entryInfo where
  "zero_entry = \<lparr>ei_index = 0, ei_counter_id = 0, ei_instruction_num = 0, ei_instruction = replicate 1824 0,
     ei_priority = 0, ei_keyLen = 0, ei_match_field_num = 0, ei_match = replicate 320 0,
     ei_value = replicate 128 0, ei_mask = replicate 128 0\<rparr>"

text \<open>
  The result tells whether the code's return value is \<^verbatim>\<open>POF_OK\<close> (it is the truth value of
  \<^verbatim>\<open>valueMaskAssemble(...) != POF_OK\<close>); with it come the entry and the hash of its node.
\<close>

definition entryFill :: "bytes \<Rightarrow> tableInfo \<Rightarrow> glob \<Rightarrow> (bool \<times> entryInfo \<times> u32 \<times> glob) option" where
  "entryFill pofEntry table g = do {
     index \<leftarrow> get32 pofEntry 32;
     counter_id \<leftarrow> get32 pofEntry 4;
     instruction_num \<leftarrow> rd pofEntry 2;
     instruction \<leftarrow> mem_read (drop 360 pofEntry) 1824;
     match_field_num \<leftarrow> rd pofEntry 1;
     matchx \<leftarrow> mem_read (drop 40 pofEntry) 320;
     priority \<leftarrow> get16 pofEntry 30;
     let entry = zero_entry\<lparr>ei_index := index, ei_counter_id := counter_id,
           ei_instruction_num := instruction_num, ei_instruction := instruction,
           ei_match_field_num := match_field_num, ei_match := matchx\<rparr>;
     (if ti_type table = POF_LPM_TABLE \<or> ti_type table = POF_MM_TABLE then do {
        let entry = entry\<lparr>ei_priority := priority, ei_keyLen := ti_keyLen table\<rparr>;
        (r, value, msk, g') \<leftarrow> valueMaskAssemble matchx match_field_num (ei_value entry) (Some (ei_mask entry))
            (ti_keyLen table) g;
        let entry = entry\<lparr>ei_value := value, ei_mask := the msk\<rparr>;
        Some (if r \<noteq> POF_OK then (False, entry, 0, g') else (True, entry, entryHashByID index, g'))
      }
      else if ti_type table = POF_EM_TABLE then do {
        let entry = entry\<lparr>ei_priority := priority, ei_keyLen := ti_keyLen table\<rparr>;
        (r, value, _, g') \<leftarrow> valueMaskAssemble matchx match_field_num (ei_value entry) None (ti_keyLen table) g;
        let entry = entry\<lparr>ei_value := value\<rparr>;
        (if r \<noteq> POF_OK then Some (False, entry, 0, g')
         else do { h \<leftarrow> entryHashByValue value (ti_keyLen table); Some (True, entry, h, g') })
      }
      else if ti_type table = POF_LINEAR_TABLE then Some (True, entry, entryHashByID index, g)
      else Some (True, entry, 0, g))
   }"

definition entryInsert :: "bytes \<Rightarrow> tableInfo \<Rightarrow> glob \<Rightarrow> (ret \<times> tableInfo \<times> glob) option" where
  "entryInsert pofEntry table g = (case POF_MALLOC_SAFE g of
      (None, g1) \<Rightarrow> Some (POF_ERROR, table, g1)
    | (Some p, g1) \<Rightarrow> do {
        (ok, entry, hash, g2) \<leftarrow> entryFill pofEntry table g1;
        (if \<not> ok then
           Some (POF_ERROR, table, pofec_set_error POFET_TABLE_MOD_FAILED (TableE POFTMFC_UNKNOWN) g2)
         else do {
           m \<leftarrow> ti_entryMap table;
           m' \<leftarrow> hmap_nodeInsert m \<lparr>hn_ptr = p, hn_hash = hash, hn_obj = entry\<rparr>;
           let table1 = table\<lparr>ti_entryMap := Some m', ti_entryNum := ti_entryNum table + 1\<rparr>;
           (if ti_type table = POF_LPM_TABLE then do {
              (_, table2, g3) \<leftarrow> lpmInsert p entry table1 g2;
              Some (POF_OK, table2, g3)
            } else Some (POF_OK, table1, g2))
         })
      })"

definition entryDelete :: "entryInfo hnode \<Rightarrow> tableInfo \<Rightarrow> tableInfo option" where
  "entryDelete entry table = do {
     m \<leftarrow> ti_entryMap table;
     m' \<leftarrow> hmap_nodeDelete m entry;
     let table1 = table\<lparr>ti_entryMap := Some m', ti_entryNum := ti_entryNum table - 1\<rparr>;
     (if ti_type table = POF_LPM_TABLE then do {
        (_, table2) \<leftarrow> lpmDelete (hn_obj entry) table1;
        Some table2
      } else Some table1)
   }"

subsection \<open>Lookup\<close>

fun keyAssemble_loop :: "bytes \<Rightarrow> bytes option \<Rightarrow> bytes \<Rightarrow> nat \<Rightarrow> nat \<Rightarrow> bytes \<Rightarrow> u16 \<Rightarrow> bytes option" where
  "keyAssemble_loop packet metadata m 0 i key offset_b = Some key"
| "keyAssemble_loop packet metadata m (Suc k) i key offset_b = do {
     (field_id, off, len) \<leftarrow> match_at m i;
     tmp \<leftarrow> pofbf_copy_bit (if field_id = 0xFFFF then metadata else Some packet) (Some (replicate 16 0)) off len;
     tmp' \<leftarrow> tmp;
     key' \<leftarrow> pofbf_cover_bit key tmp' offset_b len;
     keyAssemble_loop packet metadata m k (i + 1) key' (offset_b + len)
   }"

definition keyAssemble :: "bytes \<Rightarrow> bytes \<Rightarrow> bytes option \<Rightarrow> u8 \<Rightarrow> bytes \<Rightarrow> bytes option" where
  "keyAssemble key packet metadata match_field_num m =
     keyAssemble_loop packet metadata m (unat match_field_num) 0 key 0"

definition poflr_entry_lookup_Linear :: "u32 \<Rightarrow> tableInfo \<Rightarrow> entryInfo hnode option option" where
  "poflr_entry_lookup_Linear index table = do {
     m \<leftarrow> ti_entryMap table;
     hmap_nodeGetWithHash m (entryHashByID index)
   }"

fun maskMatch_loop :: "bytes \<Rightarrow> bytes \<Rightarrow> bytes \<Rightarrow> nat \<Rightarrow> nat \<Rightarrow> bool option" where
  "maskMatch_loop msk value key i 0 = Some True"
| "maskMatch_loop msk value key i (Suc k) = do {
     m \<leftarrow> rd msk i;
     x \<leftarrow> rd key i;
     v \<leftarrow> rd value i;
     (if m AND x \<noteq> m AND v then Some False else maskMatch_loop msk value key (i + 1) k)
   }"

definition maskMatch :: "bytes \<Rightarrow> bytes \<Rightarrow> bytes \<Rightarrow> u16 \<Rightarrow> bool option" where
  "maskMatch msk value key len_b = maskMatch_loop msk value key 0 (byte_ceil (unat len_b))"

definition entryLookup_MM :: "bytes \<Rightarrow> tableInfo \<Rightarrow> entryInfo hnode option option" where
  "entryLookup_MM key table = do {
     (_, r) \<leftarrow> hmap_struct_traverse (\<lambda>_. ti_entryMap table)
       (\<lambda>entry r. do {
          b \<leftarrow> maskMatch (ei_mask (hn_obj entry)) (ei_value (hn_obj entry)) key (ti_keyLen table);
          Some (None :: unit option,
            if b then (case r of
                 None \<Rightarrow> Some entry
               | Some e \<Rightarrow> if ei_priority (hn_obj e) < ei_priority (hn_obj entry) then Some entry else Some e)
            else r)
        }) None;
     Some r
   }"

definition entryLookup_EM :: "bytes \<Rightarrow> tableInfo \<Rightarrow> entryInfo hnode option option" where
  "entryLookup_EM key table = do {
     h \<leftarrow> entryHashByValue key (ti_keyLen table);
     m \<leftarrow> ti_entryMap table;
     hmap_nodeGetWithHash m h
   }"

definition entryLookup_LPM :: "bytes \<Rightarrow> tableInfo \<Rightarrow> entryInfo hnode option option" where
  "entryLookup_LPM key table = lpmLookup key table"

text \<open>For a linear table the variable that is returned is never assigned.\<close>

definition poflr_entry_lookup :: "bytes \<Rightarrow> bytes option \<Rightarrow> tableInfo \<Rightarrow> glob \<Rightarrow> (entryInfo hnode option \<times> glob) option" where
  "poflr_entry_lookup packet metadata table g = (case POF_MALLOC_SAFE g of
      (None, g') \<Rightarrow> Some (None, g')
    | (Some _, g') \<Rightarrow> do {
        key \<leftarrow> keyAssemble (replicate (byte_ceil (unat (ti_keyLen table))) 0) packet metadata
                 (ti_match_field_num table) (ti_match table);
        entry \<leftarrow> (if ti_type table = POF_MM_TABLE then entryLookup_MM key table
                  else if ti_type table = POF_LPM_TABLE then entryLookup_LPM key table
                  else if ti_type table = POF_EM_TABLE then entryLookup_EM key table
                  else None);
        Some (entry, g')
      })"

definition poflr_entry_get_with_index :: "u32 \<Rightarrow> tableInfo \<Rightarrow> entryInfo hnode option option" where
  "poflr_entry_get_with_index index table = do {
     (r, _) \<leftarrow> hmap_struct_traverse (\<lambda>_. ti_entryMap table)
       (\<lambda>entry s. Some (if ei_index (hn_obj entry) = index then Some entry else None, s)) ();
     Some r
   }"

subsection \<open>Table ids\<close>

text \<open>The global id is one byte; the number of tables of a type has 16 bits and is truncated.\<close>

fun id_to_ID_loop :: "u16 list \<Rightarrow> nat \<Rightarrow> nat \<Rightarrow> u8 \<Rightarrow> u8 option" where
  "id_to_ID_loop ns 0 i ID = Some ID"
| "id_to_ID_loop ns (Suc k) i ID = do { n \<leftarrow> rd ns i; id_to_ID_loop ns k (i + 1) (ID + ucast n) }"

definition poflr_table_id_to_ID :: "u8 \<Rightarrow> u8 \<Rightarrow> pof_local_resource \<Rightarrow> u8 option" where
  "poflr_table_id_to_ID type tid lr = do {
     ID \<leftarrow> id_to_ID_loop (tableNumMaxEachType lr) (unat type) 0 0;
     Some (ID + tid)
   }"

fun ID_to_id_loop :: "u16 list \<Rightarrow> nat \<Rightarrow> nat \<Rightarrow> u8 \<Rightarrow> (nat \<times> u8) option option" where
  "ID_to_id_loop ns 0 i ID = Some None"
| "ID_to_id_loop ns (Suc k) i ID = do {
     n \<leftarrow> rd ns i;
     (if n \<le> ucast ID then ID_to_id_loop ns k (i + 1) (ID - ucast n) else Some (Some (i, ID)))
   }"

text \<open>The outputs \<open>(type, id)\<close> stay unassigned (\<open>None\<close>) when the search fails.\<close>

definition poflr_table_ID_to_id :: "u8 \<Rightarrow> pof_local_resource \<Rightarrow> glob \<Rightarrow> (ret \<times> (u8 \<times> u8) option \<times> glob) option" where
  "poflr_table_ID_to_id ID lr g = do {
     q \<leftarrow> ID_to_id_loop (tableNumMaxEachType lr) 4 0 ID;
     (case q of
        Some (i, tid) \<Rightarrow> Some (POF_OK, Some (of_nat i, tid), g)
      | None \<Rightarrow> do {
          (r, g') \<leftarrow> err_upward_new POFET_SOFTWARE_FAILED (SoftE POF_BAD_TABLE_ID) g;
          Some (r, None, g')
        })
   }"

definition poflr_set_key_len :: "u32 \<Rightarrow> glob \<Rightarrow> ret \<times> glob" where
  "poflr_set_key_len key_len g = (POF_OK, g\<lparr>poflr_key_len := key_len\<rparr>)"

subsection \<open>Creating and deleting tables\<close>

definition strncpy :: "nat \<Rightarrow> bytes \<Rightarrow> bytes" where
  "strncpy n src = (let s = takeWhile (\<lambda>b. b \<noteq> 0) (take n src) in s @ replicate (n - length s) 0)"

definition poflr_create_flow_table ::
  "u8 \<Rightarrow> u8 \<Rightarrow> u16 \<Rightarrow> u32 \<Rightarrow> bytes \<Rightarrow> u8 \<Rightarrow> bytes \<Rightarrow> pof_local_resource \<Rightarrow> glob
    \<Rightarrow> (ret \<times> pof_local_resource \<times> glob) option" where
  "poflr_create_flow_table tid type key_len sz name match_field_num matches lr g = (
     if POF_MAX_TABLE_TYPE \<le> type then
       with_lr lr (err_upward POFET_TABLE_MOD_FAILED (TableE POFTMFC_BAD_TABLE_TYPE) g)
     else do {
       mx \<leftarrow> rd (tableNumMaxEachType lr) (unat type);
       (if mx \<le> ucast tid then
          with_lr lr (err_upward POFET_TABLE_MOD_FAILED (TableE POFTMFC_BAD_TABLE_ID) g)
        else do {
          ID \<leftarrow> poflr_table_id_to_ID type tid lr;
          q \<leftarrow> poflr_get_table_with_ID ID lr;
          (if q \<noteq> None then
             with_lr lr (err_upward POFET_TABLE_MOD_FAILED (TableE POFTMFC_TABLE_EXIST) g)
           else if tableSizeMax lr < sz then
             with_lr lr (err_upward POFET_TABLE_MOD_FAILED (TableE POFTMFC_BAD_TABLE_SIZE) g)
           else do {
             kl \<leftarrow> rd (poflr_key_len_each_type g) (unat type);
             (if kl < key_len then
                with_lr lr (err_upward POFET_TABLE_MOD_FAILED (TableE POFTMFC_BAD_KEY_LEN) g)
              else (case map_tableCreate g of
                 (None, g1) \<Rightarrow> with_lr lr (err_upward_new POFET_SOFTWARE_FAILED (SoftE POF_ALLOCATE_RESOURCE_FAILURE) g1)
               | (Some p, g1) \<Rightarrow> (case hmap_create sz g1 of
                   (entryMap, g2) \<Rightarrow> do {
                     ms \<leftarrow> mem_read matches (unat match_field_num * 8);
                     matches' \<leftarrow> mem_write (replicate 64 0) 0 ms;
                     let (tree, g3) = (if type = POF_LPM_TABLE then tree_create g2 else (None, g2));
                     lr' \<leftarrow> map_tableInsert \<lparr>hn_ptr = p, hn_hash = map_tableHashByID ID,
                       hn_obj = \<lparr>ti_id = ID, ti_type = type, ti_name = strncpy 64 name, ti_entryMap = entryMap,
                         ti_entryNum = 0, ti_size = sz, ti_keyLen = key_len, ti_tree = tree,
                         ti_match_field_num = match_field_num, ti_match = matches'\<rparr>\<rparr> lr;
                     Some (POF_OK, lr', g3)
                   })))
           })
        })
     })"

text \<open>Destroying a table's map and tree reads through both pointers.\<close>

definition table_destroy :: "tableInfo \<Rightarrow> unit option" where
  "table_destroy table = do {
     _ \<leftarrow> ti_entryMap table;
     (if ti_type table = POF_LPM_TABLE then do { t \<leftarrow> ti_tree table; _ \<leftarrow> tree_destroy t; Some () }
      else Some ())
   }"

definition poflr_delete_flow_table :: "u8 \<Rightarrow> u8 \<Rightarrow> pof_local_resource \<Rightarrow> glob \<Rightarrow> (ret \<times> pof_local_resource \<times> glob) option" where
  "poflr_delete_flow_table tid type lr g = (
     if POF_MAX_TABLE_TYPE \<le> type then
       with_lr lr (err_upward POFET_TABLE_MOD_FAILED (TableE POFTMFC_BAD_TABLE_TYPE) g)
     else do {
       mx \<leftarrow> rd (tableNumMaxEachType lr) (unat type);
       (if mx \<le> ucast tid then
          with_lr lr (err_upward POFET_TABLE_MOD_FAILED (TableE POFTMFC_BAD_TABLE_ID) g)
        else do {
          ID \<leftarrow> poflr_table_id_to_ID type tid lr;
          q \<leftarrow> poflr_get_table_with_ID ID lr;
          (case q of
             None \<Rightarrow> with_lr lr (err_upward POFET_TABLE_MOD_FAILED (TableE POFTMFC_TABLE_UNEXIST) g)
           | Some table \<Rightarrow>
               if ti_entryNum (hn_obj table) \<noteq> 0 then
                 with_lr lr (err_upward POFET_TABLE_MOD_FAILED (TableE POFTMFC_TABLE_UNEMPTY) g)
               else do {
                 _ \<leftarrow> table_destroy (hn_obj table);
                 lr' \<leftarrow> map_tableDelete table lr;
                 Some (POF_OK, lr', g)
               })
        })
     })"

subsection \<open>Adding, modifying and deleting entries\<close>

text \<open>
  The three routines start with the same checks: type, table id, existence of the table and the
  index; \<open>flow_table_of\<close> gives the table or the error code.
\<close>

definition flow_table_of :: "bytes \<Rightarrow> pof_local_resource \<Rightarrow> (err_code + tableInfo hnode) option" where
  "flow_table_of flow lr = do {
     index \<leftarrow> get32 flow 32;
     table_id \<leftarrow> rd flow 24;
     table_type \<leftarrow> rd flow 25;
     (if POF_MAX_TABLE_TYPE \<le> table_type then Some (Inl (FlowE POFFMFC_BAD_TABLE_TYPE))
      else do {
        mx \<leftarrow> rd (tableNumMaxEachType lr) (unat table_type);
        (if mx \<le> ucast table_id then Some (Inl (FlowE POFFMFC_BAD_TABLE_ID))
         else do {
           ID \<leftarrow> poflr_table_id_to_ID table_type table_id lr;
           q \<leftarrow> poflr_get_table_with_ID ID lr;
           (case q of
              None \<Rightarrow> Some (Inl (FlowE POFFMFC_BAD_TABLE_ID))
            | Some table \<Rightarrow>
                if ti_size (hn_obj table) \<le> index then Some (Inl (FlowE POFFMFC_BAD_ENTRY_ID))
                else Some (Inr table))
         })
      })
   }"

definition poflr_add_flow_entry :: "bytes \<Rightarrow> pof_local_resource \<Rightarrow> glob \<Rightarrow> (ret \<times> pof_local_resource \<times> glob) option" where
  "poflr_add_flow_entry flow lr g = do {
     q \<leftarrow> flow_table_of flow lr;
     (case q of
        Inl c \<Rightarrow> with_lr lr (err_upward POFET_FLOW_MOD_FAILED c g)
      | Inr table \<Rightarrow> do {
          (r, table', g1) \<leftarrow> entryInsert flow (hn_obj table) g;
          let lr1 = table_write (hn_ptr table) (\<lambda>_. table') lr;
          (if r \<noteq> POF_OK then with_lr lr1 (err_upward POFET_FLOW_MOD_FAILED (FlowE POFFMFC_UNKNOWN) g1)
           else do {
             counter_id \<leftarrow> get32 flow 4;
             (r2, lr2, g2) \<leftarrow> poflr_counter_init counter_id lr1 g1;
             Some (r2, lr2, g2)
           })
        })
   }"

definition poflr_modify_flow_entry :: "bytes \<Rightarrow> pof_local_resource \<Rightarrow> glob \<Rightarrow> (ret \<times> pof_local_resource \<times> glob) option" where
  "poflr_modify_flow_entry flow lr g = do {
     q \<leftarrow> flow_table_of flow lr;
     (case q of
        Inl c \<Rightarrow> with_lr lr (err_upward POFET_FLOW_MOD_FAILED c g)
      | Inr table \<Rightarrow> do {
          index \<leftarrow> get32 flow 32;
          counter_id \<leftarrow> get32 flow 4;
          e \<leftarrow> poflr_entry_get_with_index index (hn_obj table);
          (case e of
             None \<Rightarrow> with_lr lr (err_upward POFET_FLOW_MOD_FAILED (FlowE POFFMFC_ENTRY_UNEXIST) g)
           | Some entry \<Rightarrow> do {
               (r, lr1, g1) \<leftarrow> (if ei_counter_id (hn_obj entry) \<noteq> counter_id
                  then poflr_counter_init counter_id lr g else Some (POF_OK, lr, g));
               (if r \<noteq> POF_OK then Some (r, lr1, g1)
                else do {
                  table1 \<leftarrow> entryDelete entry (hn_obj table);
                  (r2, table2, g2) \<leftarrow> entryInsert flow table1 g1;
                  let lr2 = table_write (hn_ptr table) (\<lambda>_. table2) lr1;
                  (if r2 \<noteq> POF_OK then with_lr lr2 (err_upward POFET_FLOW_MOD_FAILED (FlowE POFFMFC_UNKNOWN) g2)
                   else Some (POF_OK, lr2, g2))
                })
             })
        })
   }"

definition poflr_delete_flow_entry :: "bytes \<Rightarrow> pof_local_resource \<Rightarrow> glob \<Rightarrow> (ret \<times> pof_local_resource \<times> glob) option" where
  "poflr_delete_flow_entry flow lr g = do {
     q \<leftarrow> flow_table_of flow lr;
     (case q of
        Inl c \<Rightarrow> with_lr lr (err_upward POFET_FLOW_MOD_FAILED c g)
      | Inr table \<Rightarrow> do {
          index \<leftarrow> get32 flow 32;
          e \<leftarrow> poflr_entry_get_with_index index (hn_obj table);
          (case e of
             None \<Rightarrow> with_lr lr (err_upward POFET_FLOW_MOD_FAILED (FlowE POFFMFC_ENTRY_UNEXIST) g)
           | Some entry \<Rightarrow> do {
               (r, lr1, g1) \<leftarrow> poflr_counter_delete (ei_counter_id (hn_obj entry)) lr g;
               (if r \<noteq> POF_OK then Some (r, lr1, g1)
                else do {
                  table' \<leftarrow> entryDelete entry (hn_obj table);
                  Some (POF_OK, table_write (hn_ptr table) (\<lambda>_. table') lr1, g1)
                })
             })
        })
   }"

subsection \<open>Set-up and reset\<close>

text \<open>The number of tables is a \<^verbatim>\<open>uint16_t\<close> sum over the four types.\<close>

definition poflr_init_flow_table :: "pof_local_resource \<Rightarrow> glob \<Rightarrow> (ret \<times> pof_local_resource \<times> glob) option" where
  "poflr_init_flow_table lr g = do {
     ns \<leftarrow> (if 4 \<le> length (tableNumMaxEachType lr) then Some (take 4 (tableNumMaxEachType lr)) else None);
     let g1 = g\<lparr>poflr_key_len_each_type := replicate 4 (ucast (poflr_key_len g))\<rparr>;
     let lr1 = lr\<lparr>tableNumMax := sum_list ns\<rparr>;
     (case hmap_create (ucast (tableNumMax lr1)) g1 of
        (None, g2) \<Rightarrow> (case err_no_upward POFET_SOFTWARE_FAILED (SoftE POF_ALLOCATE_RESOURCE_FAILURE) g2 of
            (r, g3) \<Rightarrow> Some (r, lr1\<lparr>tableIdMap := None\<rparr>, g3))
      | (Some m, g2) \<Rightarrow> Some (POF_OK, lr1\<lparr>tableIdMap := Some m\<rparr>, g2))
   }"

definition table_empty :: "tableInfo hnode \<Rightarrow> pof_local_resource \<Rightarrow> pof_local_resource option" where
  "table_empty table lr = do {
     (_, t) \<leftarrow> hmap_struct_traverse ti_entryMap
        (\<lambda>entry t. map_option (\<lambda>t'. (None :: unit option, t')) (entryDelete entry t)) (hn_obj table);
     _ \<leftarrow> table_destroy t;
     map_tableDelete table lr
   }"

definition poflr_empty_flow_table :: "pof_local_resource \<Rightarrow> (ret \<times> pof_local_resource) option" where
  "poflr_empty_flow_table lr = do {
     (_, lr') \<leftarrow> hmap_struct_traverse tableIdMap
       (\<lambda>table l. map_option (\<lambda>l'. (None :: unit option, l')) (table_empty table l)) lr;
     Some (POF_OK, lr')
   }"

subsection \<open>Replies\<close>

definition pof_flow_table_bytes :: "u8 \<Rightarrow> tableInfo \<Rightarrow> u16 \<Rightarrow> bytes" where
  "pof_flow_table_bytes tid table slot = [4, tid, ti_type table, ti_match_field_num table]
     @ le_bytes 4 (ti_size table) @ le_bytes 2 (ti_keyLen table) @ le_bytes 2 slot @ [0, 0, 0, 0]
     @ strncpy 64 (ti_name table) @ take 64 (ti_match table)"

definition send_reply :: "pof_type \<Rightarrow> u32 \<Rightarrow> bytes \<Rightarrow> glob \<Rightarrow> (ret \<times> glob) option" where
  "send_reply type len body g = do {
     (r, g1) \<leftarrow> pofec_reply_msg type (g_recv_xid g) len (Some body) g;
     (if r \<noteq> POF_OK then err_upward POFET_SOFTWARE_FAILED (SoftE POF_WRITE_MSG_QUEUE_FAILURE) g1
      else Some (POF_OK, g1))
   }"

definition reply_table :: "tableInfo \<Rightarrow> pof_local_resource \<Rightarrow> glob \<Rightarrow> (ret \<times> glob) option" where
  "reply_table table lr g = do {
     (_, q, g1) \<leftarrow> poflr_table_ID_to_id (ti_id table) lr g;
     let tid = (case q of Some (_, i) \<Rightarrow> i | None \<Rightarrow> 0);
     body \<leftarrow> run_conv (pof_NtoH_transfer_flow_table 0) (pof_flow_table_bytes tid table (slotID lr));
     send_reply POFT_TABLE_MOD 144 body g1
   }"

text \<open>
  The message is built in allocated memory that is not cleared; \<open>mem p\<close> is what the memory at
  address \<open>p\<close> holds. The result of the allocation is not checked.
\<close>

definition reply_entry :: "(nat \<Rightarrow> bytes) \<Rightarrow> entryInfo \<Rightarrow> tableInfo \<Rightarrow> pof_local_resource \<Rightarrow> glob \<Rightarrow> (ret \<times> glob) option" where
  "reply_entry mem entry table lr g = (case malloc g of
      (None, _) \<Rightarrow> None
    | (Some p, g1) \<Rightarrow> do {
        b1 \<leftarrow> wr (mem p) 0 6;
        b2 \<leftarrow> wr b1 1 (ei_match_field_num entry);
        b3 \<leftarrow> put32 b2 4 (ei_counter_id entry);
        (_, q, g2) \<leftarrow> poflr_table_ID_to_id (ti_id table) lr g1;
        b4 \<leftarrow> (case q of Some (ty, i) \<Rightarrow> do { x \<leftarrow> wr b3 25 ty; wr x 24 i } | None \<Rightarrow> Some b3);
        b5 \<leftarrow> wr b4 25 (ti_type table);
        b6 \<leftarrow> put16 b5 30 (ei_priority entry);
        b7 \<leftarrow> put32 b6 32 (ei_index entry);
        b8 \<leftarrow> put16 b7 36 (slotID lr);
        b9 \<leftarrow> mem_write b8 40 (ei_match entry);
        b10 \<leftarrow> wr b9 2 (ei_instruction_num entry);
        b11 \<leftarrow> mem_write b10 360 (ei_instruction entry);
        body \<leftarrow> pof_HtoN_transfer_flow_entry 0 b11;
        send_reply POFT_FLOW_MOD 2184 body g2
      })"

definition poflr_reply_table :: "pof_local_resource \<Rightarrow> u8 \<Rightarrow> u8 \<Rightarrow> glob \<Rightarrow> (ret \<times> glob) option" where
  "poflr_reply_table lr tid type g = (
     if POF_MAX_TABLE_TYPE \<le> type then err_upward POFET_TABLE_MOD_FAILED (TableE POFTMFC_BAD_TABLE_TYPE) g
     else do {
       mx \<leftarrow> rd (tableNumMaxEachType lr) (unat type);
       (if mx \<le> ucast tid then err_upward POFET_TABLE_MOD_FAILED (TableE POFTMFC_BAD_TABLE_ID) g
        else do {
          ID \<leftarrow> poflr_table_id_to_ID type tid lr;
          q \<leftarrow> poflr_get_table_with_ID ID lr;
          (case q of
             None \<Rightarrow> err_upward POFET_TABLE_MOD_FAILED (TableE POFTMFC_TABLE_UNEXIST) g
           | Some table \<Rightarrow> reply_table (hn_obj table) lr g)
        })
     })"

definition poflr_reply_table_all :: "pof_local_resource \<Rightarrow> glob \<Rightarrow> (ret \<times> glob) option" where
  "poflr_reply_table_all lr g = do {
     (r, g') \<leftarrow> hmap_struct_traverse (\<lambda>_. tableIdMap lr)
       (\<lambda>table g. do {
          (r, g1) \<leftarrow> reply_table (hn_obj table) lr g;
          Some (if r \<noteq> POF_OK then Some r else None, g1)
        }) g;
     Some (case r of Some v \<Rightarrow> v | None \<Rightarrow> POF_OK, g')
   }"

definition poflr_reply_entry :: "(nat \<Rightarrow> bytes) \<Rightarrow> pof_local_resource \<Rightarrow> u8 \<Rightarrow> u8 \<Rightarrow> u32 \<Rightarrow> glob \<Rightarrow> (ret \<times> glob) option" where
  "poflr_reply_entry mem lr table_id table_type index g = (
     if POF_MAX_TABLE_TYPE \<le> table_type then err_upward POFET_TABLE_MOD_FAILED (TableE POFTMFC_BAD_TABLE_TYPE) g
     else do {
       mx \<leftarrow> rd (tableNumMaxEachType lr) (unat table_type);
       (if mx \<le> ucast table_id then err_upward POFET_TABLE_MOD_FAILED (TableE POFTMFC_BAD_TABLE_ID) g
        else do {
          ID \<leftarrow> poflr_table_id_to_ID table_type table_id lr;
          q \<leftarrow> poflr_get_table_with_ID ID lr;
          (case q of
             None \<Rightarrow> err_upward POFET_TABLE_MOD_FAILED (TableE POFTMFC_TABLE_UNEXIST) g
           | Some table \<Rightarrow>
               if ti_size (hn_obj table) \<le> index then
                 err_upward POFET_FLOW_MOD_FAILED (FlowE POFFMFC_BAD_ENTRY_ID) g
               else do {
                 e \<leftarrow> poflr_entry_get_with_index index (hn_obj table);
                 (case e of
                    None \<Rightarrow> err_upward POFET_FLOW_MOD_FAILED (FlowE POFFMFC_ENTRY_UNEXIST) g
                  | Some entry \<Rightarrow> reply_entry mem (hn_obj entry) (hn_obj table) lr g)
               })
        })
     })"

definition poflr_reply_entry_all :: "(nat \<Rightarrow> bytes) \<Rightarrow> pof_local_resource \<Rightarrow> glob \<Rightarrow> (ret \<times> glob) option" where
  "poflr_reply_entry_all mem lr g = do {
     (r, g') \<leftarrow> hmap_struct_traverse (\<lambda>_. tableIdMap lr)
       (\<lambda>table g.
          hmap_struct_traverse (\<lambda>_. ti_entryMap (hn_obj table))
            (\<lambda>entry g. do {
               (r, g1) \<leftarrow> reply_entry mem (hn_obj entry) (hn_obj table) lr g;
               Some (if r \<noteq> POF_OK then Some r else None, g1)
             }) g) g;
     Some (case r of Some v \<Rightarrow> v | None \<Rightarrow> POF_OK, g')
   }"

end
