(* ===== verification/Pof_Flow_Lookup.thy ===== *)
theory Pof_Flow_Lookup
  imports Pof_Flow_Table
begin

text \<open>
  Looking up packets in flow tables: what the lookup routines of \<^verbatim>\<open>local_resource/pof_flow_table.c\<close>
  compute. The key of a packet is the concatenation of the bits of the match fields; a masked-match
  lookup gives the first entry of highest priority among those whose value agrees with the key
  under the mask; a prefix lookup gives the entry with the longest prefix.
\<close>

section \<open>Masked match\<close>

text \<open>The key agrees with the value at every bit of the mask.\<close>

definition field_match :: "bytes \<Rightarrow> bytes \<Rightarrow> bytes \<Rightarrow> nat \<Rightarrow> bool" where
  "field_match mk value key n \<longleftrightarrow> (\<forall>i < 8 * n. bit_at mk i \<longrightarrow> bit_at key i = bit_at value i)"

lemma and_eq_iff: "(m AND x = m AND v) \<longleftrightarrow> (\<forall>j < 8. bit m j \<longrightarrow> bit x j = bit v j)" for m x v :: u8
  by (auto simp: bit_eq_iff bit_simps)

lemma maskMatch_loop_spec:
  "i + k \<le> length mk \<Longrightarrow> i + k \<le> length value \<Longrightarrow> i + k \<le> length key \<Longrightarrow>
   maskMatch_loop mk value key i k = Some (\<forall>j. i \<le> j \<and> j < i + k \<longrightarrow> mk ! j AND key ! j = mk ! j AND value ! j)"
proof (induction k arbitrary: i)
  case (Suc k)
  have IH: "maskMatch_loop mk value key (i + 1) k =
      Some (\<forall>j. i + 1 \<le> j \<and> j < i + 1 + k \<longrightarrow> mk ! j AND key ! j = mk ! j AND value ! j)"
    using Suc.prems by (intro Suc.IH) simp_all
  have split: "(\<forall>j. i \<le> j \<and> j < i + Suc k \<longrightarrow> P j) \<longleftrightarrow> P i \<and> (\<forall>j. i + 1 \<le> j \<and> j < i + 1 + k \<longrightarrow> P j)" for P
  proof -
    have eq: "i \<le> j \<and> j < i + Suc k \<longleftrightarrow> j = i \<or> (i + 1 \<le> j \<and> j < i + 1 + k)" for j by auto
    show ?thesis unfolding eq by auto
  qed
  show ?case
    using Suc.prems IH unfolding split [of "\<lambda>j. mk ! j AND key ! j = mk ! j AND value ! j"]
    by (simp add: rd_Some)
qed auto

lemma maskMatch_spec:
  assumes "byte_ceil (unat len_b) \<le> length mk" "byte_ceil (unat len_b) \<le> length value" "byte_ceil (unat len_b) \<le> length key"
  shows "maskMatch mk value key len_b = Some (field_match mk value key (byte_ceil (unat len_b)))"
proof -
  let ?n = "byte_ceil (unat len_b)"
  have "(\<forall>j < ?n. mk ! j AND key ! j = mk ! j AND value ! j) \<longleftrightarrow> field_match mk value key ?n"
  proof
    assume *: "\<forall>j < ?n. mk ! j AND key ! j = mk ! j AND value ! j"
    show "field_match mk value key ?n"
      unfolding field_match_def
    proof (intro allI impI)
      fix i assume i: "i < 8 * ?n" "bit_at mk i"
      then have "i div 8 < ?n" by linarith
      with * have "mk ! (i div 8) AND key ! (i div 8) = mk ! (i div 8) AND value ! (i div 8)" by blast
      then show "bit_at key i = bit_at value i" using i(2) unfolding and_eq_iff bit_at_def by simp
    qed
  next
    assume *: "field_match mk value key ?n"
    show "\<forall>j < ?n. mk ! j AND key ! j = mk ! j AND value ! j"
      unfolding and_eq_iff
    proof (intro allI impI)
      fix j b assume jb: "j < ?n" "b < 8" "bit (mk ! j) b"
      have b: "7 - (7 - b) = b" using jb(2) by simp
      have at: "bit_at xs (8 * j + (7 - b)) = bit (xs ! j) b" for xs
        using bit_at_byte [of "7 - b" xs j] by (simp add: b)
      have "8 * j + (7 - b) < 8 * ?n" using jb(1) by linarith
      then show "bit (key ! j) b = bit (value ! j) b"
        using * jb(3) unfolding field_match_def at [symmetric] by blast
    qed
  qed
  then show ?thesis
    unfolding maskMatch_def using maskMatch_loop_spec [of 0 ?n mk "value" key] assms by simp
qed

abbreviation key_bytes :: "tableInfo \<Rightarrow> nat" where
  "key_bytes table \<equiv> byte_ceil (unat (ti_keyLen table))"

definition entry_match :: "tableInfo \<Rightarrow> bytes \<Rightarrow> entryInfo hnode \<Rightarrow> bool" where
  "entry_match table key n = field_match (ei_mask (hn_obj n)) (ei_value (hn_obj n)) key (key_bytes table)"

abbreviation prio :: "entryInfo hnode \<Rightarrow> u16" where
  "prio n \<equiv> ei_priority (hn_obj n)"

text \<open>The arrays of the entries are as long as the table's key.\<close>

definition entries_wide :: "tableInfo \<Rightarrow> entryInfo hnode list \<Rightarrow> bool" where
  "entries_wide table ns \<longleftrightarrow> (\<forall>n \<in> set ns. key_bytes table \<le> length (ei_value (hn_obj n))
     \<and> key_bytes table \<le> length (ei_mask (hn_obj n)))"

text \<open>The competition of the traversal, on the list of nodes.\<close>

fun best :: "(entryInfo hnode \<Rightarrow> bool) \<Rightarrow> entryInfo hnode list \<Rightarrow> entryInfo hnode option \<Rightarrow> entryInfo hnode option" where
  "best P [] r = r"
| "best P (n # ns) r = best P ns (if P n then (case r of None \<Rightarrow> Some n | Some e \<Rightarrow> if prio e < prio n then Some n else Some e) else r)"

lemma best_spec_Some:
  "best P ns (Some e) = Some e' \<Longrightarrow>
     (e' = e \<and> (\<forall>n \<in> set ns. P n \<longrightarrow> prio n \<le> prio e))
   \<or> (\<exists>xs ys. ns = xs @ e' # ys \<and> P e' \<and> prio e < prio e' \<and> (\<forall>x \<in> set xs. P x \<longrightarrow> prio x < prio e')
        \<and> (\<forall>y \<in> set ys. P y \<longrightarrow> prio y \<le> prio e'))"
proof (induction ns arbitrary: e)
  case (Cons n ns)
  let ?r = "if P n \<and> prio e < prio n then n else e"
  have "best P ns (Some ?r) = Some e'" using Cons.prems by (simp split: if_splits)
  from Cons.IH [OF this] show ?case
  proof (elim disjE exE conjE)
    assume e': "e' = ?r" and le: "\<forall>m \<in> set ns. P m \<longrightarrow> prio m \<le> prio ?r"
    show ?thesis
    proof (cases "P n \<and> prio e < prio n")
      case True
      then have "n # ns = [] @ e' # ns \<and> P e' \<and> prio e < prio e' \<and> (\<forall>y \<in> set ns. P y \<longrightarrow> prio y \<le> prio e')"
        using e' le by simp
      then show ?thesis by (intro disjI2 exI [of _ "[]"] exI [of _ ns]) simp
    qed (use e' le in auto)
  next
    fix xs ys assume h: "ns = xs @ e' # ys" "P e'" "prio ?r < prio e'" "\<forall>x \<in> set xs. P x \<longrightarrow> prio x < prio e'"
      "\<forall>y \<in> set ys. P y \<longrightarrow> prio y \<le> prio e'"
    have "prio e < prio e'" "P n \<longrightarrow> prio n < prio e'" using h(3) by (auto split: if_splits)
    then show ?thesis using h by (intro disjI2 exI [of _ "n # xs"] exI [of _ ys]) simp
  qed
qed simp

lemma best_None_iff: "best P ns None = None \<longleftrightarrow> (\<forall>n \<in> set ns. \<not> P n)"
proof -
  have some: "best P ns (Some e) \<noteq> None" for ns e
    by (induction ns arbitrary: e) (auto split: if_splits)
  show ?thesis by (induction ns) (auto simp: some)
qed

lemma best_Some_iff:
  assumes "best P ns None = Some e"
  shows "\<exists>xs ys. ns = xs @ e # ys \<and> P e \<and> (\<forall>x \<in> set xs. P x \<longrightarrow> prio x < prio e)
     \<and> (\<forall>y \<in> set ys. P y \<longrightarrow> prio y \<le> prio e)"
  using assms
proof (induction ns)
  case (Cons n ns)
  show ?case
  proof (cases "P n")
    case False
    then obtain xs ys where "ns = xs @ e # ys" "P e" "\<forall>x \<in> set xs. P x \<longrightarrow> prio x < prio e"
      "\<forall>y \<in> set ys. P y \<longrightarrow> prio y \<le> prio e" using Cons by auto
    then show ?thesis using False by (intro exI [of _ "n # xs"] exI [of _ ys]) simp
  next
    case True
    then have "best P ns (Some n) = Some e" using Cons.prems by simp
    from best_spec_Some [OF this] show ?thesis
    proof (elim disjE exE conjE)
      assume "e = n" "\<forall>m \<in> set ns. P m \<longrightarrow> prio m \<le> prio n"
      then show ?thesis using True by (intro exI [of _ "[]"] exI [of _ ns]) simp
    next
      fix xs ys assume "ns = xs @ e # ys" "P e" "prio n < prio e" "\<forall>x \<in> set xs. P x \<longrightarrow> prio x < prio e"
        "\<forall>y \<in> set ys. P y \<longrightarrow> prio y \<le> prio e"
      then show ?thesis by (intro exI [of _ "n # xs"] exI [of _ ys]) simp
    qed
  qed
qed simp

lemma entryLookup_MM_best:
  assumes "ti_entryMap table = Some m" "hmap_ok m" "entries_wide table (hmap_nodes m)" "key_bytes table \<le> length key"
  shows "entryLookup_MM key table = Some (best (entry_match table key) (hmap_nodes m) None)"
proof -
  let ?body = "\<lambda>entry r. do {
          b \<leftarrow> maskMatch (ei_mask (hn_obj entry)) (ei_value (hn_obj entry)) key (ti_keyLen table);
          Some (None :: unit option,
            if b then (case r of
                 None \<Rightarrow> Some entry
               | Some e \<Rightarrow> if ei_priority (hn_obj e) < ei_priority (hn_obj entry) then Some entry else Some e)
            else r) }"
  have list: "trav_list ?body ns r = Some (None, best (entry_match table key) ns r)" if "entries_wide table ns" for ns r
    using that
  proof (induction ns arbitrary: r)
    case (Cons n ns)
    then have w: "key_bytes table \<le> length (ei_value (hn_obj n))" "key_bytes table \<le> length (ei_mask (hn_obj n))"
      "entries_wide table ns" by (auto simp: entries_wide_def)
    then show ?case using Cons.IH [OF w(3)] maskMatch_spec [OF w(2,1) assms(4)] by (simp add: entry_match_def)
  qed simp
  show ?thesis
    unfolding entryLookup_MM_def
    by (subst hmap_struct_traverse_readonly [OF assms(2)]) (simp_all add: assms(1) list [OF assms(3)])
qed

text \<open>
  C5. A masked-match lookup returns \<^verbatim>\<open>NULL\<close> exactly when no entry of the table matches the key;
  otherwise it returns a matching entry such that no matching entry has a higher priority and
  every matching entry before it in the map has a lower one.
\<close>

theorem entryLookup_MM_highest_priority:
  assumes "ti_entryMap table = Some m" "hmap_ok m" "entries_wide table (hmap_nodes m)" "key_bytes table \<le> length key"
  shows "\<exists>res. entryLookup_MM key table = Some res
    \<and> (res = None \<longleftrightarrow> (\<forall>n \<in> set (hmap_nodes m). \<not> entry_match table key n))
    \<and> (\<forall>e. res = Some e \<longrightarrow> (\<exists>xs ys. hmap_nodes m = xs @ e # ys \<and> entry_match table key e
         \<and> (\<forall>x \<in> set xs. entry_match table key x \<longrightarrow> prio x < prio e)
         \<and> (\<forall>y \<in> set ys. entry_match table key y \<longrightarrow> prio y \<le> prio e)))"
proof (rule exI, intro conjI allI impI)
  show "entryLookup_MM key table = Some (best (entry_match table key) (hmap_nodes m) None)"
    by (rule entryLookup_MM_best [OF assms])
  show "best (entry_match table key) (hmap_nodes m) None = None
      \<longleftrightarrow> (\<forall>n \<in> set (hmap_nodes m). \<not> entry_match table key n)"
    by (rule best_None_iff)
qed (rule best_Some_iff)

definition example_entry :: "u32 \<Rightarrow> u16 \<Rightarrow> bytes \<Rightarrow> bytes \<Rightarrow> entryInfo" where
  "example_entry i pr v mk = zero_entry\<lparr>ei_index := i, ei_priority := pr, ei_keyLen := 8, ei_value := v, ei_mask := mk\<rparr>"

definition example_table :: "u8 \<Rightarrow> entryInfo hnode list \<Rightarrow> tableInfo" where
  "example_table type ns = \<lparr>ti_id = 0, ti_type = type, ti_name = [], ti_entryMap = Some \<lparr>hm_buckets = [ns], hm_mask = 0,
     hm_n = of_nat (length ns)\<rparr>, ti_entryNum = of_nat (length ns), ti_size = 8, ti_keyLen = 8, ti_tree = None,
     ti_match_field_num = 1, ti_match = [0, 0, 0, 0, 8, 0, 0, 0]\<rparr>"

definition example_nodes :: "entryInfo hnode list" where
  "example_nodes = [\<lparr>hn_ptr = 1, hn_hash = 0, hn_obj = example_entry 0 5 [0x40] [0xf0]\<rparr>,
     \<lparr>hn_ptr = 2, hn_hash = 1, hn_obj = example_entry 1 9 [0x45] [0xff]\<rparr>]"

lemma entryLookup_MM_highest_priority_witness:
  "\<exists>e. entryLookup_MM [0x45] (example_table 0 example_nodes) = Some (Some e) \<and> prio e = 9"
proof -
  let ?t = "example_table 0 example_nodes"
  obtain m where m: "ti_entryMap ?t = Some m" "hmap_nodes m = example_nodes" "hmap_ok m"
    by (simp add: example_table_def hmap_nodes_def hmap_ok_def bucketWithHash_def example_nodes_def)
  have kb: "key_bytes ?t = 1" by (simp add: example_table_def byte_ceil_def)
  have wide: "entries_wide ?t (hmap_nodes m)"
    unfolding m(2) entries_wide_def kb by (simp add: example_nodes_def example_entry_def)
  have all: "(\<forall>i < 8. P i) \<longleftrightarrow> P 0 \<and> P 1 \<and> P 2 \<and> P 3 \<and> P 4 \<and> P 5 \<and> P 6 \<and> P (7 :: nat)" for P
    by (simp add: eval_nat_numeral less_Suc_eq all_conj_distrib conj_ac)
  have match: "\<forall>n \<in> set example_nodes. entry_match ?t [0x45] n"
    unfolding entry_match_def kb
    by (simp add: example_nodes_def example_entry_def field_match_def all bit_at_def)
  have len: "key_bytes ?t \<le> length [0x45 :: u8]" by (simp add: kb)
  obtain res where res: "entryLookup_MM [0x45] ?t = Some res"
    "res = None \<longleftrightarrow> (\<forall>n \<in> set (hmap_nodes m). \<not> entry_match ?t [0x45] n)"
    "\<And>e. res = Some e \<Longrightarrow> \<exists>xs ys. hmap_nodes m = xs @ e # ys \<and> entry_match ?t [0x45] e
         \<and> (\<forall>x \<in> set xs. entry_match ?t [0x45] x \<longrightarrow> prio x < prio e)
         \<and> (\<forall>y \<in> set ys. entry_match ?t [0x45] y \<longrightarrow> prio y \<le> prio e)"
    using entryLookup_MM_highest_priority [OF m(1,3) wide len] by blast
  have "set (hmap_nodes m) \<noteq> {}" unfolding m(2) by (simp add: example_nodes_def)
  then obtain e where e0: "res = Some e" using res(2) match m(2) by fastforce
  from res(3) [OF this] obtain xs ys where xy: "hmap_nodes m = xs @ e # ys"
    "\<forall>y \<in> set ys. entry_match ?t [0x45] y \<longrightarrow> prio y \<le> prio e" by blast
  have e: "entryLookup_MM [0x45] ?t = Some (Some e)" "example_nodes = xs @ e # ys"
    using res(1) e0 xy(1) m(2) by simp_all
  moreover have "set ys \<subseteq> set example_nodes" unfolding e(2) by auto
  ultimately have e: "entryLookup_MM [0x45] ?t = Some (Some e)" "example_nodes = xs @ e # ys"
    "\<forall>y \<in> set ys. prio y \<le> prio e"
    using xy(2) match by blast+
  have "prio e = 9"
  proof (cases xs)
    case Nil
    then show ?thesis using e(2,3) by (auto simp: example_nodes_def example_entry_def)
  next
    case (Cons a as)
    then show ?thesis using e(2) by (cases as) (auto simp: example_nodes_def example_entry_def)
  qed
  then show ?thesis using e(1) by blast
qed

section \<open>The key of a packet\<close>

text \<open>Where a match field is read from: the metadata for field id \<open>0xFFFF\<close>, otherwise the packet.\<close>

definition field_source :: "bytes \<Rightarrow> bytes option \<Rightarrow> u16 \<Rightarrow> bytes option" where
  "field_source packet metadata field_id = (if field_id = 0xFFFF then metadata else Some packet)"

definition field_bits :: "bytes \<Rightarrow> bytes option \<Rightarrow> u16 \<times> u16 \<times> u16 \<Rightarrow> bool list" where
  "field_bits packet metadata f = (case f of (field_id, off, len) \<Rightarrow>
     bits_from (the (field_source packet metadata field_id)) (unat off) (unat len))"

text \<open>
  The fields from bit \<open>at\<close> of a key of \<open>kb\<close> bytes on can be assembled: each has bits and lies in
  its source with one byte to spare, is not a short field across a byte boundary of the key, and
  fits the key and the 16-byte buffer it goes through.
\<close>

fun fields_fit :: "bytes \<Rightarrow> bytes option \<Rightarrow> nat \<Rightarrow> nat \<Rightarrow> (u16 \<times> u16 \<times> u16) list \<Rightarrow> bool" where
  "fields_fit packet metadata kb at [] \<longleftrightarrow> True"
| "fields_fit packet metadata kb at ((field_id, off, len) # fs) \<longleftrightarrow>
     (case field_source packet metadata field_id of None \<Rightarrow> False
      | Some src \<Rightarrow> unat off div 8 + byte_ceil (unat len) < length src)
     \<and> 0 < len \<and> (8 \<le> unat len \<or> at mod 8 + unat len \<le> 8)
     \<and> byte_ceil (at mod 8 + unat len) \<le> 16 \<and> at + unat len \<le> 8 * kb
     \<and> fields_fit packet metadata kb (at + unat len) fs"

definition field_len :: "u16 \<times> u16 \<times> u16 \<Rightarrow> nat" where
  "field_len f = (case f of (_, _, len) \<Rightarrow> unat len)"

lemma byte_span_bound: "i div 8 = (a + l - 1) div 8 \<Longrightarrow> a mod 8 + l \<le> 128 \<Longrightarrow> i - a < 128" for i a l :: nat
proof -
  assume h: "i div 8 = (a + l - 1) div 8" "a mod 8 + l \<le> 128"
  have "a = 8 * (a div 8) + a mod 8" by simp
  then have "a + l - 1 \<le> 8 * (a div 8) + 127" using h(2) by linarith
  then have "i div 8 \<le> (8 * (a div 8) + 127) div 8" using h(1) div_le_mono by metis
  then have "i div 8 \<le> a div 8 + 15" by simp
  moreover have "i < 8 * (i div 8) + 8" by simp
  moreover have "8 * (a div 8) \<le> a" by simp
  ultimately show "i - a < 128" by linarith
qed

lemma keyAssemble_field:
  assumes src: "field_source packet metadata field_id = Some src" "unat off div 8 + byte_ceil (unat len) < length src"
    and len: "0 < len" "8 \<le> unat len \<or> unat at mod 8 + unat len \<le> 8"
      "byte_ceil (unat at mod 8 + unat len) \<le> 16" "unat at + unat len \<le> 8 * length key"
  shows "\<exists>tmp key'. pofbf_copy_bit (if field_id = 0xFFFF then metadata else Some packet) (Some (replicate 16 0)) off len = Some (Some tmp)
    \<and> pofbf_cover_bit key tmp at len = Some key' \<and> length key' = length key
    \<and> (\<forall>i < 8 * length key. bit_at key' i =
         (if unat at \<le> i \<and> i < unat at + unat len then bit_at src (unat off + (i - unat at)) else bit_at key i))"
proof -
  have bl: "byte_ceil (unat len) \<le> byte_ceil (unat at mod 8 + unat len)" by (simp add: byte_ceil_def div_le_mono)
  then have b16: "byte_ceil (unat len) \<le> 16" using len(3) by linarith
  have s: "(if field_id = 0xFFFF then metadata else Some packet) = Some src"
    using src(1) by (simp add: field_source_def)
  obtain tmp where tmp: "pofbf_copy_bit (Some src) (Some (replicate 16 0)) off len = Some (Some tmp)" "length tmp = 16"
    "\<And>i. i < 8 * length tmp \<Longrightarrow> bit_at tmp i = (if i < unat len then bit_at src (unat off + i)
          else 8 * byte_ceil (unat len) \<le> i \<and> bit_at (replicate 16 0) i)"
    using copy_bit_ok [OF len(1) src(2), of "replicate 16 0"] b16 by auto
  have zero: "bit_at (replicate 16 0) i = False" if "i < 128" for i
    using that by (simp add: bit_at_def div_less_iff_less_mult)
  have bits: "bit_at tmp i = (i < unat len \<and> bit_at src (unat off + i))" if "i < 128" for i
    using tmp(2) tmp(3) [of i] that zero [of i] by auto
  obtain key' where key': "pofbf_cover_bit key tmp at len = Some key'" "length key' = length key"
    "\<And>i. i < 8 * length key \<Longrightarrow> bit_at key' i = cover_bit_at key tmp (unat at) (unat len) i"
    using cover_bit_ok [OF len(1,2,4), of tmp] len(3) tmp(2) by auto
  have "bit_at key' i = (if unat at \<le> i \<and> i < unat at + unat len then bit_at src (unat off + (i - unat at)) else bit_at key i)"
    if i: "i < 8 * length key" for i
  proof -
    have "unat len \<le> 128" using byte_ceil_bounds(1) [of "unat len"] b16 by linarith
    moreover have "i - unat at < 128" if "cover_leak (unat at) (unat len) i"
    proof -
      have "i div 8 = (unat at + unat len - 1) div 8" using that by (simp add: cover_leak_def)
      moreover have "unat at mod 8 + unat len \<le> 128" using byte_ceil_bounds(1) [of "unat at mod 8 + unat len"] len(3) by linarith
      ultimately show ?thesis by (rule byte_span_bound)
    qed
    ultimately have small: "i - unat at < 128"
      if "unat at \<le> i \<and> i < unat at + unat len \<or> cover_leak (unat at) (unat len) i" using that by linarith
    show ?thesis
    proof (cases "unat at \<le> i \<and> i < unat at + unat len")
      case True
      then have "i - unat at < unat len" by linarith
      then show ?thesis using True key'(3) [OF i] bits [OF small] by (simp add: cover_bit_at_def)
    next
      case False
      moreover have "\<not> bit_at tmp (i - unat at)" if "cover_leak (unat at) (unat len) i"
        using that bits [OF small] by (auto simp: cover_leak_def)
      ultimately show ?thesis using key'(3) [OF i] by (auto simp: cover_bit_at_def)
    qed
  qed
  then show ?thesis using tmp(1) key' s by auto
qed

lemma all_less_Suc_split: "(\<forall>j < Suc n. P j) \<longleftrightarrow> P 0 \<and> (\<forall>j < n. P (Suc j))"
  using less_Suc_eq_0_disj by auto

lemma keyAssemble_loop_bits:
  assumes "fields_fit packet metadata (length key) (unat at) fs" "8 * length key < 65536"
    and "\<forall>j < length fs. match_at m (i + j) = Some (fs ! j)"
  shows "\<exists>key'. keyAssemble_loop packet metadata m (length fs) i key at = Some key' \<and> length key' = length key
    \<and> bits_from key' 0 (unat at + sum_list (map field_len fs))
        = bits_from key 0 (unat at) @ concat (map (field_bits packet metadata) fs)
    \<and> (\<forall>j. unat at + sum_list (map field_len fs) \<le> j \<and> j < 8 * length key \<longrightarrow> bit_at key' j = bit_at key j)"
  using assms
proof (induction fs arbitrary: key at i)
  case (Cons f fs)
  obtain field_id off len where f: "f = (field_id, off, len)" by (cases f)
  obtain src where src: "field_source packet metadata field_id = Some src"
    "unat off div 8 + byte_ceil (unat len) < length src"
    using Cons.prems(1) by (auto simp: f split: option.splits)
  have fit: "0 < len" "8 \<le> unat len \<or> unat at mod 8 + unat len \<le> 8" "byte_ceil (unat at mod 8 + unat len) \<le> 16"
    "unat at + unat len \<le> 8 * length key" "fields_fit packet metadata (length key) (unat at + unat len) fs"
    using Cons.prems(1) by (auto simp: f)
  obtain tmp key1 where k1: "pofbf_copy_bit (if field_id = 0xFFFF then metadata else Some packet) (Some (replicate 16 0)) off len = Some (Some tmp)"
    "pofbf_cover_bit key tmp at len = Some key1" "length key1 = length key"
    "\<And>i. i < 8 * length key \<Longrightarrow> bit_at key1 i =
         (if unat at \<le> i \<and> i < unat at + unat len then bit_at src (unat off + (i - unat at)) else bit_at key i)"
    using keyAssemble_field [OF src fit(1-4)] by blast
  have at': "unat (at + len) = unat at + unat len"
    using fit(4) Cons.prems(2) by (simp add: unat_word_ariths)
  have m: "match_at m i = Some (field_id, off, len)" "\<forall>j < length fs. match_at m (i + 1 + j) = Some (fs ! j)"
    using Cons.prems(3) by (auto simp: f all_less_Suc_split)
  have "\<exists>key'. keyAssemble_loop packet metadata m (length fs) (i + 1) key1 (at + len) = Some key' \<and> length key' = length key1
    \<and> bits_from key' 0 (unat (at + len) + sum_list (map field_len fs))
        = bits_from key1 0 (unat (at + len)) @ concat (map (field_bits packet metadata) fs)
    \<and> (\<forall>j. unat (at + len) + sum_list (map field_len fs) \<le> j \<and> j < 8 * length key1 \<longrightarrow> bit_at key' j = bit_at key1 j)"
    by (rule Cons.IH) (use fit(5) at' k1(3) Cons.prems(2) m(2) in simp_all)
  then obtain key' where key': "keyAssemble_loop packet metadata m (length fs) (i + 1) key1 (at + len) = Some key'"
    "length key' = length key1"
    "bits_from key' 0 (unat at + unat len + sum_list (map field_len fs))
        = bits_from key1 0 (unat at + unat len) @ concat (map (field_bits packet metadata) fs)"
    "\<And>j. unat at + unat len + sum_list (map field_len fs) \<le> j \<Longrightarrow> j < 8 * length key1 \<Longrightarrow> bit_at key' j = bit_at key1 j"
    unfolding at' by blast
  have "bits_from key1 0 (unat at + unat len) = bits_from key 0 (unat at) @ field_bits packet metadata f"
    using k1(4) fit(4) by (intro nth_equalityI) (auto simp: field_bits_def f src(1) nth_append)
  moreover have "bit_at key' j = bit_at key j"
    if "unat at + unat len + sum_list (map field_len fs) \<le> j" "j < 8 * length key" for j
    using key'(4) [of j] that k1(3) k1(4) [of j] by simp
  moreover have "field_len (field_id, off, len) = unat len" by (simp add: field_len_def)
  ultimately show ?case
    using key' k1(1,2,3) m(1) by (simp add: f add.assoc)
qed auto

text \<open>
  C19. The key under which a packet is looked up: when the match fields can be assembled, the
  first bits of the key are the concatenation of the bits of the fields, each taken from the packet
  or, for field id \<open>0xFFFF\<close>, from the metadata, and the bits behind them are as before.
\<close>

theorem keyAssemble_concatenates:
  assumes "length fs = unat match_field_num" "\<forall>j < length fs. match_at m j = Some (fs ! j)"
    and "fields_fit packet metadata (length key) 0 fs" "8 * length key < 65536"
  shows "\<exists>key'. keyAssemble key packet metadata match_field_num m = Some key' \<and> length key' = length key
    \<and> bits_from key' 0 (sum_list (map field_len fs)) = concat (map (field_bits packet metadata) fs)
    \<and> (\<forall>j. sum_list (map field_len fs) \<le> j \<and> j < 8 * length key \<longrightarrow> bit_at key' j = bit_at key j)"
  using keyAssemble_loop_bits [of packet metadata key 0 fs m 0] assms
  by (simp add: keyAssemble_def bits_from_def)

lemma keyAssemble_concatenates_witness:
  "\<exists>key'. keyAssemble [0] [0x12, 0x34, 0x56] None 1 [0, 0, 4, 0, 8, 0, 0, 0] = Some key'
    \<and> bits_from key' 0 8 = bits_from [0x12, 0x34, 0x56] 4 8"
proof -
  have "\<forall>j < length [(0, 4, 8)]. match_at [0, 0, 4, 0, 8, 0, 0, 0] j = Some ([(0, 4, 8)] ! j)"
    by (simp add: match_at_def get16_def get_le_def)
  moreover have "fields_fit [0x12, 0x34, 0x56] None (length [0 :: u8]) 0 [(0, 4, 8)]"
    by (simp add: field_source_def byte_ceil_def)
  ultimately show ?thesis
    using keyAssemble_concatenates [of "[(0, 4, 8)]" 1 "[0, 0, 4, 0, 8, 0, 0, 0]" "[0x12, 0x34, 0x56]" None "[0]"]
    by (auto simp: field_len_def field_bits_def field_source_def)
qed

end
