(* ===== verification/Pof_Flow_Lpm.thy ===== *)
theory Pof_Flow_Lpm
  imports Pof_Flow_Lookup
begin

text \<open>
  Tables of type LPM keep every entry twice: in the hash map and, under its prefix, in a prefix
  tree that holds its address. The invariant \<open>lpm_ok\<close> says that the two agree. It is kept by
  inserting an entry with a new prefix and by deleting an entry, and under it the lookup gives
  the entry with the longest prefix of the key.
\<close>

section \<open>Counting ones\<close>

lemma finite_bits_u8: "finite {i. bit (v :: u8) i}"
  by (rule finite_subset [of _ "{..<8}"]) (auto dest: bit_u8_imp)

lemma card_bits_u8: "card {i. bit (v :: u8) i} \<le> 8"
  using card_mono [of "{..<8}" "{i. bit v i}"] by (auto dest: bit_u8_imp)

lemma card_bits_clear: "0 < v \<Longrightarrow> card {i. bit (v AND (v - 1)) i} < card {i. bit v i}" for v :: u8
proof (rule psubset_card_mono [OF finite_bits_u8])
  assume "0 < v"
  then have "unat (v - 1) < unat v" by (simp add: word_gt_0 measure_unat)
  then have "v AND (v - 1) \<noteq> v"
    using word_and_le1 [of v "v - 1"] by (auto simp: word_le_nat_alt)
  then show "{i. bit (v AND (v - 1)) i} \<subset> {i. bit v i}"
    by (auto simp: bit_and_iff bit_eq_iff)
qed

lemma get1sCountInByte_le: "unat (get1sCountInByte v) \<le> card {i. bit v i}"
proof (induction v rule: get1sCountInByte.induct)
  case (1 v)
  show ?case
  proof (cases "0 < v")
    case True
    have "unat (get1sCountInByte (v AND (v - 1)) + 1) \<le> unat (get1sCountInByte (v AND (v - 1))) + 1"
      by (simp add: unat_word_ariths)
    then show ?thesis
      using True 1 [OF True] card_bits_clear [OF True] by (subst get1sCountInByte.simps) simp
  next
    case False
    then show ?thesis by (subst get1sCountInByte.simps) simp
  qed
qed

lemma sum_list_unat_le: "unat (sum_list (ws :: u32 list)) \<le> sum_list (map unat ws)"
proof (induction ws)
  case (Cons w ws)
  have "unat (w + sum_list ws) \<le> unat w + unat (sum_list ws)" by (simp add: unat_word_ariths)
  then show ?case using Cons by simp
qed simp

lemma get1sCountInBytes_le:
  assumes "get1sCountInBytes mk n = Some w"
  shows "unat w \<le> 8 * n"
proof -
  have n: "n \<le> length mk" "w = sum_list (map get1sCountInByte (take n mk))"
    using assms by (auto simp: get1sCountInBytes_def mem_read_def bind_eq_Some_conv split: if_splits)
  have "sum_list (map unat (map get1sCountInByte bs)) \<le> 8 * length bs" for bs
    using le_trans [OF get1sCountInByte_le card_bits_u8] by (induction bs) (auto intro: add_mono)
  from this [of "take n mk"] show ?thesis
    using le_trans [OF sum_list_unat_le] n by auto
qed

section \<open>The invariant\<close>

definition entry_plen :: "tableInfo \<Rightarrow> entryInfo \<Rightarrow> nat" where
  "entry_plen table e = (case get1sCountInBytes (ei_mask e) (key_bytes table) of Some w \<Rightarrow> unat w | None \<Rightarrow> 0)"

definition entry_prefix :: "tableInfo \<Rightarrow> entryInfo \<Rightarrow> bool list" where
  "entry_prefix table e = bits_from (ei_value e) 0 (entry_plen table e)"

definition lpm_ok :: "tableInfo \<Rightarrow> bool" where
  "lpm_ok table \<longleftrightarrow> (case (ti_entryMap table, ti_tree table) of
      (Some m, Some t) \<Rightarrow> hmap_ok m \<and> entries_wide table (hmap_nodes m)
        \<and> tr_root t \<noteq> NULL \<and> tree_height (tr_root t) \<le> Suc (unat (ti_keyLen table))
        \<and> (\<forall>bs p. tree_map (tr_root t) bs = Some p \<longleftrightarrow>
             (\<exists>n \<in> set (hmap_nodes m). hn_ptr n = p \<and> entry_prefix table (hn_obj n) = bs))
    | _ \<Rightarrow> False)"

lemma lpm_okE:
  assumes "lpm_ok table"
  obtains m t where "ti_entryMap table = Some m" "ti_tree table = Some t" "hmap_ok m"
    "entries_wide table (hmap_nodes m)" "tr_root t \<noteq> NULL" "tree_height (tr_root t) \<le> Suc (unat (ti_keyLen table))"
    "\<And>bs p. tree_map (tr_root t) bs = Some p \<longleftrightarrow>
       (\<exists>n \<in> set (hmap_nodes m). hn_ptr n = p \<and> entry_prefix table (hn_obj n) = bs)"
  using assms by (auto simp: lpm_ok_def split: option.splits)

lemma key_bytes_small: "key_bytes table \<le> 8192"
  using unat_u16_less [of "ti_keyLen table"] by (simp add: byte_ceil_def)

lemma plen_bound:
  assumes "key_bytes table \<le> length (ei_mask e)"
  shows "\<exists>w. get1sCountInBytes (ei_mask e) (key_bytes table) = Some w \<and> unat w = entry_plen table e
    \<and> unat w + 7 < 2 ^ 32 \<and> byte_ceil (unat w) \<le> key_bytes table"
proof -
  obtain w where w: "get1sCountInBytes (ei_mask e) (key_bytes table) = Some w"
    using assms by (auto simp: get1sCountInBytes_def mem_read_def)
  have le: "unat w \<le> 8 * key_bytes table" by (rule get1sCountInBytes_le [OF w])
  then have "byte_ceil (unat w) \<le> key_bytes table" using byte_ceil_bounds(2) [of "unat w"] by linarith
  moreover have "unat w + 7 < 2 ^ 32" using le key_bytes_small [of table] by simp
  ultimately show ?thesis using w by (simp add: entry_plen_def)
qed

lemma bits_from_take: "n \<le> 8 * k \<Longrightarrow> k \<le> length bs \<Longrightarrow> bits_from (take k bs) 0 n = bits_from bs 0 n"
  by (intro nth_equalityI) (auto simp: bit_at_def div_less_iff_less_mult)

section \<open>Lookup\<close>

lemma find_ptr:
  assumes "distinct (map hn_ptr ns)" "n \<in> set ns"
  shows "find (\<lambda>x. hn_ptr x = hn_ptr n) ns = Some n"
  using assms by (induction ns) auto

lemma entry_at_node:
  assumes "ti_entryMap table = Some m" "hmap_ok m" "n \<in> set (hmap_nodes m)"
  shows "entry_at (hn_ptr n) table = Some n"
  using assms find_ptr [of "hmap_nodes m" n] by (simp add: entry_at_def hmap_ok_def)

lemma bits_from_take_prefix: "k \<le> n \<Longrightarrow> take k (bits_from bs 0 n) = bits_from bs 0 k"
  by (intro nth_equalityI) auto

text \<open>
  C8. A prefix lookup in a consistent table gives an entry whose prefix is a prefix of the key and
  no entry of the table with a longer matching prefix exists; it gives \<^verbatim>\<open>NULL\<close> exactly when the
  prefix of no entry matches. It never follows a dangling address.
\<close>

theorem entryLookup_LPM_longest_prefix:
  assumes "lpm_ok table" "ti_entryMap table = Some m" "length key = key_bytes table" "0 < ti_keyLen table"
  shows "\<exists>res. entryLookup_LPM key table = Some res
    \<and> (\<forall>e. res = Some e \<longrightarrow> e \<in> set (hmap_nodes m)
         \<and> entry_plen table (hn_obj e) \<le> unat (ti_keyLen table)
         \<and> entry_prefix table (hn_obj e) = bits_from key 0 (entry_plen table (hn_obj e))
         \<and> (\<forall>n \<in> set (hmap_nodes m). entry_plen table (hn_obj n) \<le> unat (ti_keyLen table) \<longrightarrow>
              entry_prefix table (hn_obj n) = bits_from key 0 (entry_plen table (hn_obj n)) \<longrightarrow>
              entry_plen table (hn_obj n) \<le> entry_plen table (hn_obj e)))
    \<and> (res = None \<longleftrightarrow> (\<forall>n \<in> set (hmap_nodes m). entry_plen table (hn_obj n) \<le> unat (ti_keyLen table) \<longrightarrow>
         entry_prefix table (hn_obj n) \<noteq> bits_from key 0 (entry_plen table (hn_obj n))))"
proof -
  obtain t where t: "ti_tree table = Some t" "hmap_ok m" "tree_height (tr_root t) \<le> Suc (unat (ti_keyLen table))"
    "\<And>bs p. tree_map (tr_root t) bs = Some p \<longleftrightarrow>
       (\<exists>n \<in> set (hmap_nodes m). hn_ptr n = p \<and> entry_prefix table (hn_obj n) = bs)"
    using assms(1,2) by (elim lpm_okE) auto
  let ?K = "unat (ti_keyLen table)"
  let ?bs = "bits_from key 0 ?K"
  have kl: "0 < ?K" using assms(4) by (simp add: word_gt_0 unat_gt_0)
  then have "0 < length key" unfolding assms(3) by simp
  then have ne: "key \<noteq> []" by simp
  have "nodeLookup (tr_root t) key (of_nat ?K) None =
      Some (case longest_prefix (tree_map (tr_root t)) ?bs of Some x \<Rightarrow> Some x | None \<Rightarrow> None)"
    using nodeLookup_lpm [OF t(3), of key] assms(3) ne unat_u16_less [of "ti_keyLen table"] by simp
  moreover have "(of_nat ?K :: u32) = ucast (ti_keyLen table)"
    by (simp add: word_unat_eq_iff unat_of_nat_u32 less_trans [OF unat_u16_less])
  ultimately have lk: "tree_nodeLookup t key (ucast (ti_keyLen table)) = Some (longest_prefix (tree_map (tr_root t)) ?bs)"
    by (simp add: tree_nodeLookup_def split: option.splits)
  have pre: "tree_map (tr_root t) (take k ?bs) = Some p \<longleftrightarrow>
      (\<exists>n \<in> set (hmap_nodes m). hn_ptr n = p \<and> entry_plen table (hn_obj n) = k
         \<and> entry_prefix table (hn_obj n) = bits_from key 0 k)" if "k \<le> ?K" for k p
    using that unfolding t(4) bits_from_take_prefix [OF that]
    by (metis entry_prefix_def length_bits_from)
  show ?thesis
  proof (cases "longest_prefix (tree_map (tr_root t)) ?bs")
    case None
    then have none: "tree_map (tr_root t) (take k ?bs) = None" if "k \<le> ?K" for k
      using that longest_prefix_None_iff [of "tree_map (tr_root t)" ?bs] by simp
    have "entry_prefix table (hn_obj n) \<noteq> bits_from key 0 (entry_plen table (hn_obj n))"
      if "n \<in> set (hmap_nodes m)" "entry_plen table (hn_obj n) \<le> ?K" for n
      using none [OF that(2)] pre [OF that(2), of "hn_ptr n"] that(1) by auto
    then show ?thesis using None lk t(1) by (simp add: entryLookup_LPM_def lpmLookup_def)
  next
    case (Some p)
    then obtain k where k: "k \<le> ?K" "tree_map (tr_root t) (take k ?bs) = Some p"
      "\<And>j. k < j \<Longrightarrow> j \<le> ?K \<Longrightarrow> tree_map (tr_root t) (take j ?bs) = None"
      using longest_prefix_spec [of "tree_map (tr_root t)" ?bs p] by auto
    obtain e where e: "e \<in> set (hmap_nodes m)" "hn_ptr e = p" "entry_plen table (hn_obj e) = k"
      "entry_prefix table (hn_obj e) = bits_from key 0 k" using k(2) pre [OF k(1)] by blast
    have "entry_at p table = Some e" using entry_at_node [OF assms(2) t(2) e(1)] e(2) by simp
    then have res: "entryLookup_LPM key table = Some (Some e)"
      using Some lk t(1) by (simp add: entryLookup_LPM_def lpmLookup_def)
    have "entry_plen table (hn_obj n) \<le> k"
      if n: "n \<in> set (hmap_nodes m)" "entry_plen table (hn_obj n) \<le> ?K"
        "entry_prefix table (hn_obj n) = bits_from key 0 (entry_plen table (hn_obj n))" for n
    proof (rule ccontr)
      assume "\<not> entry_plen table (hn_obj n) \<le> k"
      then have "tree_map (tr_root t) (take (entry_plen table (hn_obj n)) ?bs) = None"
        using k(3) n(2) by simp
      then show False using pre [OF n(2), of "hn_ptr n"] n by auto
    qed
    then show ?thesis using res e k(1) by (intro exI [of _ "Some e"]) auto
  qed
qed

section \<open>Insertion and deletion\<close>

definition no_alloc_failure :: "glob \<Rightarrow> bool" where
  "no_alloc_failure g \<longleftrightarrow> (\<forall>n \<ge> malloc_n g. \<not> malloc_fail g n)"

lemma chan_ok_alloc: "chan_ok g \<Longrightarrow> no_alloc_failure g"
  by (simp add: chan_ok_def no_alloc_failure_def)

lemma tree_nodeCreate_alloc:
  "no_alloc_failure g \<Longrightarrow> tree_nodeCreate g = (Node None NULL NULL, g\<lparr>malloc_n := malloc_n g + 1\<rparr>)"
  "no_alloc_failure g \<Longrightarrow> no_alloc_failure (g\<lparr>malloc_n := malloc_n g + 1\<rparr>)"
  by (simp_all add: tree_nodeCreate_def POF_MALLOC_SAFE_def malloc_def Let_def no_alloc_failure_def)

lemma nodeInsert_alloc:
  "nodeInsert t ptr value n g = Some (r, t', g') \<Longrightarrow> no_alloc_failure g \<Longrightarrow>
   r = POF_OK \<and> (\<exists>k \<ge> malloc_n g. g' = g\<lparr>malloc_n := k\<rparr>)"
proof (induction t ptr "value" n g arbitrary: r t' g' rule: nodeInsert.induct)
  case (3 p l rr ptr "value" n g)
  obtain left value' where lv: "toLeft value = Some left" "moveLeft value (of_nat (Suc n)) = Some value'"
    using "3.prems"(1) by (auto simp: bind_eq_Some_conv simp del: of_nat_Suc)
  define son where "son = (if left then l else rr)"
  show ?case
  proof (cases "son = NULL")
    case False
    then obtain son' where "nodeInsert son ptr value' n g = Some (r, son', g')"
      using "3.prems"(1) lv by (auto simp: Let_def son_def bind_eq_Some_conv simp del: of_nat_Suc split: if_splits)
    then show ?thesis using "3.IH"(1) [OF lv] False "3.prems"(2) unfolding son_def by blast
  next
    case True
    let ?g1 = "g\<lparr>malloc_n := malloc_n g + 1\<rparr>"
    obtain son' where "nodeInsert (Node None NULL NULL) ptr value' n ?g1 = Some (r, son', g')"
      using "3.prems"(1) lv True tree_nodeCreate_alloc(1) [OF "3.prems"(2), where 'a = 'a]
      by (auto simp: Let_def son_def bind_eq_Some_conv simp del: of_nat_Suc split: if_splits)
    moreover have "r = POF_OK \<and> (\<exists>k \<ge> malloc_n ?g1. g' = ?g1\<lparr>malloc_n := k\<rparr>)"
      if "nodeInsert (Node None NULL NULL) ptr value' n ?g1 = Some (r, son', g')"
      using "3.IH"(2) [OF lv] True tree_nodeCreate_alloc(1) [OF "3.prems"(2), where 'a = 'a]
        tree_nodeCreate_alloc(2) [OF "3.prems"(2)] that unfolding son_def by simp
    ultimately obtain k where "r = POF_OK" "malloc_n g + 1 \<le> k" "g' = g\<lparr>malloc_n := k\<rparr>" by auto
    then show ?thesis by (intro conjI exI [of _ k]) auto
  qed
qed auto

lemma lpmInsert_ok:
  assumes ok: "lpm_ok table" "ti_entryMap table = Some m" and new: "p \<notin> hmap_ptrs m"
    and wide: "key_bytes table \<le> length (ei_value e)" "key_bytes table \<le> length (ei_mask e)"
    and fresh: "\<forall>n \<in> set (hmap_nodes m). entry_prefix table (hn_obj n) \<noteq> entry_prefix table e"
    and len: "entry_plen table e \<le> unat (ti_keyLen table)" and alloc: "no_alloc_failure g"
    and ins: "hmap_nodeInsert m \<lparr>hn_ptr = p, hn_hash = h, hn_obj = e\<rparr> = Some m'"
  shows "\<exists>table' g'. lpmInsert p e (table\<lparr>ti_entryMap := Some m', ti_entryNum := k\<rparr>) g = Some (POF_OK, table', g')
    \<and> lpm_ok table' \<and> ti_entryMap table' = Some m' \<and> ti_tree table' \<noteq> None
    \<and> (\<exists>c \<ge> malloc_n g. g' = g\<lparr>malloc_n := c\<rparr>)
    \<and> table'\<lparr>ti_tree := None\<rparr> = table\<lparr>ti_entryMap := Some m', ti_entryNum := k, ti_tree := None\<rparr>"
proof -
  let ?n = "\<lparr>hn_ptr = p, hn_hash = h, hn_obj = e\<rparr>"
  obtain t where t: "ti_tree table = Some t" "hmap_ok m" "entries_wide table (hmap_nodes m)" "tr_root t \<noteq> NULL"
    "tree_height (tr_root t) \<le> Suc (unat (ti_keyLen table))"
    "\<And>bs q. tree_map (tr_root t) bs = Some q \<longleftrightarrow>
       (\<exists>n \<in> set (hmap_nodes m). hn_ptr n = q \<and> entry_prefix table (hn_obj n) = bs)"
    using ok by (elim lpm_okE) auto
  obtain w where w: "get1sCountInBytes (ei_mask e) (key_bytes table) = Some w" "unat w = entry_plen table e"
    "unat w + 7 < 2 ^ 32" "byte_ceil (unat w) \<le> key_bytes table" using plen_bound [OF wide(2)] by blast
  let ?v = "take (key_bytes table) (ei_value e)"
  have "unat w \<le> 8 * key_bytes table" by (rule get1sCountInBytes_le [OF w(1)])
  then have pre: "bits_from ?v 0 (unat w) = entry_prefix table e"
    using bits_from_take wide(1) w(2) by (simp add: entry_prefix_def)
  obtain r root g' where r: "nodeInsert (tr_root t) p ?v (unat w) g = Some (r, root, g')" "root \<noteq> NULL"
    "tree_height root \<le> max (tree_height (tr_root t)) (unat w + 1)"
    "r = POF_OK \<and> tree_map root = (tree_map (tr_root t))(entry_prefix table e := Some p)
      \<or> r = ERR (SoftE POF_ALLOCATE_RESOURCE_FAILURE) \<and> tree_map root = tree_map (tr_root t)"
    using nodeInsert_map [OF t(4) w(3) _ pre, of p g] w(4) wide(1) by auto
  have ok': "r = POF_OK" "\<exists>c \<ge> malloc_n g. g' = g\<lparr>malloc_n := c\<rparr>" using nodeInsert_alloc [OF r(1) alloc] by auto
  then have map': "tree_map root = (tree_map (tr_root t))(entry_prefix table e := Some p)" using r(4) by auto
  let ?t' = "t\<lparr>tr_root := root, tr_count := tr_count t + 1\<rparr>"
  let ?table' = "table\<lparr>ti_entryMap := Some m', ti_entryNum := k, ti_tree := Some ?t'\<rparr>"
  have run: "lpmInsert p e (table\<lparr>ti_entryMap := Some m', ti_entryNum := k\<rparr>) g = Some (POF_OK, ?table', g')"
    using w(1) wide(1) t(1) r(1) ok'(1) by (simp add: lpmInsert_def mem_read_def tree_nodeInsert_def)
  have m': "hmap_ok m'" using hmap_insert_ok [OF t(2), of ?n] new ins by auto
  have nodes: "set (hmap_nodes m') = insert ?n (set (hmap_nodes m))" using nodes_insert [OF t(2) ins] by auto
  have pe: "entry_prefix ?table' = entry_prefix table" "entry_plen ?table' = entry_plen table"
    by (simp_all add: fun_eq_iff entry_prefix_def entry_plen_def)
  have pn: "hn_ptr n \<noteq> p" if "n \<in> set (hmap_nodes m)" for n using new that by (auto simp: hmap_ptrs_def)
  have "tree_map root bs = Some q \<longleftrightarrow>
      (\<exists>n \<in> set (hmap_nodes m'). hn_ptr n = q \<and> entry_prefix table (hn_obj n) = bs)" for bs q
    using fresh t(6) [of bs q] unfolding map' nodes by auto
  moreover have "entries_wide ?table' (hmap_nodes m')"
    using t(3) wide nodes by (auto simp: entries_wide_def)
  moreover have "tree_height root \<le> Suc (unat (ti_keyLen table))" using r(3) t(5) w(2) len by simp
  ultimately have "lpm_ok ?table'" using m' r(2) pe by (simp add: lpm_ok_def)
  then show ?thesis using run ok'(2) by (intro exI [of _ ?table'] exI [of _ g']) simp
qed

text \<open>Deleting an entry of a consistent table keeps it consistent and removes just that entry.\<close>

lemma entryDelete_lpm:
  assumes ok: "lpm_ok table" "ti_entryMap table = Some m" and type: "ti_type table = POF_LPM_TABLE"
    and e: "e \<in> set (hmap_nodes m)"
  shows "\<exists>table' m'. entryDelete e table = Some table' \<and> lpm_ok table' \<and> ti_entryMap table' = Some m'
    \<and> hmap_nodes m' = filter (\<lambda>n. hn_ptr n \<noteq> hn_ptr e) (hmap_nodes m) \<and> ti_entryNum table' = ti_entryNum table - 1
    \<and> table'\<lparr>ti_tree := None\<rparr> = table\<lparr>ti_entryMap := Some m', ti_entryNum := ti_entryNum table - 1, ti_tree := None\<rparr>"
proof -
  obtain t where t: "ti_tree table = Some t" "hmap_ok m" "entries_wide table (hmap_nodes m)" "tr_root t \<noteq> NULL"
    "tree_height (tr_root t) \<le> Suc (unat (ti_keyLen table))"
    "\<And>bs q. tree_map (tr_root t) bs = Some q \<longleftrightarrow>
       (\<exists>n \<in> set (hmap_nodes m). hn_ptr n = q \<and> entry_prefix table (hn_obj n) = bs)"
    using ok by (elim lpm_okE) auto
  let ?o = "hn_obj e"
  have wide: "key_bytes table \<le> length (ei_value ?o)" "key_bytes table \<le> length (ei_mask ?o)"
    using t(3) e by (auto simp: entries_wide_def)
  obtain m' where m': "hmap_nodeDelete m e = Some m'" "hmap_ok m'"
    "hmap_nodes m' = filter (\<lambda>n. hn_ptr n \<noteq> hn_ptr e) (hmap_nodes m)"
    using hmap_delete_ok [OF t(2) e] by blast
  obtain w where w: "get1sCountInBytes (ei_mask ?o) (key_bytes table) = Some w" "unat w = entry_plen table ?o"
    "unat w + 7 < 2 ^ 32" "byte_ceil (unat w) \<le> key_bytes table" using plen_bound [OF wide(2)] by blast
  let ?v = "take (key_bytes table) (ei_value ?o)"
  have "unat w \<le> 8 * key_bytes table" by (rule get1sCountInBytes_le [OF w(1)])
  then have pre: "bits_from ?v 0 (unat w) = entry_prefix table ?o"
    using bits_from_take wide(1) w(2) by (simp add: entry_prefix_def)
  have there: "tree_map (tr_root t) (entry_prefix table ?o) = Some (hn_ptr e)" using t(6) e by blast
  obtain root where r: "nodeDelete True (tr_root t) ?v (unat w) = Some (POF_OK, root)" "root \<noteq> NULL"
    "tree_height root \<le> tree_height (tr_root t)" "tree_map root = (tree_map (tr_root t))(entry_prefix table ?o := None)"
    using nodeDelete_map [OF t(4) w(3) _ pre, of True] w(4) wide(1) there by auto
  let ?t' = "t\<lparr>tr_root := root, tr_count := tr_count t - 1\<rparr>"
  let ?table' = "table\<lparr>ti_entryMap := Some m', ti_entryNum := ti_entryNum table - 1, ti_tree := Some ?t'\<rparr>"
  have run: "entryDelete e table = Some ?table'"
    using ok(2) m'(1) w(1) wide(1) t(1) r(1) type
    by (simp add: entryDelete_def lpmDelete_def mem_read_def tree_nodeDelete_def)
  have pe: "entry_prefix ?table' = entry_prefix table" by (simp add: fun_eq_iff entry_prefix_def entry_plen_def)
  have uniq: "n = e" if "n \<in> set (hmap_nodes m)" "hn_ptr n = hn_ptr e" for n
    using t(2) that e by (auto simp: hmap_ok_def distinct_map inj_on_def)
  have other: "hn_ptr n = hn_ptr e" if "n \<in> set (hmap_nodes m)" "entry_prefix table (hn_obj n) = entry_prefix table ?o" for n
    using t(6) [of "entry_prefix table ?o" "hn_ptr n"] there that by auto
  have "tree_map root bs = Some q \<longleftrightarrow>
      (\<exists>n \<in> set (hmap_nodes m'). hn_ptr n = q \<and> entry_prefix table (hn_obj n) = bs)" for bs q
    using t(6) [of bs q] other uniq unfolding r(4) m'(3) by auto
  moreover have "entries_wide ?table' (hmap_nodes m')" using t(3) m'(3) by (auto simp: entries_wide_def)
  ultimately have "lpm_ok ?table'" using m'(2) r(2,3) t(5) pe by (simp add: lpm_ok_def)
  then show ?thesis using run m'(3) by (intro exI [of _ ?table'] exI [of _ m']) simp
qed

section \<open>Filling an entry\<close>

lemma cover_bit_loop_length:
  "cover_bit_loop px bound data v ptr vp pl = Some (data', ptr', vp', pl') \<Longrightarrow> length data' = length data"
proof (induction px bound data v ptr vp pl rule: cover_bit_loop.induct)
  case (1 px bound data v ptr vp pl)
  show ?case
  proof (cases "pl < bound")
    case True
    then obtain a b d where abd: "rd v vp = Some a" "rd v (vp + 1) = Some b"
      "wr data (ptr + 1) (POF_MOVE_BIT_LEFT a (8 - px) OR POF_MOVE_BIT_RIGHT b px) = Some d"
      "cover_bit_loop px bound d v (ptr + 1) (vp + 1) (pl + 8) = Some (data', ptr', vp', pl')"
      using "1.prems" by (subst (asm) cover_bit_loop.simps) (auto simp: bind_eq_Some_conv)
    then show ?thesis using "1.IH" [OF True abd(1-3) abd(4)] by (auto simp: wr_eq_Some_iff)
  next
    case False
    then show ?thesis using "1.prems" by (subst (asm) cover_bit_loop.simps) simp
  qed
qed

lemma cover_bit_length: "pofbf_cover_bit data v pos len = Some r \<Longrightarrow> length r = length data"
  unfolding pofbf_cover_bit_def Let_def
  by (auto simp: bind_eq_Some_conv wr_eq_Some_iff split: if_splits dest!: cover_bit_loop_length)

lemma assemble_loop_length:
  "assemble_loop m k i v mk off = Some (v', mk', off') \<Longrightarrow>
   length v' = length v \<and> map_option length mk' = map_option length mk"
proof (induction m k i v mk off rule: assemble_loop.induct)
  case (2 m k i v mk off)
  then obtain len x v1 mk1 where h: "match_x_len m i = Some len" "match_x_value m i = Some x"
    "pofbf_cover_bit v x off len = Some v1"
    "(case mk of None \<Rightarrow> Some None
       | Some mk \<Rightarrow> do { w \<leftarrow> match_x_mask m i; mk' \<leftarrow> pofbf_cover_bit mk w off len; Some (Some mk') }) = Some mk1"
    "assemble_loop m k (i + 1) v1 mk1 (off + len) = Some (v', mk', off')"
    by (auto simp: bind_eq_Some_conv)
  moreover have "map_option length mk1 = map_option length mk"
    using h(4) by (auto simp: bind_eq_Some_conv cover_bit_length split: option.splits)
  ultimately show ?case using "2.IH" [OF h(1-4)] cover_bit_length by simp
qed simp

lemma valueMaskAssemble_OK:
  assumes "valueMaskAssemble m n v mk kl g = Some (POF_OK, v', mk', g')"
  shows "g' = g \<and> length v' = length v \<and> map_option length mk' = map_option length mk"
  using assms
  by (auto simp: valueMaskAssemble_def bind_eq_Some_conv split: if_splits
      dest: assemble_loop_length err_upward_new_mono)

lemma zero_entry_lengths [simp]: "length (ei_value zero_entry) = 128" "length (ei_mask zero_entry) = 128"
  by (simp_all add: zero_entry_def)

text \<open>A successful filling changes no state and gives arrays of the full size.\<close>

lemma entryFill_True:
  assumes "entryFill msg table g = Some (True, e, h, g')"
  shows "g' = g \<and> length (ei_value e) = 128 \<and> length (ei_mask e) = 128
    \<and> get32 msg 32 = Some (ei_index e) \<and> get32 msg 4 = Some (ei_counter_id e)"
proof -
  obtain index counter_id insn ins mfn mx pr where b: "get32 msg 32 = Some index" "get32 msg 4 = Some counter_id"
    "rd msg 2 = Some insn" "mem_read (drop 360 msg) 1824 = Some ins" "rd msg 1 = Some mfn"
    "mem_read (drop 40 msg) 320 = Some mx" "get16 msg 30 = Some pr"
    using assms by (auto simp: entryFill_def bind_eq_Some_conv)
  consider "ti_type table = POF_LPM_TABLE \<or> ti_type table = POF_MM_TABLE" | "ti_type table = POF_EM_TABLE"
    | "ti_type table \<noteq> POF_LPM_TABLE" "ti_type table \<noteq> POF_MM_TABLE" "ti_type table \<noteq> POF_EM_TABLE" by blast
  then show ?thesis
  proof cases
    case 1
    then show ?thesis
      using assms b by (auto simp: entryFill_def Let_def bind_eq_Some_conv split: if_splits dest!: valueMaskAssemble_OK)
  next
    case 2
    then show ?thesis
      using assms b by (auto simp: entryFill_def Let_def bind_eq_Some_conv split: if_splits dest!: valueMaskAssemble_OK)
  next
    case 3
    then show ?thesis using assms b by (auto simp: entryFill_def Let_def split: if_splits)
  qed
qed


section \<open>A small table\<close>

text \<open>An LPM table with one entry, for the prefix \<open>1\<close>, and a request for the prefix \<open>01\<close>.\<close>

definition lpm_node :: "entryInfo hnode" where
  "lpm_node = \<lparr>hn_ptr = 1, hn_hash = 0, hn_obj = example_entry 0 0 (0x80 # replicate 127 0) (0x80 # replicate 127 0)\<rparr>"

definition lpm_table :: tableInfo where
  "lpm_table = (example_table 1 [lpm_node])\<lparr>ti_tree := Some \<lparr>tr_root = Node None NULL (Node (Some 1) NULL NULL), tr_count = 1\<rparr>\<rparr>"

definition example_matches :: bytes where
  "example_matches = [0, 0, 0, 0, 8, 0, 0, 0] @ (0x40 # replicate 15 0) @ (0xc0 # replicate 15 0) @ replicate 280 0"

lemma length_example_matches [simp]: "length example_matches = 320"
  by (simp add: example_matches_def)

definition example_flow :: "u8 \<Rightarrow> bytes" where
  "example_flow type = [0, 1, 0, 0, 0, 0, 0, 0] @ replicate 16 0 @ [0, type, 0, 0, 0, 0, 9, 0, 5, 0, 0, 0, 0, 0, 0, 0]
     @ example_matches @ replicate 1824 0"

definition example_flow_entry :: entryInfo where
  "example_flow_entry = \<lparr>ei_index = 5, ei_counter_id = 0, ei_instruction_num = 0, ei_instruction = replicate 1824 0,
     ei_priority = 9, ei_keyLen = 8, ei_match_field_num = 1,
     ei_match = example_matches,
     ei_value = 0x40 # replicate 127 0, ei_mask = 0xc0 # replicate 127 0\<rparr>"

lemma replicate_128: "replicate 128 (x :: u8) = x # replicate 127 x"
  using replicate_Suc [of 127 x] by (simp del: replicate_Suc)

lemma example_assemble:
  "valueMaskAssemble example_matches 1
     (replicate 128 0) (Some (replicate 128 0)) 8 g = Some (POF_OK, 0x40 # replicate 127 0, Some (0xc0 # replicate 127 0), g)"
  by (simp add: valueMaskAssemble_def match_x_len_def match_x_value_def match_x_mask_def get16_def get_le_def
      mem_read_def replicate_128 pofbf_cover_bit_def rd_def wr_def POF_MOVE_BIT_LEFT_def POF_MOVE_BIT_RIGHT_def example_matches_def)

lemma example_fill:
  assumes "ti_type table \<in> {0, 1}" "ti_keyLen table = 8"
  shows "entryFill (example_flow type) table g = Some (True, example_flow_entry, 5, g)"
proof -
  have "get32 (example_flow type) 32 = Some 5" "get32 (example_flow type) 4 = Some 0" "rd (example_flow type) 2 = Some 0"
    "rd (example_flow type) 1 = Some 1" "get16 (example_flow type) 30 = Some 9"
    by (simp_all add: example_flow_def get32_def get16_def get_le_def rd_def)
  moreover have "mem_read (drop 360 (example_flow type)) 1824 = Some (replicate 1824 0)"
    "mem_read (drop 40 (example_flow type)) 320 =
       Some example_matches"
    by (simp_all add: example_flow_def mem_read_def)
  moreover have "ei_value zero_entry = replicate 128 0" "ei_mask zero_entry = replicate 128 0" by (simp_all add: zero_entry_def)
  ultimately show ?thesis
    using assms by (auto simp: entryFill_def Let_def example_assemble entryHashByID_def hmap_hashForLinear_def)
      (simp_all add: example_flow_entry_def zero_entry_def)
qed

lemma count_ones_examples: "get1sCountInByte 0x80 = 1" "get1sCountInByte 0xc0 = 2"
  by (simp_all add: get1sCountInByte.simps)

lemma byte_ceil_8 [simp]: "byte_ceil 8 = 1"
  by (simp add: byte_ceil_def)

lemma lpm_table_sel:
  "ti_type lpm_table = 1" "ti_keyLen lpm_table = 8" "key_bytes lpm_table = 1" "ti_entryNum lpm_table = 1"
  by (simp_all add: lpm_table_def example_table_def byte_ceil_def)

lemma lpm_prefixes:
  "entry_plen lpm_table (hn_obj lpm_node) = 1" "entry_prefix lpm_table (hn_obj lpm_node) = [True]"
  "entry_plen lpm_table example_flow_entry = 2" "entry_prefix lpm_table example_flow_entry = [False, True]"
proof -
  show p: "entry_plen lpm_table (hn_obj lpm_node) = 1" "entry_plen lpm_table example_flow_entry = 2"
    by (simp_all add: entry_plen_def lpm_table_sel lpm_node_def example_entry_def example_flow_entry_def
        get1sCountInBytes_def mem_read_def count_ones_examples)
  show "entry_prefix lpm_table (hn_obj lpm_node) = [True]"
    unfolding entry_prefix_def p by (simp add: lpm_node_def example_entry_def bits_from_def bit_at_def)
  show "entry_prefix lpm_table example_flow_entry = [False, True]"
    unfolding entry_prefix_def p by (simp add: example_flow_entry_def bits_from_def bit_at_def upt_rec)
qed

lemma lpm_table_ok:
  "\<exists>m. ti_entryMap lpm_table = Some m \<and> hmap_nodes m = [lpm_node] \<and> hmap_ptrs m = {1} \<and> lpm_ok lpm_table"
proof -
  let ?m = "\<lparr>hm_buckets = [[lpm_node]], hm_mask = 0, hm_n = 1\<rparr>"
  have m: "ti_entryMap lpm_table = Some ?m" by (simp add: lpm_table_def example_table_def)
  have nodes: "hmap_nodes ?m = [lpm_node]" by (simp add: hmap_nodes_def)
  have "tree_map (Node None NULL (Node (Some 1) NULL NULL)) bs = Some p \<longleftrightarrow> bs = [True] \<and> p = (1 :: nat)" for bs p
    by (cases bs; cases "tl bs") auto
  moreover have "hmap_ok ?m" by (simp add: hmap_ok_def hmap_nodes_def bucketWithHash_def)
  moreover have "entries_wide lpm_table (hmap_nodes ?m)"
    unfolding nodes entries_wide_def lpm_table_sel by (simp add: lpm_node_def example_entry_def)
  moreover have "ti_tree lpm_table = Some \<lparr>tr_root = Node None NULL (Node (Some 1) NULL NULL), tr_count = 1\<rparr>"
    by (simp add: lpm_table_def)
  moreover have "hn_ptr lpm_node = 1" by (simp add: lpm_node_def)
  ultimately have "lpm_ok lpm_table"
    using m nodes lpm_prefixes(2) by (auto simp: lpm_ok_def lpm_table_sel(2))
  then show ?thesis using m nodes by (auto simp: hmap_ptrs_def lpm_node_def)
qed

lemma entryLookup_LPM_longest_prefix_witness:
  "entryLookup_LPM [0xa5] lpm_table = Some (Some lpm_node)"
proof -
  obtain m where m: "ti_entryMap lpm_table = Some m" "hmap_nodes m = [lpm_node]" "lpm_ok lpm_table"
    using lpm_table_ok by blast
  have "bits_from [0xa5] 0 1 = [True]" by (simp add: bits_from_def bit_at_def)
  then show ?thesis
    using entryLookup_LPM_longest_prefix [OF m(3,1), of "[0xa5]"] m(2) lpm_prefixes(1,2) lpm_table_sel(2,3)
    by auto
qed


end
