(* ===== verification/Pof_Flow_Mod.thy ===== *)
theory Pof_Flow_Mod
  imports Pof_Flow_Lpm
begin

text \<open>
  Changing flow tables: the ids of tables, creation and deletion of tables, and addition and
  deletion of flow entries, on top of the routines of \<open>Pof_Flow_Table\<close>. The table map is an
  instance of \<open>id_table\<close>, so creation and deletion are shown to refine a finite map.
\<close>

section \<open>Table ids\<close>

abbreviation offset_of :: "u16 list \<Rightarrow> nat \<Rightarrow> nat" where
  "offset_of ns t \<equiv> sum_list (map unat (take t ns))"

lemma unat_ucast_u16_u8: "unat (n :: u16) < 256 \<Longrightarrow> unat (ucast n :: u8) = unat n"
  by (simp add: unsigned_ucast_eq take_bit_nat_eq_self_iff)

lemma id_to_ID_loop_sum:
  "i + k \<le> length ns \<Longrightarrow> id_to_ID_loop ns k i ID = Some (ID + of_nat (sum_list (map unat (take k (drop i ns)))))"
proof (induction k arbitrary: i ID)
  case (Suc k)
  then have i: "i < length ns" by simp
  have "drop i ns = ns ! i # drop (i + 1) ns" using Cons_nth_drop_Suc [OF i] by simp
  then show ?case
    using Suc.IH [of "i + 1"] Suc.prems by (simp add: rd_Some add.assoc)
qed simp

lemma table_id_to_ID_value:
  assumes "unat type \<le> length (tableNumMaxEachType lr)"
  shows "poflr_table_id_to_ID type tid lr = Some (of_nat (offset_of (tableNumMaxEachType lr) (unat type) + unat tid))"
  using id_to_ID_loop_sum [of 0 "unat type" "tableNumMaxEachType lr" 0] assms
  by (simp add: poflr_table_id_to_ID_def)

lemma ID_to_id_loop_find:
  assumes "t < k" "i + t < length ns" "unat ID = sum_list (map unat (take t (drop i ns))) + x" "x < unat (ns ! (i + t))"
  shows "ID_to_id_loop ns k i ID = Some (Some (i + t, of_nat x))"
  using assms
proof (induction t arbitrary: k i ID)
  case 0
  then obtain k' where k: "k = Suc k'" by (cases k) auto
  have "\<not> ns ! i \<le> ucast ID" using 0 by (simp add: word_le_nat_alt not_le)
  moreover have x: "x = unat ID" using 0(3) by simp
  have "ID = of_nat x" by (simp add: x)
  ultimately show ?case using 0 k by (simp add: rd_Some)
next
  case (Suc t)
  then obtain k' where k: "k = Suc k'" by (cases k) auto
  have i: "i < length ns" using Suc.prems by simp
  have d: "drop i ns = ns ! i # drop (i + 1) ns" using Cons_nth_drop_Suc [OF i] by simp
  have sum: "unat ID = unat (ns ! i) + (sum_list (map unat (take t (drop (i + 1) ns))) + x)"
    using Suc.prems(3) by (simp add: d)
  have le: "ns ! i \<le> ucast ID" using sum by (simp add: word_le_nat_alt)
  have n256: "unat (ns ! i) < 256" using sum unat_u8_less [of ID] by linarith
  have "unat (ID - ucast (ns ! i)) = unat ID - unat (ns ! i)"
    using sum n256 by (simp add: unat_sub_if' unat_ucast_u16_u8)
  then have "unat (ID - ucast (ns ! i)) = sum_list (map unat (take t (drop (i + 1) ns))) + x" using sum by simp
  from Suc.IH [of k' "i + 1" "ID - ucast (ns ! i)", OF _ _ this] Suc.prems k
  show ?case using le i by (simp add: rd_Some)
qed

lemma offset_bound: "t < length ns \<Longrightarrow> offset_of ns t + unat (ns ! t) \<le> sum_list (map unat ns)"
proof -
  assume t: "t < length ns"
  have "ns = take t ns @ ns ! t # drop (Suc t) ns" using id_take_nth_drop [OF t] .
  then have "sum_list (map unat ns) = sum_list (map unat (take t ns @ ns ! t # drop (Suc t) ns))" by simp
  then show ?thesis by simp
qed

text \<open>
  Table ids per type and global table ids are in bijection when at most 256 tables are
  configured: the global id of a valid pair of type and id is its position in the list of all tables,
  and converting it back gives the pair again.
\<close>

theorem table_id_roundtrip:
  assumes "length (tableNumMaxEachType lr) = 4" "sum_list (map unat (tableNumMaxEachType lr)) \<le> 256"
    and "type < 4" "unat tid < unat (tableNumMaxEachType lr ! unat type)"
  shows "\<exists>ID. poflr_table_id_to_ID type tid lr = Some ID
    \<and> unat ID = offset_of (tableNumMaxEachType lr) (unat type) + unat tid
    \<and> poflr_table_ID_to_id ID lr g = Some (POF_OK, Some (type, tid), g)"
proof -
  let ?ns = "tableNumMaxEachType lr"
  have t: "unat type < 4" using assms(3) by (simp add: word_less_nat_alt)
  define ID :: u8 where "ID = of_nat (offset_of ?ns (unat type) + unat tid)"
  have "offset_of ?ns (unat type) + unat tid < 256"
    using offset_bound [of "unat type" ?ns] assms t by linarith
  then have u: "unat ID = offset_of ?ns (unat type) + unat tid" unfolding ID_def unat_of_nat by simp
  have "ID_to_id_loop ?ns 4 0 ID = Some (Some (0 + unat type, of_nat (unat tid)))"
    by (rule ID_to_id_loop_find) (use t assms u in simp_all)
  then have "poflr_table_ID_to_id ID lr g = Some (POF_OK, Some (type, tid), g)"
    by (simp add: poflr_table_ID_to_id_def)
  then show ?thesis using table_id_to_ID_value [of type lr tid] t assms(1) u unfolding ID_def [symmetric] by simp
qed

lemma table_id_roundtrip_witness:
  "\<exists>ID. poflr_table_id_to_ID 2 1 example_lr = Some ID \<and> unat ID = 5
    \<and> poflr_table_ID_to_id ID example_lr example_glob = Some (POF_OK, Some (2, 1), example_glob)"
  using table_id_roundtrip [of example_lr 2 1 example_glob] by (simp add: example_lr_def)

section \<open>The table map\<close>

abbreviation table_key :: "tableInfo \<Rightarrow> u32" where
  "table_key t \<equiv> ucast (ti_id t)"

abbreviation table_ok :: "pof_local_resource \<Rightarrow> bool" where
  "table_ok lr \<equiv> res_ok table_key (tableIdMap lr) (tableNum lr)"

definition tables :: "pof_local_resource \<Rightarrow> u8 \<Rightarrow> tableInfo option" where
  "tables lr ID = res_abs (tableIdMap lr) (ucast ID)"

definition but_tables :: "pof_local_resource \<Rightarrow> pof_local_resource" where
  "but_tables lr = lr\<lparr>tableIdMap := None, tableNum := 0\<rparr>"

definition table_get :: "u32 \<Rightarrow> pof_local_resource \<Rightarrow> tableInfo hnode option option" where
  "table_get k lr = do { m \<leftarrow> tableIdMap lr; hmap_nodeGetWithHash m k }"

lemma get_table_eq: "poflr_get_table_with_ID ID lr = table_get (ucast ID) lr"
  by (simp add: poflr_get_table_with_ID_def table_get_def map_tableHashByID_def hmap_hashForLinear_def)

interpretation tt: id_table tableIdMap tableNum but_tables map_tableInsert map_tableDelete table_get table_write table_key
  by unfold_locales
    (simp_all add: map_tableInsert_def map_tableDelete_def table_get_def table_write_def but_tables_def)

abbreviation tables_below :: "pof_local_resource \<Rightarrow> glob \<Rightarrow> bool" where
  "tables_below lr g \<equiv> below (malloc_n g) (res_ptrs (tableIdMap lr))"

lemma ucast_u8_u32_inj: "(ucast (a :: u8) :: u32) = ucast b \<longleftrightarrow> a = b"
  by (metis unat_ucast_u8_u32 word_unat_eq_iff)

lemma tables_upd: "res_abs (tableIdMap l') = (res_abs (tableIdMap l))(ucast ID := x) \<Longrightarrow> tables l' = (tables l)(ID := x)"
  by (auto simp: tables_def fun_eq_iff ucast_u8_u32_inj)

lemma table_err:
  assumes "tables_below lr g" "chan_ok g"
  shows "\<exists>g'. err_upward t c g = Some (ERR c, g') \<and> chan_ok g' \<and> same_but_queue g g' \<and> tables_below lr g'"
proof -
  obtain g' where g': "err_upward t c g = Some (ERR c, g')" "chan_ok g'" "same_but_queue g g'"
    using err_upward_ok [OF assms(2)] by blast
  then have "tables_below lr g'" using assms(1) below_mono by (fastforce simp: same_but_queue_def)
  then show ?thesis using g' by blast
qed

section \<open>Creating and deleting tables\<close>

definition global_id :: "pof_local_resource \<Rightarrow> u8 \<Rightarrow> u8 \<Rightarrow> u8" where
  "global_id lr type tid = of_nat (offset_of (tableNumMaxEachType lr) (unat type) + unat tid)"

text \<open>Which error a request to create or delete a table gets, in terms of the table map.\<close>

definition create_check :: "u8 \<Rightarrow> u8 \<Rightarrow> u16 \<Rightarrow> u32 \<Rightarrow> pof_local_resource \<Rightarrow> glob \<Rightarrow> pof_table_mod_failed_code option" where
  "create_check tid type key_len sz lr g = (
     if 4 \<le> type then Some POFTMFC_BAD_TABLE_TYPE
     else if tableNumMaxEachType lr ! unat type \<le> ucast tid then Some POFTMFC_BAD_TABLE_ID
     else if tables lr (global_id lr type tid) \<noteq> None then Some POFTMFC_TABLE_EXIST
     else if tableSizeMax lr < sz then Some POFTMFC_BAD_TABLE_SIZE
     else if poflr_key_len_each_type g ! unat type < key_len then Some POFTMFC_BAD_KEY_LEN
     else None)"

definition delete_check :: "u8 \<Rightarrow> u8 \<Rightarrow> pof_local_resource \<Rightarrow> pof_table_mod_failed_code option" where
  "delete_check tid type lr = (
     if 4 \<le> type then Some POFTMFC_BAD_TABLE_TYPE
     else if tableNumMaxEachType lr ! unat type \<le> ucast tid then Some POFTMFC_BAD_TABLE_ID
     else case tables lr (global_id lr type tid) of
         None \<Rightarrow> Some POFTMFC_TABLE_UNEXIST
       | Some t \<Rightarrow> if ti_entryNum t \<noteq> 0 then Some POFTMFC_TABLE_UNEMPTY else None)"

text \<open>A table as it is created: no entries, and for LPM an empty tree that agrees with them.\<close>

definition new_table :: "tableInfo \<Rightarrow> bool" where
  "new_table t \<longleftrightarrow> ti_entryNum t = 0 \<and> (\<exists>m. ti_entryMap t = Some m \<and> hmap_ok m \<and> hmap_nodes m = [])
     \<and> (ti_type t = POF_LPM_TABLE \<longrightarrow> lpm_ok t)"

text \<open>What deleting a table reads: its map, and for LPM its tree.\<close>

definition table_wf :: "tableInfo \<Rightarrow> bool" where
  "table_wf t \<longleftrightarrow> ti_entryMap t \<noteq> None \<and> (ti_type t = POF_LPM_TABLE \<longrightarrow> (\<exists>tr. ti_tree t = Some tr \<and> tr_root tr \<noteq> NULL))"

lemma hmap_create_alloc:
  assumes "no_alloc_failure g"
  shows "\<exists>m :: 'a hmap. hmap_create sz g = (Some m, g\<lparr>malloc_n := malloc_n g + 2\<rparr>) \<and> hmap_ok m \<and> hmap_nodes m = []"
proof -
  obtain m :: "'a hmap" where m: "hmap_create sz g = (Some m, g\<lparr>malloc_n := malloc_n g + 2\<rparr>)"
    using assms by (simp add: hmap_create_def hmapInit_def POF_MALLOC_SAFE_def malloc_def Let_def no_alloc_failure_def)
  then show ?thesis using hmap_create_ok by blast
qed

lemma tree_create_alloc:
  assumes "no_alloc_failure g"
  shows "tree_create g = (Some \<lparr>tr_root = Node None NULL NULL, tr_count = 0\<rparr>, g\<lparr>malloc_n := malloc_n g + 2\<rparr>)"
  using assms by (simp add: tree_create_def tree_nodeCreate_def POF_MALLOC_SAFE_def malloc_def Let_def no_alloc_failure_def)

lemma no_alloc_later: "no_alloc_failure g \<Longrightarrow> malloc_n g \<le> k \<Longrightarrow> no_alloc_failure (g\<lparr>malloc_n := k\<rparr>)"
  by (simp add: no_alloc_failure_def)

lemma chan_ok_later: "chan_ok g \<Longrightarrow> malloc_n g \<le> k \<Longrightarrow> chan_ok (g\<lparr>malloc_n := k\<rparr>)"
  by (simp add: chan_ok_def)

lemma tree_nodeDestroy_ok: "t \<noteq> NULL \<Longrightarrow> tree_nodeDestroy t = Some NULL"
  by (induction t) auto

lemma create_refused:
  assumes "length (tableNumMaxEachType lr) = 4" "length (poflr_key_len_each_type g) = 4" "table_ok lr"
    and "create_check tid type key_len sz lr g = Some c"
  shows "poflr_create_flow_table tid type key_len sz name mfn ms lr g =
    with_lr lr (err_upward POFET_TABLE_MOD_FAILED (TableE c) g)"
proof (cases "4 \<le> type")
  case True
  then show ?thesis using assms(4) by (simp add: create_check_def poflr_create_flow_table_def)
next
  case False
  then have t: "unat type < 4" by (simp add: word_le_nat_alt not_le)
  have ID: "poflr_table_id_to_ID type tid lr = Some (global_id lr type tid)"
    using table_id_to_ID_value [of type lr tid] t assms(1) by (simp add: global_id_def)
  obtain q where q: "poflr_get_table_with_ID (global_id lr type tid) lr = Some q"
    "q = None \<longleftrightarrow> tables lr (global_id lr type tid) = None"
    using tt.get_cases [OF assms(3), of "ucast (global_id lr type tid)"]
    by (metis get_table_eq option.distinct(1) tables_def)
  show ?thesis
    using False t ID q assms(1,2,4)
    by (simp add: create_check_def poflr_create_flow_table_def rd_Some split: if_splits)
qed

lemma create_accepted:
  assumes "length (tableNumMaxEachType lr) = 4" "length (poflr_key_len_each_type g) = 4" "table_ok lr" "tables_below lr g"
    and "chan_ok g" "create_check tid type key_len sz lr g = None" "mfn \<le> 8" "unat mfn * 8 \<le> length ms"
  shows "\<exists>lr' g' t. poflr_create_flow_table tid type key_len sz name mfn ms lr g = Some (POF_OK, lr', g')
    \<and> table_ok lr' \<and> tables_below lr' g' \<and> chan_ok g' \<and> but_tables lr' = but_tables lr
    \<and> tables lr' = (tables lr)(global_id lr type tid \<mapsto> t) \<and> new_table t
    \<and> ti_id t = global_id lr type tid \<and> ti_type t = type \<and> ti_size t = sz \<and> ti_keyLen t = key_len
    \<and> malloc_n g \<le> malloc_n g' \<and> poflr_key_len_each_type g' = poflr_key_len_each_type g"
proof -
  let ?ID = "global_id lr type tid"
  have t: "\<not> 4 \<le> type" "\<not> tableNumMaxEachType lr ! unat type \<le> ucast tid" "tables lr ?ID = None"
    "\<not> tableSizeMax lr < sz" "\<not> poflr_key_len_each_type g ! unat type < key_len"
    using assms(6) by (auto simp: create_check_def split: if_splits)
  then have ty: "unat type < 4" by (simp add: word_le_nat_alt not_le)
  have ID: "poflr_table_id_to_ID type tid lr = Some ?ID"
    using table_id_to_ID_value [of type lr tid] ty assms(1) by (simp add: global_id_def)
  have get: "poflr_get_table_with_ID ?ID lr = Some None"
    using tt.get_None [OF assms(3)] t(3) by (simp add: get_table_eq tables_def)
  have al: "no_alloc_failure g" by (rule chan_ok_alloc [OF assms(5)])
  let ?p = "malloc_n g + 1"
  let ?g1 = "g\<lparr>malloc_n := ?p\<rparr>"
  have p: "map_tableCreate g = (Some ?p, ?g1)"
    using al by (simp add: map_tableCreate_def POF_MALLOC_SAFE_def malloc_def Let_def no_alloc_failure_def)
  have al1: "no_alloc_failure ?g1" using no_alloc_later [OF al] by simp
  obtain em :: "entryInfo hmap" where em: "hmap_create sz ?g1 = (Some em, ?g1\<lparr>malloc_n := malloc_n ?g1 + 2\<rparr>)" "hmap_ok em" "hmap_nodes em = []"
    using hmap_create_alloc [OF al1] by blast
  define g2 where "g2 = ?g1\<lparr>malloc_n := malloc_n ?g1 + 2\<rparr>"
  have al2: "no_alloc_failure g2" using no_alloc_later [OF al1] by (simp add: g2_def)
  define tree :: "nat tree option" where "tree = fst (if type = POF_LPM_TABLE then tree_create g2 else (None, g2))"
  define g3 where "g3 = snd (if type = POF_LPM_TABLE then tree_create g2 else (None :: nat tree option, g2))"
  have "g3 = g\<lparr>malloc_n := malloc_n g + (if type = POF_LPM_TABLE then 5 else 3)\<rparr>"
    unfolding g3_def using tree_create_alloc [OF al2, where 'a = nat] by (simp add: g2_def)
  then have g3: "\<exists>k \<ge> ?p. g3 = g\<lparr>malloc_n := k\<rparr>" 
    by (intro exI [of _ "malloc_n g + (if type = POF_LPM_TABLE then 5 else 3)"]) simp
  have mfn: "unat mfn * 8 \<le> 64" using assms(7) by (simp add: word_le_nat_alt)
  define ms' where "ms' = take (unat mfn * 8) ms @ drop (unat mfn * 8) (replicate 64 0)"
  have ms': "(do { x \<leftarrow> mem_read ms (unat mfn * 8); mem_write (replicate 64 0) 0 x }) = Some ms'"
    using assms(8) mfn by (simp add: mem_read_def mem_write_def ms'_def)
  define tb where "tb = \<lparr>ti_id = ?ID, ti_type = type, ti_name = strncpy 64 name, ti_entryMap = Some em,
      ti_entryNum = 0, ti_size = sz, ti_keyLen = key_len, ti_tree = tree, ti_match_field_num = mfn, ti_match = ms'\<rparr>"
  let ?n = "\<lparr>hn_ptr = ?p, hn_hash = ucast ?ID, hn_obj = tb\<rparr>"
  have "hn_ptr ?n \<notin> res_ptrs (tableIdMap lr)" using assms(4) by (auto simp: below_def)
  moreover have "hn_hash ?n = table_key (hn_obj ?n)" by (simp add: tb_def)
  ultimately obtain lr' where lr': "map_tableInsert ?n lr = Some lr'" "table_ok lr'"
    "res_abs (tableIdMap lr') = (res_abs (tableIdMap lr))(ucast ?ID \<mapsto> tb)"
    "res_ptrs (tableIdMap lr') = insert ?p (res_ptrs (tableIdMap lr))" "but_tables lr' = but_tables lr"
    using tt.insert [OF assms(3), of ?n] t(3) by (auto simp: tables_def)
  have run: "poflr_create_flow_table tid type key_len sz name mfn ms lr g = Some (POF_OK, lr', g3)"
  proof (cases "type = POF_LPM_TABLE")
    case True
    then show ?thesis
      using t ty ID get p em(1) ms' lr'(1) assms(1,2) tree_create_alloc [OF al2, where 'a = nat, unfolded g2_def]
      by (simp add: poflr_create_flow_table_def rd_Some tree_def g3_def g2_def tb_def map_tableHashByID_def
          hmap_hashForLinear_def bind_eq_Some_conv) auto?
  next
    case False
    then show ?thesis
      using t ty ID get p em(1) ms' lr'(1) assms(1,2)
      by (simp add: poflr_create_flow_table_def rd_Some tree_def g3_def g2_def tb_def map_tableHashByID_def
          hmap_hashForLinear_def bind_eq_Some_conv) auto?
  qed
  have "lpm_ok tb" if "type = POF_LPM_TABLE"
  proof -
    have "tree_map (Node None NULL NULL) bs = (None :: nat option)" for bs by (cases bs) auto
    then show ?thesis using that em(2,3) tree_create_alloc [OF al2, where 'a = nat] by (simp add: lpm_ok_def tb_def tree_def entries_wide_def)
  qed
  then have "new_table tb" using em(2,3) by (simp add: new_table_def tb_def)
  moreover have "tables_below lr' g3" "chan_ok g3"
    using lr'(4) g3 assms(4) chan_ok_later [OF assms(5)] by (auto simp: below_def)
  moreover have "malloc_n g \<le> malloc_n g3" "poflr_key_len_each_type g3 = poflr_key_len_each_type g" using g3 by auto
  ultimately show ?thesis using run lr' tables_upd [OF lr'(3)] by (auto simp: tb_def)
qed

text \<open>
  C21. Creating a flow table, on a working channel and with at most eight match fields: the request
  is refused with the error of the first failing check (type, id, table exists, size, key length)
  and the map of tables stays as it is; otherwise the map gains exactly one table, under the global
  id, of the requested type, size and key length, without entries, and with an empty consistent
  tree when its type is LPM.
\<close>

theorem poflr_create_flow_table_refines:
  assumes "length (tableNumMaxEachType lr) = 4" "length (poflr_key_len_each_type g) = 4" "table_ok lr" "tables_below lr g"
    and "chan_ok g" "mfn \<le> 8" "unat mfn * 8 \<le> length ms"
  shows "\<exists>r lr' g'. poflr_create_flow_table tid type key_len sz name mfn ms lr g = Some (r, lr', g')
    \<and> table_ok lr' \<and> tables_below lr' g' \<and> chan_ok g' \<and> but_tables lr' = but_tables lr
    \<and> (case create_check tid type key_len sz lr g of
          Some c \<Rightarrow> r = ERR (TableE c) \<and> tables lr' = tables lr
        | None \<Rightarrow> r = POF_OK \<and> (\<exists>t. tables lr' = (tables lr)(global_id lr type tid \<mapsto> t) \<and> new_table t
            \<and> ti_id t = global_id lr type tid \<and> ti_type t = type \<and> ti_size t = sz \<and> ti_keyLen t = key_len))"
proof (cases "create_check tid type key_len sz lr g")
  case None
  then show ?thesis using create_accepted [OF assms(1-5) None assms(6,7)] by fastforce
next
  case (Some c)
  then show ?thesis
    using create_refused [OF assms(1-3) Some] table_err [OF assms(4,5)] assms(3) by (fastforce simp: with_lr_def)
qed

lemma poflr_create_flow_table_refines_witness:
  "\<exists>lr' g' t. poflr_create_flow_table 0 2 32 8 [65, 0] 1 (replicate 8 0) example_lr example_glob = Some (POF_OK, lr', g')
    \<and> tables lr' = (tables example_lr)(4 \<mapsto> t) \<and> new_table t"
proof -
  have lens: "length (tableNumMaxEachType example_lr) = 4" "length (poflr_key_len_each_type example_glob) = 4"
    by (simp_all add: example_lr_def example_glob_def)
  have ok: "table_ok example_lr" "tables_below example_lr example_glob" by (simp_all add: example_lr_def)
  have gid: "global_id example_lr 2 0 = 4" by (simp add: global_id_def example_lr_def)
  have "create_check 0 2 32 8 example_lr example_glob = None"
    unfolding create_check_def gid by (simp add: tables_def example_lr_def example_glob_def)
  then show ?thesis
    using poflr_create_flow_table_refines [OF lens ok example_glob_ok(1), of 1 "replicate 8 0" 0 2 32 8 "[65, 0]"] gid by auto
qed

lemma delete_ok:
  assumes "length (tableNumMaxEachType lr) = 4" "table_ok lr" "tables_below lr g" "delete_check tid type lr = None"
    and "\<And>t. tables lr (global_id lr type tid) = Some t \<Longrightarrow> table_wf t"
  shows "\<exists>lr'. poflr_delete_flow_table tid type lr g = Some (POF_OK, lr', g) \<and> table_ok lr' \<and> tables_below lr' g
    \<and> but_tables lr' = but_tables lr \<and> tables lr' = (tables lr)(global_id lr type tid := None)"
proof -
  let ?ID = "global_id lr type tid"
  obtain t where t: "\<not> 4 \<le> type" "\<not> tableNumMaxEachType lr ! unat type \<le> ucast tid" "tables lr ?ID = Some t" "ti_entryNum t = 0"
    using assms(4) by (auto simp: delete_check_def split: if_splits option.splits)
  then have ty: "unat type < 4" by (simp add: word_le_nat_alt not_le)
  have ID: "poflr_table_id_to_ID type tid lr = Some ?ID"
    using table_id_to_ID_value [of type lr tid] ty assms(1) by (simp add: global_id_def)
  obtain n where n: "table_get (ucast ?ID) lr = Some (Some n)" "hn_obj n = t"
    using tt.get_Some [OF assms(2)] t(3) by (auto simp: tables_def)
  have d: "table_destroy t = Some ()"
    using assms(5) [OF t(3)] by (auto simp: table_wf_def table_destroy_def tree_destroy_def tree_nodeDestroy_ok)
  obtain lr' where lr': "map_tableDelete n lr = Some lr'" "table_ok lr'"
    "res_abs (tableIdMap lr') = (res_abs (tableIdMap lr))(ucast ?ID := None)"
    "res_ptrs (tableIdMap lr') = res_ptrs (tableIdMap lr) - {hn_ptr n}" "but_tables lr' = but_tables lr"
    using tt.delete [OF assms(2) n(1)] by blast
  have "poflr_delete_flow_table tid type lr g = Some (POF_OK, lr', g)"
    using t ty ID n d lr'(1) assms(1) by (simp add: poflr_delete_flow_table_def rd_Some get_table_eq)
  moreover have "tables_below lr' g" using lr'(4) assms(3) by (auto simp: below_def)
  ultimately show ?thesis using lr' tables_upd [OF lr'(3)] by auto
qed

lemma delete_refused:
  assumes "length (tableNumMaxEachType lr) = 4" "table_ok lr" "delete_check tid type lr = Some c"
  shows "poflr_delete_flow_table tid type lr g = with_lr lr (err_upward POFET_TABLE_MOD_FAILED (TableE c) g)"
proof (cases "4 \<le> type")
  case True
  then show ?thesis using assms(3) by (simp add: delete_check_def poflr_delete_flow_table_def)
next
  case False
  then have t: "unat type < 4" by (simp add: word_le_nat_alt not_le)
  have ID: "poflr_table_id_to_ID type tid lr = Some (global_id lr type tid)"
    using table_id_to_ID_value [of type lr tid] t assms(1) by (simp add: global_id_def)
  obtain q where q: "poflr_get_table_with_ID (global_id lr type tid) lr = Some q"
    "map_option hn_obj q = tables lr (global_id lr type tid)"
  proof (rule tt.get_cases [OF assms(2), of "ucast (global_id lr type tid)"])
  qed (auto simp: get_table_eq tables_def)
  show ?thesis
    using False t ID q(1) assms(1,3) q(2) [symmetric]
    by (cases q) (auto simp: delete_check_def poflr_delete_flow_table_def rd_Some split: if_splits)
qed

text \<open>
  Deleting a flow table: refused with the first failing check (type, id, existence, and a table
  that still has entries), leaving the map of tables unchanged; otherwise exactly the table with
  the global id is gone.
\<close>

theorem poflr_delete_flow_table_refines:
  assumes "length (tableNumMaxEachType lr) = 4" "table_ok lr" "tables_below lr g" "chan_ok g"
    and "\<And>t. tables lr (global_id lr type tid) = Some t \<Longrightarrow> table_wf t"
  shows "\<exists>r lr' g'. poflr_delete_flow_table tid type lr g = Some (r, lr', g')
    \<and> table_ok lr' \<and> tables_below lr' g' \<and> chan_ok g' \<and> but_tables lr' = but_tables lr
    \<and> (case delete_check tid type lr of
          Some c \<Rightarrow> r = ERR (TableE c) \<and> tables lr' = tables lr
        | None \<Rightarrow> r = POF_OK \<and> tables lr' = (tables lr)(global_id lr type tid := None))"
proof (cases "delete_check tid type lr")
  case None
  then show ?thesis using delete_ok [OF assms(1-3) None assms(5)] assms(4) by fastforce
next
  case (Some c)
  then show ?thesis
    using delete_refused [OF assms(1,2) Some, of g] table_err [OF assms(3,4)] assms(2) by (fastforce simp: with_lr_def)
qed

lemma poflr_delete_flow_table_refines_witness:
  "\<exists>lr' g'. poflr_delete_flow_table 0 2 example_lr example_glob = Some (ERR (TableE POFTMFC_TABLE_UNEXIST), lr', g')
    \<and> tables lr' = tables example_lr"
proof -
  have none: "tables example_lr i = None" for i by (simp add: tables_def example_lr_def)
  have ok: "length (tableNumMaxEachType example_lr) = 4" "table_ok example_lr" "tables_below example_lr example_glob"
    by (simp_all add: example_lr_def)
  have "delete_check 0 2 example_lr = Some POFTMFC_TABLE_UNEXIST"
    unfolding delete_check_def none by (simp add: example_lr_def)
  then show ?thesis
    using poflr_delete_flow_table_refines [OF ok example_glob_ok(1), where type = 2 and tid = 0] none by auto
qed

end
