(* ===== verification/Pof_Meter.thy ===== *)
theory Pof_Meter
  imports Pof_Resource
begin

text \<open>
  The meter table: \<^verbatim>\<open>local_resource/pof_meter.c\<close>. Adding, modifying and deleting a meter are
  shown to refine insertion, update and removal of a finite map from ids to rates.
\<close>

section \<open>Definitions\<close>

definition map_meterCreate :: "glob \<Rightarrow> nat option \<times> glob" where
  "map_meterCreate g = POF_MALLOC_SAFE g"

definition map_meterDelete :: "meterInfo hnode \<Rightarrow> pof_local_resource \<Rightarrow> pof_local_resource option" where
  "map_meterDelete meter lr = do {
     m \<leftarrow> meterMap lr;
     m' \<leftarrow> hmap_nodeDelete m meter;
     Some (lr\<lparr>meterMap := Some m', meterNum := meterNum lr - 1\<rparr>)
   }"

definition map_meterInsert :: "meterInfo hnode \<Rightarrow> pof_local_resource \<Rightarrow> pof_local_resource option" where
  "map_meterInsert meter lr = do {
     m \<leftarrow> meterMap lr;
     m' \<leftarrow> hmap_nodeInsert m meter;
     Some (lr\<lparr>meterMap := Some m', meterNum := meterNum lr + 1\<rparr>)
   }"

definition map_meterHashByID :: "u32 \<Rightarrow> u32" where
  "map_meterHashByID i = hmap_hashForLinear i"

definition poflr_get_meter_with_ID :: "u32 \<Rightarrow> pof_local_resource \<Rightarrow> meterInfo hnode option option" where
  "poflr_get_meter_with_ID i lr = do {
     m \<leftarrow> meterMap lr;
     hmap_nodeGetWithHash m (map_meterHashByID i)
   }"

definition meter_write :: "nat \<Rightarrow> (meterInfo \<Rightarrow> meterInfo) \<Rightarrow> pof_local_resource \<Rightarrow> pof_local_resource" where
  "meter_write p f lr = lr\<lparr>meterMap := map_option (hmap_write p f) (meterMap lr)\<rparr>"

definition poflr_add_meter_entry :: "u32 \<Rightarrow> u32 \<Rightarrow> pof_local_resource \<Rightarrow> glob \<Rightarrow> (ret \<times> pof_local_resource \<times> glob) option" where
  "poflr_add_meter_entry meter_id rate lr g = (
     if meterNumMax lr \<le> meter_id then
       with_lr lr (err_upward POFET_METER_MOD_FAILED (MeterE POFMMFC_INVALID_METER) g)
     else do {
       q \<leftarrow> poflr_get_meter_with_ID meter_id lr;
       (case q of
          Some _ \<Rightarrow> with_lr lr (err_upward POFET_METER_MOD_FAILED (MeterE POFMMFC_METER_EXISTS) g)
        | None \<Rightarrow> (case map_meterCreate g of
            (None, g1) \<Rightarrow> with_lr lr (err_upward_new POFET_SOFTWARE_FAILED (SoftE POF_ALLOCATE_RESOURCE_FAILURE) g1)
          | (Some p, g1) \<Rightarrow> do {
              lr' \<leftarrow> map_meterInsert \<lparr>hn_ptr = p, hn_hash = map_meterHashByID meter_id,
                       hn_obj = \<lparr>mi_rate = rate, mi_id = meter_id\<rparr>\<rparr> lr;
              Some (POF_OK, lr', g1)
            }))
     })"

definition poflr_modify_meter_entry :: "u32 \<Rightarrow> u32 \<Rightarrow> pof_local_resource \<Rightarrow> glob \<Rightarrow> (ret \<times> pof_local_resource \<times> glob) option" where
  "poflr_modify_meter_entry meter_id rate lr g = (
     if meterNumMax lr \<le> meter_id then
       with_lr lr (err_upward POFET_METER_MOD_FAILED (MeterE POFMMFC_INVALID_METER) g)
     else do {
       q \<leftarrow> poflr_get_meter_with_ID meter_id lr;
       (case q of
          None \<Rightarrow> with_lr lr (err_upward POFET_METER_MOD_FAILED (MeterE POFMMFC_UNKNOWN_METER) g)
        | Some meter \<Rightarrow> Some (POF_OK, meter_write (hn_ptr meter) (\<lambda>m. m\<lparr>mi_rate := rate\<rparr>) lr, g))
     })"

definition poflr_delete_meter_entry :: "u32 \<Rightarrow> u32 \<Rightarrow> pof_local_resource \<Rightarrow> glob \<Rightarrow> (ret \<times> pof_local_resource \<times> glob) option" where
  "poflr_delete_meter_entry meter_id rate lr g = (
     if meterNumMax lr \<le> meter_id then
       with_lr lr (err_upward POFET_METER_MOD_FAILED (MeterE POFMMFC_INVALID_METER) g)
     else do {
       q \<leftarrow> poflr_get_meter_with_ID meter_id lr;
       (case q of
          None \<Rightarrow> with_lr lr (err_upward POFET_METER_MOD_FAILED (MeterE POFMMFC_UNKNOWN_METER) g)
        | Some meter \<Rightarrow> do { lr' \<leftarrow> map_meterDelete meter lr; Some (POF_OK, lr', g) })
     })"

definition poflr_init_meter :: "pof_local_resource \<Rightarrow> glob \<Rightarrow> ret \<times> pof_local_resource \<times> glob" where
  "poflr_init_meter lr g = (case hmap_create (meterNumMax lr) g of
      (None, g1) \<Rightarrow> (case err_no_upward POFET_SOFTWARE_FAILED (SoftE POF_ALLOCATE_RESOURCE_FAILURE) g1 of
          (r, g2) \<Rightarrow> (r, lr\<lparr>meterMap := None\<rparr>, g2))
    | (Some m, g1) \<Rightarrow> (POF_OK, lr\<lparr>meterMap := Some m\<rparr>, g1))"

definition poflr_empty_meter :: "pof_local_resource \<Rightarrow> (ret \<times> pof_local_resource) option" where
  "poflr_empty_meter lr = (case meterMap lr of
      None \<Rightarrow> Some (POF_OK, lr)
    | Some _ \<Rightarrow> do {
        (r, lr') \<leftarrow> hmap_struct_traverse meterMap
          (\<lambda>meter l. map_option (\<lambda>l'. (None, l')) (map_meterDelete meter l)) lr;
        Some (case r of Some v \<Rightarrow> v | None \<Rightarrow> POF_OK, lr')
      })"

text \<open>The static \<^verbatim>\<open>reply\<close> of the file; the message is a \<^verbatim>\<open>struct pof_meter\<close>.\<close>

definition pof_meter_bytes :: "u16 \<Rightarrow> meterInfo \<Rightarrow> bytes" where
  "pof_meter_bytes slot m = [4, 0] @ le_bytes 2 slot @ le_bytes 4 (mi_id m) @ le_bytes 4 (mi_rate m) @ [0, 0, 0, 0]"

definition meter_reply :: "meterInfo \<Rightarrow> pof_local_resource \<Rightarrow> glob \<Rightarrow> (ret \<times> glob) option" where
  "meter_reply m lr g = do {
     body \<leftarrow> run_conv (pof_NtoH_transfer_meter 0) (pof_meter_bytes (slotID lr) m);
     (r, g1) \<leftarrow> pofec_reply_msg POFT_METER_MOD (g_recv_xid g) 16 (Some body) g;
     (if r \<noteq> POF_OK then err_upward POFET_SOFTWARE_FAILED (SoftE POF_WRITE_MSG_QUEUE_FAILURE) g1
      else Some (POF_OK, g1))
   }"

definition poflr_reply_meter :: "pof_local_resource \<Rightarrow> u32 \<Rightarrow> glob \<Rightarrow> (ret \<times> glob) option" where
  "poflr_reply_meter lr meterID g = do {
     q \<leftarrow> poflr_get_meter_with_ID meterID lr;
     (case q of
        None \<Rightarrow> err_upward POFET_METER_MOD_FAILED (MeterE POFMMFC_UNKNOWN_METER) g
      | Some meter \<Rightarrow> meter_reply (hn_obj meter) lr g)
   }"

definition poflr_reply_meter_all :: "pof_local_resource \<Rightarrow> glob \<Rightarrow> (ret \<times> glob) option" where
  "poflr_reply_meter_all lr g = do {
     (r, g') \<leftarrow> hmap_struct_traverse (\<lambda>_. meterMap lr)
       (\<lambda>meter g. do {
          (r, g1) \<leftarrow> meter_reply (hn_obj meter) lr g;
          Some (if r \<noteq> POF_OK then Some r else None, g1)
        }) g;
     Some (case r of Some v \<Rightarrow> v | None \<Rightarrow> POF_OK, g')
   }"

section \<open>The table as a finite map\<close>

abbreviation meter_ok :: "pof_local_resource \<Rightarrow> bool" where
  "meter_ok lr \<equiv> res_ok mi_id (meterMap lr) (meterNum lr)"

abbreviation meters :: "pof_local_resource \<Rightarrow> u32 \<Rightarrow> meterInfo option" where
  "meters lr \<equiv> res_abs (meterMap lr)"

abbreviation meters_below :: "pof_local_resource \<Rightarrow> glob \<Rightarrow> bool" where
  "meters_below lr g \<equiv> below (malloc_n g) (res_ptrs (meterMap lr))"

definition but_meters :: "pof_local_resource \<Rightarrow> pof_local_resource" where
  "but_meters lr = lr\<lparr>meterMap := None, meterNum := 0\<rparr>"

interpretation mt: id_table meterMap meterNum but_meters map_meterInsert map_meterDelete
    poflr_get_meter_with_ID meter_write mi_id
  by unfold_locales
    (simp_all add: map_meterInsert_def map_meterDelete_def poflr_get_meter_with_ID_def meter_write_def
      but_meters_def map_meterHashByID_def hmap_hashForLinear_def)

text \<open>The three commands on finite maps.\<close>

datatype meter_cmd = MAdd | MModify | MDelete

definition meter_spec :: "meter_cmd \<Rightarrow> u32 \<Rightarrow> u32 \<Rightarrow> u32 \<Rightarrow> (u32 \<Rightarrow> meterInfo option) \<Rightarrow> ret \<times> (u32 \<Rightarrow> meterInfo option)" where
  "meter_spec cmd mx i rate ms = (
     if mx \<le> i then (ERR (MeterE POFMMFC_INVALID_METER), ms)
     else case (cmd, ms i) of
       (MAdd, None) \<Rightarrow> (POF_OK, ms(i \<mapsto> \<lparr>mi_rate = rate, mi_id = i\<rparr>))
     | (MAdd, Some _) \<Rightarrow> (ERR (MeterE POFMMFC_METER_EXISTS), ms)
     | (_, None) \<Rightarrow> (ERR (MeterE POFMMFC_UNKNOWN_METER), ms)
     | (MModify, Some _) \<Rightarrow> (POF_OK, ms(i \<mapsto> \<lparr>mi_rate = rate, mi_id = i\<rparr>))
     | (MDelete, Some _) \<Rightarrow> (POF_OK, ms(i := None)))"

definition meter_op :: "meter_cmd \<Rightarrow> u32 \<Rightarrow> u32 \<Rightarrow> pof_local_resource \<Rightarrow> glob \<Rightarrow> (ret \<times> pof_local_resource \<times> glob) option" where
  "meter_op cmd = (case cmd of MAdd \<Rightarrow> poflr_add_meter_entry | MModify \<Rightarrow> poflr_modify_meter_entry
     | MDelete \<Rightarrow> poflr_delete_meter_entry)"

lemmas meter_op_defs = meter_op_def meter_spec_def poflr_add_meter_entry_def poflr_modify_meter_entry_def
  poflr_delete_meter_entry_def with_lr_def

lemma meter_err:
  assumes "meters_below lr g" "chan_ok g"
  shows "\<exists>g'. err_upward t c g = Some (ERR c, g') \<and> chan_ok g' \<and> meters_below lr g'"
proof -
  obtain g' where g': "err_upward t c g = Some (ERR c, g')" "chan_ok g'" "same_but_queue g g'"
    using err_upward_ok [OF assms(2)] by blast
  then have "meters_below lr g'" using assms(1) below_mono by (fastforce simp: same_but_queue_def)
  then show ?thesis using g' by blast
qed

lemma meter_add_fresh:
  assumes "meter_ok lr" "meters_below lr g" "chan_ok g" "i < meterNumMax lr" "meters lr i = None"
  shows "\<exists>lr' g'. poflr_add_meter_entry i rate lr g = Some (POF_OK, lr', g') \<and> meter_ok lr' \<and> meters_below lr' g'
    \<and> chan_ok g' \<and> but_meters lr' = but_meters lr \<and> meters lr' = (meters lr)(i \<mapsto> \<lparr>mi_rate = rate, mi_id = i\<rparr>)"
proof -
  obtain p g1 where p: "map_meterCreate g = (Some p, g1)" "p = malloc_n g + 1" "g1 = g\<lparr>malloc_n := p\<rparr>"
    using assms(3) by (auto simp: map_meterCreate_def POF_MALLOC_SAFE_def malloc_def Let_def chan_ok_def)
  let ?n = "\<lparr>hn_ptr = p, hn_hash = i, hn_obj = \<lparr>mi_rate = rate, mi_id = i\<rparr>\<rparr>"
  have "hn_ptr ?n \<notin> res_ptrs (meterMap lr)" using assms(2) p(2) by (auto simp: below_def)
  then obtain lr' where lr': "map_meterInsert ?n lr = Some lr'" "meter_ok lr'"
    "meters lr' = (meters lr)(i \<mapsto> hn_obj ?n)"
    "res_ptrs (meterMap lr') = insert p (res_ptrs (meterMap lr))" "but_meters lr' = but_meters lr"
    using mt.insert [OF assms(1), of ?n] assms(5) by auto
  moreover have "meters_below lr' g1" using lr'(4) p assms(2) by (auto simp: below_def)
  moreover have "chan_ok g1" using assms(3) p by (auto simp: chan_ok_def)
  moreover have "poflr_get_meter_with_ID i lr = Some None" using mt.get_cases [OF assms(1), of i] assms(5) by force
  ultimately show ?thesis
    using not_le [THEN iffD2, OF assms(4)] p
    by (simp add: poflr_add_meter_entry_def map_meterHashByID_def hmap_hashForLinear_def)
qed

lemma meter_op_present:
  assumes "meter_ok lr" "meters_below lr g" "chan_ok g" "i < meterNumMax lr" "meters lr i = Some m"
  shows "\<exists>r lr' g'. meter_op cmd i rate lr g = Some (r, lr', g') \<and> meter_ok lr' \<and> meters_below lr' g'
    \<and> chan_ok g' \<and> but_meters lr' = but_meters lr \<and> (r, meters lr') = meter_spec cmd (meterNumMax lr) i rate (meters lr)"
proof -
  have lt: "\<not> meterNumMax lr \<le> i" using assms(4) by (simp add: not_le)
  obtain n where n: "poflr_get_meter_with_ID i lr = Some (Some n)" "hn_obj n = m" "mi_id m = i"
    using mt.get_cases [OF assms(1), of i] assms(5) by force
  show ?thesis
  proof (cases cmd)
    case MAdd
    then show ?thesis using lt n assms meter_err [OF assms(2,3)] by (fastforce simp: meter_op_defs)
  next
    case MModify
    show ?thesis
      using MModify lt n assms mt.update_at [OF assms(1) n(1), of "\<lambda>m. m\<lparr>mi_rate := rate\<rparr>"]
      by (cases m) (simp add: meter_op_defs but_meters_def meter_write_def)
  next
    case MDelete
    obtain lr' where lr': "map_meterDelete n lr = Some lr'" "meter_ok lr'" "meters lr' = (meters lr)(i := None)"
      "res_ptrs (meterMap lr') = res_ptrs (meterMap lr) - {hn_ptr n}" "but_meters lr' = but_meters lr"
      using mt.delete [OF assms(1) n(1)] by blast
    then show ?thesis using MDelete lt n assms by (auto simp: meter_op_defs below_def)
  qed
qed

lemma meter_op_ok:
  assumes "meter_ok lr" "meters_below lr g" "chan_ok g"
  shows "\<exists>r lr' g'. meter_op cmd i rate lr g = Some (r, lr', g') \<and> meter_ok lr' \<and> meters_below lr' g'
    \<and> chan_ok g' \<and> but_meters lr' = but_meters lr
    \<and> (r, meters lr') = meter_spec cmd (meterNumMax lr) i rate (meters lr)"
proof (cases "meterNumMax lr \<le> i")
  case True
  then show ?thesis using assms meter_err [OF assms(2,3)] by (cases cmd) (fastforce simp: meter_op_defs)+
next
  case False
  then have lt: "i < meterNumMax lr" by simp
  show ?thesis
  proof (cases "meters lr i")
    case None
    have get: "poflr_get_meter_with_ID i lr = Some None" using mt.get_cases [OF assms(1), of i] None by force
    show ?thesis
    proof (cases "cmd = MAdd")
      case True
      then show ?thesis using meter_add_fresh [OF assms lt None, of rate] False None
        by (auto simp: meter_op_def meter_spec_def)
    next
      case nadd: False
      then show ?thesis using get None False assms meter_err [OF assms(2,3)]
        by (cases cmd) (fastforce simp: meter_op_defs)+
    qed
  next
    case (Some m)
    then show ?thesis using meter_op_present [OF assms lt] by blast
  qed
qed

text \<open>
  C18. The meter table refines a finite map: each of add, modify and delete returns on a working
  channel, keeps the invariant and the rest of the local resource, and gives the result and
  the new map of the specification, including the three refusals (id out of range, meter exists,
  meter unknown), which leave the map unchanged.
\<close>

theorem meter_operations_refine:
  assumes "meter_ok lr" "meters_below lr g" "chan_ok g"
  shows "\<exists>r lr' g'. meter_op cmd i rate lr g = Some (r, lr', g') \<and> meter_ok lr' \<and> meters_below lr' g'
    \<and> chan_ok g' \<and> but_meters lr' = but_meters lr
    \<and> (r, meters lr') = meter_spec cmd (meterNumMax lr) i rate (meters lr)"
  by (rule meter_op_ok [OF assms])

lemma meter_operations_refine_witness:
  "\<exists>lr' g'. poflr_add_meter_entry 2 900 example_lr example_glob = Some (POF_OK, lr', g')
    \<and> meters lr' = [2 \<mapsto> \<lparr>mi_rate = 900, mi_id = 2\<rparr>]"
  using meter_operations_refine [of example_lr example_glob MAdd 2 900] example_glob_ok
  by (auto simp: meter_op_def meter_spec_def example_lr_def fun_eq_iff)

section \<open>Reporting, set-up and reset\<close>

lemma meter_reply_ok:
  assumes "chan_ok g"
  shows "\<exists>g'. meter_reply m lr g = Some (POF_OK, g') \<and> chan_ok g' \<and> same_but_queue g g'
    \<and> send_queue g' = (if sending g then send_queue g @ [msg_header POFT_METER_MOD (g_recv_xid g) 24
        @ [4, 0] @ rev (le_bytes 2 (slotID lr)) @ rev (le_bytes 4 (mi_id m)) @ rev (le_bytes 4 (mi_rate m)) @ [0, 0, 0, 0]]
       else send_queue g)"
proof -
  define w where "w = [4, 0] @ rev (le_bytes 2 (slotID lr)) @ rev (le_bytes 4 (mi_id m)) @ rev (le_bytes 4 (mi_rate m)) @ [0, 0, 0, 0]"
  have lw: "length w = 16" by (simp add: w_def)
  have conv: "run_conv (pof_NtoH_transfer_meter 0) (pof_meter_bytes (slotID lr) m) = Some w"
    by (simp add: pof_NtoH_transfer_meter_def pof_meter_bytes_def w_def conv_step_rev conv_end_def del: conv_step.simps)
  obtain g' where g': "pofec_reply_msg POFT_METER_MOD (g_recv_xid g) 16 (Some w) g = Some (POF_OK, g')"
    "chan_ok g'" "same_but_queue g g'"
    "send_queue g' = (if sending g then send_queue g @ [reply_bytes POFT_METER_MOD (g_recv_xid g) 16 w] else send_queue g)"
    using reply_msg_ok [OF assms, of 16 w "Some w" POFT_METER_MOD "g_recv_xid g"] lw by auto
  then show ?thesis
    unfolding w_def [symmetric] by (intro exI [of _ g']) (simp add: meter_reply_def conv reply_bytes_def lw)
qed

lemma poflr_init_meter_ok:
  assumes "poflr_init_meter lr g = (POF_OK, lr', g')" "meterNum lr = 0"
  shows "meter_ok lr' \<and> meters lr' = (\<lambda>_. None) \<and> res_ptrs (meterMap lr') = {}"
proof -
  obtain m where m: "hmap_create (meterNumMax lr) g = (Some m, g')" "lr' = lr\<lparr>meterMap := Some m\<rparr>"
    using assms(1) by (auto simp: poflr_init_meter_def err_no_upward_def split: prod.splits option.splits)
  show ?thesis using assms(2) res_create_ok [OF m(1)] by (simp add: m(2))
qed

lemma poflr_empty_meter_ok:
  assumes "meter_ok lr"
  shows "\<exists>lr'. poflr_empty_meter lr = Some (POF_OK, lr') \<and> meter_ok lr' \<and> meters lr' = (\<lambda>_. None)
    \<and> meterNum lr' = 0 \<and> res_ptrs (meterMap lr') = {} \<and> but_meters lr' = but_meters lr"
proof -
  obtain m where "meterMap lr = Some m" using assms by (auto simp: res_ok_def split: option.splits)
  then show ?thesis using mt.delete_all [OF assms] by (auto simp: poflr_empty_meter_def)
qed

end
