(* ===== verification/Pof_Group.thy ===== *)
theory Pof_Group
  imports Pof_Counter
begin

text \<open>
  The group table: \<^verbatim>\<open>local_resource/pof_group.c\<close>. A group owns a list of actions and names a
  counter; adding and deleting a group create and delete that counter in the counter table, so
  the specification acts on both tables.
\<close>

section \<open>Definitions\<close>

definition map_groupCreate :: "glob \<Rightarrow> nat option \<times> glob" where
  "map_groupCreate g = POF_MALLOC_SAFE g"

definition map_groupDelete :: "groupInfo hnode \<Rightarrow> pof_local_resource \<Rightarrow> pof_local_resource option" where
  "map_groupDelete grp lr = do {
     m \<leftarrow> groupMap lr;
     m' \<leftarrow> hmap_nodeDelete m grp;
     Some (lr\<lparr>groupMap := Some m', groupNum := groupNum lr - 1\<rparr>)
   }"

definition map_groupInsert :: "groupInfo hnode \<Rightarrow> pof_local_resource \<Rightarrow> pof_local_resource option" where
  "map_groupInsert grp lr = do {
     m \<leftarrow> groupMap lr;
     m' \<leftarrow> hmap_nodeInsert m grp;
     Some (lr\<lparr>groupMap := Some m', groupNum := groupNum lr + 1\<rparr>)
   }"

definition map_groupHashByID :: "u32 \<Rightarrow> u32" where
  "map_groupHashByID i = hmap_hashForLinear i"

definition poflr_get_group_with_ID :: "u32 \<Rightarrow> pof_local_resource \<Rightarrow> groupInfo hnode option option" where
  "poflr_get_group_with_ID i lr = do {
     m \<leftarrow> groupMap lr;
     hmap_nodeGetWithHash m (map_groupHashByID i)
   }"

definition group_write :: "nat \<Rightarrow> (groupInfo \<Rightarrow> groupInfo) \<Rightarrow> pof_local_resource \<Rightarrow> pof_local_resource" where
  "group_write p f lr = lr\<lparr>groupMap := map_option (hmap_write p f) (groupMap lr)\<rparr>"

text \<open>
  The message is the bytes of a \<^verbatim>\<open>struct pof_group\<close>. The number of actions is not checked: more
  than the four a group can hold run over its array.
\<close>

definition groupFill :: "bytes \<Rightarrow> groupInfo \<Rightarrow> groupInfo option" where
  "groupFill pofGroup grp = do {
     type \<leftarrow> rd pofGroup 1;
     num \<leftarrow> rd pofGroup 2;
     i \<leftarrow> get32 pofGroup 4;
     cid \<leftarrow> get32 pofGroup 8;
     acts \<leftarrow> mem_read (drop 16 pofGroup) (unat num * 48);
     actions \<leftarrow> mem_write (gi_action grp) 0 acts;
     Some (grp\<lparr>gi_type := type, gi_action_number := num, gi_id := i, gi_counter_id := cid, gi_action := actions\<rparr>)
   }"

definition zero_group :: groupInfo where
  "zero_group = \<lparr>gi_type = 0, gi_action_number = 0, gi_id = 0, gi_counter_id = 0, gi_action = replicate 192 0\<rparr>"

definition poflr_add_group_entry :: "bytes \<Rightarrow> pof_local_resource \<Rightarrow> glob \<Rightarrow> (ret \<times> pof_local_resource \<times> glob) option" where
  "poflr_add_group_entry group_ptr lr g = do {
     group_id \<leftarrow> get32 group_ptr 4;
     counter_id \<leftarrow> get32 group_ptr 8;
     (if groupNumMax lr \<le> group_id then
        with_lr lr (err_upward POFET_GROUP_MOD_FAILED (GroupE POFGMFC_INVALID_GROUP) g)
      else do {
        q \<leftarrow> poflr_get_group_with_ID group_id lr;
        (case q of
           Some _ \<Rightarrow> with_lr lr (err_upward POFET_GROUP_MOD_FAILED (GroupE POFGMFC_GROUP_EXISTS) g)
         | None \<Rightarrow> do {
             (r, lr1, g1) \<leftarrow> poflr_counter_init counter_id lr g;
             (if r \<noteq> POF_OK then Some (r, lr1, g1)
              else (case map_groupCreate g1 of
                 (None, g2) \<Rightarrow> with_lr lr1 (err_upward_new POFET_SOFTWARE_FAILED (SoftE POF_ALLOCATE_RESOURCE_FAILURE) g2)
               | (Some p, g2) \<Rightarrow> do {
                   grp \<leftarrow> groupFill group_ptr zero_group;
                   lr2 \<leftarrow> map_groupInsert \<lparr>hn_ptr = p, hn_hash = map_groupHashByID (gi_id grp), hn_obj = grp\<rparr> lr1;
                   Some (POF_OK, lr2, g2)
                 }))
           })
      })
   }"

definition poflr_modify_group_entry :: "bytes \<Rightarrow> pof_local_resource \<Rightarrow> glob \<Rightarrow> (ret \<times> pof_local_resource \<times> glob) option" where
  "poflr_modify_group_entry group_ptr lr g = do {
     group_id \<leftarrow> get32 group_ptr 4;
     counter_id \<leftarrow> get32 group_ptr 8;
     (if groupNumMax lr \<le> group_id then
        with_lr lr (err_upward POFET_GROUP_MOD_FAILED (GroupE POFGMFC_INVALID_GROUP) g)
      else do {
        q \<leftarrow> poflr_get_group_with_ID group_id lr;
        (case q of
           None \<Rightarrow> with_lr lr (err_upward POFET_GROUP_MOD_FAILED (GroupE POFGMFC_UNKNOWN_GROUP) g)
         | Some grp \<Rightarrow>
             if counter_id \<noteq> gi_counter_id (hn_obj grp) then
               with_lr lr (err_upward POFET_GROUP_MOD_FAILED (GroupE POFGMFC_BAD_COUNTER_ID) g)
             else do {
               grp' \<leftarrow> groupFill group_ptr (hn_obj grp);
               Some (POF_OK, group_write (hn_ptr grp) (\<lambda>_. grp') lr, g)
             })
      })
   }"

text \<open>The counter deleted is the one the message names, whatever counter the group has.\<close>

definition poflr_delete_group_entry :: "bytes \<Rightarrow> pof_local_resource \<Rightarrow> glob \<Rightarrow> (ret \<times> pof_local_resource \<times> glob) option" where
  "poflr_delete_group_entry group_ptr lr g = do {
     group_id \<leftarrow> get32 group_ptr 4;
     counter_id \<leftarrow> get32 group_ptr 8;
     (if groupNumMax lr \<le> group_id then
        with_lr lr (err_upward POFET_GROUP_MOD_FAILED (GroupE POFGMFC_INVALID_GROUP) g)
      else do {
        q \<leftarrow> poflr_get_group_with_ID group_id lr;
        (case q of
           None \<Rightarrow> with_lr lr (err_upward POFET_GROUP_MOD_FAILED (GroupE POFGMFC_UNKNOWN_GROUP) g)
         | Some grp \<Rightarrow> do {
             (r, lr1, g1) \<leftarrow> poflr_counter_delete counter_id lr g;
             (if r \<noteq> POF_OK then Some (r, lr1, g1)
              else do { lr2 \<leftarrow> map_groupDelete grp lr1; Some (POF_OK, lr2, g1) })
           })
      })
   }"

definition poflr_init_group :: "pof_local_resource \<Rightarrow> glob \<Rightarrow> ret \<times> pof_local_resource \<times> glob" where
  "poflr_init_group lr g = (case hmap_create (groupNumMax lr) g of
      (None, g1) \<Rightarrow> (case err_no_upward POFET_SOFTWARE_FAILED (SoftE POF_ALLOCATE_RESOURCE_FAILURE) g1 of
          (r, g2) \<Rightarrow> (r, lr\<lparr>groupMap := None\<rparr>, g2))
    | (Some m, g1) \<Rightarrow> (POF_OK, lr\<lparr>groupMap := Some m\<rparr>, g1))"

definition poflr_empty_group :: "pof_local_resource \<Rightarrow> (ret \<times> pof_local_resource) option" where
  "poflr_empty_group lr = (case groupMap lr of
      None \<Rightarrow> Some (POF_OK, lr)
    | Some _ \<Rightarrow> do {
        (r, lr') \<leftarrow> hmap_struct_traverse groupMap
          (\<lambda>grp l. map_option (\<lambda>l'. (None, l')) (map_groupDelete grp l)) lr;
        Some (case r of Some v \<Rightarrow> v | None \<Rightarrow> POF_OK, lr')
      })"

text \<open>The static \<^verbatim>\<open>reply\<close> of the file; the message is a \<^verbatim>\<open>struct pof_group\<close>.\<close>

definition pof_group_bytes :: "u16 \<Rightarrow> groupInfo \<Rightarrow> bytes" where
  "pof_group_bytes slot gr = [4, gi_type gr, gi_action_number gr, 0] @ le_bytes 4 (gi_id gr)
     @ le_bytes 4 (gi_counter_id gr) @ le_bytes 2 slot @ [0, 0] @ take 192 (gi_action gr)"

definition group_reply :: "groupInfo \<Rightarrow> pof_local_resource \<Rightarrow> glob \<Rightarrow> (ret \<times> glob) option" where
  "group_reply gr lr g = do {
     body \<leftarrow> pof_NtoH_transfer_group 0 (pof_group_bytes (slotID lr) gr);
     (r, g1) \<leftarrow> pofec_reply_msg POFT_GROUP_MOD (g_recv_xid g) 208 (Some body) g;
     (if r \<noteq> POF_OK then err_upward POFET_SOFTWARE_FAILED (SoftE POF_WRITE_MSG_QUEUE_FAILURE) g1
      else Some (POF_OK, g1))
   }"

text \<open>The error type of an unknown group is \<^verbatim>\<open>POFET_METER_MOD_FAILED\<close> in the code.\<close>

definition poflr_reply_group :: "pof_local_resource \<Rightarrow> u32 \<Rightarrow> glob \<Rightarrow> (ret \<times> glob) option" where
  "poflr_reply_group lr groupID g = do {
     q \<leftarrow> poflr_get_group_with_ID groupID lr;
     (case q of
        None \<Rightarrow> err_upward POFET_METER_MOD_FAILED (GroupE POFGMFC_UNKNOWN_GROUP) g
      | Some grp \<Rightarrow> group_reply (hn_obj grp) lr g)
   }"

definition poflr_reply_group_all :: "pof_local_resource \<Rightarrow> glob \<Rightarrow> (ret \<times> glob) option" where
  "poflr_reply_group_all lr g = do {
     (r, g') \<leftarrow> hmap_struct_traverse (\<lambda>_. groupMap lr)
       (\<lambda>grp g. do {
          (r, g1) \<leftarrow> group_reply (hn_obj grp) lr g;
          Some (if r \<noteq> POF_OK then Some r else None, g1)
        }) g;
     Some (case r of Some v \<Rightarrow> v | None \<Rightarrow> POF_OK, g')
   }"

section \<open>The tables as finite maps\<close>

abbreviation group_ok :: "pof_local_resource \<Rightarrow> bool" where
  "group_ok lr \<equiv> res_ok gi_id (groupMap lr) (groupNum lr)"

abbreviation groups :: "pof_local_resource \<Rightarrow> u32 \<Rightarrow> groupInfo option" where
  "groups lr \<equiv> res_abs (groupMap lr)"

definition but_groups :: "pof_local_resource \<Rightarrow> pof_local_resource" where
  "but_groups lr = lr\<lparr>groupMap := None, groupNum := 0\<rparr>"

interpretation gt: id_table groupMap groupNum but_groups map_groupInsert map_groupDelete
    poflr_get_group_with_ID group_write gi_id
  by unfold_locales
    (simp_all add: map_groupInsert_def map_groupDelete_def poflr_get_group_with_ID_def group_write_def
      but_groups_def map_groupHashByID_def hmap_hashForLinear_def)

lemma but_groups_sel:
  assumes "but_groups l' = but_groups l"
  shows "counterMap l' = counterMap l" "counterNum l' = counterNum l" "counterNumMax l' = counterNumMax l"
    "groupNumMax l' = groupNumMax l"
  using assms by (cases l, cases l', simp add: but_groups_def)+

text \<open>Both tables are well formed and were allocated before.\<close>

definition gc_ok :: "pof_local_resource \<Rightarrow> glob \<Rightarrow> bool" where
  "gc_ok lr g \<longleftrightarrow> group_ok lr \<and> counter_ok lr \<and> counters_below lr g \<and> below (malloc_n g) (res_ptrs (groupMap lr))"

text \<open>The specification acts on the two maps.\<close>

definition add_group_spec :: "u32 \<Rightarrow> u32 \<Rightarrow> groupInfo \<Rightarrow> (u32 \<Rightarrow> groupInfo option) \<Rightarrow> (u32 \<Rightarrow> counterInfo option)
    \<Rightarrow> ret \<times> (u32 \<Rightarrow> groupInfo option) \<times> (u32 \<Rightarrow> counterInfo option)" where
  "add_group_spec gmax cmax gr gs cs = (
     if gmax \<le> gi_id gr then (ERR (GroupE POFGMFC_INVALID_GROUP), gs, cs)
     else if gs (gi_id gr) \<noteq> None then (ERR (GroupE POFGMFC_GROUP_EXISTS), gs, cs)
     else case init_spec cmax (gi_counter_id gr) cs of (r, cs') \<Rightarrow>
       if r \<noteq> POF_OK then (r, gs, cs') else (POF_OK, gs(gi_id gr \<mapsto> gr), cs'))"

definition delete_group_spec :: "u32 \<Rightarrow> u32 \<Rightarrow> u32 \<Rightarrow> u32 \<Rightarrow> (u32 \<Rightarrow> groupInfo option) \<Rightarrow> (u32 \<Rightarrow> counterInfo option)
    \<Rightarrow> ret \<times> (u32 \<Rightarrow> groupInfo option) \<times> (u32 \<Rightarrow> counterInfo option)" where
  "delete_group_spec gmax cmax i ci gs cs = (
     if gmax \<le> i then (ERR (GroupE POFGMFC_INVALID_GROUP), gs, cs)
     else if gs i = None then (ERR (GroupE POFGMFC_UNKNOWN_GROUP), gs, cs)
     else case change_spec (\<lambda>_. None) cmax ci cs of (r, cs') \<Rightarrow>
       if r \<noteq> POF_OK then (r, gs, cs') else (POF_OK, gs(i := None), cs'))"

definition modify_group_spec :: "u32 \<Rightarrow> groupInfo \<Rightarrow> (groupInfo \<Rightarrow> groupInfo) \<Rightarrow> (u32 \<Rightarrow> groupInfo option)
    \<Rightarrow> ret \<times> (u32 \<Rightarrow> groupInfo option)" where
  "modify_group_spec gmax gr f gs = (
     if gmax \<le> gi_id gr then (ERR (GroupE POFGMFC_INVALID_GROUP), gs)
     else case gs (gi_id gr) of
       None \<Rightarrow> (ERR (GroupE POFGMFC_UNKNOWN_GROUP), gs)
     | Some old \<Rightarrow> if gi_counter_id gr \<noteq> gi_counter_id old then (ERR (GroupE POFGMFC_BAD_COUNTER_ID), gs)
         else (POF_OK, gs(gi_id gr \<mapsto> f old)))"

lemma gc_ok_err:
  assumes "gc_ok lr g" "chan_ok g"
  shows "\<exists>g'. err_upward t c g = Some (ERR c, g') \<and> chan_ok g' \<and> gc_ok lr g'"
proof -
  obtain g' where g': "err_upward t c g = Some (ERR c, g')" "chan_ok g'" "same_but_queue g g'"
    using err_upward_ok [OF assms(2)] by blast
  then have "gc_ok lr g'" using assms(1) below_mono by (fastforce simp: same_but_queue_def gc_ok_def)
  then show ?thesis using g' by blast
qed

lemma groupFill_ids:
  "groupFill msg gr = Some gr' \<Longrightarrow> get32 msg 4 = Some (gi_id gr') \<and> get32 msg 8 = Some (gi_counter_id gr')"
  by (auto simp: groupFill_def bind_eq_Some_conv)

lemma group_insert_ok:
  assumes "gc_ok lr1 g1" "chan_ok g1" "groups lr1 (gi_id gr) = None"
  shows "\<exists>p g2 lr2. map_groupCreate g1 = (Some p, g2) \<and> chan_ok g2
    \<and> map_groupInsert \<lparr>hn_ptr = p, hn_hash = map_groupHashByID (gi_id gr), hn_obj = gr\<rparr> lr1 = Some lr2
    \<and> gc_ok lr2 g2 \<and> groups lr2 = (groups lr1)(gi_id gr \<mapsto> gr) \<and> but_groups lr2 = but_groups lr1"
proof -
  obtain p g2 where p: "map_groupCreate g1 = (Some p, g2)" "p = malloc_n g1 + 1" "g2 = g1\<lparr>malloc_n := p\<rparr>"
    using assms(2) by (auto simp: map_groupCreate_def POF_MALLOC_SAFE_def malloc_def Let_def chan_ok_def)
  let ?n = "\<lparr>hn_ptr = p, hn_hash = gi_id gr, hn_obj = gr\<rparr>"
  have "hn_ptr ?n \<notin> res_ptrs (groupMap lr1)" using assms(1) p(2) by (auto simp: below_def gc_ok_def)
  then obtain lr2 where lr2: "map_groupInsert ?n lr1 = Some lr2" "group_ok lr2"
    "groups lr2 = (groups lr1)(gi_id gr \<mapsto> gr)"
    "res_ptrs (groupMap lr2) = insert p (res_ptrs (groupMap lr1))" "but_groups lr2 = but_groups lr1"
    using gt.insert [of lr1 ?n] assms(1,3) by (auto simp: gc_ok_def)
  have "gc_ok lr2 g2"
    using lr2 assms(1) p but_groups_sel [OF lr2(5)] by (auto simp: gc_ok_def below_def)
  moreover have "chan_ok g2" using assms(2) p by (auto simp: chan_ok_def)
  ultimately show ?thesis using p lr2 by (auto simp: map_groupHashByID_def hmap_hashForLinear_def)
qed

lemma add_group_ok:
  assumes ok: "gc_ok lr g" "chan_ok g" and fill: "groupFill msg zero_group = Some gr"
  shows "\<exists>r lr' g'. poflr_add_group_entry msg lr g = Some (r, lr', g') \<and> gc_ok lr' g' \<and> chan_ok g'
    \<and> (r, groups lr', counters lr') = add_group_spec (groupNumMax lr) (counterNumMax lr) gr (groups lr) (counters lr)
    \<and> but_counters (but_groups lr') = but_counters (but_groups lr)"
proof -
  let ?i = "gi_id gr"
  have ids: "get32 msg 4 = Some ?i" "get32 msg 8 = Some (gi_counter_id gr)" using groupFill_ids [OF fill] by auto
  have gok: "group_ok lr" and cok: "counter_ok lr" "counters_below lr g" using ok(1) by (auto simp: gc_ok_def)
  show ?thesis
  proof (cases "groupNumMax lr \<le> ?i \<or> groups lr ?i \<noteq> None")
    case True
    then obtain c where "poflr_add_group_entry msg lr g = with_lr lr (err_upward POFET_GROUP_MOD_FAILED c g)"
      "add_group_spec (groupNumMax lr) (counterNumMax lr) gr (groups lr) (counters lr) = (ERR c, groups lr, counters lr)"
      using ids gt.get_None [OF gok, of ?i] gt.get_Some [OF gok, of ?i]
      by (cases "groupNumMax lr \<le> ?i") (auto simp: poflr_add_group_entry_def add_group_spec_def)
    then show ?thesis using gc_ok_err [OF ok, of POFET_GROUP_MOD_FAILED c] by (auto simp: with_lr_def)
  next
    case False
    then have get: "poflr_get_group_with_ID ?i lr = Some None" using gt.get_None [OF gok, of ?i] by simp
    obtain r lr1 g1 where c: "poflr_counter_init (gi_counter_id gr) lr g = Some (r, lr1, g1)" "counter_ok lr1"
      "counters_below lr1 g1" "chan_ok g1" "same_but_queue g g1" "but_counters lr1 = but_counters lr"
      "(r, counters lr1) = init_spec (counterNumMax lr) (gi_counter_id gr) (counters lr)"
      using counter_init_ok [OF cok ok(2), of "gi_counter_id gr"] by blast
    note sel = but_counters_sel [OF c(6)]
    have ok1: "gc_ok lr1 g1"
      using c ok(1) sel below_mono [of "malloc_n g" _ "malloc_n g1"] by (auto simp: gc_ok_def same_but_queue_def)
    have none: "groups lr1 ?i = None" using False sel by simp
    obtain p g2 lr2 where i: "map_groupCreate g1 = (Some p, g2)" "chan_ok g2"
      "map_groupInsert \<lparr>hn_ptr = p, hn_hash = map_groupHashByID ?i, hn_obj = gr\<rparr> lr1 = Some lr2"
      "gc_ok lr2 g2" "groups lr2 = (groups lr1)(?i \<mapsto> gr)" "but_groups lr2 = but_groups lr1"
      using group_insert_ok [OF ok1 c(4) none] by blast
    have frame: "but_counters (but_groups lr1) = but_counters (but_groups lr)"
      using c(6) by (cases lr, cases lr1) (simp add: but_counters_def but_groups_def)
    have spec: "add_group_spec (groupNumMax lr) (counterNumMax lr) gr (groups lr) (counters lr) =
        (if r \<noteq> POF_OK then (r, groups lr1, counters lr1) else (POF_OK, groups lr2, counters lr2))"
      using False c(7) [symmetric] i(5) sel but_groups_sel [OF i(6)] by (auto simp: add_group_spec_def)
    show ?thesis
      using ids False get c(1,4) i(1-4,6) fill ok1 frame spec
      by (cases "r = POF_OK") (simp_all add: poflr_add_group_entry_def)
  qed
qed

lemma delete_group_ok:
  assumes ok: "gc_ok lr g" "chan_ok g" and ids: "get32 msg 4 = Some i" "get32 msg 8 = Some ci"
  shows "\<exists>r lr' g'. poflr_delete_group_entry msg lr g = Some (r, lr', g') \<and> gc_ok lr' g' \<and> chan_ok g'
    \<and> (r, groups lr', counters lr') = delete_group_spec (groupNumMax lr) (counterNumMax lr) i ci (groups lr) (counters lr)
    \<and> but_counters (but_groups lr') = but_counters (but_groups lr)"
proof -
  have gok: "group_ok lr" and cok: "counter_ok lr" "counters_below lr g" using ok(1) by (auto simp: gc_ok_def)
  show ?thesis
  proof (cases "groupNumMax lr \<le> i \<or> groups lr i = None")
    case True
    then obtain c where "poflr_delete_group_entry msg lr g = with_lr lr (err_upward POFET_GROUP_MOD_FAILED c g)"
      "delete_group_spec (groupNumMax lr) (counterNumMax lr) i ci (groups lr) (counters lr) = (ERR c, groups lr, counters lr)"
      using ids gt.get_None [OF gok, of i] gt.get_Some [OF gok, of i]
      by (cases "groupNumMax lr \<le> i") (auto simp: poflr_delete_group_entry_def delete_group_spec_def)
    then show ?thesis using gc_ok_err [OF ok, of POFET_GROUP_MOD_FAILED c] by (auto simp: with_lr_def)
  next
    case False
    then obtain n where n: "poflr_get_group_with_ID i lr = Some (Some n)"
      using gt.get_cases [OF gok, of i] by (metis option.distinct(1))
    obtain r lr1 g1 where c: "poflr_counter_delete ci lr g = Some (r, lr1, g1)" "counter_ok lr1"
      "counters_below lr1 g1" "chan_ok g1" "same_but_queue g g1" "but_counters lr1 = but_counters lr"
      "(r, counters lr1) = change_spec (\<lambda>_. None) (counterNumMax lr) ci (counters lr)"
      using counter_delete_ok [OF cok ok(2), of ci] by blast
    note sel = but_counters_sel [OF c(6)]
    have ok1: "gc_ok lr1 g1"
      using c ok(1) sel below_mono [of "malloc_n g" _ "malloc_n g1"] by (auto simp: gc_ok_def same_but_queue_def)
    have "group_ok lr1" "poflr_get_group_with_ID i lr1 = Some (Some n)"
      using n gok sel by (simp_all add: poflr_get_group_with_ID_def)
    then obtain lr2 where d: "map_groupDelete n lr1 = Some lr2" "group_ok lr2" "groups lr2 = (groups lr1)(i := None)"
      "res_ptrs (groupMap lr2) = res_ptrs (groupMap lr1) - {hn_ptr n}" "but_groups lr2 = but_groups lr1"
      using gt.delete by blast
    have ok2: "gc_ok lr2 g1" using d ok1 but_groups_sel [OF d(5)] by (auto simp: gc_ok_def below_def)
    have frame: "but_counters (but_groups lr1) = but_counters (but_groups lr)"
      using c(6) by (cases lr, cases lr1) (simp add: but_counters_def but_groups_def)
    have spec: "delete_group_spec (groupNumMax lr) (counterNumMax lr) i ci (groups lr) (counters lr) =
        (if r \<noteq> POF_OK then (r, groups lr1, counters lr1) else (POF_OK, groups lr2, counters lr2))"
      using False c(7) [symmetric] d(3) sel but_groups_sel [OF d(5)] by (auto simp: delete_group_spec_def)
    show ?thesis
      using ids False n c(1,4) d(1,5) ok1 ok2 frame spec
      by (cases "r = POF_OK") (simp_all add: poflr_delete_group_entry_def)
  qed
qed

lemma modify_group_ok:
  assumes ok: "gc_ok lr g" "chan_ok g" and ids: "get32 msg 4 = Some (gi_id gr)" "get32 msg 8 = Some (gi_counter_id gr)"
    and fill: "\<And>old. groups lr (gi_id gr) = Some old \<Longrightarrow> groupFill msg old = Some (f old)"
  shows "\<exists>r lr' g'. poflr_modify_group_entry msg lr g = Some (r, lr', g') \<and> gc_ok lr' g' \<and> chan_ok g'
    \<and> (r, groups lr') = modify_group_spec (groupNumMax lr) gr f (groups lr) \<and> but_groups lr' = but_groups lr"
proof -
  let ?i = "gi_id gr"
  have gok: "group_ok lr" using ok(1) by (simp add: gc_ok_def)
  show ?thesis
  proof (rule gt.get_cases [OF gok, of ?i])
    assume "groups lr ?i = None" "poflr_get_group_with_ID ?i lr = Some None"
    then obtain c where "poflr_modify_group_entry msg lr g = with_lr lr (err_upward POFET_GROUP_MOD_FAILED c g)"
      "modify_group_spec (groupNumMax lr) gr f (groups lr) = (ERR c, groups lr)"
      using ids by (cases "groupNumMax lr \<le> ?i") (auto simp: poflr_modify_group_entry_def modify_group_spec_def)
    then show ?thesis using gc_ok_err [OF ok, of POFET_GROUP_MOD_FAILED c] by (auto simp: with_lr_def)
  next
    fix n m assume n: "groups lr ?i = Some (hn_obj n)" "poflr_get_group_with_ID ?i lr = Some (Some n)" "gi_id (hn_obj n) = ?i"
    have fl: "groupFill msg (hn_obj n) = Some (f (hn_obj n))" using fill n(1) by blast
    let ?l = "group_write (hn_ptr n) (\<lambda>_. f (hn_obj n)) lr"
    have "gi_id (f (hn_obj n)) = gi_id (hn_obj n)" using groupFill_ids [OF fl] ids n(3) by simp
    from gt.update_at [OF gok n(2), of "\<lambda>_. f (hn_obj n)", OF this]
    have l: "group_ok ?l" "groups ?l = (groups lr)(?i \<mapsto> f (hn_obj n))" "res_ptrs (groupMap ?l) = res_ptrs (groupMap lr)"
      by auto
    have frame: "but_groups ?l = but_groups lr" by (simp add: but_groups_def group_write_def)
    have gc: "gc_ok ?l g" using l ok(1) but_groups_sel [OF frame] unfolding gc_ok_def by simp
    consider c where "poflr_modify_group_entry msg lr g = with_lr lr (err_upward POFET_GROUP_MOD_FAILED c g)"
        "modify_group_spec (groupNumMax lr) gr f (groups lr) = (ERR c, groups lr)"
      | "poflr_modify_group_entry msg lr g = Some (POF_OK, ?l, g)"
        "modify_group_spec (groupNumMax lr) gr f (groups lr) = (POF_OK, groups ?l)"
      using ids n(1,2) fl l(2)
      by (cases "groupNumMax lr \<le> ?i"; cases "gi_counter_id gr = gi_counter_id (hn_obj n)")
        (simp_all add: poflr_modify_group_entry_def modify_group_spec_def)
    then show ?thesis
    proof cases
      case (1 c)
      then show ?thesis using gc_ok_err [OF ok, of POFET_GROUP_MOD_FAILED c] by (auto simp: with_lr_def)
    next
      case 2
      then show ?thesis using ok(2) gc frame by simp
    qed
  qed
qed


definition example_group_msg :: bytes where
  "example_group_msg = [0, 0, 0, 0, 3, 0, 0, 0, 2, 0, 0, 0, 0, 0, 0, 0] @ replicate 192 0"

definition example_group :: groupInfo where
  "example_group = \<lparr>gi_type = 0, gi_action_number = 0, gi_id = 3, gi_counter_id = 2, gi_action = replicate 192 0\<rparr>"

lemma example_group_fill: "groupFill example_group_msg zero_group = Some example_group"
  by (simp add: groupFill_def example_group_msg_def example_group_def zero_group_def rd_def get32_def get_le_def
      mem_read_def mem_write_def)


text \<open>
  When two groups name the same counter, deleting the first deletes the counter; the second can
  then no longer be deleted with its own description: the request is refused and the group stays.
\<close>

lemma delete_group_without_counter:
  assumes "gc_ok lr g" "chan_ok g" "get32 msg 4 = Some i" "get32 msg 8 = Some ci"
    and "i < groupNumMax lr" "groups lr i = Some gr" "ci \<noteq> 0" "ci < counterNumMax lr" "counters lr ci = None"
  shows "\<exists>lr' g'. poflr_delete_group_entry msg lr g = Some (ERR (CounterE POFCMFC_COUNTER_UNEXIST), lr', g')
    \<and> groups lr' = groups lr"
  using delete_group_ok [OF assms(1-4)] assms(5-)
    not_le [THEN iffD2, OF assms(5)] not_le [THEN iffD2, OF assms(8)]
  by (auto simp: delete_group_spec_def change_spec_def)

lemma poflr_init_group_ok:
  assumes "poflr_init_group lr g = (POF_OK, lr', g')" "groupNum lr = 0"
  shows "group_ok lr' \<and> groups lr' = (\<lambda>_. None) \<and> res_ptrs (groupMap lr') = {}"
proof -
  obtain m where m: "hmap_create (groupNumMax lr) g = (Some m, g')" "lr' = lr\<lparr>groupMap := Some m\<rparr>"
    using assms(1) by (auto simp: poflr_init_group_def err_no_upward_def split: prod.splits option.splits)
  show ?thesis using assms(2) res_create_ok [OF m(1)] by (simp add: m(2))
qed

lemma poflr_empty_group_ok:
  assumes "group_ok lr"
  shows "\<exists>lr'. poflr_empty_group lr = Some (POF_OK, lr') \<and> group_ok lr' \<and> groups lr' = (\<lambda>_. None)
    \<and> groupNum lr' = 0 \<and> res_ptrs (groupMap lr') = {} \<and> but_groups lr' = but_groups lr"
proof -
  obtain m where "groupMap lr = Some m" using assms by (auto simp: res_ok_def split: option.splits)
  then show ?thesis using gt.delete_all [OF assms] by (auto simp: poflr_empty_group_def)
qed

end
