(* ===== verification/Pof_Packet.thy ===== *)
theory Pof_Packet
  imports Pof_Flow_Table Pof_Meter Pof_Group
begin

text \<open>
  A packet on its way through the switch: \<^verbatim>\<open>include/pof_datapath.h\<close> and the routines of
  \<^verbatim>\<open>datapath/pof_instruction.c\<close> that the actions and the instructions share (moving the packet
  window, jumping between instructions, reading and writing fields of at most 32 bits).

  \<^verbatim>\<open>packetBuf\<close>, \<^verbatim>\<open>buf_offset\<close> and \<^verbatim>\<open>output_packet_buf\<close> point into \<^verbatim>\<open>buf\<close> and are indices; the
  pointers \<^verbatim>\<open>ins\<close> and \<^verbatim>\<open>act\<close> are the array they point into and an index. \<^verbatim>\<open>offset\<close> and
  \<^verbatim>\<open>left_len\<close> are signed. \<open>pk_stk\<close> is what the uninitialised automatic variables of the
  routines hold; it is arbitrary.
\<close>

section \<open>The structures\<close>

record pof_param =
  pm_portNumMax :: u16
  pm_portFlag :: u32
  pm_tableNumMaxEachType :: "u16 list"
  pm_tableSizeMax :: u32
  pm_groupNumMax :: u32
  pm_meterNumMax :: u32
  pm_counterNumMax :: u32

datatype packet_filter = pofdp_promisc | pofdp_no_promisc

record pof_datapath =
  dp_filter :: packet_filter
  dp_param :: pof_param
  slotMap :: "pof_local_resource hmap option"
  slotNum :: u32
  slotMax :: u32
  listenIP :: bytes
  listenPort :: u16
  pktCount :: u32

record pofdp_packet =
  pk_dp :: pof_datapath
  pk_ori_port_id :: u32
  pk_ori_len :: u32
  pk_buf :: bytes
  pk_packetBuf :: int
  pk_output_port_id :: u16
  pk_output_slot_id :: u16
  pk_output_packet_len :: u16
  pk_output_packet_offset :: u16
  pk_output_metadata_len :: u16
  pk_output_metadata_offset :: u16
  pk_output_whole_len :: u16
  pk_buf_out :: bytes
  pk_output_packet_buf :: int
  pk_offset :: u16
  pk_buf_offset :: int
  pk_left_len :: u32
  pk_metadata :: "bytes option"
  pk_metadata_len :: u16
  pk_table_type :: u8
  pk_table_id :: u8
  pk_flow_entry :: "entryInfo option"
  pk_ins :: "bytes \<times> int"
  pk_ins_todo_num :: u8
  pk_ins_done_num :: u8
  pk_act :: "bytes \<times> nat"
  pk_act_num :: u8
  pk_packet_done :: bool
  pk_rate :: u16
  pk_stk :: bytes

text \<open>The arguments \<^verbatim>\<open>POFDP_ARG\<close> of the handlers, with the process state.\<close>

type_synonym dp_state = "pofdp_packet \<times> pof_local_resource \<times> glob"

text \<open>\<^verbatim>\<open>POF_CHECK_RETVALUE_RETURN_NO_UPWARD\<close>: go on after success only.\<close>

definition check_ret :: "(ret \<times> 's) option \<Rightarrow> ('s \<Rightarrow> (ret \<times> 's) option) \<Rightarrow> (ret \<times> 's) option" where
  "check_ret x k = do { (r, s) \<leftarrow> x; (if r \<noteq> POF_OK then Some (r, s) else k s) }"

definition in_dp :: "pofdp_packet \<Rightarrow> pof_local_resource \<Rightarrow> (ret \<times> glob) option \<Rightarrow> (ret \<times> dp_state) option" where
  "in_dp dpp lr x = map_option (\<lambda>(r, g). (r, dpp, lr, g)) x"

text \<open>The error macros with the transaction id \<^verbatim>\<open>g_upward_xid\<close>, which stays as it is.\<close>

definition err_upward_cur :: "pof_error_type \<Rightarrow> err_code \<Rightarrow> glob \<Rightarrow> (ret \<times> glob) option" where
  "err_upward_cur type code g = do {
     (_, g1) \<leftarrow> pofec_reply_error type code (g_upward_xid g) (pofec_set_error type code g);
     Some (ERR code, g1)
   }"

section \<open>The packet window and the metadata\<close>

text \<open>The packet from \<^verbatim>\<open>buf_offset\<close> on, and a routine that writes through that pointer.\<close>

definition from_ptr :: "int \<Rightarrow> bytes \<Rightarrow> bytes option" where
  "from_ptr p b = (if 0 \<le> p \<and> p \<le> int (length b) then Some (drop (nat p) b) else None)"

definition pk_window :: "pofdp_packet \<Rightarrow> bytes option" where
  "pk_window dpp = from_ptr (pk_buf_offset dpp) (pk_buf dpp)"

definition upd_window :: "(bytes \<Rightarrow> bytes option) \<Rightarrow> pofdp_packet \<Rightarrow> pofdp_packet option" where
  "upd_window f dpp = (if pk_buf_offset dpp < 0 then None else do {
     b \<leftarrow> upd_from (nat (pk_buf_offset dpp)) f (pk_buf dpp);
     Some (dpp\<lparr>pk_buf := b\<rparr>)
   })"

definition upd_metadata :: "(bytes \<Rightarrow> bytes option) \<Rightarrow> pofdp_packet \<Rightarrow> pofdp_packet option" where
  "upd_metadata f dpp = do {
     md \<leftarrow> pk_metadata dpp;
     md' \<leftarrow> f md;
     Some (dpp\<lparr>pk_metadata := Some md'\<rparr>)
   }"

text \<open>The length of the packet is the first member of the metadata, in network order.\<close>

definition POF_PACKET_REL_LEN_GET :: "pofdp_packet \<Rightarrow> u16 option" where
  "POF_PACKET_REL_LEN_GET dpp = do {
     md \<leftarrow> pk_metadata dpp;
     n \<leftarrow> get16 md 0;
     Some (POF_NTOHS n)
   }"

definition POF_PACKET_REL_LEN_SET :: "u16 \<Rightarrow> pofdp_packet \<Rightarrow> pofdp_packet option" where
  "POF_PACKET_REL_LEN_SET len dpp = upd_metadata (\<lambda>md. put16 md 0 (POF_NTOHS len)) dpp"

definition POF_PACKET_REL_LEN_INC :: "u16 \<Rightarrow> pofdp_packet \<Rightarrow> pofdp_packet option" where
  "POF_PACKET_REL_LEN_INC len dpp = do {
     n \<leftarrow> POF_PACKET_REL_LEN_GET dpp;
     POF_PACKET_REL_LEN_SET (n + len) dpp
   }"

definition POF_PACKET_REL_LEN_DEC :: "u16 \<Rightarrow> pofdp_packet \<Rightarrow> pofdp_packet option" where
  "POF_PACKET_REL_LEN_DEC len dpp = do {
     n \<leftarrow> POF_PACKET_REL_LEN_GET dpp;
     POF_PACKET_REL_LEN_SET (n - len) dpp
   }"

text \<open>Moving the window by a signed number of bytes.\<close>

definition movePacketBufOffset :: "u16 \<Rightarrow> pofdp_packet \<Rightarrow> glob \<Rightarrow> (ret \<times> pofdp_packet \<times> glob) option" where
  "movePacketBufOffset offset dpp g = (
     if sint offset > sint (pk_left_len dpp) \<or> sint offset < 0 - (128 + sint (pk_offset dpp)) then
       map_option (\<lambda>(r, g'). (r, dpp, g')) (err_upward_new POFET_SOFTWARE_FAILED (SoftE POF_PACKET_LEN_ERROR) g)
     else Some (POF_OK, dpp\<lparr>pk_offset := pk_offset dpp + offset, pk_left_len := pk_left_len dpp - scast offset,
                          pk_buf_offset := pk_buf_offset dpp + sint offset\<rparr>, g))"

section \<open>The instruction pointer\<close>

definition insJumpForward :: "u32 \<Rightarrow> pofdp_packet \<Rightarrow> pofdp_packet" where
  "insJumpForward insNum dpp = dpp\<lparr>pk_ins := (fst (pk_ins dpp), snd (pk_ins dpp) + int (unat insNum)),
     pk_ins_todo_num := pk_ins_todo_num dpp - ucast insNum, pk_ins_done_num := pk_ins_done_num dpp + ucast insNum\<rparr>"

definition insJump :: "u8 \<Rightarrow> u32 \<Rightarrow> pofdp_packet \<Rightarrow> glob \<Rightarrow> (ret \<times> pofdp_packet \<times> glob) option" where
  "insJump direction insNum dpp g = (
     if direction = 0 then
       (if ucast (pk_ins_todo_num dpp) < insNum then
          map_option (\<lambda>(r, g'). (r, dpp, g')) (err_upward_new POFET_BAD_INSTRUCTION (InsE POFBIC_JUM_TO_INVALID_INST) g)
        else Some (POF_OK, insJumpForward insNum dpp, g))
     else
       (if ucast (pk_ins_done_num dpp) < insNum then
          map_option (\<lambda>(r, g'). (r, dpp, g')) (err_upward_new POFET_BAD_INSTRUCTION (InsE POFBIC_JUM_TO_INVALID_INST) g)
        else Some (POF_OK, dpp\<lparr>pk_ins := (fst (pk_ins dpp), snd (pk_ins dpp) - int (unat insNum)),
          pk_ins_done_num := pk_ins_done_num dpp - ucast insNum,
          pk_ins_todo_num := pk_ins_todo_num dpp + ucast insNum\<rparr>, g)))"

definition instruction_update :: "pofdp_packet \<Rightarrow> pofdp_packet" where
  "instruction_update dpp = (if pk_ins_todo_num dpp = 1 then dpp\<lparr>pk_packet_done := True\<rparr> else insJumpForward 1 dpp)"

text \<open>The current instruction and the current action, as the bytes of their structures.\<close>

definition cur_ins :: "pofdp_packet \<Rightarrow> bytes option" where
  "cur_ins dpp = (case pk_ins dpp of (m, i) \<Rightarrow> if i < 0 then None else mem_read (drop (nat i * 304) m) 304)"

definition cur_act :: "pofdp_packet \<Rightarrow> bytes option" where
  "cur_act dpp = (case pk_act dpp of (m, i) \<Rightarrow> mem_read (drop (i * 48) m) 48)"

definition action_update :: "pofdp_packet \<Rightarrow> pofdp_packet" where
  "action_update dpp = (let n = pk_act_num dpp - 1 in
     if n < 1 then dpp\<lparr>pk_act_num := n\<rparr>
     else dpp\<lparr>pk_act_num := n, pk_act := (fst (pk_act dpp), snd (pk_act dpp) + 1)\<rparr>)"

section \<open>Fields of at most 32 bits\<close>

text \<open>The result is \<^verbatim>\<open>NULL\<close> (\<open>None\<close>) when the field does not fit.\<close>

definition pofdp_get_field_buf :: "u16 \<times> u16 \<times> u16 \<Rightarrow> pofdp_packet \<Rightarrow> glob \<Rightarrow> (bytes option \<times> glob) option" where
  "pofdp_get_field_buf pm dpp g = (case pm of (field_id, off, len) \<Rightarrow>
     if field_id = 0xFFFF then
       (if unat len + unat off > unat (pk_metadata_len dpp) * 8 then do {
          (_, g') \<leftarrow> err_upward_cur POFET_SOFTWARE_FAILED (SoftE POF_METADATA_LEN_ERROR) g;
          Some (None, g')
        } else Some (pk_metadata dpp, g))
     else
       (if int (unat len + unat off) > sint (pk_left_len dpp) * 8 then do {
          (_, g') \<leftarrow> err_upward_cur POFET_SOFTWARE_FAILED (SoftE POF_PACKET_LEN_ERROR) g;
          Some (None, g')
        } else do { b \<leftarrow> pk_window dpp; Some (Some b, g) }))"

text \<open>Shifting a 32-bit value by 32 or more bits is undefined.\<close>

definition write_32value_to_buf :: "u32 \<Rightarrow> u16 \<Rightarrow> u16 \<Rightarrow> bytes \<Rightarrow> bytes option" where
  "write_32value_to_buf value offset len buf = (
     if 0 < len \<and> len \<le> 32 then
       pofbf_cover_bit buf (le_bytes 4 (POF_NTOHL (push_bit (32 - unat len) value))) offset len
     else None)"

definition pofdp_write_32value_to_field ::
  "u32 \<Rightarrow> u16 \<times> u16 \<times> u16 \<Rightarrow> pofdp_packet \<Rightarrow> glob \<Rightarrow> (ret \<times> pofdp_packet \<times> glob) option" where
  "pofdp_write_32value_to_field value pm dpp g = (case pm of (field_id, off, len) \<Rightarrow>
     if len > 32 then
       map_option (\<lambda>(r, g'). (r, dpp, g')) (err_upward_new POFET_BAD_MATCH (MatchE POFBMC_BAD_LEN) g)
     else if field_id \<noteq> 0xFFFF then
       (if int (unat len + unat off) > sint (pk_left_len dpp) * 8 then
          map_option (\<lambda>(r, g'). (r, dpp, g')) (err_upward_new POFET_SOFTWARE_FAILED (SoftE POF_PACKET_LEN_ERROR) g)
        else do { dpp' \<leftarrow> upd_window (write_32value_to_buf value off len) dpp; Some (POF_OK, dpp', g) })
     else
       (if unat len + unat off > unat (pk_metadata_len dpp) * 8 then
          map_option (\<lambda>(r, g'). (r, dpp, g')) (err_upward_new POFET_SOFTWARE_FAILED (SoftE POF_METADATA_LEN_ERROR) g)
        else do { dpp' \<leftarrow> upd_metadata (write_32value_to_buf value off len) dpp; Some (POF_OK, dpp', g) }))"

text \<open>The variable that receives a value is given by its bytes before the call, \<open>v0\<close>.\<close>

definition pofdp_get_32value_from_buf :: "bytes \<Rightarrow> bytes \<Rightarrow> u16 \<Rightarrow> u16 \<Rightarrow> u32 option" where
  "pofdp_get_32value_from_buf buf v0 offset len = do {
     r \<leftarrow> pofbf_copy_bit (Some buf) (Some v0) offset len;
     v \<leftarrow> r;
     (if 0 < len \<and> len \<le> 32 then Some (drop_bit (32 - unat len) (POF_NTOHL (of_le v))) else None)
   }"

definition pofdp_get_16value_from_buf :: "bytes \<Rightarrow> bytes \<Rightarrow> u16 \<Rightarrow> u16 \<Rightarrow> u16 option" where
  "pofdp_get_16value_from_buf buf v0 offset len = do {
     r \<leftarrow> pofbf_copy_bit (Some buf) (Some v0) offset len;
     v \<leftarrow> r;
     (if len \<le> 16 then Some (drop_bit (16 - unat len) (POF_NTOHS (of_le v))) else None)
   }"

definition get_32value_from_field ::
  "bytes \<Rightarrow> u16 \<times> u16 \<times> u16 \<Rightarrow> pofdp_packet \<Rightarrow> glob \<Rightarrow> (ret \<times> u32 \<times> glob) option" where
  "get_32value_from_field v0 pm dpp g = (case pm of (field_id, off, len) \<Rightarrow>
     if len > 32 then
       map_option (\<lambda>(r, g'). (r, of_le v0, g')) (err_upward_cur POFET_BAD_MATCH (MatchE POFBMC_BAD_LEN) g)
     else do {
       (src, g1) \<leftarrow> pofdp_get_field_buf pm dpp g;
       (case src of
          None \<Rightarrow> Some (POF_ERROR, of_le v0, g1)
        | Some b \<Rightarrow> do { v \<leftarrow> pofdp_get_32value_from_buf b v0 off len; Some (POF_OK, v, g1) })
     })"

definition get_16value_from_field ::
  "bytes \<Rightarrow> u16 \<times> u16 \<times> u16 \<Rightarrow> pofdp_packet \<Rightarrow> glob \<Rightarrow> (ret \<times> u16 \<times> glob) option" where
  "get_16value_from_field v0 pm dpp g = (case pm of (field_id, off, len) \<Rightarrow>
     if len > 16 then
       map_option (\<lambda>(r, g'). (r, of_le v0, g')) (err_upward_cur POFET_BAD_MATCH (MatchE POFBMC_BAD_LEN) g)
     else do {
       (src, g1) \<leftarrow> pofdp_get_field_buf pm dpp g;
       (case src of
          None \<Rightarrow> Some (POF_ERROR, of_le v0, g1)
        | Some b \<Rightarrow> do { v \<leftarrow> pofdp_get_16value_from_buf b v0 off len; Some (POF_OK, v, g1) })
     })"

text \<open>\<open>u\<close> holds the bytes of the union of an immediate number and a field.\<close>

definition pofdp_get_32value :: "bytes \<Rightarrow> u8 \<Rightarrow> bytes \<Rightarrow> pofdp_packet \<Rightarrow> glob \<Rightarrow> (ret \<times> u32 \<times> glob) option" where
  "pofdp_get_32value v0 type u dpp g = (
     if type = 0 then do { v \<leftarrow> get32 u 0; Some (POF_OK, v, g) }
     else do { pm \<leftarrow> match_at u 0; get_32value_from_field v0 pm dpp g })"

definition pofdp_get_16value :: "bytes \<Rightarrow> u8 \<Rightarrow> bytes \<Rightarrow> pofdp_packet \<Rightarrow> glob \<Rightarrow> (ret \<times> u16 \<times> glob) option" where
  "pofdp_get_16value v0 type u dpp g = (
     if type = 0 then do { v \<leftarrow> get16 u 0; Some (POF_OK, v, g) }
     else do { pm \<leftarrow> match_at u 0; get_16value_from_field v0 pm dpp g })"

text \<open>A handler that first reads a value: success continues with the value, failure returns.\<close>

definition with_32value ::
  "bytes \<Rightarrow> u8 \<Rightarrow> bytes \<Rightarrow> dp_state \<Rightarrow> (u32 \<Rightarrow> glob \<Rightarrow> (ret \<times> dp_state) option) \<Rightarrow> (ret \<times> dp_state) option" where
  "with_32value v0 type u s k = (case s of (dpp, lr, g) \<Rightarrow> do {
     (r, v, g1) \<leftarrow> pofdp_get_32value v0 type u dpp g;
     (if r \<noteq> POF_OK then Some (r, dpp, lr, g1) else k v g1)
   })"

section \<open>Calculations\<close>

definition calculate_ADD :: "u32 \<Rightarrow> u32 \<Rightarrow> u32 option" where
  "calculate_ADD value operand = Some (value + operand)"

definition calculate_SUBTRACT :: "u32 \<Rightarrow> u32 \<Rightarrow> u32 option" where
  "calculate_SUBTRACT value operand = Some (value - operand)"

definition calculate_LEFT_SHIFT :: "u32 \<Rightarrow> u32 \<Rightarrow> u32 option" where
  "calculate_LEFT_SHIFT value operand = (if operand < 32 then Some (push_bit (unat operand) value) else None)"

definition calculate_RIGHT_SHIFT :: "u32 \<Rightarrow> u32 \<Rightarrow> u32 option" where
  "calculate_RIGHT_SHIFT value operand = (if operand < 32 then Some (drop_bit (unat operand) value) else None)"

definition calculate_BITWISE_ADD :: "u32 \<Rightarrow> u32 \<Rightarrow> u32 option" where
  "calculate_BITWISE_ADD value operand = Some (value AND operand)"

definition calculate_BITWISE_OR :: "u32 \<Rightarrow> u32 \<Rightarrow> u32 option" where
  "calculate_BITWISE_OR value operand = Some (value OR operand)"

definition calculate_BITWISE_XOR :: "u32 \<Rightarrow> u32 \<Rightarrow> u32 option" where
  "calculate_BITWISE_XOR value operand = Some (value XOR operand)"

definition calculate_BITWISE_NOR :: "u32 \<Rightarrow> u32 \<Rightarrow> u32 option" where
  "calculate_BITWISE_NOR value operand = map_option NOT (calculate_BITWISE_OR value operand)"

text \<open>The switch over \<^verbatim>\<open>calc_type\<close>; an unknown type is the outer \<open>None\<close>.\<close>

definition calculations :: "u16 \<Rightarrow> (u32 \<Rightarrow> u32 \<Rightarrow> u32 option) option" where
  "calculations calc_type = (
     if calc_type = 0 then Some calculate_ADD
     else if calc_type = 1 then Some calculate_SUBTRACT
     else if calc_type = 2 then Some calculate_LEFT_SHIFT
     else if calc_type = 3 then Some calculate_RIGHT_SHIFT
     else if calc_type = 4 then Some calculate_BITWISE_ADD
     else if calc_type = 5 then Some calculate_BITWISE_OR
     else if calc_type = 6 then Some calculate_BITWISE_XOR
     else if calc_type = 7 then Some calculate_BITWISE_NOR
     else None)"

text \<open>
  Assembling the lookup key of each match field into its own buffer; a buffer that is
  \<^verbatim>\<open>NULL\<close> stays as it is.
\<close>

fun find_key_loop :: "bytes \<Rightarrow> bytes option \<Rightarrow> bytes \<Rightarrow> nat \<Rightarrow> nat \<Rightarrow> bytes option list \<Rightarrow> bytes option list option" where
  "find_key_loop packet metadata m 0 i keys = Some keys"
| "find_key_loop packet metadata m (Suc k) i keys = do {
     (field_id, off, len) \<leftarrow> match_at m i;
     key \<leftarrow> rd keys i;
     key' \<leftarrow> pofbf_copy_bit (if field_id \<noteq> 0xFFFF then Some packet else metadata) key off len;
     find_key_loop packet metadata m k (i + 1) (keys[i := key'])
   }"

definition pofdp_find_key :: "bytes \<Rightarrow> bytes option \<Rightarrow> bytes option list \<Rightarrow> u8 \<Rightarrow> bytes \<Rightarrow> bytes option list option" where
  "pofdp_find_key packet metadata key_ptr match_field_num m =
     find_key_loop packet metadata m (unat match_field_num) 0 key_ptr"

section \<open>Ports and slots\<close>

definition map_portHashByID :: "u8 \<Rightarrow> u32" where
  "map_portHashByID k = hmap_hashForLinear (ucast k)"

definition poflr_get_port_with_pofindex :: "u8 \<Rightarrow> pof_local_resource \<Rightarrow> portInfo hnode option option" where
  "poflr_get_port_with_pofindex pofIndex lr = do {
     m \<leftarrow> portPofIndexMap lr;
     hmap_nodeGetWithHash m (map_portHashByID pofIndex)
   }"

definition pofdp_get_local_resource :: "u16 \<Rightarrow> pof_datapath \<Rightarrow> pof_local_resource hnode option option" where
  "pofdp_get_local_resource slot dp = do {
     m \<leftarrow> slotMap dp;
     hmap_nodeGetWithHash m (hmap_hashForLinear (ucast slot))
   }"

end
