(* ===== verification/Pof_Action.thy ===== *)
theory Pof_Action
  imports Pof_Packet
begin

text \<open>
  Sending a packet out of a port or to the controller (\<^verbatim>\<open>datapath/pof_datapath.c\<close>) and the
  actions (\<^verbatim>\<open>datapath/pof_action.c\<close>). Each handler reads its parameters from the bytes of the
  current action, works on the packet, the local resource and the process state, and steps to
  the next action with \<open>action_update\<close>.
\<close>

section \<open>Sending\<close>

text \<open>
  \<^verbatim>\<open>pofbf_copy_bit\<close> into the middle of an object: the byte in front of the destination is a byte
  of the same object, so a field of length 0 rewrites that byte with its own value.
\<close>

definition pofbf_copy_bit_at :: "bytes option \<Rightarrow> bytes \<Rightarrow> nat \<Rightarrow> u16 \<Rightarrow> u16 \<Rightarrow> bytes option" where
  "pofbf_copy_bit_at data_ori mem base offset_b len_b = (case data_ori of
      None \<Rightarrow> Some mem
    | Some ori \<Rightarrow> do {
        (mem1, rp, process_len_b) \<leftarrow>
          copy_bit_loop ori (unat offset_b mod 8) (ucast len_b) mem (unat offset_b div 8) base 0;
        (if rp = 0 then None else do {
          d \<leftarrow> rd mem1 (rp - 1);
          wr mem1 (rp - 1) (d AND POF_MOVE_BIT_LEFT 0xff (unat (process_len_b - ucast len_b)))
        })
      })"

definition send_raw :: "pofdp_packet \<Rightarrow> pof_local_resource \<Rightarrow> glob \<Rightarrow> (ret \<times> glob) option" where
  "send_raw dpp lr g = do {
     q \<leftarrow> poflr_get_port_with_pofindex (ucast (pk_output_port_id dpp)) lr;
     (case q of
        None \<Rightarrow> Some (err_no_upward POFET_SOFTWARE_FAILED (SoftE POF_PTR_NULL) g)
      | Some port \<Rightarrow> do {
          _ \<leftarrow> rd (pi_queue_fd (hn_obj port)) 1;
          out \<leftarrow> mem_read (pk_buf_out dpp) (unat (pk_output_whole_len dpp));
          let n = sendto_n g;
          let g1 = g\<lparr>sendto_n := n + 1\<rparr>;
          (if sendto_fail g n then err_upward_new POFET_SOFTWARE_FAILED (SoftE POF_SEND_MSG_FAILURE) g1
           else Some (POF_OK, g1\<lparr>tx := tx g1 @ [(pi_sysIndex (hn_obj port), out)]\<rparr>))
        })
   }"

text \<open>\<^verbatim>\<open>buf_out\<close> lies behind the two bytes of \<^verbatim>\<open>output_whole_len\<close>.\<close>

definition pofdp_send_raw :: "pofdp_packet \<Rightarrow> pof_local_resource \<Rightarrow> glob \<Rightarrow> (ret \<times> pofdp_packet \<times> glob) option" where
  "pofdp_send_raw dpp lr g = do {
     mem \<leftarrow> pofbf_copy_bit_at (pk_metadata dpp) (le_bytes 2 (pk_output_whole_len dpp) @ pk_buf_out dpp) 2
              (pk_output_metadata_offset dpp) (pk_output_metadata_len dpp * 8);
     src \<leftarrow> from_ptr (pk_output_packet_buf dpp + int (unat (pk_output_packet_offset dpp))) (pk_buf dpp);
     pkt \<leftarrow> mem_read src (unat (pk_output_packet_len dpp));
     out \<leftarrow> mem_write (drop 2 mem) (unat (pk_output_metadata_len dpp)) pkt;
     let dpp1 = dpp\<lparr>pk_output_whole_len := of_le (take 2 mem), pk_buf_out := out\<rparr>;
     (if pk_output_whole_len dpp1 > 1514 then
        map_option (\<lambda>(r, g'). (r, dpp1, g')) (err_upward_new POFET_SOFTWARE_FAILED (SoftE POF_PACKET_LEN_ERROR) g)
      else do {
        (r, g1) \<leftarrow> send_raw dpp1 lr g;
        (if r \<noteq> POF_OK then
           (case err_no_upward POFET_SOFTWARE_FAILED (SoftE POF_SEND_MSG_FAILURE) g1 of (r', g2) \<Rightarrow> Some (r', dpp1, g2))
         else Some (POF_OK, dpp1, g1))
      })
   }"

text \<open>The bytes of \<^verbatim>\<open>struct pof_packet_in\<close> before the conversion to network order.\<close>

definition pof_packet_in_bytes :: "u16 \<Rightarrow> u8 \<Rightarrow> u8 \<Rightarrow> u32 \<Rightarrow> u8 \<Rightarrow> bytes \<Rightarrow> bytes" where
  "pof_packet_in_bytes len reason table_id device_id port_id dat =
     le_bytes 4 (0xffffffff :: u32) @ le_bytes 2 len @ [reason, table_id] @ replicate 8 0
     @ le_bytes 4 device_id @ le_bytes 2 (0 :: u16) @ le_bytes 2 (ucast port_id :: u16)
     @ dat @ replicate (2048 - length dat) 0"

definition pofdp_send_packet_in_to_controller ::
  "u16 \<Rightarrow> u8 \<Rightarrow> u8 \<Rightarrow> u32 \<Rightarrow> u8 \<Rightarrow> bytes \<Rightarrow> glob \<Rightarrow> (ret \<times> glob) option" where
  "pofdp_send_packet_in_to_controller len reason table_id device_id port_id packet g = (
     if len > 2048 then err_upward_new POFET_SOFTWARE_FAILED (SoftE POF_PACKET_LEN_ERROR) g
     else do {
       dat \<leftarrow> mem_read packet (unat len);
       packetin \<leftarrow> run_conv (pof_NtoH_transfer_packet_in 0)
                     (pof_packet_in_bytes len reason table_id device_id port_id dat);
       (r, g1) \<leftarrow> pofec_reply_msg POFT_PACKET_IN (g_upward_xid g) (2072 - 2048 + ucast len) (Some packetin)
                   (g\<lparr>g_upward_xid := g_upward_xid g + 1\<rparr>);
       (if r \<noteq> POF_OK then err_upward POFET_SOFTWARE_FAILED (SoftE POF_WRITE_MSG_QUEUE_FAILURE) g1
        else Some (POF_OK, g1))
     })"

text \<open>The packet in the buffer from \<^verbatim>\<open>packetBuf\<close> on, \<^verbatim>\<open>offset + left_len\<close> bytes, to the controller.\<close>

definition packet_in_of ::
  "u8 \<Rightarrow> u8 \<Rightarrow> pofdp_packet \<Rightarrow> glob \<Rightarrow> (ret \<times> glob) option" where
  "packet_in_of reason table_ID dpp g = do {
     p \<leftarrow> from_ptr (pk_packetBuf dpp) (pk_buf dpp);
     pofdp_send_packet_in_to_controller (ucast (scast (pk_offset dpp) + pk_left_len dpp)) reason table_ID
       (g_poflr_dev_id g) (ucast (pk_ori_port_id dpp)) p g
   }"

section \<open>Bit fields and checksums\<close>

definition bzero_bit :: "u16 \<Rightarrow> u16 \<Rightarrow> bytes \<Rightarrow> glob \<Rightarrow> (ret \<times> bytes \<times> glob) option" where
  "bzero_bit pos_b len_b dat g = (
     if unat pos_b mod 8 = 0 \<and> unat len_b mod 8 = 0 then do {
       d \<leftarrow> mem_write dat (unat pos_b div 8) (replicate (unat len_b div 8) 0);
       Some (POF_OK, d, g)
     }
     else (case POF_MALLOC_SAFE g of
         (None, g') \<Rightarrow> Some (POF_ERROR, dat, g')
       | (Some _, g') \<Rightarrow> do {
           d \<leftarrow> pofbf_cover_bit dat (replicate (byte_ceil (unat len_b)) 0) pos_b len_b;
           Some (POF_OK, d, g')
         }))"

fun checksum_loop :: "bytes \<Rightarrow> u16 \<Rightarrow> u16 \<Rightarrow> u64 \<Rightarrow> nat \<Rightarrow> nat \<Rightarrow> u64 \<Rightarrow> u64 option" where
  "checksum_loop dat pos_b cs_len_b threshold 0 i value = Some value"
| "checksum_loop dat pos_b cs_len_b threshold (Suc k) i value = do {
     r \<leftarrow> pofbf_copy_bit (Some dat) (Some (replicate 8 0)) (pos_b + of_nat i * cs_len_b) cs_len_b;
     data_temp \<leftarrow> r;
     let value_temp = drop_bit (64 - unat cs_len_b) (NOT (POF_NTOH64 (of_le data_temp)));
     let v = value + value_temp;
     checksum_loop dat pos_b cs_len_b threshold k (i + 1) (if threshold \<le> v then v - threshold + 1 else v)
   }"

text \<open>A checksum length of 0 divides by zero. The eight bytes of the result are in memory order.\<close>

definition checksum :: "bytes \<Rightarrow> u16 \<Rightarrow> u16 \<Rightarrow> u16 \<Rightarrow> u64 option" where
  "checksum dat pos_b len_b cs_len_b = (
     if cs_len_b = 0 \<or> 64 < cs_len_b then None
     else do {
       v \<leftarrow> checksum_loop dat pos_b cs_len_b (push_bit (unat cs_len_b) 1) (unat len_b div unat cs_len_b) 0 0;
       Some (POF_NTOH64 (push_bit (64 - unat cs_len_b) v))
     })"

text \<open>A buffer of the packet chosen by its type: 0 is the packet window, others are the metadata.\<close>

definition buf_sel :: "u8 \<Rightarrow> pofdp_packet \<Rightarrow> bytes option" where
  "buf_sel type dpp = (if type = 0 then pk_window dpp else pk_metadata dpp)"

definition buf_upd :: "u8 \<Rightarrow> (bytes \<Rightarrow> bytes option) \<Rightarrow> pofdp_packet \<Rightarrow> pofdp_packet option" where
  "buf_upd type f dpp = (if type = 0 then upd_window f dpp else upd_metadata f dpp)"

definition calChecksum ::
  "u8 \<Rightarrow> u8 \<Rightarrow> u16 \<Rightarrow> u16 \<Rightarrow> u16 \<Rightarrow> u16 \<Rightarrow> pofdp_packet \<Rightarrow> glob \<Rightarrow> (ret \<times> pofdp_packet \<times> glob) option" where
  "calChecksum cs_type cal_type cal_pos_b cal_len_b cs_pos_b cs_len_b dpp g = do {
     b0 \<leftarrow> buf_sel cs_type dpp;
     (r, b1, g1) \<leftarrow> bzero_bit cs_pos_b cs_len_b b0 g;
     dpp1 \<leftarrow> buf_upd cs_type (\<lambda>_. Some b1) dpp;
     (if r \<noteq> POF_OK then Some (r, dpp1, g1)
      else do {
        b2 \<leftarrow> buf_sel cal_type dpp1;
        v \<leftarrow> checksum b2 cal_pos_b cal_len_b cs_len_b;
        dpp2 \<leftarrow> buf_upd cs_type (\<lambda>b. pofbf_cover_bit b (le_bytes 8 v) cs_pos_b cs_len_b) dpp1;
        Some (POF_OK, dpp2, g1)
      })
   }"

section \<open>The actions\<close>

definition act_p :: "pofdp_packet \<Rightarrow> bytes option" where
  "act_p dpp = map_option (drop 4) (cur_act dpp)"

definition execute_COUNTER :: "dp_state \<Rightarrow> (ret \<times> dp_state) option" where
  "execute_COUNTER s = (case s of (dpp, lr, g) \<Rightarrow> do {
     p \<leftarrow> act_p dpp;
     counterID \<leftarrow> get32 p 0;
     (r, lr1, g1) \<leftarrow> poflr_counter_increace counterID 0 lr g;
     (if r \<noteq> POF_OK then Some (r, dpp, lr1, g1) else Some (POF_OK, action_update dpp, lr1, g1))
   })"

text \<open>\<^verbatim>\<open>execute_GROUP\<close> up to the execution of the actions of the group.\<close>

definition group_enter :: "dp_state \<Rightarrow> (ret \<times> dp_state) option" where
  "group_enter s = (case s of (dpp, lr, g) \<Rightarrow> do {
     p \<leftarrow> act_p dpp;
     group_id \<leftarrow> get32 p 0;
     q \<leftarrow> poflr_get_group_with_ID group_id lr;
     (case q of
        None \<Rightarrow> in_dp dpp lr (err_upward_new POFET_GROUP_MOD_FAILED (GroupE POFGMFC_UNKNOWN_GROUP) g)
      | Some grp \<Rightarrow> do {
          n \<leftarrow> POF_PACKET_REL_LEN_GET dpp;
          (r, lr1, g1) \<leftarrow> poflr_counter_increace (gi_counter_id (hn_obj grp)) n lr g;
          (if r \<noteq> POF_OK then Some (r, dpp, lr1, g1)
           else Some (POF_OK, dpp\<lparr>pk_act := (gi_action (hn_obj grp), 0),
             pk_act_num := gi_action_number (hn_obj grp)\<rparr>, lr1, g1))
        })
   })"

definition execute_PACKET_IN :: "dp_state \<Rightarrow> (ret \<times> dp_state) option" where
  "execute_PACKET_IN s = (case s of (dpp, lr, g) \<Rightarrow> do {
     p \<leftarrow> act_p dpp;
     reason \<leftarrow> get32 p 0;
     table_ID \<leftarrow> poflr_table_id_to_ID (pk_table_type dpp) (pk_table_id dpp) lr;
     (r, g1) \<leftarrow> packet_in_of (ucast reason) table_ID dpp g;
     (if r \<noteq> POF_OK then Some (r, dpp, lr, g1) else Some (POF_OK, action_update dpp, lr, g1))
   })"

definition execute_DROP :: "dp_state \<Rightarrow> (ret \<times> dp_state) option" where
  "execute_DROP s = (case s of (dpp, lr, g) \<Rightarrow> do {
     p \<leftarrow> act_p dpp;
     _ \<leftarrow> get32 p 0;
     Some (POF_OK, action_update (dpp\<lparr>pk_packet_done := True\<rparr>), lr, g)
   })"

definition execute_SET_FIELD :: "dp_state \<Rightarrow> (ret \<times> dp_state) option" where
  "execute_SET_FIELD s = (case s of (dpp, lr, g) \<Rightarrow> do {
     p \<leftarrow> act_p dpp;
     offset_b \<leftarrow> get16 p 2;
     len_b \<leftarrow> get16 p 4;
     (if sint (pk_left_len dpp) * 8 < int (unat offset_b + unat len_b) then
        in_dp dpp lr (err_upward_new POFET_SOFTWARE_FAILED (SoftE POF_PACKET_LEN_ERROR) g)
      else do {
        v \<leftarrow> mem_read (drop 8 p) 16;
        mk \<leftarrow> mem_read (drop 24 p) 16;
        let value = map2 (AND) v mk @ replicate (2048 - 16) 0;
        dpp1 \<leftarrow> upd_window (\<lambda>b. pofbf_cover_bit b value offset_b len_b) dpp;
        Some (POF_OK, action_update dpp1, lr, g)
      })
   })"

definition execute_SET_FIELD_FROM_METADATA :: "dp_state \<Rightarrow> (ret \<times> dp_state) option" where
  "execute_SET_FIELD_FROM_METADATA s = (case s of (dpp, lr, g) \<Rightarrow> do {
     p \<leftarrow> act_p dpp;
     offset_b \<leftarrow> get16 p 2;
     len_b \<leftarrow> get16 p 4;
     metadata_offset_b \<leftarrow> get16 p 8;
     (if sint (pk_left_len dpp) * 8 < int (unat offset_b + unat len_b) then
        in_dp dpp lr (err_upward_new POFET_SOFTWARE_FAILED (SoftE POF_PACKET_LEN_ERROR) g)
      else do {
        r \<leftarrow> pofbf_copy_bit (pk_metadata dpp) (Some (take 16 (pk_stk dpp))) metadata_offset_b len_b;
        value \<leftarrow> r;
        dpp1 \<leftarrow> upd_window (\<lambda>b. pofbf_cover_bit b value offset_b len_b) dpp;
        Some (POF_OK, action_update dpp1, lr, g)
      })
   })"

definition execute_MODIFY_FIELD :: "dp_state \<Rightarrow> (ret \<times> dp_state) option" where
  "execute_MODIFY_FIELD s = (case s of (dpp, lr, g) \<Rightarrow> do {
     p \<leftarrow> act_p dpp;
     with_32value (take 4 (pk_stk dpp)) 1 p s (\<lambda>value g1. do {
       increment \<leftarrow> get32 p 8;
       pm \<leftarrow> match_at p 0;
       (r, dpp1, g2) \<leftarrow> pofdp_write_32value_to_field (value + increment) pm dpp g1;
       (if r \<noteq> POF_OK then Some (r, dpp1, lr, g2) else Some (POF_OK, action_update dpp1, lr, g2))
     })
   })"

definition execute_CALCULATE_CHECKSUM :: "dp_state \<Rightarrow> (ret \<times> dp_state) option" where
  "execute_CALCULATE_CHECKSUM s = (case s of (dpp, lr, g) \<Rightarrow> do {
     p \<leftarrow> act_p dpp;
     cs_type \<leftarrow> rd p 0;
     cal_type \<leftarrow> rd p 1;
     cs_pos_b \<leftarrow> get16 p 2;
     cs_len_b \<leftarrow> get16 p 4;
     cal_pos_b \<leftarrow> get16 p 6;
     cal_len_b \<leftarrow> get16 p 8;
     (if cs_len_b > 64 then in_dp dpp lr (err_upward_new POFET_BAD_ACTION (ActE POFBAC_BAD_LEN) g)
      else do {
        (r, dpp1, g1) \<leftarrow> calChecksum cs_type cal_type cal_pos_b cal_len_b cs_pos_b cs_len_b dpp g;
        (if r \<noteq> POF_OK then Some (r, dpp1, lr, g1) else Some (POF_OK, action_update dpp1, lr, g1))
      })
   })"

text \<open>The flood loop over the ports of the slot; the port with configuration 16 is left out.\<close>

definition flood_body ::
  "pof_local_resource \<Rightarrow> portInfo hnode \<Rightarrow> pofdp_packet \<times> glob \<Rightarrow> (ret option \<times> pofdp_packet \<times> glob) option" where
  "flood_body lrPort port s = (case s of (dpp, g) \<Rightarrow>
     if ucast (pi_pofIndex (hn_obj port)) \<noteq> pk_ori_port_id dpp \<and> pi_pofIndex (hn_obj port) \<noteq> local_port_index g
        \<and> pi_config (hn_obj port) \<noteq> 16
     then do {
       (r, dpp1, g1) \<leftarrow> pofdp_send_raw (dpp\<lparr>pk_output_port_id := ucast (pi_pofIndex (hn_obj port))\<rparr>) lrPort g;
       Some (if r \<noteq> POF_OK then Some r else None, dpp1, g1)
     }
     else Some (None, dpp, g))"

text \<open>The port 255 stands for all of them; a send that fails ends the loop.\<close>

definition output_deliver ::
  "pof_local_resource \<Rightarrow> pofdp_packet \<Rightarrow> glob \<Rightarrow> (ret \<times> pofdp_packet \<times> glob) option" where
  "output_deliver lrPort dpp g = (
     if pk_output_port_id dpp = 255 then do {
       (r, dpp1, g1) \<leftarrow> hmap_struct_traverse (\<lambda>_. portPofIndexMap lrPort) (flood_body lrPort) (dpp, g);
       Some (case r of Some v \<Rightarrow> v | None \<Rightarrow> POF_OK, dpp1, g1)
     }
     else pofdp_send_raw dpp lrPort g)"

definition execute_OUTPUT :: "dp_state \<Rightarrow> (ret \<times> dp_state) option" where
  "execute_OUTPUT s = (case s of (dpp, lr, g) \<Rightarrow> do {
     p \<leftarrow> act_p dpp;
     portId_type \<leftarrow> rd p 0;
     metadata_offset \<leftarrow> get16 p 2;
     metadata_len \<leftarrow> get16 p 4;
     packet_offset \<leftarrow> get16 p 6;
     (if int (unat packet_offset) > sint (pk_left_len dpp) then
        in_dp dpp lr (err_upward_new POFET_SOFTWARE_FAILED (SoftE POF_PACKET_LEN_ERROR) g)
      else if byte_ceil (unat metadata_len + unat metadata_offset) > unat (pk_metadata_len dpp) then
        in_dp dpp lr (err_upward_new POFET_SOFTWARE_FAILED (SoftE POF_METADATA_LEN_ERROR) g)
      else with_32value (replicate 4 0) portId_type (drop 8 p) s (\<lambda>value g1. do {
        let dpp1 = dpp\<lparr>pk_output_slot_id := ucast (drop_bit 16 value), pk_output_port_id := ucast (value AND 0xFFFF)\<rparr>;
        q \<leftarrow> pofdp_get_local_resource (pk_output_slot_id dpp1) (pk_dp dpp1);
        (case q of
           None \<Rightarrow> in_dp dpp1 lr (err_upward_new POFET_SOFTWARE_FAILED (SoftE POF_INVALID_SLOT_ID) g1)
         | Some lrPort \<Rightarrow> do {
             let packet_len = ucast (pk_left_len dpp1 - ucast packet_offset);
             let md_len = of_nat (byte_ceil (unat metadata_len));
             let dpp2 = dpp1\<lparr>pk_output_packet_offset := packet_offset, pk_output_packet_len := packet_len,
               pk_output_packet_buf := pk_buf_offset dpp1, pk_output_metadata_len := md_len,
               pk_output_metadata_offset := metadata_offset, pk_output_whole_len := packet_len + md_len\<rparr>;
             (r, dpp3, g2) \<leftarrow> output_deliver (hn_obj lrPort) dpp2 g1;
             (if r \<noteq> POF_OK then Some (r, dpp3, lr, g2) else Some (POF_OK, action_update dpp3, lr, g2))
           })
      }))
   })"

text \<open>
  The check \<^verbatim>\<open>len_b_behindtag < 0\<close> compares an unsigned number with 0 and never holds; the sum
  \<^verbatim>\<open>offset + left_len + ...\<close> is unsigned because its last term is.
\<close>

definition bytenum_ceil32 :: "u32 \<Rightarrow> u32" where
  "bytenum_ceil32 len_b = (len_b + 7) div 8"

definition insertTagToPacket ::
  "u32 \<Rightarrow> u32 \<Rightarrow> bytes \<Rightarrow> pofdp_packet \<Rightarrow> glob \<Rightarrow> (ret \<times> pofdp_packet \<times> glob) option" where
  "insertTagToPacket tag_pos_b tag_len_b value dpp g = (
     let len_b_behindtag = pk_left_len dpp * 8 - tag_pos_b in
     if scast (pk_offset dpp) + pk_left_len dpp + bytenum_ceil32 tag_len_b > 2048 then
       map_option (\<lambda>(r, g'). (r, dpp, g')) (err_upward_new POFET_SOFTWARE_FAILED (SoftE POF_PACKET_LEN_ERROR) g)
     else do {
       w \<leftarrow> pk_window dpp;
       r \<leftarrow> pofbf_copy_bit (Some w) (Some (take 2048 (pk_stk dpp))) (ucast tag_pos_b) (ucast len_b_behindtag);
       buf_behindtag \<leftarrow> r;
       dpp1 \<leftarrow> upd_window (\<lambda>b. pofbf_cover_bit b value (ucast tag_pos_b) (ucast tag_len_b)) dpp;
       dpp2 \<leftarrow> upd_window (\<lambda>b. pofbf_cover_bit b buf_behindtag (ucast (tag_pos_b + tag_len_b))
                             (ucast len_b_behindtag)) dpp1;
       dpp3 \<leftarrow> POF_PACKET_REL_LEN_INC (ucast (bytenum_ceil32 tag_len_b))
                 (dpp2\<lparr>pk_left_len := pk_left_len dpp2 + bytenum_ceil32 tag_len_b\<rparr>);
       Some (POF_OK, dpp3, g)
     })"

definition execute_ADD_FIELD :: "dp_state \<Rightarrow> (ret \<times> dp_state) option" where
  "execute_ADD_FIELD s = (case s of (dpp, lr, g) \<Rightarrow> do {
     p \<leftarrow> act_p dpp;
     tag_pos_b \<leftarrow> get16 p 2;
     tag_len_b \<leftarrow> get32 p 4;
     (if tag_len_b > 128 then in_dp dpp lr (err_upward_new POFET_SOFTWARE_FAILED (SoftE POF_FIELD_LEN_ERROR) g)
      else do {
        (r, dpp1, g1) \<leftarrow> insertTagToPacket (ucast tag_pos_b) tag_len_b (drop 8 p) dpp g;
        (if r \<noteq> POF_OK then Some (r, dpp1, lr, g1) else Some (POF_OK, action_update dpp1, lr, g1))
      })
   })"

definition execute_DELETE_FIELD :: "dp_state \<Rightarrow> (ret \<times> dp_state) option" where
  "execute_DELETE_FIELD s = (case s of (dpp, lr, g) \<Rightarrow> do {
     p \<leftarrow> act_p dpp;
     tag_pos_b \<leftarrow> get16 p 0;
     len_type \<leftarrow> rd p 2;
     with_32value (take 4 (pk_stk dpp)) len_type (drop 8 p) s (\<lambda>tag_len_b g1. do {
       let tag_len_b_x = unat tag_len_b mod 8;
       let len_b_behindtag = (ucast (pk_left_len dpp * 8 - (ucast tag_pos_b + tag_len_b)) :: u16);
       (if sint len_b_behindtag < 0 then
          in_dp dpp lr (err_upward_new POFET_SOFTWARE_FAILED (SoftE POF_PACKET_LEN_ERROR) g1)
        else do {
          w \<leftarrow> pk_window dpp;
          r \<leftarrow> pofbf_copy_bit (Some w) (Some (replicate 2048 0)) (ucast (ucast tag_pos_b + tag_len_b)) len_b_behindtag;
          buf_temp \<leftarrow> r;
          dpp1 \<leftarrow> upd_window (\<lambda>b. pofbf_cover_bit b buf_temp tag_pos_b len_b_behindtag) dpp;
          dpp2 \<leftarrow> POF_PACKET_REL_LEN_DEC (ucast (ucast (tag_len_b div 8) :: u8))
                    (dpp1\<lparr>pk_left_len := bytenum_ceil32 (pk_left_len dpp1 * 8 - tag_len_b)\<rparr>);
          dpp3 \<leftarrow> (if tag_len_b_x \<noteq> 0 then upd_window (\<lambda>b. do {
                      (if sint (pk_left_len dpp2) < 1 then None else do {
                        d \<leftarrow> rd b (nat (sint (pk_left_len dpp2) - 1));
                        wr b (nat (sint (pk_left_len dpp2) - 1)) (d AND POF_MOVE_BIT_LEFT 0xff tag_len_b_x)
                      })
                    }) dpp2
                    else Some dpp2);
          Some (POF_OK, action_update dpp3, lr, g1)
        })
     })
   })"

definition execute_EXPERIMENTER :: "dp_state \<Rightarrow> (ret \<times> dp_state) option" where
  "execute_EXPERIMENTER s = (case s of (dpp, lr, g) \<Rightarrow>
     in_dp dpp lr (err_upward_new POFET_BAD_ACTION (ActE POFBAC_BAD_TYPE) g))"

section \<open>Executing the actions\<close>

text \<open>The switch over the action type, \<^verbatim>\<open>POFAT_GROUP\<close> (7) apart.\<close>

definition execute_one_action :: "u16 \<Rightarrow> dp_state \<Rightarrow> (ret \<times> dp_state) option" where
  "execute_one_action type s = (
     if type = 0 then execute_OUTPUT s
     else if type = 1 then execute_SET_FIELD s
     else if type = 2 then execute_SET_FIELD_FROM_METADATA s
     else if type = 3 then execute_MODIFY_FIELD s
     else if type = 4 then execute_ADD_FIELD s
     else if type = 5 then execute_DELETE_FIELD s
     else if type = 6 then execute_CALCULATE_CHECKSUM s
     else if type = 8 then execute_DROP s
     else if type = 9 then execute_PACKET_IN s
     else if type = 10 then execute_COUNTER s
     else if type = 0xFFFF then execute_EXPERIMENTER s
     else (case s of (dpp, lr, g) \<Rightarrow> in_dp dpp lr (err_upward_new POFET_BAD_ACTION (ActE POFBAC_BAD_TYPE) g)))"

text \<open>
  The loop calls itself through \<^verbatim>\<open>execute_GROUP\<close>; a group that leads back to itself never
  returns, which is the value \<open>None\<close>.
\<close>

partial_function (option) pofdp_action_execute :: "dp_state \<Rightarrow> (ret \<times> dp_state) option" where
  "pofdp_action_execute s = (
     if \<not> pk_packet_done (fst s) \<and> 0 < pk_act_num (fst s) then do {
       a \<leftarrow> cur_act (fst s);
       type \<leftarrow> get16 a 0;
       (if type = 7 then do {
          (r1, s1) \<leftarrow> group_enter s;
          (if r1 \<noteq> POF_OK then Some (r1, s1) else do {
             (r2, s2) \<leftarrow> pofdp_action_execute s1;
             (if r2 \<noteq> POF_OK then Some (r2, s2) else pofdp_action_execute s2)
           })
        }
        else do {
          (r1, s1) \<leftarrow> execute_one_action type s;
          (if r1 \<noteq> POF_OK then Some (r1, s1) else pofdp_action_execute s1)
        })
     } else Some (POF_OK, s))"

declare pofdp_action_execute.simps [code]

definition execute_GROUP :: "dp_state \<Rightarrow> (ret \<times> dp_state) option" where
  "execute_GROUP s = check_ret (group_enter s) pofdp_action_execute"

end
