(* ===== verification/Pof_Instruction.thy ===== *)
theory Pof_Instruction
  imports Pof_Action
begin

text \<open>
  The instructions and the loop that executes them: \<^verbatim>\<open>datapath/pof_instruction.c\<close>. A handler
  reads its parameters from the bytes of the current instruction. \<^verbatim>\<open>GOTO_TABLE\<close> and
  \<^verbatim>\<open>GOTO_DIRECT_TABLE\<close> replace the instructions by those of the matched entry; a conditional jump
  may go back, so the loop need not end.
\<close>

definition ins_p :: "pofdp_packet \<Rightarrow> bytes option" where
  "ins_p dpp = map_option (drop 8) (cur_ins dpp)"

definition pofdp_entry_nomatch :: "pofdp_packet \<Rightarrow> pof_local_resource \<Rightarrow> glob \<Rightarrow> (ret \<times> glob) option" where
  "pofdp_entry_nomatch dpp lr g = do {
     table_ID \<leftarrow> poflr_table_id_to_ID (pk_table_type dpp) (pk_table_id dpp) lr;
     packet_in_of 0 table_ID dpp g
   }"

definition execute_METER :: "dp_state \<Rightarrow> (ret \<times> dp_state) option" where
  "execute_METER s = (case s of (dpp, lr, g) \<Rightarrow> do {
     p \<leftarrow> ins_p dpp;
     meterID \<leftarrow> get32 p 0;
     q \<leftarrow> poflr_get_meter_with_ID meterID lr;
     (case q of
        None \<Rightarrow> in_dp dpp lr (err_upward_new POFET_METER_MOD_FAILED (MeterE POFMMFC_UNKNOWN_METER) g)
      | Some meter \<Rightarrow> Some (POF_OK, instruction_update (dpp\<lparr>pk_rate := ucast (mi_rate (hn_obj meter))\<rparr>), lr, g))
   })"

text \<open>The metadata is written without a check of the field against its length.\<close>

definition execute_WRITE_METADATA :: "dp_state \<Rightarrow> (ret \<times> dp_state) option" where
  "execute_WRITE_METADATA s = (case s of (dpp, lr, g) \<Rightarrow> do {
     p \<leftarrow> ins_p dpp;
     metadata_offset \<leftarrow> get16 p 0;
     len \<leftarrow> get16 p 2;
     dpp1 \<leftarrow> upd_metadata (\<lambda>md. pofbf_cover_bit md (drop 4 p) metadata_offset len) dpp;
     Some (POF_OK, instruction_update dpp1, lr, g)
   })"

definition execute_WRITE_METADATA_FROM_PACKET :: "dp_state \<Rightarrow> (ret \<times> dp_state) option" where
  "execute_WRITE_METADATA_FROM_PACKET s = (case s of (dpp, lr, g) \<Rightarrow> do {
     p \<leftarrow> ins_p dpp;
     metadata_offset \<leftarrow> get16 p 0;
     packet_offset \<leftarrow> get16 p 2;
     len \<leftarrow> get16 p 4;
     (if sint (pk_left_len dpp) * 8 < int (unat len + unat packet_offset) then
        in_dp dpp lr (err_upward_new POFET_SOFTWARE_FAILED (SoftE POF_PACKET_LEN_ERROR) g)
      else do {
        w \<leftarrow> pk_window dpp;
        r \<leftarrow> pofbf_copy_bit (Some w) (Some (replicate 128 0)) packet_offset len;
        value \<leftarrow> r;
        dpp1 \<leftarrow> upd_metadata (\<lambda>md. pofbf_cover_bit md value metadata_offset len) dpp;
        Some (POF_OK, instruction_update dpp1, lr, g)
      })
   })"

text \<open>The instructions of a matched entry become the instructions to execute.\<close>

definition enter_entry :: "entryInfo \<Rightarrow> pofdp_packet \<Rightarrow> pofdp_packet" where
  "enter_entry entry dpp = dpp\<lparr>pk_ins := (ei_instruction entry, 0), pk_ins_todo_num := ei_instruction_num entry,
     pk_ins_done_num := 0\<rparr>"

text \<open>The first steps of both table instructions: the window, then the type and id of the table.\<close>

definition goto_prepare :: "u16 \<Rightarrow> u8 \<Rightarrow> dp_state \<Rightarrow> (ret \<times> dp_state) option" where
  "goto_prepare packet_offset next_table_id s = (case s of (dpp, lr, g) \<Rightarrow> do {
     (r, dpp1, g1) \<leftarrow> movePacketBufOffset packet_offset dpp g;
     (if r \<noteq> POF_OK then Some (r, dpp1, lr, g1)
      else do {
        (r, q, g2) \<leftarrow> poflr_table_ID_to_id next_table_id lr g1;
        (let dpp2 = (case q of None \<Rightarrow> dpp1 | Some (ty, tid) \<Rightarrow> dpp1\<lparr>pk_table_type := ty, pk_table_id := tid\<rparr>)
         in Some (r, dpp2, lr, g2))
      })
   })"

definition execute_GOTO_DIRECT_TABLE :: "dp_state \<Rightarrow> (ret \<times> dp_state) option" where
  "execute_GOTO_DIRECT_TABLE s = do {
     p \<leftarrow> ins_p (fst s);
     next_table_id \<leftarrow> rd p 0;
     index_type \<leftarrow> rd p 1;
     packet_offset \<leftarrow> get16 p 2;
     check_ret (goto_prepare packet_offset next_table_id s) (\<lambda>(dpp, lr, g).
       with_32value (take 4 (pk_stk dpp)) index_type (drop 8 p) (dpp, lr, g) (\<lambda>entry_index g1. do {
         q \<leftarrow> poflr_get_table_with_ID next_table_id lr;
         (case q of
            None \<Rightarrow> in_dp dpp lr (err_upward_new POFET_BAD_ACTION (InsE POFBIC_BAD_TABLE_ID) g1)
          | Some table \<Rightarrow>
              if pk_table_type dpp \<noteq> POF_LINEAR_TABLE then
                in_dp dpp lr (err_upward_new POFET_BAD_ACTION (InsE POFBIC_BAD_TABLE_TYPE) g1)
              else do {
                e \<leftarrow> poflr_entry_lookup_Linear entry_index (hn_obj table);
                (case e of
                   None \<Rightarrow> in_dp (dpp\<lparr>pk_flow_entry := None\<rparr>) lr
                             (err_upward_new POFET_BAD_ACTION (InsE POFBIC_ENTRY_UNEXIST) g1)
                 | Some entry \<Rightarrow> do {
                     let dpp1 = dpp\<lparr>pk_flow_entry := Some (hn_obj entry)\<rparr>;
                     n \<leftarrow> POF_PACKET_REL_LEN_GET dpp1;
                     (r, lr1, g2) \<leftarrow> poflr_counter_increace (ei_counter_id (hn_obj entry)) n lr g1;
                     (if r \<noteq> POF_OK then Some (r, dpp1, lr1, g2)
                      else Some (POF_OK, enter_entry (hn_obj entry) dpp1, lr1, g2))
                   })
              })
       }))
   }"

text \<open>A failing counter does not keep the packet from entering the entry, but is returned.\<close>

definition execute_GOTO_TABLE :: "dp_state \<Rightarrow> (ret \<times> dp_state) option" where
  "execute_GOTO_TABLE s = do {
     p \<leftarrow> ins_p (fst s);
     next_table_id \<leftarrow> rd p 0;
     packet_offset \<leftarrow> get16 p 2;
     check_ret (goto_prepare packet_offset next_table_id s) (\<lambda>(dpp, lr, g). do {
       q \<leftarrow> poflr_get_table_with_ID next_table_id lr;
       (case q of
          None \<Rightarrow> in_dp dpp lr (err_upward_new POFET_BAD_ACTION (InsE POFBIC_BAD_TABLE_ID) g)
        | Some table \<Rightarrow> do {
            w \<leftarrow> pk_window dpp;
            (e, g1) \<leftarrow> poflr_entry_lookup w (pk_metadata dpp) (hn_obj table) g;
            (case e of
               None \<Rightarrow> do {
                 let dpp1 = dpp\<lparr>pk_flow_entry := None\<rparr>;
                 (r, g2) \<leftarrow> pofdp_entry_nomatch dpp1 lr g1;
                 Some (r, dpp1\<lparr>pk_packet_done := True\<rparr>, lr, g2)
               }
             | Some entry \<Rightarrow> do {
                 let dpp1 = dpp\<lparr>pk_flow_entry := Some (hn_obj entry)\<rparr>;
                 n \<leftarrow> POF_PACKET_REL_LEN_GET dpp1;
                 (r, lr1, g2) \<leftarrow> poflr_counter_increace (ei_counter_id (hn_obj entry)) n lr g1;
                 Some (r, enter_entry (hn_obj entry) dpp1, lr1, g2)
               })
          })
     })
   }"

definition execute_APPLY_ACTIONS :: "dp_state \<Rightarrow> (ret \<times> dp_state) option" where
  "execute_APPLY_ACTIONS s = (case s of (dpp, lr, g) \<Rightarrow> do {
     p \<leftarrow> ins_p dpp;
     action_num \<leftarrow> rd p 0;
     check_ret (pofdp_action_execute (dpp\<lparr>pk_act := (take 288 (drop 8 p), 0), pk_act_num := action_num\<rparr>, lr, g))
       (\<lambda>(dpp1, lr1, g1). Some (POF_OK, instruction_update dpp1, lr1, g1))
   })"

definition execute_CONDITIONAL_JMP :: "dp_state \<Rightarrow> (ret \<times> dp_state) option" where
  "execute_CONDITIONAL_JMP s = (case s of (dpp, lr, g) \<Rightarrow> do {
     p \<leftarrow> ins_p dpp;
     let v0 = take 4 (pk_stk dpp);
     field2_type \<leftarrow> rd p 0;
     with_32value v0 1 (drop 8 p) s (\<lambda>value1 g1.
       with_32value v0 field2_type (drop 16 p) (dpp, lr, g1) (\<lambda>value2 g2. do {
         let k = (if value1 < value2 then 0 else if value1 = value2 then 1 else 2);
         direction \<leftarrow> rd p (1 + 2 * k);
         ty \<leftarrow> rd p (2 + 2 * k);
         with_32value v0 ty (drop (24 + 8 * k) p) (dpp, lr, g2) (\<lambda>offset g3. do {
           (r, dpp1, g4) \<leftarrow> insJump direction offset dpp g3;
           Some (r, dpp1, lr, g4)
         })
       }))
   })"

definition execute_CALCULATE_FIELD :: "dp_state \<Rightarrow> (ret \<times> dp_state) option" where
  "execute_CALCULATE_FIELD s = (case s of (dpp, lr, g) \<Rightarrow> do {
     p \<leftarrow> ins_p dpp;
     let v0 = take 4 (pk_stk dpp);
     calc_type \<leftarrow> get16 p 0;
     src_type \<leftarrow> rd p 2;
     with_32value v0 1 (drop 8 p) s (\<lambda>value1 g1.
       with_32value v0 src_type (drop 16 p) (dpp, lr, g1) (\<lambda>operand g2.
         (case calculations calc_type of
            None \<Rightarrow> in_dp dpp lr (err_upward_new POFET_BAD_INSTRUCTION (InsE POFBIC_UNKNOWN_INST) g2)
          | Some f \<Rightarrow> do {
              result \<leftarrow> f value1 operand;
              pm \<leftarrow> match_at (drop 8 p) 0;
              (r, dpp1, g3) \<leftarrow> pofdp_write_32value_to_field result pm dpp g2;
              (if r \<noteq> POF_OK then Some (r, dpp1, lr, g3) else Some (POF_OK, instruction_update dpp1, lr, g3))
            })))
   })"

definition execute_MOVE_PACKET_OFFSET :: "dp_state \<Rightarrow> (ret \<times> dp_state) option" where
  "execute_MOVE_PACKET_OFFSET s = (case s of (dpp, lr, g) \<Rightarrow> do {
     p \<leftarrow> ins_p dpp;
     direction \<leftarrow> rd p 0;
     value_type \<leftarrow> rd p 1;
     with_32value (take 4 (pk_stk dpp)) value_type (drop 8 p) s (\<lambda>value g1. do {
       (r, dpp1, g2) \<leftarrow> movePacketBufOffset (if direction = 0 then ucast value else 0 - ucast value) dpp g1;
       (if r \<noteq> POF_OK then Some (r, dpp1, lr, g2) else Some (POF_OK, instruction_update dpp1, lr, g2))
     })
   })"

text \<open>\<^verbatim>\<open>WRITE_ACTIONS\<close>, \<^verbatim>\<open>CLEAR_ACTIONS\<close> and the experimenter instruction are not supported.\<close>

definition execute_WRITE_ACTIONS :: "dp_state \<Rightarrow> (ret \<times> dp_state) option" where
  "execute_WRITE_ACTIONS s = (case s of (dpp, lr, g) \<Rightarrow>
     in_dp dpp lr (err_upward_new POFET_BAD_INSTRUCTION (InsE POFBIC_UNSUP_INST) g))"

definition execute_CLEAR_ACTIONS :: "dp_state \<Rightarrow> (ret \<times> dp_state) option" where
  "execute_CLEAR_ACTIONS s = (case s of (dpp, lr, g) \<Rightarrow>
     in_dp dpp lr (err_upward_new POFET_BAD_INSTRUCTION (InsE POFBIC_UNSUP_INST) g))"

definition execute_EXPERIMENTER_ins :: "dp_state \<Rightarrow> (ret \<times> dp_state) option" where
  "execute_EXPERIMENTER_ins s = (case s of (dpp, lr, g) \<Rightarrow>
     in_dp dpp lr (err_upward_new POFET_BAD_INSTRUCTION (InsE POFBIC_UNSUP_INST) g))"

definition execute_one_instruction :: "u16 \<Rightarrow> dp_state \<Rightarrow> (ret \<times> dp_state) option" where
  "execute_one_instruction type s = (
     if type = 1 then execute_GOTO_TABLE s
     else if type = 2 then execute_WRITE_METADATA s
     else if type = 3 then execute_WRITE_ACTIONS s
     else if type = 4 then execute_APPLY_ACTIONS s
     else if type = 5 then execute_CLEAR_ACTIONS s
     else if type = 6 then execute_METER s
     else if type = 7 then execute_WRITE_METADATA_FROM_PACKET s
     else if type = 8 then execute_GOTO_DIRECT_TABLE s
     else if type = 9 then execute_CONDITIONAL_JMP s
     else if type = 10 then execute_CALCULATE_FIELD s
     else if type = 11 then execute_MOVE_PACKET_OFFSET s
     else if type = 0xFFFF then execute_EXPERIMENTER_ins s
     else (case s of (dpp, lr, g) \<Rightarrow> in_dp dpp lr (err_upward_new POFET_BAD_INSTRUCTION (InsE POFBIC_UNKNOWN_INST) g)))"

partial_function (option) pofdp_instruction_execute :: "dp_state \<Rightarrow> (ret \<times> dp_state) option" where
  "pofdp_instruction_execute s = (
     if \<not> pk_packet_done (fst s) then do {
       i \<leftarrow> cur_ins (fst s);
       type \<leftarrow> get16 i 0;
       (r, s1) \<leftarrow> execute_one_instruction type s;
       (if r \<noteq> POF_OK then Some (r, s1) else pofdp_instruction_execute s1)
     } else Some (POF_OK, s))"

declare pofdp_instruction_execute.simps [code]

end
