(* ===== verification/Pof_Datapath.thy ===== *)
theory Pof_Datapath
  imports Pof_Instruction
begin

text \<open>
  Receiving a frame on a port and forwarding it: \<^verbatim>\<open>datapath/pof_datapath.c\<close>. The receive task is
  one step per frame; what \<^verbatim>\<open>recvfrom\<close> delivers (the frame, or a failure) and the packet type of
  its sender address are inputs of the step.
\<close>

definition init_packet_metadata :: "nat \<Rightarrow> pofdp_packet \<Rightarrow> glob \<Rightarrow> (ret \<times> pofdp_packet \<times> glob) option" where
  "init_packet_metadata len dpp g = (
     if len < 6 then
       (case err_no_upward POFET_SOFTWARE_FAILED (SoftE POF_METADATA_LEN_ERROR) g of (r, g') \<Rightarrow> Some (r, dpp, g'))
     else do {
       let dpp1 = dpp\<lparr>pk_metadata_len := of_nat len, pk_metadata := Some (replicate len 0)\<rparr>;
       dpp2 \<leftarrow> POF_PACKET_REL_LEN_SET (ucast (pk_ori_len dpp1)) dpp1;
       dpp3 \<leftarrow> upd_metadata (\<lambda>md. wr md 2 (ucast (pk_ori_port_id dpp2))) dpp2;
       Some (POF_OK, dpp3, g)
     })"

text \<open>
  The instruction a new packet starts with: \<^verbatim>\<open>GOTO_TABLE\<close> (1) to table 0; its length is the size
  of a pointer. The structure was zero before.
\<close>

definition set_goto_first_table_instruction :: bytes where
  "set_goto_first_table_instruction = le_bytes 2 (1 :: u16) @ le_bytes 2 (8 :: u16) @ replicate 300 0"

definition pofdp_forward :: "bytes \<Rightarrow> dp_state \<Rightarrow> (ret \<times> dp_state) option" where
  "pofdp_forward first_ins s = (case s of (dpp, lr, g) \<Rightarrow> do {
     (r, dpp1, g1) \<leftarrow> init_packet_metadata 128 dpp g;
     (if r \<noteq> POF_OK then Some (r, dpp1, lr, g1)
      else check_ret (pofdp_instruction_execute (dpp1\<lparr>pk_ins := (first_ins, 0), pk_ins_todo_num := 1\<rparr>, lr, g1))
        (\<lambda>s'. Some (POF_OK, s')))
   })"

text \<open>The filters: 3 is \<^verbatim>\<open>PACKET_OTHERHOST\<close>, 4 is \<^verbatim>\<open>PACKET_OUTGOING\<close>.\<close>

definition filter_packet :: "packet_filter \<Rightarrow> u8 \<Rightarrow> ret" where
  "filter_packet f sll_pkttype = (case f of
      pofdp_promisc \<Rightarrow> POF_OK
    | pofdp_no_promisc \<Rightarrow> if sll_pkttype = 3 then POF_ERROR else POF_OK)"

text \<open>The structure of a packet after \<^verbatim>\<open>memset\<close>.\<close>

definition zero_dpp :: "pof_datapath \<Rightarrow> bytes \<Rightarrow> pofdp_packet" where
  "zero_dpp dp stk = \<lparr>pk_dp = dp, pk_ori_port_id = 0, pk_ori_len = 0, pk_buf = replicate 2048 0, pk_packetBuf = 0,
     pk_output_port_id = 0, pk_output_slot_id = 0, pk_output_packet_len = 0, pk_output_packet_offset = 0,
     pk_output_metadata_len = 0, pk_output_metadata_offset = 0, pk_output_whole_len = 0,
     pk_buf_out = replicate 2048 0, pk_output_packet_buf = 0, pk_offset = 0, pk_buf_offset = 0, pk_left_len = 0,
     pk_metadata = None, pk_metadata_len = 0, pk_table_type = 0, pk_table_id = 0, pk_flow_entry = None,
     pk_ins = ([], 0), pk_ins_todo_num = 0, pk_ins_done_num = 0, pk_act = ([], 0), pk_act_num = 0,
     pk_packet_done = False, pk_rate = 0, pk_stk = stk\<rparr>"

text \<open>A received frame in the buffer, 128 bytes behind its start.\<close>

definition recv_dpp :: "pof_datapath \<Rightarrow> bytes \<Rightarrow> portInfo \<Rightarrow> bytes \<Rightarrow> pofdp_packet" where
  "recv_dpp dp stk port frame = (zero_dpp dp stk)\<lparr>
     pk_packetBuf := 128, pk_buf := replicate 128 0 @ frame @ replicate (1920 - length frame) 0,
     pk_ori_port_id := ucast (pi_pofIndex port), pk_ori_len := of_nat (length frame),
     pk_left_len := of_nat (length frame), pk_buf_offset := 128\<rparr>"

text \<open>
  One iteration of the receive loop. A failing \<^verbatim>\<open>recvfrom\<close> (\<open>None\<close>) gives the length
  \<^verbatim>\<open>0xffffffff\<close>, which the unsigned test \<open>len_B \<le> 0\<close> does not catch; the test against the MTU
  drops it. A frame longer than the 1920 bytes behind \<^verbatim>\<open>packetBuf\<close> overwrites the members
  after the buffer.
\<close>

definition pofdp_recv_raw_step ::
  "bytes \<Rightarrow> portInfo \<Rightarrow> bytes option \<Rightarrow> u8 \<Rightarrow> pof_datapath \<times> glob \<Rightarrow> (pof_datapath \<times> glob) option" where
  "pofdp_recv_raw_step stk port received sll_pkttype s = (case s of (dp, g) \<Rightarrow> do {
     q \<leftarrow> pofdp_get_local_resource (pi_slotID port) dp;
     lr \<leftarrow> q;
     (case received of
        None \<Rightarrow> Some (dp, g)
      | Some frame \<Rightarrow>
          if frame = [] then do {
            (_, g1) \<leftarrow> err_upward_new POFET_SOFTWARE_FAILED (SoftE POF_RECEIVE_MSG_FAILURE) g;
            Some (dp, g1)
          }
          else if length frame > 1920 then None
          else if pi_of_enable port = 0 \<or> sll_pkttype = 4 then Some (dp, g)
          else if length frame > 1514 then Some (dp, g)
          else if filter_packet (dp_filter dp) sll_pkttype \<noteq> POF_OK then Some (dp, g)
          else do {
            t \<leftarrow> poflr_get_table_with_ID 0 (hn_obj lr);
            (case t of
               None \<Rightarrow> Some (dp, g)
             | Some _ \<Rightarrow> do {
                 (_, _, lr1, g1) \<leftarrow> pofdp_forward set_goto_first_table_instruction
                   (recv_dpp dp stk port frame, hn_obj lr, g);
                 Some (dp\<lparr>slotMap := map_option (hmap_write (hn_ptr lr) (\<lambda>_. lr1)) (slotMap dp),
                          pktCount := pktCount dp + 1\<rparr>, g1)
               })
          })
   })"

text \<open>The parameters of the datapath become those of a slot.\<close>

definition fill_localresource_param :: "pof_param \<Rightarrow> pof_local_resource \<Rightarrow> pof_local_resource option" where
  "fill_localresource_param param lr = do {
     ns \<leftarrow> (if length (pm_tableNumMaxEachType param) < 4 then None else Some (take 4 (pm_tableNumMaxEachType param)));
     Some (lr\<lparr>portNumMax := pm_portNumMax param, portFlag := pm_portFlag param, tableNumMaxEachType := ns,
       tableSizeMax := pm_tableSizeMax param, groupNumMax := pm_groupNumMax param,
       meterNumMax := pm_meterNumMax param, counterNumMax := pm_counterNumMax param\<rparr>)
   }"

text \<open>A datapath without slots and a port, for examples.\<close>

definition example_dp :: pof_datapath where
  "example_dp = \<lparr>dp_filter = pofdp_no_promisc,
     dp_param = \<lparr>pm_portNumMax = 4, pm_portFlag = 0, pm_tableNumMaxEachType = [2, 2, 2, 2], pm_tableSizeMax = 16,
       pm_groupNumMax = 4, pm_meterNumMax = 4, pm_counterNumMax = 4\<rparr>,
     slotMap = Some empty_hmap, slotNum = 1, slotMax = 16, listenIP = replicate 20 0, listenPort = 6634, pktCount = 0\<rparr>"

definition example_port :: portInfo where
  "example_port = \<lparr>pi_name = [], pi_hwaddr = [2, 0, 0, 0, 0, 3], pi_ip = [], pi_sysIndex = 5, pi_pofIndex = 3,
     pi_pofState = 0, pi_slotID = 0, pi_of_enable = 1, pi_taskID = 0, pi_queue_fd = [6, 7], pi_num_queues = 2,
     pi_config = 0\<rparr>"

end
