(* ===== verification/Pof_Field.thy ===== *)
theory Pof_Field
  imports Pof_Datapath
begin

text \<open>
  Reading and writing numeric fields of the packet and of the metadata, and the actions and
  instructions that set, modify or calculate one. A field is a run of bits in network order;
  its value is the number with those binary digits, most significant first.
\<close>

section \<open>The value of a field\<close>

definition bits_nat :: "bool list \<Rightarrow> nat" where
  "bits_nat bs = horner_sum of_bool 2 (rev bs)"

definition field_val :: "bytes \<Rightarrow> nat \<Rightarrow> nat \<Rightarrow> nat" where
  "field_val b off len = bits_nat (bits_from b off len)"

text \<open>\<open>b'\<close> is \<open>b\<close> with the bits \<open>bs\<close> from bit \<open>off\<close> on.\<close>

definition put_bits :: "bytes \<Rightarrow> nat \<Rightarrow> bool list \<Rightarrow> bytes \<Rightarrow> bool" where
  "put_bits b off bs b' \<longleftrightarrow> length b' = length b \<and> (\<forall>i < 8 * length b.
     bit_at b' i = (if off \<le> i \<and> i < off + length bs then bs ! (i - off) else bit_at b i))"

lemma bits_nat_word:
  fixes w :: "'a::len word"
  shows "bits_nat (map (\<lambda>i. bit w (n - 1 - i)) [0..<n]) = take_bit n (unat w)"
proof -
  have "rev (map (\<lambda>i. bit w (n - 1 - i)) [0..<n]) = map (bit (unat w)) [0..<n]"
    by (rule nth_equalityI) (auto simp: rev_nth bit_unsigned_iff possible_bit_def)
  then show ?thesis by (simp add: bits_nat_def horner_sum_bit_eq_take_bit)
qed

lemma put_bits_from: "put_bits b off bs b' \<Longrightarrow> off + length bs \<le> 8 * length b \<Longrightarrow> bits_from b' off (length bs) = bs"
  by (rule nth_equalityI) (auto simp: put_bits_def)

lemma put_bits_other: "put_bits b off bs b' \<Longrightarrow> i < 8 * length b \<Longrightarrow> i < off \<or> off + length bs \<le> i \<Longrightarrow> bit_at b' i = bit_at b i"
  by (auto simp: put_bits_def)

lemma put_bits_unique: "put_bits b off bs b1 \<Longrightarrow> put_bits b off bs b2 \<Longrightarrow> b1 = b2"
  by (subst bytes_eq_iff_bit_at) (auto simp: put_bits_def)

text \<open>Words in network order: the bytes in memory are those of the little-endian word reversed.\<close>

lemma bit_at_rev_le_bytes:
  fixes x :: "'a::len word"
  assumes "i < 8 * n"
  shows "bit_at (rev (le_bytes n x)) i = bit x (8 * n - 1 - i)"
proof -
  have i: "i div 8 < n" using assms by simp
  then have "rev (le_bytes n x) ! (i div 8) = ucast (drop_bit (8 * (n - 1 - i div 8)) x)"
    by (simp add: rev_nth le_bytes_def)
  moreover have "8 * (n - 1 - i div 8) + (7 - i mod 8) = 8 * n - 1 - i"
  proof -
    obtain k where k: "n = i div 8 + Suc k" using less_imp_Suc_add [OF i] by auto
    define q r where "q = i div 8" and "r = i mod 8"
    then have "i = 8 * q + r" "r < 8" "i div 8 = q" "i mod 8 = r" by simp_all
    then show ?thesis unfolding k by simp
  qed
  moreover have "7 - i mod 8 < 8" by simp
  ultimately show ?thesis by (simp add: bit_at_def bit_simps)
qed

lemma bit_of_le_rev:
  fixes v :: bytes
  assumes "LENGTH('a) = 8 * length v" "i < 8 * length v"
  shows "bit (of_le (rev v) :: 'a::len word) (8 * length v - 1 - i) = bit_at v i"
proof -
  have "rev (le_bytes (length v) (of_le (rev v) :: 'a word)) = v"
    using le_bytes_of_le [of "rev v", where 'a = 'a] assms(1) by simp
  then show ?thesis using bit_at_rev_le_bytes [OF assms(2), of "of_le (rev v) :: 'a word"] by simp
qed

lemma NTOHL_of_le: "length v = 4 \<Longrightarrow> POF_NTOHL (of_le v) = of_le (rev v)"
  using le_bytes_NTOHL [of v] of_le_le_bytes [of 4 "POF_NTOHL (of_le v)"] by simp

lemma le_bytes_NTOHL_word: "le_bytes 4 (POF_NTOHL x) = rev (le_bytes 4 x)"
  using le_bytes_NTOHL [of "le_bytes 4 x"] of_le_le_bytes [of 4 x] by simp

lemma NTOH64_of_le: "length v = 8 \<Longrightarrow> POF_NTOH64 (of_le v) = of_le (rev v)"
  using le_bytes_NTOH64 [of v] of_le_le_bytes [of 8 "POF_NTOH64 (of_le v)"] by simp

lemma le_bytes_NTOH64_word: "le_bytes 8 (POF_NTOH64 x) = rev (le_bytes 8 x)"
  using le_bytes_NTOH64 [of "le_bytes 8 x"] of_le_le_bytes [of 8 x] by simp

section \<open>Reading and writing a run of bits\<close>

lemma get_32value_bits:
  assumes "0 < len" "len \<le> 32" "unat off div 8 + byte_ceil (unat len) < length b" "length v0 = 4"
  shows "\<exists>v. pofdp_get_32value_from_buf b v0 off len = Some v \<and> unat v = field_val b (unat off) (unat len)"
proof -
  have l: "0 < unat len" "unat len \<le> 32" using assms(1,2) by (simp_all add: word_less_nat_alt word_le_nat_alt)
  have "byte_ceil (unat len) \<le> length v0" using l assms(4) by (simp add: byte_ceil_def)
  then obtain out where out: "pofbf_copy_bit (Some b) (Some v0) off len = Some (Some out)" "length out = 4"
    "\<And>i. i < unat len \<Longrightarrow> bit_at out i = bit_at b (unat off + i)"
    using copy_bit_ok [OF assms(1,3), of v0] l assms(4) by (auto 4 3)
  define w where "w = (of_le (rev out) :: u32)"
  have run: "pofdp_get_32value_from_buf b v0 off len = Some (drop_bit (32 - unat len) w)"
    using out(1,2) assms(1,2) by (simp add: pofdp_get_32value_from_buf_def NTOHL_of_le w_def)
  have "bits_from b (unat off) (unat len) = map (\<lambda>i. bit (drop_bit (32 - unat len) w) (unat len - 1 - i)) [0..<unat len]"
  proof (rule nth_equalityI)
    fix i assume "i < length (bits_from b (unat off) (unat len))"
    then have i: "i < unat len" by simp
    then have "bit w (31 - i) = bit_at out i"
      using bit_of_le_rev [of out i, where 'a = 32] out(2) l by (simp add: w_def)
    moreover have "32 - unat len + (unat len - 1 - i) = 31 - i" using i l by simp
    ultimately show "bits_from b (unat off) (unat len) ! i
        = map (\<lambda>i. bit (drop_bit (32 - unat len) w) (unat len - 1 - i)) [0..<unat len] ! i"
      using i out(3) by (simp add: bit_drop_bit_eq)
  qed simp
  then have "field_val b (unat off) (unat len) = take_bit (unat len) (unat (drop_bit (32 - unat len) w))"
    by (simp only: field_val_def bits_nat_word)
  moreover have "unat (drop_bit (32 - unat len) w) < 2 ^ unat len"
  proof -
    have "unat w < 2 ^ (32 - unat len) * 2 ^ unat len"
      using unsigned_less [of w, where 'a = nat] l by (simp add: power_add [symmetric])
    then have "unat w div 2 ^ (32 - unat len) < 2 ^ unat len"
      by (simp add: div_less_iff_less_mult mult.commute)
    then show ?thesis by (simp only: unat_drop_bit_eq drop_bit_eq_div [where 'a = nat])
  qed
  ultimately show ?thesis using run by (simp add: take_bit_nat_eq_self)
qed

lemma span_arith: "q + 1 = c + p \<Longrightarrow> i = 8 * q + r \<Longrightarrow> pos = 8 * p + m \<Longrightarrow> r < m \<Longrightarrow> 0 < c \<Longrightarrow> i - pos < 8 * c"
  for i :: nat by arith

lemma cover_leak_bound:
  assumes "cover_leak pos len i"
  shows "i - pos < 8 * byte_ceil (pos mod 8 + len)"
proof -
  have h: "8 < pos mod 8 + len" "i div 8 = (pos + len - 1) div 8" "i mod 8 < pos mod 8"
    using assms by (auto simp: cover_leak_def)
  have "pos + len - 1 = pos mod 8 + len - 1 + 8 * (pos div 8)" using h(1) by simp
  then have "(pos + len - 1) div 8 = (pos mod 8 + len - 1) div 8 + pos div 8"
    by (simp only: div_mult_self2)
  moreover have "(pos mod 8 + len + 7) div 8 = (pos mod 8 + len - 1) div 8 + 1"
  proof -
    have "pos mod 8 + len + 7 = pos mod 8 + len - 1 + 8 * 1" using h(1) by simp
    then show ?thesis by (simp only: div_mult_self2)
  qed
  ultimately have "i div 8 + 1 = byte_ceil (pos mod 8 + len) + pos div 8" using h(2) by (simp add: byte_ceil_def)
  moreover have "0 < byte_ceil (pos mod 8 + len)" using h(1) by (subst byte_ceil_pos) linarith
  ultimately show ?thesis using span_arith [of "i div 8" _ "pos div 8" i "i mod 8" pos "pos mod 8"] h(3) by simp
qed

text \<open>Writing a value whose bits behind the field are 0 leaves the bits behind the field alone.\<close>

lemma cover_bit_clean:
  assumes "0 < len_b" "8 \<le> unat len_b \<or> unat pos_b mod 8 + unat len_b \<le> 8"
    "unat pos_b + unat len_b \<le> 8 * length data"
    "byte_ceil (unat pos_b mod 8 + unat len_b) \<le> length value"
    and z: "\<And>k. unat len_b \<le> k \<Longrightarrow> k < 8 * length value \<Longrightarrow> \<not> bit_at value k"
  shows "\<exists>res. pofbf_cover_bit data value pos_b len_b = Some res
    \<and> put_bits data (unat pos_b) (bits_from value 0 (unat len_b)) res"
proof -
  obtain res where res: "pofbf_cover_bit data value pos_b len_b = Some res" "length res = length data"
    "\<forall>i < 8 * length res. bit_at res i = cover_bit_at data value (unat pos_b) (unat len_b) i"
    using cover_bit_ok [OF assms(1-4)] by blast
  have "\<not> bit_at value (i - unat pos_b)" if "cover_leak (unat pos_b) (unat len_b) i" for i
  proof (rule z)
    show "unat len_b \<le> i - unat pos_b" using that by (auto simp: cover_leak_def)
    have "i - unat pos_b < 8 * byte_ceil (unat pos_b mod 8 + unat len_b)" by (rule cover_leak_bound [OF that])
    then show "i - unat pos_b < 8 * length value" using assms(4) by simp
  qed
  then show ?thesis using res by (auto simp: put_bits_def cover_bit_at_def)
qed

lemma write_32value_bits:
  assumes "0 < len" "len \<le> 32" "8 \<le> unat len \<or> unat off mod 8 + unat len \<le> 8"
    "unat off mod 8 + unat len \<le> 32" "unat off + unat len \<le> 8 * length b"
  shows "\<exists>b'. write_32value_to_buf value off len b = Some b'
    \<and> put_bits b (unat off) (map (\<lambda>i. bit value (unat len - 1 - i)) [0..<unat len]) b'"
proof -
  have l: "0 < unat len" "unat len \<le> 32" using assms(1,2) by (simp_all add: word_less_nat_alt word_le_nat_alt)
  let ?v = "rev (le_bytes 4 (push_bit (32 - unat len) value))"
  have bit: "bit_at ?v k = (k < unat len \<and> bit value (unat len - 1 - k))" if "k < 32" for k
  proof -
    have "31 - k - (32 - unat len) = unat len - 1 - k" using that l by simp
    then show ?thesis
      using that l by (simp add: bit_at_rev_le_bytes bit_push_bit_iff) auto
  qed
  have "byte_ceil (unat off mod 8 + unat len) \<le> length ?v" using assms(4) by (simp add: byte_ceil_def)
  then obtain b' where b': "pofbf_cover_bit b ?v off len = Some b'" "put_bits b (unat off) (bits_from ?v 0 (unat len)) b'"
    using cover_bit_clean [OF assms(1,3,5), of ?v] bit by auto
  have "bits_from ?v 0 (unat len) = map (\<lambda>i. bit value (unat len - 1 - i)) [0..<unat len]"
    using l by (intro nth_equalityI) (auto simp: bit)
  then show ?thesis using b' assms(1,2) by (simp add: write_32value_to_buf_def le_bytes_NTOHL_word)
qed

section \<open>The buffers of a packet\<close>

text \<open>The packet with another window or other metadata.\<close>

definition with_window :: "bytes \<Rightarrow> pofdp_packet \<Rightarrow> pofdp_packet" where
  "with_window w dpp = dpp\<lparr>pk_buf := take (nat (pk_buf_offset dpp)) (pk_buf dpp) @ w\<rparr>"

definition with_buf :: "u16 \<Rightarrow> bytes \<Rightarrow> pofdp_packet \<Rightarrow> pofdp_packet" where
  "with_buf field_id b dpp = (if field_id = 0xFFFF then dpp\<lparr>pk_metadata := Some b\<rparr> else with_window b dpp)"

definition field_buf :: "u16 \<Rightarrow> pofdp_packet \<Rightarrow> bytes option" where
  "field_buf field_id dpp = (if field_id = 0xFFFF then pk_metadata dpp else pk_window dpp)"

lemma pk_window_bounds: "pk_window dpp = Some w \<Longrightarrow> 0 \<le> pk_buf_offset dpp
    \<and> nat (pk_buf_offset dpp) \<le> length (pk_buf dpp) \<and> w = drop (nat (pk_buf_offset dpp)) (pk_buf dpp)"
  by (auto simp: pk_window_def from_ptr_def split: if_splits)

lemma upd_window_Some:
  assumes "pk_window dpp = Some w" "f w = Some w'"
  shows "upd_window f dpp = Some (with_window w' dpp)"
  using pk_window_bounds [OF assms(1)] assms(2) by (simp add: upd_window_def upd_from_def with_window_def)

lemma window_with_window:
  assumes "pk_window dpp = Some w" "length w' = length w"
  shows "pk_window (with_window w' dpp) = Some w'"
  using pk_window_bounds [OF assms(1)] assms(2) by (auto simp: pk_window_def from_ptr_def with_window_def)

lemma with_window_sel [simp]:
  "pk_left_len (with_window w dpp) = pk_left_len dpp" "pk_offset (with_window w dpp) = pk_offset dpp"
  "pk_buf_offset (with_window w dpp) = pk_buf_offset dpp" "pk_metadata (with_window w dpp) = pk_metadata dpp"
  "pk_metadata_len (with_window w dpp) = pk_metadata_len dpp" "pk_stk (with_window w dpp) = pk_stk dpp"
  by (simp_all add: with_window_def)

lemma with_window_twice: "pk_window dpp = Some w \<Longrightarrow> with_window w2 (with_window w1 dpp) = with_window w2 dpp"
  by (drule pk_window_bounds) (simp add: with_window_def)

lemma field_with_buf:
  assumes "field_buf field_id dpp = Some b" "length b' = length b"
  shows "field_buf field_id (with_buf field_id b' dpp) = Some b'"
  using assms window_with_window by (auto simp: field_buf_def with_buf_def)

text \<open>
  A field that the routines accept: it fits its buffer as they check it, has between 1 and 32
  bits, and the byte behind it still belongs to the buffer (\<open>pofbf_copy_bit\<close> reads it).
\<close>

definition field_ok :: "u16 \<Rightarrow> u16 \<Rightarrow> u16 \<Rightarrow> pofdp_packet \<Rightarrow> bytes \<Rightarrow> bool" where
  "field_ok field_id off len dpp b \<longleftrightarrow> field_buf field_id dpp = Some b \<and> 0 < len \<and> len \<le> 32
     \<and> unat off div 8 + byte_ceil (unat len) < length b
     \<and> (if field_id = 0xFFFF then unat len + unat off \<le> unat (pk_metadata_len dpp) * 8
        else int (unat len + unat off) \<le> sint (pk_left_len dpp) * 8)"

text \<open>A field that can be written: \<open>pofbf_cover_bit\<close> must neither run away nor read behind the value.\<close>

definition field_writable :: "u16 \<Rightarrow> u16 \<Rightarrow> bool" where
  "field_writable off len \<longleftrightarrow> (8 \<le> unat len \<or> unat off mod 8 + unat len \<le> 8) \<and> unat off mod 8 + unat len \<le> 32"

lemma field_in_buffer:
  assumes "unat off div 8 + byte_ceil (unat len) < length b"
  shows "unat off + unat len \<le> 8 * length b"
proof -
  have "unat off = 8 * (unat off div 8) + unat off mod 8" "unat off mod 8 < 8" by simp_all
  moreover have "unat len \<le> 8 * byte_ceil (unat len)" by (rule byte_ceil_bounds)
  ultimately show ?thesis using assms by linarith
qed

lemma get_32value_field:
  assumes "field_ok field_id off len dpp b" "match_at u 0 = Some (field_id, off, len)" "type \<noteq> 0" "length v0 = 4"
  shows "\<exists>v. pofdp_get_32value v0 type u dpp g = Some (POF_OK, v, g) \<and> unat v = field_val b (unat off) (unat len)"
proof -
  have f: "0 < len" "len \<le> 32" "unat off div 8 + byte_ceil (unat len) < length b"
    using assms(1) by (simp_all add: field_ok_def)
  have "pofdp_get_field_buf (field_id, off, len) dpp g = Some (Some b, g)"
    using assms(1) by (auto simp: pofdp_get_field_buf_def field_ok_def field_buf_def not_less)
  then show ?thesis
    using get_32value_bits [OF f assms(4)] f(2) assms(2,3)
    by (auto simp: pofdp_get_32value_def get_32value_from_field_def not_less)
qed

lemma write_32value_field:
  assumes ok: "field_ok field_id off len dpp b" and w: "field_writable off len"
  shows "\<exists>b'. pofdp_write_32value_to_field value (field_id, off, len) dpp g = Some (POF_OK, with_buf field_id b' dpp, g)
    \<and> put_bits b (unat off) (map (\<lambda>i. bit value (unat len - 1 - i)) [0..<unat len]) b'"
proof -
  have f: "0 < len" "len \<le> 32" "unat off + unat len \<le> 8 * length b"
    using ok field_in_buffer by (auto simp: field_ok_def)
  then obtain b' where b': "write_32value_to_buf value off len b = Some b'"
    "put_bits b (unat off) (map (\<lambda>i. bit value (unat len - 1 - i)) [0..<unat len]) b'"
    using write_32value_bits [of len off b "value"] w by (auto simp: field_writable_def)
  have "pofdp_write_32value_to_field value (field_id, off, len) dpp g = Some (POF_OK, with_buf field_id b' dpp, g)"
    using ok b'(1) upd_window_Some [of dpp b]
    by (auto simp: pofdp_write_32value_to_field_def field_ok_def field_buf_def with_buf_def not_less upd_metadata_def)
  then show ?thesis using b'(2) by blast
qed

lemma put_bits_value:
  assumes "put_bits b off (map (\<lambda>i. bit (value :: u32) (n - 1 - i)) [0..<n]) b'" "off + n \<le> 8 * length b"
  shows "field_val b' off n = unat value mod 2 ^ n"
proof -
  have "bits_from b' off n = map (\<lambda>i. bit value (n - 1 - i)) [0..<n]"
    using put_bits_from [OF assms(1)] assms(2) by simp
  then show ?thesis by (simp only: field_val_def bits_nat_word take_bit_eq_mod)
qed

text \<open>Adding modulo \<open>2 ^ 32\<close> and keeping \<open>n\<close> bits is adding modulo \<open>2 ^ n\<close>.\<close>

lemma unat_mod_pow: "n \<le> 32 \<Longrightarrow> unat (a + b :: u32) mod 2 ^ n = (unat a + unat b) mod 2 ^ n"
  using le_imp_power_dvd [of n 32 "2 :: nat"] by (simp add: unat_word_ariths mod_mod_cancel)

section \<open>The actions\<close>

text \<open>
  C22. Modifying a field of the packet or of the metadata adds the increment to its value modulo
  \<open>2 ^ len\<close>, changes no other bit of the buffer and nothing else of the packet, and steps to the
  next action. The field has between 1 and 32 bits within the packet, and together with the bits
  before it in its first byte at most 32; a field shorter than a byte does not cross a byte
  boundary.
\<close>

theorem execute_MODIFY_FIELD_adds:
  assumes "act_p dpp = Some p" "match_at p 0 = Some (field_id, off, len)" "get32 p 8 = Some increment"
    and "field_ok field_id off len dpp b" "field_writable off len" "4 \<le> length (pk_stk dpp)"
  shows "\<exists>b'. execute_MODIFY_FIELD (dpp, lr, g) = Some (POF_OK, action_update (with_buf field_id b' dpp), lr, g)
    \<and> field_buf field_id (with_buf field_id b' dpp) = Some b' \<and> length b' = length b
    \<and> field_val b' (unat off) (unat len) = (field_val b (unat off) (unat len) + unat increment) mod 2 ^ unat len
    \<and> (\<forall>i < 8 * length b. i < unat off \<or> unat off + unat len \<le> i \<longrightarrow> bit_at b' i = bit_at b i)"
proof -
  have "length (take 4 (pk_stk dpp)) = 4" using assms(6) by simp
  then obtain v where v: "pofdp_get_32value (take 4 (pk_stk dpp)) 1 p dpp g = Some (POF_OK, v, g)"
    "unat v = field_val b (unat off) (unat len)"
    using get_32value_field [OF assms(4,2), of 1 "take 4 (pk_stk dpp)" g] by auto
  obtain b' where b': "pofdp_write_32value_to_field (v + increment) (field_id, off, len) dpp g
      = Some (POF_OK, with_buf field_id b' dpp, g)"
    "put_bits b (unat off) (map (\<lambda>i. bit (v + increment) (unat len - 1 - i)) [0..<unat len]) b'"
    using write_32value_field [OF assms(4,5)] by blast
  have f: "field_buf field_id dpp = Some b" "unat len \<le> 32" "unat off + unat len \<le> 8 * length b"
    using assms(4) field_in_buffer by (auto simp: field_ok_def word_le_nat_alt)
  have "execute_MODIFY_FIELD (dpp, lr, g) = Some (POF_OK, action_update (with_buf field_id b' dpp), lr, g)"
    using assms(1-3) v(1) b'(1) by (simp add: execute_MODIFY_FIELD_def with_32value_def)
  moreover have "field_val b' (unat off) (unat len) = (unat v + unat increment) mod 2 ^ unat len"
    using put_bits_value [OF b'(2) f(3)] unat_mod_pow [OF f(2)] by simp
  moreover have "length b' = length b" using b'(2) by (simp add: put_bits_def)
  ultimately show ?thesis using v(2) put_bits_other [OF b'(2)] field_with_buf [OF f(1)] by auto
qed

text \<open>A received frame with its metadata, about to execute the given actions or instructions.\<close>

definition example_frame :: bytes where
  "example_frame = [0x11, 0x22, 0x33, 0x44, 0x55, 0x66, 0x77, 0x88]"

definition example_md :: bytes where
  "example_md = replicate 128 0"

definition example_pad :: bytes where
  "example_pad = replicate 1912 0"

definition example_dpp :: "bytes \<Rightarrow> u8 \<Rightarrow> pofdp_packet" where
  "example_dpp act n = (recv_dpp example_dp (replicate 2048 0) example_port example_frame)\<lparr>pk_metadata := Some example_md,
     pk_metadata_len := 128, pk_act := (act, 0), pk_act_num := n\<rparr>"

lemma example_dpp_sel [simp]:
  "pk_window (example_dpp act n) = Some (example_frame @ example_pad)" "pk_left_len (example_dpp act n) = 8"
  "pk_offset (example_dpp act n) = 0" "pk_buf_offset (example_dpp act n) = 128"
  "pk_metadata (example_dpp act n) = Some example_md" "pk_metadata_len (example_dpp act n) = 128"
  "pk_act (example_dpp act n) = (act, 0)" "pk_act_num (example_dpp act n) = n"
  "pk_stk (example_dpp act n) = replicate 2048 0" "length example_md = 128" "length example_pad = 1912"
  "length example_frame = 8"
  by (simp_all add: example_dpp_def recv_dpp_def zero_dpp_def pk_window_def from_ptr_def example_frame_def
      example_md_def example_pad_def)

lemma act_p_example: "length act = 48 \<Longrightarrow> act_p (example_dpp act n) = Some (drop 4 act)"
  by (simp add: act_p_def cur_act_def mem_read_def)

text \<open>Modify the 16-bit field at bit 8, \<open>0x2233\<close>, by 5.\<close>

definition example_modify :: bytes where
  "example_modify = [3, 0, 16, 0] @ [0, 0, 8, 0, 16, 0, 0, 0, 5, 0, 0, 0] @ replicate 32 0"

lemma execute_MODIFY_FIELD_adds_witness:
  "\<exists>b'. execute_MODIFY_FIELD (example_dpp example_modify 1, example_lr, example_glob)
      = Some (POF_OK, action_update (with_buf 0 b' (example_dpp example_modify 1)), example_lr, example_glob)
    \<and> field_val b' 8 16 = 0x2238"
proof -
  have p: "act_p (example_dpp example_modify 1) = Some (drop 4 example_modify)"
    by (rule act_p_example) (simp add: example_modify_def)
  have m: "match_at (drop 4 example_modify) 0 = Some (0, 8, 16)" "get32 (drop 4 example_modify) 8 = Some 5"
    by (simp_all add: example_modify_def match_at_def get16_def get32_def get_le_def)
  have f: "field_ok 0 8 16 (example_dpp example_modify 1) (example_frame @ example_pad)" "field_writable 8 16"
    by (simp_all add: field_ok_def field_buf_def field_writable_def byte_ceil_def)
  have "field_val (example_frame @ example_pad) 8 16 = 0x2233"
    by (simp add: field_val_def bits_from_def bits_nat_def upt_rec bit_at_def example_frame_def nth_append bit_simps)
  then show ?thesis
    using execute_MODIFY_FIELD_adds [OF p m f, of example_lr example_glob] by auto
qed

lemma bit_at_map2_and:
  "length v = length mk \<Longrightarrow> i < 8 * length v \<Longrightarrow> bit_at (map2 (AND) v mk) i = (bit_at v i \<and> bit_at mk i)"
  by (simp add: bit_at_def bit_and_iff div_less_iff_less_mult mult.commute)

text \<open>
  C23. Setting a field writes the conjunction of value and mask over the whole field: a bit of the
  field that is 0 in the mask becomes 0. No bit outside the field changes, provided the masked
  value is 0 behind the field (up to the end of its 16 bytes).
\<close>

theorem execute_SET_FIELD_masks:
  assumes "act_p dpp = Some p" "length p = 44" "get16 p 2 = Some off" "get16 p 4 = Some len" "pk_window dpp = Some w"
    and "0 < len" "len \<le> 128" "8 \<le> unat len \<or> unat off mod 8 + unat len \<le> 8"
    and "int (unat off + unat len) \<le> sint (pk_left_len dpp) * 8" "sint (pk_left_len dpp) \<le> int (length w)"
    and "\<forall>k. unat len \<le> k \<and> k < 128 \<longrightarrow> \<not> (bit_at (drop 8 p) k \<and> bit_at (drop 24 p) k)"
  shows "\<exists>w'. execute_SET_FIELD (dpp, lr, g) = Some (POF_OK, action_update (with_window w' dpp), lr, g)
    \<and> pk_window (with_window w' dpp) = Some w'
    \<and> put_bits w (unat off) (map (\<lambda>i. bit_at (drop 8 p) i \<and> bit_at (drop 24 p) i) [0..<unat len]) w'"
proof -
  let ?v = "take 16 (drop 8 p)" and ?m = "take 16 (drop 24 p)"
  let ?val = "map2 (AND) ?v ?m @ replicate (2048 - 16) 0"
  have l: "unat len \<le> 128" using assms(7) by (simp add: word_le_nat_alt)
  have bit: "bit_at ?val k = (k < 128 \<and> bit_at (drop 8 p) k \<and> bit_at (drop 24 p) k)" if "k < 8 * length ?val" for k
  proof (cases "k < 128")
    case True
    have "bit_at (take 16 xs) k = bit_at xs k" if "16 \<le> length xs" for xs
      using bit_at_append_left [of k "take 16 xs" "drop 16 xs"] True that by simp
    then show ?thesis
      using True assms(2) bit_at_map2_and [of ?v ?m k] bit_at_append_left [of k "map2 (AND) ?v ?m"] by simp
  next
    case False
    then have "bit_at ?val k = bit_at (replicate (2048 - 16) 0) (k - 128)"
      using assms(2) bit_at_append_right [of "map2 (AND) ?v ?m" k] by simp
    moreover have "(k - 128) div 8 < 2032" using that False assms(2) by (simp add: div_less_iff_less_mult)
    ultimately show ?thesis using False by (simp add: bit_at_def)
  qed
  have "unat off + unat len \<le> 8 * length w" using assms(9,10) by linarith
  moreover have "byte_ceil (unat off mod 8 + unat len) \<le> length ?val"
  proof -
    have "(unat off mod 8 + unat len + 7) div 8 \<le> (7 + 128 + 7) div 8" using l by (intro div_le_mono) simp
    then show ?thesis using assms(2) by (simp add: byte_ceil_def)
  qed
  ultimately obtain w' where w': "pofbf_cover_bit w ?val off len = Some w'"
    "put_bits w (unat off) (bits_from ?val 0 (unat len)) w'"
    using cover_bit_clean [OF assms(6,8), of w ?val] bit assms(11) by blast
  have "bits_from ?val 0 (unat len) = map (\<lambda>i. bit_at (drop 8 p) i \<and> bit_at (drop 24 p) i) [0..<unat len]"
  proof (rule nth_equalityI)
    fix i assume "i < length (bits_from ?val 0 (unat len))"
    then show "bits_from ?val 0 (unat len) ! i
        = map (\<lambda>i. bit_at (drop 8 p) i \<and> bit_at (drop 24 p) i) [0..<unat len] ! i"
      using bit [of i] l assms(2) by simp
  qed simp
  moreover have "execute_SET_FIELD (dpp, lr, g) = Some (POF_OK, action_update (with_window w' dpp), lr, g)"
    using assms(1-4,9) upd_window_Some [OF assms(5), of "\<lambda>b. pofbf_cover_bit b ?val off len", OF w'(1)]
    by (simp add: execute_SET_FIELD_def mem_read_def not_less)
  moreover have "length w' = length w" using w'(2) by (simp add: put_bits_def)
  ultimately show ?thesis using w'(2) window_with_window [OF assms(5)] by auto
qed

text \<open>Set the byte at bit 8 to \<open>0xff\<close> under the mask \<open>0x0f\<close>.\<close>

definition example_set :: bytes where
  "example_set = [1, 0, 44, 0] @ [0, 0, 8, 0, 8, 0, 0, 0] @ (0xff # replicate 15 0) @ (0x0f # replicate 15 0) @ replicate 4 0"

lemma execute_SET_FIELD_masks_witness:
  "\<exists>w'. execute_SET_FIELD (example_dpp example_set 1, example_lr, example_glob)
      = Some (POF_OK, action_update (with_window w' (example_dpp example_set 1)), example_lr, example_glob)
    \<and> bits_from w' 8 8 = [False, False, False, False, True, True, True, True]"
proof -
  let ?p = "drop 4 example_set"
  have p: "act_p (example_dpp example_set 1) = Some ?p" "length ?p = 44" "get16 ?p 2 = Some 8" "get16 ?p 4 = Some 8"
    by (rule act_p_example) (simp_all add: example_set_def get16_def get_le_def)
  have z: "\<forall>k. unat (8 :: u16) \<le> k \<and> k < 128 \<longrightarrow> \<not> (bit_at (drop 8 ?p) k \<and> bit_at (drop 24 ?p) k)"
  proof (intro allI impI)
    fix k :: nat assume "unat (8 :: u16) \<le> k \<and> k < 128"
    then have "1 \<le> k div 8" "k div 8 < 16" using div_le_mono [of 8 k 8] by (simp_all add: div_less_iff_less_mult)
    then show "\<not> (bit_at (drop 8 ?p) k \<and> bit_at (drop 24 ?p) k)"
      by (simp add: example_set_def bit_at_def nth_Cons' nth_append)
  qed
  obtain w' where w': "execute_SET_FIELD (example_dpp example_set 1, example_lr, example_glob)
      = Some (POF_OK, action_update (with_window w' (example_dpp example_set 1)), example_lr, example_glob)"
    "put_bits (example_frame @ example_pad) 8 (map (\<lambda>i. bit_at (drop 8 ?p) i \<and> bit_at (drop 24 ?p) i) [0..<8]) w'"
    using execute_SET_FIELD_masks [OF p example_dpp_sel(1) _ _ _ _ _ z, of example_lr example_glob] by auto
  have "map (\<lambda>i. bit_at (drop 8 ?p) i \<and> bit_at (drop 24 ?p) i) [0..<8]
      = [False, False, False, False, True, True, True, True]"
    by (simp add: example_set_def bit_at_def upt_rec bit_simps)
  moreover have "bits_from w' 8 8 = map (\<lambda>i. bit_at (drop 8 ?p) i \<and> bit_at (drop 24 ?p) i) [0..<8]"
    using put_bits_from [OF w'(2)] by simp
  ultimately show ?thesis using w'(1) by (intro exI [of _ w']) simp
qed

end
