(* ===== verification/Pof_Tag.thy ===== *)
theory Pof_Tag
  imports Pof_Field
begin

text \<open>
  Adding a field to the packet and deleting one. The packet is seen as the list of its bits from
  the window on; a field whose length is a number of whole bytes is inserted at, or removed from,
  any bit position.
\<close>

definition pkt_bits :: "pofdp_packet \<Rightarrow> bool list" where
  "pkt_bits dpp = (case pk_window dpp of None \<Rightarrow> [] | Some w \<Rightarrow> bits_from w 0 (8 * unat (pk_left_len dpp)))"

lemma pkt_bits_window: "pk_window dpp = Some w \<Longrightarrow> pkt_bits dpp = bits_from w 0 (8 * unat (pk_left_len dpp))"
  by (simp add: pkt_bits_def)

text \<open>A packet of \<open>n\<close> bytes with room for \<open>k\<close> more and one byte behind it in the buffer.\<close>

definition pkt_room :: "pofdp_packet \<Rightarrow> bytes \<Rightarrow> nat \<Rightarrow> nat \<Rightarrow> bool" where
  "pkt_room dpp w n k \<longleftrightarrow> pk_window dpp = Some w \<and> unat (pk_left_len dpp) = n \<and> n + k < length w
     \<and> length w \<le> 2048"

section \<open>Moving the rest of the packet\<close>

lemma ceil_rest: "p < 8 * n \<Longrightarrow> p div 8 + byte_ceil (8 * n - p) = n"
proof -
  assume "p < 8 * n"
  define q r where "q = p div 8" and "r = p mod 8"
  then have pq: "p = 8 * q + r" "r < 8" by simp_all
  then have q: "q < n" using \<open>p < 8 * n\<close> by simp
  then obtain m where m: "n = q + Suc m" using less_imp_Suc_add by auto
  have "8 * n - p + 7 = (7 - r) + 8 * (m + 1)" using m pq by simp
  then have "(8 * n - p + 7) div 8 = (7 - r) div 8 + (m + 1)" by (simp only: div_mult_self2)
  also have "(7 - r) div 8 = 0" by simp
  finally show "p div 8 + byte_ceil (8 * n - p) = n" using m q_def by (simp add: byte_ceil_def)
qed

lemma mod_rest: "p < 8 * n \<Longrightarrow> 8 * n - p < 8 \<Longrightarrow> p mod 8 + (8 * n - p) \<le> (8 :: nat)"
proof -
  assume h: "p < 8 * n" "8 * n - p < 8"
  define q r where "q = p div 8" and "r = p mod 8"
  then have "p = 8 * q + r" "r < 8" "p mod 8 = r" by simp_all
  moreover have "n = q + 1" using h calculation by arith
  ultimately show "p mod 8 + (8 * n - p) \<le> 8" by simp
qed

text \<open>Copying the bits from \<open>p\<close> up to the end of a packet of \<open>n\<close> bytes.\<close>

lemma copy_rest:
  assumes "unat off < 8 * n" "unat len = 8 * n - unat off" "n < length w" "n \<le> length tmp"
  shows "\<exists>out. pofbf_copy_bit (Some w) (Some tmp) off len = Some (Some out) \<and> length out = length tmp
    \<and> (\<forall>i < 8 * length out. bit_at out i = (if i < unat len then bit_at w (unat off + i)
          else 8 * byte_ceil (unat len) \<le> i \<and> bit_at tmp i))"
proof (rule copy_bit_ok)
  have "0 < unat len" using assms by simp
  then show "0 < len" using word_less_nat_alt by fastforce
  show "unat off div 8 + byte_ceil (unat len) < length w" "byte_ceil (unat len) \<le> length tmp"
    using ceil_rest [OF assms(1)] assms by simp_all
qed

text \<open>Writing bits that end at the end of the byte \<open>n - 1\<close>.\<close>

lemma cover_to_end:
  assumes "unat pos < 8 * n" "unat len = 8 * n - unat pos" "n \<le> length w" "n + 1 \<le> length v"
  shows "\<exists>w'. pofbf_cover_bit w v pos len = Some w' \<and> put_bits w (unat pos) (bits_from v 0 (unat len)) w'"
proof -
  have l: "0 < len" using assms(1,2) by (simp add: word_less_nat_alt)
  have e: "unat pos + unat len = 8 * n" using assms(1,2) by simp
  have "byte_ceil (unat pos mod 8 + unat len) \<le> n + 1"
    using byte_ceil_bounds(2) [of "unat pos mod 8 + unat len"] e by (simp add: byte_ceil_def)
  moreover have "8 \<le> unat len \<or> unat pos mod 8 + unat len \<le> 8"
    using mod_rest [OF assms(1)] assms(2) by simp linarith
  ultimately obtain w' where w': "pofbf_cover_bit w v pos len = Some w'" "length w' = length w"
    "\<forall>i < 8 * length w'. bit_at w' i = cover_bit_at w v (unat pos) (unat len) i"
    using cover_bit_ok [OF l, of pos w v] e assms(3,4) by auto
  have "\<not> cover_leak (unat pos) (unat len) i" for i
  proof
    assume "cover_leak (unat pos) (unat len) i"
    then have "8 * n \<le> i" "i div 8 = (8 * n - 1) div 8" using e by (auto simp: cover_leak_def)
    moreover have "(8 * n - 1) div 8 < n" using assms(1) by (simp add: div_less_iff_less_mult)
    ultimately show False using div_le_mono [of "8 * n" i 8] by simp
  qed
  then show ?thesis using w' by (auto simp: put_bits_def cover_bit_at_def)
qed

section \<open>The length in the metadata\<close>

lemma NTOHS_of_le: "length v = 2 \<Longrightarrow> POF_NTOHS (of_le v) = of_le (rev v)"
  using le_bytes_NTOHS [of v] of_le_le_bytes [of 2 "POF_NTOHS (of_le v)"] by simp

lemma NTOHS_NTOHS [simp]: "POF_NTOHS (POF_NTOHS x) = x"
proof -
  have "POF_NTOHS x = of_le (rev (le_bytes 2 x))"
    using NTOHS_of_le [of "le_bytes 2 x"] of_le_le_bytes [of 2 x] by simp
  then show ?thesis using NTOHS_of_le [of "rev (le_bytes 2 x)"] of_le_le_bytes [of 2 x] by simp
qed

definition rel_md :: "u16 \<Rightarrow> bytes \<Rightarrow> bytes" where
  "rel_md n md = le_bytes 2 (POF_NTOHS n) @ drop 2 md"

lemma rel_len_get: "pk_metadata dpp = Some (rel_md n md) \<Longrightarrow> POF_PACKET_REL_LEN_GET dpp = Some n"
  using of_le_le_bytes [of 2 "POF_NTOHS n"] by (simp add: POF_PACKET_REL_LEN_GET_def rel_md_def get16_def get_le_def)

lemma rel_md_twice [simp]: "rel_md a (rel_md b md) = rel_md a md"
  by (simp add: rel_md_def)

lemma length_rel_md [simp]: "2 \<le> length md \<Longrightarrow> length (rel_md n md) = length md"
  by (simp add: rel_md_def)

lemma rel_md_exists:
  assumes "2 \<le> length md"
  shows "\<exists>n. md = rel_md n md"
proof -
  have "le_bytes 2 (of_le (take 2 md) :: u16) = take 2 md"
    using le_bytes_of_le [of "take 2 md", where 'a = 16] assms by (simp add: min_def)
  then have "md = rel_md (POF_NTOHS (of_le (take 2 md))) md" by (simp add: rel_md_def)
  then show ?thesis by blast
qed

lemma rel_len_change:
  assumes "pk_metadata dpp = Some (rel_md n md)" "2 \<le> length md"
  shows "POF_PACKET_REL_LEN_INC x dpp = Some (dpp\<lparr>pk_metadata := Some (rel_md (n + x) md)\<rparr>)"
    and "POF_PACKET_REL_LEN_DEC x dpp = Some (dpp\<lparr>pk_metadata := Some (rel_md (n - x) md)\<rparr>)"
  using assms rel_len_get [OF assms(1)]
  by (simp_all add: POF_PACKET_REL_LEN_INC_def POF_PACKET_REL_LEN_DEC_def POF_PACKET_REL_LEN_SET_def
      upd_metadata_def put16_def put_le_def rel_md_def)

section \<open>Inserting\<close>

lemma unat_rest:
  assumes "unat (left :: u32) = n" "n < 2048" "unat (p :: u32) \<le> 8 * n"
  shows "unat (ucast (left * 8 - p) :: u16) = 8 * n - unat p"
proof -
  have "unat (left * 8) = 8 * n" using assms(1,2) by (simp add: unat_word_ariths)
  then have "unat (left * 8 - p) = 8 * n - unat p" using assms(3) by (simp add: unat_sub word_le_nat_alt)
  moreover have "8 * n - unat p < 65536" using assms(2) by simp
  ultimately show ?thesis by (simp add: unsigned_ucast_eq take_bit_nat_eq_self_iff)
qed

lemma unat_sum16:
  assumes "unat (p :: u32) + unat t < 65536"
  shows "unat (ucast (p + t) :: u16) = unat p + unat t"
  using assms by (simp add: unsigned_ucast_eq take_bit_nat_eq_self_iff unat_word_ariths)

lemma ceil32_bytes: "unat t = 8 * k \<Longrightarrow> k \<le> 2048 \<Longrightarrow> bytenum_ceil32 t = of_nat k"
proof -
  assume t: "unat t = 8 * k" "k \<le> 2048"
  have "unat (bytenum_ceil32 t) = (8 * k + 7) div 8"
    using t by (simp add: bytenum_ceil32_def unat_div unat_word_ariths)
  then have "unat (bytenum_ceil32 t) = unat (of_nat k :: u32)" using t(2) by (simp add: unat_of_nat)
  then show "bytenum_ceil32 t = of_nat k" by (simp only: unsigned_word_eqI)
qed

lemma sint_small16: "unat (x :: u16) < 32768 \<Longrightarrow> sint x = int (unat x)"
proof -
  assume "unat x < 32768"
  then have "int (unat x) < 32768" "0 \<le> int (unat x)" by linarith+
  then have "signed_take_bit 15 (int (unat x)) = int (unat x)"
    by (simp only: signed_take_bit_int_eq_self_iff) (simp del: of_nat_unat)
  then show "sint x = int (unat x)" by (simp add: sint_uint)
qed

lemma sint_small32: "unat (x :: u32) < 2147483648 \<Longrightarrow> sint x = int (unat x)"
proof -
  assume "unat x < 2147483648"
  then have "int (unat x) < 2147483648" "0 \<le> int (unat x)" by linarith+
  then have "signed_take_bit 31 (int (unat x)) = int (unat x)"
    by (simp only: signed_take_bit_int_eq_self_iff) (simp del: of_nat_unat)
  then show "sint x = int (unat x)" by (simp add: sint_uint)
qed

lemma unat_ucast16: "unat (x :: u32) < 65536 \<Longrightarrow> unat (ucast x :: u16) = unat x"
  by (simp add: unsigned_ucast_eq take_bit_nat_eq_self_iff)

text \<open>Three pieces of bits, one behind the other.\<close>

lemma bits_insert:
  assumes "p \<le> m" "m + t \<le> 8 * length w'"
    and "\<And>i. i < p \<Longrightarrow> bit_at w' i = bit_at w i"
    and "\<And>i. p \<le> i \<Longrightarrow> i < p + t \<Longrightarrow> bit_at w' i = bit_at v (i - p)"
    and "\<And>i. p + t \<le> i \<Longrightarrow> i < m + t \<Longrightarrow> bit_at w' i = bit_at w (i - t)"
  shows "bits_from w' 0 (m + t) = take p (bits_from w 0 m) @ bits_from v 0 t @ drop p (bits_from w 0 m)"
  using assms(1)
  by (intro nth_equalityI) (auto simp: nth_append assms(3-5))

lemma insertTag_bits:
  assumes room: "pkt_room dpp w n k" and k: "0 < k" "k \<le> 16" "unat t = 8 * k" and p: "unat p < 8 * n"
    and chk: "scast (pk_offset dpp) + pk_left_len dpp + of_nat k \<le> (2048 :: u32)"
    and md: "pk_metadata dpp = Some (rel_md len md)" "2 \<le> length md"
    and stk: "2048 \<le> length (pk_stk dpp)" and v: "k < length value"
  shows "\<exists>w'. insertTagToPacket p t value dpp g = Some (POF_OK, (with_window w' dpp)
        \<lparr>pk_left_len := pk_left_len dpp + of_nat k, pk_metadata := Some (rel_md (len + of_nat k) md)\<rparr>, g)
    \<and> length w' = length w
    \<and> bits_from w' 0 (8 * (n + k)) = take (unat p) (bits_from w 0 (8 * n)) @ bits_from value 0 (8 * k)
        @ drop (unat p) (bits_from w 0 (8 * n))"
proof -
  have w: "pk_window dpp = Some w" "unat (pk_left_len dpp) = n" "n + k < length w" "length w \<le> 2048"
    using room by (auto simp: pkt_room_def)
  define pos len_b tl where "pos = (ucast p :: u16)" and "len_b = (ucast (pk_left_len dpp * 8 - p) :: u16)"
    and "tl = (ucast t :: u16)"
  have n: "n < 2048" using w(3,4) by simp
  have u: "unat pos = unat p" "unat len_b = 8 * n - unat p" "unat tl = 8 * k"
    using unat_ucast16 [of p] unat_rest [OF w(2) n, of p] unat_ucast16 [of t] p n k by (auto simp: pos_def len_b_def tl_def)
  let ?tmp = "take 2048 (pk_stk dpp)"
  obtain out where out: "pofbf_copy_bit (Some w) (Some ?tmp) pos len_b = Some (Some out)" "length out = 2048"
    "\<And>i. i < unat len_b \<Longrightarrow> bit_at out i = bit_at w (unat p + i)"
    using copy_rest [of pos n len_b w ?tmp] u p w(3) n stk by (auto 4 3)
  have "byte_ceil (unat pos mod 8 + unat tl) \<le> length value"
    using byte_ceil_bounds(2) [of "unat pos mod 8 + unat tl"] u(3) v by (simp add: byte_ceil_def)
  moreover have "0 < tl" "8 \<le> unat tl" using u(3) k(1) by (simp_all add: word_less_nat_alt)
  moreover have "unat pos + unat tl \<le> 8 * length w" using u p w(3) by simp
  ultimately obtain w1 where w1: "pofbf_cover_bit w value pos tl = Some w1" "length w1 = length w"
    "\<forall>i < 8 * length w1. bit_at w1 i = cover_bit_at w value (unat pos) (unat tl) i"
    using cover_bit_ok [of tl pos w "value"] by blast
  define pos2 where "pos2 = (ucast (p + t) :: u16)"
  have u2: "unat pos2 = unat p + 8 * k" using unat_sum16 [of p t] p n k by (simp add: pos2_def)
  obtain w2 where w2: "pofbf_cover_bit w1 out pos2 len_b = Some w2"
    "put_bits w1 (unat pos2) (bits_from out 0 (unat len_b)) w2"
    using cover_to_end [of pos2 "n + k" len_b w1 out] u u2 p w(3) w1(2) out(2) w(4) by auto
  have l2: "length w2 = length w" using w2(2) w1(2) by (simp add: put_bits_def)
  have bit2: "bit_at w2 i = (if unat p + 8 * k \<le> i \<and> i < 8 * n + 8 * k then bit_at w (i - 8 * k)
      else cover_bit_at w value (unat p) (8 * k) i)" if "i < 8 * (n + k)" for i
    using w2(2) w1(2,3) that u u2 p w(3) out(3) by (auto simp: put_bits_def)
  have "bits_from w2 0 (8 * n + 8 * k) = take (unat p) (bits_from w 0 (8 * n)) @ bits_from value 0 (8 * k)
        @ drop (unat p) (bits_from w 0 (8 * n))"
    using p l2 w(3) by (intro bits_insert) (auto simp: bit2 cover_bit_at_def cover_leak_def)
  moreover have "insertTagToPacket p t value dpp g = Some (POF_OK, (with_window w2 dpp)
        \<lparr>pk_left_len := pk_left_len dpp + of_nat k, pk_metadata := Some (rel_md (len + of_nat k) md)\<rparr>, g)"
  proof -
    let ?d1 = "with_window w1 dpp"
    have d1: "upd_window (\<lambda>b. pofbf_cover_bit b value pos tl) dpp = Some ?d1"
      using upd_window_Some [OF w(1), of "\<lambda>b. pofbf_cover_bit b value pos tl"] w1(1) by simp
    have d2: "upd_window (\<lambda>b. pofbf_cover_bit b out pos2 len_b) ?d1 = Some (with_window w2 dpp)"
      using upd_window_Some [OF window_with_window [OF w(1) w1(2)], of "\<lambda>b. pofbf_cover_bit b out pos2 len_b", OF w2(1)]
        with_window_twice [OF w(1)] by simp
    have c: "bytenum_ceil32 t = of_nat k" using ceil32_bytes [OF k(3)] k(2) by simp
    have k16: "ucast (of_nat k :: u32) = (of_nat k :: u16)"
      using k(2) by (simp add: word_unat_eq_iff unat_ucast16 unat_of_nat)
    show ?thesis
      using not_less [THEN iffD2, OF chk] out(1) d1 d2 w(1) md rel_len_change(1) [of "(with_window w2 dpp)\<lparr>pk_left_len := pk_left_len dpp + of_nat k\<rparr>" len md "of_nat k"]
      by (simp add: insertTagToPacket_def c Let_def pos_def tl_def len_b_def pos2_def k16)
  qed
  ultimately show ?thesis using l2 by (intro exI [of _ w2]) (simp add: algebra_simps)
qed

section \<open>Deleting\<close>

lemma bits_delete:
  assumes "p + t \<le> m" "\<And>i. i < p \<Longrightarrow> bit_at w' i = bit_at w i"
    and "\<And>i. p \<le> i \<Longrightarrow> i < m - t \<Longrightarrow> bit_at w' i = bit_at w (i + t)"
  shows "bits_from w' 0 (m - t) = take p (bits_from w 0 m) @ drop (p + t) (bits_from w 0 m)"
  using assms(1) by (intro nth_equalityI) (auto simp: nth_append assms(2,3) add.commute)

text \<open>The packet after its window, its length and the length in the metadata have changed.\<close>

definition resized :: "bytes \<Rightarrow> u32 \<Rightarrow> bytes \<Rightarrow> pofdp_packet \<Rightarrow> pofdp_packet" where
  "resized w left md dpp = (with_window w dpp)\<lparr>pk_left_len := left, pk_metadata := Some md\<rparr>"

lemma delete_field_ok:
  assumes room: "pkt_room dpp w n 0" and k: "k < 256" "unat t = 8 * k" and p: "unat p + 8 * k < 8 * n"
    and md: "pk_metadata dpp = Some (rel_md len md)" "2 \<le> length md"
    and a: "act_p dpp = Some a" "get16 a 0 = Some p" "rd a 2 = Some ty"
      "pofdp_get_32value (take 4 (pk_stk dpp)) ty (drop 8 a) dpp g = Some (POF_OK, t, g)"
  shows "\<exists>w'. execute_DELETE_FIELD (dpp, lr, g) = Some (POF_OK, action_update
        (resized w' (pk_left_len dpp - of_nat k) (rel_md (len - of_nat k) md) dpp), lr, g)
    \<and> length w' = length w
    \<and> bits_from w' 0 (8 * n - 8 * k) = take (unat p) (bits_from w 0 (8 * n)) @ drop (unat p + 8 * k) (bits_from w 0 (8 * n))"
proof -
  have w: "pk_window dpp = Some w" "unat (pk_left_len dpp) = n" "n < length w" "length w \<le> 2048"
    using room by (auto simp: pkt_room_def)
  have n: "n < 2048" using w(3,4) by simp
  define src where "src = (ucast (ucast p + t :: u32) :: u16)"
  define len_b where "len_b = (ucast (pk_left_len dpp * 8 - (ucast p + t)) :: u16)"
  have pt: "unat (ucast p + t :: u32) = unat p + 8 * k" using p n k by (simp add: unat_word_ariths)
  have u: "unat src = unat p + 8 * k" "unat len_b = 8 * n - (unat p + 8 * k)"
    using unat_ucast16 [of "ucast p + t"] unat_rest [OF w(2) n, of "ucast p + t"] pt p n by (auto simp: src_def len_b_def)
  have pos: "\<not> sint len_b < 0" using sint_small16 [of len_b] u(2) n by simp
  obtain out where out: "pofbf_copy_bit (Some w) (Some (replicate 2048 0)) src len_b = Some (Some out)" "length out = 2048"
    "\<And>i. i < unat len_b \<Longrightarrow> bit_at out i = bit_at w (unat p + 8 * k + i)"
    using copy_rest [of src n len_b w "replicate 2048 0"] u p w(3) n by (auto 4 3)
  obtain w1 where w1: "pofbf_cover_bit w out p len_b = Some w1" "put_bits w (unat p) (bits_from out 0 (unat len_b)) w1"
    using cover_to_end [of p "n - k" len_b w out] u(2) p w(3) out(2) n diff_le_self [of n k]
    by (auto simp: diff_mult_distrib2 add.commute [of "unat p"] less_diff_conv)
  have l1: "length w1 = length w" using w1(2) by (simp add: put_bits_def)
  have "bits_from w1 0 (8 * n - 8 * k) = take (unat p) (bits_from w 0 (8 * n)) @ drop (unat p + 8 * k) (bits_from w 0 (8 * n))"
    using w1(2) p u out(3) w(3) by (intro bits_delete) (auto simp: put_bits_def algebra_simps)
  moreover have "execute_DELETE_FIELD (dpp, lr, g) = Some (POF_OK, action_update
        (resized w1 (pk_left_len dpp - of_nat k) (rel_md (len - of_nat k) md) dpp), lr, g)"
  proof -
    have d1: "upd_window (\<lambda>b. pofbf_cover_bit b out p len_b) dpp = Some (with_window w1 dpp)"
      using upd_window_Some [OF w(1), of "\<lambda>b. pofbf_cover_bit b out p len_b"] w1(1) by simp
    have left: "bytenum_ceil32 (pk_left_len dpp * 8 - t) = pk_left_len dpp - of_nat k"
    proof -
      have kn: "k \<le> n" using p by simp
      have "unat (pk_left_len dpp * 8) = 8 * n" using w(2) n by (simp add: unat_word_ariths)
      then have "unat (pk_left_len dpp * 8 - t) = 8 * (n - k)"
        using k p by (simp add: unat_sub word_le_nat_alt diff_mult_distrib2)
      then have "bytenum_ceil32 (pk_left_len dpp * 8 - t) = of_nat (n - k)" using n by (intro ceil32_bytes) auto
      also have "\<dots> = pk_left_len dpp - of_nat k" using w(2) [symmetric] kn by (simp add: of_nat_diff)
      finally show ?thesis .
    qed
    have k8: "ucast (ucast (t div 8) :: u8) = (of_nat k :: u16)"
    proof -
      have "unat (t div 8) = k" using k by (simp add: unat_div)
      then have "unat (ucast (t div 8) :: u8) = k" using k(1) by (simp add: unsigned_ucast_eq take_bit_nat_eq_self_iff)
      then have "unat (ucast (ucast (t div 8) :: u8) :: u16) = k" by (simp only: unat_ucast_u8_u16)
      then show ?thesis using k(1) by (simp only: word_unat_eq_iff) (simp add: unat_of_nat)
    qed
    show ?thesis
      using a out(1) d1 w(1) md pos rel_len_change(2) [of "(with_window w1 dpp)\<lparr>pk_left_len := pk_left_len dpp - of_nat k\<rparr>" len md "of_nat k"]
      by (simp add: execute_DELETE_FIELD_def with_32value_def Let_def src_def [symmetric] len_b_def [symmetric] left k(2) k8 resized_def)
  qed
  ultimately show ?thesis using l1 by blast
qed

section \<open>The actions\<close>

lemma resized_sel [simp]:
  "pk_left_len (resized w l md dpp) = l" "pk_metadata (resized w l md dpp) = Some md"
  "pk_offset (resized w l md dpp) = pk_offset dpp" "pk_stk (resized w l md dpp) = pk_stk dpp"
  by (simp_all add: resized_def)

lemma window_resized: "pk_window dpp = Some w \<Longrightarrow> length w' = length w \<Longrightarrow> pk_window (resized w' l md dpp) = Some w'"
  using window_with_window [of dpp w w'] by (simp add: resized_def pk_window_def)

lemma resized_twice: "pk_window dpp = Some w \<Longrightarrow> resized w2 l2 m2 (resized w1 l1 m1 dpp) = resized w2 l2 m2 dpp"
  using with_window_twice [of dpp w] by (simp add: resized_def with_window_def)

lemma action_update_sel [simp]:
  "pk_window (action_update dpp) = pk_window dpp" "pk_left_len (action_update dpp) = pk_left_len dpp"
  "pk_metadata (action_update dpp) = pk_metadata dpp" "pk_stk (action_update dpp) = pk_stk dpp"
  "pk_offset (action_update dpp) = pk_offset dpp" "pkt_bits (action_update dpp) = pkt_bits dpp"
  by (simp_all add: action_update_def Let_def pk_window_def pkt_bits_def split: option.split)

lemma act_p_resized: "act_p (action_update (resized w l md dpp)) = act_p (action_update dpp)"
  by (simp add: act_p_def cur_act_def action_update_def resized_def with_window_def Let_def)

lemma add_field_ok:
  assumes "pkt_room dpp w n k" "0 < k" "k \<le> 16" "unat pos < 8 * n"
    and "scast (pk_offset dpp) + pk_left_len dpp + of_nat k \<le> (2048 :: u32)"
    and "pk_metadata dpp = Some (rel_md len md)" "2 \<le> length md" "2048 \<le> length (pk_stk dpp)"
    and a: "act_p dpp = Some a" "length a = 44" "get16 a 2 = Some pos" "get32 a 4 = Some t" "unat t = 8 * k"
  shows "\<exists>w'. execute_ADD_FIELD (dpp, lr, g) = Some (POF_OK, action_update
        (resized w' (pk_left_len dpp + of_nat k) (rel_md (len + of_nat k) md) dpp), lr, g)
    \<and> length w' = length w
    \<and> bits_from w' 0 (8 * (n + k)) = take (unat pos) (bits_from w 0 (8 * n)) @ bits_from (drop 8 a) 0 (8 * k)
        @ drop (unat pos) (bits_from w 0 (8 * n))"
proof -
  have "\<not> 128 < t" using a(5) assms(3) by (simp add: word_less_nat_alt)
  then show ?thesis
    using insertTag_bits [OF assms(1-3) a(5), of "ucast pos" len md "drop 8 a" g] assms(3-8) a
    by (auto simp: execute_ADD_FIELD_def resized_def)
qed

text \<open>
  C6. Adding a field of \<open>k\<close> bytes at any bit position inside the packet inserts the bits of the tag
  there: what was behind the position moves back by \<open>8 * k\<close> bits, the packet and the length kept in
  the metadata grow by \<open>k\<close> bytes. The tag has at most 16 bytes and the buffer has room for it.
\<close>

theorem execute_ADD_FIELD_inserts:
  assumes "pkt_room dpp w n k" "0 < k" "k \<le> 16" "unat pos < 8 * n"
    and "scast (pk_offset dpp) + pk_left_len dpp + of_nat k \<le> (2048 :: u32)"
    and "pk_metadata dpp = Some (rel_md len md)" "2 \<le> length md" "2048 \<le> length (pk_stk dpp)"
    and "act_p dpp = Some a" "length a = 44" "get16 a 2 = Some pos" "get32 a 4 = Some t" "unat t = 8 * k"
  shows "\<exists>dpp'. execute_ADD_FIELD (dpp, lr, g) = Some (POF_OK, dpp', lr, g)
    \<and> pkt_bits dpp' = take (unat pos) (pkt_bits dpp) @ bits_from (drop 8 a) 0 (8 * k) @ drop (unat pos) (pkt_bits dpp)
    \<and> pk_left_len dpp' = pk_left_len dpp + of_nat k \<and> POF_PACKET_REL_LEN_GET dpp' = Some (len + of_nat k)"
proof -
  have w: "pk_window dpp = Some w" "unat (pk_left_len dpp) = n" "n + k < 2048" using assms(1) by (auto simp: pkt_room_def)
  obtain w' where w': "execute_ADD_FIELD (dpp, lr, g) = Some (POF_OK, action_update
        (resized w' (pk_left_len dpp + of_nat k) (rel_md (len + of_nat k) md) dpp), lr, g)" "length w' = length w"
    "bits_from w' 0 (8 * (n + k)) = take (unat pos) (bits_from w 0 (8 * n)) @ bits_from (drop 8 a) 0 (8 * k)
        @ drop (unat pos) (bits_from w 0 (8 * n))"
    using add_field_ok [OF assms] by blast
  have "unat (pk_left_len dpp + of_nat k) = n + k" using w(2,3) by (simp add: unat_word_ariths unat_of_nat)
  then show ?thesis
    using w' w(1,2) window_resized [OF w(1) w'(2)] rel_len_get [of "action_update (resized w' _ _ dpp)"]
    by (simp add: pkt_bits_window)
qed

text \<open>
  Deleting a field of \<open>k\<close> bytes at any bit position, with at least one bit behind it, removes its
  bits from the packet: what was behind it moves up, and the packet and the length kept in the
  metadata shrink by \<open>k\<close> bytes.
\<close>

theorem execute_DELETE_FIELD_removes:
  assumes "pkt_room dpp w n 0" "k < 256" "unat t = 8 * k" "unat pos + 8 * k < 8 * n"
    and "pk_metadata dpp = Some (rel_md len md)" "2 \<le> length md"
    and "act_p dpp = Some a" "get16 a 0 = Some pos" "rd a 2 = Some ty"
      "pofdp_get_32value (take 4 (pk_stk dpp)) ty (drop 8 a) dpp g = Some (POF_OK, t, g)"
  shows "\<exists>dpp'. execute_DELETE_FIELD (dpp, lr, g) = Some (POF_OK, dpp', lr, g)
    \<and> pkt_bits dpp' = take (unat pos) (pkt_bits dpp) @ drop (unat pos + 8 * k) (pkt_bits dpp)
    \<and> pk_left_len dpp' = pk_left_len dpp - of_nat k \<and> POF_PACKET_REL_LEN_GET dpp' = Some (len - of_nat k)"
proof -
  have w: "pk_window dpp = Some w" "unat (pk_left_len dpp) = n" "n < 2048" using assms(1) by (auto simp: pkt_room_def)
  obtain w' where w': "execute_DELETE_FIELD (dpp, lr, g) = Some (POF_OK, action_update
        (resized w' (pk_left_len dpp - of_nat k) (rel_md (len - of_nat k) md) dpp), lr, g)" "length w' = length w"
    "bits_from w' 0 (8 * n - 8 * k) = take (unat pos) (bits_from w 0 (8 * n)) @ drop (unat pos + 8 * k) (bits_from w 0 (8 * n))"
    using delete_field_ok [OF assms] by blast
  have "unat (pk_left_len dpp - of_nat k) = n - k"
    using w(2,3) assms(4) by (simp add: unat_sub word_le_nat_alt unat_of_nat)
  then show ?thesis
    using w' w(1,2) window_resized [OF w(1) w'(2)] rel_len_get [of "action_update (resized w' _ _ dpp)"]
    by (simp add: pkt_bits_window diff_mult_distrib2)
qed

text \<open>
  C24. Round trip: deleting the field that was just added, at the same position and of the same
  length, gives the packet, its length and its metadata back.
\<close>

theorem add_delete_field_roundtrip:
  assumes "pkt_room dpp w n k" "0 < k" "k \<le> 16" "unat pos < 8 * n"
    and "scast (pk_offset dpp) + pk_left_len dpp + of_nat k \<le> (2048 :: u32)"
    and "pk_metadata dpp = Some (rel_md len md)" "2 \<le> length md" "2048 \<le> length (pk_stk dpp)"
    and "act_p dpp = Some a" "length a = 44" "get16 a 2 = Some pos" "get32 a 4 = Some t" "unat t = 8 * k"
    and "act_p (action_update dpp) = Some d" "get16 d 0 = Some pos" "rd d 2 = Some 0" "get32 (drop 8 d) 0 = Some t"
  shows "\<exists>dpp1 dpp2. execute_ADD_FIELD (dpp, lr, g) = Some (POF_OK, dpp1, lr, g)
    \<and> execute_DELETE_FIELD (dpp1, lr, g) = Some (POF_OK, dpp2, lr, g)
    \<and> pkt_bits dpp2 = pkt_bits dpp \<and> pk_left_len dpp2 = pk_left_len dpp \<and> pk_metadata dpp2 = Some (rel_md len md)"
proof -
  have w: "pk_window dpp = Some w" "unat (pk_left_len dpp) = n" "n + k < length w" "length w \<le> 2048"
    using assms(1) by (auto simp: pkt_room_def)
  obtain w1 where w1: "execute_ADD_FIELD (dpp, lr, g) = Some (POF_OK, action_update
        (resized w1 (pk_left_len dpp + of_nat k) (rel_md (len + of_nat k) md) dpp), lr, g)" "length w1 = length w"
    "bits_from w1 0 (8 * (n + k)) = take (unat pos) (bits_from w 0 (8 * n)) @ bits_from (drop 8 a) 0 (8 * k)
        @ drop (unat pos) (bits_from w 0 (8 * n))"
    using add_field_ok [OF assms(1-13)] by blast
  define dpp1 where "dpp1 = action_update (resized w1 (pk_left_len dpp + of_nat k) (rel_md (len + of_nat k) md) dpp)"
  have n1: "unat (pk_left_len dpp + of_nat k) = n + k" using w by (simp add: unat_word_ariths unat_of_nat)
  have win1: "pk_window dpp1 = Some w1" using window_resized [OF w(1) w1(2)] by (simp add: dpp1_def)
  have room1: "pkt_room dpp1 w1 (n + k) 0" using win1 n1 w w1(2) by (simp add: pkt_room_def dpp1_def)
  have d1: "act_p dpp1 = Some d" using assms(14) by (simp add: dpp1_def act_p_resized)
  have v1: "pofdp_get_32value (take 4 (pk_stk dpp1)) 0 (drop 8 d) dpp1 g = Some (POF_OK, t, g)"
    using assms(17) by (simp add: pofdp_get_32value_def)
  have md1: "pk_metadata dpp1 = Some (rel_md (len + of_nat k) md)" by (simp add: dpp1_def)
  have k: "k < 256" using assms(3) by simp
  have fit: "unat pos + 8 * k < 8 * (n + k)" using assms(4) by simp
  obtain w2 where w2: "execute_DELETE_FIELD (dpp1, lr, g) = Some (POF_OK, action_update
        (resized w2 (pk_left_len dpp1 - of_nat k) (rel_md (len + of_nat k - of_nat k) md) dpp1), lr, g)" "length w2 = length w1"
    "bits_from w2 0 (8 * (n + k) - 8 * k) = take (unat pos) (bits_from w1 0 (8 * (n + k)))
        @ drop (unat pos + 8 * k) (bits_from w1 0 (8 * (n + k)))"
    using delete_field_ok [OF room1 k assms(13) fit md1 assms(7) d1 assms(15,16) v1] by blast
  have "bits_from w2 0 (8 * n) = bits_from w 0 (8 * n)" using w2(3) [unfolded w1(3)] assms(4) by simp
  moreover have "pk_left_len dpp1 - of_nat k = pk_left_len dpp" by (simp add: dpp1_def)
  ultimately show ?thesis
    using w1(1) w2(1) w(1,2) window_resized [OF win1 w2(2)] by (simp add: dpp1_def [symmetric] pkt_bits_window)
qed

section \<open>Examples\<close>

text \<open>Add the two bytes \<open>0xabcd\<close> at bit 12 of the example frame, and delete them again.\<close>

definition example_add :: bytes where
  "example_add = [4, 0, 48, 0] @ [0, 0, 12, 0, 16, 0, 0, 0] @ [0xab, 0xcd] @ replicate 34 0"

definition example_delete :: bytes where
  "example_delete = [5, 0, 48, 0] @ [12, 0, 0, 0, 0, 0, 0, 0, 16, 0, 0, 0] @ replicate 32 0"

lemma example_add_fields:
  "length (drop 4 example_add) = 44" "get16 (drop 4 example_add) 2 = Some 12" "get32 (drop 4 example_add) 4 = Some 16"
  "length example_add = 48"
  by (simp_all add: example_add_def get16_def get32_def get_le_def)

lemma example_delete_fields:
  "get16 (drop 4 example_delete) 0 = Some 12" "rd (drop 4 example_delete) 2 = Some 0"
  "get32 (drop 8 (drop 4 example_delete)) 0 = Some 16" "length example_delete = 48"
  by (simp_all add: example_delete_def get16_def get32_def get_le_def rd_def)

lemma example_room: "k < 10 \<Longrightarrow> pkt_room (example_dpp act n) (example_frame @ example_pad) 8 k"
  by (simp add: pkt_room_def)

lemma example_md_rel: "pk_metadata (example_dpp act n) = Some (rel_md 0 example_md)" "2 \<le> length example_md"
  by (simp_all add: example_md_def rel_md_def le_bytes_def POF_NTOHS_def numeral_2_eq_2 [symmetric] upt_rec)
    (simp add: eval_nat_numeral)

lemma execute_ADD_FIELD_inserts_witness:
  "\<exists>dpp'. execute_ADD_FIELD (example_dpp example_add 1, example_lr, example_glob) = Some (POF_OK, dpp', example_lr, example_glob)
    \<and> pkt_bits dpp' = take 12 (pkt_bits (example_dpp example_add 1)) @ bits_from (drop 12 example_add) 0 16
        @ drop 12 (pkt_bits (example_dpp example_add 1))"
  using execute_ADD_FIELD_inserts [OF example_room [of 2] _ _ _ _ example_md_rel _ act_p_example example_add_fields(1-3),
      of 1 example_lr example_glob] example_add_fields(4)
  by auto

lemma execute_DELETE_FIELD_removes_witness:
  "\<exists>dpp'. execute_DELETE_FIELD (example_dpp example_delete 1, example_lr, example_glob)
      = Some (POF_OK, dpp', example_lr, example_glob)
    \<and> pkt_bits dpp' = take 12 (pkt_bits (example_dpp example_delete 1)) @ drop 28 (pkt_bits (example_dpp example_delete 1))"
proof -
  let ?d = "example_dpp example_delete 1"
  have "pofdp_get_32value (take 4 (pk_stk ?d)) 0 (drop 8 (drop 4 example_delete)) ?d example_glob
      = Some (POF_OK, 16, example_glob)"
    using example_delete_fields(3) by (simp add: pofdp_get_32value_def)
  then show ?thesis
    using execute_DELETE_FIELD_removes [OF example_room [of 0] _ _ _ example_md_rel act_p_example example_delete_fields(1,2),
        of 2 16 1 example_glob example_lr] example_delete_fields(4)
    by auto
qed

lemma act_p_pair:
  assumes "length a = 48" "length d = 48"
  shows "act_p (example_dpp (a @ d) 2) = Some (drop 4 a)" "act_p (action_update (example_dpp (a @ d) 2)) = Some (drop 4 d)"
  using assms by (simp_all add: act_p_def cur_act_def mem_read_def action_update_def Let_def)

lemma add_delete_field_roundtrip_witness:
  "\<exists>dpp1 dpp2. execute_ADD_FIELD (example_dpp (example_add @ example_delete) 2, example_lr, example_glob)
      = Some (POF_OK, dpp1, example_lr, example_glob)
    \<and> execute_DELETE_FIELD (dpp1, example_lr, example_glob) = Some (POF_OK, dpp2, example_lr, example_glob)
    \<and> pkt_bits dpp2 = pkt_bits (example_dpp (example_add @ example_delete) 2)"
  using add_delete_field_roundtrip [OF example_room [of 2] _ _ _ _ example_md_rel _ act_p_pair(1) example_add_fields(1-3) _
      act_p_pair(2) example_delete_fields(1-3), of example_lr example_glob] example_add_fields(4) example_delete_fields(4)
  by auto

end
