(* ===== verification/Pof_Exec.thy ===== *)
theory Pof_Exec
  imports Pof_Tag
begin

text \<open>
  The loops over actions and instructions. Without groups, respectively without jumps and table
  instructions, each loop executes its list in order and ends; groups and conditional jumps can
  make them run forever.
\<close>

section \<open>What a handler keeps of the program position\<close>

definition prog_same :: "pofdp_packet \<Rightarrow> pofdp_packet \<Rightarrow> bool" where
  "prog_same d d' \<longleftrightarrow> pk_ins d' = pk_ins d \<and> pk_ins_todo_num d' = pk_ins_todo_num d
     \<and> pk_ins_done_num d' = pk_ins_done_num d \<and> pk_act d' = pk_act d \<and> pk_act_num d' = pk_act_num d"

named_theorems prog_frame \<open>routines that keep the program position\<close>

lemma prog_same_refl [simp]: "prog_same d d"
  by (simp add: prog_same_def)

lemma prog_same_trans: "prog_same a b \<Longrightarrow> prog_same b c \<Longrightarrow> prog_same a c"
  by (simp add: prog_same_def)

lemma upd_window_prog [prog_frame]: "upd_window f d = Some d' \<Longrightarrow> prog_same d d'"
  by (auto simp: upd_window_def prog_same_def bind_eq_Some_conv split: if_splits)

lemma upd_metadata_prog [prog_frame]: "upd_metadata f d = Some d' \<Longrightarrow> prog_same d d'"
  by (auto simp: upd_metadata_def prog_same_def bind_eq_Some_conv)

lemma rel_len_prog [prog_frame]:
  "POF_PACKET_REL_LEN_SET n d = Some d' \<Longrightarrow> prog_same d d'"
  "POF_PACKET_REL_LEN_INC n d = Some d' \<Longrightarrow> prog_same d d'"
  "POF_PACKET_REL_LEN_DEC n d = Some d' \<Longrightarrow> prog_same d d'"
  by (auto simp: POF_PACKET_REL_LEN_SET_def POF_PACKET_REL_LEN_INC_def POF_PACKET_REL_LEN_DEC_def bind_eq_Some_conv
      dest: upd_metadata_prog)

lemma write_32value_prog [prog_frame]: "pofdp_write_32value_to_field v pm d g = Some (r, d', g') \<Longrightarrow> prog_same d d'"
  by (auto simp: pofdp_write_32value_to_field_def bind_eq_Some_conv split: prod.splits if_splits
      dest: upd_window_prog upd_metadata_prog)

lemma movePacketBufOffset_prog [prog_frame]: "movePacketBufOffset x d g = Some (r, d', g') \<Longrightarrow> prog_same d d'"
  by (auto simp: movePacketBufOffset_def prog_same_def split: if_splits)

lemma buf_upd_prog [prog_frame]: "buf_upd ty f d = Some d' \<Longrightarrow> prog_same d d'"
  by (auto simp: buf_upd_def split: if_splits dest: upd_window_prog upd_metadata_prog)

lemma calChecksum_prog [prog_frame]: "calChecksum a b c x e f d g = Some (r, d', g') \<Longrightarrow> prog_same d d'"
  by (auto simp: calChecksum_def bind_eq_Some_conv split: if_splits dest!: buf_upd_prog intro: prog_same_trans)

lemma send_raw_prog [prog_frame]: "pofdp_send_raw d lr g = Some (r, d', g') \<Longrightarrow> prog_same d d'"
  by (auto simp: pofdp_send_raw_def bind_eq_Some_conv Let_def prog_same_def err_no_upward_def split: if_splits)

lemma prog_same_left_len [simp]: "prog_same (d\<lparr>pk_left_len := l\<rparr>) d' = prog_same d d'"
  by (simp add: prog_same_def)

lemma insertTag_prog [prog_frame]: "insertTagToPacket p t v d g = Some (r, d', g') \<Longrightarrow> prog_same d d'"
  by (auto simp: insertTagToPacket_def bind_eq_Some_conv Let_def split: if_splits
      dest!: upd_window_prog rel_len_prog intro: prog_same_trans)

lemma flood_prog [prog_frame]:
  assumes "hmap_struct_traverse mp (flood_body lr) (d, g) = Some (r, d', g')"
  shows "prog_same d d'"
proof -
  have "prog_same d (fst s')" if "flood_body lr n s = Some (r, s')" "prog_same d (fst s)" for n s r s'
    using that by (auto simp: flood_body_def bind_eq_Some_conv split: prod.splits if_splits dest!: send_raw_prog)
      (auto simp: prog_same_def)
  then show ?thesis using trav_keeps [OF assms, of "\<lambda>s. prog_same d (fst s)"] by simp
qed

lemma output_deliver_prog [prog_frame]: "output_deliver lr d g = Some (r, d', g') \<Longrightarrow> prog_same d d'"
  by (auto simp: output_deliver_def bind_eq_Some_conv split: if_splits dest!: send_raw_prog flood_prog)

section \<open>One action\<close>

text \<open>Each action that succeeds steps on: its result is \<open>action_update\<close> of a packet at the same position.\<close>

definition steps_on :: "pofdp_packet \<Rightarrow> pofdp_packet \<Rightarrow> bool" where
  "steps_on d d' \<longleftrightarrow> (\<exists>d1. prog_same d d1 \<and> d' = action_update d1)"

lemma steps_onI: "prog_same d d1 \<Longrightarrow> steps_on d (action_update d1)"
  by (auto simp: steps_on_def)

lemma in_dp_err [simp]: "in_dp d lr (err_upward_new t c g) = Some (POF_OK, x) \<longleftrightarrow> False"
  by (cases "err_upward_new t c g") (auto simp: in_dp_def err_upward_new_def bind_eq_Some_conv)

lemma checked_ok [simp]:
  "(if r \<noteq> POF_OK then Some (r, x) else Some (POF_OK, y)) = Some (POF_OK, z) \<longleftrightarrow> r = POF_OK \<and> y = z"
  by auto

lemma action_steps_on:
  assumes "execute_one_action ty (d, lr, g) = Some (POF_OK, d', lr', g')"
  shows "steps_on d d'"
proof -
  note frames = upd_window_prog upd_metadata_prog write_32value_prog calChecksum_prog insertTag_prog
    output_deliver_prog rel_len_prog
  have "execute_OUTPUT (d, lr, g) = Some (POF_OK, d', lr', g') \<Longrightarrow> steps_on d d'"
    by (auto simp: execute_OUTPUT_def with_32value_def Let_def bind_eq_Some_conv split: if_split_asm option.split_asm
        dest!: frames intro!: steps_onI) (auto simp: prog_same_def)
  moreover have "execute_SET_FIELD (d, lr, g) = Some (POF_OK, d', lr', g') \<Longrightarrow> steps_on d d'"
    by (auto simp: execute_SET_FIELD_def Let_def bind_eq_Some_conv split: if_splits dest!: frames intro!: steps_onI)
  moreover have "execute_SET_FIELD_FROM_METADATA (d, lr, g) = Some (POF_OK, d', lr', g') \<Longrightarrow> steps_on d d'"
    by (auto simp: execute_SET_FIELD_FROM_METADATA_def bind_eq_Some_conv split: if_splits dest!: frames intro!: steps_onI)
  moreover have "execute_MODIFY_FIELD (d, lr, g) = Some (POF_OK, d', lr', g') \<Longrightarrow> steps_on d d'"
    by (auto simp: execute_MODIFY_FIELD_def with_32value_def bind_eq_Some_conv split: if_splits dest!: frames intro!: steps_onI)
  moreover have "execute_ADD_FIELD (d, lr, g) = Some (POF_OK, d', lr', g') \<Longrightarrow> steps_on d d'"
    by (auto simp: execute_ADD_FIELD_def bind_eq_Some_conv split: if_splits dest!: frames intro!: steps_onI)
  moreover have "execute_DELETE_FIELD (d, lr, g) = Some (POF_OK, d', lr', g') \<Longrightarrow> steps_on d d'"
    by (auto simp: execute_DELETE_FIELD_def with_32value_def Let_def bind_eq_Some_conv split: if_splits
        dest!: frames intro!: steps_onI) (blast intro: prog_same_trans)+
  moreover have "execute_CALCULATE_CHECKSUM (d, lr, g) = Some (POF_OK, d', lr', g') \<Longrightarrow> steps_on d d'"
    by (auto simp: execute_CALCULATE_CHECKSUM_def bind_eq_Some_conv split: if_splits dest!: frames intro!: steps_onI)
  moreover have "execute_DROP (d, lr, g) = Some (POF_OK, d', lr', g') \<Longrightarrow> steps_on d d'"
    by (auto simp: execute_DROP_def bind_eq_Some_conv prog_same_def intro!: steps_onI)
  moreover have "execute_PACKET_IN (d, lr, g) = Some (POF_OK, d', lr', g') \<Longrightarrow> steps_on d d'"
    by (auto simp: execute_PACKET_IN_def bind_eq_Some_conv split: if_splits intro!: steps_onI)
  moreover have "execute_COUNTER (d, lr, g) = Some (POF_OK, d', lr', g') \<Longrightarrow> steps_on d d'"
    by (auto simp: execute_COUNTER_def bind_eq_Some_conv split: if_splits intro!: steps_onI)
  ultimately show ?thesis
    using assms by (auto simp: execute_one_action_def execute_EXPERIMENTER_def split: if_splits)
qed

section \<open>The actions of a list\<close>

text \<open>The reference: execute up to \<open>n\<close> actions in order, stopping at an error or when the packet is done.\<close>

primrec run_actions :: "nat \<Rightarrow> dp_state \<Rightarrow> (ret \<times> dp_state) option" where
  "run_actions 0 s = Some (POF_OK, s)"
| "run_actions (Suc n) s = (
     if pk_packet_done (fst s) then Some (POF_OK, s)
     else do {
       a \<leftarrow> cur_act (fst s);
       type \<leftarrow> get16 a 0;
       check_ret (execute_one_action type s) (run_actions n)
     })"

text \<open>No group among the actions that are left.\<close>

definition act_type_at :: "bytes \<Rightarrow> nat \<Rightarrow> u16 option" where
  "act_type_at m i = do { a \<leftarrow> mem_read (drop (i * 48) m) 48; get16 a 0 }"

definition no_group :: "pofdp_packet \<Rightarrow> bool" where
  "no_group d \<longleftrightarrow> (\<forall>j < unat (pk_act_num d). act_type_at (fst (pk_act d)) (snd (pk_act d) + j) \<noteq> Some 7)"

lemma steps_on_position:
  assumes "steps_on d d'" "0 < pk_act_num d"
  shows "unat (pk_act_num d') = unat (pk_act_num d) - 1" "pk_ins d' = pk_ins d"
    "pk_ins_todo_num d' = pk_ins_todo_num d" "pk_ins_done_num d' = pk_ins_done_num d" "no_group d \<Longrightarrow> no_group d'"
proof -
  obtain d1 where d1: "prog_same d d1" "d' = action_update d1" using assms(1) by (auto simp: steps_on_def)
  have m: "unat (pk_act_num d - 1) = unat (pk_act_num d) - 1" using assms(2) by (simp add: unat_sub word_le_nat_alt word_less_nat_alt Suc_le_eq)
  then show n: "unat (pk_act_num d') = unat (pk_act_num d) - 1"
    using d1 by (simp add: action_update_def Let_def prog_same_def)
  show "pk_ins d' = pk_ins d" "pk_ins_todo_num d' = pk_ins_todo_num d" "pk_ins_done_num d' = pk_ins_done_num d"
    using d1 by (simp_all add: action_update_def Let_def prog_same_def)
  assume ng: "no_group d"
  show "no_group d'"
  proof (cases "pk_act_num d - 1 < 1")
    case True
    then have "unat (pk_act_num d) - 1 = 0" using m by (simp add: word_less_nat_alt)
    then show ?thesis using n by (simp add: no_group_def)
  next
    case False
    then have "pk_act d' = (fst (pk_act d), snd (pk_act d) + 1)"
      using d1 by (simp add: action_update_def Let_def prog_same_def)
    moreover have "act_type_at (fst (pk_act d)) (snd (pk_act d) + 1 + j) \<noteq> Some 7" if "j < unat (pk_act_num d) - 1" for j
      using ng that by (auto simp: no_group_def dest!: spec [of _ "Suc j"])
    ultimately show ?thesis using n by (simp add: no_group_def)
  qed
qed


section \<open>Groups\<close>

definition ins_same :: "pofdp_packet \<Rightarrow> pofdp_packet \<Rightarrow> bool" where
  "ins_same d d' \<longleftrightarrow> pk_ins d' = pk_ins d \<and> pk_ins_todo_num d' = pk_ins_todo_num d
     \<and> pk_ins_done_num d' = pk_ins_done_num d"

lemma ins_same_trans: "ins_same a b \<Longrightarrow> ins_same b c \<Longrightarrow> ins_same a c"
  by (simp add: ins_same_def)

lemma ins_same_refl [simp]: "ins_same d d"
  by (simp add: ins_same_def)

lemma group_enter_ins: "group_enter s = Some (POF_OK, s1) \<Longrightarrow> ins_same (fst s) (fst s1)"
  by (auto simp: group_enter_def bind_eq_Some_conv ins_same_def split: prod.splits if_split_asm option.split_asm)

lemma action_ins:
  assumes "execute_one_action ty s = Some (POF_OK, s1)"
  shows "ins_same (fst s) (fst s1)"
proof -
  obtain d lr g d1 lr1 g1 where s: "s = (d, lr, g)" "s1 = (d1, lr1, g1)" by (metis prod_cases3)
  then obtain d2 where "prog_same d d2" "d1 = action_update d2" using action_steps_on [of ty d lr g d1 lr1 g1] assms by (auto simp: steps_on_def)
  then show ?thesis using s by (simp add: ins_same_def prog_same_def action_update_def Let_def)
qed

text \<open>When the loop succeeds, nothing is left to do; it does not touch the instructions.\<close>

lemma action_execute_done:
  assumes "pofdp_action_execute s = Some y" "fst y = POF_OK"
  shows "(pk_packet_done (fst (snd y)) \<or> \<not> 0 < pk_act_num (fst (snd y))) \<and> ins_same (fst s) (fst (snd y))"
proof -
  let ?Q = "\<lambda>s y. fst y = POF_OK \<longrightarrow> (pk_packet_done (fst (snd y)) \<or> \<not> 0 < pk_act_num (fst (snd y)))
    \<and> ins_same (fst s) (fst (snd y))"
  have "?Q s y"
  proof (rule pofdp_action_execute.raw_induct [where P = ?Q, OF _ assms(1)])
    fix f s y
    assume IH: "\<And>s y. f s = Some y \<Longrightarrow> ?Q s y"
      and step: "(if \<not> pk_packet_done (fst s) \<and> 0 < pk_act_num (fst s) then do {
         a \<leftarrow> cur_act (fst s);
         type \<leftarrow> get16 a 0;
         (if type = 7 then do {
            (r1, s1) \<leftarrow> group_enter s;
            (if r1 \<noteq> POF_OK then Some (r1, s1) else do {
               (r2, s2) \<leftarrow> f s1;
               (if r2 \<noteq> POF_OK then Some (r2, s2) else f s2) })
          } else do {
            (r1, s1) \<leftarrow> execute_one_action type s;
            (if r1 \<noteq> POF_OK then Some (r1, s1) else f s1) })
       } else Some (POF_OK, s)) = Some y"
    show "?Q s y"
    proof
      assume ok: "fst y = POF_OK"
      consider (stop) "y = (POF_OK, s)" "pk_packet_done (fst s) \<or> \<not> 0 < pk_act_num (fst s)"
        | (grp) s1 s2 where "group_enter s = Some (POF_OK, s1)" "f s1 = Some (POF_OK, s2)" "f s2 = Some y"
        | (act) type s1 where "execute_one_action type s = Some (POF_OK, s1)" "f s1 = Some y"
        using step ok by (auto simp: bind_eq_Some_conv split: if_split_asm)
      then show "(pk_packet_done (fst (snd y)) \<or> \<not> 0 < pk_act_num (fst (snd y))) \<and> ins_same (fst s) (fst (snd y))"
      proof cases
        case grp
        have "ins_same (fst s1) (fst s2)" using IH [OF grp(2)] by simp
        then have "ins_same (fst s) (fst s2)" by (rule ins_same_trans [OF group_enter_ins [OF grp(1)]])
        then show ?thesis using IH [OF grp(3)] ok ins_same_trans by blast
      next
        case act
        then show ?thesis using IH [OF act(2)] ok action_ins [OF act(1)] ins_same_trans by blast
      qed auto
    qed
  qed
  then show ?thesis using assms(2) by blast
qed

text \<open>
  A group action is the last one: executing it is entering the group and executing the actions
  of the group, and the actions that stand behind it in the list are never executed.
\<close>

theorem group_action_is_last:
  assumes "\<not> pk_packet_done (fst s)" "0 < pk_act_num (fst s)" "cur_act (fst s) = Some a" "get16 a 0 = Some 7"
  shows "pofdp_action_execute s = execute_GROUP s"
proof -
  have stop: "(do { (r2, s2) \<leftarrow> pofdp_action_execute s1; (if r2 \<noteq> POF_OK then Some (r2, s2) else pofdp_action_execute s2) })
      = pofdp_action_execute s1" for s1
  proof (cases "pofdp_action_execute s1")
    case (Some y)
    moreover have "pofdp_action_execute (snd y) = Some y" if "fst y = POF_OK"
      using action_execute_done [OF Some that] that by (subst pofdp_action_execute.simps) (cases y, auto)
    ultimately show ?thesis by (cases y) auto
  qed simp
  show ?thesis
    using assms by (subst pofdp_action_execute.simps)
      (simp add: execute_GROUP_def check_ret_def stop cong: if_cong)
qed

text \<open>A state that a group action leads back to: the loop never returns from it.\<close>

definition group_cycle :: "dp_state \<Rightarrow> bool" where
  "group_cycle s \<longleftrightarrow> \<not> pk_packet_done (fst s) \<and> 0 < pk_act_num (fst s)
     \<and> (\<exists>a. cur_act (fst s) = Some a \<and> get16 a 0 = Some 7) \<and> group_enter s = Some (POF_OK, s)"

lemma group_cycle_diverges: "group_cycle s \<Longrightarrow> pofdp_action_execute s = None"
proof (rule ccontr)
  assume cyc: "group_cycle s" and "pofdp_action_execute s \<noteq> None"
  then obtain y where y: "pofdp_action_execute s = Some y" by blast
  have "\<not> group_cycle s"
  proof (rule pofdp_action_execute.raw_induct [where P = "\<lambda>s y. \<not> group_cycle s", OF _ y])
    fix f s y
    assume IH: "\<And>s y. f s = Some y \<Longrightarrow> \<not> group_cycle s"
      and step: "(if \<not> pk_packet_done (fst s) \<and> 0 < pk_act_num (fst s) then do {
         a \<leftarrow> cur_act (fst s);
         type \<leftarrow> get16 a 0;
         (if type = 7 then do {
            (r1, s1) \<leftarrow> group_enter s;
            (if r1 \<noteq> POF_OK then Some (r1, s1) else do {
               (r2, s2) \<leftarrow> f s1;
               (if r2 \<noteq> POF_OK then Some (r2, s2) else f s2) })
          } else do {
            (r1, s1) \<leftarrow> execute_one_action type s;
            (if r1 \<noteq> POF_OK then Some (r1, s1) else f s1) })
       } else Some (POF_OK, s)) = Some (y :: ret \<times> dp_state)"
    show "\<not> group_cycle s"
    proof
      assume c: "group_cycle s"
      then have "f s \<noteq> None" using step by (cases "f s") (auto simp: group_cycle_def)
      then show False using IH c by blast
    qed
  qed
  then show False using cyc by contradiction
qed

text \<open>
  A group whose first action is the group itself makes the switch loop forever: the execution
  of a group action that names it never returns. (The group has no counter.)
\<close>

theorem group_self_reference_diverges:
  assumes "\<not> pk_packet_done dpp" "0 < pk_act_num dpp" "cur_act dpp = Some a" "get16 a 0 = Some 7" "get32 (drop 4 a) 0 = Some gid"
    and "pk_metadata dpp = Some md" "2 \<le> length md"
    and "poflr_get_group_with_ID gid lr = Some (Some grp)" "gi_counter_id (hn_obj grp) = 0" "0 < gi_action_number (hn_obj grp)"
    and "mem_read (gi_action (hn_obj grp)) 48 = Some b" "get16 b 0 = Some 7" "get32 (drop 4 b) 0 = Some gid"
  shows "pofdp_action_execute (dpp, lr, g) = None"
proof -
  let ?d = "dpp\<lparr>pk_act := (gi_action (hn_obj grp), 0), pk_act_num := gi_action_number (hn_obj grp)\<rparr>"
  obtain n where n: "POF_PACKET_REL_LEN_GET dpp = Some n" "POF_PACKET_REL_LEN_GET ?d = Some n"
    using assms(6,7) by (auto simp: POF_PACKET_REL_LEN_GET_def get16_def get_le_def)
  have e: "group_enter (dpp, lr, g) = Some (POF_OK, ?d, lr, g)" "group_enter (?d, lr, g) = Some (POF_OK, ?d, lr, g)"
    using assms n by (simp_all add: group_enter_def act_p_def cur_act_def poflr_counter_increace_def)
  then have "group_cycle (?d, lr, g)"
    using assms by (simp add: group_cycle_def cur_act_def)
  then have "pofdp_action_execute (?d, lr, g) = None" by (rule group_cycle_diverges)
  then show ?thesis using assms(1-4) e(1) by (subst pofdp_action_execute.simps) simp
qed

section \<open>The instructions of an entry\<close>

definition ins_steps_on :: "pofdp_packet \<Rightarrow> pofdp_packet \<Rightarrow> bool" where
  "ins_steps_on d d' \<longleftrightarrow> (\<exists>d1. ins_same d d1 \<and> d' = instruction_update d1)"

lemma ins_steps_onI: "ins_same d d1 \<Longrightarrow> ins_steps_on d (instruction_update d1)"
  by (auto simp: ins_steps_on_def)

lemma prog_ins: "prog_same d d' \<Longrightarrow> ins_same d d'"
  by (simp add: prog_same_def ins_same_def)

lemmas ins_frames = upd_metadata_prog [THEN prog_ins] write_32value_prog [THEN prog_ins] movePacketBufOffset_prog [THEN prog_ins]

lemma instruction_steps_on:
  assumes "execute_one_instruction ty (d, lr, g) = Some (POF_OK, d', lr', g')" "ty \<noteq> 1" "ty \<noteq> 8" "ty \<noteq> 9"
  shows "ins_steps_on d d'"
proof -
  have "execute_METER (d, lr, g) = Some (POF_OK, d', lr', g') \<Longrightarrow> ins_steps_on d d'"
    by (auto simp: execute_METER_def bind_eq_Some_conv ins_same_def split: option.split_asm intro!: ins_steps_onI)
  moreover have "execute_WRITE_METADATA (d, lr, g) = Some (POF_OK, d', lr', g') \<Longrightarrow> ins_steps_on d d'"
    by (auto simp: execute_WRITE_METADATA_def bind_eq_Some_conv dest!: ins_frames intro!: ins_steps_onI)
  moreover have "execute_WRITE_METADATA_FROM_PACKET (d, lr, g) = Some (POF_OK, d', lr', g') \<Longrightarrow> ins_steps_on d d'"
    by (auto simp: execute_WRITE_METADATA_FROM_PACKET_def bind_eq_Some_conv split: if_splits
        dest!: ins_frames intro!: ins_steps_onI)
  moreover have "execute_CALCULATE_FIELD (d, lr, g) = Some (POF_OK, d', lr', g') \<Longrightarrow> ins_steps_on d d'"
    by (auto simp: execute_CALCULATE_FIELD_def with_32value_def Let_def bind_eq_Some_conv
        split: if_split_asm option.split_asm dest!: ins_frames intro!: ins_steps_onI)
  moreover have "execute_MOVE_PACKET_OFFSET (d, lr, g) = Some (POF_OK, d', lr', g') \<Longrightarrow> ins_steps_on d d'"
    by (auto simp: execute_MOVE_PACKET_OFFSET_def with_32value_def Let_def bind_eq_Some_conv
        split: if_split_asm dest!: ins_frames intro!: ins_steps_onI)
  moreover have "execute_APPLY_ACTIONS (d, lr, g) = Some (POF_OK, d', lr', g') \<Longrightarrow> ins_steps_on d d'"
  proof -
    assume "execute_APPLY_ACTIONS (d, lr, g) = Some (POF_OK, d', lr', g')"
    then obtain m n d1 where
      "pofdp_action_execute (d\<lparr>pk_act := m, pk_act_num := n\<rparr>, lr, g) = Some (POF_OK, d1, lr', g')" "d' = instruction_update d1"
      by (auto simp: execute_APPLY_ACTIONS_def check_ret_def bind_eq_Some_conv split: if_split_asm)
    moreover from this have "ins_same d d1" using action_execute_done by (fastforce simp: ins_same_def)
    ultimately show ?thesis by (auto simp: ins_steps_on_def)
  qed
  ultimately show ?thesis
    using assms by (auto simp: execute_one_instruction_def execute_WRITE_ACTIONS_def execute_CLEAR_ACTIONS_def
        execute_EXPERIMENTER_ins_def split: if_splits)
qed

text \<open>The reference: execute up to \<open>n\<close> instructions in order.\<close>

primrec run_instructions :: "nat \<Rightarrow> dp_state \<Rightarrow> (ret \<times> dp_state) option" where
  "run_instructions 0 s = Some (POF_OK, s)"
| "run_instructions (Suc n) s = (
     if pk_packet_done (fst s) then Some (POF_OK, s)
     else do {
       i \<leftarrow> cur_ins (fst s);
       type \<leftarrow> get16 i 0;
       check_ret (execute_one_instruction type s) (run_instructions n)
     })"

text \<open>Among the instructions that are left there is no jump and no table instruction.\<close>

definition ins_type_at :: "bytes \<Rightarrow> int \<Rightarrow> u16 option" where
  "ins_type_at m i = (if i < 0 then None else do { b \<leftarrow> mem_read (drop (nat i * 304) m) 304; get16 b 0 })"

definition straight :: "pofdp_packet \<Rightarrow> bool" where
  "straight d \<longleftrightarrow> (\<forall>j < unat (pk_ins_todo_num d). ins_type_at (fst (pk_ins d)) (snd (pk_ins d) + int j) \<notin> {Some 1, Some 8, Some 9})"

lemma ins_steps_on_position:
  assumes "ins_steps_on d d'" "0 < pk_ins_todo_num d"
  shows "pk_ins_todo_num d = 1 \<Longrightarrow> pk_packet_done d'"
    and "pk_ins_todo_num d \<noteq> 1 \<Longrightarrow> unat (pk_ins_todo_num d') = unat (pk_ins_todo_num d) - 1 \<and> (straight d \<longrightarrow> straight d')"
proof -
  obtain d1 where d1: "ins_same d d1" "d' = instruction_update d1" using assms(1) by (auto simp: ins_steps_on_def)
  show "pk_packet_done d'" if "pk_ins_todo_num d = 1" using d1 that by (simp add: instruction_update_def ins_same_def)
  assume ne: "pk_ins_todo_num d \<noteq> 1"
  then have d': "pk_ins d' = (fst (pk_ins d), snd (pk_ins d) + 1)" "pk_ins_todo_num d' = pk_ins_todo_num d - 1"
    using d1 by (simp_all add: instruction_update_def ins_same_def insJumpForward_def)
  then have n: "unat (pk_ins_todo_num d') = unat (pk_ins_todo_num d) - 1"
    using assms(2) by (simp add: unat_sub word_le_nat_alt word_less_nat_alt Suc_le_eq)
  have "straight d'" if "straight d"
  proof -
    have "ins_type_at (fst (pk_ins d)) (snd (pk_ins d) + 1 + int j) \<notin> {Some 1, Some 8, Some 9}"
      if "j < unat (pk_ins_todo_num d) - 1" for j
      using \<open>straight d\<close> that unfolding straight_def by (auto dest!: spec [of _ "Suc j"] simp: add.assoc)
    then show ?thesis using d' n by (simp add: straight_def)
  qed
  then show "unat (pk_ins_todo_num d') = unat (pk_ins_todo_num d) - 1 \<and> (straight d \<longrightarrow> straight d')" using n by blast
qed

lemma instruction_execute_stop: "pk_packet_done (fst s) \<Longrightarrow> pofdp_instruction_execute s = Some (POF_OK, s)"
  by (subst pofdp_instruction_execute.simps) simp


section \<open>Jumps\<close>

definition ins_cycle :: "dp_state \<Rightarrow> bool" where
  "ins_cycle s \<longleftrightarrow> \<not> pk_packet_done (fst s)
     \<and> (\<exists>i type. cur_ins (fst s) = Some i \<and> get16 i 0 = Some type \<and> execute_one_instruction type s = Some (POF_OK, s))"

lemma ins_cycle_diverges: "ins_cycle s \<Longrightarrow> pofdp_instruction_execute s = None"
proof (rule ccontr)
  assume cyc: "ins_cycle s" and "pofdp_instruction_execute s \<noteq> None"
  then obtain y where y: "pofdp_instruction_execute s = Some y" by blast
  have "\<not> ins_cycle s"
  proof (rule pofdp_instruction_execute.raw_induct [where P = "\<lambda>s y. \<not> ins_cycle s", OF _ y])
    fix f s y
    assume IH: "\<And>s y. f s = Some y \<Longrightarrow> \<not> ins_cycle s"
      and step: "(if \<not> pk_packet_done (fst s) then do {
         i \<leftarrow> cur_ins (fst s);
         type \<leftarrow> get16 i 0;
         (r, s1) \<leftarrow> execute_one_instruction type s;
         (if r \<noteq> POF_OK then Some (r, s1) else f s1)
       } else Some (POF_OK, s)) = Some (y :: ret \<times> dp_state)"
    show "\<not> ins_cycle s"
    proof
      assume c: "ins_cycle s"
      then have "f s = Some y" using step by (auto simp: ins_cycle_def)
      then show False using IH c by blast
    qed
  qed
  then show False using cyc by contradiction
qed

lemma insJump_zero: "insJump dir 0 dpp g = Some (POF_OK, dpp, g)"
  by (simp add: insJump_def insJumpForward_def)

text \<open>
  A conditional jump whose offset for the outcome of its comparison is 0 jumps to itself: the
  execution of the instructions never returns.
\<close>

theorem conditional_jump_in_place_diverges:
  assumes "\<not> pk_packet_done dpp" "cur_ins dpp = Some i" "get16 i 0 = Some 9"
    and "pofdp_get_32value (take 4 (pk_stk dpp)) 1 (drop 16 i) dpp g = Some (POF_OK, value1, g)"
    and "rd i 8 = Some ty2" "pofdp_get_32value (take 4 (pk_stk dpp)) ty2 (drop 24 i) dpp g = Some (POF_OK, value2, g)"
    and "k = (if value1 < value2 then 0 else if value1 = value2 then 1 else 2)"
    and "rd i (10 + 2 * k) = Some 0" "get32 (drop (32 + 8 * k) i) 0 = Some 0"
  shows "pofdp_instruction_execute (dpp, lr, g) = None"
proof -
  have "length i = 304" using assms(2) by (auto simp: cur_ins_def mem_read_def split: prod.splits if_splits)
  moreover have "k \<le> 2" using assms(7) by (simp split: if_splits)
  ultimately have r: "rd (drop 8 i) 0 = Some ty2" "\<exists>d. rd (drop 8 i) (1 + 2 * k) = Some d" "rd (drop 8 i) (2 + 2 * k) = Some 0"
    using assms(5,8) by (simp_all add: rd_def split: if_splits)
  then obtain d where d: "rd (drop 8 i) (1 + 2 * k) = Some d" by blast
  have o: "pofdp_get_32value v 0 (drop (24 + 8 * k) (drop 8 i)) dpp g = Some (POF_OK, 0, g)" for v
    using assms(9) by (simp add: pofdp_get_32value_def add.commute)
  have "execute_CONDITIONAL_JMP (dpp, lr, g) = Some (POF_OK, dpp, lr, g)"
    using assms(2,4,6) r(1,3) d o insJump_zero
    by (simp add: execute_CONDITIONAL_JMP_def ins_p_def with_32value_def Let_def assms(7) [symmetric])
  then have "ins_cycle (dpp, lr, g)"
    using assms(1-3) by (simp add: ins_cycle_def execute_one_instruction_def)
  then show ?thesis by (rule ins_cycle_diverges)
qed

section \<open>Examples\<close>

definition act_of :: "u8 \<Rightarrow> u8 \<Rightarrow> bytes" where
  "act_of type arg = [type, 0, 48, 0, arg, 0, 0, 0] @ replicate 40 0"

lemma act_of_props: "length (act_of t x) = 48" "get16 (act_of t x) 0 = Some (ucast t)" "get32 (drop 4 (act_of t x)) 0 = Some (ucast x)"
  by (simp_all add: act_of_def get16_def get32_def get_le_def)

lemma cur_act_example: "length a = 48 \<Longrightarrow> cur_act (example_dpp (a @ b) n) = Some a"
  by (simp add: cur_act_def mem_read_def)

lemma example_not_done [simp]: "pk_packet_done (example_dpp a n) = False"
  by (simp add: example_dpp_def recv_dpp_def zero_dpp_def)


text \<open>A group with id 3 whose only action is itself.\<close>

definition self_group :: groupInfo where
  "self_group = \<lparr>gi_type = 0, gi_action_number = 1, gi_id = 3, gi_counter_id = 0, gi_action = act_of 7 3 @ replicate 144 0\<rparr>"

definition self_lr :: pof_local_resource where
  "self_lr = example_lr\<lparr>groupMap := Some \<lparr>hm_buckets = [[], [\<lparr>hn_ptr = 4, hn_hash = 3, hn_obj = self_group\<rparr>]],
     hm_mask = 1, hm_n = 1\<rparr>, groupNum := 1\<rparr>"

lemma self_group_found: "poflr_get_group_with_ID 3 self_lr = Some (Some \<lparr>hn_ptr = 4, hn_hash = 3, hn_obj = self_group\<rparr>)"
  by (simp add: self_lr_def poflr_get_group_with_ID_def map_groupHashByID_def hmap_hashForLinear_def
      hmap_nodeGetWithHash_def bucketWithHash_def rd_def)

lemma group_self_reference_diverges_witness:
  "pofdp_action_execute (example_dpp (act_of 7 3) 1, self_lr, example_glob) = None"
proof -
  let ?d = "example_dpp (act_of 7 3) 1"
  have a: "cur_act ?d = Some (act_of 7 3)" using cur_act_example [of "act_of 7 3" "[]"] act_of_props by simp
  have t: "get16 (act_of 7 3) 0 = Some 7" "get32 (drop 4 (act_of 7 3)) 0 = Some 3" using act_of_props [of 7 3] by simp_all
  have b: "mem_read (gi_action (hn_obj \<lparr>hn_ptr = 4 :: nat, hn_hash = 3 :: u32, hn_obj = self_group\<rparr>)) 48 = Some (act_of 7 3)"
    using act_of_props by (simp add: self_group_def mem_read_def)
  show ?thesis
    by (rule group_self_reference_diverges [OF _ _ a t example_dpp_sel(5) _ self_group_found _ _ b t])
      (simp_all add: self_group_def)
qed

lemma group_action_is_last_witness:
  "pofdp_action_execute (example_dpp (act_of 7 2 @ act_of 8 0) 2, self_lr, example_glob)
    = execute_GROUP (example_dpp (act_of 7 2 @ act_of 8 0) 2, self_lr, example_glob)"
  using act_of_props [of 7 2] cur_act_example [of "act_of 7 2" "act_of 8 0" 2]
  by (intro group_action_is_last [of _ "act_of 7 2"]) simp_all

text \<open>Instructions: apply no action, and a conditional jump to itself.\<close>

definition example_apply :: bytes where
  "example_apply = [4, 0] @ replicate 302 0"

definition example_jump :: bytes where
  "example_jump = [9, 0, 0, 0, 0, 0, 0, 0] @ replicate 8 0 @ [0, 0, 8, 0, 16, 0, 0, 0] @ replicate 280 0"

definition example_ins :: "bytes \<Rightarrow> pofdp_packet" where
  "example_ins i = (example_dpp [] 0)\<lparr>pk_ins := (i, 0), pk_ins_todo_num := 1\<rparr>"

lemma cur_ins_example: "length i = 304 \<Longrightarrow> cur_ins (example_ins i) = Some i"
  by (simp add: cur_ins_def example_ins_def mem_read_def)


lemma conditional_jump_in_place_diverges_witness:
  "pofdp_instruction_execute (example_ins example_jump, example_lr, example_glob) = None"
proof -
  let ?d = "example_ins example_jump" and ?w = "example_frame @ example_pad"
  have l: "length example_jump = 304" by (simp add: example_jump_def)
  have t: "get16 example_jump 0 = Some 9" "match_at (drop 16 example_jump) 0 = Some (0, 8, 16)" "rd example_jump 8 = Some 0"
    "get32 (drop 24 example_jump) 0 = Some 0" "rd example_jump (10 + 2 * 2) = Some 0" "get32 (drop (32 + 8 * 2) example_jump) 0 = Some 0"
    by (simp_all add: example_jump_def get16_def get32_def get_le_def rd_def match_at_def nth_append)
      (simp_all add: numeral_eq_Suc)
  have "field_ok 0 8 16 ?d ?w"
    using example_dpp_sel(1) [of "[]" 0] by (simp add: field_ok_def field_buf_def example_ins_def pk_window_def byte_ceil_def)
  moreover have "length (take 4 (pk_stk ?d)) = 4" by (simp add: example_ins_def)
  ultimately obtain v where v: "pofdp_get_32value (take 4 (pk_stk ?d)) 1 (drop 16 example_jump) ?d example_glob
      = Some (POF_OK, v, example_glob)" "unat v = field_val ?w (unat (8 :: u16)) (unat (16 :: u16))"
    using get_32value_field [of 0 8 16 ?d ?w "drop 16 example_jump" 1 "take 4 (pk_stk ?d)" example_glob] t(2) by auto
  have "field_val ?w 8 16 = 0x2233"
    by (simp add: field_val_def bits_from_def bits_nat_def upt_rec bit_at_def example_frame_def nth_append bit_simps)
  then have "v \<noteq> 0" using v(2) by auto
  then have k: "(2 :: nat) = (if v < 0 then 0 else if v = 0 then 1 else 2)" by simp
  have z: "pofdp_get_32value (take 4 (pk_stk ?d)) 0 (drop 24 example_jump) ?d example_glob = Some (POF_OK, 0, example_glob)"
    using t(4) by (simp add: pofdp_get_32value_def)
  show ?thesis
    by (rule conditional_jump_in_place_diverges [OF _ cur_ins_example [OF l] t(1) v(1) t(3) z k t(5,6)])
      (simp add: example_ins_def)
qed

end
