(* ===== verification/Pof_Port.thy ===== *)
theory Pof_Port
  imports Pof_Datapath
begin

text \<open>
  The ports of a slot: \<^verbatim>\<open>local_resource/pof_port.c\<close>, and the tasks of
  \<^verbatim>\<open>common/pof_basefunc.c\<close> it starts and stops.

  A \<^verbatim>\<open>struct portInfo\<close> is linked into two hash maps at once, by its index and by its name.
  \<open>portPofIndexMap\<close> holds the structures; \<open>portNameMap\<close> holds the hash and the address of each
  \<^verbatim>\<open>nameNode\<close>, so a lookup by name finds an address and reads the structure at it. What
  the operating system knows about an interface is asked through \<open>sys\<close>. A routine that ends in
  \<^verbatim>\<open>terminate_handler\<close> leaves the process and gives \<open>None\<close>.
\<close>

lemma length_strncpy [simp]: "length (strncpy n s) = n"
  using length_takeWhile_le [of "\<lambda>b. b \<noteq> 0" "take n s"] by (simp add: strncpy_def Let_def)

section \<open>Tasks\<close>

text \<open>The routines give the return value and the new content of the task id.\<close>

definition pofbf_task_create :: "glob \<Rightarrow> ret \<times> u64 \<times> glob" where
  "pofbf_task_create g = (case sys os_thread g of
      (None, g1) \<Rightarrow> (case err_no_upward POFET_SOFTWARE_FAILED (SoftE POF_TASK_CREATE_FAIL) g1 of (r, g2) \<Rightarrow> (r, 0, g2))
    | (Some tid, g1) \<Rightarrow> (POF_OK, tid, g1))"

definition pofbf_task_delete :: "u64 \<Rightarrow> glob \<Rightarrow> ret \<times> u64 \<times> glob" where
  "pofbf_task_delete task_id g = (
     let fail = (\<lambda>g. case err_no_upward POFET_SOFTWARE_FAILED (SoftE POF_TASK_DELETE_FAIL) g of (r, g') \<Rightarrow> (r, task_id, g')) in
     if task_id = 0 then fail g
     else case sys os_self g of (self, g1) \<Rightarrow>
       if task_id = self then (POF_OK, task_id, g1)
       else case sys (\<lambda>v. os_cancel v task_id) g1 of (ok, g2) \<Rightarrow>
         if \<not> ok then fail g2 else (POF_OK, 0, g2))"

section \<open>Interfaces of the system\<close>

text \<open>
  The name of an interface request has 16 bytes; a longer name overruns it. The return value of
  \<^verbatim>\<open>ioctl\<close> is only ever compared with \<^verbatim>\<open>POF_OK\<close>.
\<close>

definition c_str :: "bytes \<Rightarrow> bytes" where
  "c_str s = takeWhile (\<lambda>b. b \<noteq> 0) s"

definition checkPortNameInSys :: "bytes \<Rightarrow> glob \<Rightarrow> (ret \<times> glob) option" where
  "checkPortNameInSys name g = (case sys os_socket g of
      (None, g1) \<Rightarrow> Some (err_no_upward POFET_SOFTWARE_FAILED (SoftE POF_CREATE_SOCKET_FAILURE) g1)
    | (Some _, g1) \<Rightarrow>
        if 16 \<le> length (c_str name) then None
        else case sys (\<lambda>v. os_ifindex v (c_str name)) g1 of (i, g2) \<Rightarrow>
          Some (if i = None then POF_ERROR else POF_OK, g2))"

text \<open>Bit 0 of the flags is \<^verbatim>\<open>IFF_UP\<close>, bit 6 \<^verbatim>\<open>IFF_RUNNING\<close>.\<close>

definition check_port_flag :: "nat \<Rightarrow> bytes \<Rightarrow> glob \<Rightarrow> (ret \<times> glob) option" where
  "check_port_flag flag name g = (case sys os_socket g of
      (None, g1) \<Rightarrow> Some (err_no_upward POFET_SOFTWARE_FAILED (SoftE POF_CREATE_SOCKET_FAILURE) g1)
    | (Some _, g1) \<Rightarrow>
        if 16 \<le> length (c_str name) then None
        else case sys (\<lambda>v. os_ifflags v (c_str name)) g1 of
            (None, g2) \<Rightarrow> Some (POF_ERROR, g2)
          | (Some flags, g2) \<Rightarrow> Some (if bit flags flag then POF_OK else POF_ERROR, g2))"

definition poflr_check_port_link :: "bytes \<Rightarrow> glob \<Rightarrow> (ret \<times> glob) option" where
  "poflr_check_port_link name g = check_port_flag 6 name g"

definition poflr_check_port_up :: "bytes \<Rightarrow> glob \<Rightarrow> (ret \<times> glob) option" where
  "poflr_check_port_up name g = check_port_flag 0 name g"

text \<open>4 is \<^verbatim>\<open>POFPS_LIVE\<close>, 1 is \<^verbatim>\<open>POFPS_LINK_DOWN\<close>.\<close>

definition pofStateCheck :: "bytes \<Rightarrow> glob \<Rightarrow> (u32 \<times> glob) option" where
  "pofStateCheck name g = do {
     (up, g1) \<leftarrow> poflr_check_port_up name g;
     (if up \<noteq> POF_OK then Some (1, g1)
      else do {
        (link, g2) \<leftarrow> poflr_check_port_link name g1;
        Some (if link = POF_OK then 4 else 1, g2)
      })
   }"

text \<open>The text of an address.\<close>

definition byte_dec :: "u8 \<Rightarrow> bytes" where
  "byte_dec b = (let n = unat b in
     (if 100 \<le> n then [of_nat (48 + n div 100)] else []) @ (if 10 \<le> n then [of_nat (48 + n div 10 mod 10)] else [])
     @ [of_nat (48 + n mod 10)])"

fun inet_ntoa :: "bytes \<Rightarrow> bytes" where
  "inet_ntoa [] = []"
| "inet_ntoa [b] = byte_dec b"
| "inet_ntoa (b # bs) = byte_dec b @ 46 # inet_ntoa bs"

text \<open>
  The routine fills the addresses and the index of a port. When the interface has no IP address
  the request still holds the hardware address, of which bytes 2 to 5 are then printed.
\<close>

definition poflr_get_hwaddr_index_ip_by_name ::
  "bytes \<Rightarrow> portInfo \<Rightarrow> glob \<Rightarrow> (ret \<times> portInfo \<times> glob) option" where
  "poflr_get_hwaddr_index_ip_by_name name port g = (
     let fail = (\<lambda>e p g. case err_no_upward POFET_SOFTWARE_FAILED (SoftE e) g of (r, g') \<Rightarrow> Some (r, p, g')) in
     case sys os_socket g of
       (None, g1) \<Rightarrow> fail POF_CREATE_SOCKET_FAILURE port g1
     | (Some _, g1) \<Rightarrow>
         let port1 = port\<lparr>pi_hwaddr := replicate 6 0\<rparr> in
         if 16 \<le> length (c_str name) then None
         else case sys (\<lambda>v. os_hwaddr v (c_str name)) g1 of
           (None, g2) \<Rightarrow> fail POF_GET_PORT_INFO_FAILURE port1 g2
         | (Some hw, g2) \<Rightarrow>
             let port2 = port1\<lparr>pi_hwaddr := take 6 hw\<rparr> in
             case sys (\<lambda>v. os_ifindex v (c_str name)) g2 of
               (None, g3) \<Rightarrow> fail POF_GET_PORT_INFO_FAILURE port2 g3
             | (Some i, g3) \<Rightarrow>
                 let port3 = port2\<lparr>pi_sysIndex := i\<rparr> in
                 case sys (\<lambda>v. os_ifaddr v (c_str name)) g3 of (a, g4) \<Rightarrow>
                   let ip = inet_ntoa (take 4 (case a of Some addr \<Rightarrow> addr | None \<Rightarrow> drop 2 hw)) in
                   Some (POF_OK, port3\<lparr>pi_ip := ip @ 0 # drop (length ip + 1) (pi_ip port3)\<rparr>, g4))"

section \<open>The port maps\<close>

definition map_portHashByName :: "bytes \<Rightarrow> u32" where
  "map_portHashByName name = hmap_hashForString name"

text \<open>
  A port that is not linked yet: its structure and the hashes of its two nodes.
\<close>

type_synonym new_port = "portInfo \<times> u32 \<times> u32"

definition map_portInsert :: "nat \<Rightarrow> new_port \<Rightarrow> pof_local_resource \<Rightarrow> pof_local_resource option" where
  "map_portInsert p port lr = (case port of (info, pofIndexHash, nameHash) \<Rightarrow> do {
     im \<leftarrow> portPofIndexMap lr;
     im' \<leftarrow> hmap_nodeInsert im \<lparr>hn_ptr = p, hn_hash = pofIndexHash, hn_obj = info\<rparr>;
     nm \<leftarrow> portNameMap lr;
     nm' \<leftarrow> hmap_nodeInsert nm \<lparr>hn_ptr = p, hn_hash = nameHash, hn_obj = ()\<rparr>;
     Some (lr\<lparr>portPofIndexMap := Some im', portNameMap := Some nm', portNum := portNum lr + 1\<rparr>)
   })"

definition zero_port :: portInfo where
  "zero_port = \<lparr>pi_name = replicate 64 0, pi_hwaddr = replicate 6 0, pi_ip = replicate 20 0, pi_sysIndex = 0,
     pi_pofIndex = 0, pi_pofState = 0, pi_slotID = 0, pi_of_enable = 0, pi_taskID = 0,
     pi_queue_fd = replicate 9 0, pi_num_queues = 0, pi_config = 0\<rparr>"

definition map_portCreate :: "glob \<Rightarrow> nat option \<times> glob" where
  "map_portCreate g = POF_MALLOC_SAFE g"

text \<open>The node of a structure in a map: the one at its address.\<close>

definition node_at :: "nat \<Rightarrow> 'a hmap \<Rightarrow> 'a hnode option" where
  "node_at p m = find (\<lambda>n. hn_ptr n = p) (hmap_nodes m)"

definition map_portDelete :: "portInfo hnode \<Rightarrow> pof_local_resource \<Rightarrow> pof_local_resource option" where
  "map_portDelete port lr = do {
     im \<leftarrow> portPofIndexMap lr;
     im' \<leftarrow> hmap_nodeDelete im port;
     nm \<leftarrow> portNameMap lr;
     nameNode \<leftarrow> node_at (hn_ptr port) nm;
     nm' \<leftarrow> hmap_nodeDelete nm nameNode;
     Some (lr\<lparr>portPofIndexMap := Some im', portNameMap := Some nm', portNum := portNum lr - 1\<rparr>)
   }"

definition poflr_get_port_with_name :: "bytes \<Rightarrow> pof_local_resource \<Rightarrow> portInfo hnode option option" where
  "poflr_get_port_with_name name lr = do {
     nm \<leftarrow> portNameMap lr;
     q \<leftarrow> hmap_nodeGetWithHash nm (map_portHashByName name);
     (case q of
        None \<Rightarrow> Some None
      | Some nameNode \<Rightarrow> do {
          im \<leftarrow> portPofIndexMap lr;
          port \<leftarrow> node_at (hn_ptr nameNode) im;
          Some (Some port)
        })
   }"

text \<open>Assignments through a pointer to a port.\<close>

definition port_write :: "nat \<Rightarrow> (portInfo \<Rightarrow> portInfo) \<Rightarrow> pof_local_resource \<Rightarrow> pof_local_resource" where
  "port_write p f lr = lr\<lparr>portPofIndexMap := map_option (hmap_write p f) (portPofIndexMap lr)\<rparr>"

section \<open>Reports\<close>

text \<open>
  The bytes of a \<^verbatim>\<open>struct pof_port_status\<close> in host order, as \<^verbatim>\<open>port_report_fill_msg\<close> fills it.
\<close>

definition port_report_fill_msg :: "portInfo \<Rightarrow> glob \<Rightarrow> bytes" where
  "port_report_fill_msg port g =
     le_bytes 2 (pi_slotID port) @ le_bytes 2 (ucast (pi_pofIndex port) :: u16) @ le_bytes 4 (g_poflr_dev_id g)
     @ take 6 (pi_hwaddr port) @ [0, 0] @ strncpy 64 (pi_name port)
     @ le_bytes 4 (0 :: u32) @ le_bytes 4 (pi_pofState port) @ le_bytes 4 (3 :: u32) @ le_bytes 4 (10 :: u32)
     @ le_bytes 4 (0xffffffff :: u32) @ le_bytes 4 (10 :: u32) @ replicate 8 0 @ [pi_of_enable port] @ replicate 7 0"

definition poflr_port_report :: "u8 \<Rightarrow> portInfo \<Rightarrow> glob \<Rightarrow> (ret \<times> glob) option" where
  "poflr_port_report reason port g = do {
     port_status \<leftarrow> run_conv (pof_HtoN_transfer_port_status 0) (reason # replicate 7 0 @ port_report_fill_msg port g);
     (r, g1) \<leftarrow> pofec_reply_msg POFT_PORT_STATUS (g_upward_xid g) 128 (Some port_status) g;
     (if r \<noteq> POF_OK then err_upward POFET_SOFTWARE_FAILED (SoftE POF_WRITE_MSG_QUEUE_FAILURE) g1
      else Some (POF_OK, g1))
   }"

section \<open>Creating and deleting ports\<close>

definition openPort :: "portInfo \<Rightarrow> glob \<Rightarrow> (portInfo \<times> glob) option" where
  "openPort port g = (case sys os_socket g of
      (None, _) \<Rightarrow> None
    | (Some sock, g1) \<Rightarrow> (case sys os_bind g1 of (bound, g2) \<Rightarrow>
        if \<not> bound then None
        else do {
          fds \<leftarrow> wr (pi_queue_fd port) 0 sock;
          Some (port\<lparr>pi_queue_fd := fds, pi_num_queues := 1\<rparr>, g2)
        }))"

primrec openQueueSockets :: "nat list \<Rightarrow> int list \<Rightarrow> glob \<Rightarrow> (int list \<times> glob) option" where
  "openQueueSockets [] fds g = Some (fds, g)"
| "openQueueSockets (i # is) fds g = (case sys os_socket g of
      (None, _) \<Rightarrow> None
    | (Some fd, g1) \<Rightarrow> do { fds' \<leftarrow> wr fds i fd; openQueueSockets is fds' g1 })"

definition portSlicing :: "u16 \<Rightarrow> portInfo \<Rightarrow> glob \<Rightarrow> (portInfo \<times> glob) option" where
  "portSlicing num_queues port g = do {
     let port1 = port\<lparr>pi_num_queues := pi_num_queues port + num_queues\<rparr>;
     (fds, g1) \<leftarrow> openQueueSockets [1..<unat (pi_num_queues port1)] (pi_queue_fd port1) g;
     Some (port1\<lparr>pi_queue_fd := fds\<rparr>, g1)
   }"

text \<open>
  The members that are set before a failure stay set; the hashes are then still 0.
\<close>

definition poflr_set_port :: "bytes \<Rightarrow> portInfo \<Rightarrow> pof_local_resource \<Rightarrow> glob \<Rightarrow> (ret \<times> new_port \<times> glob) option" where
  "poflr_set_port name port lr g = do {
     (r, port1, g1) \<leftarrow> poflr_get_hwaddr_index_ip_by_name name port g;
     (if r \<noteq> POF_OK then Some (r, (port1, 0, 0), g1)
      else do {
        let i = portIndex g1;
        (st, g2) \<leftarrow> pofStateCheck name g1;
        (if 64 \<le> length (c_str name) then None
         else do {
           let port2 = port1\<lparr>pi_pofIndex := i, pi_pofState := st,
             pi_name := c_str name @ 0 # drop (length (c_str name) + 1) (pi_name port1),
             pi_of_enable := 0, pi_slotID := slotID lr\<rparr>;
           (port3, g3) \<leftarrow> openPort port2 (g2\<lparr>portIndex := i + 1\<rparr>);
           (port4, g4) \<leftarrow> portSlicing 1 port3 g3;
           Some (POF_OK, (port4, map_portHashByID i, map_portHashByName name), g4)
         })
      })
   }"

definition pofdp_create_port_listen_task :: "glob \<Rightarrow> ret \<times> u64 \<times> glob" where
  "pofdp_create_port_listen_task g = pofbf_task_create g"

text \<open>
  Allocate a port, fill it and link it. The return value of \<^verbatim>\<open>poflr_set_port\<close> is not looked at.
\<close>

definition port_new ::
  "bytes \<Rightarrow> pof_local_resource \<Rightarrow> glob \<Rightarrow> (ret \<times> (nat \<times> portInfo) option \<times> pof_local_resource \<times> glob) option" where
  "port_new name lr g = do {
     q \<leftarrow> poflr_get_port_with_name name lr;
     (if q \<noteq> None then Some (POF_ERROR, None, lr, g)
      else do {
        (r, g1) \<leftarrow> checkPortNameInSys name g;
        (if r \<noteq> POF_OK then Some (POF_ERROR, None, lr, g1)
         else case map_portCreate g1 of
           (None, g2) \<Rightarrow> (case err_no_upward POFET_SOFTWARE_FAILED (SoftE POF_ALLOCATE_RESOURCE_FAILURE) g2 of
              (r, g3) \<Rightarrow> Some (r, None, lr, g3))
         | (Some p, g2) \<Rightarrow> do {
             (_, port, g3) \<leftarrow> poflr_set_port name zero_port lr g2;
             lr1 \<leftarrow> map_portInsert p port lr;
             Some (POF_OK, Some (p, fst port), lr1, g3)
           })
      })
   }"

definition poflr_add_port :: "bytes \<Rightarrow> pof_local_resource \<Rightarrow> glob \<Rightarrow> (ret \<times> pof_local_resource \<times> glob) option" where
  "poflr_add_port name lr g = do {
     (r, q, lr1, g1) \<leftarrow> port_new name lr g;
     (case q of
        None \<Rightarrow> Some (r, lr1, g1)
      | Some (p, port) \<Rightarrow> do {
          (r2, g2) \<leftarrow> poflr_port_report 0 port g1;
          (if r2 \<noteq> POF_OK then Some (r2, lr1, g2)
           else case pofdp_create_port_listen_task g2 of (r3, tid, g3) \<Rightarrow>
             let lr2 = port_write p (\<lambda>i. i\<lparr>pi_taskID := tid\<rparr>) lr1 in
             if r3 \<noteq> POF_OK then
               (case err_no_upward POFET_SOFTWARE_FAILED (SoftE POF_TASK_CREATE_FAIL) g3 of (r, g4) \<Rightarrow> Some (r, lr2, g4))
             else Some (POF_OK, lr2, g3))
        })
   }"

definition poflr_add_port_no_report_no_task ::
  "bytes \<Rightarrow> pof_local_resource \<Rightarrow> glob \<Rightarrow> (ret \<times> pof_local_resource \<times> glob) option" where
  "poflr_add_port_no_report_no_task name lr g = do {
     (r, _, lr1, g1) \<leftarrow> port_new name lr g;
     Some (r, lr1, g1)
   }"

definition poflr_del_port :: "bytes \<Rightarrow> pof_local_resource \<Rightarrow> glob \<Rightarrow> (ret \<times> pof_local_resource \<times> glob) option" where
  "poflr_del_port ethName lr g = do {
     q \<leftarrow> poflr_get_port_with_name ethName lr;
     (case q of
        None \<Rightarrow> Some (POF_ERROR, lr, g)
      | Some port \<Rightarrow> do {
          (r, g1) \<leftarrow> poflr_port_report 1 (hn_obj port) g;
          (if r \<noteq> POF_OK then Some (r, lr, g1)
           else case pofbf_task_delete (pi_taskID (hn_obj port)) g1 of (r2, tid, g2) \<Rightarrow>
             if r2 \<noteq> POF_OK then Some (r2, lr, g2)
             else do {
               lr1 \<leftarrow> map_portDelete port lr;
               Some (POF_OK, lr1, g2)
             })
        })
   }"

section \<open>The list of port names\<close>

definition portNameInsert :: "bytes \<Rightarrow> u16 \<Rightarrow> glob \<Rightarrow> ret \<times> glob" where
  "portNameInsert name slot g = (case POF_MALLOC_SAFE g of
      (None, g1) \<Rightarrow> (POF_ERROR, g1)
    | (Some _, g1) \<Rightarrow> (POF_OK, g1\<lparr>portNameList := portNameList g1 @ [(strncpy 64 name, slot)]\<rparr>))"

definition poflr_add_port_only_name :: "bytes \<Rightarrow> u16 \<Rightarrow> glob \<Rightarrow> (ret \<times> glob) option" where
  "poflr_add_port_only_name name slot g = do {
     (r, g1) \<leftarrow> checkPortNameInSys name g;
     Some (if r \<noteq> POF_OK then (POF_ERROR, g1) else (POF_OK, snd (portNameInsert name slot g1)))
   }"

text \<open>
  Every interface with a packet-level address but \<^verbatim>\<open>lo\<close>, for slot 0. When \<^verbatim>\<open>getifaddrs\<close> fails
  the list it should have made is an uninitialised pointer.
\<close>

definition poflr_get_port_num_name_by_getifaddrs :: "glob \<Rightarrow> (ret \<times> glob) option" where
  "poflr_get_port_num_name_by_getifaddrs g = (case sys os_ifaddrs g of
      (None, _) \<Rightarrow> None
    | (Some ifs, g1) \<Rightarrow>
        Some (POF_OK, fold (\<lambda>(name, packet) g. if packet \<and> c_str name \<noteq> [108, 111] then snd (portNameInsert name 0 g) else g) ifs g1))"

primrec add_ports :: "(bytes \<times> u16) list \<Rightarrow> pof_local_resource \<Rightarrow> glob \<Rightarrow> (ret \<times> pof_local_resource \<times> glob) option" where
  "add_ports [] lr g = Some (POF_OK, lr, g)"
| "add_ports (pn # pns) lr g = (
     if snd pn \<noteq> slotID lr then add_ports pns lr g
     else do {
       (r, lr1, g1) \<leftarrow> poflr_add_port_no_report_no_task (fst pn) lr g;
       (if r \<noteq> POF_OK then Some (r, lr1, g1) else add_ports pns lr1 g1)
     })"

text \<open>Bit 0 of the flag is \<^verbatim>\<open>POFLRPF_FROM_CUSTOM\<close>.\<close>

definition poflr_init_port :: "pof_local_resource \<Rightarrow> glob \<Rightarrow> (ret \<times> pof_local_resource \<times> glob) option" where
  "poflr_init_port lr g = (
     case hmap_create (ucast (portNumMax lr)) g of (im, g1) \<Rightarrow>
     case hmap_create (ucast (portNumMax lr)) g1 of (nm, g2) \<Rightarrow>
       let lr1 = lr\<lparr>portPofIndexMap := im, portNameMap := nm\<rparr> in
       if im = None \<or> nm = None then
         (case err_no_upward POFET_SOFTWARE_FAILED (SoftE POF_ALLOCATE_RESOURCE_FAILURE) g2 of (r, g3) \<Rightarrow> Some (r, lr1, g3))
       else do {
         (r, g3) \<leftarrow> (if \<not> bit (portFlag lr1) 0 \<and> slotID lr1 = 0 then poflr_get_port_num_name_by_getifaddrs g2
                     else Some (POF_OK, g2));
         (if r \<noteq> POF_OK then Some (r, lr1, g3) else add_ports (portNameList g3) lr1 g3)
       })"

section \<open>Port modification\<close>

text \<open>The routine takes the low byte of the port id it is given.\<close>

definition poflr_port_openflow_enable ::
  "u32 \<Rightarrow> u8 \<Rightarrow> pof_local_resource \<Rightarrow> glob \<Rightarrow> (ret \<times> pof_local_resource \<times> glob) option" where
  "poflr_port_openflow_enable port_id flag lr g = do {
     q \<leftarrow> poflr_get_port_with_pofindex (ucast port_id) lr;
     (case q of
        None \<Rightarrow> with_lr lr (err_upward POFET_PORT_MOD_FAILED (PortE POFPMFC_BAD_PORT_ID) g)
      | Some port \<Rightarrow> Some (POF_OK, port_write (hn_ptr port) (\<lambda>i. i\<lparr>pi_of_enable := flag\<rparr>) lr, g))
   }"

definition poflr_disable_all_port :: "pof_local_resource \<Rightarrow> (ret \<times> pof_local_resource) option" where
  "poflr_disable_all_port lr = do {
     (_, lr') \<leftarrow> hmap_struct_traverse portPofIndexMap
       (\<lambda>port l. Some (None :: ret option, port_write (hn_ptr port) (\<lambda>i. i\<lparr>pi_of_enable := 0\<rparr>) l)) lr;
     Some (POF_OK, lr')
   }"

text \<open>The index of the first port with the address, or \<^verbatim>\<open>0xffff\<close>; the hardware address is an output.\<close>

definition poflr_get_hwaddr_by_ipaddr :: "bytes \<Rightarrow> bytes \<Rightarrow> pof_local_resource \<Rightarrow> (u32 \<times> bytes) option" where
  "poflr_get_hwaddr_by_ipaddr hwaddr ipaddr_str lr = do {
     (r, _) \<leftarrow> hmap_struct_traverse (\<lambda>_. portPofIndexMap lr)
       (\<lambda>port s. Some (if c_str (take 20 ipaddr_str) = c_str (take 20 (pi_ip (hn_obj port))) then Some (hn_obj port) else None, s)) ();
     Some (case r of None \<Rightarrow> (0xffff, hwaddr) | Some port \<Rightarrow> (ucast (pi_pofIndex port), take 6 (pi_hwaddr port)))
   }"

section \<open>Detection of changes\<close>

definition updatePorts :: "portInfo \<Rightarrow> portInfo \<Rightarrow> portInfo" where
  "updatePorts port portNew = port\<lparr>pi_hwaddr := pi_hwaddr portNew, pi_sysIndex := pi_sysIndex portNew,
     pi_pofState := pi_pofState portNew\<rparr>"

definition comparePorts :: "portInfo \<Rightarrow> portInfo \<Rightarrow> bool" where
  "comparePorts p1 p2 \<longleftrightarrow> pi_hwaddr p1 = pi_hwaddr p2 \<and> pi_sysIndex p1 = pi_sysIndex p2 \<and> pi_pofState p1 = pi_pofState p2"

text \<open>
  What the loop of the detection does with one port: delete it, or read its present state and
  report a change. The scratch structure \<^verbatim>\<open>tmp\<close> is only read behind a success, when the members
  that are read have all been written.
\<close>

definition port_detect_one ::
  "portInfo hnode \<Rightarrow> pof_local_resource \<times> glob \<Rightarrow> (ret option \<times> pof_local_resource \<times> glob) option" where
  "port_detect_one node s = (case s of (lr, g) \<Rightarrow> let port = hn_obj node in do {
     (r, g1) \<leftarrow> checkPortNameInSys (pi_name port) g;
     (if r \<noteq> POF_OK then do {
        (_, lr1, g2) \<leftarrow> poflr_del_port (pi_name port) lr g1;
        Some (None, lr1, g2)
      }
      else do {
        (r2, tmp, g2) \<leftarrow> poflr_get_hwaddr_index_ip_by_name (pi_name port) port g1;
        (if r2 \<noteq> POF_OK then Some (Some r2, lr, g2)
         else do {
           (st, g3) \<leftarrow> pofStateCheck (pi_name port) g2;
           let new = tmp\<lparr>pi_pofState := st\<rparr>;
           (if comparePorts port new then Some (None, lr, g3)
            else do {
              let port' = updatePorts port new;
              (r4, g4) \<leftarrow> poflr_port_report 2 port' g3;
              Some (if r4 \<noteq> POF_OK then Some r4 else None, port_write (hn_ptr node) (\<lambda>_. port') lr, g4)
            })
         })
      })
   })"

definition poflr_port_detect_old :: "pof_local_resource \<Rightarrow> glob \<Rightarrow> (ret \<times> pof_local_resource \<times> glob) option" where
  "poflr_port_detect_old lr g = do {
     (r, lr', g') \<leftarrow> hmap_struct_traverse (portPofIndexMap \<circ> fst) port_detect_one (lr, g);
     Some (case r of Some v \<Rightarrow> v | None \<Rightarrow> POF_OK, lr', g')
   }"

primrec add_new_ports :: "(bytes \<times> u16) list \<Rightarrow> pof_local_resource \<Rightarrow> glob \<Rightarrow> (pof_local_resource \<times> glob) option" where
  "add_new_ports [] lr g = Some (lr, g)"
| "add_new_ports (pn # pns) lr g = do {
     q \<leftarrow> poflr_get_port_with_name (fst pn) lr;
     (case q of
        Some _ \<Rightarrow> add_new_ports pns lr g
      | None \<Rightarrow> do {
          (_, lr1, g1) \<leftarrow> poflr_add_port (fst pn) lr g;
          add_new_ports pns lr1 g1
        })
   }"

definition poflr_port_detect_new_add :: "pof_local_resource \<Rightarrow> glob \<Rightarrow> (ret \<times> pof_local_resource \<times> glob) option" where
  "poflr_port_detect_new_add lr g = (
     if \<not> bit (portFlag lr) 0 \<and> slotID lr = 0 then do {
       (r, g1) \<leftarrow> poflr_get_port_num_name_by_getifaddrs (g\<lparr>portNameList := []\<rparr>);
       (if r \<noteq> POF_OK then Some (r, lr, g1)
        else do {
          (lr1, g2) \<leftarrow> add_new_ports (portNameList g1) lr g1;
          Some (POF_OK, lr1, g2)
        })
     }
     else Some (POF_OK, lr, g))"

definition poflr_port_detect_main :: "pof_local_resource \<Rightarrow> glob \<Rightarrow> (ret \<times> pof_local_resource \<times> glob) option" where
  "poflr_port_detect_main lr g = do {
     (r, lr1, g1) \<leftarrow> poflr_port_detect_old lr g;
     (if r \<noteq> POF_OK then Some (r, lr1, g1)
      else do {
        (r2, lr2, g2) \<leftarrow> poflr_port_detect_new_add lr1 g1;
        (if r2 \<noteq> POF_OK then Some (r2, lr2, g2) else Some (POF_OK, lr2, g2))
      })
   }"

definition port_task_delete ::
  "portInfo hnode \<Rightarrow> pof_local_resource \<times> glob \<Rightarrow> (ret option \<times> pof_local_resource \<times> glob) option" where
  "port_task_delete node s = (case s of (lr, g) \<Rightarrow>
     if pi_taskID (hn_obj node) = 0 then Some (None, lr, g)
     else case pofbf_task_delete (pi_taskID (hn_obj node)) g of (r, tid, g1) \<Rightarrow>
       Some (if r \<noteq> POF_OK then Some r else None, port_write (hn_ptr node) (\<lambda>i. i\<lparr>pi_taskID := tid\<rparr>) lr, g1))"

definition poflr_ports_task_delete :: "pof_local_resource \<Rightarrow> glob \<Rightarrow> (ret \<times> pof_local_resource \<times> glob) option" where
  "poflr_ports_task_delete lr g = do {
     (r, lr', g') \<leftarrow> hmap_struct_traverse (portPofIndexMap \<circ> fst) port_task_delete (lr, g);
     Some (case r of Some v \<Rightarrow> v | None \<Rightarrow> POF_OK, lr', g')
   }"

section \<open>Every slot\<close>

text \<open>
  A loop over the slots of the datapath. The routine it calls changes the slot it is given; the
  change is written back to the map of slots.
\<close>

definition slot_write :: "nat \<Rightarrow> pof_local_resource \<Rightarrow> pof_datapath \<Rightarrow> pof_datapath" where
  "slot_write p lr dp = dp\<lparr>slotMap := map_option (hmap_write p (\<lambda>_. lr)) (slotMap dp)\<rparr>"

definition for_each_slot ::
  "(pof_local_resource \<Rightarrow> glob \<Rightarrow> (ret \<times> pof_local_resource \<times> glob) option) \<Rightarrow> pof_datapath \<Rightarrow> glob
    \<Rightarrow> (ret \<times> pof_datapath \<times> glob) option" where
  "for_each_slot f dp g = do {
     (r, dp', g') \<leftarrow> hmap_struct_traverse (slotMap \<circ> fst)
       (\<lambda>n (dp, g). do {
          (r, lr, g1) \<leftarrow> f (hn_obj n) g;
          Some (if r \<noteq> POF_OK then Some r else None, slot_write (hn_ptr n) lr dp, g1)
        }) (dp, g);
     Some (case r of Some v \<Rightarrow> v | None \<Rightarrow> POF_OK, dp', g')
   }"

text \<open>One round of the detection task, which ends the process when a slot fails.\<close>

definition poflr_port_detect_task_step :: "pof_datapath \<Rightarrow> glob \<Rightarrow> (pof_datapath \<times> glob) option" where
  "poflr_port_detect_task_step dp g = do {
     (r, dp', g') \<leftarrow> for_each_slot poflr_port_detect_main dp g;
     (if r \<noteq> POF_OK then None else Some (dp', g'))
   }"

section \<open>Start of the datapath\<close>

definition start_listen ::
  "portInfo hnode \<Rightarrow> pof_local_resource \<times> glob \<Rightarrow> (ret option \<times> pof_local_resource \<times> glob) option" where
  "start_listen port s = (case s of (lr, g) \<Rightarrow>
     if pi_taskID (hn_obj port) \<noteq> 0 then Some (None, lr, g)
     else case pofdp_create_port_listen_task g of (r, tid, g1) \<Rightarrow>
       let lr1 = port_write (hn_ptr port) (\<lambda>i. i\<lparr>pi_taskID := tid\<rparr>) lr in
       if r \<noteq> POF_OK then
         (case err_no_upward POFET_SOFTWARE_FAILED (SoftE POF_TASK_CREATE_FAIL) g1 of (r', g2) \<Rightarrow> Some (Some r', lr1, g2))
       else Some (None, lr1, g1))"

definition pof_datapath_init :: "pof_datapath \<Rightarrow> glob \<Rightarrow> (ret \<times> pof_datapath \<times> glob) option" where
  "pof_datapath_init dp g = do {
     (r, dp1, g1) \<leftarrow> for_each_slot (\<lambda>lr g. do {
         (r, lr', g') \<leftarrow> hmap_struct_traverse (portPofIndexMap \<circ> fst) start_listen (lr, g);
         Some (case r of Some v \<Rightarrow> v | None \<Rightarrow> POF_OK, lr', g')
       }) dp g;
     (if r \<noteq> POF_OK then Some (r, dp1, g1)
      else case pofbf_task_create g1 of (r2, _, g2) \<Rightarrow> Some (r2, dp1, g2))
   }"

end
