(* ===== verification/Pof_Port_Table.thy ===== *)
theory Pof_Port_Table
  imports Pof_Port
begin

text \<open>
  The ports of a slot as a finite map from port indices, kept consistently in two hash maps:
  adding a port the system knows, and deleting it again.
\<close>

section \<open>The invariant of the port maps\<close>

abbreviation port_key :: "portInfo \<Rightarrow> u32" where
  "port_key i \<equiv> ucast (pi_pofIndex i)"

definition port_ok :: "pof_local_resource \<Rightarrow> bool" where
  "port_ok lr \<longleftrightarrow> res_ok port_key (portPofIndexMap lr) (portNum lr)
     \<and> (case portNameMap lr of None \<Rightarrow> False | Some nm \<Rightarrow> hmap_ok nm \<and> hmap_ptrs nm = res_ptrs (portPofIndexMap lr))"

abbreviation ports :: "pof_local_resource \<Rightarrow> u32 \<Rightarrow> portInfo option" where
  "ports lr \<equiv> res_abs (portPofIndexMap lr)"

text \<open>The addresses of the ports whose name has a hash, latest first.\<close>

definition named :: "pof_local_resource \<Rightarrow> u32 \<Rightarrow> nat list" where
  "named lr h = (case portNameMap lr of None \<Rightarrow> [] | Some nm \<Rightarrow> map hn_ptr (hmap_chain nm h))"

definition but_ports :: "pof_local_resource \<Rightarrow> pof_local_resource" where
  "but_ports lr = lr\<lparr>portPofIndexMap := None, portNameMap := None, portNum := 0\<rparr>"

lemma port_okE:
  assumes "port_ok lr"
  obtains im nm where "portPofIndexMap lr = Some im" "portNameMap lr = Some nm" "tbl_ok port_key im" "hmap_ok im"
    "portNum lr = of_nat (length (hmap_nodes im))" "hmap_ok nm" "hmap_ptrs nm = hmap_ptrs im"
  using assms by (auto simp: port_ok_def res_ok_def res_ptrs_def tbl_ok_def split: option.splits)

lemma find_distinct: "distinct (map f xs) \<Longrightarrow> x \<in> set xs \<Longrightarrow> find (\<lambda>y. f y = f x) xs = Some x"
  by (induction xs) (auto simp: image_iff)

lemma node_at_ok: "hmap_ok m \<Longrightarrow> n \<in> set (hmap_nodes m) \<Longrightarrow> node_at (hn_ptr n) m = Some n"
  by (simp add: node_at_def hmap_ok_def find_distinct)

text \<open>A lookup by name finds the latest port with the hash of the name.\<close>

lemma get_port_with_name_ok:
  assumes "port_ok lr"
  shows "named lr (map_portHashByName name) = [] \<and> poflr_get_port_with_name name lr = Some None \<or>
    (\<exists>n ps im. named lr (map_portHashByName name) = hn_ptr n # ps \<and> poflr_get_port_with_name name lr = Some (Some n)
       \<and> portPofIndexMap lr = Some im \<and> n \<in> set (hmap_nodes im))"
proof (rule port_okE [OF assms])
  fix im nm assume m: "portPofIndexMap lr = Some im" "portNameMap lr = Some nm" "hmap_ok im" "hmap_ok nm"
    "hmap_ptrs nm = hmap_ptrs im"
  show ?thesis
  proof (cases "hmap_chain nm (map_portHashByName name)")
    case Nil
    then show ?thesis using m hm.get_chain [OF m(4)] by (simp add: named_def poflr_get_port_with_name_def)
  next
    case (Cons x xs)
    then have "x \<in> set (hmap_chain nm (map_portHashByName name))" by simp
    then have "hn_ptr x \<in> hmap_ptrs im" using hm.chain_addr [OF m(4)] m(5) by blast
    then obtain n where n: "n \<in> set (hmap_nodes im)" "hn_ptr n = hn_ptr x" by (auto simp: hmap_ptrs_def)
    then have "poflr_get_port_with_name name lr = Some (Some n)"
      using m Cons hm.get_chain [OF m(4)] node_at_ok [OF m(3) n(1)] by (simp add: poflr_get_port_with_name_def)
    then show ?thesis using Cons n m by (intro disjI2 exI [of _ n] exI) (auto simp: named_def)
  qed
qed

lemma portInsert_ok:
  assumes "port_ok lr" "p \<notin> res_ptrs (portPofIndexMap lr)" "ports lr (port_key info) = None"
  shows "\<exists>lr'. map_portInsert p (info, port_key info, h) lr = Some lr' \<and> port_ok lr'
    \<and> ports lr' = (ports lr)(port_key info \<mapsto> info) \<and> res_ptrs (portPofIndexMap lr') = insert p (res_ptrs (portPofIndexMap lr))
    \<and> named lr' = (named lr)(h := p # named lr h) \<and> portNum lr' = portNum lr + 1 \<and> but_ports lr' = but_ports lr
    \<and> (\<exists>im. portPofIndexMap lr' = Some im \<and> \<lparr>hn_ptr = p, hn_hash = port_key info, hn_obj = info\<rparr> \<in> set (hmap_nodes im))"
proof (rule port_okE [OF assms(1)])
  fix im nm assume m: "portPofIndexMap lr = Some im" "portNameMap lr = Some nm" "tbl_ok port_key im" "hmap_ok im"
    "portNum lr = of_nat (length (hmap_nodes im))" "hmap_ok nm" "hmap_ptrs nm = hmap_ptrs im"
  let ?n = "\<lparr>hn_ptr = p, hn_hash = port_key info, hn_obj = info\<rparr>"
  let ?x = "\<lparr>hn_ptr = p, hn_hash = h, hn_obj = ()\<rparr>"
  have p: "p \<notin> hmap_ptrs im" using assms(2) m(1) by (simp add: res_ptrs_def)
  obtain im' where im': "hmap_nodeInsert im ?n = Some im'" "tbl_ok port_key im'"
    "tbl_abs im' = (tbl_abs im)(port_key info \<mapsto> info)" "hmap_ptrs im' = insert p (hmap_ptrs im)"
    "length (hmap_nodes im') = length (hmap_nodes im) + 1"
    using tbl_insert [OF m(3), of ?n] p assms(3) m(1) by (auto simp: res_abs_def)
  obtain im2 where "hmap_nodeInsert im ?n = Some im2" "\<And>k. hmap_chain im2 k = (if k = port_key info then ?n # hmap_chain im k else hmap_chain im k)"
    using hm.ins_ok [OF m(4), of ?n] p by auto
  then have "?n \<in> set (hmap_chain im' (port_key info))" using im'(1) by simp
  then have node: "?n \<in> set (hmap_nodes im')" by (simp add: hmap_chain_def)
  obtain nm' where nm': "hmap_nodeInsert nm ?x = Some nm'" "hmap_ok nm'" "hmap_ptrs nm' = insert p (hmap_ptrs nm)"
    "\<And>k. hmap_chain nm' k = (if k = h then ?x # hmap_chain nm k else hmap_chain nm k)"
    using hm.ins_ok [OF m(6), of ?x] p m(7) by auto
  let ?lr = "lr\<lparr>portPofIndexMap := Some im', portNameMap := Some nm', portNum := portNum lr + 1\<rparr>"
  have "map_portInsert p (info, port_key info, h) lr = Some ?lr"
    using m im'(1) nm'(1) by (simp add: map_portInsert_def)
  moreover have "port_ok ?lr" using im' nm' m by (simp add: port_ok_def res_ok_def res_ptrs_def)
  moreover have "named ?lr = (named lr)(h := p # named lr h)" using nm'(4) m(2) by (auto simp: named_def fun_eq_iff)
  moreover have "ports ?lr = (ports lr)(port_key info \<mapsto> info)" using im'(3) m(1) by (simp add: res_abs_def fun_eq_iff)
  ultimately show ?thesis using im'(4) m(1) node by (simp add: res_ptrs_def but_ports_def)
qed

lemma portDelete_ok:
  assumes "port_ok lr" "portPofIndexMap lr = Some im" "n \<in> set (hmap_nodes im)"
  shows "\<exists>lr'. map_portDelete n lr = Some lr' \<and> port_ok lr' \<and> ports lr' = (ports lr)(hn_hash n := None)
    \<and> res_ptrs (portPofIndexMap lr') = res_ptrs (portPofIndexMap lr) - {hn_ptr n}
    \<and> named lr' = (\<lambda>h. filter (\<lambda>q. q \<noteq> hn_ptr n) (named lr h)) \<and> portNum lr' = portNum lr - 1 \<and> but_ports lr' = but_ports lr"
proof (rule port_okE [OF assms(1)])
  fix im0 nm assume m0: "portPofIndexMap lr = Some im0" "portNameMap lr = Some nm" "tbl_ok port_key im0" "hmap_ok im0"
    "portNum lr = of_nat (length (hmap_nodes im0))" "hmap_ok nm" "hmap_ptrs nm = hmap_ptrs im0"
  have m: "tbl_ok port_key im" "portNum lr = of_nat (length (hmap_nodes im))" "hmap_ptrs nm = hmap_ptrs im"
    using m0 assms(2) by auto
  obtain im' where im': "hmap_nodeDelete im n = Some im'" "tbl_ok port_key im'"
    "tbl_abs im' = (tbl_abs im)(hn_hash n := None)" "hmap_ptrs im' = hmap_ptrs im - {hn_ptr n}"
    "length (hmap_nodes im) = length (hmap_nodes im') + 1"
    using tbl_delete [OF m(1) assms(3)] by blast
  have "hn_ptr n \<in> hmap_ptrs nm" using assms(3) m(3) by (auto simp: hmap_ptrs_def)
  then obtain x where x: "x \<in> set (hmap_nodes nm)" "hn_ptr x = hn_ptr n" by (auto simp: hmap_ptrs_def)
  then have "x \<in> set (hmap_chain nm (hn_hash x))" by (simp add: hmap_chain_def)
  then obtain nm' where nm': "hmap_nodeDelete nm x = Some nm'" "hmap_ok nm'" "hmap_ptrs nm' = hmap_ptrs nm - {hn_ptr n}"
    "\<And>h. hmap_chain nm' h = filter (\<lambda>y. hn_ptr y \<noteq> hn_ptr n) (hmap_chain nm h)"
    using hm.del_ok [OF m0(6), of x] unfolding x(2) by blast
  let ?lr = "lr\<lparr>portPofIndexMap := Some im', portNameMap := Some nm', portNum := portNum lr - 1\<rparr>"
  have "map_portDelete n lr = Some ?lr"
    using assms(2) m0(2) im'(1) nm'(1) node_at_ok [OF m0(6) x(1)] x(2) by (simp add: map_portDelete_def)
  moreover have "port_ok ?lr" using im' nm' m by (simp add: port_ok_def res_ok_def res_ptrs_def)
  moreover have "named ?lr = (\<lambda>h. filter (\<lambda>q. q \<noteq> hn_ptr n) (named lr h))"
    using nm'(4) m0(2) by (simp add: named_def fun_eq_iff filter_map comp_def)
  moreover have "ports ?lr = (ports lr)(hn_hash n := None)" using im'(3) assms(2) by (simp add: res_abs_def fun_eq_iff)
  ultimately show ?thesis using im'(4) assms(2) by (simp add: res_ptrs_def but_ports_def)
qed

lemma port_write_ok:
  assumes "port_ok lr" "portPofIndexMap lr = Some im" "n \<in> set (hmap_nodes im)" "pi_pofIndex (f (hn_obj n)) = pi_pofIndex (hn_obj n)"
  shows "port_ok (port_write (hn_ptr n) f lr) \<and> ports (port_write (hn_ptr n) f lr) = (ports lr)(hn_hash n \<mapsto> f (hn_obj n))
    \<and> res_ptrs (portPofIndexMap (port_write (hn_ptr n) f lr)) = res_ptrs (portPofIndexMap lr)
    \<and> named (port_write (hn_ptr n) f lr) = named lr \<and> portNum (port_write (hn_ptr n) f lr) = portNum lr
    \<and> but_ports (port_write (hn_ptr n) f lr) = but_ports lr"
proof (rule port_okE [OF assms(1)])
  fix im0 nm assume m0: "portPofIndexMap lr = Some im0" "portNameMap lr = Some nm" "tbl_ok port_key im0"
    "portNum lr = of_nat (length (hmap_nodes im0))" "hmap_ok nm" "hmap_ptrs nm = hmap_ptrs im0"
  then have m: "tbl_ok port_key im" "portNum lr = of_nat (length (hmap_nodes im))" "hmap_ptrs nm = hmap_ptrs im"
    using assms(2) by auto
  show ?thesis
    using tbl_write [OF m(1) assms(3), of f] assms(2,4) m m0(2,5)
    by (auto simp: port_ok_def port_write_def res_ok_def res_abs_def res_ptrs_def named_def but_ports_def
        hmap_nodes_write fun_eq_iff)
qed

section \<open>Filling a port\<close>

text \<open>
  The system, as long as it does not change, has an interface of the name and can run a task for it.
\<close>

definition os_knows :: "os_view \<Rightarrow> bytes \<Rightarrow> bool" where
  "os_knows v name \<longleftrightarrow> os_socket v \<noteq> None \<and> os_bind v \<and> os_ifindex v (c_str name) \<noteq> None
     \<and> (case os_hwaddr v (c_str name) of None \<Rightarrow> False | Some hw \<Rightarrow> length hw = 6)
     \<and> (case os_thread v of None \<Rightarrow> False | Some tid \<Rightarrow> tid \<noteq> 0 \<and> os_cancel v tid) \<and> length (c_str name) < 16"

text \<open>A call leaves a trace in the clock only.\<close>

definition later :: "glob \<Rightarrow> glob \<Rightarrow> bool" where
  "later g g' \<longleftrightarrow> (\<exists>n. g' = g\<lparr>os_n := n\<rparr>)"

lemma later_sel:
  assumes "later g g'"
  shows "os g' = os g" "malloc_n g' = malloc_n g" "portIndex g' = portIndex g" "send_queue g' = send_queue g"
    "chan_ok g' = chan_ok g" "sending g' = sending g"
  using assms by (auto simp: later_def chan_ok_def sending_def)

lemma later_upd [simp]: "later g (g\<lparr>os_n := n\<rparr>)"
  by (auto simp: later_def)

lemma later_trans: "later g g1 \<Longrightarrow> later g1 g2 \<Longrightarrow> later g g2"
  by (auto simp: later_def)

lemma sys_const: "\<forall>t. os g t = v \<Longrightarrow> sys f g = (f v, g\<lparr>os_n := os_n g + 1\<rparr>)"
  by (simp add: sys_def)

lemma checkPortName_ok:
  assumes "\<forall>t. os g t = v" "os_knows v name"
  shows "\<exists>g'. checkPortNameInSys name g = Some (POF_OK, g') \<and> later g g'"
  using assms by (auto simp: checkPortNameInSys_def sys_const os_knows_def later_def)

lemma get_info_ok:
  assumes "\<forall>t. os g t = v" "os_knows v name"
  shows "\<exists>hw i ip g'. poflr_get_hwaddr_index_ip_by_name name port g = Some (POF_OK,
      port\<lparr>pi_hwaddr := hw, pi_sysIndex := i, pi_ip := ip\<rparr>, g') \<and> later g g'
    \<and> os_hwaddr v (c_str name) = Some hw \<and> os_ifindex v (c_str name) = Some i \<and> length hw = 6"
  using assms
  by (auto simp: poflr_get_hwaddr_index_ip_by_name_def sys_const os_knows_def later_def Let_def split: option.splits)

lemma check_flag_ok:
  assumes "\<forall>t. os g t = v" "os_knows v name"
  shows "\<exists>r g'. check_port_flag i name g = Some (r, g') \<and> later g g'"
proof -
  obtain fd where "os_socket v = Some fd" "length (c_str name) < 16" using assms(2) by (auto simp: os_knows_def)
  then show ?thesis
    using assms(1) by (cases "os_ifflags v (c_str name)") (simp_all add: check_port_flag_def sys_def)
qed

lemma state_check_ok:
  assumes "\<forall>t. os g t = v" "os_knows v name"
  shows "\<exists>st g'. pofStateCheck name g = Some (st, g') \<and> later g g'"
proof -
  obtain r g1 where 1: "check_port_flag 0 name g = Some (r, g1)" "later g g1" using check_flag_ok [OF assms] by blast
  have "\<forall>t. os g1 t = v" using assms(1) later_sel(1) [OF 1(2)] by simp
  then obtain r2 g2 where 2: "check_port_flag 6 name g1 = Some (r2, g2)" "later g1 g2"
    using check_flag_ok [of g1 v name 6] assms(2) by blast
  show ?thesis
    using 1 2 later_trans [OF 1(2) 2(2)]
    by (cases "r = POF_OK") (simp_all add: pofStateCheck_def poflr_check_port_up_def poflr_check_port_link_def)
qed

lemma openPort_ok:
  assumes "\<forall>t. os g t = v" "os_socket v = Some fd" "os_bind v" "0 < length (pi_queue_fd port)"
  shows "openPort port g = Some (port\<lparr>pi_queue_fd := (pi_queue_fd port)[0 := fd], pi_num_queues := 1\<rparr>, g\<lparr>os_n := os_n g + 2\<rparr>)"
  using assms by (simp add: openPort_def sys_def wr_def)

lemma portSlicing_ok:
  assumes "\<forall>t. os g t = v" "os_socket v = Some fd" "1 < length (pi_queue_fd port)" "pi_num_queues port = 1"
  shows "portSlicing 1 port g = Some (port\<lparr>pi_queue_fd := (pi_queue_fd port)[1 := fd], pi_num_queues := 2\<rparr>, g\<lparr>os_n := os_n g + 1\<rparr>)"
  using assms by (simp add: portSlicing_def sys_def wr_def upt_rec)

lemma set_port_ok:
  assumes v: "\<forall>t. os g t = v" and k: "os_knows v name"
  shows "\<exists>port g'. poflr_set_port name zero_port lr g = Some (POF_OK,
      (port, map_portHashByID (portIndex g), map_portHashByName name), g') \<and> later (g\<lparr>portIndex := portIndex g + 1\<rparr>) g'
    \<and> pi_pofIndex port = portIndex g \<and> c_str (pi_name port) = c_str name \<and> os_hwaddr v (c_str name) = Some (pi_hwaddr port)
    \<and> os_ifindex v (c_str name) = Some (pi_sysIndex port) \<and> pi_of_enable port = 0 \<and> pi_slotID port = slotID lr
    \<and> length (pi_hwaddr port) = 6"
proof -
  obtain hw i ip g1 where 1: "poflr_get_hwaddr_index_ip_by_name name zero_port g = Some (POF_OK,
      zero_port\<lparr>pi_hwaddr := hw, pi_sysIndex := i, pi_ip := ip\<rparr>, g1)" "later g g1" "os_hwaddr v (c_str name) = Some hw"
    "os_ifindex v (c_str name) = Some i" "length hw = 6"
    using get_info_ok [OF v k] by blast
  have v1: "\<forall>t. os g1 t = v" using v later_sel(1) [OF 1(2)] by simp
  obtain st g2 where 2: "pofStateCheck name g1 = Some (st, g2)" "later g1 g2" using state_check_ok [OF v1 k] by blast
  obtain n where n: "g2 = g\<lparr>os_n := n\<rparr>" using later_trans [OF 1(2) 2(2)] by (auto simp: later_def)
  obtain fd where fd: "os_socket v = Some fd" "os_bind v" "length (c_str name) < 16" using k by (auto simp: os_knows_def)
  let ?st = "zero_port\<lparr>pi_hwaddr := hw, pi_sysIndex := i, pi_ip := ip, pi_pofIndex := portIndex g, pi_pofState := st,
    pi_name := c_str name @ 0 # drop (length (c_str name) + 1) (replicate 64 0), pi_of_enable := 0, pi_slotID := slotID lr\<rparr>"
  let ?q = "(pi_queue_fd zero_port)[0 := fd]"
  let ?g = "g\<lparr>portIndex := portIndex g + 1\<rparr>"
  have l: "length (pi_queue_fd zero_port) = 9" by (simp add: zero_port_def)
  have o: "openPort ?st (g2\<lparr>portIndex := portIndex g + 1\<rparr>) = Some (?st\<lparr>pi_queue_fd := ?q, pi_num_queues := 1\<rparr>, ?g\<lparr>os_n := n + 2\<rparr>)"
    using openPort_ok [of "g2\<lparr>portIndex := portIndex g + 1\<rparr>" v fd ?st] fd v l by (simp add: n)
  have sl: "portSlicing 1 (?st\<lparr>pi_queue_fd := ?q, pi_num_queues := 1\<rparr>) (?g\<lparr>os_n := n + 2\<rparr>)
      = Some (?st\<lparr>pi_queue_fd := ?q[1 := fd], pi_num_queues := 2\<rparr>, ?g\<lparr>os_n := n + 3\<rparr>)"
    using portSlicing_ok [of "?g\<lparr>os_n := n + 2\<rparr>" v fd "?st\<lparr>pi_queue_fd := ?q, pi_num_queues := 1\<rparr>"] v fd(1) l by simp
  have nm: "c_str (c_str name @ 0 # xs) = c_str name" for xs by (simp add: c_str_def takeWhile_tail)
  have z: "pi_name zero_port = replicate 64 0" by (simp add: zero_port_def)
  have sp: "poflr_set_port name zero_port lr g = Some (POF_OK,
      (?st\<lparr>pi_queue_fd := ?q[1 := fd], pi_num_queues := 2\<rparr>, map_portHashByID (portIndex g), map_portHashByName name),
      ?g\<lparr>os_n := n + 3\<rparr>)"
    unfolding poflr_set_port_def 1(1) using 2(1) o sl fd(3) later_sel(3) [OF 1(2)] by (simp add: Let_def z)
  show ?thesis
    by (intro exI conjI, rule sp) (use 1(3-5) nm in simp_all)
qed

text \<open>A report is one message on a working channel.\<close>

definition status_msg :: "u8 \<Rightarrow> bytes \<Rightarrow> bool" where
  "status_msg reason m \<longleftrightarrow> length m = 136 \<and> m ! 1 = pof_type_val POFT_PORT_STATUS \<and> m ! 8 = reason"

lemma port_report_ok:
  assumes "chan_ok g" "length (pi_hwaddr port) = 6"
  shows "\<exists>m g'. poflr_port_report reason port g = Some (POF_OK, g') \<and> chan_ok g' \<and> same_but_queue g g'
    \<and> send_queue g' = (if sending g then send_queue g @ [m] else send_queue g) \<and> status_msg reason m"
proof -
  let ?b = "reason # replicate 7 0 @ port_report_fill_msg port g"
  have len: "length ?b = 128" using assms(2) by (simp add: port_report_fill_msg_def length_strncpy)
  have "convs_in 8 128 (pof_HtoN_transfer_port_status 0) \<and> convs_disj (pof_HtoN_transfer_port_status 0)"
    by (auto simp: conv_simps pof_HtoN_transfer_port_status_def nt_port_def)
  then obtain b where b: "run_conv (pof_HtoN_transfer_port_status 0) ?b = Some b" "length b = 128" "b ! 0 = reason"
    using run_conv_roundtrip [of 8 128 "pof_HtoN_transfer_port_status 0" ?b] len by auto
  obtain g' where g': "pofec_reply_msg POFT_PORT_STATUS (g_upward_xid g) 128 (Some b) g = Some (POF_OK, g')" "chan_ok g'"
    "same_but_queue g g'"
    "send_queue g' = (if sending g then send_queue g @ [reply_bytes POFT_PORT_STATUS (g_upward_xid g) 128 b] else send_queue g)"
    using reply_msg_ok [OF assms(1), of 128 b "Some b" POFT_PORT_STATUS "g_upward_xid g"] b(2) by auto
  moreover have "status_msg reason (reply_bytes POFT_PORT_STATUS (g_upward_xid g) 128 b)"
    using b by (simp add: status_msg_def reply_bytes_def nth_append) (simp add: msg_header_def)
  ultimately show ?thesis using b(1) by (intro exI conjI) (auto simp: poflr_port_report_def)
qed

section \<open>Adding and deleting a port\<close>

definition node_in :: "pof_local_resource \<Rightarrow> portInfo hnode \<Rightarrow> bool" where
  "node_in lr n \<longleftrightarrow> (\<exists>im. portPofIndexMap lr = Some im \<and> n \<in> set (hmap_nodes im))"

lemma named_ptrs: "port_ok lr \<Longrightarrow> p \<in> set (named lr h) \<Longrightarrow> p \<in> res_ptrs (portPofIndexMap lr)"
  by (erule port_okE) (auto simp: named_def res_ptrs_def dest: hm.chain_addr)

lemma node_in_unique: "port_ok lr \<Longrightarrow> node_in lr n \<Longrightarrow> node_in lr n' \<Longrightarrow> hn_ptr n = hn_ptr n' \<Longrightarrow> n = n'"
  by (erule port_okE) (metis node_at_ok node_in_def option.inject)

lemma get_named:
  assumes "port_ok lr" "node_in lr n" "named lr (map_portHashByName name) = hn_ptr n # ps"
  shows "poflr_get_port_with_name name lr = Some (Some n)"
proof -
  obtain n' where "poflr_get_port_with_name name lr = Some (Some n')" "node_in lr n'" "hn_ptr n' = hn_ptr n"
    using get_port_with_name_ok [OF assms(1), of name] assms(3) by (auto simp: node_in_def)
  then show ?thesis using node_in_unique [OF assms(1,2), of n'] by simp
qed

text \<open>What a new port of an interface holds.\<close>

definition port_of :: "os_view \<Rightarrow> bytes \<Rightarrow> u8 \<Rightarrow> pof_local_resource \<Rightarrow> portInfo \<Rightarrow> bool" where
  "port_of v name i lr port \<longleftrightarrow> pi_pofIndex port = i \<and> c_str (pi_name port) = c_str name
     \<and> os_hwaddr v (c_str name) = Some (pi_hwaddr port) \<and> os_ifindex v (c_str name) = Some (pi_sysIndex port)
     \<and> pi_of_enable port = 0 \<and> pi_slotID port = slotID lr \<and> length (pi_hwaddr port) = 6"

lemma port_new_ok:
  assumes ok: "port_ok lr" "below (malloc_n g) (res_ptrs (portPofIndexMap lr))" "chan_ok g"
    and v: "\<forall>t. os g t = v" "os_knows v name"
    and free: "named lr (map_portHashByName name) = []" "ports lr (ucast (portIndex g)) = None"
  shows "\<exists>n lr1 g1. port_new name lr g = Some (POF_OK, Some (hn_ptr n, hn_obj n), lr1, g1) \<and> port_ok lr1 \<and> node_in lr1 n
    \<and> hn_hash n = ucast (portIndex g) \<and> port_of v name (portIndex g) lr (hn_obj n)
    \<and> ports lr1 = (ports lr)(ucast (portIndex g) \<mapsto> hn_obj n) \<and> portNum lr1 = portNum lr + 1 \<and> but_ports lr1 = but_ports lr
    \<and> named lr1 = (named lr)(map_portHashByName name := [hn_ptr n]) \<and> hn_ptr n \<notin> res_ptrs (portPofIndexMap lr)
    \<and> chan_ok g1 \<and> sending g1 = sending g \<and> send_queue g1 = send_queue g \<and> os g1 = os g \<and> portIndex g1 = portIndex g + 1
    \<and> res_ptrs (portPofIndexMap lr1) = insert (malloc_n g + 1) (res_ptrs (portPofIndexMap lr))
    \<and> g1 = g\<lparr>malloc_n := malloc_n g + 1, portIndex := portIndex g + 1, os_n := os_n g1\<rparr>"
proof -
  obtain g1 where 1: "checkPortNameInSys name g = Some (POF_OK, g1)" "later g g1" using checkPortName_ok [OF v] by blast
  note s1 = later_sel [OF 1(2)]
  define p where "p = malloc_n g + 1"
  have p: "map_portCreate g1 = (Some p, g1\<lparr>malloc_n := p\<rparr>)"
    using s1 ok(3) by (auto simp: map_portCreate_def POF_MALLOC_SAFE_def malloc_def Let_def chan_ok_def p_def)
  have v2: "\<forall>t. os (g1\<lparr>malloc_n := p\<rparr>) t = v" using v(1) s1(1) by simp
  obtain port g3 where 3: "poflr_set_port name zero_port lr (g1\<lparr>malloc_n := p\<rparr>) = Some (POF_OK,
      (port, map_portHashByID (portIndex g), map_portHashByName name), g3)"
    "later (g1\<lparr>malloc_n := p, portIndex := portIndex g + 1\<rparr>) g3" "port_of v name (portIndex g) lr port"
    using set_port_ok [OF v2 v(2), of lr] s1(3) by (auto simp: port_of_def)
  have key: "map_portHashByID (portIndex g) = port_key port" "port_key port = ucast (portIndex g)"
    using 3(3) by (simp_all add: port_of_def map_portHashByID_def hmap_hashForLinear_def)
  have np: "p \<notin> res_ptrs (portPofIndexMap lr)" using ok(2) by (auto simp: below_def p_def)
  let ?n = "\<lparr>hn_ptr = p, hn_hash = port_key port, hn_obj = port\<rparr>"
  obtain lr1 where 4: "map_portInsert p (port, port_key port, map_portHashByName name) lr = Some lr1" "port_ok lr1"
    "ports lr1 = (ports lr)(port_key port \<mapsto> port)" "named lr1 = (named lr)(map_portHashByName name := [p])"
    "portNum lr1 = portNum lr + 1" "but_ports lr1 = but_ports lr" "node_in lr1 ?n"
    "res_ptrs (portPofIndexMap lr1) = insert p (res_ptrs (portPofIndexMap lr))"
    using portInsert_ok [OF ok(1) np, of port "map_portHashByName name"] free key(2) by (auto simp: node_in_def)
  have "poflr_get_port_with_name name lr = Some None" using get_port_with_name_ok [OF ok(1), of name] free(1) by auto
  then have r: "port_new name lr g = Some (POF_OK, Some (hn_ptr ?n, hn_obj ?n), lr1, g3)"
    unfolding port_new_def using 1(1) p 3(1) 4(1) key(1) by simp
  have "chan_ok g3" "sending g3 = sending g" "send_queue g3 = send_queue g" "os g3 = os g" "portIndex g3 = portIndex g + 1"
    using later_sel [OF 3(2)] s1 ok(3) by (auto simp: chan_ok_def sending_def p_def later_def)
  moreover have "g3 = g\<lparr>malloc_n := malloc_n g + 1, portIndex := portIndex g + 1, os_n := os_n g3\<rparr>"
    using 3(2) 1(2) by (auto simp: later_def p_def)
  ultimately show ?thesis using r 4 3(3) key np by (intro exI [of _ ?n] exI [of _ lr1] exI [of _ g3]) (simp add: p_def)
qed

lemma node_in_write:
  assumes "node_in lr n"
  shows "node_in (port_write (hn_ptr n) f lr) (n\<lparr>hn_obj := f (hn_obj n)\<rparr>)"
  using assms by (force simp: node_in_def port_write_def hmap_nodes_write)

lemma add_port_ok:
  assumes ok: "port_ok lr" "below (malloc_n g) (res_ptrs (portPofIndexMap lr))" "chan_ok g" "sending g"
    and v: "\<forall>t. os g t = v" "os_knows v name"
    and free: "named lr (map_portHashByName name) = []" "ports lr (ucast (portIndex g)) = None"
  shows "\<exists>n lr1 g1 m. poflr_add_port name lr g = Some (POF_OK, lr1, g1) \<and> port_ok lr1 \<and> node_in lr1 n
    \<and> hn_hash n = ucast (portIndex g) \<and> port_of v name (portIndex g) lr (hn_obj n) \<and> os_thread v = Some (pi_taskID (hn_obj n))
    \<and> ports lr1 = (ports lr)(ucast (portIndex g) \<mapsto> hn_obj n) \<and> portNum lr1 = portNum lr + 1 \<and> but_ports lr1 = but_ports lr
    \<and> named lr1 = (named lr)(map_portHashByName name := [hn_ptr n]) \<and> hn_ptr n \<notin> res_ptrs (portPofIndexMap lr)
    \<and> chan_ok g1 \<and> sending g1 \<and> send_queue g1 = send_queue g @ [m] \<and> status_msg 0 m \<and> os g1 = os g
    \<and> portIndex g1 = portIndex g + 1"
proof -
  obtain n lr1 g1 where 1: "port_new name lr g = Some (POF_OK, Some (hn_ptr n, hn_obj n), lr1, g1)" "port_ok lr1"
    "node_in lr1 n" "hn_hash n = ucast (portIndex g)" "port_of v name (portIndex g) lr (hn_obj n)"
    "ports lr1 = (ports lr)(ucast (portIndex g) \<mapsto> hn_obj n)" "portNum lr1 = portNum lr + 1" "but_ports lr1 = but_ports lr"
    "named lr1 = (named lr)(map_portHashByName name := [hn_ptr n])" "hn_ptr n \<notin> res_ptrs (portPofIndexMap lr)"
    "chan_ok g1" "sending g1" "send_queue g1 = send_queue g" "os g1 = os g" "portIndex g1 = portIndex g + 1"
    using port_new_ok [OF ok(1-3) v free] ok(4) by blast
  obtain m g2 where 2: "poflr_port_report 0 (hn_obj n) g1 = Some (POF_OK, g2)" "chan_ok g2" "same_but_queue g1 g2"
    "send_queue g2 = send_queue g @ [m]" "status_msg 0 m"
    using port_report_ok [OF 1(11), of "hn_obj n" 0] 1(5,12,13) by (auto simp: port_of_def)
  obtain tid where t: "os_thread v = Some tid" using v(2) by (auto simp: os_knows_def split: option.splits)
  let ?g = "g2\<lparr>os_n := os_n g2 + 1\<rparr>"
  let ?f = "\<lambda>i :: portInfo. i\<lparr>pi_taskID := tid\<rparr>"
  let ?lr = "port_write (hn_ptr n) ?f lr1"
  have "\<forall>t. os g2 t = v" using 2(3) 1(14) v(1) by (simp add: same_but_queue_def)
  then have "pofdp_create_port_listen_task g2 = (POF_OK, tid, ?g)"
    using t by (simp add: pofdp_create_port_listen_task_def pofbf_task_create_def sys_def)
  then have r: "poflr_add_port name lr g = Some (POF_OK, ?lr, ?g)"
    unfolding poflr_add_port_def using 1(1) 2(1) by (simp add: Let_def)
  have g: "chan_ok ?g" "sending ?g" "send_queue ?g = send_queue g @ [m]" "os ?g = os g" "portIndex ?g = portIndex g + 1"
    using 2 1(12,14,15) by (auto simp: same_but_queue_def chan_ok_def sending_def)
  obtain im where im: "portPofIndexMap lr1 = Some im" "n \<in> set (hmap_nodes im)" using 1(3) by (auto simp: node_in_def)
  note w = port_write_ok [OF 1(2) im, of ?f]
  let ?n = "n\<lparr>hn_obj := ?f (hn_obj n)\<rparr>"
  have "port_ok ?lr" "ports ?lr = (ports lr)(ucast (portIndex g) \<mapsto> hn_obj ?n)" "portNum ?lr = portNum lr + 1"
    "but_ports ?lr = but_ports lr" "named ?lr = (named lr)(map_portHashByName name := [hn_ptr n])"
    using w 1(4,6-9) by simp_all
  moreover have "port_of v name (portIndex g) lr (hn_obj ?n)" "os_thread v = Some (pi_taskID (hn_obj ?n))"
    using 1(5) t by (simp_all add: port_of_def)
  ultimately show ?thesis
    using r g node_in_write [OF 1(3), of ?f] 1(4,10) 2(5)
    by (intro exI [of _ ?n] exI [of _ ?lr] exI [of _ ?g] exI [of _ m]) simp
qed

lemma del_port_ok:
  assumes ok: "port_ok lr" "chan_ok g" "sending g" and v: "\<forall>t. os g t = v" "os_cancel v (pi_taskID (hn_obj n))"
    and n: "node_in lr n" "named lr (map_portHashByName name) = hn_ptr n # ps" "length (pi_hwaddr (hn_obj n)) = 6"
      "pi_taskID (hn_obj n) \<noteq> 0"
  shows "\<exists>lr1 g1 m. poflr_del_port name lr g = Some (POF_OK, lr1, g1) \<and> port_ok lr1 \<and> ports lr1 = (ports lr)(hn_hash n := None)
    \<and> named lr1 = (\<lambda>h. filter (\<lambda>q. q \<noteq> hn_ptr n) (named lr h)) \<and> portNum lr1 = portNum lr - 1 \<and> but_ports lr1 = but_ports lr
    \<and> chan_ok g1 \<and> send_queue g1 = send_queue g @ [m] \<and> status_msg 1 m"
proof -
  obtain m g1 where 1: "poflr_port_report 1 (hn_obj n) g = Some (POF_OK, g1)" "chan_ok g1" "same_but_queue g g1"
    "send_queue g1 = send_queue g @ [m]" "status_msg 1 m"
    using port_report_ok [OF ok(2) n(3), of 1] ok(3) by auto
  obtain tid g2 where 2: "pofbf_task_delete (pi_taskID (hn_obj n)) g1 = (POF_OK, tid, g2)" "later g1 g2"
    using 1(3) v n(4) by (cases "pi_taskID (hn_obj n) = os_self v")
      (simp_all add: pofbf_task_delete_def sys_def same_but_queue_def)
  obtain im where im: "portPofIndexMap lr = Some im" "n \<in> set (hmap_nodes im)" using n(1) by (auto simp: node_in_def)
  show ?thesis
    using portDelete_ok [OF ok(1) im] get_named [OF ok(1) n(1,2)] 1 2 later_sel [OF 2(2)]
    by (auto simp: poflr_del_port_def)
qed


lemma example_ports:
  "port_ok example_lr" "named example_lr h = []" "ports example_lr k = None" "res_ptrs (portPofIndexMap example_lr) = {}"
  "os_knows example_os [101]" "\<forall>t. os example_glob t = example_os"
  by (simp_all add: port_ok_def example_lr_def named_def os_knows_def example_os_def c_str_def hmap_chain_def example_glob_def
      tbl_ok_def [symmetric])
     (use empty_hmap_ok in \<open>auto simp: tbl_ok_def res_ptrs_def\<close>)


end
