(* ===== verification/Pof_Local_Resource.thy ===== *)
theory Pof_Local_Resource
  imports Pof_Port
begin

text \<open>
  The resource of a slot as a whole: \<^verbatim>\<open>local_resource/pof_local_resource.c\<close>, and the creation of
  the slots in \<^verbatim>\<open>datapath/pof_datapath.c\<close>. The three descriptions the controller asks for
  (configuration, features, table resource) are kept as the bytes of their structures in host order.
\<close>

section \<open>Configuration and features\<close>

definition poflr_set_config :: "u16 \<Rightarrow> u16 \<Rightarrow> glob \<Rightarrow> ret \<times> glob" where
  "poflr_set_config flags miss_send_len g =
     (POF_OK, g\<lparr>poflr_switch_config := le_bytes 4 (g_poflr_dev_id g) @ le_bytes 2 flags @ le_bytes 2 miss_send_len\<rparr>)"

definition poflr_reply_config :: "glob \<Rightarrow> (ret \<times> glob) option" where
  "poflr_reply_config g = do {
     config \<leftarrow> run_conv (pof_HtoN_transfer_switch_config 0) (poflr_switch_config g);
     send_reply POFT_GET_CONFIG_REPLY 8 config g
   }"

text \<open>
  The features: 15 are the flow, table, port and group statistics; the vendor is \<^verbatim>\<open>Huawei\<close>.
\<close>

definition switch_features_bytes :: "pof_local_resource \<Rightarrow> glob \<Rightarrow> bytes" where
  "switch_features_bytes lr g = le_bytes 4 (g_poflr_dev_id g) @ le_bytes 2 (slotID lr) @ le_bytes 2 (portNum lr)
     @ le_bytes 2 (tableNumMax lr) @ [0, 0] @ le_bytes 4 (15 :: u32)
     @ strncpy 64 [72, 117, 97, 119, 101, 105, 0] @ strncpy 64 (g_versionStr g) @ strncpy 64 (g_versionStr g)"

definition poflr_reply_feature_resource :: "pof_local_resource \<Rightarrow> glob \<Rightarrow> (ret \<times> glob) option" where
  "poflr_reply_feature_resource lr g = do {
     let feature = switch_features_bytes lr g;
     body \<leftarrow> run_conv (pof_HtoN_transfer_switch_features 0) feature;
     send_reply POFT_FEATURES_REPLY 208 body (g\<lparr>poflr_switch_feature := feature\<rparr>)
   }"

section \<open>Table resource\<close>

text \<open>The number of tables of a type is cut to one byte.\<close>

primrec desc_types :: "nat list \<Rightarrow> pof_local_resource \<Rightarrow> glob \<Rightarrow> bytes \<Rightarrow> bytes option" where
  "desc_types [] lr g desc = Some desc"
| "desc_types (i # is) lr g desc = do {
     num \<leftarrow> rd (tableNumMaxEachType lr) i;
     key_len \<leftarrow> rd (poflr_key_len_each_type g) i;
     desc' \<leftarrow> mem_write desc (16 + 16 * i) (le_bytes 4 (g_poflr_dev_id g) @ [of_nat i, ucast num]
                @ le_bytes 2 key_len @ le_bytes 4 (tableSizeMax lr));
     desc_types is lr g desc'
   }"

definition init_table_desc :: "pof_local_resource \<Rightarrow> glob \<Rightarrow> glob option" where
  "init_table_desc lr g = do {
     d1 \<leftarrow> desc_types [0, 1, 2, 3] lr g (poflr_table_resource_desc g);
     d2 \<leftarrow> mem_write d1 4 (le_bytes 4 (counterNumMax lr) @ le_bytes 4 (meterNumMax lr) @ le_bytes 4 (groupNumMax lr));
     d3 \<leftarrow> mem_write d2 2 (le_bytes 2 (slotID lr));
     Some (g\<lparr>poflr_table_resource_desc := d3\<rparr>)
   }"

definition poflr_init_table_resource :: "pof_local_resource \<Rightarrow> glob \<Rightarrow> (ret \<times> pof_local_resource \<times> glob) option" where
  "poflr_init_table_resource lr g = do {
     (r1, lr1, g1) \<leftarrow> poflr_init_flow_table lr g;
     (if r1 \<noteq> POF_OK then Some (r1, lr1, g1)
      else case poflr_init_group lr1 g1 of (r2, lr2, g2) \<Rightarrow>
        if r2 \<noteq> POF_OK then Some (r2, lr2, g2)
        else case poflr_init_meter lr2 g2 of (r3, lr3, g3) \<Rightarrow>
          if r3 \<noteq> POF_OK then Some (r3, lr3, g3)
          else case poflr_init_counter lr3 g3 of (r4, lr4, g4) \<Rightarrow>
            if r4 \<noteq> POF_OK then Some (r4, lr4, g4)
            else do { g5 \<leftarrow> init_table_desc lr4 g4; Some (POF_OK, lr4, g5) })
   }"

primrec reset_types :: "nat list \<Rightarrow> u32 \<Rightarrow> bytes \<Rightarrow> bytes option" where
  "reset_types [] dev desc = Some desc"
| "reset_types (i # is) dev desc = do {
     desc' \<leftarrow> mem_write desc (16 + 16 * i) (le_bytes 4 dev);
     reset_types is dev desc'
   }"

definition poflr_reset_dev_id :: "glob \<Rightarrow> (ret \<times> glob) option" where
  "poflr_reset_dev_id g = do {
     d \<leftarrow> reset_types [0, 1, 2, 3] (g_poflr_dev_id g) (poflr_table_resource_desc g);
     Some (POF_OK, g\<lparr>poflr_table_resource_desc := d\<rparr>)
   }"

definition poflr_reply_table_resource :: "pof_local_resource \<Rightarrow> glob \<Rightarrow> (ret \<times> glob) option" where
  "poflr_reply_table_resource lr g = do {
     d \<leftarrow> mem_write (poflr_table_resource_desc g) 2 (le_bytes 2 (slotID lr));
     body \<leftarrow> run_conv (pof_HtoN_transfer_flow_table_resource 0) d;
     send_reply POFT_RESOURCE_REPORT 80 body g
   }"

section \<open>Queries and clearing\<close>

text \<open>
  The last routine called has no return value when it succeeds; the value tested is then
  whatever is left in the register (\<open>left\<close>). \<open>mem\<close> is the content of allocated memory.
\<close>

definition poflr_reply_queryall :: "ret \<Rightarrow> (nat \<Rightarrow> bytes) \<Rightarrow> pof_local_resource \<Rightarrow> glob \<Rightarrow> (ret \<times> glob) option" where
  "poflr_reply_queryall left mem lr g = do {
     (r1, g1) \<leftarrow> poflr_reply_table_all lr g;
     (if r1 \<noteq> POF_OK then Some (r1, g1) else do {
       (r2, g2) \<leftarrow> poflr_reply_entry_all mem lr g1;
       (if r2 \<noteq> POF_OK then Some (r2, g2) else do {
         (r3, g3) \<leftarrow> poflr_reply_group_all lr g2;
         (if r3 \<noteq> POF_OK then Some (r3, g3) else do {
           (r4, g4) \<leftarrow> poflr_reply_meter_all lr g3;
           (if r4 \<noteq> POF_OK then Some (r4, g4) else do {
             (r5, g5) \<leftarrow> poflr_reply_counter_all lr g4;
             Some (case r5 of Some r \<Rightarrow> r | None \<Rightarrow> left, g5)
           })
         })
       })
     })
   }"

definition poflr_reply_port_resource :: "pof_local_resource \<Rightarrow> glob \<Rightarrow> (ret \<times> glob) option" where
  "poflr_reply_port_resource lr g = do {
     (_, g') \<leftarrow> hmap_struct_traverse (\<lambda>_. portPofIndexMap lr)
       (\<lambda>port g. do { (_, g1) \<leftarrow> poflr_port_report 0 (hn_obj port) g; Some (None :: ret option, g1) }) g;
     Some (POF_OK, g')
   }"

definition poflr_clear_resource :: "pof_local_resource \<Rightarrow> (ret \<times> pof_local_resource) option" where
  "poflr_clear_resource lr = do {
     (_, lr1) \<leftarrow> poflr_disable_all_port lr;
     (_, lr2) \<leftarrow> poflr_empty_flow_table lr1;
     (_, lr3) \<leftarrow> poflr_empty_group lr2;
     (_, lr4) \<leftarrow> poflr_empty_meter lr3;
     (_, lr5) \<leftarrow> poflr_empty_counter lr4;
     Some (POF_OK, lr5)
   }"

section \<open>Initialisation\<close>

text \<open>A failure ends the process.\<close>

definition pof_localresource_init :: "pof_local_resource \<Rightarrow> glob \<Rightarrow> (ret \<times> pof_local_resource \<times> glob) option" where
  "pof_localresource_init lr g = do {
     (r1, lr1, g1) \<leftarrow> poflr_init_port lr g;
     (if r1 \<noteq> POF_OK then None else do {
       (_, lr2) \<leftarrow> poflr_disable_all_port lr1;
       (r3, lr3, g3) \<leftarrow> poflr_init_table_resource lr2 g1;
       (if r3 \<noteq> POF_OK then None else Some (POF_OK, lr3, g3))
     })
   }"

text \<open>A slot right after \<^verbatim>\<open>memset\<close>.\<close>

definition zero_lr :: pof_local_resource where
  "zero_lr = \<lparr>slotID = 0, portPofIndexMap = None, portNameMap = None, portNumMax = 0, portNum = 0, portFlag = 0,
     tableIdMap = None, tableNumMax = 0, tableNumMaxEachType = replicate 4 0, tableNum = 0, tableSizeMax = 0,
     groupMap = None, groupNumMax = 0, groupNum = 0, meterMap = None, meterNumMax = 0, meterNum = 0,
     counterMap = None, counterNumMax = 0, counterNum = 0\<rparr>"

text \<open>
  The loop that creates the slots; it is given the ids that are still to be created. The routine
  has no \<^verbatim>\<open>return\<close> at its end (\<open>None\<close> in the result is this missing value).
\<close>

fun slot_init_loop :: "nat \<Rightarrow> u32 \<Rightarrow> pof_datapath \<Rightarrow> glob \<Rightarrow> (ret option \<times> pof_datapath \<times> glob) option" where
  "slot_init_loop 0 slot dp g = Some (None, dp, g)"
| "slot_init_loop (Suc n) slot dp g = (case POF_MALLOC_SAFE g of
      (None, g1) \<Rightarrow> Some (Some POF_ERROR, dp, g1)
    | (Some p, g1) \<Rightarrow> do {
        sm \<leftarrow> slotMap dp;
        sm' \<leftarrow> hmap_nodeInsert sm \<lparr>hn_ptr = p, hn_hash = hmap_hashForLinear slot,
                 hn_obj = zero_lr\<lparr>slotID := ucast slot\<rparr>\<rparr>;
        lr \<leftarrow> fill_localresource_param (dp_param dp) (zero_lr\<lparr>slotID := ucast slot\<rparr>);
        (r, lr', g2) \<leftarrow> pof_localresource_init lr g1;
        let dp1 = slot_write p lr' (dp\<lparr>slotMap := Some sm'\<rparr>);
        (if r \<noteq> POF_OK then Some (Some r, dp1, g2) else slot_init_loop n (slot + 1) dp1 g2)
      })"

definition pofdp_slot_init :: "pof_datapath \<Rightarrow> glob \<Rightarrow> (ret option \<times> pof_datapath \<times> glob) option" where
  "pofdp_slot_init dp g = (case hmap_create (ucast (slotMax dp)) g of (sm, g1) \<Rightarrow>
     slot_init_loop (unat (slotNum dp)) 0 (dp\<lparr>slotMap := sm\<rparr>) g1)"

end
