(* ===== verification/Pof_Parse.thy ===== *)
theory Pof_Parse
  imports Pof_Local_Resource
begin

text \<open>
  The dispatch of a message of the controller: \<^verbatim>\<open>switch_control/pof_parse.c\<close>.

  The message is given as the bytes from its start to the end of the receive buffer, because the
  code converts it in place and reads structures of full size whatever the length in the header.
  A handler gives the return value, the buffer, the datapath and the process state. What the code
  reads without having written it is an argument: the stack, the local resource an uninitialised
  pointer happens to point to, allocated memory, and the register of a missing return value; so is
  whether \<^verbatim>\<open>memcpy\<close> copies to a lower address correctly when the ranges overlap.
\<close>

record junk =
  jk_stk :: bytes
  jk_lr :: pof_local_resource
  jk_mem :: "nat \<Rightarrow> bytes"
  jk_ret :: ret
  jk_overlap :: bool

type_synonym parsed = "(ret \<times> bytes \<times> pof_datapath \<times> glob) option"

definition fail_upward :: "pof_error_type \<Rightarrow> err_code \<Rightarrow> bytes \<Rightarrow> pof_datapath \<Rightarrow> glob \<Rightarrow> parsed" where
  "fail_upward type code msg dp g = do { (r, g1) \<leftarrow> err_upward type code g; Some (r, msg, dp, g1) }"

section \<open>Loops over the slots\<close>

text \<open>
  A modification is carried out on every slot; the value returned is the one of the last slot.
\<close>

definition mod_each_slot ::
  "(pof_local_resource \<Rightarrow> glob \<Rightarrow> (ret \<times> pof_local_resource \<times> glob) option) \<Rightarrow> bytes \<Rightarrow> pof_datapath \<Rightarrow> glob \<Rightarrow> parsed" where
  "mod_each_slot f msg dp g = do {
     (_, dp', g', r) \<leftarrow> hmap_struct_traverse (slotMap \<circ> fst)
       (\<lambda>n (dp, g, _). do {
          (r, lr, g1) \<leftarrow> f (hn_obj n) g;
          Some (None :: ret option, slot_write (hn_ptr n) lr dp, g1, r)
        }) (dp, g, POF_OK);
     Some (r, msg, dp', g')
   }"

text \<open>A reply is made for every slot until one fails.\<close>

definition reply_each_slot ::
  "(pof_local_resource \<Rightarrow> glob \<Rightarrow> (ret \<times> glob) option) \<Rightarrow> pof_datapath \<Rightarrow> glob \<Rightarrow> (ret \<times> glob) option" where
  "reply_each_slot f dp g = do {
     (r, g') \<leftarrow> hmap_struct_traverse (\<lambda>_. slotMap dp)
       (\<lambda>n g. do {
          (r, g1) \<leftarrow> f (hn_obj n) g;
          Some (if r \<noteq> POF_OK then Some r else None, g1)
        }) g;
     Some (case r of Some v \<Rightarrow> v | None \<Rightarrow> POF_OK, g')
   }"

section \<open>Handlers\<close>

definition parse_ECHO_REQUEST :: "bytes \<Rightarrow> pof_datapath \<Rightarrow> glob \<Rightarrow> parsed" where
  "parse_ECHO_REQUEST msg dp g = do {
     (r, g1) \<leftarrow> pofec_reply_msg POFT_ECHO_REPLY (g_recv_xid g) 0 None g;
     (if r \<noteq> POF_OK then fail_upward POFET_SOFTWARE_FAILED (SoftE POF_WRITE_MSG_QUEUE_FAILURE) msg dp g1
      else Some (POF_OK, msg, dp, g1))
   }"

definition parse_SET_CONFIG :: "bytes \<Rightarrow> pof_datapath \<Rightarrow> glob \<Rightarrow> parsed" where
  "parse_SET_CONFIG msg dp g = do {
     msg1 \<leftarrow> run_conv (pof_HtoN_transfer_switch_config 8) msg;
     flags \<leftarrow> get16 msg1 12;
     miss_send_len \<leftarrow> get16 msg1 14;
     (case poflr_set_config flags miss_send_len g of (r, g1) \<Rightarrow> Some (r, msg1, dp, g1))
   }"

definition parse_GET_CONFIG_REQUEST :: "bytes \<Rightarrow> pof_datapath \<Rightarrow> glob \<Rightarrow> parsed" where
  "parse_GET_CONFIG_REQUEST msg dp g = do {
     (r, g1) \<leftarrow> poflr_reply_config g;
     (if r \<noteq> POF_OK then Some (r, msg, dp, g1) else do {
       (r2, g2) \<leftarrow> reply_each_slot poflr_reply_table_resource dp g1;
       (if r2 \<noteq> POF_OK then Some (r2, msg, dp, g2) else do {
         (r3, g3) \<leftarrow> reply_each_slot poflr_reply_port_resource dp g2;
         Some (r3, msg, dp, g3)
       })
     })
   }"

definition parse_PORT_MOD :: "bytes \<Rightarrow> pof_datapath \<Rightarrow> glob \<Rightarrow> parsed" where
  "parse_PORT_MOD msg dp g = do {
     msg1 \<leftarrow> run_conv (pof_NtoH_transfer_port 16) msg;
     slot \<leftarrow> get16 msg1 16;
     port_id \<leftarrow> get16 msg1 18;
     of_enable \<leftarrow> rd msg1 128;
     q \<leftarrow> pofdp_get_local_resource slot dp;
     (case q of
        None \<Rightarrow> fail_upward POFET_SOFTWARE_FAILED (SoftE POF_INVALID_SLOT_ID) msg1 dp g
      | Some n \<Rightarrow> do {
          (r, lr, g1) \<leftarrow> poflr_port_openflow_enable (ucast port_id) of_enable (hn_obj n) g;
          Some (r, msg1, slot_write (hn_ptr n) lr dp, g1)
        })
   }"

definition parse_FEATURES_REQUEST :: "bytes \<Rightarrow> pof_datapath \<Rightarrow> glob \<Rightarrow> parsed" where
  "parse_FEATURES_REQUEST msg dp g = do {
     (_, g1) \<leftarrow> poflr_reset_dev_id g;
     (r, g2) \<leftarrow> reply_each_slot poflr_reply_feature_resource dp g1;
     Some (r, msg, dp, g2)
   }"

text \<open>The commands of a table are \<^verbatim>\<open>POFTC_ADD\<close> (0) and \<^verbatim>\<open>POFTC_DELETE\<close> (2).\<close>

definition parse_TABLE_MOD :: "bytes \<Rightarrow> pof_datapath \<Rightarrow> glob \<Rightarrow> parsed" where
  "parse_TABLE_MOD msg dp g = do {
     msg1 \<leftarrow> run_conv (pof_NtoH_transfer_flow_table 8) msg;
     command \<leftarrow> rd msg1 8;
     tid \<leftarrow> rd msg1 9;
     type \<leftarrow> rd msg1 10;
     match_field_num \<leftarrow> rd msg1 11;
     sz \<leftarrow> get32 msg1 12;
     key_len \<leftarrow> get16 msg1 16;
     (if command = 0 then
        mod_each_slot (poflr_create_flow_table tid type key_len sz (take 64 (drop 24 msg1)) match_field_num
          (take 64 (drop 88 msg1))) msg1 dp g
      else if command = 2 then mod_each_slot (poflr_delete_flow_table tid type) msg1 dp g
      else fail_upward POFET_TABLE_MOD_FAILED (TableE POFTMFC_BAD_COMMAND) msg1 dp g)
   }"

text \<open>Of an entry: \<^verbatim>\<open>POFFC_ADD\<close> (0), \<^verbatim>\<open>POFFC_DELETE\<close> (3) and \<^verbatim>\<open>POFFC_MODIFY\<close> (1).\<close>

definition parse_FLOW_MOD :: "bytes \<Rightarrow> pof_datapath \<Rightarrow> glob \<Rightarrow> parsed" where
  "parse_FLOW_MOD msg dp g = do {
     msg1 \<leftarrow> pof_NtoH_transfer_flow_entry 8 msg;
     let flow = take 2184 (drop 8 msg1);
     command \<leftarrow> rd flow 0;
     (if command = 0 then mod_each_slot (poflr_add_flow_entry flow) msg1 dp g
      else if command = 3 then mod_each_slot (poflr_delete_flow_entry flow) msg1 dp g
      else if command = 1 then mod_each_slot (poflr_modify_flow_entry flow) msg1 dp g
      else fail_upward POFET_FLOW_MOD_FAILED (FlowE POFFMFC_BAD_COMMAND) msg1 dp g)
   }"

text \<open>
  The packet of a \<^verbatim>\<open>PACKET_OUT\<close> is at the start of the buffer of the packet structure, without
  metadata; its length is not checked. The changes the actions make to the resource behind the
  uninitialised pointer are not part of the datapath.
\<close>

definition packet_out_dpp :: "bytes \<Rightarrow> pof_datapath \<Rightarrow> bytes \<Rightarrow> pofdp_packet option" where
  "packet_out_dpp stk dp out = do {
     inPort \<leftarrow> get32 out 4;
     actionNum \<leftarrow> rd out 8;
     packetLen \<leftarrow> get32 out 12;
     data \<leftarrow> mem_read (drop 304 out) (unat packetLen);
     buf \<leftarrow> mem_write (replicate 2048 0) 0 data;
     Some ((zero_dpp dp stk)\<lparr>pk_buf := buf, pk_packetBuf := 0, pk_ori_port_id := inPort, pk_ori_len := packetLen,
       pk_left_len := packetLen, pk_buf_offset := 0, pk_act := (take 288 (drop 16 out), 0), pk_act_num := actionNum\<rparr>)
   }"

definition parse_PACKET_OUT :: "junk \<Rightarrow> bytes \<Rightarrow> pof_datapath \<Rightarrow> glob \<Rightarrow> parsed" where
  "parse_PACKET_OUT jk msg dp g = do {
     msg1 \<leftarrow> pof_NtoH_transfer_packet_out 8 msg;
     dpp \<leftarrow> packet_out_dpp (jk_stk jk) dp (drop 8 msg1);
     (r, _, _, g1) \<leftarrow> pofdp_action_execute (dpp, jk_lr jk, g);
     Some (r, msg1, dp, g1)
   }"

text \<open>Of a meter: \<^verbatim>\<open>POFMC_ADD\<close> (0), \<^verbatim>\<open>POFMC_MODIFY\<close> (1), \<^verbatim>\<open>POFMC_DELETE\<close> (2).\<close>

definition parse_METER_MOD :: "bytes \<Rightarrow> pof_datapath \<Rightarrow> glob \<Rightarrow> parsed" where
  "parse_METER_MOD msg dp g = do {
     msg1 \<leftarrow> run_conv (pof_NtoH_transfer_meter 8) msg;
     command \<leftarrow> rd msg1 8;
     meter_id \<leftarrow> get32 msg1 12;
     rate \<leftarrow> get32 msg1 16;
     (if command = 0 then mod_each_slot (poflr_add_meter_entry meter_id rate) msg1 dp g
      else if command = 1 then mod_each_slot (poflr_modify_meter_entry meter_id rate) msg1 dp g
      else if command = 2 then mod_each_slot (poflr_delete_meter_entry meter_id rate) msg1 dp g
      else fail_upward POFET_METER_MOD_FAILED (MeterE POFMMFC_BAD_COMMAND) msg1 dp g)
   }"

text \<open>Of a group: \<^verbatim>\<open>POFGC_ADD\<close> (0), \<^verbatim>\<open>POFGC_MODIFY\<close> (1), \<^verbatim>\<open>POFGC_DELETE\<close> (2).\<close>

definition parse_GROUP_MOD :: "bytes \<Rightarrow> pof_datapath \<Rightarrow> glob \<Rightarrow> parsed" where
  "parse_GROUP_MOD msg dp g = do {
     msg1 \<leftarrow> pof_NtoH_transfer_group 8 msg;
     let grp = take 208 (drop 8 msg1);
     command \<leftarrow> rd grp 0;
     (if command = 0 then mod_each_slot (poflr_add_group_entry grp) msg1 dp g
      else if command = 1 then mod_each_slot (poflr_modify_group_entry grp) msg1 dp g
      else if command = 2 then mod_each_slot (poflr_delete_group_entry grp) msg1 dp g
      else fail_upward POFET_GROUP_MOD_FAILED (GroupE POFGMFC_BAD_COMMAND) msg1 dp g)
   }"

text \<open>Of a counter: \<^verbatim>\<open>POFCC_CLEAR\<close> (2), \<^verbatim>\<open>POFCC_ADD\<close> (0), \<^verbatim>\<open>POFCC_DELETE\<close> (1).\<close>

definition parse_COUNTER_MOD :: "bytes \<Rightarrow> pof_datapath \<Rightarrow> glob \<Rightarrow> parsed" where
  "parse_COUNTER_MOD msg dp g = do {
     msg1 \<leftarrow> run_conv (pof_NtoH_transfer_counter 8) msg;
     command \<leftarrow> rd msg1 8;
     counter_id \<leftarrow> get32 msg1 12;
     (if command = 2 then mod_each_slot (poflr_counter_clear counter_id) msg1 dp g
      else if command = 0 then mod_each_slot (poflr_counter_init counter_id) msg1 dp g
      else if command = 1 then mod_each_slot (poflr_counter_delete counter_id) msg1 dp g
      else fail_upward POFET_COUNTER_MOD_FAILED (CounterE POFCMFC_BAD_COMMAND) msg1 dp g)
   }"

definition parse_COUNTER_REQUEST :: "bytes \<Rightarrow> pof_datapath \<Rightarrow> glob \<Rightarrow> parsed" where
  "parse_COUNTER_REQUEST msg dp g = do {
     msg1 \<leftarrow> run_conv (pof_NtoH_transfer_counter 8) msg;
     counter_id \<leftarrow> get32 msg1 12;
     (r, g1) \<leftarrow> reply_each_slot (poflr_get_counter_value counter_id) dp g;
     Some (r, msg1, dp, g1)
   }"

definition parse_QUERYALL_REQUEST :: "junk \<Rightarrow> bytes \<Rightarrow> pof_datapath \<Rightarrow> glob \<Rightarrow> parsed" where
  "parse_QUERYALL_REQUEST jk msg dp g = do {
     msg1 \<leftarrow> run_conv (pof_HtoN_transfer_queryall_request 8) msg;
     slot \<leftarrow> get16 msg1 8;
     let reply = poflr_reply_queryall (jk_ret jk) (jk_mem jk);
     q \<leftarrow> (if slot = 0xFFFF then map_option Inr (reply_each_slot reply dp g)
           else do {
             n \<leftarrow> pofdp_get_local_resource slot dp;
             (case n of None \<Rightarrow> Some (Inl ()) | Some n \<Rightarrow> map_option Inr (reply (hn_obj n) g))
           });
     (case q of
        Inl _ \<Rightarrow> fail_upward POFET_SOFTWARE_FAILED (SoftE POF_INVALID_SLOT_ID) msg1 dp g
      | Inr (r, g1) \<Rightarrow>
          if r \<noteq> POF_OK then Some (r, msg1, dp, g1)
          else do {
            (r2, g2) \<leftarrow> pofec_reply_msg POFT_QUERYALL_FIN (g_recv_xid g1) 0 None g1;
            (if r2 \<noteq> POF_OK then fail_upward POFET_SOFTWARE_FAILED (SoftE POF_WRITE_MSG_QUEUE_FAILURE) msg1 dp g2
             else Some (POF_OK, msg1, dp, g2))
          })
   }"

section \<open>Dispatch\<close>

definition parse_body :: "junk \<Rightarrow> u8 \<Rightarrow> bytes \<Rightarrow> pof_datapath \<Rightarrow> glob \<Rightarrow> parsed" where
  "parse_body jk type msg dp g = (
     if type = pof_type_val POFT_ECHO_REQUEST then parse_ECHO_REQUEST msg dp g
     else if type = pof_type_val POFT_SET_CONFIG then parse_SET_CONFIG msg dp g
     else if type = pof_type_val POFT_GET_CONFIG_REQUEST then parse_GET_CONFIG_REQUEST msg dp g
     else if type = pof_type_val POFT_PORT_MOD then parse_PORT_MOD msg dp g
     else if type = pof_type_val POFT_FEATURES_REQUEST then parse_FEATURES_REQUEST msg dp g
     else if type = pof_type_val POFT_TABLE_MOD then parse_TABLE_MOD msg dp g
     else if type = pof_type_val POFT_FLOW_MOD then parse_FLOW_MOD msg dp g
     else if type = pof_type_val POFT_PACKET_OUT then parse_PACKET_OUT jk msg dp g
     else if type = pof_type_val POFT_METER_MOD then parse_METER_MOD msg dp g
     else if type = pof_type_val POFT_GROUP_MOD then parse_GROUP_MOD msg dp g
     else if type = pof_type_val POFT_COUNTER_MOD then parse_COUNTER_MOD msg dp g
     else if type = pof_type_val POFT_COUNTER_REQUEST then parse_COUNTER_REQUEST msg dp g
     else if type = pof_type_val POFT_QUERYALL_REQUEST then parse_QUERYALL_REQUEST jk msg dp g
     else fail_upward POFET_BAD_REQUEST (ReqE POFBRC_BAD_TYPE) msg dp g)"

definition pof_parse_msg_from_controller :: "junk \<Rightarrow> bytes \<Rightarrow> pof_datapath \<Rightarrow> glob \<Rightarrow> parsed" where
  "pof_parse_msg_from_controller jk msg dp g = do {
     msg1 \<leftarrow> run_conv (pof_NtoH_transfer_header 0) msg;
     type \<leftarrow> rd msg1 1;
     xid \<leftarrow> get32 msg1 4;
     parse_body jk type msg1 dp (g\<lparr>g_recv_xid := xid\<rparr>)
   }"

end
