(* ===== verification/Pof_Switch.thy ===== *)
theory Pof_Switch
  imports Pof_Parse
begin

text \<open>
  The connection to the controller: \<^verbatim>\<open>switch_control/pof_switch.c\<close>. One iteration of the main
  task, of the send task and one tick of the echo timer are step functions on the connection
  descriptor, the datapath and the process state. The local variables of the main task are
  members of the descriptor. \<open>None\<close> is undefined behaviour or the end of the process by
  \<^verbatim>\<open>terminate_handler\<close>.
\<close>

record conn =
  cn_sfd :: int
  cn_send_buf :: bytes
  cn_recv_buf :: bytes
  cn_msg_buf :: bytes
  cn_retry_count :: u32
  cn_last_error :: u8
  cn_last_echo_time :: u64
  cn_total_len :: int
  cn_left_len :: int
  cn_rcv_len :: int
  cn_process_len :: int
  cn_protocol_error :: bytes

type_synonym sw = "conn \<times> pof_datapath \<times> glob"

section \<open>Messages of the connection itself\<close>

definition pofsc_build_header :: "pof_type \<Rightarrow> u16 \<Rightarrow> u32 \<Rightarrow> bytes" where
  "pofsc_build_header type len xid = [0x04, pof_type_val type] @ rev (le_bytes 2 len) @ rev (le_bytes 4 xid)"

definition pofsc_set_error :: "pof_error_type \<Rightarrow> u16 \<Rightarrow> sw \<Rightarrow> sw option" where
  "pofsc_set_error type code s = (case s of (c, dp, g) \<Rightarrow> do {
     e \<leftarrow> mem_write (cn_protocol_error c) 0 (rev (le_bytes 2 (pof_error_type_val type)) @ rev (le_bytes 2 code)
            @ rev (le_bytes 4 (g_poflr_dev_id g)) @ [0, 0]);
     Some (c\<lparr>cn_protocol_error := e\<rparr>, dp, g)
   })"

text \<open>An error has been recorded unless its type is \<^verbatim>\<open>0xffff\<close>.\<close>

definition error_recorded :: "conn \<Rightarrow> bool" where
  "error_recorded c \<longleftrightarrow> take 2 (cn_protocol_error c) \<noteq> [0xff, 0xff]"

definition pofsc_build_error_msg :: "sw \<Rightarrow> (u16 \<times> sw) option" where
  "pofsc_build_error_msg s = (case s of (c, dp, g) \<Rightarrow> do {
     b1 \<leftarrow> mem_write (cn_send_buf c) 0 (pofsc_build_header POFT_ERROR 280 (g_upward_xid g));
     e \<leftarrow> mem_read (cn_protocol_error c) 272;
     b2 \<leftarrow> mem_write b1 8 e;
     e' \<leftarrow> mem_write (cn_protocol_error c) 0 [0xff, 0xff];
     Some (280, c\<lparr>cn_send_buf := b2, cn_protocol_error := e'\<rparr>, dp, g\<lparr>g_upward_xid := g_upward_xid g + 1\<rparr>)
   })"

section \<open>Sockets\<close>

definition clear_slots :: "pof_datapath \<Rightarrow> pof_datapath option" where
  "clear_slots dp = do {
     (_, dp') \<leftarrow> hmap_struct_traverse slotMap
       (\<lambda>n dp. do {
          (_, lr) \<leftarrow> poflr_clear_resource (hn_obj n);
          Some (None :: ret option, slot_write (hn_ptr n) lr dp)
        }) dp;
     Some dp'
   }"

definition pofsc_performance_after_ctrl_disconn :: "sw \<Rightarrow> sw option" where
  "pofsc_performance_after_ctrl_disconn s = (case s of (c, dp, g) \<Rightarrow> do {
     dp' \<leftarrow> (if pofc_cmd_auto_clear g then clear_slots dp else Some dp);
     Some (c, dp', g\<lparr>conn_state := POFCS_CHANNEL_INVALID\<rparr>)
   })"

text \<open>
  A read into the receive buffer at \<open>off\<close>. It gives the bytes the network has delivered, at most
  \<open>buflen\<close>; no byte is a closed connection. The codes returned here are only compared with
  \<^verbatim>\<open>POF_OK\<close> or cut to their low byte.
\<close>

definition pofsc_recv :: "int \<Rightarrow> int \<Rightarrow> sw \<Rightarrow> (ret \<times> int \<times> sw) option" where
  "pofsc_recv off buflen s = (case s of (c, dp, g) \<Rightarrow>
     if buflen = 0 then Some (ERR (SoftE POF_RECEIVE_MSG_FAILURE), 0, s)
     else if off < 0 \<or> buflen < 0 then None
     else case sys os_read_len g of (delivered, g1) \<Rightarrow>
       let n = min delivered (min (nat buflen) (length (rx g1))) in
       if n = 0 then do {
         s' \<leftarrow> pofsc_performance_after_ctrl_disconn (c, dp, g1);
         Some (ERR (SoftE POF_RECEIVE_MSG_FAILURE), 0, s')
       }
       else do {
         buf \<leftarrow> mem_write (cn_recv_buf c) (nat off) (take n (rx g1));
         Some (POF_OK, int n, c\<lparr>cn_recv_buf := buf\<rparr>, dp, g1\<lparr>rx := drop n (rx g1)\<rparr>)
       })"

definition pofsc_send :: "bytes \<Rightarrow> nat \<Rightarrow> sw \<Rightarrow> (ret \<times> sw) option" where
  "pofsc_send buf len s = (case s of (c, dp, g) \<Rightarrow>
     case sys os_write g of (ok, g1) \<Rightarrow>
       if \<not> ok then do {
         s' \<leftarrow> pofsc_performance_after_ctrl_disconn (c, dp, g1);
         Some (ERR (SoftE POF_SEND_MSG_FAILURE), s')
       }
       else do {
         m \<leftarrow> mem_read buf len;
         Some (POF_OK, c, dp, g1\<lparr>sent := sent g1 @ [m]\<rparr>)
       })"

text \<open>
  The device id is made of the low 32 bits of the hardware address of the port with the local IP
  address. The index of that port is stored in one byte, so it never equals \<^verbatim>\<open>POF_ERROR\<close> and the
  search ends at the first slot; without a slot it is not assigned (\<open>unassigned\<close>).
\<close>

definition pofsc_connect :: "u8 \<Rightarrow> sw \<Rightarrow> (ret \<times> sw) option" where
  "pofsc_connect unassigned s = (case s of (c, dp, g) \<Rightarrow>
     case sys os_connect g of (ok, g1) \<Rightarrow>
       if \<not> ok then Some (ERR (SoftE POF_CONNECT_SERVER_FAILURE), c, dp, g1)
       else case sys os_stream g1 of (stream, g2) \<Rightarrow>
         let g3 = g2\<lparr>rx := stream\<rparr> in
         if g_poflr_dev_id g3 \<noteq> 0 then Some (POF_OK, c, dp, g3)
         else case sys os_sockname g3 of
             (None, g4) \<Rightarrow> Some (POF_ERROR, c, dp, g4)
           | (Some addr, g4) \<Rightarrow> do {
               (q, _) \<leftarrow> hmap_struct_traverse (\<lambda>_. slotMap dp)
                 (\<lambda>n u. do {
                    (i, hw) \<leftarrow> poflr_get_hwaddr_by_ipaddr (replicate 6 0) (inet_ntoa (take 4 addr)) (hn_obj n);
                    Some (if (ucast (ucast i :: u8) :: u32) \<noteq> 0xffff then Some (ucast i :: u8, hw) else None, u)
                  }) ();
               let (i, hw) = (case q of Some x \<Rightarrow> x | None \<Rightarrow> (unassigned, replicate 6 0));
               dev \<leftarrow> get32 (rev (take 4 (drop 2 hw))) 0;
               Some (POF_OK, c, dp, g4\<lparr>local_port_index := i, g_poflr_dev_id := (if dev = 0 then 1 else dev)\<rparr>)
             })"

section \<open>Reassembly\<close>

text \<open>
  The length in the header at \<open>off\<close>. A message is complete when \<open>left\<close> bytes of it are there; the
  comparison with the size of a header is unsigned.
\<close>

definition head_len :: "bytes \<Rightarrow> int \<Rightarrow> int option" where
  "head_len buf off = (if off < 0 then None else do {
     a \<leftarrow> rd buf (nat off + 2);
     b \<leftarrow> rd buf (nat off + 3);
     Some (256 * uint a + uint b)
   })"

definition msg_complete :: "int \<Rightarrow> bytes \<Rightarrow> int \<Rightarrow> bool option" where
  "msg_complete left buf off = (
     if 8 \<le> left \<or> left < 0 then do { l \<leftarrow> head_len buf off; Some (l \<le> left) } else Some False)"

text \<open>The loop of the states before \<^verbatim>\<open>POFCS_CHANNEL_RUN\<close>: read until the message is complete.\<close>

partial_function (option) recv_loop :: "sw \<Rightarrow> sw option" where
  "recv_loop s = (case s of (c, dp, g) \<Rightarrow> do {
     l \<leftarrow> head_len (cn_recv_buf c) (cn_process_len c);
     (if cn_total_len c < l then do {
        (r, n, c', dp', g') \<leftarrow> pofsc_recv (cn_rcv_len c) (2560 - cn_rcv_len c) s;
        (if r \<noteq> POF_OK then Some (c', dp', g')
         else recv_loop (c'\<lparr>cn_total_len := cn_total_len c' + n, cn_rcv_len := cn_rcv_len c' + n\<rparr>, dp', g'))
      }
      else Some s)
   })"

declare recv_loop.simps [code]

text \<open>
  Wait for a message in one of those states; the next state is entered with the first bytes. The
  flag tells whether the state's case goes on.
\<close>

definition await_message :: "pof_channel_state \<Rightarrow> sw \<Rightarrow> (bool \<times> sw) option" where
  "await_message nxt s = (case s of (c, dp, g) \<Rightarrow> do {
     complete \<leftarrow> msg_complete (cn_left_len c) (cn_recv_buf c) (cn_process_len c);
     (if complete then Some (True, s)
      else do {
        (r, n, c', dp', g') \<leftarrow> pofsc_recv (cn_rcv_len c) (2560 - cn_rcv_len c) s;
        (if r \<noteq> POF_OK then Some (False, c', dp', g')
         else do {
           s'' \<leftarrow> recv_loop (c'\<lparr>cn_rcv_len := cn_rcv_len c' + n, cn_total_len := n + cn_left_len c'\<rparr>, dp',
                    g'\<lparr>conn_state := nxt\<rparr>);
           Some (True, s'')
         })
      })
   })"

text \<open>When the buffer is full the unprocessed bytes are moved to its start.\<close>

definition buf_shift :: "junk \<Rightarrow> conn \<Rightarrow> conn option" where
  "buf_shift jk c = (
     if cn_rcv_len c \<noteq> 2560 then Some c
     else if cn_left_len c < 0 \<or> cn_process_len c < 0 then None
     else if 0 < cn_left_len c \<and> cn_process_len c < cn_left_len c \<and> \<not> jk_overlap jk then None
     else do {
       d \<leftarrow> mem_read (drop (nat (cn_process_len c)) (cn_recv_buf c)) (nat (cn_left_len c));
       buf \<leftarrow> mem_write (cn_recv_buf c) 0 d;
       Some (c\<lparr>cn_recv_buf := buf, cn_rcv_len := cn_left_len c, cn_process_len := 0\<rparr>)
     })"

text \<open>
  The loop of \<^verbatim>\<open>POFCS_CHANNEL_RUN\<close>. It may move the bytes to the start of the buffer, but the
  pointer \<^verbatim>\<open>head_ptr\<close> whose length it compares (\<open>head\<close>) stays where it was.
\<close>

partial_function (option) run_loop :: "junk \<Rightarrow> int \<Rightarrow> sw \<Rightarrow> sw option" where
  "run_loop jk head s = (case s of (c, dp, g) \<Rightarrow> do {
     l \<leftarrow> head_len (cn_recv_buf c) head;
     (if cn_total_len c < l then do {
        c1 \<leftarrow> buf_shift jk (c\<lparr>cn_left_len := cn_rcv_len c - cn_process_len c\<rparr>);
        (r, n, c', dp', g') \<leftarrow> pofsc_recv (cn_rcv_len c1) (2560 - cn_rcv_len c1) (c1, dp, g);
        (if r \<noteq> POF_OK then Some (c', dp', g')
         else run_loop jk head (c'\<lparr>cn_total_len := cn_total_len c' + n, cn_rcv_len := cn_rcv_len c' + n\<rparr>, dp', g'))
      }
      else Some s)
   })"

declare run_loop.simps [code]

definition run_receive :: "junk \<Rightarrow> sw \<Rightarrow> (bool \<times> sw) option" where
  "run_receive jk s = (case s of (c, dp, g) \<Rightarrow> do {
     complete \<leftarrow> msg_complete (cn_left_len c) (cn_recv_buf c) (cn_process_len c);
     (if complete then Some (True, s)
      else do {
        c1 \<leftarrow> buf_shift jk c;
        (r, n, c', dp', g') \<leftarrow> pofsc_recv (cn_rcv_len c1) (2560 - cn_rcv_len c1) (c1, dp, g);
        (if r \<noteq> POF_OK then Some (False, c', dp', g')
         else do {
           s'' \<leftarrow> run_loop jk (cn_process_len c')
                    (c'\<lparr>cn_rcv_len := cn_rcv_len c' + n, cn_total_len := n + cn_left_len c'\<rparr>, dp', g');
           Some (True, s'')
         })
      })
   })"

text \<open>The message at the front has been dealt with.\<close>

definition consume :: "int \<Rightarrow> conn \<Rightarrow> conn" where
  "consume packet_len c = (
     let p = cn_process_len c + packet_len; left = cn_rcv_len c - p in
     if left = 0 then c\<lparr>cn_process_len := 0, cn_rcv_len := 0, cn_left_len := 0\<rparr>
     else c\<lparr>cn_process_len := p, cn_left_len := left\<rparr>)"

section \<open>The states\<close>

text \<open>The message at the front is handed to the parser, which converts it in place.\<close>

definition parse_front :: "junk \<Rightarrow> sw \<Rightarrow> (ret \<times> sw) option" where
  "parse_front jk s = (case s of (c, dp, g) \<Rightarrow> let p = nat (cn_process_len c) in do {
     (r, msg, dp', g') \<leftarrow> pof_parse_msg_from_controller jk (drop p (cn_recv_buf c)) dp g;
     Some (r, c\<lparr>cn_recv_buf := take p (cn_recv_buf c) @ msg\<rparr>, dp', g')
   })"

definition state_INVALID :: "sw \<Rightarrow> sw option" where
  "state_INVALID s = (case s of (c, dp, g) \<Rightarrow> (case sys os_socket g of
      (None, _) \<Rightarrow> None
    | (Some fd, g1) \<Rightarrow> Some (c\<lparr>cn_sfd := fd\<rparr>, dp, g1\<lparr>conn_state := POFCS_CHANNEL_CONNECTING\<rparr>)))"

definition state_CONNECTING :: "u8 \<Rightarrow> sw \<Rightarrow> sw option" where
  "state_CONNECTING unassigned s = do {
     (r, c, dp, g) \<leftarrow> pofsc_connect unassigned s;
     Some (if r = POF_OK then (c\<lparr>cn_retry_count := 0\<rparr>, dp, g\<lparr>conn_state := POFCS_CHANNEL_CONNECTED\<rparr>)
       else (c\<lparr>cn_retry_count := cn_retry_count c + 1,
               cn_last_error := ucast (pof_soft_error_val POF_CONNECT_SERVER_FAILURE), cn_sfd := 0\<rparr>, dp,
             g\<lparr>conn_state := POFCS_CHANNEL_INVALID\<rparr>))
   }"

definition state_CONNECTED :: "sw \<Rightarrow> sw option" where
  "state_CONNECTED s = (case s of (c, dp, g) \<Rightarrow> do {
     (r, c', dp', g') \<leftarrow> pofsc_send (pofsc_build_header POFT_HELLO 8 (g_upward_xid g)) 8
                           (c, dp, g\<lparr>g_upward_xid := g_upward_xid g + 1\<rparr>);
     Some (c', dp', if r = POF_OK then g'\<lparr>conn_state := POFCS_HELLO\<rparr> else g')
   })"

definition state_HELLO :: "sw \<Rightarrow> sw option" where
  "state_HELLO s = (case s of (c0, dp0, g0) \<Rightarrow> do {
     let c = c0\<lparr>cn_total_len := 0, cn_left_len := 0, cn_rcv_len := 0, cn_process_len := 0\<rparr>;
     (r, n, c1, dp1, g1) \<leftarrow> pofsc_recv 0 2560 (c, dp0, g0);
     (if r \<noteq> POF_OK then Some (c1, dp1, g1)
      else do {
        dp2 \<leftarrow> clear_slots dp1;
        (c3, dp3, g3) \<leftarrow> recv_loop (c1\<lparr>cn_total_len := n, cn_rcv_len := n\<rparr>, dp2, g1\<lparr>conn_state := POFCS_REQUEST_FEATURE\<rparr>);
        (if conn_state g3 = POFCS_CHANNEL_INVALID then Some (c3, dp3, g3)
         else do {
           version \<leftarrow> rd (cn_recv_buf c3) 0;
           type \<leftarrow> rd (cn_recv_buf c3) 1;
           len \<leftarrow> head_len (cn_recv_buf c3) 0;
           Some (consume len c3, dp3,
             if 4 < version \<or> type \<noteq> pof_type_val POFT_HELLO then g3\<lparr>conn_state := POFCS_CHANNEL_INVALID\<rparr> else g3)
         })
      })
   })"

text \<open>
  The three states that expect one request each. A request of another type closes the
  connection; a request that cannot be answered ends the process.
\<close>

definition state_expect ::
  "junk \<Rightarrow> pof_type \<Rightarrow> bool \<Rightarrow> pof_channel_state \<Rightarrow> sw \<Rightarrow> sw option" where
  "state_expect jk type check_version nxt s = do {
     (go, c, dp, g) \<leftarrow> await_message nxt s;
     (if \<not> go \<or> conn_state g = POFCS_CHANNEL_INVALID then Some (c, dp, g)
      else do {
        let p = nat (cn_process_len c);
        version \<leftarrow> rd (cn_recv_buf c) p;
        t \<leftarrow> rd (cn_recv_buf c) (p + 1);
        (if (check_version \<and> 4 < version) \<or> t \<noteq> pof_type_val type then
           Some (c, dp, g\<lparr>conn_state := POFCS_CHANNEL_INVALID\<rparr>)
         else do {
           len \<leftarrow> head_len (cn_recv_buf c) (cn_process_len c);
           (r, c1, dp1, g1) \<leftarrow> parse_front jk (c, dp, g\<lparr>conn_state := nxt\<rparr>);
           (if r \<noteq> POF_OK then None else Some (consume len c1, dp1, g1))
         })
      })
   }"

definition state_REQUEST_FEATURE :: "junk \<Rightarrow> sw \<Rightarrow> sw option" where
  "state_REQUEST_FEATURE jk s = state_expect jk POFT_FEATURES_REQUEST False POFCS_SET_CONFIG s"

definition state_SET_CONFIG :: "junk \<Rightarrow> sw \<Rightarrow> sw option" where
  "state_SET_CONFIG jk s = state_expect jk POFT_SET_CONFIG True POFCS_REQUEST_GET_CONFIG s"

text \<open>
  The last of the three answers before it changes the state, unless the message arrived in this
  iteration.
\<close>

definition state_REQUEST_GET_CONFIG :: "junk \<Rightarrow> sw \<Rightarrow> sw option" where
  "state_REQUEST_GET_CONFIG jk s = do {
     (go, c, dp, g) \<leftarrow> await_message POFCS_CHANNEL_RUN s;
     (if \<not> go \<or> conn_state g = POFCS_CHANNEL_INVALID then Some (c, dp, g)
      else do {
        t \<leftarrow> rd (cn_recv_buf c) (nat (cn_process_len c) + 1);
        (if t \<noteq> pof_type_val POFT_GET_CONFIG_REQUEST then Some (c, dp, g\<lparr>conn_state := POFCS_CHANNEL_INVALID\<rparr>)
         else do {
           len \<leftarrow> head_len (cn_recv_buf c) (cn_process_len c);
           (r, c1, dp1, g1) \<leftarrow> parse_front jk (c, dp, g);
           (if r \<noteq> POF_OK then None
            else Some (consume len c1, dp1, g1\<lparr>conn_state := POFCS_CHANNEL_RUN\<rparr>))
         })
      })
   }"

definition pofsc_run_process :: "junk \<Rightarrow> int \<Rightarrow> sw \<Rightarrow> (ret \<times> sw) option" where
  "pofsc_run_process jk len s = (case s of (c, dp, g) \<Rightarrow> do {
     l \<leftarrow> head_len (cn_recv_buf c) (cn_process_len c);
     (if l \<noteq> len mod 65536 then do {
        s' \<leftarrow> pofsc_set_error POFET_BAD_REQUEST (pof_bad_request_code_val POFBRC_BAD_LEN) s;
        Some (POF_OK, s')
      }
      else do {
        t \<leftarrow> rd (cn_recv_buf c) (nat (cn_process_len c) + 1);
        (if t = pof_type_val POFT_ECHO_REPLY then
           (case sys os_time g of (now, g1) \<Rightarrow> Some (POF_OK, c\<lparr>cn_last_echo_time := now\<rparr>, dp, g1))
         else parse_front jk s)
      })
   })"

definition state_RUN :: "junk \<Rightarrow> sw \<Rightarrow> sw option" where
  "state_RUN jk s = do {
     (go, c, dp, g) \<leftarrow> run_receive jk s;
     (if \<not> go \<or> conn_state g = POFCS_CHANNEL_INVALID then Some (c, dp, g)
      else do {
        len \<leftarrow> head_len (cn_recv_buf c) (cn_process_len c);
        (_, c1, dp1, g1) \<leftarrow> pofsc_run_process jk len (c, dp, g);
        Some (consume len c1, dp1, g1)
      })
   }"

definition main_state :: "junk \<Rightarrow> u8 \<Rightarrow> sw \<Rightarrow> sw option" where
  "main_state jk unassigned s = (case s of (c, dp, g) \<Rightarrow> (case conn_state g of
      POFCS_CHANNEL_INVALID \<Rightarrow> state_INVALID s
    | POFCS_CHANNEL_CONNECTING \<Rightarrow> state_CONNECTING unassigned s
    | POFCS_CHANNEL_CONNECTED \<Rightarrow> state_CONNECTED s
    | POFCS_HELLO \<Rightarrow> state_HELLO s
    | POFCS_REQUEST_FEATURE \<Rightarrow> state_REQUEST_FEATURE jk s
    | POFCS_SET_CONFIG \<Rightarrow> state_SET_CONFIG jk s
    | POFCS_REQUEST_GET_CONFIG \<Rightarrow> state_REQUEST_GET_CONFIG jk s
    | POFCS_CHANNEL_RUN \<Rightarrow> state_RUN jk s
    | _ \<Rightarrow> Some (c\<lparr>cn_last_error := ucast (pof_soft_error_val POF_WRONG_CHANNEL_STATE)\<rparr>, dp, g)))"

text \<open>One iteration of the main task: the case of its state, then the report of a recorded error.\<close>

definition pofsc_main_task_step :: "junk \<Rightarrow> u8 \<Rightarrow> sw \<Rightarrow> sw option" where
  "pofsc_main_task_step jk unassigned s = do {
     (c, dp, g) \<leftarrow> main_state jk unassigned s;
     (if \<not> error_recorded c then Some (c, dp, g)
      else do {
        (len, c1, dp1, g1) \<leftarrow> pofsc_build_error_msg (c, dp, g);
        (r, g2) \<leftarrow> pofbf_queue_write (Some (cn_send_buf c1)) (ucast len) True g1;
        (if r \<noteq> POF_OK then None else Some (c1, dp1, g2))
      })
   }"

section \<open>The send task and the echo timer\<close>

text \<open>
  Reading the queue takes its oldest message. An empty queue makes the task wait, which is no step.
\<close>

definition pofbf_queue_read :: "bytes \<Rightarrow> glob \<Rightarrow> (ret \<times> bytes \<times> glob) option" where
  "pofbf_queue_read buf g = (
     let fail = (\<lambda>e g. case err_no_upward POFET_SOFTWARE_FAILED (SoftE e) g of (r, g') \<Rightarrow> Some (r, buf, g')) in
     if \<not> send_q_valid g then fail POF_READ_MSG_QUEUE_FAILURE g
     else case malloc g of
         (None, g1) \<Rightarrow> fail POF_ALLOCATE_RESOURCE_FAILURE g1
       | (Some _, g1) \<Rightarrow> (case sys os_msgrcv g1 of (ok, g2) \<Rightarrow>
           if \<not> ok then fail POF_READ_MSG_QUEUE_FAILURE g2
           else case send_queue g2 of
               [] \<Rightarrow> None
             | m # ms \<Rightarrow> do {
                 buf' \<leftarrow> mem_write buf 0 m;
                 Some (POF_OK, buf', g2\<lparr>send_queue := ms\<rparr>)
               }))"

definition pofsc_send_msg_task_step :: "sw \<Rightarrow> sw option" where
  "pofsc_send_msg_task_step s = (case s of (c, dp, g) \<Rightarrow>
     if conn_state g \<in> {POFCS_CHANNEL_INVALID, POFCS_CHANNEL_CONNECTING, POFCS_CHANNEL_CONNECTED, POFCS_HELLO} then Some s
     else if conn_state g \<in> {POFCS_SET_CONFIG, POFCS_REQUEST_FEATURE, POFCS_REQUEST_GET_CONFIG, POFCS_CHANNEL_RUN} then do {
       (r, buf, g1) \<leftarrow> pofbf_queue_read (cn_msg_buf c) g;
       let c1 = c\<lparr>cn_msg_buf := buf\<rparr>;
       (if r \<noteq> POF_OK then pofsc_set_error POFET_SOFTWARE_FAILED (ucast (ret_val r)) (c1, dp, g1)
        else do {
          len \<leftarrow> head_len buf 0;
          (r2, c2, dp2, g2) \<leftarrow> pofsc_send buf (nat len) (c1, dp, g1);
          (if r2 = POF_OK then Some (c2, dp2, g2)
           else do {
             let c3 = c2\<lparr>cn_last_error := ucast (ret_val r2), cn_sfd := 0\<rparr>;
             (r3, g3) \<leftarrow> pofbf_queue_write (Some buf) (of_int len) True (g2\<lparr>conn_state := POFCS_CHANNEL_INVALID\<rparr>);
             (if r3 \<noteq> POF_OK then pofsc_set_error POFET_SOFTWARE_FAILED (ucast (ret_val r3)) (c3, dp2, g3)
              else Some (c3, dp2, g3))
           })
        })
     }
     else Some (c\<lparr>cn_last_error := ucast (pof_soft_error_val POF_WRONG_CHANNEL_STATE)\<rparr>, dp, g))"

definition pofsc_echo_timer :: "sw \<Rightarrow> sw option" where
  "pofsc_echo_timer s = (case s of (c, dp, g) \<Rightarrow>
     if conn_state g \<noteq> POFCS_CHANNEL_RUN then Some s
     else do {
       (r, g1) \<leftarrow> pofbf_queue_write (Some (pofsc_build_header POFT_ECHO_REQUEST 8 (g_upward_xid g))) 8 True
                     (g\<lparr>g_upward_xid := g_upward_xid g + 1\<rparr>);
       (if r \<noteq> POF_OK then pofsc_set_error POFET_SOFTWARE_FAILED (ucast (ret_val r)) (c, dp, g1)
        else Some (c, dp, g1))
     })"

end
