(* ===== verification/Pof_Stream.thy ===== *)
theory Pof_Stream
  imports Pof_Switch
begin

text \<open>
  Reassembly of the byte stream of the controller into messages, in the state
  \<^verbatim>\<open>POFCS_CHANNEL_RUN\<close>. The stream that has not been handled yet is the unprocessed part of the
  receive buffer followed by what the network still holds; \<open>run_receive\<close> must bring the first
  message of it completely into the buffer, however the network cuts the stream.
\<close>

section \<open>The stream behind the buffer\<close>

definition unread :: "conn \<Rightarrow> glob \<Rightarrow> bytes" where
  "unread c g = take (nat (cn_rcv_len c - cn_process_len c)) (drop (nat (cn_process_len c)) (cn_recv_buf c)) @ rx g"

definition frame_len :: "bytes \<Rightarrow> nat" where
  "frame_len u = 256 * unat (u ! 2) + unat (u ! 3)"

text \<open>The positions in the buffer are in order.\<close>

definition buf_ok :: "conn \<Rightarrow> bool" where
  "buf_ok c \<longleftrightarrow> length (cn_recv_buf c) = 2560 \<and> 0 \<le> cn_process_len c \<and> cn_process_len c \<le> cn_rcv_len c
     \<and> cn_rcv_len c \<le> 2560"

text \<open>The same in natural numbers: the first unprocessed byte \<open>p\<close>, the first free byte \<open>r\<close>, the stream \<open>u\<close>.\<close>

definition rep :: "conn \<Rightarrow> glob \<Rightarrow> nat \<Rightarrow> nat \<Rightarrow> bytes \<Rightarrow> bool" where
  "rep c g p r u \<longleftrightarrow> cn_process_len c = int p \<and> cn_rcv_len c = int r \<and> p \<le> r \<and> r \<le> 2560
     \<and> length (cn_recv_buf c) = 2560 \<and> u = take (r - p) (drop p (cn_recv_buf c)) @ rx g"

lemma rep_iff: "buf_ok c \<longleftrightarrow> (\<exists>p r. rep c g p r (unread c g))"
proof
  assume "buf_ok c"
  then have "rep c g (nat (cn_process_len c)) (nat (cn_rcv_len c)) (unread c g)"
    by (auto simp: buf_ok_def rep_def unread_def nat_diff_distrib)
  then show "\<exists>p r. rep c g p r (unread c g)" by blast
qed (auto simp: rep_def buf_ok_def)

lemma rep_unread: "rep c g p r u \<Longrightarrow> unread c g = u"
  by (auto simp: rep_def unread_def nat_diff_distrib simp flip: of_nat_diff)

lemma rep_length: "rep c g p r u \<Longrightarrow> length u = r - p + length (rx g)"
  by (auto simp: rep_def)

lemma head_len_rep:
  assumes "rep c g p r u" "4 \<le> r - p"
  shows "head_len (cn_recv_buf c) (int p) = Some (int (frame_len u))"
proof -
  have "u ! i = cn_recv_buf c ! (p + i)" if "i < r - p" for i
    using assms that by (auto simp: rep_def nth_append)
  then have "u ! 2 = cn_recv_buf c ! (p + 2)" "u ! 3 = cn_recv_buf c ! (p + 3)"
    using assms(2) by simp_all
  moreover have "p + 3 < length (cn_recv_buf c)" using assms by (auto simp: rep_def)
  ultimately show ?thesis by (simp add: head_len_def rd_def frame_len_def)
qed

lemma rep_front:
  assumes "rep c g p r u" "k \<le> r - p"
  shows "take k (drop p (cn_recv_buf c)) = take k u"
  using assms by (auto simp: rep_def min_def)

text \<open>A read appends the bytes delivered to the buffer and leaves the stream as it was.\<close>

lemma recv_rep:
  assumes "rep c g p r u" "r < 2560" "rx g \<noteq> []" "0 < k" "k \<le> os_read_len (os g (os_n g))"
  shows "\<exists>n c' g'. pofsc_recv (int r) (2560 - int r) (c, dp, g) = Some (POF_OK, int n, c', dp, g') \<and> 0 < n
    \<and> n \<le> os_read_len (os g (os_n g)) \<and> min k (min (2560 - r) (length (rx g))) \<le> n \<and> r + n \<le> 2560 \<and> cn_rcv_len c' = int r
    \<and> cn_total_len c' = cn_total_len c \<and> cn_left_len c' = cn_left_len c \<and> cn_process_len c' = int p
    \<and> (\<forall>t. rep (c'\<lparr>cn_total_len := t, cn_rcv_len := int r + int n\<rparr>) g' p (r + n) u)
    \<and> os g' = os g \<and> conn_state g' = conn_state g"
proof -
  define n where "n = min (os_read_len (os g (os_n g))) (min (2560 - r) (length (rx g)))"
  define buf where "buf = take r (cn_recv_buf c) @ take n (rx g) @ drop (r + n) (cn_recv_buf c)"
  have n: "0 < n" "n \<le> 2560 - r" "n \<le> length (rx g)" "min k (min (2560 - r) (length (rx g))) \<le> n" "r + n \<le> 2560"
    "n \<le> os_read_len (os g (os_n g))"
    using assms by (auto simp: n_def)
  have len: "length (cn_recv_buf c) = 2560" "p \<le> r" using assms(1) by (auto simp: rep_def)
  have nat: "nat (2560 - int r) = 2560 - r" using assms(2) by simp
  have w: "mem_write (cn_recv_buf c) r (take n (rx g)) = Some buf"
    using n len by (simp add: mem_write_def buf_def)
  have recv: "pofsc_recv (int r) (2560 - int r) (c, dp, g) =
      Some (POF_OK, int n, c\<lparr>cn_recv_buf := buf\<rparr>, dp, g\<lparr>os_n := os_n g + 1, rx := drop n (rx g)\<rparr>)"
    using assms(2) n(1) w by (simp add: pofsc_recv_def sys_def Let_def nat flip: n_def)
  have d: "drop p (take r (cn_recv_buf c)) = take (r - p) (drop p (cn_recv_buf c))" by (simp add: drop_take)
  have l: "length (take (r - p) (drop p (cn_recv_buf c)) @ take n (rx g)) = r + n - p" using len n by simp
  have "drop p buf = (take (r - p) (drop p (cn_recv_buf c)) @ take n (rx g)) @ drop (r + n) (cn_recv_buf c)"
    using len n by (simp add: buf_def d)
  then have "take (r + n - p) (drop p buf) = take (r - p) (drop p (cn_recv_buf c)) @ take n (rx g)"
    using l by (metis append_eq_conv_conj)
  then have "take (r + n - p) (drop p buf) @ drop n (rx g) = u" using assms(1) by (simp add: rep_def)
  moreover have "length buf = 2560" using n len assms(2) by (simp add: buf_def)
  ultimately have "rep (c\<lparr>cn_recv_buf := buf, cn_total_len := t, cn_rcv_len := int r + int n\<rparr>)
      (g\<lparr>os_n := os_n g + 1, rx := drop n (rx g)\<rparr>) p (r + n) u" for t
    using assms(1) n len by (simp add: rep_def)
  then show ?thesis
    using recv n assms(1) by (intro exI [of _ n] exI conjI) (assumption | simp add: rep_def)+
qed

text \<open>
  The loop ends with the whole message in the buffer, when its first four bytes are there and it
  fits behind the position where it starts.
\<close>

lemma run_loop_rep:
  assumes "rep c g p r u" "cn_total_len c = int (r - p)" "4 \<le> r - p" "frame_len u \<le> length u"
    and "p + frame_len u \<le> 2560" "\<forall>t. 0 < os_read_len (os g t)"
  shows "\<exists>c' g' r'. run_loop jk (int p) (c, dp, g) = Some (c', dp, g') \<and> rep c' g' p r' u \<and> frame_len u \<le> r' - p
    \<and> conn_state g' = conn_state g \<and> os g' = os g"
  using assms
proof (induction "frame_len u - (r - p)" arbitrary: c g r rule: less_induct)
  case less
  have hl: "head_len (cn_recv_buf c) (int p) = Some (int (frame_len u))" using head_len_rep [OF less.prems(1,3)] .
  show ?case
  proof (cases "r - p < frame_len u")
    case False
    then have "run_loop jk (int p) (c, dp, g) = Some (c, dp, g)"
      using less.prems(2) by (subst run_loop.simps) (simp add: hl)
    then show ?thesis using False less.prems(1) by auto
  next
    case True
    have pr: "p \<le> r" "cn_rcv_len c = int r" "cn_process_len c = int p" using less.prems(1) by (auto simp: rep_def)
    then have r: "r < 2560" using True less.prems(5) by linarith
    have rx: "rx g \<noteq> []" using rep_length [OF less.prems(1)] less.prems(4) True by auto
    let ?c = "c\<lparr>cn_left_len := int r - int p\<rparr>"
    have rep1: "rep ?c g p r u" using less.prems(1) by (simp add: rep_def)
    obtain n c' g' where n: "pofsc_recv (int r) (2560 - int r) (?c, dp, g) = Some (POF_OK, int n, c', dp, g')"
      "0 < n" "cn_rcv_len c' = int r" "cn_total_len c' = cn_total_len c"
      "\<And>t. rep (c'\<lparr>cn_total_len := t, cn_rcv_len := int r + int n\<rparr>) g' p (r + n) u"
      "os g' = os g" "conn_state g' = conn_state g"
      using recv_rep [OF rep1 r rx, of 1 dp] less.prems(6) by (auto simp: Suc_le_eq)
    let ?c' = "c'\<lparr>cn_total_len := int (r - p) + int n, cn_rcv_len := int r + int n\<rparr>"
    have lt: "int r - int p < int (frame_len u)" using True pr(1) by linarith
    have step: "run_loop jk (int p) (c, dp, g) = run_loop jk (int p) (?c', dp, g')"
      using less.prems(2) lt pr r n(1,3,4)
      by (subst run_loop.simps) (simp add: hl buf_shift_def)
    have "\<exists>c'' g'' r'. run_loop jk (int p) (?c', dp, g') = Some (c'', dp, g'') \<and> rep c'' g'' p r' u
      \<and> frame_len u \<le> r' - p \<and> conn_state g'' = conn_state g' \<and> os g'' = os g'"
      by (rule less.hyps [OF _ n(5)]) (use less.prems n(2,4,6) pr(1) True in auto)
    then show ?thesis using step n(6,7) by simp
  qed
qed

lemma buf_shift_full:
  assumes "rep c g p 2560 u" "cn_left_len c = int (2560 - p)" "jk_overlap jk \<or> 2560 - p \<le> p"
  shows "\<exists>c'. buf_shift jk c = Some c' \<and> rep c' g 0 (2560 - p) u \<and> cn_left_len c' = cn_left_len c
    \<and> cn_total_len c' = cn_total_len c"
proof -
  have b: "cn_process_len c = int p" "p \<le> 2560" "length (cn_recv_buf c) = 2560" "cn_rcv_len c = 2560"
    "u = take (2560 - p) (drop p (cn_recv_buf c)) @ rx g"
    using assms(1) by (auto simp: rep_def)
  let ?buf = "drop p (cn_recv_buf c) @ drop (2560 - p) (cn_recv_buf c)"
  have "buf_shift jk c = Some (c\<lparr>cn_recv_buf := ?buf, cn_rcv_len := int (2560 - p), cn_process_len := 0\<rparr>)"
    using assms(2,3) b by (auto simp: buf_shift_def mem_read_def mem_write_def simp del: of_nat_diff)
  then show ?thesis using b by (simp add: rep_def)
qed

lemma buf_shift_rep:
  assumes "rep c g p r u" "cn_left_len c = int (r - p)" "jk_overlap jk \<or> r - p \<le> p \<or> r \<noteq> 2560"
    and "p + k \<le> 2560 \<or> r = 2560 \<and> k \<le> 2560" "r - p < k"
  shows "\<exists>c' p' r'. buf_shift jk c = Some c' \<and> rep c' g p' r' u \<and> r' - p' = r - p \<and> p' + k \<le> 2560
    \<and> cn_left_len c' = int (r - p)"
proof (cases "r = 2560")
  case False
  then show ?thesis using assms by (auto simp: buf_shift_def rep_def)
next
  case True
  obtain c' where "buf_shift jk c = Some c'" "rep c' g 0 (2560 - p) u" "cn_left_len c' = cn_left_len c"
    using buf_shift_full [of c g p u jk] assms(1-3) True by auto
  then show ?thesis using assms(2,4,5) True by (intro exI [of _ c'] exI [of _ 0] exI [of _ "2560 - p"]) auto
qed

lemma consume_rep:
  assumes "rep c g p r u" "l \<le> r - p"
  shows "buf_ok (consume (int l) c) \<and> unread (consume (int l) c) g = drop l u
    \<and> cn_left_len (consume (int l) c) = cn_rcv_len (consume (int l) c) - cn_process_len (consume (int l) c)"
proof -
  have b: "cn_process_len c = int p" "p \<le> r" "r \<le> 2560" "length (cn_recv_buf c) = 2560" "cn_rcv_len c = int r"
    "u = take (r - p) (drop p (cn_recv_buf c)) @ rx g"
    using assms(1) by (auto simp: rep_def)
  have d: "drop l u = take (r - (p + l)) (drop (p + l) (cn_recv_buf c)) @ rx g"
    using b assms(2) by (simp add: drop_take add.commute)
  show ?thesis
  proof (cases "p + l = r")
    case True
    then show ?thesis using b d by (simp add: consume_def Let_def buf_ok_def unread_def flip: of_nat_add)
  next
    case False
    then have "int r - (int p + int l) \<noteq> 0" by linarith
    moreover have "nat (int r - (int p + int l)) = r - (p + l)" "nat (int p + int l) = p + l" by linarith+
    ultimately show ?thesis using b d assms(2) by (simp add: consume_def Let_def buf_ok_def unread_def)
  qed
qed


definition example_junk :: junk where
  "example_junk = \<lparr>jk_stk = [], jk_lr = zero_lr, jk_mem = (\<lambda>_. []), jk_ret = POF_OK, jk_overlap = True\<rparr>"

definition example_conn :: conn where
  "example_conn = \<lparr>cn_sfd = 5, cn_send_buf = replicate 2560 0, cn_recv_buf = replicate 2560 0,
     cn_msg_buf = replicate 2560 0, cn_retry_count = 0, cn_last_error = 0, cn_last_echo_time = 0,
     cn_total_len = 0, cn_left_len = 0, cn_rcv_len = 0, cn_process_len = 0,
     cn_protocol_error = 0xff # 0xff # replicate 270 0\<rparr>"


section \<open>When the stream is cut badly\<close>

text \<open>
  A header of which at most two bytes have arrived is judged by what the buffer held before. In a
  fresh buffer that is the length 0, and the case goes on with a message of no length.
\<close>

lemma run_receive_split_header:
  assumes "rep c g p p u" "cn_left_len c = 0" "p + 4 \<le> 2560" "cn_recv_buf c ! (p + 2) = 0" "cn_recv_buf c ! (p + 3) = 0"
    and "0 < os_read_len (os g (os_n g))" "os_read_len (os g (os_n g)) \<le> 2" "rx g \<noteq> []"
  shows "\<exists>c' g'. run_receive jk (c, dp, g) = Some (True, c', dp, g') \<and> head_len (cn_recv_buf c') (cn_process_len c') = Some 0
    \<and> cn_rcv_len c' - cn_process_len c' < 4"
proof -
  define n where "n = min (os_read_len (os g (os_n g))) (min (2560 - p) (length (rx g)))"
  define buf where "buf = take p (cn_recv_buf c) @ take n (rx g) @ drop (p + n) (cn_recv_buf c)"
  have n: "0 < n" "n \<le> 2" "n \<le> length (rx g)" using assms(3,6-8) by (auto simp: n_def)
  have b: "cn_process_len c = int p" "cn_rcv_len c = int p" "length (cn_recv_buf c) = 2560"
    using assms(1) by (auto simp: rep_def)
  have nat: "nat (2560 - int p) = 2560 - p" by simp
  have "mem_write (cn_recv_buf c) p (take n (rx g)) = Some buf" using n b assms(3) by (simp add: mem_write_def buf_def)
  then have recv: "pofsc_recv (int p) (2560 - int p) (c, dp, g) =
      Some (POF_OK, int n, c\<lparr>cn_recv_buf := buf\<rparr>, dp, g\<lparr>os_n := os_n g + 1, rx := drop n (rx g)\<rparr>)"
    using n(1) assms(3) by (simp add: pofsc_recv_def sys_def Let_def nat flip: n_def)
  have idx: "buf ! (p + i) = cn_recv_buf c ! (p + i)" if "n \<le> i" "i < 4" for i
    using that n b assms(3) by (simp add: buf_def nth_append)
  have "length buf = 2560" using n b assms(3) by (simp add: buf_def)
  then have hl: "head_len buf (int p) = Some 0"
    using idx [of 2] idx [of 3] n assms(3-5) by (simp add: head_len_def rd_def)
  have shift: "buf_shift jk c = Some c" using b assms(3) by (simp add: buf_shift_def)
  have "run_loop jk (int p) (c\<lparr>cn_recv_buf := buf, cn_rcv_len := int p + int n, cn_total_len := int n\<rparr>, dp,
      g\<lparr>os_n := os_n g + 1, rx := drop n (rx g)\<rparr>) = Some (c\<lparr>cn_recv_buf := buf, cn_rcv_len := int p + int n,
      cn_total_len := int n\<rparr>, dp, g\<lparr>os_n := os_n g + 1, rx := drop n (rx g)\<rparr>)"
    by (subst run_loop.simps) (simp add: hl)
  then show ?thesis
    using assms(2) recv b shift hl n by (simp add: run_receive_def msg_complete_def)
qed

text \<open>
  A message that does not fit behind its start is cut off. When the buffer fills up inside a
  message the loop moves the message to the start of the buffer but goes on comparing the length at
  the old position, where there are now bytes of the message's body. If these give a length that
  has been reached, receiving ends and goes on with an incomplete message.
\<close>

theorem run_loop_stale_head:
  assumes "rep c g p 2560 u" "cn_total_len c = 2560 - int p" "0 < p" "2 * p + 4 \<le> 2560" "jk_overlap jk"
    and "2560 - p + os_read_len (os g (os_n g)) < frame_len u" "frame_len u \<le> length u"
    and "256 * unat (u ! (p + 2)) + unat (u ! (p + 3)) \<le> 2560 - p" "0 < os_read_len (os g (os_n g))"
    and "os_read_len (os g (os_n g)) \<le> p"
  shows "\<exists>c' g'. run_loop jk (int p) (c, dp, g) = Some (c', dp, g') \<and> conn_state g' = conn_state g
    \<and> head_len (cn_recv_buf c') (cn_process_len c') = Some (int (frame_len u))
    \<and> cn_rcv_len c' - cn_process_len c' < int (frame_len u)"
proof -
  have b: "cn_process_len c = int p" "cn_rcv_len c = 2560" "length (cn_recv_buf c) = 2560" "p \<le> 2560"
    using assms(1) by (auto simp: rep_def)
  have hl: "head_len (cn_recv_buf c) (int p) = Some (int (frame_len u))"
    using head_len_rep [OF assms(1)] assms(4) by simp
  have more: "2560 - int p < int (frame_len u)" using assms(6) by linarith
  let ?c = "c\<lparr>cn_left_len := int (2560 - p)\<rparr>"
  have "rep ?c g p 2560 u" using assms(1) by (simp add: rep_def)
  then obtain c1 where c1: "buf_shift jk ?c = Some c1" "rep c1 g 0 (2560 - p) u" "cn_total_len c1 = cn_total_len c"
    using buf_shift_full [of ?c g p u jk] assms(5) by auto
  have rx: "length (rx g) = length u - (2560 - p)" using rep_length [OF c1(2)] by simp
  then have ne: "rx g \<noteq> []" using assms(6,7) by auto
  have rcv1: "cn_rcv_len c1 = int (2560 - p)" using c1(2) by (simp add: rep_def)
  have "2560 - p < 2560" using assms(3) b(4) by simp
  then obtain n c' g' where n: "pofsc_recv (int (2560 - p)) (2560 - int (2560 - p)) (c1, dp, g) = Some (POF_OK, int n, c', dp, g')"
    "n \<le> os_read_len (os g (os_n g))" "cn_rcv_len c' = int (2560 - p)" "cn_total_len c' = cn_total_len c1"
    "\<And>t. rep (c'\<lparr>cn_total_len := t, cn_rcv_len := int (2560 - p) + int n\<rparr>) g' 0 (2560 - p + n) u"
    "conn_state g' = conn_state g"
    using recv_rep [OF c1(2) _ ne, of 1 dp] assms(9) by (auto simp: Suc_le_eq simp del: of_nat_diff)
  let ?t = "cn_total_len c' + int n"
  let ?c' = "c'\<lparr>cn_total_len := ?t, cn_rcv_len := int (2560 - p) + int n\<rparr>"
  have rep': "rep ?c' g' 0 (2560 - p + n) u" by (rule n(5))
  then have buf: "length (cn_recv_buf c') = 2560" "u = take (2560 - p + n) (cn_recv_buf c') @ rx g'" by (auto simp: rep_def)
  have "u ! i = cn_recv_buf c' ! i" if "i < 2560 - p" for i
    using that buf(1) by (subst buf(2)) (auto simp: nth_append)
  then have idx: "u ! (p + 2) = cn_recv_buf c' ! (p + 2)" "u ! (p + 3) = cn_recv_buf c' ! (p + 3)" using assms(4) by simp_all
  define l where "l = 256 * unat (u ! (p + 2)) + unat (u ! (p + 3))"
  have stale: "head_len (cn_recv_buf c') (int p) = Some (int l)"
    using assms(4) buf(1) idx by (simp add: head_len_def rd_def l_def)
  have l: "\<not> ?t < int l" using assms(2,8) n(4) c1(3) b(4) unfolding l_def by linarith
  have ended: "run_loop jk (int p) (?c', dp, g') = Some (?c', dp, g')"
    using stale l by (subst run_loop.simps) simp
  have "run_loop jk (int p) (c, dp, g) = run_loop jk (int p) (?c', dp, g')"
    using more hl assms(2) b c1(1) rcv1 n(1,3) by (subst run_loop.simps) (simp del: of_nat_diff add: int_ops(6))
  moreover have "head_len (cn_recv_buf c') 0 = Some (int (frame_len u))"
    using head_len_rep [OF rep'] assms(4) by simp
  ultimately show ?thesis using ended rep' n(2,6) assms(6) by (auto simp: rep_def)
qed

lemma run_loop_stale_head_witness:
  "\<exists>c' g'. run_loop example_junk 400
      (example_conn\<lparr>cn_recv_buf := replicate 400 0 @ [4, 15, 8, 0x90] @ replicate 2156 0, cn_process_len := 400,
         cn_rcv_len := 2560, cn_total_len := 2160\<rparr>, example_dp,
       example_glob\<lparr>rx := replicate 32 0, os := \<lambda>_. example_os\<lparr>os_read_len := 20\<rparr>\<rparr>) = Some (c', example_dp, g')
    \<and> cn_rcv_len c' - cn_process_len c' < 2192"
proof -
  let ?c = "example_conn\<lparr>cn_recv_buf := replicate 400 0 @ [4, 15, 8, 0x90] @ replicate 2156 0, cn_process_len := 400,
    cn_rcv_len := 2560, cn_total_len := 2160\<rparr>"
  let ?g = "example_glob\<lparr>rx := replicate 32 0, os := \<lambda>_. example_os\<lparr>os_read_len := 20\<rparr>\<rparr>"
  let ?u = "[4, 15, 8, 0x90] @ replicate 2188 0 :: bytes"
  have "replicate 2188 0 = replicate 2156 0 @ replicate 32 (0 :: u8)" by (simp only: replicate_add [symmetric]) simp
  then have rep: "rep ?c ?g 400 2560 ?u" by (simp add: rep_def)
  have f: "frame_len ?u = 2192" by (simp add: frame_len_def)
  have z: "?u ! 402 = 0" "?u ! 403 = 0" by (simp_all add: nth_append)
  show ?thesis
    using run_loop_stale_head [OF rep, of example_junk example_dp] z unfolding f by (auto simp: example_junk_def example_glob_def example_os_def)
qed

end
