(* ===== verification/Pof_Channel.thy ===== *)
theory Pof_Channel
  imports Pof_Stream
begin

text \<open>
  The state machine of the connection. The main task, the send task and the echo timer are
  interleaved; the theorem shows that \<^verbatim>\<open>POFCS_CHANNEL_RUN\<close>, the state in which the controller can
  change the switch, is only reached through the whole handshake.
\<close>

named_theorems state_frame \<open>routines that keep the state of the channel\<close>

section \<open>Routines that keep the state of the channel\<close>

lemma malloc_state [state_frame]: "malloc g = (x, g') \<Longrightarrow> conn_state g' = conn_state g"
  by (auto simp: malloc_def Let_def)

lemma queue_write_state [state_frame]: "pofbf_queue_write m l t g = Some (r, g') \<Longrightarrow> conn_state g' = conn_state g"
  by (auto simp: pofbf_queue_write_def err_no_upward_def pofec_set_error_def bind_eq_Some_conv Let_def
      split: if_splits prod.splits option.splits dest: malloc_state)

lemma reply_msg_state [state_frame]: "pofec_reply_msg t x l b g = Some (r, g') \<Longrightarrow> conn_state g' = conn_state g"
  by (auto simp: pofec_reply_msg_def pofsc_send_packet_upward_def err_no_upward_def pofec_set_error_def
      bind_eq_Some_conv Let_def split: if_splits dest!: queue_write_state)

lemma reply_error_state [state_frame]:
  assumes "pofec_reply_error t c x g = Some (r, g')"
  shows "conn_state g' = conn_state g"
proof -
  have "conn_state (snd (r, g')) = conn_state g"
  proof (rule pofec_reply_error.raw_induct [where P = "\<lambda>type code xid g y. conn_state (snd y) = conn_state g", OF _ assms])
    fix f type code xid g y
    assume IH: "\<And>type code xid g y. f type code xid g = Some y \<Longrightarrow> conn_state (snd y) = conn_state g"
      and step: "do {
        buf \<leftarrow> error_body type code g;
        (r, g1) \<leftarrow> pofec_reply_msg POFT_ERROR xid 272 None (g\<lparr>pofec_queue_msg_buf := buf\<rparr>);
        (if r \<noteq> POF_OK then do {
           let g2 = pofec_set_error POFET_SOFTWARE_FAILED (SoftE POF_WRITE_MSG_QUEUE_FAILURE) g1;
           (_, g3) \<leftarrow> f POFET_SOFTWARE_FAILED (SoftE POF_WRITE_MSG_QUEUE_FAILURE)
               (g_upward_xid g2) (g2\<lparr>g_upward_xid := g_upward_xid g2 + 1\<rparr>);
           Some (ERR (SoftE POF_WRITE_MSG_QUEUE_FAILURE), g3)
         } else Some (POF_OK, g1)) } = Some y"
    show "conn_state (snd y) = conn_state g"
      using step by (auto simp: bind_eq_Some_conv Let_def pofec_set_error_def split: if_splits
          dest!: IH reply_msg_state)
  qed
  then show ?thesis by simp
qed

lemma err_upward_state [state_frame]:
  "err_upward t c g = Some (r, g') \<Longrightarrow> conn_state g' = conn_state g"
  "err_upward_new t c g = Some (r, g') \<Longrightarrow> conn_state g' = conn_state g"
  by (auto simp: err_upward_def err_upward_new_def pofec_set_error_def bind_eq_Some_conv dest!: reply_error_state)

lemma send_reply_state [state_frame]: "send_reply t l b g = Some (r, g') \<Longrightarrow> conn_state g' = conn_state g"
  by (auto simp: send_reply_def bind_eq_Some_conv split: if_splits dest!: reply_msg_state err_upward_state)

lemma port_report_state [state_frame]: "poflr_port_report n p g = Some (r, g') \<Longrightarrow> conn_state g' = conn_state g"
  by (auto simp: poflr_port_report_def bind_eq_Some_conv split: if_splits dest!: reply_msg_state err_upward_state)

lemma reply_resource_state [state_frame]:
  "poflr_reply_config g = Some (r, g') \<Longrightarrow> conn_state g' = conn_state g"
  "poflr_reply_feature_resource lr g = Some (r, g') \<Longrightarrow> conn_state g' = conn_state g"
  "poflr_reply_table_resource lr g = Some (r, g') \<Longrightarrow> conn_state g' = conn_state g"
  "poflr_reset_dev_id g = Some (r, g') \<Longrightarrow> conn_state g' = conn_state g"
  by (auto simp: poflr_reply_config_def poflr_reply_feature_resource_def poflr_reply_table_resource_def
      poflr_reset_dev_id_def bind_eq_Some_conv Let_def dest!: send_reply_state)

lemma reply_port_resource_state [state_frame]:
  assumes "poflr_reply_port_resource lr g = Some (r, g')"
  shows "conn_state g' = conn_state g"
proof -
  obtain x where x: "hmap_struct_traverse (\<lambda>_. portPofIndexMap lr)
       (\<lambda>port g. do { (_, g1) \<leftarrow> poflr_port_report 0 (hn_obj port) g; Some (None :: ret option, g1) }) g = Some (x, g')"
    using assms by (auto simp: poflr_reply_port_resource_def bind_eq_Some_conv)
  show ?thesis
    by (rule trav_keeps [OF x, of "\<lambda>g'. conn_state g' = conn_state g"])
      (auto simp: bind_eq_Some_conv dest!: port_report_state)
qed

lemma reply_each_slot_state:
  assumes "reply_each_slot f dp g = Some (r, g')"
    and f: "\<And>lr g r g'. f lr g = Some (r, g') \<Longrightarrow> conn_state g' = conn_state g"
  shows "conn_state g' = conn_state g"
proof -
  obtain x where x: "hmap_struct_traverse (\<lambda>_. slotMap dp)
       (\<lambda>n g. do { (r, g1) \<leftarrow> f (hn_obj n) g; Some (if r \<noteq> POF_OK then Some r else None, g1) }) g = Some (x, g')"
    using assms(1) by (auto simp: reply_each_slot_def bind_eq_Some_conv)
  show ?thesis
    by (rule trav_keeps [OF x, of "\<lambda>g'. conn_state g' = conn_state g"]) (auto simp: bind_eq_Some_conv dest!: f)
qed

lemma each_slot_state [state_frame]:
  "reply_each_slot poflr_reply_feature_resource dp g = Some (r, g') \<Longrightarrow> conn_state g' = conn_state g"
  "reply_each_slot poflr_reply_table_resource dp g = Some (r, g') \<Longrightarrow> conn_state g' = conn_state g"
  "reply_each_slot poflr_reply_port_resource dp g = Some (r, g') \<Longrightarrow> conn_state g' = conn_state g"
  by (erule reply_each_slot_state, erule state_frame)+

text \<open>The three requests of the handshake.\<close>

lemma parse_handshake_state:
  assumes "type \<in> {pof_type_val POFT_FEATURES_REQUEST, pof_type_val POFT_SET_CONFIG, pof_type_val POFT_GET_CONFIG_REQUEST}"
    and "parse_body jk type msg dp g = Some (r, msg', dp', g')"
  shows "conn_state g' = conn_state g"
  using assms
  by (auto simp: parse_body_def parse_FEATURES_REQUEST_def parse_SET_CONFIG_def parse_GET_CONFIG_REQUEST_def
      poflr_set_config_def bind_eq_Some_conv split: if_splits dest!: each_slot_state reply_resource_state)

lemma put_le_front: "put_le n bs off w = Some bs' \<Longrightarrow> i < off \<Longrightarrow> rd bs' i = rd bs i"
  by (auto simp: put_le_def rd_def nth_append min_def split: if_splits)

lemma header_keeps_type:
  assumes "run_conv (pof_NtoH_transfer_header 0) msg = Some msg'"
  shows "rd msg' 1 = rd msg 1"
  using assms
  by (auto simp: pof_NtoH_transfer_header_def bind_eq_Some_conv put16_def put32_def dest!: put_le_front [where i = 1])

lemma parse_front_state:
  assumes "parse_front jk (c, dp, g) = Some (r, c', dp', g')"
    and "rd (cn_recv_buf c) (nat (cn_process_len c) + 1) \<in> Some ` {pof_type_val POFT_FEATURES_REQUEST,
      pof_type_val POFT_SET_CONFIG, pof_type_val POFT_GET_CONFIG_REQUEST}"
  shows "conn_state g' = conn_state g"
proof -
  have "rd (drop (nat (cn_process_len c)) (cn_recv_buf c)) 1 = rd (cn_recv_buf c) (nat (cn_process_len c) + 1)"
    by (auto simp: rd_def)
  then show ?thesis
    using assms by (auto simp: parse_front_def pof_parse_msg_from_controller_def bind_eq_Some_conv Let_def
        dest!: header_keeps_type parse_handshake_state [rotated])
qed

section \<open>One step of a task\<close>

abbreviation sw_state :: "sw \<Rightarrow> pof_channel_state" where
  "sw_state s \<equiv> conn_state (snd (snd s))"

text \<open>A connection that breaks is in the invalid state.\<close>

lemma disconn_state: "pofsc_performance_after_ctrl_disconn s = Some s' \<Longrightarrow> sw_state s' = POFCS_CHANNEL_INVALID"
  by (cases s) (auto simp: pofsc_performance_after_ctrl_disconn_def bind_eq_Some_conv split: if_splits)

lemma recv_state:
  "pofsc_recv off len s = Some (r, n, s') \<Longrightarrow>
   sw_state s' = sw_state s \<and> (r = POF_OK \<or> len = 0) \<or> sw_state s' = POFCS_CHANNEL_INVALID \<and> r \<noteq> POF_OK"
  by (cases s) (auto simp: pofsc_recv_def sys_def Let_def bind_eq_Some_conv split: if_splits dest!: disconn_state)

lemma send_state:
  "pofsc_send buf len s = Some (r, s') \<Longrightarrow>
   sw_state s' = (if r = POF_OK then sw_state s else POFCS_CHANNEL_INVALID)"
  by (cases s) (auto simp: pofsc_send_def sys_def bind_eq_Some_conv split: if_splits dest!: disconn_state)

lemma set_error_state: "pofsc_set_error t c s = Some s' \<Longrightarrow> sw_state s' = sw_state s"
  by (cases s) (auto simp: pofsc_set_error_def bind_eq_Some_conv)

lemma recv_loop_state:
  assumes "recv_loop s = Some s'"
  shows "sw_state s' \<in> {sw_state s, POFCS_CHANNEL_INVALID}"
proof (rule recv_loop.raw_induct [where P = "\<lambda>s s'. sw_state s' \<in> {sw_state s, POFCS_CHANNEL_INVALID}", OF _ assms])
  fix f s y
  assume IH: "\<And>s y. f s = Some y \<Longrightarrow> sw_state y \<in> {sw_state s, POFCS_CHANNEL_INVALID}"
    and step: "(case s of (c, dp, g) \<Rightarrow> do {
     l \<leftarrow> head_len (cn_recv_buf c) (cn_process_len c);
     (if cn_total_len c < l then do {
        (r, n, c', dp', g') \<leftarrow> pofsc_recv (cn_rcv_len c) (2560 - cn_rcv_len c) s;
        (if r \<noteq> POF_OK then Some (c', dp', g')
         else f (c'\<lparr>cn_total_len := cn_total_len c' + n, cn_rcv_len := cn_rcv_len c' + n\<rparr>, dp', g'))
      }
      else Some s)
   }) = Some y"
  show "sw_state y \<in> {sw_state s, POFCS_CHANNEL_INVALID}"
    using step by (cases s) (auto simp: bind_eq_Some_conv split: if_splits dest!: IH recv_state)
qed

text \<open>The state that follows in the handshake.\<close>

primrec channel_next :: "pof_channel_state \<Rightarrow> pof_channel_state" where
  "channel_next POFCS_CHANNEL_INVALID = POFCS_CHANNEL_CONNECTING"
| "channel_next POFCS_CHANNEL_CONNECTING = POFCS_CHANNEL_CONNECTED"
| "channel_next POFCS_CHANNEL_CONNECTED = POFCS_HELLO"
| "channel_next POFCS_HELLO = POFCS_REQUEST_FEATURE"
| "channel_next POFCS_REQUEST_FEATURE = POFCS_SET_CONFIG"
| "channel_next POFCS_SET_CONFIG = POFCS_REQUEST_GET_CONFIG"
| "channel_next POFCS_REQUEST_GET_CONFIG = POFCS_CHANNEL_RUN"
| "channel_next POFCS_CHANNEL_RUN = POFCS_CHANNEL_RUN"
| "channel_next POFCS_STATE_MAX = POFCS_STATE_MAX"

abbreviation moves :: "sw \<Rightarrow> sw \<Rightarrow> bool" where
  "moves s s' \<equiv> sw_state s' \<in> {sw_state s, POFCS_CHANNEL_INVALID, channel_next (sw_state s)}"

lemma await_state:
  "await_message nxt s = Some (go, s') \<Longrightarrow>
   sw_state s' \<in> {sw_state s, nxt, POFCS_CHANNEL_INVALID}"
  by (cases s) (auto simp: await_message_def bind_eq_Some_conv split: if_splits dest!: recv_state recv_loop_state)

lemma connect_state: "pofsc_connect u s = Some (r, s') \<Longrightarrow> sw_state s' = sw_state s"
  by (cases s) (auto simp: pofsc_connect_def sys_def Let_def bind_eq_Some_conv split: if_splits option.splits prod.splits)

lemma state_expect_moves:
  assumes "state_expect jk type v nxt s = Some s'" "channel_next (sw_state s) = nxt"
    and "type \<in> {POFT_FEATURES_REQUEST, POFT_SET_CONFIG, POFT_GET_CONFIG_REQUEST}"
  shows "moves s s'"
  using assms
  by (auto simp: state_expect_def bind_eq_Some_conv Let_def split: if_splits
      dest!: await_state parse_front_state)

lemma main_state_moves:
  assumes "main_state jk u s = Some s'" "sw_state s \<noteq> POFCS_CHANNEL_RUN"
  shows "moves s s'"
proof (cases s)
  case (fields c dp g)
  show ?thesis
  proof (cases "conn_state g")
    case POFCS_CHANNEL_INVALID
    then show ?thesis using assms fields
      by (auto simp: main_state_def state_INVALID_def sys_def split: option.splits)
  next
    case POFCS_CHANNEL_CONNECTING
    then show ?thesis using assms fields
      by (auto simp: main_state_def state_CONNECTING_def bind_eq_Some_conv split: if_splits)
  next
    case POFCS_CHANNEL_CONNECTED
    then show ?thesis using assms fields
      by (auto simp: main_state_def state_CONNECTED_def bind_eq_Some_conv dest!: send_state split: if_splits)
  next
    case POFCS_HELLO
    then show ?thesis using assms fields
      by (auto simp: main_state_def state_HELLO_def bind_eq_Some_conv Let_def dest!: recv_state recv_loop_state split: if_splits)
  next
    case POFCS_REQUEST_FEATURE
    then show ?thesis using assms fields
      state_expect_moves [of jk POFT_FEATURES_REQUEST False POFCS_SET_CONFIG s s']
      by (simp add: main_state_def state_REQUEST_FEATURE_def)
  next
    case POFCS_SET_CONFIG
    then show ?thesis using assms fields
      state_expect_moves [of jk POFT_SET_CONFIG True POFCS_REQUEST_GET_CONFIG s s']
      by (simp add: main_state_def state_SET_CONFIG_def)
  next
    case POFCS_REQUEST_GET_CONFIG
    then show ?thesis using assms fields
      by (auto simp: main_state_def state_REQUEST_GET_CONFIG_def bind_eq_Some_conv split: if_splits dest!: await_state)
  qed (use assms fields in \<open>auto simp: main_state_def\<close>)
qed

lemma main_step_moves:
  assumes "pofsc_main_task_step jk u s = Some s'" "sw_state s \<noteq> POFCS_CHANNEL_RUN"
  shows "moves s s'"
proof -
  obtain c dp g where m: "main_state jk u s = Some (c, dp, g)" "sw_state s' = conn_state g"
    using assms(1) by (auto simp: pofsc_main_task_step_def pofsc_build_error_msg_def bind_eq_Some_conv
        split: if_splits dest!: queue_write_state)
  show ?thesis using main_state_moves [OF m(1) assms(2)] m(2) by simp
qed

lemma queue_read_state: "pofbf_queue_read buf g = Some (r, buf', g') \<Longrightarrow> conn_state g' = conn_state g"
  by (auto simp: pofbf_queue_read_def Let_def err_no_upward_def pofec_set_error_def sys_def bind_eq_Some_conv
      split: if_splits option.splits prod.splits list.splits dest: malloc_state)

lemma send_task_moves:
  "pofsc_send_msg_task_step s = Some s' \<Longrightarrow> sw_state s' \<in> {sw_state s, POFCS_CHANNEL_INVALID}"
  by (cases s) (auto simp: pofsc_send_msg_task_step_def Let_def bind_eq_Some_conv split: if_splits
      dest!: queue_read_state send_state queue_write_state set_error_state)

lemma echo_keeps: "pofsc_echo_timer s = Some s' \<Longrightarrow> sw_state s' = sw_state s"
  by (cases s) (auto simp: pofsc_echo_timer_def bind_eq_Some_conv split: if_splits dest!: queue_write_state set_error_state)

section \<open>Runs of the interleaved tasks\<close>

inductive sw_step :: "junk \<Rightarrow> u8 \<Rightarrow> sw \<Rightarrow> sw \<Rightarrow> bool" for jk u where
  main_task: "pofsc_main_task_step jk u s = Some s' \<Longrightarrow> sw_step jk u s s'"
| send_task: "pofsc_send_msg_task_step s = Some s' \<Longrightarrow> sw_step jk u s s'"
| echo_timer: "pofsc_echo_timer s = Some s' \<Longrightarrow> sw_step jk u s s'"

inductive_cases sw_stepE: "sw_step jk u s s'"

text \<open>
  A run from the start until the channel works for the first time, with the states it passed,
  the last one first.
\<close>

inductive channel_run :: "junk \<Rightarrow> u8 \<Rightarrow> pof_channel_state list \<Rightarrow> sw \<Rightarrow> bool" for jk u where
  start: "sw_state s = POFCS_CHANNEL_INVALID \<Longrightarrow> channel_run jk u [POFCS_CHANNEL_INVALID] s"
| step: "channel_run jk u h s \<Longrightarrow> sw_state s \<noteq> POFCS_CHANNEL_RUN \<Longrightarrow> sw_step jk u s s' \<Longrightarrow> channel_run jk u (sw_state s' # h) s'"

lemma sw_step_moves: "sw_step jk u s s' \<Longrightarrow> sw_state s \<noteq> POFCS_CHANNEL_RUN \<Longrightarrow> moves s s'"
  by (elim sw_stepE) (blast dest: main_step_moves send_task_moves echo_keeps)+

text \<open>The states of the handshake before a state, that state first.\<close>

primrec handshake :: "pof_channel_state \<Rightarrow> pof_channel_state list" where
  "handshake POFCS_CHANNEL_INVALID = [POFCS_CHANNEL_INVALID]"
| "handshake POFCS_CHANNEL_CONNECTING = [POFCS_CHANNEL_CONNECTING, POFCS_CHANNEL_INVALID]"
| "handshake POFCS_CHANNEL_CONNECTED = [POFCS_CHANNEL_CONNECTED, POFCS_CHANNEL_CONNECTING, POFCS_CHANNEL_INVALID]"
| "handshake POFCS_HELLO = [POFCS_HELLO, POFCS_CHANNEL_CONNECTED, POFCS_CHANNEL_CONNECTING, POFCS_CHANNEL_INVALID]"
| "handshake POFCS_REQUEST_FEATURE = POFCS_REQUEST_FEATURE #
     [POFCS_HELLO, POFCS_CHANNEL_CONNECTED, POFCS_CHANNEL_CONNECTING, POFCS_CHANNEL_INVALID]"
| "handshake POFCS_SET_CONFIG = POFCS_SET_CONFIG # POFCS_REQUEST_FEATURE #
     [POFCS_HELLO, POFCS_CHANNEL_CONNECTED, POFCS_CHANNEL_CONNECTING, POFCS_CHANNEL_INVALID]"
| "handshake POFCS_REQUEST_GET_CONFIG = POFCS_REQUEST_GET_CONFIG # POFCS_SET_CONFIG # POFCS_REQUEST_FEATURE #
     [POFCS_HELLO, POFCS_CHANNEL_CONNECTED, POFCS_CHANNEL_CONNECTING, POFCS_CHANNEL_INVALID]"
| "handshake POFCS_CHANNEL_RUN = POFCS_CHANNEL_RUN # POFCS_REQUEST_GET_CONFIG # POFCS_SET_CONFIG # POFCS_REQUEST_FEATURE #
     [POFCS_HELLO, POFCS_CHANNEL_CONNECTED, POFCS_CHANNEL_CONNECTING, POFCS_CHANNEL_INVALID]"
| "handshake POFCS_STATE_MAX = []"

lemma handshake_next:
  "x \<noteq> POFCS_CHANNEL_RUN \<Longrightarrow> x \<noteq> POFCS_STATE_MAX \<Longrightarrow> handshake (channel_next x) = channel_next x # handshake x"
  by (cases x) simp_all

lemma handshake_hd: "x \<noteq> POFCS_STATE_MAX \<Longrightarrow> \<exists>t. handshake x = x # t"
  by (cases x) simp_all

lemma channel_next_MAX: "channel_next x = POFCS_STATE_MAX \<longleftrightarrow> x = POFCS_STATE_MAX" "channel_next x = x \<longleftrightarrow> x \<in> {POFCS_CHANNEL_RUN, POFCS_STATE_MAX}"
  by (cases x; simp)+

lemma channel_run_history:
  assumes "channel_run jk u h s"
  shows "\<exists>t h'. h = sw_state s # t \<and> sw_state s \<noteq> POFCS_STATE_MAX \<and> remdups_adj h = handshake (sw_state s) @ h'"
  using assms
proof (induction rule: channel_run.induct)
  case (start s)
  then show ?case by simp
next
  case (step h s s')
  obtain t h' where h: "h = sw_state s # t" "sw_state s \<noteq> POFCS_STATE_MAX" "remdups_adj h = handshake (sw_state s) @ h'"
    using step.IH by blast
  have m: "moves s s'" using sw_step_moves [OF step.hyps(3,2)] .
  obtain t' where t': "handshake (sw_state s) = sw_state s # t'" using handshake_hd [OF h(2)] by blast
  consider "sw_state s' = sw_state s" | "sw_state s' \<noteq> sw_state s" "sw_state s' = POFCS_CHANNEL_INVALID"
    | "sw_state s' \<noteq> sw_state s" "sw_state s' = channel_next (sw_state s)" using m by blast
  then show ?case
  proof cases
    case 1
    then show ?thesis using h by simp
  next
    case 2
    then show ?thesis using h by simp
  next
    case 3
    then show ?thesis using h handshake_next [OF step.hyps(2) h(2)] channel_next_MAX(1) [of "sw_state s"] by simp
  qed
qed


text \<open>Steps of the main task alone, with the states they pass.\<close>

primrec main_steps :: "nat \<Rightarrow> junk \<Rightarrow> u8 \<Rightarrow> sw \<Rightarrow> (pof_channel_state list \<times> sw) option" where
  "main_steps 0 jk u s = Some ([sw_state s], s)"
| "main_steps (Suc n) jk u s = do {
     (h, s1) \<leftarrow> main_steps n jk u s;
     (if sw_state s1 = POFCS_CHANNEL_RUN then None
      else do { s2 \<leftarrow> pofsc_main_task_step jk u s1; Some (sw_state s2 # h, s2) })
   }"

lemma main_steps_run:
  "sw_state s = POFCS_CHANNEL_INVALID \<Longrightarrow> main_steps n jk u s = Some (h, s') \<Longrightarrow> channel_run jk u h s'"
proof (induction n arbitrary: h s')
  case 0
  then have "h = [POFCS_CHANNEL_INVALID]" "s' = s" by simp_all
  then show ?case using channel_run.start [OF 0(1)] by simp
next
  case (Suc n)
  obtain h1 s1 where 1: "main_steps n jk u s = Some (h1, s1)" "sw_state s1 \<noteq> POFCS_CHANNEL_RUN"
    "pofsc_main_task_step jk u s1 = Some s'" "h = sw_state s' # h1"
    using Suc.prems(2) by (auto simp: bind_eq_Some_conv split: if_splits)
  show ?case
    unfolding 1(4) by (rule channel_run.step [OF Suc.IH [OF Suc.prems(1) 1(1)] 1(2)]) (rule sw_step.main_task [OF 1(3)])
qed

text \<open>A controller that sends its four messages at once.\<close>

definition example_stream :: bytes where
  "example_stream = [4, 0, 0, 8, 0, 0, 0, 1] @ [4, 5, 0, 8, 0, 0, 0, 2] @ [4, 9, 0, 16, 0, 0, 0, 3, 0, 0, 0, 0, 0, 0, 0, 128]
     @ [4, 7, 0, 8, 0, 0, 0, 4]"

definition example_start :: sw where
  "example_start = (example_conn\<lparr>cn_recv_buf := replicate 64 0, cn_send_buf := [], cn_msg_buf := [],
       cn_protocol_error := [0xff, 0xff]\<rparr>, example_dp,
     example_glob\<lparr>conn_state := POFCS_CHANNEL_INVALID, pofec_queue_msg_buf := replicate 16 0, poflr_switch_feature := [],
     os := \<lambda>_. example_os\<lparr>os_stream := example_stream\<rparr>\<rparr>)"

lemma example_handshake: "map_option (sw_state \<circ> snd) (main_steps 7 example_junk 0 example_start) = Some POFCS_CHANNEL_RUN"
  by code_simp


end
