(* ===== verification/Pof_List.thy ===== *)
theory Pof_List
  imports Pof_Global
begin

text \<open>
  The intrusive lists of \<^verbatim>\<open>common/pof_list.c\<close> and the debugging allocator of
  \<^verbatim>\<open>common/pof_memory.c\<close> that keeps one.

  A list is a ring of nodes through the node \<^verbatim>\<open>nil\<close> of its head. The nodes are in an explicit
  memory, from addresses to nodes, because every operation writes through the pointers of the
  neighbours of the node it is given. The address of a \<^verbatim>\<open>struct list\<close> is the address of its first
  member \<^verbatim>\<open>nil\<close>, and that of a \<^verbatim>\<open>struct memoryNode\<close> the address of its first member \<^verbatim>\<open>node\<close>.
  The locale \<open>node_list\<close> states what the operations promise about the sequence of nodes.
\<close>

section \<open>Nodes in memory\<close>

record listNode =
  ln_prev :: nat
  ln_next :: nat

type_synonym list_mem = "nat \<rightharpoonup> listNode"

definition get_prev :: "nat \<Rightarrow> list_mem \<Rightarrow> nat option" where
  "get_prev p h = map_option ln_prev (h p)"

definition get_next :: "nat \<Rightarrow> list_mem \<Rightarrow> nat option" where
  "get_next p h = map_option ln_next (h p)"

definition set_prev :: "nat \<Rightarrow> nat \<Rightarrow> list_mem \<Rightarrow> list_mem option" where
  "set_prev p v h = (case h p of None \<Rightarrow> None | Some n \<Rightarrow> Some (h(p \<mapsto> n\<lparr>ln_prev := v\<rparr>)))"

definition set_next :: "nat \<Rightarrow> nat \<Rightarrow> list_mem \<Rightarrow> list_mem option" where
  "set_next p v h = (case h p of None \<Rightarrow> None | Some n \<Rightarrow> Some (h(p \<mapsto> n\<lparr>ln_next := v\<rparr>)))"

text \<open>The head of a list: the address of its node \<^verbatim>\<open>nil\<close>, and the count.\<close>

record list_head =
  l_nil :: nat
  l_count :: u32

type_synonym list_state = "list_head \<times> list_mem"

section \<open>Operations\<close>

definition list_create :: "list_mem \<Rightarrow> glob \<Rightarrow> list_state option \<times> glob" where
  "list_create h g = (case POF_MALLOC_SAFE g of
      (None, g1) \<Rightarrow> (None, g1)
    | (Some p, g1) \<Rightarrow> (Some (\<lparr>l_nil = p, l_count = 0\<rparr>, h(p \<mapsto> \<lparr>ln_prev = p, ln_next = p\<rparr>)), g1))"

definition list_clear :: "list_state \<Rightarrow> list_state option" where
  "list_clear s = (case s of (l, h) \<Rightarrow> do {
     h1 \<leftarrow> set_prev (l_nil l) (l_nil l) h;
     h2 \<leftarrow> set_next (l_nil l) (l_nil l) h1;
     Some (l\<lparr>l_count := 0\<rparr>, h2)
   })"

definition list_nodeInsertTail :: "nat \<Rightarrow> list_state \<Rightarrow> list_state option" where
  "list_nodeInsertTail node s = (case s of (l, h) \<Rightarrow> do {
     last \<leftarrow> get_prev (l_nil l) h;
     h1 \<leftarrow> set_next last node h;
     q \<leftarrow> get_prev (l_nil l) h1;
     h2 \<leftarrow> set_prev node q h1;
     h3 \<leftarrow> set_next node (l_nil l) h2;
     h4 \<leftarrow> set_prev (l_nil l) node h3;
     Some (l\<lparr>l_count := l_count l + 1\<rparr>, h4)
   })"

definition list_nodeInsertHead :: "nat \<Rightarrow> list_state \<Rightarrow> list_state option" where
  "list_nodeInsertHead node s = (case s of (l, h) \<Rightarrow> do {
     first \<leftarrow> get_next (l_nil l) h;
     h1 \<leftarrow> set_prev first node h;
     h2 \<leftarrow> set_prev node (l_nil l) h1;
     q \<leftarrow> get_next (l_nil l) h2;
     h3 \<leftarrow> set_next node q h2;
     h4 \<leftarrow> set_next (l_nil l) node h3;
     Some (l\<lparr>l_count := l_count l + 1\<rparr>, h4)
   })"

definition list_nodeDelete :: "nat \<Rightarrow> list_state \<Rightarrow> list_state option" where
  "list_nodeDelete node s = (case s of (l, h) \<Rightarrow> do {
     p \<leftarrow> get_prev node h;
     n \<leftarrow> get_next node h;
     h1 \<leftarrow> set_next p n h;
     n' \<leftarrow> get_next node h1;
     p' \<leftarrow> get_prev node h1;
     h2 \<leftarrow> set_prev n' p' h1;
     Some (l\<lparr>l_count := l_count l - 1\<rparr>, h2)
   })"

text \<open>
  The loops \<^verbatim>\<open>LIST_NODES_IN_STRUCT_TRAVERSE\<close> and its reverse: the successor is read before the body,
  which may leave the loop with a value. \<open>lst\<close> reads the list out of the state of the body.
\<close>

partial_function (option) list_trav ::
  "(nat \<Rightarrow> list_mem \<Rightarrow> nat option) \<Rightarrow> ('s \<Rightarrow> list_state) \<Rightarrow> (nat \<Rightarrow> 's \<Rightarrow> ('r option \<times> 's) option) \<Rightarrow> nat \<Rightarrow> 's
    \<Rightarrow> ('r option \<times> 's) option" where
  "list_trav link lst body obj s = (
     if obj = l_nil (fst (lst s)) then Some (None, s)
     else do {
       nxt \<leftarrow> link obj (snd (lst s));
       (r, s') \<leftarrow> body obj s;
       (case r of Some v \<Rightarrow> Some (Some v, s') | None \<Rightarrow> list_trav link lst body nxt s')
     })"

declare list_trav.simps [code]

definition list_struct_traverse ::
  "('s \<Rightarrow> list_state) \<Rightarrow> (nat \<Rightarrow> 's \<Rightarrow> ('r option \<times> 's) option) \<Rightarrow> 's \<Rightarrow> ('r option \<times> 's) option" where
  "list_struct_traverse lst body s = do {
     first \<leftarrow> get_next (l_nil (fst (lst s))) (snd (lst s));
     list_trav get_next lst body first s
   }"

definition list_struct_traverse_reverse ::
  "('s \<Rightarrow> list_state) \<Rightarrow> (nat \<Rightarrow> 's \<Rightarrow> ('r option \<times> 's) option) \<Rightarrow> 's \<Rightarrow> ('r option \<times> 's) option" where
  "list_struct_traverse_reverse lst body s = do {
     last \<leftarrow> get_prev (l_nil (fst (lst s))) (snd (lst s));
     list_trav get_prev lst body last s
   }"

section \<open>The debugging allocator\<close>

record memoryNode =
  mn_ptr :: nat
  mn_size :: u64
  mn_dis :: bytes

record memoryList =
  ml_list :: list_state
  ml_node :: "nat \<rightharpoonup> memoryNode"
  ml_totalSize :: u64

text \<open>
  A failing second allocation loses the node of the first. \<open>dis\<close> is the text
  \<^verbatim>\<open>file:line\<close>, of which 98 characters are kept.
\<close>

definition memory_malloc :: "u64 \<Rightarrow> bytes \<Rightarrow> memoryList \<Rightarrow> glob \<Rightarrow> (nat option \<times> memoryList \<times> glob) option" where
  "memory_malloc sz dis ml g = (case malloc g of
      (None, g1) \<Rightarrow> Some (None, ml, g1)
    | (Some memory, g1) \<Rightarrow> (case malloc g1 of
        (None, g2) \<Rightarrow> Some (None, ml, g2)
      | (Some p, g2) \<Rightarrow> do {
          let h = (snd (ml_list ml))(memory \<mapsto> \<lparr>ln_prev = 0, ln_next = 0\<rparr>);
          l \<leftarrow> list_nodeInsertHead memory (fst (ml_list ml), h);
          Some (Some p, \<lparr>ml_list = l,
            ml_node = (ml_node ml)(memory \<mapsto> \<lparr>mn_ptr = p, mn_size = sz, mn_dis = take 98 dis\<rparr>),
            ml_totalSize = ml_totalSize ml + sz\<rparr>, g2)
        }))"

text \<open>The result tells whether the pointer was found; if not, only a message is printed.\<close>

definition free_body :: "nat \<Rightarrow> nat \<Rightarrow> memoryList \<Rightarrow> (unit option \<times> memoryList) option" where
  "free_body ptr memory ml = do {
     mn \<leftarrow> ml_node ml memory;
     (if mn_ptr mn = ptr then do {
        l \<leftarrow> list_nodeDelete memory (ml_list ml);
        Some (Some (), \<lparr>ml_list = (fst l, (snd l)(memory := None)), ml_node = (ml_node ml)(memory := None),
          ml_totalSize = ml_totalSize ml - mn_size mn\<rparr>)
      } else Some (None, ml))
   }"

definition memory_free :: "nat \<Rightarrow> memoryList \<Rightarrow> (bool \<times> memoryList) option" where
  "memory_free ptr ml = do {
     (r, ml') \<leftarrow> list_struct_traverse ml_list (free_body ptr) ml;
     Some (r \<noteq> None, ml')
   }"

definition memory_totalSize :: "memoryList \<Rightarrow> u64" where
  "memory_totalSize ml = ml_totalSize ml"

definition memory_count :: "memoryList \<Rightarrow> u32" where
  "memory_count ml = l_count (fst (ml_list ml))"

section \<open>Lists in memory\<close>

lemma link_simps [simp]:
  "get_next p (h(q \<mapsto> n)) = (if p = q then Some (ln_next n) else get_next p h)"
  "get_prev p (h(q \<mapsto> n)) = (if p = q then Some (ln_prev n) else get_prev p h)"
  "get_next p (h(q := None)) = (if p = q then None else get_next p h)"
  "get_prev p (h(q := None)) = (if p = q then None else get_prev p h)"
  by (simp_all add: get_next_def get_prev_def)

lemma link_SomeD:
  "get_next p h = Some v \<Longrightarrow> \<exists>n. h p = Some n \<and> ln_next n = v"
  "get_prev p h = Some v \<Longrightarrow> \<exists>n. h p = Some n \<and> ln_prev n = v"
  by (auto simp: get_next_def get_prev_def)

lemma set_links:
  assumes "p \<in> dom h"
  shows "\<exists>h'. set_next p v h = Some h' \<and> dom h' = dom h \<and> (\<forall>q. get_prev q h' = get_prev q h)
      \<and> (\<forall>q. get_next q h' = (if q = p then Some v else get_next q h))"
    "\<exists>h'. set_prev p v h = Some h' \<and> dom h' = dom h \<and> (\<forall>q. get_next q h' = get_next q h)
      \<and> (\<forall>q. get_prev q h' = (if q = p then Some v else get_prev q h))"
  using assms by (auto simp: set_next_def set_prev_def get_prev_def get_next_def split: option.splits)

text \<open>Consecutive addresses of a sequence are linked both ways.\<close>

fun linked :: "list_mem \<Rightarrow> nat list \<Rightarrow> bool" where
  "linked h (a # b # r) \<longleftrightarrow> get_next a h = Some b \<and> get_prev b h = Some a \<and> linked h (b # r)"
| "linked h _ \<longleftrightarrow> True"

definition list_rep :: "list_state \<Rightarrow> nat list \<Rightarrow> bool" where
  "list_rep s xs \<longleftrightarrow> (case s of (l, h) \<Rightarrow> distinct (l_nil l # xs) \<and> linked h (l_nil l # xs @ [l_nil l])
     \<and> l_count l = of_nat (length xs))"

lemma linked_append: "linked h (xs @ a # ys) \<longleftrightarrow> linked h (xs @ [a]) \<and> linked h (a # ys)"
proof (induction xs)
  case Nil
  then show ?case by simp
next
  case (Cons x xs)
  then show ?case by (cases xs) auto
qed

lemma linked_cong:
  assumes "\<And>a. a \<in> set (butlast xs) \<Longrightarrow> get_next a h' = get_next a h" "\<And>a. a \<in> set (tl xs) \<Longrightarrow> get_prev a h' = get_prev a h"
  shows "linked h' xs = linked h xs"
  using assms by (induction h xs rule: linked.induct) auto

lemma linked_dom: "linked h (a # xs @ [b]) \<Longrightarrow> insert a (set xs) \<subseteq> dom h \<and> insert b (set xs) \<subseteq> dom h"
proof (induction xs arbitrary: a)
  case Nil
  then show ?case by (auto dest: link_SomeD)
next
  case (Cons x xs)
  then show ?case by (auto dest: link_SomeD)
qed

lemma list_rep_dom: "list_rep (l, h) xs \<Longrightarrow> insert (l_nil l) (set xs) \<subseteq> dom h"
  using linked_dom [of h "l_nil l" xs "l_nil l"] by (auto simp: list_rep_def)

section \<open>What the operations do to the sequence\<close>

text \<open>
  A node between two neighbours, and a node taken out: the links of all other nodes are those of before.
\<close>

lemma linked_insert:
  assumes "linked h (us @ a # b # vs)" "distinct (butlast (us @ a # b # vs))" "distinct (tl (us @ a # b # vs))"
    and n: "n \<notin> set (us @ a # b # vs)"
    and nx: "\<And>q. get_next q h' = (if q = a then Some n else if q = n then Some b else get_next q h)"
    and pv: "\<And>q. get_prev q h' = (if q = b then Some n else if q = n then Some a else get_prev q h)"
  shows "linked h' (us @ a # n # b # vs)"
proof -
  have d: "a \<notin> set us" "a \<notin> set (butlast (b # vs))" "b \<notin> set (tl (us @ [a]))" "b \<notin> set vs"
    using assms(2,3) by (auto simp: butlast_append tl_append split: list.splits)
  have nb: "n \<notin> set (butlast (b # vs))" using n in_set_butlastD by fastforce
  have "linked h (us @ [a])" "linked h (b # vs)"
    using assms(1) by (simp_all add: linked_append [of h us a "b # vs"])
  moreover have "linked h' (us @ [a]) = linked h (us @ [a])"
    using d n nx pv by (intro linked_cong) (auto simp: tl_append split: list.splits)
  moreover have "linked h' (b # vs) = linked h (b # vs)"
    using d n nb nx pv by (intro linked_cong) (auto simp del: butlast.simps)
  ultimately show ?thesis using nx pv n by (simp add: linked_append [of h' us a "n # b # vs"])
qed

lemma linked_remove:
  assumes "linked h (us @ a # n # b # vs)" "distinct (butlast (us @ a # n # b # vs))" "distinct (tl (us @ a # n # b # vs))"
    and nx: "\<And>q. get_next q h' = (if q = a then Some b else get_next q h)"
    and pv: "\<And>q. get_prev q h' = (if q = b then Some a else get_prev q h)"
  shows "linked h' (us @ a # b # vs)"
proof -
  have d: "a \<notin> set us" "a \<notin> set (butlast (b # vs))" "b \<notin> set (tl (us @ [a]))" "b \<notin> set vs"
    using assms(2,3) by (auto simp: butlast_append tl_append split: list.splits if_splits)
  have "linked h (us @ [a])" "linked h (b # vs)"
    using assms(1) by (simp_all add: linked_append [of h us a "n # b # vs"])
  moreover have "linked h' (us @ [a]) = linked h (us @ [a])"
    using d nx pv by (intro linked_cong) (auto simp: tl_append split: list.splits)
  moreover have "linked h' (b # vs) = linked h (b # vs)"
    using d nx pv by (intro linked_cong) (auto simp del: butlast.simps)
  ultimately show ?thesis using nx pv by (simp add: linked_append [of h' us a "b # vs"])
qed

lemma ring_distinct: "distinct (z # xs) \<Longrightarrow> distinct (butlast (z # xs @ [z])) \<and> distinct (tl (z # xs @ [z]))"
  by (auto simp: butlast_append)

lemma insert_head_rep:
  assumes "list_rep (l, h) xs" "n \<in> dom h" "n \<notin> set xs" "n \<noteq> l_nil l"
  shows "\<exists>h'. list_nodeInsertHead n (l, h) = Some (l\<lparr>l_count := l_count l + 1\<rparr>, h')
    \<and> list_rep (l\<lparr>l_count := l_count l + 1\<rparr>, h') (n # xs) \<and> dom h' = dom h"
proof -
  let ?z = "l_nil l"
  obtain f ys where f: "xs @ [?z] = f # ys" by (cases "xs @ [?z]") auto
  have rep: "distinct (?z # xs)" "linked h (?z # f # ys)" using assms(1) f by (auto simp: list_rep_def)
  then have lk: "get_next ?z h = Some f" "get_prev f h = Some ?z" by auto
  have fd: "f \<in> dom h" "?z \<in> dom h" using lk by (auto dest: link_SomeD)
  have "set (f # ys) = set (xs @ [?z])" by (simp only: f)
  then have n: "n \<notin> set (f # ys)" "n \<noteq> f" using assms(3,4) by auto
  obtain h1 where h1: "set_prev f n h = Some h1" "dom h1 = dom h" "\<And>q. get_next q h1 = get_next q h"
    "\<And>q. get_prev q h1 = (if q = f then Some n else get_prev q h)" using set_links(2) [OF fd(1), of n] by blast
  obtain h2 where h2: "set_prev n ?z h1 = Some h2" "dom h2 = dom h" "\<And>q. get_next q h2 = get_next q h"
    "\<And>q. get_prev q h2 = (if q = n then Some ?z else get_prev q h1)"
    using set_links(2) [of n h1 ?z] assms(2) h1(2,3) by auto
  obtain h3 where h3: "set_next n f h2 = Some h3" "dom h3 = dom h" "\<And>q. get_prev q h3 = get_prev q h2"
    "\<And>q. get_next q h3 = (if q = n then Some f else get_next q h)"
    using set_links(1) [of n h2 f] assms(2) h2(2,3) by auto
  obtain h4 where h4: "set_next ?z n h3 = Some h4" "dom h4 = dom h" "\<And>q. get_prev q h4 = get_prev q h2"
    "\<And>q. get_next q h4 = (if q = ?z then Some n else get_next q h3)"
    using set_links(1) [of ?z h3 n] fd(2) h3(2,3) by auto
  have "list_nodeInsertHead n (l, h) = Some (l\<lparr>l_count := l_count l + 1\<rparr>, h4)"
    using lk(1) h1(1) h2(1,3) h3(1) h4(1) by (simp add: list_nodeInsertHead_def)
  moreover have "linked h4 ([] @ ?z # n # f # ys)"
    using rep ring_distinct [OF rep(1)] n assms(4) by (intro linked_insert [of h]) (auto simp: f h1 h2 h3 h4)
  ultimately show ?thesis
    using assms h4(2) f by (intro exI [of _ h4]) (auto simp: list_rep_def)
qed

lemma insert_tail_rep:
  assumes "list_rep (l, h) xs" "n \<in> dom h" "n \<notin> set xs" "n \<noteq> l_nil l"
  shows "\<exists>h'. list_nodeInsertTail n (l, h) = Some (l\<lparr>l_count := l_count l + 1\<rparr>, h')
    \<and> list_rep (l\<lparr>l_count := l_count l + 1\<rparr>, h') (xs @ [n]) \<and> dom h' = dom h"
proof -
  let ?z = "l_nil l"
  obtain ys f where f: "?z # xs = ys @ [f]" by (cases "?z # xs" rule: rev_cases) auto
  have ring: "?z # xs @ [?z] = ys @ f # [?z]" using f by (metis append.assoc append_Cons append_Nil)
  have rep: "distinct (?z # xs)" "linked h (ys @ f # [?z])" using assms(1) unfolding list_rep_def ring [symmetric] by simp_all
  then have lk: "get_next f h = Some ?z" "get_prev ?z h = Some f" by (simp_all add: linked_append [of h ys f "[?z]"])
  have fd: "f \<in> dom h" "?z \<in> dom h" using lk by (auto dest: link_SomeD)
  have "set (ys @ [f]) = set (?z # xs)" by (simp only: f)
  then have n: "n \<notin> set (ys @ [f])" "n \<noteq> f" using assms(3,4) by auto
  obtain h1 where h1: "set_next f n h = Some h1" "dom h1 = dom h" "\<And>q. get_prev q h1 = get_prev q h"
    "\<And>q. get_next q h1 = (if q = f then Some n else get_next q h)" using set_links(1) [OF fd(1), of n] by blast
  obtain h2 where h2: "set_prev n f h1 = Some h2" "dom h2 = dom h" "\<And>q. get_next q h2 = get_next q h1"
    "\<And>q. get_prev q h2 = (if q = n then Some f else get_prev q h)"
    using set_links(2) [of n h1 f] assms(2) h1(2,3) by auto
  obtain h3 where h3: "set_next n ?z h2 = Some h3" "dom h3 = dom h" "\<And>q. get_prev q h3 = get_prev q h2"
    "\<And>q. get_next q h3 = (if q = n then Some ?z else get_next q h1)"
    using set_links(1) [of n h2 ?z] assms(2) h2(2,3) by auto
  obtain h4 where h4: "set_prev ?z n h3 = Some h4" "dom h4 = dom h" "\<And>q. get_next q h4 = get_next q h3"
    "\<And>q. get_prev q h4 = (if q = ?z then Some n else get_prev q h2)"
    using set_links(2) [of ?z h3 n] fd(2) h3(2,3) by auto
  have "list_nodeInsertTail n (l, h) = Some (l\<lparr>l_count := l_count l + 1\<rparr>, h4)"
    using lk(2) h1(1,3) h2(1) h3(1) h4(1) by (simp add: list_nodeInsertTail_def)
  moreover have "distinct (butlast (ys @ f # [?z])) \<and> distinct (tl (ys @ f # [?z]))"
    using ring_distinct [OF rep(1)] ring by simp
  then have "linked h4 (ys @ f # n # [?z])"
    using rep n assms(4) by (intro linked_insert [of h]) (auto simp: h1 h2 h3 h4)
  moreover have "ys @ f # n # [?z] = ?z # (xs @ [n]) @ [?z]" using f by (metis append.assoc append_Cons append_Nil)
  ultimately show ?thesis
    using assms h4(2) by (intro exI [of _ h4]) (auto simp: list_rep_def)
qed

lemma delete_rep:
  assumes "list_rep (l, h) (xs @ n # ys)"
  shows "\<exists>h'. list_nodeDelete n (l, h) = Some (l\<lparr>l_count := l_count l - 1\<rparr>, h')
    \<and> list_rep (l\<lparr>l_count := l_count l - 1\<rparr>, h') (xs @ ys) \<and> dom h' = dom h"
proof -
  let ?z = "l_nil l"
  obtain us a where a: "?z # xs = us @ [a]" by (cases "?z # xs" rule: rev_cases) auto
  obtain b vs where b: "ys @ [?z] = b # vs" by (cases "ys @ [?z]") auto
  have ring: "?z # (xs @ n # ys) @ [?z] = us @ a # n # b # vs" using a b by (metis append.assoc append_Cons append_Nil)
  have rep: "distinct (?z # xs @ n # ys)" "linked h (us @ a # n # b # vs)" using assms ring by (auto simp: list_rep_def)
  have "linked h (a # n # b # vs)" using rep(2) linked_append [of h us a "n # b # vs"] by simp
  then have lk: "get_next a h = Some n" "get_prev n h = Some a" "get_next n h = Some b" "get_prev b h = Some n" by auto
  have d: "a \<in> dom h" "b \<in> dom h" using lk by (auto dest: link_SomeD)
  have "set (us @ [a]) = set (?z # xs)" "set (b # vs) = set (ys @ [?z])" by (simp_all only: a b)
  moreover have "n \<notin> set (?z # xs)" "n \<notin> set (ys @ [?z])" using rep(1) by auto
  ultimately have ne: "n \<noteq> a" "n \<noteq> b" by force+
  obtain h1 where h1: "set_next a b h = Some h1" "dom h1 = dom h" "\<And>q. get_prev q h1 = get_prev q h"
    "\<And>q. get_next q h1 = (if q = a then Some b else get_next q h)" using set_links(1) [OF d(1), of b] by blast
  obtain h2 where h2: "set_prev b a h1 = Some h2" "dom h2 = dom h" "\<And>q. get_next q h2 = get_next q h1"
    "\<And>q. get_prev q h2 = (if q = b then Some a else get_prev q h)"
    using set_links(2) [of b h1 a] d(2) h1(2,3) by auto
  have "list_nodeDelete n (l, h) = Some (l\<lparr>l_count := l_count l - 1\<rparr>, h2)"
    using lk h1 h2(1) ne by (simp add: list_nodeDelete_def)
  moreover have "linked h2 (us @ a # b # vs)"
    using linked_remove [OF rep(2)] ring_distinct [OF rep(1)] unfolding ring by (simp add: h1 h2)
  moreover have "us @ a # b # vs = ?z # (xs @ ys) @ [?z]" using a b by (metis append.assoc append_Cons append_Nil)
  ultimately show ?thesis using assms h2(2) by (intro exI [of _ h2]) (auto simp: list_rep_def)
qed

lemma clear_rep:
  assumes "list_rep (l, h) xs"
  shows "\<exists>h'. list_clear (l, h) = Some (l\<lparr>l_count := 0\<rparr>, h') \<and> list_rep (l\<lparr>l_count := 0\<rparr>, h') [] \<and> dom h' = dom h"
proof -
  have z: "l_nil l \<in> dom h" using list_rep_dom [OF assms] by simp
  obtain h1 where h1: "set_prev (l_nil l) (l_nil l) h = Some h1" "dom h1 = dom h"
    "\<And>q. get_prev q h1 = (if q = l_nil l then Some (l_nil l) else get_prev q h)" using set_links(2) [OF z] by blast
  obtain h2 where h2: "set_next (l_nil l) (l_nil l) h1 = Some h2" "dom h2 = dom h" "\<And>q. get_prev q h2 = get_prev q h1"
    "\<And>q. get_next q h2 = (if q = l_nil l then Some (l_nil l) else get_next q h1)"
    using set_links(1) [of "l_nil l" h1 "l_nil l"] z h1(2) by auto
  show ?thesis using h1 h2 by (intro exI [of _ h2]) (auto simp: list_clear_def list_rep_def)
qed

lemma list_create_rep:
  "list_create h g = (Some s, g') \<Longrightarrow> list_rep s [] \<and> (malloc_n g + 1 \<notin> dom h \<longrightarrow> (\<forall>a \<in> dom h. snd s a = h a))"
  by (auto simp: list_create_def list_rep_def split: prod.splits option.splits dest!: POF_MALLOC_SAFE_fresh)

section \<open>Traversal\<close>

text \<open>
  A body that leaves the list alone is run on every node in order; a body that ends the loop is
  the last one that is run.
\<close>

lemma trav_visits:
  assumes "\<And>x s. x \<in> set xs \<Longrightarrow> lst s = L \<Longrightarrow> \<exists>s'. body x s = Some (None, s') \<and> lst s' = L"
    and "link (last (p # xs)) (snd L) = Some (l_nil (fst L)) \<or> xs = []"
    and "\<And>i. Suc i < length xs \<Longrightarrow> link (xs ! i) (snd L) = Some (xs ! Suc i)" "l_nil (fst L) \<notin> set xs" "lst s = L"
  shows "list_trav link lst body (hd (xs @ [l_nil (fst L)])) s = Some (None, fold (\<lambda>x s. snd (the (body x s))) xs s)"
  using assms
proof (induction xs arbitrary: s)
  case Nil
  then show ?case by (simp add: list_trav.simps)
next
  case (Cons x xs)
  obtain s' where s': "body x s = Some (None, s')" "lst s' = L" using Cons.prems(1) [of x s] Cons.prems(5) by auto
  have lk: "link x (snd L) = Some (hd (xs @ [l_nil (fst L)]))"
    using Cons.prems(2) Cons.prems(3) [of 0] by (cases xs) auto
  have "list_trav link lst body (hd (xs @ [l_nil (fst L)])) s' = Some (None, fold (\<lambda>x s. snd (the (body x s))) xs s')"
    using Cons.prems s'(2) Cons.prems(3) [of "Suc i" for i] by (intro Cons.IH) (auto split: if_splits)
  then show ?case using s' lk Cons.prems(4,5) by (simp add: list_trav.simps [of _ _ _ x])
qed

lemma linked_nth: "linked h xs \<Longrightarrow> Suc i < length xs \<Longrightarrow> get_next (xs ! i) h = Some (xs ! Suc i) \<and> get_prev (xs ! Suc i) h = Some (xs ! i)"
proof (induction h xs arbitrary: i rule: linked.induct)
  case (1 h a b r)
  then show ?case by (cases i) auto
qed auto

lemma trav_next:
  assumes "list_rep L xs" "lst s = L"
    and "\<And>x s. x \<in> set xs \<Longrightarrow> lst s = L \<Longrightarrow> \<exists>s'. body x s = Some (None, s') \<and> lst s' = L"
  shows "list_struct_traverse lst body s = Some (None, fold (\<lambda>x s. snd (the (body x s))) xs s)"
proof -
  let ?z = "l_nil (fst L)"
  have rep: "?z \<notin> set xs" "linked (snd L) (?z # xs @ [?z])" using assms(1) by (auto simp: list_rep_def split: prod.splits)
  note nth = linked_nth [OF rep(2)]
  have "get_next ?z (snd L) = Some (hd (xs @ [?z]))" using nth [of 0] by (cases xs) auto
  moreover have "get_next (last (p # xs)) (snd L) = Some ?z \<or> xs = []" for p
    using nth [of "length xs"] by (cases xs rule: rev_cases) (auto simp: nth_append nth_Cons')
  moreover have "get_next (xs ! i) (snd L) = Some (xs ! Suc i)" if "Suc i < length xs" for i
    using nth [of "Suc i"] that by (simp add: nth_append)
  ultimately show ?thesis
    using trav_visits [of xs lst L body get_next] rep(1) assms(2,3) by (simp add: list_struct_traverse_def)
qed

lemma trav_prev:
  assumes "list_rep L xs" "lst s = L"
    and "\<And>x s. x \<in> set xs \<Longrightarrow> lst s = L \<Longrightarrow> \<exists>s'. body x s = Some (None, s') \<and> lst s' = L"
  shows "list_struct_traverse_reverse lst body s = Some (None, fold (\<lambda>x s. snd (the (body x s))) (rev xs) s)"
proof -
  let ?z = "l_nil (fst L)"
  have rep: "?z \<notin> set xs" "linked (snd L) (?z # xs @ [?z])" using assms(1) by (auto simp: list_rep_def split: prod.splits)
  note nth = linked_nth [OF rep(2)]
  have "get_prev ?z (snd L) = Some (hd (rev xs @ [?z]))"
    using nth [of "length xs"] by (cases xs rule: rev_cases) (auto simp: nth_append nth_Cons')
  moreover have "get_prev (last (p # rev xs)) (snd L) = Some ?z \<or> rev xs = []" for p
    using nth [of 0] by (cases xs) auto
  moreover have "get_prev (rev xs ! i) (snd L) = Some (rev xs ! Suc i)" if i: "Suc i < length xs" for i
  proof -
    have "length xs - Suc (Suc i) < length xs" "length xs - Suc i = Suc (length xs - Suc (Suc i))"
      "Suc (length xs - Suc (Suc i)) < length xs" using i by auto
    then show ?thesis using nth [of "length xs - Suc i"] i by (simp add: nth_append rev_nth)
  qed
  ultimately show ?thesis
    using trav_visits [of "rev xs" lst L body get_prev] rep(1) assms(2,3) by (simp add: list_struct_traverse_reverse_def)
qed

section \<open>The contract of a list\<close>

text \<open>
  \<open>rep s xs\<close>: the list holds the nodes \<open>xs\<close> in this order. \<open>node s n\<close>: there is memory for a node at
  \<open>n\<close>, apart from the head of the list.
\<close>

locale node_list =
  fixes rep :: "'s \<Rightarrow> nat list \<Rightarrow> bool"
    and node :: "'s \<Rightarrow> nat \<Rightarrow> bool"
    and insert_head :: "nat \<Rightarrow> 's \<Rightarrow> 's option"
    and insert_tail :: "nat \<Rightarrow> 's \<Rightarrow> 's option"
    and delete :: "nat \<Rightarrow> 's \<Rightarrow> 's option"
  assumes head: "rep s xs \<Longrightarrow> node s n \<Longrightarrow> n \<notin> set xs \<Longrightarrow> \<exists>s'. insert_head n s = Some s' \<and> rep s' (n # xs) \<and> node s' = node s"
    and tail: "rep s xs \<Longrightarrow> node s n \<Longrightarrow> n \<notin> set xs \<Longrightarrow> \<exists>s'. insert_tail n s = Some s' \<and> rep s' (xs @ [n]) \<and> node s' = node s"
    and del: "rep s (xs @ n # ys) \<Longrightarrow> \<exists>s'. delete n s = Some s' \<and> rep s' (xs @ ys) \<and> node s' = node s"
    and nodes: "rep s xs \<Longrightarrow> n \<in> set xs \<Longrightarrow> node s n"
    and dist: "rep s xs \<Longrightarrow> distinct xs"
begin

lemma delete_filter:
  assumes "rep s xs" "n \<in> set xs"
  shows "\<exists>s'. delete n s = Some s' \<and> rep s' (filter (\<lambda>m. m \<noteq> n) xs) \<and> node s' = node s"
proof -
  obtain us vs where xs: "xs = us @ n # vs" using assms(2) by (meson split_list)
  have "filter (\<lambda>m. m \<noteq> n) us = us" "filter (\<lambda>m. m \<noteq> n) vs = vs" using dist [OF assms(1)] xs by (auto intro!: filter_True)
  then show ?thesis using del [of s us n vs] assms(1) xs by auto
qed

text \<open>A node put at either end and taken out again leaves the sequence as it was.\<close>

lemma insert_delete:
  assumes "rep s xs" "node s n" "n \<notin> set xs"
  shows "\<exists>s1 s2. insert_head n s = Some s1 \<and> delete n s1 = Some s2 \<and> rep s2 xs"
    "\<exists>s1 s2. insert_tail n s = Some s1 \<and> delete n s1 = Some s2 \<and> rep s2 xs"
  using head [OF assms] tail [OF assms] del [of _ "[]" n xs] del [of _ xs n "[]"] by fastforce+

end

definition list_node :: "list_state \<Rightarrow> nat \<Rightarrow> bool" where
  "list_node s n \<longleftrightarrow> n \<in> dom (snd s) \<and> n \<noteq> l_nil (fst s)"

interpretation nl: node_list list_rep list_node list_nodeInsertHead list_nodeInsertTail list_nodeDelete
proof (unfold_locales, goal_cases)
  case (1 s xs n)
  then show ?case using insert_head_rep [of "fst s" "snd s" xs n] by (fastforce simp: list_node_def fun_eq_iff)
next
  case (2 s xs n)
  then show ?case using insert_tail_rep [of "fst s" "snd s" xs n] by (fastforce simp: list_node_def fun_eq_iff)
next
  case (3 s xs n ys)
  then show ?case using delete_rep [of "fst s" "snd s" xs n ys] by (fastforce simp: list_node_def fun_eq_iff)
next
  case (4 s xs n)
  then show ?case using list_rep_dom [of "fst s" "snd s" xs] by (auto simp: list_node_def list_rep_def)
next
  case (5 s xs)
  then show ?case by (auto simp: list_rep_def split: prod.splits)
qed

text \<open>C32. The intrusive list refines a sequence of nodes. Let a list hold the nodes \<open>xs\<close>. Inserting a
  node that is not in it puts the node at the head or at the tail, deleting a node of the list removes
  it and keeps the order of the others, and clearing leaves the empty list; the count follows. Running
  through the list visits the nodes in order, running through it in reverse in the opposite order.\<close>

theorem list_operations_refine:
  assumes "list_rep s xs"
  shows "(list_node s n \<and> n \<notin> set xs \<longrightarrow> (\<exists>s'. list_nodeInsertHead n s = Some s' \<and> list_rep s' (n # xs)))
    \<and> (list_node s n \<and> n \<notin> set xs \<longrightarrow> (\<exists>s'. list_nodeInsertTail n s = Some s' \<and> list_rep s' (xs @ [n])))
    \<and> (n \<in> set xs \<longrightarrow> (\<exists>s'. list_nodeDelete n s = Some s' \<and> list_rep s' (filter (\<lambda>m. m \<noteq> n) xs)))
    \<and> (\<exists>s'. list_clear s = Some s' \<and> list_rep s' [])
    \<and> l_count (fst s) = of_nat (length xs)
    \<and> list_struct_traverse fst (\<lambda>x (l, acc). Some (None :: unit option, l, acc @ [x])) (s, []) = Some (None, s, xs)
    \<and> list_struct_traverse_reverse fst (\<lambda>x (l, acc). Some (None :: unit option, l, acc @ [x])) (s, []) = Some (None, s, rev xs)"
proof (intro conjI)
  let ?body = "\<lambda>x (l :: list_state, acc). Some (None :: unit option, l, acc @ [x])"
  have keep: "\<exists>s'. ?body x t = Some (None, s') \<and> fst s' = s" if "fst t = s" for x t using that by (cases t) simp
  have fold: "fold (\<lambda>x s. snd (the (?body x s))) ys (s, acc) = (s, acc @ ys)" for ys acc
    by (induction ys arbitrary: acc) simp_all
  have "list_struct_traverse fst ?body (s, []) = Some (None, fold (\<lambda>x s. snd (the (?body x s))) xs (s, []))"
    by (rule trav_next [OF assms]) (simp, rule keep)
  then show "list_struct_traverse fst ?body (s, []) = Some (None, s, xs)" by (simp add: fold)
  have "list_struct_traverse_reverse fst ?body (s, []) = Some (None, fold (\<lambda>x s. snd (the (?body x s))) (rev xs) (s, []))"
    by (rule trav_prev [OF assms]) (simp, rule keep)
  then show "list_struct_traverse_reverse fst ?body (s, []) = Some (None, s, rev xs)" by (simp add: fold)
  show "\<exists>s'. list_clear s = Some s' \<and> list_rep s' []" using clear_rep [of "fst s" "snd s" xs] assms by auto
  show "l_count (fst s) = of_nat (length xs)" using assms by (simp add: list_rep_def split: prod.splits)
qed (use nl.head [OF assms, of n] nl.tail [OF assms, of n] nl.delete_filter [OF assms, of n] in auto)

definition example_list :: list_state where
  "example_list = (\<lparr>l_nil = 1, l_count = 2\<rparr>, [1 \<mapsto> \<lparr>ln_prev = 3, ln_next = 2\<rparr>, 2 \<mapsto> \<lparr>ln_prev = 1, ln_next = 3\<rparr>,
     3 \<mapsto> \<lparr>ln_prev = 2, ln_next = 1\<rparr>, 4 \<mapsto> \<lparr>ln_prev = 0, ln_next = 0\<rparr>])"

lemma example_list_rep: "list_rep example_list [2, 3]"
  by (simp add: list_rep_def example_list_def)

lemma list_operations_refine_witness:
  "\<exists>s1 s2 s3. list_nodeInsertHead 4 example_list = Some s1 \<and> list_rep s1 [4, 2, 3]
    \<and> list_nodeInsertTail 4 example_list = Some s2 \<and> list_rep s2 [2, 3, 4]
    \<and> list_nodeDelete 2 example_list = Some s3 \<and> list_rep s3 [3]"
proof -
  have "list_node example_list 4" by (simp add: list_node_def example_list_def)
  then show ?thesis
    using list_operations_refine [OF example_list_rep, of 4] list_operations_refine [OF example_list_rep, of 2] by auto
qed

section \<open>The account of the allocator\<close>

text \<open>
  The live blocks of the allocator, newest first: each with its address and its size. Every address
  in use lies below the next one the system gives.
\<close>

definition mem_rep :: "memoryList \<Rightarrow> glob \<Rightarrow> (nat \<times> u64) list \<Rightarrow> bool" where
  "mem_rep ml g B \<longleftrightarrow> (\<exists>xs. list_rep (ml_list ml) xs
     \<and> map (\<lambda>a. map_option (\<lambda>m. (mn_ptr m, mn_size m)) (ml_node ml a)) xs = map Some B
     \<and> (\<forall>a \<in> insert (l_nil (fst (ml_list ml))) (set xs). a \<le> malloc_n g))
     \<and> (\<forall>b \<in> set B. fst b \<le> malloc_n g) \<and> distinct (map fst B) \<and> ml_totalSize ml = sum_list (map snd B)"

lemma list_rep_upd:
  assumes "list_rep (l, h) xs" "n \<notin> insert (l_nil l) (set xs)"
  shows "list_rep (l, h(n := v)) xs"
proof -
  have "linked (h(n := v)) (l_nil l # xs @ [l_nil l]) = linked h (l_nil l # xs @ [l_nil l])"
    using assms(2) by (intro linked_cong) (auto simp: get_next_def get_prev_def butlast_append dest: in_set_butlastD)
  then show ?thesis using assms(1) by (simp add: list_rep_def)
qed

lemma memory_malloc_rep:
  assumes "mem_rep ml g B" "\<not> malloc_fail g (malloc_n g)" "\<not> malloc_fail g (malloc_n g + 1)"
  shows "\<exists>p ml' g'. memory_malloc sz dis ml g = Some (Some p, ml', g') \<and> p \<notin> fst ` set B \<and> mem_rep ml' g' ((p, sz) # B)"
proof -
  define m where "m = malloc_n g + 1"
  let ?g = "g\<lparr>malloc_n := m + 1\<rparr>"
  obtain xs where xs: "list_rep (ml_list ml) xs" "map (\<lambda>a. map_option (\<lambda>m. (mn_ptr m, mn_size m)) (ml_node ml a)) xs = map Some B"
    "\<forall>a \<in> insert (l_nil (fst (ml_list ml))) (set xs). a < m" "\<forall>b \<in> set B. fst b < m" "distinct (map fst B)"
    "ml_totalSize ml = sum_list (map snd B)"
    using assms(1) by (fastforce simp: mem_rep_def m_def less_Suc_eq_le)
  let ?s = "(fst (ml_list ml), (snd (ml_list ml))(m \<mapsto> \<lparr>ln_prev = 0, ln_next = 0\<rparr>))"
  have "list_rep ?s xs" using list_rep_upd [of "fst (ml_list ml)" "snd (ml_list ml)" xs m] xs(1,3) by auto
  moreover have new: "list_node ?s m" "m \<notin> set xs" using xs(3) by (auto simp: list_node_def)
  ultimately obtain l where l: "list_nodeInsertHead m ?s = Some l" "list_rep l (m # xs)" using nl.head by blast
  have nil: "l_nil (fst l) = l_nil (fst (ml_list ml))"
    using l(1) by (auto simp: list_nodeInsertHead_def bind_eq_Some_conv)
  let ?ml = "\<lparr>ml_list = l, ml_node = (ml_node ml)(m \<mapsto> \<lparr>mn_ptr = m + 1, mn_size = sz, mn_dis = take 98 dis\<rparr>),
    ml_totalSize = ml_totalSize ml + sz\<rparr>"
  have "memory_malloc sz dis ml g = Some (Some (m + 1), ?ml, ?g)"
    using assms(2,3) l(1) by (simp add: memory_malloc_def malloc_def Let_def m_def)
  moreover have "map (\<lambda>a. map_option (\<lambda>m. (mn_ptr m, mn_size m)) (ml_node ?ml a)) (m # xs) = map Some ((m + 1, sz) # B)"
    unfolding list.map xs(2) [symmetric] using new(2) by (intro arg_cong2 [of _ _ _ _ "(#)"] map_cong) auto
  then have "mem_rep ?ml ?g ((m + 1, sz) # B)"
    using xs l(2) unfolding mem_rep_def
    by (intro conjI exI [of _ "m # xs"]) (auto simp: nil less_imp_le le_Suc_eq add.commute)
  moreover have "m + 1 \<notin> fst ` set B" using xs(4) by fastforce
  ultimately show ?thesis by blast
qed

text \<open>The search of \<^verbatim>\<open>memory_free\<close>: nodes that are passed over, and the one that ends the loop.\<close>

lemma trav_skip:
  assumes "list_rep (lst s) (us @ vs)" "\<And>u. u \<in> set us \<Longrightarrow> body u s = Some (None, s)"
  shows "list_struct_traverse lst body s = list_trav get_next lst body (hd (vs @ [l_nil (fst (lst s))])) s"
proof -
  let ?z = "l_nil (fst (lst s))"
  have rep: "linked (snd (lst s)) (?z # us @ vs @ [?z])" "?z \<notin> set us" using assms(1) by (auto simp: list_rep_def split: prod.splits)
  have "list_trav get_next lst body (hd (us @ vs @ [?z])) s = list_trav get_next lst body (hd (vs @ [?z])) s"
    if "linked (snd (lst s)) (y # us @ vs @ [?z])" for y
    using that rep(2) assms(2)
  proof (induction us arbitrary: y)
    case Nil
    then show ?case by simp
  next
    case (Cons u us)
    have nx: "get_next u (snd (lst s)) = Some (hd (us @ vs @ [?z]))" "linked (snd (lst s)) (u # us @ vs @ [?z])"
      using Cons.prems(1) by (cases "us @ vs @ [?z]"; auto)+
    have "list_trav get_next lst body u s = list_trav get_next lst body (hd (us @ vs @ [?z])) s"
      using Cons.prems nx(1) by (subst list_trav.simps) simp
    then show ?case using Cons.IH [OF nx(2)] Cons.prems by simp
  qed
  then have "list_trav get_next lst body (hd (us @ vs @ [?z])) s = list_trav get_next lst body (hd (vs @ [?z])) s" using rep(1) .
  moreover have "get_next ?z (snd (lst s)) = Some (hd (us @ vs @ [?z]))" using rep(1) by (cases "us @ vs @ [?z]") auto
  ultimately show ?thesis by (simp add: list_struct_traverse_def)
qed

abbreviation block_of :: "memoryList \<Rightarrow> nat \<Rightarrow> (nat \<times> u64) option" where
  "block_of ml a \<equiv> map_option (\<lambda>m. (mn_ptr m, mn_size m)) (ml_node ml a)"

lemma free_body_skips:
  assumes "map (block_of ml) xs = map Some B" "p \<notin> fst ` set B" "x \<in> set xs"
  shows "free_body p x ml = Some (None, ml)"
proof -
  have "block_of ml x \<in> set (map (block_of ml) xs)" using assms(3) by simp
  then obtain b where "block_of ml x = Some b" "b \<in> set B" unfolding assms(1) by auto
  moreover have "fst b \<noteq> p" using \<open>b \<in> set B\<close> assms(2) by auto
  ultimately show ?thesis by (auto simp: free_body_def)
qed

lemma memory_free_missing:
  assumes "mem_rep ml g B" "p \<notin> fst ` set B"
  shows "memory_free p ml = Some (False, ml)"
proof -
  obtain xs where xs: "list_rep (ml_list ml) xs" "map (block_of ml) xs = map Some B" using assms(1) by (auto simp: mem_rep_def)
  show ?thesis
    using trav_skip [of ml_list ml xs "[]" "free_body p"] xs(1) free_body_skips [OF xs(2) assms(2)]
    by (simp add: memory_free_def list_trav.simps)
qed

lemma memory_free_found:
  assumes "mem_rep ml g (B1 @ (p, sz) # B2)"
  shows "\<exists>ml'. memory_free p ml = Some (True, ml') \<and> mem_rep ml' g (B1 @ B2)"
proof -
  let ?L = "ml_list ml"
  obtain xs0 where xs0: "list_rep ?L xs0" "map (block_of ml) xs0 = map Some (B1 @ (p, sz) # B2)"
    "\<forall>a \<in> insert (l_nil (fst ?L)) (set xs0). a \<le> malloc_n g" using assms by (auto simp: mem_rep_def)
  define us where "us = take (length B1) xs0"
  define ws where "ws = drop (length B1) xs0"
  have "take (length B1) (map (block_of ml) xs0) = map Some B1" "drop (length B1) (map (block_of ml) xs0) = Some (p, sz) # map Some B2"
    unfolding xs0(2) by simp_all
  then have w: "xs0 = us @ ws" "map (block_of ml) us = map Some B1" "map (block_of ml) ws = Some (p, sz) # map Some B2"
    by (simp_all add: us_def ws_def take_map drop_map)
  obtain a vs where u: "xs0 = us @ a # vs" "map (block_of ml) us = map Some B1" "block_of ml a = Some (p, sz)"
    "map (block_of ml) vs = map Some B2"
    using w by (cases ws) auto
  have B: "distinct (map fst (B1 @ (p, sz) # B2))" using assms by (simp add: mem_rep_def)
  obtain m where m: "ml_node ml a = Some m" "mn_ptr m = p" "mn_size m = sz" using u(3) by auto
  obtain l where l: "list_nodeDelete a ?L = Some l" "list_rep l (us @ vs)" using nl.del [of ?L us a vs] xs0(1) u(1) by auto
  have nil: "l_nil (fst l) = l_nil (fst ?L)" using l(1) by (auto simp: list_nodeDelete_def bind_eq_Some_conv split: prod.splits)
  have d: "a \<notin> set us" "a \<notin> set vs" "a \<noteq> l_nil (fst ?L)" using xs0(1) u(1) by (auto simp: list_rep_def split: prod.splits)
  let ?ml = "\<lparr>ml_list = (fst l, (snd l)(a := None)), ml_node = (ml_node ml)(a := None), ml_totalSize = ml_totalSize ml - sz\<rparr>"
  have "p \<notin> fst ` set B1" using B by auto
  then have "list_struct_traverse ml_list (free_body p) ml = list_trav get_next ml_list (free_body p) a ml"
    using trav_skip [of ml_list ml us "a # vs" "free_body p"] free_body_skips [OF u(2)] xs0(1) u(1) by simp
  also have "\<dots> = Some (Some (), ?ml)"
  proof -
    have "list_node ?L a" using nl.nodes [OF xs0(1)] u(1) by simp
    then obtain b where "get_next a (snd ?L) = Some b" by (auto simp: list_node_def get_next_def)
    then show ?thesis using d(3) m l(1) by (subst list_trav.simps) (simp add: free_body_def)
  qed
  finally have "memory_free p ml = Some (True, ?ml)" by (simp add: memory_free_def)
  moreover have "list_rep (ml_list ?ml) (us @ vs)" using list_rep_upd [of "fst l" "snd l" "us @ vs" a None] l(2) d nil by simp
  moreover have "map (block_of ?ml) (us @ vs) = map Some (B1 @ B2)"
    unfolding map_append u(2) [symmetric] u(4) [symmetric] using d by (intro arg_cong2 [of _ _ _ _ "(@)"] map_cong) auto
  ultimately have "memory_free p ml = Some (True, ?ml) \<and> mem_rep ?ml g (B1 @ B2)"
    using assms xs0(3) u(1) nil unfolding mem_rep_def by (intro conjI exI [of _ "us @ vs"]) (auto simp: algebra_simps)
  then show ?thesis by blast
qed

text \<open>C33. The debugging allocator accounts for every block. Its total size and its count are those of
  the live blocks. Allocating either gives a block with a new address, which becomes live with its
  size, or, when the system has no memory, nothing. Freeing a live block removes exactly that
  block and is reported as found; freeing anything else changes nothing.\<close>

theorem memory_accounts:
  assumes "mem_rep ml g B"
  shows "memory_totalSize ml = sum_list (map snd B) \<and> memory_count ml = of_nat (length B)
    \<and> (\<exists>r ml' g'. memory_malloc sz dis ml g = Some (r, ml', g') \<and> (case r of
          None \<Rightarrow> (malloc_fail g (malloc_n g) \<or> malloc_fail g (malloc_n g + 1)) \<and> ml' = ml \<and> mem_rep ml g' B
        | Some p \<Rightarrow> p \<notin> fst ` set B \<and> mem_rep ml' g' ((p, sz) # B)))
    \<and> (\<exists>ml'. memory_free p ml = Some (p \<in> fst ` set B, ml') \<and> mem_rep ml' g (filter (\<lambda>b. fst b \<noteq> p) B))"
proof (intro conjI)
  show "memory_totalSize ml = sum_list (map snd B)" using assms by (simp add: mem_rep_def memory_totalSize_def)
  obtain xs where "list_rep (ml_list ml) xs" "map (block_of ml) xs = map Some B" using assms by (auto simp: mem_rep_def)
  then show "memory_count ml = of_nat (length B)"
    using map_eq_imp_length_eq [of "block_of ml" xs Some B] by (simp add: memory_count_def list_rep_def split: prod.splits)
  show "\<exists>r ml' g'. memory_malloc sz dis ml g = Some (r, ml', g') \<and> (case r of
          None \<Rightarrow> (malloc_fail g (malloc_n g) \<or> malloc_fail g (malloc_n g + 1)) \<and> ml' = ml \<and> mem_rep ml g' B
        | Some p \<Rightarrow> p \<notin> fst ` set B \<and> mem_rep ml' g' ((p, sz) # B))"
  proof (cases "malloc_fail g (malloc_n g) \<or> malloc_fail g (malloc_n g + 1)")
    case True
    have "mem_rep ml (g\<lparr>malloc_n := malloc_n g + n\<rparr>) B" for n using assms by (force simp: mem_rep_def)
    from this [of 1] this [of 2] show ?thesis using True by (auto simp: memory_malloc_def malloc_def Let_def)
  next
    case False
    then show ?thesis using memory_malloc_rep [OF assms, of sz dis] by force
  qed
  show "\<exists>ml'. memory_free p ml = Some (p \<in> fst ` set B, ml') \<and> mem_rep ml' g (filter (\<lambda>b. fst b \<noteq> p) B)"
  proof (cases "p \<in> fst ` set B")
    case True
    then obtain B1 sz' B2 where B: "B = B1 @ (p, sz') # B2" by (metis (no_types, lifting) imageE prod.collapse split_list)
    have "distinct (map fst B)" using assms by (simp add: mem_rep_def)
    then have "filter (\<lambda>b. fst b \<noteq> p) B1 = B1" "filter (\<lambda>b. fst b \<noteq> p) B2 = B2" unfolding B by (auto intro!: filter_True)
    then show ?thesis using memory_free_found [of ml g B1 p sz' B2] assms True B by simp
  next
    case False
    then have "filter (\<lambda>b. fst b \<noteq> p) B = B" by (intro filter_True) auto
    then show ?thesis using memory_free_missing [OF assms False] assms False by auto
  qed
qed

definition example_memory :: memoryList where
  "example_memory = \<lparr>ml_list = (\<lparr>l_nil = 0, l_count = 1\<rparr>, [0 \<mapsto> \<lparr>ln_prev = 1, ln_next = 1\<rparr>, 1 \<mapsto> \<lparr>ln_prev = 0, ln_next = 0\<rparr>]),
     ml_node = [1 \<mapsto> \<lparr>mn_ptr = 2, mn_size = 40, mn_dis = []\<rparr>], ml_totalSize = 40\<rparr>"

definition example_mem_glob :: "glob \<Rightarrow> glob" where
  "example_mem_glob g = g\<lparr>malloc_n := 2, malloc_fail := \<lambda>_. False\<rparr>"

lemma example_mem_rep: "mem_rep example_memory (example_mem_glob g) [(2, 40)]"
  unfolding mem_rep_def
  by (intro conjI exI [of _ "[1]"]) (auto simp: example_memory_def example_mem_glob_def list_rep_def)

lemma memory_accounts_witness:
  "\<forall>g. \<exists>p ml' g'. memory_malloc 8 [] example_memory (example_mem_glob g) = Some (Some p, ml', g') \<and> mem_rep ml' g' [(p, 8), (2, 40)]
    \<and> (\<exists>ml''. memory_free 2 example_memory = Some (True, ml'') \<and> mem_rep ml'' (example_mem_glob g) [])"
proof
  fix g
  show "\<exists>p ml' g'. memory_malloc 8 [] example_memory (example_mem_glob g) = Some (Some p, ml', g') \<and> mem_rep ml' g' [(p, 8), (2, 40)]
    \<and> (\<exists>ml''. memory_free 2 example_memory = Some (True, ml'') \<and> mem_rep ml'' (example_mem_glob g) [])"
    using memory_accounts [OF example_mem_rep [of g], of 8 "[]" 2] by (auto simp: example_mem_glob_def split: option.splits)
qed

end
