(* ===== verification/Pof_Config.thy ===== *)
theory Pof_Config
  imports Pof_Port
begin

text \<open>
  The configuration of the switch at start: \<^verbatim>\<open>switch_control/pof_config.c\<close>, with the setters of
  \<^verbatim>\<open>switch_control/pof_switch.c\<close> and the splitting of strings of \<^verbatim>\<open>common/pof_basefunc.c\<close> it
  calls. First the configuration file is read, then the options of the command line.

  What a routine leaves the process by \<^verbatim>\<open>exit\<close> with is \<open>Exit\<close>; \<open>None\<close> is undefined behaviour. The
  files and the user the process runs as are the record \<open>start_env\<close>. Of the C library the theory
  has the parts the source uses: \<^verbatim>\<open>fscanf\<close> of \<^verbatim>\<open>%s\<close>, \<^verbatim>\<open>atoi\<close>, \<^verbatim>\<open>strtoul\<close> to base 16, \<^verbatim>\<open>strtok\<close>,
  \<^verbatim>\<open>sprintf\<close> of numbers and \<^verbatim>\<open>getopt_long\<close> with the options of the source.
\<close>

section \<open>Strings\<close>

definition asc :: "string \<Rightarrow> bytes" where
  "asc s = map of_char s"

definition isspace :: "u8 \<Rightarrow> bool" where
  "isspace b \<longleftrightarrow> b = 32 \<or> (9 \<le> b \<and> b \<le> 13)"

definition isdigit :: "u8 \<Rightarrow> bool" where
  "isdigit b \<longleftrightarrow> 48 \<le> b \<and> b \<le> 57"

text \<open>Characters written over the start of an array: \<^verbatim>\<open>strncpy\<close>, \<^verbatim>\<open>sprintf\<close> and \<^verbatim>\<open>snprintf\<close>.\<close>

definition strncpy_to :: "nat \<Rightarrow> bytes \<Rightarrow> bytes \<Rightarrow> bytes option" where
  "strncpy_to n src dst = mem_write dst 0 (strncpy n src)"

definition sprintf_to :: "bytes \<Rightarrow> bytes \<Rightarrow> bytes option" where
  "sprintf_to txt dst = mem_write dst 0 (txt @ [0])"

definition snprintf_to :: "nat \<Rightarrow> bytes \<Rightarrow> bytes \<Rightarrow> bytes option" where
  "snprintf_to n txt dst = mem_write dst 0 (take (n - 1) txt @ [0])"

text \<open>The formats \<^verbatim>\<open>%u\<close> and \<^verbatim>\<open>%.8x\<close>.\<close>

fun fmt_u :: "nat \<Rightarrow> bytes" where
  "fmt_u n = (if n < 10 then [of_nat (48 + n)] else fmt_u (n div 10) @ [of_nat (48 + n mod 10)])"

declare fmt_u.simps [simp del]

definition hex_digit :: "nat \<Rightarrow> u8" where
  "hex_digit d = of_nat (if d < 10 then 48 + d else 87 + d)"

definition fmt_8x :: "u32 \<Rightarrow> bytes" where
  "fmt_8x v = map (\<lambda>i. hex_digit (unat v div 16 ^ i mod 16)) [7, 6, 5, 4, 3, 2, 1, 0]"

text \<open>
  The sign and the digits of a number. The value of \<^verbatim>\<open>atoi\<close> is undefined when it is no \<^verbatim>\<open>int\<close>.
\<close>

definition sign :: "bytes \<Rightarrow> bool \<times> bytes" where
  "sign s = (case s of c # r \<Rightarrow> if c = 45 then (True, r) else if c = 43 then (False, r) else (False, s) | [] \<Rightarrow> (False, []))"

definition dec_val :: "bytes \<Rightarrow> nat" where
  "dec_val ds = foldl (\<lambda>v d. 10 * v + (unat d - 48)) 0 ds"

definition atoi :: "bytes \<Rightarrow> int option" where
  "atoi s = (case sign (dropWhile isspace (c_str s)) of (neg, r) \<Rightarrow>
     let v = int (dec_val (takeWhile isdigit r)); i = if neg then - v else v in
     if - (2 ^ 31) \<le> i \<and> i < 2 ^ 31 then Some i else None)"

definition hex_of :: "u8 \<Rightarrow> nat option" where
  "hex_of b = (if isdigit b then Some (unat b - 48) else if 97 \<le> b \<and> b \<le> 102 then Some (unat b - 87)
     else if 65 \<le> b \<and> b \<le> 70 then Some (unat b - 55) else None)"

definition strtoul16 :: "bytes \<Rightarrow> u64" where
  "strtoul16 s = (case sign (dropWhile isspace (c_str s)) of (neg, r) \<Rightarrow>
     let r' = (case r of z # x # d # _ \<Rightarrow> if z = 48 \<and> (x = 120 \<or> x = 88) \<and> hex_of d \<noteq> None then drop 2 r else r | _ \<Rightarrow> r);
         v = foldl (\<lambda>v d. 16 * v + the (hex_of d)) 0 (takeWhile (\<lambda>d. hex_of d \<noteq> None) r')
     in if 2 ^ 64 \<le> v then - 1 else if neg then - of_nat v else of_nat v)"

text \<open>
  \<^verbatim>\<open>strtok\<close> gives the next token and the text behind it. Splitting asks for a fixed number of tokens.
\<close>

definition strtok :: "bytes \<Rightarrow> bytes \<Rightarrow> bytes option \<times> bytes" where
  "strtok delim s = (let r = dropWhile (\<lambda>b. b \<in> set delim) s in
     if r = [] then (None, [])
     else (Some (takeWhile (\<lambda>b. b \<notin> set delim) r), drop 1 (dropWhile (\<lambda>b. b \<notin> set delim) r)))"

primrec pofbf_split_str :: "nat \<Rightarrow> bytes \<Rightarrow> bytes \<Rightarrow> bytes option list" where
  "pofbf_split_str 0 delim s = []"
| "pofbf_split_str (Suc count) delim s = (case strtok delim s of (t, r) \<Rightarrow> t # pofbf_split_str count delim r)"

section \<open>The state of the start\<close>

text \<open>The texts of \<^verbatim>\<open>g_states\<close>, each an array of 64 characters.\<close>

record pof_state =
  st_devID :: bytes
  st_version :: bytes
  st_os_bit :: bytes
  st_byte_order :: bytes
  st_debug_on :: bytes
  st_debug_color_on :: bytes
  st_debug_print_echo_on :: bytes
  st_error_print_on :: bytes
  st_config_file :: bytes
  st_perform_after_ctrl_disconn :: bytes
  st_nomatch :: bytes
  st_promisc_on :: bytes
  st_ctrl_ip :: bytes
  st_conn_port :: bytes
  st_autoclear_after_disconn :: bytes
  st_log_file :: bytes
  st_verbosity :: bytes
  st_port_mode :: bytes
  st_slotNum :: bytes
  st_listenPort :: bytes
  st_sd2n :: bytes
  st_sd2n_after1015 :: bytes
  st_multiSlot :: bytes
  st_sht_vxlan :: bytes

text \<open>What the log routines are allowed to print, and the log file if one is open.\<close>

record log_util =
  lg_file :: "bytes option"
  lg_colorEnable :: bool
  lg_dbgEnable :: bool
  lg_cmdEnable :: bool
  lg_errEnable :: bool

record config =
  cf_states :: pof_state
  cf_log :: log_util
  pofsc_controller_ip_addr :: bytes
  pofsc_controller_port :: u16

type_synonym boot = "config \<times> pof_datapath \<times> glob"

datatype 'a run = Exit | Go 'a

record start_env =
  se_files :: "bytes \<Rightarrow> bytes option"
  se_writable :: "bytes \<Rightarrow> bool"
  se_root :: bool

text \<open>A change of the texts.\<close>

definition set_state :: "(pof_state \<Rightarrow> pof_state option) \<Rightarrow> config \<Rightarrow> config option" where
  "set_state f c = do { st \<leftarrow> f (cf_states c); Some (c\<lparr>cf_states := st\<rparr>) }"

section \<open>Setters\<close>

definition pofsc_set_controller_ip :: "bytes \<Rightarrow> config \<Rightarrow> config option" where
  "pofsc_set_controller_ip ip_str c = do {
     ip \<leftarrow> strncpy_to 20 ip_str (pofsc_controller_ip_addr c);
     set_state (\<lambda>st. do { t \<leftarrow> strncpy_to 20 ip_str (st_ctrl_ip st); Some (st\<lparr>st_ctrl_ip := t\<rparr>) })
       (c\<lparr>pofsc_controller_ip_addr := ip\<rparr>)
   }"

definition pofsc_set_controller_port :: "u16 \<Rightarrow> config \<Rightarrow> config option" where
  "pofsc_set_controller_port p c =
     set_state (\<lambda>st. do { t \<leftarrow> sprintf_to (fmt_u (unat p)) (st_conn_port st); Some (st\<lparr>st_conn_port := t\<rparr>) })
       (c\<lparr>pofsc_controller_port := p\<rparr>)"

section \<open>The configuration file\<close>

text \<open>\<^verbatim>\<open>fscanf(fp, "%s", str)\<close>: the next word and what is left, unless the file is at its end.\<close>

definition scan_word :: "bytes \<Rightarrow> (bytes \<times> bytes) option" where
  "scan_word inp = (let r = dropWhile isspace inp in
     if r = [] then None else Some (takeWhile (\<lambda>b. \<not> isspace b) r, dropWhile (\<lambda>b. \<not> isspace b) r))"

definition config_type_str :: "bytes list" where
  "config_type_str = [asc ''Controller_IP'', asc ''Connection_port'', asc ''MM_table_number'', asc ''LPM_table_number'',
     asc ''EM_table_number'', asc ''DT_table_number'', asc ''Flow_table_size'', asc ''Flow_table_key_length'',
     asc ''Meter_number'', asc ''Counter_number'', asc ''Group_number'', asc ''Device_port_number_max'']"

primrec config_type_from :: "bytes \<Rightarrow> u8 \<Rightarrow> bytes list \<Rightarrow> u8" where
  "config_type_from str i [] = 0xff"
| "config_type_from str i (t # ts) = (if c_str str = t then i else config_type_from str (i + 1) ts)"

definition pofsic_get_config_type :: "bytes \<Rightarrow> u8" where
  "pofsic_get_config_type str = config_type_from str 0 config_type_str"

text \<open>
  The word behind a keyword as a number, whether there was one, and the rest of the file. A word
  of 100 characters overruns the buffer.
\<close>

definition pofsic_get_config_data :: "bytes \<Rightarrow> (bool \<times> u32 \<times> bytes) option" where
  "pofsic_get_config_data inp = (case scan_word inp of
      None \<Rightarrow> Some (False, 0xffff, [])
    | Some (str, rest) \<Rightarrow>
        if 100 \<le> length str then None
        else do { v \<leftarrow> atoi str; Some (True, word_of_int v, rest) })"

definition set_table_num :: "nat \<Rightarrow> u16 \<Rightarrow> pof_param \<Rightarrow> pof_param option" where
  "set_table_num i v pm = do {
     ns \<leftarrow> wr (pm_tableNumMaxEachType pm) i v;
     Some (pm\<lparr>pm_tableNumMaxEachType := ns\<rparr>)
   }"

definition upd_param :: "(pof_param \<Rightarrow> pof_param option) \<Rightarrow> pof_datapath \<Rightarrow> pof_datapath option" where
  "upd_param f dp = do { pm \<leftarrow> f (dp_param dp); Some (dp\<lparr>dp_param := pm\<rparr>) }"

text \<open>The \<^verbatim>\<open>switch\<close> over the type of a setting; the first result is whether the type is known.\<close>

definition apply_config :: "u8 \<Rightarrow> u32 \<Rightarrow> boot \<Rightarrow> (bool \<times> boot) option" where
  "apply_config config_type v s = (case s of (c, dp, g) \<Rightarrow>
     let param = (\<lambda>f. do { dp' \<leftarrow> upd_param f dp; Some (True, c, dp', g) }) in
     if config_type = 1 then do { c' \<leftarrow> pofsc_set_controller_port (ucast v) c; Some (True, c', dp, g) }
     else if config_type = 2 then param (set_table_num 0 (ucast v))
     else if config_type = 3 then param (set_table_num 1 (ucast v))
     else if config_type = 4 then param (set_table_num 2 (ucast v))
     else if config_type = 5 then param (set_table_num 3 (ucast v))
     else if config_type = 6 then param (\<lambda>pm. Some (pm\<lparr>pm_tableSizeMax := v\<rparr>))
     else if config_type = 7 then Some (True, c, dp, snd (poflr_set_key_len v g))
     else if config_type = 8 then param (\<lambda>pm. Some (pm\<lparr>pm_meterNumMax := v\<rparr>))
     else if config_type = 9 then param (\<lambda>pm. Some (pm\<lparr>pm_counterNumMax := v\<rparr>))
     else if config_type = 10 then param (\<lambda>pm. Some (pm\<lparr>pm_groupNumMax := v\<rparr>))
     else if config_type = 11 then param (\<lambda>pm. Some (pm\<lparr>pm_portNumMax := ucast v\<rparr>))
     else Some (False, s))"

lemma scan_word_shorter: "scan_word inp = Some (w, rest) \<Longrightarrow> length rest < length inp"
proof -
  assume a: "scan_word inp = Some (w, rest)"
  let ?r = "dropWhile isspace inp"
  from a have r: "?r \<noteq> []" "rest = dropWhile (\<lambda>b. \<not> isspace b) ?r" by (auto simp: scan_word_def Let_def split: if_splits)
  then have "\<not> isspace (hd ?r)" using hd_dropWhile by blast
  then have "length rest < length ?r" using r length_dropWhile_le [of _ "tl ?r"] by (cases ?r) (auto simp: less_Suc_eq_le)
  then show ?thesis using length_dropWhile_le [of isspace inp] by linarith
qed

lemma get_config_data_shorter: "pofsic_get_config_data inp = Some (True, v, rest) \<Longrightarrow> length rest < length inp"
  by (auto simp: pofsic_get_config_data_def bind_eq_Some_conv split: option.splits if_splits dest: scan_word_shorter)

text \<open>
  The loop over the words of the file. A setting that cannot be read is made all the same, with
  \<^verbatim>\<open>POF_ERROR\<close> as its value, before the loop ends with the error.
\<close>

function readConfigFile :: "bytes \<Rightarrow> boot \<Rightarrow> (ret \<times> boot) option" where
  "readConfigFile fp s = (case scan_word fp of
      None \<Rightarrow> Some (POF_OK, s)
    | Some (str, fp1) \<Rightarrow>
        if 100 \<le> length str then None
        else if pofsic_get_config_type str = 0 then
          (case scan_word fp1 of
             None \<Rightarrow> Some (POF_ERROR, s)
           | Some (ip_str, fp2) \<Rightarrow>
               if 100 \<le> length ip_str then None
               else (case pofsc_set_controller_ip ip_str (fst s) of
                   None \<Rightarrow> None
                 | Some c \<Rightarrow> readConfigFile fp2 (c, snd s)))
        else (case pofsic_get_config_data fp1 of
            None \<Rightarrow> None
          | Some (ok, v, fp2) \<Rightarrow> (case apply_config (pofsic_get_config_type str) v s of
              None \<Rightarrow> None
            | Some (known, s1) \<Rightarrow> if ok \<and> known then readConfigFile fp2 s1 else Some (POF_ERROR, s1))))"
  by auto

termination
  by (relation "measure (\<lambda>(fp, s). length fp)")
     (auto dest!: scan_word_shorter get_config_data_shorter)

declare readConfigFile.simps [simp del]

text \<open>The first of two files that can be opened is read; what reading it returns is not looked at.\<close>

definition pof_set_init_config_by_file :: "start_env \<Rightarrow> boot \<Rightarrow> (ret \<times> boot) option" where
  "pof_set_init_config_by_file env s = (case s of (c, dp, g) \<Rightarrow>
     let load = (\<lambda>name fp. do {
           c' \<leftarrow> set_state (\<lambda>st. do { t \<leftarrow> strncpy_to 63 name (st_config_file st); Some (st\<lparr>st_config_file := t\<rparr>) }) c;
           (_, s') \<leftarrow> readConfigFile fp (c', dp, g);
           Some (POF_OK, s')
         });
         relative = asc ''./pofswitch_config.conf''; absolute = asc ''/etc/pofswitch/pofswitch_config.conf''
     in case se_files env relative of
        Some fp \<Rightarrow> load relative fp
      | None \<Rightarrow> (case se_files env absolute of Some fp \<Rightarrow> load absolute fp | None \<Rightarrow> Some (POF_ERROR, s)))"

section \<open>The commands of the command line\<close>

text \<open>
  Every command is given the argument of its option, or none. Dereferencing a missing argument is
  undefined. The result of a command is its return value and the new state, unless it exits.
\<close>

type_synonym cmd_result = "(ret \<times> boot) run option"

definition returns :: "ret \<Rightarrow> boot option \<Rightarrow> cmd_result" where
  "returns r s = map_option (\<lambda>s. Go (r, s)) s"

definition start_cmd_slot_num :: "bytes option \<Rightarrow> boot \<Rightarrow> cmd_result" where
  "start_cmd_slot_num optarg s = (case s of (c, dp, g) \<Rightarrow> do {
     arg \<leftarrow> optarg;
     v \<leftarrow> atoi arg;
     let n = (word_of_int v :: u16);
     c' \<leftarrow> set_state (\<lambda>st. do { t \<leftarrow> sprintf_to (fmt_u (unat n)) (st_slotNum st); Some (st\<lparr>st_slotNum := t\<rparr>) }) c;
     Some (Go (POF_OK, c', dp\<lparr>slotNum := ucast n\<rparr>, g))
   })"

definition start_cmd_listen_port :: "bytes option \<Rightarrow> boot \<Rightarrow> cmd_result" where
  "start_cmd_listen_port optarg s = (case s of (c, dp, g) \<Rightarrow> (case optarg of
      None \<Rightarrow> Some (Go (POF_ERROR, s))
    | Some arg \<Rightarrow> do {
        v \<leftarrow> atoi arg;
        let p = (word_of_int v :: u16);
        c' \<leftarrow> set_state (\<lambda>st. do { t \<leftarrow> sprintf_to (fmt_u (unat p)) (st_listenPort st); Some (st\<lparr>st_listenPort := t\<rparr>) }) c;
        Some (Go (POF_OK, c', dp\<lparr>listenPort := p\<rparr>, g))
      }))"

definition start_cmd_device_id :: "bytes option \<Rightarrow> boot \<Rightarrow> cmd_result" where
  "start_cmd_device_id optarg s = (case s of (c, dp, g) \<Rightarrow> do {
     arg \<leftarrow> optarg;
     let devID = (ucast (strtoul16 arg) :: u32);
     c' \<leftarrow> set_state (\<lambda>st. do { t \<leftarrow> sprintf_to ([48, 120] @ fmt_8x devID) (st_devID st); Some (st\<lparr>st_devID := t\<rparr>) }) c;
     Some (Go (POF_OK, c', dp, g\<lparr>g_poflr_dev_id := devID\<rparr>))
   })"

text \<open>Switching to the custom mode of ports: bit 0 of the flag is \<^verbatim>\<open>POFLRPF_FROM_CUSTOM\<close>.\<close>

definition custom_mode :: "boot \<Rightarrow> boot option" where
  "custom_mode s = (case s of (c, dp, g) \<Rightarrow> do {
     dp' \<leftarrow> upd_param (\<lambda>pm. Some (pm\<lparr>pm_portFlag := pm_portFlag pm OR 1\<rparr>)) dp;
     c' \<leftarrow> set_state (\<lambda>st. do { t \<leftarrow> strncpy_to 63 (asc ''CUSTOM'') (st_port_mode st); Some (st\<lparr>st_port_mode := t\<rparr>) }) c;
     Some (c', dp', g)
   })"

definition start_cmd_add_port :: "bytes option \<Rightarrow> boot \<Rightarrow> cmd_result" where
  "start_cmd_add_port optarg s = do {
     (c, dp, g) \<leftarrow> custom_mode s;
     optarg' \<leftarrow> optarg;
     let arg = pofbf_split_str 2 [44] (c_str optarg');
     v \<leftarrow> (case arg ! 1 of Some a \<Rightarrow> atoi a | None \<Rightarrow> Some 0);
     let slot = (word_of_int v :: u16);
     (if slotNum dp - 1 < ucast slot then
        (case err_no_upward POFET_SOFTWARE_FAILED (SoftE POF_INVALID_SLOT_ID) g of (r, g') \<Rightarrow> Some (Go (r, c, dp, g')))
      else do {
        name \<leftarrow> arg ! 0;
        (r, g') \<leftarrow> poflr_add_port_only_name name slot g;
        Some (Go (r, c, dp, g'))
      })
   }"

definition start_cmd_empty :: "bytes option \<Rightarrow> boot \<Rightarrow> cmd_result" where
  "start_cmd_empty optarg s = returns POF_OK (custom_mode s)"

definition start_cmd_promisc :: "bytes option \<Rightarrow> boot \<Rightarrow> cmd_result" where
  "start_cmd_promisc optarg s = (case s of (c, dp, g) \<Rightarrow> do {
     c' \<leftarrow> set_state (\<lambda>st. do { t \<leftarrow> strncpy_to 63 (asc ''ON'') (st_promisc_on st); Some (st\<lparr>st_promisc_on := t\<rparr>) }) c;
     Some (Go (POF_OK, c', dp\<lparr>dp_filter := pofdp_promisc\<rparr>, g))
   })"

definition set_verbosity :: "bool \<Rightarrow> bool \<Rightarrow> bool \<Rightarrow> bytes \<Rightarrow> bytes \<Rightarrow> config \<Rightarrow> config option" where
  "set_verbosity dbg err cmd debug_on mode c =
     set_state (\<lambda>st. do {
         d \<leftarrow> strncpy_to 63 debug_on (st_debug_on st);
         v \<leftarrow> strncpy_to 63 mode (st_verbosity st);
         Some (st\<lparr>st_debug_on := d, st_verbosity := v\<rparr>)
       }) (c\<lparr>cf_log := (cf_log c)\<lparr>lg_dbgEnable := dbg, lg_errEnable := err, lg_cmdEnable := cmd\<rparr>\<rparr>)"

definition start_cmd_verbosity :: "bytes option \<Rightarrow> boot \<Rightarrow> cmd_result" where
  "start_cmd_verbosity optarg s = (case s of (c, dp, g) \<Rightarrow> (case optarg of
      None \<Rightarrow> Some (Go (POF_ERROR, s))
    | Some arg \<Rightarrow>
        let set = (\<lambda>dbg err cmd d m. do { c' \<leftarrow> set_verbosity dbg err cmd (asc d) (asc m) c; Some (Go (POF_OK, c', dp, g)) }) in
        if c_str arg = asc ''debug'' then set True True True ''ON'' ''DEBUG''
        else if c_str arg = asc ''error'' then set False True True ''OFF'' ''ERROR''
        else if c_str arg = asc ''mute'' then set False False False ''OFF'' ''MUTE''
        else Some (Go (POF_ERROR, s))))"

definition start_cmd_ip_addr :: "bytes option \<Rightarrow> boot \<Rightarrow> cmd_result" where
  "start_cmd_ip_addr optarg s = (case s of (c, dp, g) \<Rightarrow> (case optarg of
      None \<Rightarrow> Some (Go (POF_ERROR, s))
    | Some arg \<Rightarrow> do { c' \<leftarrow> pofsc_set_controller_ip arg c; Some (Go (POF_OK, c', dp, g)) }))"

definition start_cmd_port :: "bytes option \<Rightarrow> boot \<Rightarrow> cmd_result" where
  "start_cmd_port optarg s = (case s of (c, dp, g) \<Rightarrow> (case optarg of
      None \<Rightarrow> Some (Go (POF_ERROR, s))
    | Some arg \<Rightarrow> do {
        v \<leftarrow> atoi arg;
        c' \<leftarrow> pofsc_set_controller_port (word_of_int v) c;
        Some (Go (POF_OK, c', dp, g))
      }))"

definition start_cmd_file :: "start_env \<Rightarrow> bytes option \<Rightarrow> boot \<Rightarrow> cmd_result" where
  "start_cmd_file env optarg s = (case optarg of
      None \<Rightarrow> Some (Go (POF_ERROR, s))
    | Some arg \<Rightarrow> (case se_files env (c_str arg) of
        None \<Rightarrow> Some Exit
      | Some fp \<Rightarrow> do {
          (_, c, dp, g) \<leftarrow> readConfigFile fp s;
          c' \<leftarrow> set_state (\<lambda>st. do { t \<leftarrow> strncpy_to 63 arg (st_config_file st); Some (st\<lparr>st_config_file := t\<rparr>) }) c;
          Some (Go (POF_OK, c', dp, g))
        }))"

definition start_cmd_man_clear :: "bytes option \<Rightarrow> boot \<Rightarrow> cmd_result" where
  "start_cmd_man_clear optarg s = (case s of (c, dp, g) \<Rightarrow> do {
     c' \<leftarrow> set_state (\<lambda>st. do { t \<leftarrow> strncpy_to 63 (asc ''OFF'') (st_autoclear_after_disconn st);
                                Some (st\<lparr>st_autoclear_after_disconn := t\<rparr>) }) c;
     Some (Go (POF_OK, c', dp, g\<lparr>pofc_cmd_auto_clear := False\<rparr>))
   })"

definition pofsc_check_root :: "start_env \<Rightarrow> ret" where
  "pofsc_check_root env = (if se_root env then POF_OK else POF_ERROR)"

definition pof_open_log_file :: "start_env \<Rightarrow> bytes \<Rightarrow> config \<Rightarrow> config run" where
  "pof_open_log_file env filename c =
     (if se_writable env (c_str filename) then Go (c\<lparr>cf_log := (cf_log c)\<lparr>lg_file := Some (c_str filename)\<rparr>\<rparr>) else Exit)"

definition start_cmd_log_file :: "start_env \<Rightarrow> bytes option \<Rightarrow> boot \<Rightarrow> cmd_result" where
  "start_cmd_log_file env optarg s = (case s of (c, dp, g) \<Rightarrow>
     let filename = (case optarg of Some arg \<Rightarrow> arg | None \<Rightarrow> asc ''/usr/local/var/log/pofswitch.log'') in
     if pofsc_check_root env \<noteq> POF_OK then Some Exit
     else (case pof_open_log_file env filename c of
         Exit \<Rightarrow> Some Exit
       | Go c1 \<Rightarrow> do {
           c2 \<leftarrow> set_state (\<lambda>st. do { t \<leftarrow> strncpy_to 63 filename (st_log_file st); Some (st\<lparr>st_log_file := t\<rparr>) }) c1;
           Some (Go (POF_OK, c2, dp, g))
         }))"

text \<open>The commands \<^verbatim>\<open>state\<close>, \<^verbatim>\<open>test\<close>, \<^verbatim>\<open>help\<close> and \<^verbatim>\<open>version\<close> print and exit.\<close>

definition start_cmd_print :: "bytes option \<Rightarrow> boot \<Rightarrow> cmd_result" where
  "start_cmd_print optarg s = Some Exit"

section \<open>Options\<close>

text \<open>
  The table \<^verbatim>\<open>CONFIG_CMDS\<close>: the letter of an option, whether the letter takes an argument, and the
  long name. The long name of every option takes an optional argument, behind an equals sign only.
\<close>

definition CONFIG_CMDS :: "(u8 \<times> bool \<times> bytes) list" where
  "CONFIG_CMDS = [(of_char CHR ''i'', True, asc ''ip-addr''), (of_char CHR ''p'', True, asc ''port''),
     (of_char CHR ''a'', True, asc ''add-port''), (of_char CHR ''e'', False, asc ''empty''),
     (of_char CHR ''f'', True, asc ''file''), (of_char CHR ''d'', True, asc ''device-id''),
     (of_char CHR ''l'', True, asc ''log-file''), (of_char CHR ''s'', False, asc ''state''),
     (of_char CHR ''P'', False, asc ''promisc''), (of_char CHR ''V'', True, asc ''verbosity''),
     (of_char CHR ''L'', True, asc ''listen-port''), (of_char CHR ''h'', False, asc ''help''),
     (of_char CHR ''v'', False, asc ''version''), (of_char CHR ''S'', True, asc ''slot-num''),
     (of_char CHR ''m'', False, asc ''man-clear''), (of_char CHR ''t'', False, asc ''test'')]"

text \<open>
  \<^verbatim>\<open>getopt_long\<close>: the options in the order it returns them. \<open>63\<close> is the question mark of an option that is
  unknown, ambiguous or lacks its argument; the caller exits there. An abbreviation of a long
  name counts when only one name begins with it. Other arguments are passed over.
\<close>

type_synonym opt = "u8 \<times> bytes option"

definition long_opt :: "(u8 \<times> bool \<times> bytes) list \<Rightarrow> bytes \<Rightarrow> opt" where
  "long_opt cmds a = (let name = takeWhile (\<lambda>b. b \<noteq> 61) a;
       arg = (case dropWhile (\<lambda>b. b \<noteq> 61) a of [] \<Rightarrow> None | _ # v \<Rightarrow> Some v);
       exact = filter (\<lambda>(_, _, l). l = name) cmds;
       prefixed = filter (\<lambda>(_, _, l). take (length name) l = name) cmds
     in case exact @ (if length prefixed = 1 then prefixed else []) of
        [] \<Rightarrow> (63, None)
      | (c, _) # _ \<Rightarrow> (c, arg))"

fun short_opts :: "(u8 \<times> bool \<times> bytes) list \<Rightarrow> bytes \<Rightarrow> bytes list \<Rightarrow> opt list \<times> bytes list" where
  "short_opts cmds [] args = ([], args)"
| "short_opts cmds (c # cs) args = (case find (\<lambda>(l, _). l = c) cmds of
      None \<Rightarrow> ([(63, None)], args)
    | Some (_, takes_arg, _) \<Rightarrow>
        if \<not> takes_arg then (case short_opts cmds cs args of (opts, r) \<Rightarrow> ((c, None) # opts, r))
        else if cs \<noteq> [] then ([(c, Some cs)], args)
        else (case args of [] \<Rightarrow> ([(63, None)], []) | a # r \<Rightarrow> ([(c, Some a)], r)))"

lemma short_opts_shorter: "short_opts cmds cs args = (opts, r) \<Longrightarrow> length r \<le> length args"
  by (induction cmds cs args arbitrary: opts r rule: short_opts.induct) (auto split: option.splits prod.splits if_splits list.splits)

function getopt_long :: "(u8 \<times> bool \<times> bytes) list \<Rightarrow> bytes list \<Rightarrow> opt list" where
  "getopt_long cmds [] = []"
| "getopt_long cmds (a # args) = (
     if a = [45, 45] then []
     else if take 2 a = [45, 45] then long_opt cmds (drop 2 a) # getopt_long cmds args
     else if take 1 a = [45] \<and> 1 < length a then
       (case short_opts cmds (drop 1 a) args of (opts, r) \<Rightarrow> opts @ getopt_long cmds r)
     else getopt_long cmds args)"
  by pat_completeness auto

termination
  by (relation "measure (\<lambda>(cmds, args). length args)") (auto dest!: short_opts_shorter [OF sym])

text \<open>One option of the \<^verbatim>\<open>switch\<close>.\<close>

definition start_cmd :: "start_env \<Rightarrow> u8 \<Rightarrow> bytes option \<Rightarrow> boot \<Rightarrow> cmd_result" where
  "start_cmd env ch optarg s = (
     if ch = of_char CHR ''i'' then start_cmd_ip_addr optarg s
     else if ch = of_char CHR ''p'' then start_cmd_port optarg s
     else if ch = of_char CHR ''a'' then start_cmd_add_port optarg s
     else if ch = of_char CHR ''e'' then start_cmd_empty optarg s
     else if ch = of_char CHR ''f'' then start_cmd_file env optarg s
     else if ch = of_char CHR ''d'' then start_cmd_device_id optarg s
     else if ch = of_char CHR ''l'' then start_cmd_log_file env optarg s
     else if ch = of_char CHR ''P'' then start_cmd_promisc optarg s
     else if ch = of_char CHR ''V'' then start_cmd_verbosity optarg s
     else if ch = of_char CHR ''L'' then start_cmd_listen_port optarg s
     else if ch = of_char CHR ''S'' then start_cmd_slot_num optarg s
     else if ch = of_char CHR ''m'' then start_cmd_man_clear optarg s
     else if ch \<in> {of_char CHR ''s'', of_char CHR ''h'', of_char CHR ''v'', of_char CHR ''t''} then start_cmd_print optarg s
     else Some (Go (POF_OK, s)))"

text \<open>A command that fails prints the help, which exits.\<close>

primrec run_opts :: "start_env \<Rightarrow> opt list \<Rightarrow> boot \<Rightarrow> boot run option" where
  "run_opts env [] s = Some (Go s)"
| "run_opts env (opt # opts) s = (
     if fst opt = 63 then Some Exit
     else (case start_cmd env (fst opt) (snd opt) s of
         None \<Rightarrow> None
       | Some Exit \<Rightarrow> Some Exit
       | Some (Go (r, s')) \<Rightarrow> if r \<noteq> POF_OK then Some Exit else run_opts env opts s'))"

definition pof_set_init_config_by_command :: "start_env \<Rightarrow> bytes list \<Rightarrow> boot \<Rightarrow> boot run option" where
  "pof_set_init_config_by_command env args s = run_opts env (getopt_long CONFIG_CMDS args) s"

text \<open>The version of the build: release and sub-version.\<close>

definition versionInit :: "bytes \<Rightarrow> bytes \<Rightarrow> boot \<Rightarrow> boot option" where
  "versionInit version1 version2 s = (case s of (c, dp, g) \<Rightarrow> do {
     let v = version1 @ 46 # version2;
     c' \<leftarrow> set_state (\<lambda>st. do { t \<leftarrow> snprintf_to 63 v (st_version st); Some (st\<lparr>st_version := t\<rparr>) }) c;
     v' \<leftarrow> snprintf_to 63 v (g_versionStr g);
     Some (c', dp, g\<lparr>g_versionStr := v'\<rparr>)
   })"

definition pof_set_init_config :: "start_env \<Rightarrow> bytes list \<Rightarrow> boot \<Rightarrow> cmd_result" where
  "pof_set_init_config env args s = do {
     s1 \<leftarrow> versionInit (asc ''POFSwitch-1.4.0'') (asc ''015'') s;
     (_, s2) \<leftarrow> pof_set_init_config_by_file env s1;
     r \<leftarrow> pof_set_init_config_by_command env args s2;
     Some (case r of Exit \<Rightarrow> Exit | Go s3 \<Rightarrow> Go (POF_OK, s3))
   }"

end
