(* ===== verification/Pof_Config_File.thy ===== *)
theory Pof_Config_File
  imports Pof_Config
begin

text \<open>
  What the configuration file means: reading a file that was written from a list of settings gives
  every parameter the value of its last setting, and a wrong keyword ends the reading with the settings
  before it made.
\<close>

section \<open>Words and numbers\<close>

lemma scan_word_token:
  assumes "w \<noteq> []" "\<forall>b \<in> set w. \<not> isspace b" "\<forall>b \<in> set sp. isspace b" "isspace c"
  shows "scan_word (sp @ w @ c # rest) = Some (w, c # rest)"
proof -
  obtain x xs where w: "w = x # xs" using assms(1) by (cases w) auto
  have "dropWhile isspace (sp @ w @ c # rest) = w @ c # rest" using assms(2,3) w by (simp add: dropWhile_append2)
  moreover have "takeWhile (\<lambda>b. \<not> isspace b) (w @ c # rest) = w" "dropWhile (\<lambda>b. \<not> isspace b) (w @ c # rest) = c # rest"
    using assms(2,4) by (simp_all add: takeWhile_append2 dropWhile_append2)
  ultimately show ?thesis using w by (simp add: scan_word_def)
qed

lemma unat_digit: "d < 10 \<Longrightarrow> unat (of_nat (48 + d) :: u8) = 48 + d"
  by (simp add: unat_of_nat take_bit_eq_mod del: of_nat_add)

lemma isdigit_digit: "d < 10 \<Longrightarrow> isdigit (of_nat (48 + d))"
  using unat_digit [of d] by (simp add: isdigit_def word_le_nat_alt)

lemma fmt_u_digits: "\<forall>b \<in> set (fmt_u n). isdigit b" "fmt_u n \<noteq> []"
proof (induction n rule: fmt_u.induct)
  case (1 n)
  {
    case 1
    then show ?case using "1.IH" isdigit_digit [of n] isdigit_digit [of "n mod 10"] by (subst fmt_u.simps) auto
  next
    case 2
    then show ?case by (subst fmt_u.simps) auto
  }
qed

lemma dec_val_snoc: "dec_val (ds @ [d]) = 10 * dec_val ds + (unat d - 48)"
  by (simp add: dec_val_def)

lemma dec_val_fmt: "dec_val (fmt_u n) = n"
proof (induction n rule: fmt_u.induct)
  case (1 n)
  then show ?case
    using unat_digit [of n] unat_digit [of "n mod 10"] by (subst fmt_u.simps) (auto simp: dec_val_snoc, simp add: dec_val_def)
qed

lemma digit_facts: "isdigit b \<Longrightarrow> \<not> isspace b \<and> b \<noteq> 0 \<and> b \<noteq> 45 \<and> b \<noteq> 43"
  by (auto simp: isdigit_def isspace_def word_le_nat_alt)

lemma c_str_id: "0 \<notin> set s \<Longrightarrow> c_str s = s"
  by (auto simp: c_str_def takeWhile_eq_all_conv)

lemma atoi_fmt: "n < 2 ^ 31 \<Longrightarrow> atoi (fmt_u n) = Some (int n)"
proof -
  assume n: "n < 2 ^ 31"
  obtain x xs where x: "fmt_u n = x # xs" using fmt_u_digits(2) by (cases "fmt_u n") auto
  have all: "\<forall>b \<in> set (fmt_u n). isdigit b" by (rule fmt_u_digits)
  have "c_str (fmt_u n) = fmt_u n" using all digit_facts by (intro c_str_id) blast
  moreover have "dropWhile isspace (fmt_u n) = fmt_u n" using x all digit_facts by simp
  moreover have "sign (fmt_u n) = (False, fmt_u n)" using x all digit_facts by (simp add: sign_def)
  moreover have tw: "takeWhile isdigit (fmt_u n) = fmt_u n" using all by simp
  ultimately show ?thesis using n by (simp add: atoi_def tw dec_val_fmt Let_def)
qed

lemma fmt_u_short: "n < 2 ^ 31 \<Longrightarrow> length (fmt_u n) \<le> 10"
proof -
  have "n < 10 ^ Suc k \<Longrightarrow> length (fmt_u n) \<le> Suc k" for n k
  proof (induction k arbitrary: n)
    case 0
    then show ?case by (subst fmt_u.simps) simp
  next
    case (Suc k)
    have "n div 10 < 10 ^ Suc k" using Suc.prems by (simp add: div_less_iff_less_mult)
    then show ?case using Suc.IH [of "n div 10"] by (subst fmt_u.simps) auto
  qed
  from this [of n 9] show "n < 2 ^ 31 \<Longrightarrow> length (fmt_u n) \<le> 10" by simp
qed

section \<open>Settings\<close>

text \<open>A line of the file: the address of the controller, or the number of a parameter.\<close>

datatype setting = Address bytes | Number nat nat

primrec print_setting :: "setting \<Rightarrow> bytes" where
  "print_setting (Address ip) = config_type_str ! 0 @ [32] @ ip @ [10]"
| "print_setting (Number t v) = config_type_str ! t @ [32] @ fmt_u v @ [10]"

definition word_ok :: "bytes \<Rightarrow> bool" where
  "word_ok w \<longleftrightarrow> w \<noteq> [] \<and> (\<forall>b \<in> set w. \<not> isspace b \<and> b \<noteq> 0) \<and> length w < 100"

primrec setting_ok :: "setting \<Rightarrow> bool" where
  "setting_ok (Address ip) \<longleftrightarrow> word_ok ip"
| "setting_ok (Number t v) \<longleftrightarrow> 1 \<le> t \<and> t \<le> 11 \<and> v < 2 ^ 31"

text \<open>The value the switch has for a parameter.\<close>

definition cfg_value :: "nat \<Rightarrow> boot \<Rightarrow> nat" where
  "cfg_value t s = (case s of (c, dp, g) \<Rightarrow> let pm = dp_param dp in
     if t = 1 then unat (pofsc_controller_port c)
     else if t \<le> 5 then unat (pm_tableNumMaxEachType pm ! (t - 2))
     else if t = 6 then unat (pm_tableSizeMax pm)
     else if t = 7 then unat (poflr_key_len g)
     else if t = 8 then unat (pm_meterNumMax pm)
     else if t = 9 then unat (pm_counterNumMax pm)
     else if t = 10 then unat (pm_groupNumMax pm)
     else if t = 11 then unat (pm_portNumMax pm) else 0)"

text \<open>Parameters of 16 bits keep the low half of their number.\<close>

definition fits :: "nat \<Rightarrow> nat \<Rightarrow> nat" where
  "fits t v = (if t \<le> 5 \<or> t = 11 then v mod 2 ^ 16 else v mod 2 ^ 32)"

primrec last_number :: "nat \<Rightarrow> setting list \<Rightarrow> nat option" where
  "last_number t [] = None"
| "last_number t (x # ss) = (case last_number t ss of
      Some v \<Rightarrow> Some v
    | None \<Rightarrow> (case x of Number t' v \<Rightarrow> if t' = t then Some v else None | Address _ \<Rightarrow> None))"

primrec last_address :: "setting list \<Rightarrow> bytes option" where
  "last_address [] = None"
| "last_address (x # ss) = (case last_address ss of
      Some ip \<Rightarrow> Some ip
    | None \<Rightarrow> (case x of Address ip \<Rightarrow> Some ip | Number _ _ \<Rightarrow> None))"

text \<open>The arrays have the sizes of their declarations.\<close>

definition boot_ok :: "boot \<Rightarrow> bool" where
  "boot_ok s \<longleftrightarrow> (case s of (c, dp, g) \<Rightarrow> length (pofsc_controller_ip_addr c) = 20
     \<and> length (st_ctrl_ip (cf_states c)) = 64 \<and> length (st_conn_port (cf_states c)) = 64
     \<and> length (pm_tableNumMaxEachType (dp_param dp)) = 4)"

lemma config_type_nth: "t < 12 \<Longrightarrow> pofsic_get_config_type (config_type_str ! t) = of_nat t"
proof -
  have "map pofsic_get_config_type config_type_str = map of_nat [0..<12]"
    by (simp add: pofsic_get_config_type_def config_type_str_def asc_def c_str_def upt_rec)
  then show "t < 12 \<Longrightarrow> ?thesis" by (metis (no_types, lifting) add.left_neutral length_map length_upt diff_zero nth_map nth_upt)
qed

lemma config_type_words: "t < 12 \<Longrightarrow> word_ok (config_type_str ! t)"
proof -
  have "list_all word_ok config_type_str" "length config_type_str = 12"
    by (simp_all add: word_ok_def config_type_str_def asc_def isspace_def)
  then show "t < 12 \<Longrightarrow> ?thesis" by (simp add: list_all_length)
qed

lemma fmt_u_word: "v < 2 ^ 31 \<Longrightarrow> word_ok (fmt_u v)"
  using fmt_u_digits fmt_u_short [of v] digit_facts by (fastforce simp: word_ok_def)

lemma scan_setting:
  assumes "word_ok w" "\<forall>b \<in> set sp. isspace b" "isspace c"
  shows "scan_word (sp @ w @ c # rest) = Some (w, c # rest)"
  using assms by (intro scan_word_token) (auto simp: word_ok_def)

text \<open>White space in front of the next word does not matter.\<close>

lemma read_skip: "isspace c \<Longrightarrow> readConfigFile (c # fp) s = readConfigFile fp s"
proof -
  assume "isspace c"
  then have "scan_word (c # fp) = scan_word fp" by (simp add: scan_word_def)
  then show ?thesis by (simp add: readConfigFile.simps [of "c # fp"] readConfigFile.simps [of fp])
qed

lemma unat_cut: "unat (ucast (of_nat v :: u32) :: u16) = v mod 2 ^ 16" "unat (of_nat v :: u32) = v mod 2 ^ 32"
  by (simp_all add: unsigned_ucast_eq unat_of_nat take_bit_eq_mod mod_mod_cancel)

definition config_step :: "nat \<Rightarrow> nat \<Rightarrow> boot \<Rightarrow> boot \<Rightarrow> bool" where
  "config_step t v s s1 \<longleftrightarrow> boot_ok s1 \<and> pofsc_controller_ip_addr (fst s1) = pofsc_controller_ip_addr (fst s)
     \<and> (\<forall>u. 1 \<le> u \<and> u \<le> 11 \<longrightarrow> cfg_value u s1 = (if u = t then fits t v else cfg_value u s))"

lemma set_port_total:
  assumes "length (st_conn_port (cf_states c)) = 64"
  shows "\<exists>st. pofsc_set_controller_port p c = Some (c\<lparr>pofsc_controller_port := p, cf_states := st\<rparr>)
    \<and> length (st_conn_port st) = 64 \<and> length (st_ctrl_ip st) = length (st_ctrl_ip (cf_states c))"
proof -
  have "unat p < 2 ^ 31" using unsigned_less [of p, where ?'a = nat] by simp
  then have "length (fmt_u (unat p)) \<le> 10" by (rule fmt_u_short)
  then show ?thesis
    using assms by (auto simp: pofsc_set_controller_port_def set_state_def sprintf_to_def mem_write_def)
qed

lemma table_num_step:
  assumes "boot_ok (c, dp, g)" "i < 4" "unat w = v mod 2 ^ 16"
  shows "\<exists>dp'. upd_param (set_table_num i w) dp = Some dp' \<and> config_step (i + 2) v (c, dp, g) (c, dp', g)"
proof -
  let ?ns = "pm_tableNumMaxEachType (dp_param dp)"
  let ?dp = "dp\<lparr>dp_param := (dp_param dp)\<lparr>pm_tableNumMaxEachType := ?ns[i := w]\<rparr>\<rparr>"
  have len: "length ?ns = 4" using assms(1) by (simp add: boot_ok_def)
  have "cfg_value u (c, ?dp, g) = (if u = i + 2 then fits (i + 2) v else cfg_value u (c, dp, g))" if u: "1 \<le> u" for u
  proof (cases "u \<noteq> 1 \<and> u \<le> 5")
    case True
    then have "u - 2 = i \<longleftrightarrow> u = i + 2" "u - 2 < 4" using u by auto
    then show ?thesis using True len assms by (auto simp: cfg_value_def fits_def Let_def nth_list_update)
  next
    case False
    then show ?thesis using assms(2) by (auto simp: cfg_value_def Let_def)
  qed
  moreover have "upd_param (set_table_num i w) dp = Some ?dp" using len assms(2) by (simp add: upd_param_def set_table_num_def wr_def)
  ultimately show ?thesis using assms(1) by (auto simp: config_step_def boot_ok_def)
qed

lemma other_step:
  assumes "boot_ok (c, dp, g)" "t \<in> {6, 7, 8, 9, 10, 11}"
  shows "\<exists>s1. apply_config (of_nat t) (of_nat v) (c, dp, g) = Some (True, s1) \<and> config_step t v (c, dp, g) s1"
proof -
  let ?w = "of_nat v :: u32"
  define f where "f = (\<lambda>pm :: pof_param. if t = 6 then pm\<lparr>pm_tableSizeMax := ?w\<rparr> else if t = 8 then pm\<lparr>pm_meterNumMax := ?w\<rparr>
    else if t = 9 then pm\<lparr>pm_counterNumMax := ?w\<rparr> else if t = 10 then pm\<lparr>pm_groupNumMax := ?w\<rparr>
    else if t = 11 then pm\<lparr>pm_portNumMax := ucast ?w\<rparr> else pm)"
  let ?s = "(c, dp\<lparr>dp_param := f (dp_param dp)\<rparr>, if t = 7 then g\<lparr>poflr_key_len := ?w\<rparr> else g)"
  have "apply_config (of_nat t) ?w (c, dp, g) = Some (True, ?s)"
    using assms(2) by (elim insertE emptyE) (simp_all add: apply_config_def upd_param_def f_def poflr_set_key_len_def Let_def)
  moreover have "pm_tableNumMaxEachType (f pm) = pm_tableNumMaxEachType pm" for pm by (simp add: f_def)
  then have "cfg_value u ?s = (if u = t then fits t v else cfg_value u (c, dp, g))" for u
    using assms(2) by (elim insertE emptyE) (simp_all add: cfg_value_def fits_def f_def unat_cut Let_def)
  moreover have "boot_ok ?s" using assms(1) by (simp add: boot_ok_def f_def)
  ultimately show ?thesis by (auto simp: config_step_def)
qed

lemma apply_config_step:
  assumes "boot_ok s" "1 \<le> t" "t \<le> 11"
  shows "\<exists>s1. apply_config (of_nat t) (of_nat v) s = Some (True, s1) \<and> config_step t v s s1"
proof -
  obtain c dp g where s: "s = (c, dp, g)" by (cases s)
  have "t = 1 \<or> t = 2 \<or> t = 3 \<or> t = 4 \<or> t = 5 \<or> t = 6 \<or> t = 7 \<or> t = 8 \<or> t = 9 \<or> t = 10 \<or> t = 11"
    using assms(2,3) by presburger
  then consider "t = 1" | "t \<in> {2, 3, 4, 5}" | "t \<in> {6, 7, 8, 9, 10, 11}" by auto
  then show ?thesis
  proof cases
    case 1
    obtain st where "pofsc_set_controller_port (ucast (of_nat v :: u32)) c = Some (c\<lparr>pofsc_controller_port := ucast (of_nat v :: u32), cf_states := st\<rparr>)"
      "length (st_conn_port st) = 64" "length (st_ctrl_ip st) = 64"
      using set_port_total [of c "ucast (of_nat v :: u32)"] assms(1) s by (auto simp: boot_ok_def)
    then show ?thesis
      using 1 assms(1) s by (auto simp: apply_config_def config_step_def boot_ok_def cfg_value_def fits_def unat_cut Let_def)
  next
    case 2
    obtain dp' where dp': "upd_param (set_table_num (t - 2) (ucast (of_nat v :: u32))) dp = Some dp'"
      "config_step (t - 2 + 2) v (c, dp, g) (c, dp', g)"
      using table_num_step [of c dp g "t - 2" "ucast (of_nat v :: u32)" v] assms(1) s 2 unat_cut(1) [of v] by auto
    have "apply_config (of_nat t) (of_nat v) s = do { dp' \<leftarrow> upd_param (set_table_num (t - 2) (ucast (of_nat v :: u32))) dp; Some (True, c, dp', g) }"
      using 2 s by (auto simp: apply_config_def Let_def)
    moreover have "t - 2 + 2 = t" using 2 by auto
    ultimately show ?thesis using dp' s by (simp del: add_2_eq_Suc')
  next
    case 3
    then show ?thesis using other_step [of c dp g t v] assms(1) s by blast
  qed
qed

lemma read_number:
  assumes "boot_ok s" "setting_ok (Number t v)"
  shows "\<exists>s1. readConfigFile (print_setting (Number t v) @ rest) s = readConfigFile rest s1 \<and> config_step t v s s1"
proof -
  have t: "1 \<le> t" "t \<le> 11" "v < 2 ^ 31" using assms(2) by auto
  obtain s1 where s1: "apply_config (of_nat t) (of_nat v) s = Some (True, s1)" "config_step t v s s1"
    using apply_config_step [OF assms(1) t(1,2)] by blast
  have sp: "isspace 32" "isspace 10" by (simp_all add: isspace_def)
  have k: "scan_word (print_setting (Number t v) @ rest) = Some (config_type_str ! t, 32 # fmt_u v @ 10 # rest)"
    using scan_setting [of "config_type_str ! t" "[]" 32 "fmt_u v @ 10 # rest"] config_type_words t sp by simp
  have d: "scan_word (32 # fmt_u v @ 10 # rest) = Some (fmt_u v, 10 # rest)"
    using scan_setting [of "fmt_u v" "[32]" 10 rest] fmt_u_word [OF t(3)] sp by simp
  have "length (fmt_u v) < 100" using fmt_u_word [OF t(3)] by (simp add: word_ok_def)
  then have "pofsic_get_config_data (32 # fmt_u v @ 10 # rest) = Some (True, of_nat v, 10 # rest)"
    using atoi_fmt [OF t(3)] by (simp add: pofsic_get_config_data_def d)
  moreover have "length (config_type_str ! t) < 100" using config_type_words [of t] t by (simp add: word_ok_def)
  moreover have "pofsic_get_config_type (config_type_str ! t) = of_nat t" using config_type_nth [of t] t by simp
  moreover have "(of_nat t :: u8) \<noteq> 0"
  proof -
    have "unat (of_nat t :: u8) = t" using t by (simp add: unat_of_nat take_bit_eq_mod)
    then show ?thesis using t(1) by auto
  qed
  ultimately have "readConfigFile (print_setting (Number t v) @ rest) s = readConfigFile (10 # rest) s1"
    by (subst readConfigFile.simps) (simp add: k s1(1) del: print_setting.simps)
  then show ?thesis using read_skip [OF sp(2), of rest s1] s1(2) by metis
qed

lemma set_ip_total:
  assumes "boot_ok (c, dp, g)"
  shows "\<exists>st. pofsc_set_controller_ip ip c = Some (c\<lparr>pofsc_controller_ip_addr := strncpy 20 ip, cf_states := st\<rparr>)
    \<and> length (st_conn_port st) = 64 \<and> length (st_ctrl_ip st) = 64"
  using assms by (auto simp: boot_ok_def pofsc_set_controller_ip_def set_state_def strncpy_to_def mem_write_def)

lemma read_address:
  assumes "boot_ok s" "word_ok ip"
  shows "\<exists>s1. readConfigFile (print_setting (Address ip) @ rest) s = readConfigFile rest s1 \<and> boot_ok s1
    \<and> pofsc_controller_ip_addr (fst s1) = strncpy 20 ip \<and> (\<forall>u. cfg_value u s1 = cfg_value u s)"
proof -
  obtain c dp g where s: "s = (c, dp, g)" by (cases s)
  obtain st where st: "pofsc_set_controller_ip ip c = Some (c\<lparr>pofsc_controller_ip_addr := strncpy 20 ip, cf_states := st\<rparr>)"
    "length (st_conn_port st) = 64" "length (st_ctrl_ip st) = 64" using set_ip_total assms(1) s by blast
  let ?s = "(c\<lparr>pofsc_controller_ip_addr := strncpy 20 ip, cf_states := st\<rparr>, dp, g)"
  have sp: "isspace 32" "isspace 10" by (simp_all add: isspace_def)
  have k: "scan_word (print_setting (Address ip) @ rest) = Some (config_type_str ! 0, 32 # ip @ 10 # rest)"
    using scan_setting [of "config_type_str ! 0" "[]" 32 "ip @ 10 # rest"] config_type_words sp by simp
  have d: "scan_word (32 # ip @ 10 # rest) = Some (ip, 10 # rest)" using scan_setting [of ip "[32]" 10 rest] assms(2) sp by simp
  have "length ip < 100" "length (config_type_str ! 0) < 100" "pofsic_get_config_type (config_type_str ! 0) = 0"
    using assms(2) config_type_words [of 0] config_type_nth [of 0] by (simp_all add: word_ok_def)
  then have "readConfigFile (print_setting (Address ip) @ rest) s = readConfigFile (10 # rest) ?s"
    using s st(1) by (subst readConfigFile.simps) (simp add: k d del: print_setting.simps)
  moreover have "boot_ok ?s" "\<forall>u. cfg_value u ?s = cfg_value u s"
    using assms(1) s st(2,3) by (auto simp: boot_ok_def cfg_value_def Let_def)
  ultimately show ?thesis using read_skip [OF sp(2), of rest ?s] by (intro exI [of _ ?s]) simp
qed

text \<open>The values a list of settings gives.\<close>

definition config_of :: "setting list \<Rightarrow> boot \<Rightarrow> boot \<Rightarrow> bool" where
  "config_of ss s s1 \<longleftrightarrow> boot_ok s1
     \<and> pofsc_controller_ip_addr (fst s1) = (case last_address ss of None \<Rightarrow> pofsc_controller_ip_addr (fst s) | Some ip \<Rightarrow> strncpy 20 ip)
     \<and> (\<forall>u. 1 \<le> u \<and> u \<le> 11 \<longrightarrow> cfg_value u s1 = (case last_number u ss of None \<Rightarrow> cfg_value u s | Some v \<Rightarrow> fits u v))"

lemma read_settings:
  assumes "boot_ok s" "\<forall>x \<in> set ss. setting_ok x"
  shows "\<exists>s1. readConfigFile (concat (map print_setting ss) @ rest) s = readConfigFile rest s1 \<and> config_of ss s s1"
  using assms
proof (induction ss arbitrary: s)
  case Nil
  then show ?case by (intro exI [of _ s]) (simp add: config_of_def)
next
  case (Cons x ss)
  show ?case
  proof (cases x)
    case (Address ip)
    let ?rest = "concat (map print_setting ss) @ rest"
    have ip: "word_ok ip" using Cons.prems(2) Address by simp
    obtain s1 where s1: "readConfigFile (print_setting (Address ip) @ ?rest) s = readConfigFile ?rest s1" "boot_ok s1"
      "pofsc_controller_ip_addr (fst s1) = strncpy 20 ip" "\<forall>u. cfg_value u s1 = cfg_value u s"
      using read_address [OF Cons.prems(1) ip, of ?rest] by blast
    obtain s2 where s2: "readConfigFile ?rest s1 = readConfigFile rest s2" "config_of ss s1 s2"
      using Cons.IH [OF s1(2)] Cons.prems(2) by auto
    have "config_of (x # ss) s s2" using s2(2) s1(3,4) Address by (auto simp: config_of_def split: option.splits)
    then show ?thesis using s1(1) s2(1) Address by (intro exI [of _ s2]) simp
  next
    case (Number t v)
    let ?rest = "concat (map print_setting ss) @ rest"
    obtain s1 where s1: "readConfigFile (print_setting (Number t v) @ ?rest) s = readConfigFile ?rest s1" "config_step t v s s1"
      using read_number [OF Cons.prems(1), of t v ?rest] Cons.prems(2) Number by auto
    obtain s2 where s2: "readConfigFile ?rest s1 = readConfigFile rest s2" "config_of ss s1 s2"
      using Cons.IH [of s1] s1(2) Cons.prems(2) by (auto simp: config_step_def)
    have "config_of (x # ss) s s2" using s2(2) s1(2) Number by (auto simp: config_of_def config_step_def split: option.splits)
    then show ?thesis using s1(1) s2(1) Number by (intro exI [of _ s2]) simp
  qed
qed

text \<open>C34. Reading a configuration file gives what was written. Take a file with one line for each
  setting of a list: the address of the controller, or one of the eleven numbered parameters with a
  decimal number that is an \<^verbatim>\<open>int\<close>. Reading it succeeds; afterwards every parameter that was set has the
  number of its last setting, cut to the width of the parameter, every other has the value it had, and
  the address of the controller is the last one, cut to 20 characters.\<close>

theorem config_file_roundtrip:
  assumes "boot_ok s" "\<forall>x \<in> set ss. setting_ok x"
  shows "\<exists>s1. readConfigFile (concat (map print_setting ss)) s = Some (POF_OK, s1) \<and> config_of ss s s1"
proof -
  have "readConfigFile [] s1 = Some (POF_OK, s1)" for s1 by (subst readConfigFile.simps) (simp add: scan_word_def)
  then show ?thesis using read_settings [OF assms, of "[]"] by auto
qed


section \<open>Options\<close>

text \<open>
  The long form of an option never takes the next argument: the port is not set and the switch exits with the help
  text, although the short form is fine.
\<close>

lemma long_option_separate_argument:
  "pof_set_init_config_by_command env [asc ''--port'', a] s = Some Exit"
proof -
  have "getopt_long CONFIG_CMDS [asc ''--port''] = [(of_char CHR ''p'', None)]" by code_simp
  then have "fst (long_opt CONFIG_CMDS (drop 2 (asc ''--port''))) = of_char CHR ''p''"
    "snd (long_opt CONFIG_CMDS (drop 2 (asc ''--port''))) = None" by (simp_all add: asc_def)
  then show ?thesis
    by (auto simp: pof_set_init_config_by_command_def asc_def start_cmd_def start_cmd_port_def split: prod.splits)
qed

lemma short_option_argument:
  assumes "n < 2 ^ 31" "length (st_conn_port (cf_states c)) = 64"
  shows "\<exists>c'. pof_set_init_config_by_command env [asc ''-p'', fmt_u n] (c, dp, g) = Some (Go (c', dp, g))
    \<and> pofsc_controller_port c' = of_nat n"
proof -
  have "find (\<lambda>(l, _). l = of_char CHR ''p'') CONFIG_CMDS = Some (of_char CHR ''p'', True, asc ''port'')" by code_simp
  then have "getopt_long CONFIG_CMDS [asc ''-p'', fmt_u n] = [(of_char CHR ''p'', Some (fmt_u n))]" by (simp add: asc_def)
  moreover obtain st where "pofsc_set_controller_port (of_nat n) c = Some (c\<lparr>pofsc_controller_port := of_nat n, cf_states := st\<rparr>)"
    using set_port_total [OF assms(2)] by blast
  ultimately show ?thesis
    using atoi_fmt [OF assms(1)] by (simp add: pof_set_init_config_by_command_def start_cmd_def start_cmd_port_def)
qed

section \<open>Examples\<close>

text \<open>The state of a process that has just started.\<close>

definition example_states :: pof_state where
  "example_states = \<lparr>st_devID = replicate 64 0, st_version = replicate 64 0, st_os_bit = replicate 64 0,
     st_byte_order = replicate 64 0, st_debug_on = replicate 64 0, st_debug_color_on = replicate 64 0,
     st_debug_print_echo_on = replicate 64 0, st_error_print_on = replicate 64 0, st_config_file = replicate 64 0,
     st_perform_after_ctrl_disconn = replicate 64 0, st_nomatch = replicate 64 0, st_promisc_on = replicate 64 0,
     st_ctrl_ip = replicate 64 0, st_conn_port = replicate 64 0, st_autoclear_after_disconn = replicate 64 0,
     st_log_file = replicate 64 0, st_verbosity = replicate 64 0, st_port_mode = replicate 64 0, st_slotNum = replicate 64 0,
     st_listenPort = replicate 64 0, st_sd2n = replicate 64 0, st_sd2n_after1015 = replicate 64 0, st_multiSlot = replicate 64 0,
     st_sht_vxlan = replicate 64 0\<rparr>"

definition example_config :: config where
  "example_config = \<lparr>cf_states = example_states,
     cf_log = \<lparr>lg_file = None, lg_colorEnable = False, lg_dbgEnable = False, lg_cmdEnable = True, lg_errEnable = True\<rparr>,
     pofsc_controller_ip_addr = replicate 20 0, pofsc_controller_port = 6633\<rparr>"

definition example_boot :: boot where
  "example_boot = (example_config, example_dp, example_glob)"

lemma example_boot_ok: "boot_ok example_boot"
  by (simp add: boot_ok_def example_boot_def example_config_def example_states_def example_dp_def)

lemma config_file_roundtrip_witness:
  "\<exists>s1. readConfigFile (concat (map print_setting [Number 8 12, Number 1 70000, Number 8 30, Address [49, 46, 50]])) example_boot
      = Some (POF_OK, s1)
    \<and> cfg_value 8 s1 = 30 \<and> cfg_value 1 s1 = 4464 \<and> cfg_value 10 s1 = 4
    \<and> pofsc_controller_ip_addr (fst s1) = [49, 46, 50] @ replicate 17 0"
proof -
  let ?ss = "[Number 8 12, Number 1 70000, Number 8 30, Address [49, 46, 50]]"
  have "\<forall>x \<in> set ?ss. setting_ok x" by (simp add: word_ok_def isspace_def)
  then obtain s1 where "readConfigFile (concat (map print_setting ?ss)) example_boot = Some (POF_OK, s1)" "config_of ?ss example_boot s1"
    using config_file_roundtrip [OF example_boot_ok] by blast
  moreover have "cfg_value 10 example_boot = 4" by (simp add: cfg_value_def example_boot_def example_dp_def)
  ultimately show ?thesis
    by (intro exI [of _ s1]) (simp add: config_of_def fits_def strncpy_def)
qed


end
