(* ===== verification/Pof_Slot.thy ===== *)
theory Pof_Slot
  imports Pof_Port_Table Pof_Local_Resource Pof_Flow_Mod
begin

text \<open>
  The resource of a slot as a whole. \<open>slot_ok\<close> says that its five tables are well formed; it is
  established by the initialisation of the slot and kept by every command of the controller that
  changes the resource, none of which runs into undefined behaviour.
\<close>

section \<open>What the commands change of the process state\<close>

text \<open>The allocator only moves forward, and the key lengths of the table types stay.\<close>

definition grows :: "glob \<Rightarrow> glob \<Rightarrow> bool" where
  "grows g g' \<longleftrightarrow> malloc_n g \<le> malloc_n g' \<and> poflr_key_len_each_type g' = poflr_key_len_each_type g"

lemma grows_refl [simp]: "grows g g"
  by (simp add: grows_def)

lemma grows_trans: "grows g g1 \<Longrightarrow> grows g1 g2 \<Longrightarrow> grows g g2"
  by (simp add: grows_def)

lemma grows_queue: "same_but_queue g g' \<Longrightarrow> grows g g'"
  by (simp add: same_but_queue_def grows_def)

lemma grows_malloc [simp]: "grows g (g\<lparr>malloc_n := k\<rparr>) \<longleftrightarrow> malloc_n g \<le> k"
  by (simp add: grows_def)

lemma grows_set_error [simp]: "grows g (pofec_set_error t c g') = grows g g'" "grows (pofec_set_error t c g) g' = grows g g'"
  by (simp_all add: grows_def pofec_set_error_def)

lemma err_upward_grows: "chan_ok g \<Longrightarrow> err_upward t c g = Some (r, g') \<Longrightarrow> grows g g'"
  using err_upward_ok [of g t c] grows_queue by force

lemma err_upward_new_grows:
  assumes "chan_ok g" "err_upward_new t c g = Some (r, g')"
  shows "grows g g'"
proof -
  let ?g = "(pofec_set_error t c g)\<lparr>g_upward_xid := g_upward_xid g + 1\<rparr>"
  have "chan_ok ?g" using assms(1) by (simp add: chan_ok_def pofec_set_error_def)
  then obtain g1 where "pofec_reply_error t c (g_upward_xid g) ?g = Some (POF_OK, g1)" "same_but_queue ?g g1"
    using reply_error_ok by blast
  then show ?thesis using assms(2)
    by (auto simp: err_upward_new_def grows_def same_but_queue_def pofec_set_error_def)
qed

section \<open>The entries of a table\<close>

text \<open>
  The entries of a table: the map is well formed and counted, key and mask of each entry have
  their full size, and an LPM table has a tree. \<open>b\<close> bounds the addresses handed out so far.
\<close>

definition entries_ok :: "nat \<Rightarrow> tableInfo \<Rightarrow> bool" where
  "entries_ok b t \<longleftrightarrow> (case ti_entryMap t of None \<Rightarrow> False | Some m \<Rightarrow>
       hmap_ok m \<and> below b (hmap_ptrs m) \<and> ti_entryNum t = of_nat (length (hmap_nodes m))
       \<and> (\<forall>n \<in> set (hmap_nodes m). length (ei_value (hn_obj n)) = 128 \<and> length (ei_mask (hn_obj n)) = 128))
     \<and> unat (ti_keyLen t) \<le> 1024
     \<and> (ti_type t = POF_LPM_TABLE \<longrightarrow> (case ti_tree t of None \<Rightarrow> False | Some tr \<Rightarrow> tr_root tr \<noteq> NULL))"

lemma entries_okE:
  assumes "entries_ok b t"
  obtains m where "ti_entryMap t = Some m" "hmap_ok m" "below b (hmap_ptrs m)" "ti_entryNum t = of_nat (length (hmap_nodes m))"
    "\<forall>n \<in> set (hmap_nodes m). length (ei_value (hn_obj n)) = 128 \<and> length (ei_mask (hn_obj n)) = 128" "key_bytes t \<le> 128"
proof -
  have "byte_ceil (unat (ti_keyLen t)) \<le> 128" using assms by (auto simp: entries_ok_def byte_ceil_def)
  then show ?thesis using assms that by (auto simp: entries_ok_def split: option.splits)
qed

lemma entries_ok_mono: "entries_ok b t \<Longrightarrow> b \<le> b' \<Longrightarrow> entries_ok b' t"
  by (auto simp: entries_ok_def below_def split: option.splits)

text \<open>The count and the address that \<open>lpmInsert\<close> and \<open>lpmDelete\<close> compute from an entry of full size.\<close>

lemma entry_bits:
  fixes e :: entryInfo
  assumes "length (ei_value e) = 128" "length (ei_mask e) = 128" "key_bytes t \<le> 128"
  obtains w where "get1sCountInBytes (ei_mask e) (key_bytes t) = Some w" "unat w + 7 < 2 ^ 32"
    "byte_ceil (unat w) \<le> length (take (key_bytes t) (ei_value e))"
    "mem_read (ei_value e) (key_bytes t) = Some (take (key_bytes t) (ei_value e))"
  using plen_bound [of t e] assms by (auto simp: mem_read_def)

lemma entryDelete_ok:
  assumes ok: "entries_ok b t" and m: "ti_entryMap t = Some m" "e \<in> set (hmap_nodes m)"
  shows "\<exists>t' m'. entryDelete e t = Some t' \<and> entries_ok b t' \<and> ti_entryMap t' = Some m' \<and> hmap_ok m'
    \<and> hmap_nodes m' = filter (\<lambda>n. hn_ptr n \<noteq> hn_ptr e) (hmap_nodes m) \<and> ti_id t' = ti_id t \<and> ti_type t' = ti_type t"
proof (rule entries_okE [OF ok])
  fix m0 assume m0: "ti_entryMap t = Some m0" "hmap_ok m0" "below b (hmap_ptrs m0)" "ti_entryNum t = of_nat (length (hmap_nodes m0))"
    "\<forall>n \<in> set (hmap_nodes m0). length (ei_value (hn_obj n)) = 128 \<and> length (ei_mask (hn_obj n)) = 128" "key_bytes t \<le> 128"
  have m0m: "m0 = m" using m0(1) m(1) by simp
  obtain m' where m': "hmap_nodeDelete m e = Some m'" "hmap_ok m'"
    "hmap_nodes m' = filter (\<lambda>n. hn_ptr n \<noteq> hn_ptr e) (hmap_nodes m)"
    using hmap_delete_ok [of m e] m0(2) m(2) m0m by blast
  let ?t = "t\<lparr>ti_entryMap := Some m', ti_entryNum := ti_entryNum t - 1\<rparr>"
  obtain xs ys where xy: "hmap_nodes m = xs @ e # ys" using m(2) by (auto simp: in_set_conv_decomp)
  have "distinct (map hn_ptr (hmap_nodes m))" using m0(2) m0m by (simp add: hmap_ok_def)
  then have "hmap_nodes m' = xs @ ys" using m'(3) xy by simp
  then have "ti_entryNum t - 1 = of_nat (length (hmap_nodes m'))" using m0(4) m0m xy by simp
  moreover have "below b (hmap_ptrs m')" using m0(3) m0m m'(3) by (auto simp: below_def hmap_ptrs_def)
  ultimately have base: "entries_ok b ?t" using ok m' m0 m0m by (simp add: entries_ok_def)
  show ?thesis
  proof (cases "ti_type t = POF_LPM_TABLE")
    case False
    then show ?thesis using m(1) m' base by (simp add: entryDelete_def)
  next
    case True
    obtain tr where tr: "ti_tree t = Some tr" "tr_root tr \<noteq> NULL" using ok True by (auto simp: entries_ok_def split: option.splits)
    obtain w where w: "get1sCountInBytes (ei_mask (hn_obj e)) (key_bytes t) = Some w" "unat w + 7 < 2 ^ 32"
      "byte_ceil (unat w) \<le> length (take (key_bytes t) (ei_value (hn_obj e)))"
      "mem_read (ei_value (hn_obj e)) (key_bytes t) = Some (take (key_bytes t) (ei_value (hn_obj e)))"
      by (rule entry_bits [of "hn_obj e" t]) (use m0(5,6) m0m m(2) in auto)
    obtain r root where r: "nodeDelete True (tr_root tr) (take (key_bytes t) (ei_value (hn_obj e))) (unat w) = Some (r, root)" "root \<noteq> NULL"
      using nodeDelete_map [OF tr(2) w(2,3) refl, of True] by blast
    obtain n where "entryDelete e t = Some (?t\<lparr>ti_tree := Some (tr\<lparr>tr_root := root, tr_count := n\<rparr>)\<rparr>)"
      using m(1) m'(1) w tr r(1) True by (simp add: entryDelete_def lpmDelete_def tree_nodeDelete_def Let_def)
    then show ?thesis using base m' r(2) True by (auto simp: entries_ok_def)
  qed
qed

section \<open>Adding an entry\<close>

text \<open>
  An entry message of full size whose match fields can be written into value and mask of 128
  bytes: fields that \<^verbatim>\<open>pofbf_cover_bit\<close> cannot write make the code run out of its buffers.
\<close>

definition flow_fits :: "bytes \<Rightarrow> bool" where
  "flow_fits flow \<longleftrightarrow> 2184 \<le> length flow \<and> assemble_loop (take 320 (drop 40 flow)) (unat (flow ! 1)) 0
     (replicate 128 0) (Some (replicate 128 0)) 0 \<noteq> None"

lemma assemble_no_mask:
  "assemble_loop m k i v (Some mk) off = Some (v', mk', off') \<Longrightarrow> assemble_loop m k i v None off = Some (v', None, off')"
proof (induction k arbitrary: i v mk off)
  case (Suc k)
  then obtain len x v1 w mk1 where h: "match_x_len m i = Some len" "match_x_value m i = Some x" "pofbf_cover_bit v x off len = Some v1"
    "match_x_mask m i = Some w" "pofbf_cover_bit mk w off len = Some mk1"
    "assemble_loop m k (i + 1) v1 (Some mk1) (off + len) = Some (v', mk', off')"
    by (auto simp: bind_eq_Some_conv)
  then show ?case using Suc.IH [OF h(6)] by simp
qed simp

lemma assemble_value_ok:
  assumes "flow_fits flow" "chan_ok g" "mk = None \<or> mk = Some (replicate 128 0)"
  shows "\<exists>r v mk' g'. valueMaskAssemble (take 320 (drop 40 flow)) (flow ! 1) (replicate 128 0) mk kl g = Some (r, v, mk', g')
    \<and> chan_ok g' \<and> grows g g' \<and> length v = 128"
proof -
  obtain v mk1 off where a: "assemble_loop (take 320 (drop 40 flow)) (unat (flow ! 1)) 0 (replicate 128 0) (Some (replicate 128 0)) 0 = Some (v, mk1, off)"
    using assms(1) by (auto simp: flow_fits_def)
  have "\<exists>mk'. assemble_loop (take 320 (drop 40 flow)) (unat (flow ! 1)) 0 (replicate 128 0) mk 0 = Some (v, mk', off)"
    using a assemble_no_mask [OF a] assms(3) by auto
  then obtain mk' where b: "assemble_loop (take 320 (drop 40 flow)) (unat (flow ! 1)) 0 (replicate 128 0) mk 0 = Some (v, mk', off)" ..
  have len: "length v = 128" using assemble_loop_length [OF a] by simp
  show ?thesis
  proof (cases "off = kl")
    case True
    then show ?thesis using b assms(2) len by (simp add: valueMaskAssemble_def)
  next
    case False
    obtain r g' where e: "err_upward_new POFET_TABLE_MOD_FAILED (TableE POFTMFC_BAD_KEY_LEN) g = Some (r, g')" "chan_ok g'"
      using err_upward_new_ok [OF assms(2)] by blast
    then show ?thesis using b False len err_upward_new_grows [OF assms(2) e(1)] by (simp add: valueMaskAssemble_def)
  qed
qed

lemma entryFill_ok:
  assumes "flow_fits flow" "chan_ok g" "key_bytes t \<le> 128"
  shows "\<exists>ok e h g'. entryFill flow t g = Some (ok, e, h, g') \<and> chan_ok g' \<and> grows g g'"
proof -
  have len: "2184 \<le> length flow" using assms(1) by (simp add: flow_fits_def)
  obtain r1 v1 mk1 g1 where a: "valueMaskAssemble (take 320 (drop 40 flow)) (flow ! 1) (replicate 128 0) (Some (replicate 128 0)) (ti_keyLen t) g = Some (r1, v1, mk1, g1)"
    "chan_ok g1" "grows g g1" using assemble_value_ok [OF assms(1,2), of "Some (replicate 128 0)"] by blast
  obtain r2 v2 mk2 g2 where b: "valueMaskAssemble (take 320 (drop 40 flow)) (flow ! 1) (replicate 128 0) None (ti_keyLen t) g = Some (r2, v2, mk2, g2)"
    "chan_ok g2" "grows g g2" "length v2 = 128" using assemble_value_ok [OF assms(1,2), of None] by blast
  have z: "ei_value zero_entry = replicate 128 0" "ei_mask zero_entry = replicate 128 0" by (simp_all add: zero_entry_def)
  have m: "get32 flow 32 \<noteq> None" "get32 flow 4 \<noteq> None" "rd flow 2 \<noteq> None" "get16 flow 30 \<noteq> None"
    using len by (simp_all add: get32_def get16_def get_le_def rd_def mem_read_def)
  have n: "rd flow 1 = Some (flow ! 1)" "mem_read (drop 360 flow) 1824 = Some (take 1824 (drop 360 flow))"
    "mem_read (drop 40 flow) 320 = Some (take 320 (drop 40 flow))" using len by (simp_all add: rd_def mem_read_def)
  have h: "entryHashByValue v2 (ti_keyLen t) \<noteq> None" using b(4) assms(3) by (simp add: entryHashByValue_def mem_read_def)
  show ?thesis unfolding entryFill_def using a b z m n h assms(2) by (auto simp: Let_def)
qed

lemma entryInsert_ok:
  assumes ok: "entries_ok (malloc_n g) t" and flow: "flow_fits flow" and ch: "chan_ok g"
  shows "\<exists>r t' g'. entryInsert flow t g = Some (r, t', g') \<and> entries_ok (malloc_n g') t' \<and> chan_ok g' \<and> grows g g'
    \<and> ti_id t' = ti_id t"
proof (rule entries_okE [OF ok])
  fix m assume m: "ti_entryMap t = Some m" "hmap_ok m" "below (malloc_n g) (hmap_ptrs m)" "ti_entryNum t = of_nat (length (hmap_nodes m))"
    "\<forall>n \<in> set (hmap_nodes m). length (ei_value (hn_obj n)) = 128 \<and> length (ei_mask (hn_obj n)) = 128" "key_bytes t \<le> 128"
  define p where "p = malloc_n g + 1"
  let ?g1 = "g\<lparr>malloc_n := p\<rparr>"
  have p: "POF_MALLOC_SAFE g = (Some p, ?g1)" "chan_ok ?g1"
    using ch by (auto simp: POF_MALLOC_SAFE_def malloc_def Let_def chan_ok_def p_def)
  obtain okf e h g2 where f: "entryFill flow t ?g1 = Some (okf, e, h, g2)" "chan_ok g2" "grows ?g1 g2"
    using entryFill_ok [OF flow p(2) m(6)] by blast
  have gr: "grows g g2" using f(3) by (simp add: grows_def p_def)
  show ?thesis
  proof (cases okf)
    case False
    have "entries_ok (malloc_n g2) t" using ok gr entries_ok_mono by (auto simp: grows_def)
    then show ?thesis using p(1) f gr False by (simp add: entryInsert_def pofec_set_error_def chan_ok_def grows_def)
  next
    case True
    have e: "g2 = ?g1" "length (ei_value e) = 128" "length (ei_mask e) = 128" using entryFill_True f(1) True by auto
    let ?n = "\<lparr>hn_ptr = p, hn_hash = h, hn_obj = e\<rparr>"
    have np: "p \<notin> hmap_ptrs m" using m(3) by (auto simp: below_def p_def)
    obtain m' where m': "hmap_nodeInsert m ?n = Some m'" "hmap_ok m'" using hmap_insert_ok [OF m(2), of ?n] np by auto
    obtain xs ys where xy: "hmap_nodes m = xs @ ys" "hmap_nodes m' = xs @ ?n # ys" using nodes_insert [OF m(2) m'(1)] by blast
    let ?t = "t\<lparr>ti_entryMap := Some m', ti_entryNum := ti_entryNum t + 1\<rparr>"
    have "hmap_ptrs m' = insert p (hmap_ptrs m)" using xy by (auto simp: hmap_ptrs_def)
    then have "below p (hmap_ptrs m')" using below_mono [OF m(3), of p] by (simp add: below_def p_def)
    then have base: "entries_ok p ?t" using ok m m' xy e by (simp add: entries_ok_def)
    show ?thesis
    proof (cases "ti_type t = POF_LPM_TABLE")
      case False
      then show ?thesis using p f True e m m' base by (simp add: entryInsert_def p_def)
    next
      case lpm: True
      obtain tr where tr: "ti_tree t = Some tr" "tr_root tr \<noteq> NULL" using ok lpm by (auto simp: entries_ok_def split: option.splits)
      obtain w where w: "get1sCountInBytes (ei_mask e) (key_bytes t) = Some w" "unat w + 7 < 2 ^ 32"
        "byte_ceil (unat w) \<le> length (take (key_bytes t) (ei_value e))"
        "mem_read (ei_value e) (key_bytes t) = Some (take (key_bytes t) (ei_value e))"
        by (rule entry_bits [OF e(2,3) m(6)])
      obtain r root g3 where r: "nodeInsert (tr_root tr) p (take (key_bytes t) (ei_value e)) (unat w) ?g1 = Some (r, root, g3)" "root \<noteq> NULL"
        using nodeInsert_map [OF tr(2) w(2,3) refl, of p ?g1] by blast
      obtain k where k: "p \<le> k" "g3 = g\<lparr>malloc_n := k\<rparr>" using nodeInsert_alloc [OF r(1) chan_ok_alloc [OF p(2)]] by auto
      obtain n where "tree_nodeInsert tr p (take (key_bytes t) (ei_value e)) w ?g1 = Some (r, tr\<lparr>tr_root := root, tr_count := n\<rparr>, g3)"
        using r(1) by (simp add: tree_nodeInsert_def)
      then have "lpmInsert p e ?t ?g1 = Some (r, ?t\<lparr>ti_tree := Some (tr\<lparr>tr_root := root, tr_count := n\<rparr>)\<rparr>, g3)"
        using w(1,4) tr(1) by (simp add: lpmInsert_def)
      then have "entryInsert flow t g = Some (POF_OK, ?t\<lparr>ti_tree := Some (tr\<lparr>tr_root := root, tr_count := n\<rparr>)\<rparr>, g3)"
        using p(1) f(1) True e(1) m(1) m'(1) lpm by (simp add: entryInsert_def)
      moreover have "entries_ok k (?t\<lparr>ti_tree := Some (tr\<lparr>tr_root := root, tr_count := n\<rparr>)\<rparr>)"
        using entries_ok_mono [OF base k(1)] r(2) by (simp add: entries_ok_def)
      moreover have "chan_ok g3" using chan_ok_later [OF ch] k by (simp add: p_def)
      ultimately show ?thesis using k by (simp add: p_def)
    qed
  qed
qed

section \<open>The invariant of a slot\<close>

definition slot_ok :: "pof_local_resource \<Rightarrow> glob \<Rightarrow> bool" where
  "slot_ok lr g \<longleftrightarrow> port_ok lr \<and> below (malloc_n g) (res_ptrs (portPofIndexMap lr))
     \<and> table_ok lr \<and> tables_below lr g \<and> (\<forall>ID t. tables lr ID = Some t \<longrightarrow> entries_ok (malloc_n g) t)
     \<and> gc_ok lr g \<and> (\<forall>i gr. groups lr i = Some gr \<longrightarrow> length (gi_action gr) = 192)
     \<and> meter_ok lr \<and> meters_below lr g
     \<and> length (tableNumMaxEachType lr) = 4 \<and> length (poflr_key_len_each_type g) = 4
     \<and> (\<forall>k \<in> set (poflr_key_len_each_type g). unat k \<le> 1024)"

lemma slot_ok_grows: "slot_ok lr g \<Longrightarrow> grows g g' \<Longrightarrow> slot_ok lr g'"
  by (auto simp: slot_ok_def gc_ok_def grows_def intro: below_mono entries_ok_mono)

text \<open>A change of one table leaves the rest of the invariant alone.\<close>

lemma port_ok_cong:
  assumes "portPofIndexMap l' = portPofIndexMap l" "portNameMap l' = portNameMap l" "portNum l' = portNum l"
  shows "port_ok l' = port_ok l"
  unfolding port_ok_def assms ..

lemma tables_cong: "tableIdMap l' = tableIdMap l \<Longrightarrow> tables l' = tables l"
  by (simp add: tables_def fun_eq_iff)

lemma but_meters_sel:
  assumes "but_meters l' = but_meters l"
  shows "groupMap l' = groupMap l" "groupNum l' = groupNum l" "counterMap l' = counterMap l" "counterNum l' = counterNum l"
    "tableIdMap l' = tableIdMap l" "tableNum l' = tableNum l" "portPofIndexMap l' = portPofIndexMap l"
    "portNameMap l' = portNameMap l" "portNum l' = portNum l" "tableNumMaxEachType l' = tableNumMaxEachType l"
  using assms by (cases l, cases l', simp add: but_meters_def)+

lemma but_groups_counters_sel:
  assumes "but_counters (but_groups l') = but_counters (but_groups l)"
  shows "meterMap l' = meterMap l" "meterNum l' = meterNum l" "tableIdMap l' = tableIdMap l" "tableNum l' = tableNum l"
    "portPofIndexMap l' = portPofIndexMap l" "portNameMap l' = portNameMap l" "portNum l' = portNum l"
    "tableNumMaxEachType l' = tableNumMaxEachType l"
  using assms by (cases l, cases l', simp add: but_counters_def but_groups_def)+

lemma but_tables_sel:
  assumes "but_tables l' = but_tables l"
  shows "groupMap l' = groupMap l" "groupNum l' = groupNum l" "counterMap l' = counterMap l" "counterNum l' = counterNum l"
    "meterMap l' = meterMap l" "meterNum l' = meterNum l" "portPofIndexMap l' = portPofIndexMap l"
    "portNameMap l' = portNameMap l" "portNum l' = portNum l" "tableNumMaxEachType l' = tableNumMaxEachType l"
  using assms by (cases l, cases l', simp add: but_tables_def)+

lemma but_ports_sel:
  assumes "but_ports l' = but_ports l"
  shows "groupMap l' = groupMap l" "groupNum l' = groupNum l" "counterMap l' = counterMap l" "counterNum l' = counterNum l"
    "meterMap l' = meterMap l" "meterNum l' = meterNum l" "tableIdMap l' = tableIdMap l" "tableNum l' = tableNum l"
    "tableNumMaxEachType l' = tableNumMaxEachType l"
  using assms by (cases l, cases l', simp add: but_ports_def)+

lemma slot_ok_meters:
  assumes "slot_ok lr g" "but_meters lr' = but_meters lr" "grows g g'" "meter_ok lr'" "meters_below lr' g'"
  shows "slot_ok lr' g'"
  using slot_ok_grows [OF assms(1,3)] assms(4,5) but_meters_sel [OF assms(2)] port_ok_cong [of lr' lr] tables_cong [of lr' lr]
  by (simp add: gc_ok_def slot_ok_def)

lemma slot_ok_groups:
  assumes "slot_ok lr g" "but_counters (but_groups lr') = but_counters (but_groups lr)" "grows g g'" "gc_ok lr' g'"
    "\<forall>i gr. groups lr' i = Some gr \<longrightarrow> length (gi_action gr) = 192"
  shows "slot_ok lr' g'"
  using slot_ok_grows [OF assms(1,3)] assms(4,5) but_groups_counters_sel [OF assms(2)] port_ok_cong [of lr' lr] tables_cong [of lr' lr]
  by (simp add: gc_ok_def slot_ok_def)

lemma slot_ok_counters:
  assumes "slot_ok lr g" "but_counters lr' = but_counters lr" "grows g g'" "counter_ok lr'" "counters_below lr' g'"
  shows "slot_ok lr' g'"
proof -
  have "but_counters (but_groups lr') = but_counters (but_groups lr)"
    using assms(2) by (cases lr, cases lr') (simp add: but_counters_def but_groups_def)
  moreover have "gc_ok lr' g'" using slot_ok_grows [OF assms(1,3)] assms(4,5) but_counters_sel(1,2) [OF assms(2)]
    by (simp add: gc_ok_def slot_ok_def)
  ultimately show ?thesis using slot_ok_groups [OF assms(1) _ assms(3)] assms(1) but_counters_sel(1) [OF assms(2)]
    by (simp add: slot_ok_def)
qed

lemma slot_ok_tables:
  assumes "slot_ok lr g" "but_tables lr' = but_tables lr" "grows g g'" "table_ok lr'" "tables_below lr' g'"
    "\<forall>ID t. tables lr' ID = Some t \<longrightarrow> entries_ok (malloc_n g') t"
  shows "slot_ok lr' g'"
  using slot_ok_grows [OF assms(1,3)] assms(4-6) but_tables_sel [OF assms(2)] port_ok_cong [of lr' lr]
  by (simp add: gc_ok_def slot_ok_def)

lemma slot_ok_ports:
  assumes "slot_ok lr g" "but_ports lr' = but_ports lr" "grows g g'" "port_ok lr'" "below (malloc_n g') (res_ptrs (portPofIndexMap lr'))"
  shows "slot_ok lr' g'"
  using slot_ok_grows [OF assms(1,3)] assms(4,5) but_ports_sel [OF assms(2)] tables_cong [of lr' lr]
  by (simp add: gc_ok_def slot_ok_def)

section \<open>The commands\<close>

text \<open>A command runs safely when it returns and keeps the invariant and the channel.\<close>

definition keeps_slot :: "glob \<Rightarrow> (ret \<times> pof_local_resource \<times> glob) option \<Rightarrow> bool" where
  "keeps_slot g0 x = (case x of None \<Rightarrow> False | Some (r, lr, g) \<Rightarrow> slot_ok lr g \<and> chan_ok g \<and> grows g0 g)"

lemma keeps_slotI: "x = Some (r, lr, g) \<Longrightarrow> slot_ok lr g \<Longrightarrow> chan_ok g \<Longrightarrow> grows g0 g \<Longrightarrow> keeps_slot g0 x"
  by (simp add: keeps_slot_def)

lemma keeps_trans: "keeps_slot g1 x \<Longrightarrow> grows g g1 \<Longrightarrow> keeps_slot g x"
  by (auto simp: keeps_slot_def split: option.splits intro: grows_trans)

lemma keeps_err:
  assumes "slot_ok lr g" "chan_ok g"
  shows "keeps_slot g (with_lr lr (err_upward t c g))"
proof -
  obtain g' where g': "err_upward t c g = Some (ERR c, g')" "chan_ok g'" using err_upward_ok [OF assms(2)] by blast
  then show ?thesis using slot_ok_grows [OF assms(1)] err_upward_grows [OF assms(2) g'(1)] by (simp add: with_lr_def keeps_slot_def)
qed

lemma malloc_chan: "chan_ok g \<Longrightarrow> POF_MALLOC_SAFE g = (Some (malloc_n g + 1), g\<lparr>malloc_n := malloc_n g + 1\<rparr>)"
  by (auto simp: POF_MALLOC_SAFE_def malloc_def Let_def chan_ok_def)

lemma meter_op_grows: "meter_op cmd i rate lr g = Some (r, lr', g') \<Longrightarrow> chan_ok g \<Longrightarrow> grows g g'"
  by (cases cmd) (auto simp: meter_op_defs map_meterCreate_def with_lr_Some bind_eq_Some_conv malloc_chan
      split: if_splits option.splits dest: err_upward_grows)

lemma keeps_meter:
  assumes "slot_ok lr g" "chan_ok g"
  shows "keeps_slot g (meter_op cmd i rate lr g)"
proof -
  have m: "meter_ok lr" "meters_below lr g" using assms(1) by (auto simp: slot_ok_def)
  obtain r lr' g' where l: "meter_op cmd i rate lr g = Some (r, lr', g')" "meter_ok lr'" "meters_below lr' g'" "chan_ok g'"
    "but_meters lr' = but_meters lr" using meter_op_ok [OF m assms(2)] by blast
  show ?thesis
    using slot_ok_meters [OF assms(1) l(5) meter_op_grows [OF l(1) assms(2)] l(2,3)] keeps_slotI [OF l(1)] l(4) meter_op_grows [OF l(1) assms(2)] by blast
qed

lemma slot_counters: "slot_ok lr g \<Longrightarrow> counter_ok lr \<and> counters_below lr g"
  by (simp add: slot_ok_def gc_ok_def)

lemma keeps_counter:
  assumes "slot_ok lr g" "chan_ok g"
  shows "keeps_slot g (poflr_counter_init i lr g)" "keeps_slot g (poflr_counter_delete i lr g)" "keeps_slot g (poflr_counter_clear i lr g)"
proof -
  note c = conjunct1 [OF slot_counters [OF assms(1)]] conjunct2 [OF slot_counters [OF assms(1)]] assms(2)
  have k: "keeps_slot g x" if "\<exists>r lr' g'. x = Some (r, lr', g') \<and> counter_ok lr' \<and> counters_below lr' g'
      \<and> chan_ok g' \<and> same_but_queue g g' \<and> but_counters lr' = but_counters lr" for x
    using that slot_ok_counters [OF assms(1)] grows_queue by (auto simp: keeps_slot_def)
  show "keeps_slot g (poflr_counter_init i lr g)" by (rule k) (use counter_init_ok [OF c, of i] in blast)
  show "keeps_slot g (poflr_counter_delete i lr g)" by (rule k) (use counter_delete_ok [OF c, of i] in blast)
  show "keeps_slot g (poflr_counter_clear i lr g)" by (rule k) (use counter_clear_ok [OF c, of i] in blast)
qed

text \<open>A group message of full size with at most the four actions a group can hold.\<close>

definition group_fits :: "bytes \<Rightarrow> bool" where
  "group_fits msg \<longleftrightarrow> 208 \<le> length msg \<and> msg ! 2 \<le> 4"

lemma groupFill_ok:
  assumes "group_fits msg" "length (gi_action old) = 192"
  shows "\<exists>gr. groupFill msg old = Some gr \<and> length (gi_action gr) = 192"
proof -
  have n: "unat (msg ! 2) * 48 \<le> 192" using assms(1) by (simp add: group_fits_def word_le_nat_alt)
  have len: "208 \<le> length msg" using assms(1) by (simp add: group_fits_def)
  have g: "get32 msg 4 \<noteq> None" "get32 msg 8 \<noteq> None" "rd msg 1 \<noteq> None" "rd msg 2 = Some (msg ! 2)"
    using len by (simp_all add: get32_def get_le_def rd_def)
  show ?thesis using g n len assms(2) by (auto simp: groupFill_def mem_read_def mem_write_def)
qed

lemma group_grows:
  assumes "slot_ok lr g" "chan_ok g"
  shows "poflr_add_group_entry msg lr g = Some (r, lr', g') \<Longrightarrow> grows g g'"
    "poflr_modify_group_entry msg lr g = Some (r, lr', g') \<Longrightarrow> grows g g'"
    "poflr_delete_group_entry msg lr g = Some (r, lr', g') \<Longrightarrow> grows g g'"
proof -
  note c = conjunct1 [OF slot_counters [OF assms(1)]] conjunct2 [OF slot_counters [OF assms(1)]] assms(2)
  have i: "poflr_counter_init i lr g = Some (r, lr1, g1) \<Longrightarrow> chan_ok g1 \<and> grows g g1" for i r lr1 g1
    using counter_init_ok [OF c, of i] grows_queue by auto
  have d: "poflr_counter_delete i lr g = Some (r, lr1, g1) \<Longrightarrow> grows g g1" for i r lr1 g1
    using counter_delete_ok [OF c, of i] grows_queue by auto
  note e = err_upward_grows [OF assms(2)]
  show "poflr_add_group_entry msg lr g = Some (r, lr', g') \<Longrightarrow> grows g g'"
    by (auto simp: poflr_add_group_entry_def map_groupCreate_def with_lr_Some bind_eq_Some_conv malloc_chan
      split: if_splits option.splits dest!: i e) (auto simp: grows_def)
  show "poflr_modify_group_entry msg lr g = Some (r, lr', g') \<Longrightarrow> grows g g'"
    by (auto simp: poflr_modify_group_entry_def with_lr_Some bind_eq_Some_conv split: if_splits option.splits dest: e)
  show "poflr_delete_group_entry msg lr g = Some (r, lr', g') \<Longrightarrow> grows g g'"
    by (auto simp: poflr_delete_group_entry_def with_lr_Some bind_eq_Some_conv split: if_splits option.splits dest: d e)
qed

lemma keeps_group:
  assumes "slot_ok lr g" "chan_ok g" "group_fits msg"
  shows "keeps_slot g (poflr_add_group_entry msg lr g)" "keeps_slot g (poflr_modify_group_entry msg lr g)"
    "keeps_slot g (poflr_delete_group_entry msg lr g)"
proof -
  have gc: "gc_ok lr g" and sz: "\<forall>i gr. groups lr i = Some gr \<longrightarrow> length (gi_action gr) = 192" using assms(1) by (auto simp: slot_ok_def)
  obtain gr where gr: "groupFill msg zero_group = Some gr" "length (gi_action gr) = 192"
    using groupFill_ok [OF assms(3), of zero_group] by (auto simp: zero_group_def)
  note ids = groupFill_ids [OF gr(1)]
  note grow = group_grows [OF assms(1,2)] and keep = slot_ok_groups [OF assms(1)]
  obtain r lr' g' where a: "poflr_add_group_entry msg lr g = Some (r, lr', g')" "gc_ok lr' g'" "chan_ok g'"
    "(r, groups lr', counters lr') = add_group_spec (groupNumMax lr) (counterNumMax lr) gr (groups lr) (counters lr)"
    "but_counters (but_groups lr') = but_counters (but_groups lr)" using add_group_ok [OF gc assms(2) gr(1)] by blast
  have "\<forall>i g. groups lr' i = Some g \<longrightarrow> length (gi_action g) = 192"
    using a(4) sz gr(2) by (auto simp: add_group_spec_def split: if_splits prod.splits)
  then show "keeps_slot g (poflr_add_group_entry msg lr g)" using keeps_slotI [OF a(1)] a(3) keep [OF a(5) grow(1) [OF a(1)] a(2)] grow(1) [OF a(1)] by blast
  let ?f = "\<lambda>old. the (groupFill msg old)"
  have f: "groups lr (gi_id gr) = Some old \<Longrightarrow> groupFill msg old = Some (?f old)" for old
    using groupFill_ok [OF assms(3)] sz by fastforce
  obtain r2 lr2 g2 where m: "poflr_modify_group_entry msg lr g = Some (r2, lr2, g2)" "gc_ok lr2 g2" "chan_ok g2"
    "(r2, groups lr2) = modify_group_spec (groupNumMax lr) gr ?f (groups lr)" "but_groups lr2 = but_groups lr"
    using modify_group_ok [OF gc assms(2), of msg gr ?f] ids f by blast
  have "length (gi_action (?f old)) = 192" if "groups lr (gi_id gr) = Some old" for old
    using groupFill_ok [OF assms(3), of old] that sz by fastforce
  then have "\<forall>i g. groups lr2 i = Some g \<longrightarrow> length (gi_action g) = 192"
    using m(4) sz by (auto simp: modify_group_spec_def split: if_splits option.splits)
  then show "keeps_slot g (poflr_modify_group_entry msg lr g)"
    using keeps_slotI [OF m(1)] m keep [of lr2 g2] grow(2) [OF m(1)] by simp
  obtain r3 lr3 g3 where d: "poflr_delete_group_entry msg lr g = Some (r3, lr3, g3)" "gc_ok lr3 g3" "chan_ok g3"
    "(r3, groups lr3, counters lr3) = delete_group_spec (groupNumMax lr) (counterNumMax lr) (gi_id gr) (gi_counter_id gr) (groups lr) (counters lr)"
    "but_counters (but_groups lr3) = but_counters (but_groups lr)" using delete_group_ok [OF gc assms(2)] ids by blast
  have "\<forall>i g. groups lr3 i = Some g \<longrightarrow> length (gi_action g) = 192"
    using d(4) sz by (auto simp: delete_group_spec_def split: if_splits prod.splits)
  then show "keeps_slot g (poflr_delete_group_entry msg lr g)" using keeps_slotI [OF d(1)] d(3) keep [OF d(5) grow(3) [OF d(1)] d(2)] grow(3) [OF d(1)] by blast
qed

subsection \<open>Flow tables and entries\<close>

lemma new_table_entries: "new_table t \<Longrightarrow> unat (ti_keyLen t) \<le> 1024 \<Longrightarrow> entries_ok b t"
  by (auto simp: new_table_def entries_ok_def below_def hmap_ptrs_def elim!: lpm_okE)

lemma entries_table_wf: "entries_ok b t \<Longrightarrow> table_wf t"
  by (auto simp: entries_ok_def table_wf_def split: option.splits)

lemma keeps_create_table:
  assumes "slot_ok lr g" "chan_ok g" "mfn \<le> 8" "unat mfn * 8 \<le> length ms"
  shows "keeps_slot g (poflr_create_flow_table tid type key_len sz name mfn ms lr g)"
proof -
  have s: "length (tableNumMaxEachType lr) = 4" "length (poflr_key_len_each_type g) = 4" "table_ok lr" "tables_below lr g"
    "\<forall>ID t. tables lr ID = Some t \<longrightarrow> entries_ok (malloc_n g) t" "\<forall>k \<in> set (poflr_key_len_each_type g). unat k \<le> 1024"
    using assms(1) by (auto simp: slot_ok_def)
  show ?thesis
  proof (cases "create_check tid type key_len sz lr g")
    case (Some c)
    then show ?thesis using create_refused [OF s(1-3) Some] keeps_err [OF assms(1,2)] by simp
  next
    case None
    obtain lr' g' t where l: "poflr_create_flow_table tid type key_len sz name mfn ms lr g = Some (POF_OK, lr', g')"
      "table_ok lr'" "tables_below lr' g'" "chan_ok g'" "but_tables lr' = but_tables lr"
      "tables lr' = (tables lr)(global_id lr type tid \<mapsto> t)" "new_table t" "ti_keyLen t = key_len" "malloc_n g \<le> malloc_n g'"
      "poflr_key_len_each_type g' = poflr_key_len_each_type g"
      using create_accepted [OF s(1-4) assms(2) None assms(3,4), of name] by blast
    then have gr: "grows g g'" by (simp add: grows_def)
    have "unat type < 4" "key_len \<le> poflr_key_len_each_type g ! unat type"
      using None by (auto simp: create_check_def word_le_nat_alt not_le not_less split: if_splits)
    then have "unat key_len \<le> 1024" using s(2,6) nth_mem [of "unat type" "poflr_key_len_each_type g"]
      by (metis le_trans word_le_nat_alt)
    then have "entries_ok (malloc_n g') t" using new_table_entries [OF l(7)] l(8) by simp
    then have "\<forall>ID t. tables lr' ID = Some t \<longrightarrow> entries_ok (malloc_n g') t"
      using l(6) s(5) by (auto intro: entries_ok_mono [OF _ l(9)])
    then show ?thesis using slot_ok_tables [OF assms(1) l(5) gr l(2,3)] keeps_slotI [OF l(1)] l(4) gr by blast
  qed
qed

lemma keeps_delete_table:
  assumes "slot_ok lr g" "chan_ok g"
  shows "keeps_slot g (poflr_delete_flow_table tid type lr g)"
proof -
  have s: "length (tableNumMaxEachType lr) = 4" "table_ok lr" "tables_below lr g"
    "\<forall>ID t. tables lr ID = Some t \<longrightarrow> entries_ok (malloc_n g) t" using assms(1) by (auto simp: slot_ok_def)
  show ?thesis
  proof (cases "delete_check tid type lr")
    case (Some c)
    then show ?thesis using delete_refused [OF s(1,2) Some] keeps_err [OF assms] by simp
  next
    case None
    obtain lr' where l: "poflr_delete_flow_table tid type lr g = Some (POF_OK, lr', g)" "table_ok lr'" "tables_below lr' g"
      "but_tables lr' = but_tables lr" "tables lr' = (tables lr)(global_id lr type tid := None)"
      using delete_ok [OF s(1-3) None] s(4) entries_table_wf by blast
    have "\<forall>ID t. tables lr' ID = Some t \<longrightarrow> entries_ok (malloc_n g) t" using l(5) s(4) by simp
    then show ?thesis using slot_ok_tables [OF assms(1) l(4) grows_refl l(2,3)] keeps_slotI [OF l(1)] assms(2) grows_refl by blast
  qed
qed

lemma slot_table_write:
  fixes ID :: u8
  assumes "slot_ok lr g" "table_get (ucast ID) lr = Some (Some n)" "ti_id t = ti_id (hn_obj n)" "entries_ok (malloc_n g) t"
  shows "slot_ok (table_write (hn_ptr n) (\<lambda>_. t) lr) g"
proof -
  let ?l = "table_write (hn_ptr n) (\<lambda>_. t) lr"
  have s: "table_ok lr" "tables_below lr g" "\<forall>ID t. tables lr ID = Some t \<longrightarrow> entries_ok (malloc_n g) t"
    using assms(1) by (auto simp: slot_ok_def)
  have u: "table_ok ?l" "res_abs (tableIdMap ?l) = (res_abs (tableIdMap lr))(ucast ID := Some t)"
    "res_ptrs (tableIdMap ?l) = res_ptrs (tableIdMap lr)"
    using tt.update_at [OF s(1) assms(2), of "\<lambda>_. t"] assms(3) by auto
  have "\<forall>ID t. tables ?l ID = Some t \<longrightarrow> entries_ok (malloc_n g) t" using tables_upd [OF u(2)] s(3) assms(4) by auto
  moreover have "but_tables ?l = but_tables lr" by (rule tt.rwrite_rest)
  ultimately show ?thesis using slot_ok_tables [OF assms(1) _ grows_refl u(1)] u(3) s(2) by simp
qed

lemma flow_table_of_ok:
  assumes "slot_ok lr g" "2184 \<le> length flow"
  shows "\<exists>q. flow_table_of flow lr = Some q
    \<and> (\<forall>n. q = Inr n \<longrightarrow> (\<exists>ID :: u8. table_get (ucast ID) lr = Some (Some n) \<and> entries_ok (malloc_n g) (hn_obj n)))"
proof -
  have s: "length (tableNumMaxEachType lr) = 4" "table_ok lr" "\<forall>ID t. tables lr ID = Some t \<longrightarrow> entries_ok (malloc_n g) t"
    using assms(1) by (auto simp: slot_ok_def)
  obtain index where i: "get32 flow 32 = Some index" using assms(2) by (simp add: get32_def get_le_def)
  have r: "rd flow 24 = Some (flow ! 24)" "rd flow 25 = Some (flow ! 25)" using assms(2) by (simp_all add: rd_def)
  let ?ID = "global_id lr (flow ! 25) (flow ! 24)"
  show ?thesis
  proof (cases "4 \<le> flow ! 25")
    case True
    then show ?thesis using i r by (simp add: flow_table_of_def)
  next
    case False
    then have t: "unat (flow ! 25) < 4" by (simp add: word_le_nat_alt not_le)
    have ID: "poflr_table_id_to_ID (flow ! 25) (flow ! 24) lr = Some ?ID"
      using table_id_to_ID_value [of "flow ! 25" lr "flow ! 24"] t s(1) by (simp add: global_id_def)
    obtain q where q: "table_get (ucast ?ID) lr = Some q" "\<forall>n. q = Some n \<longrightarrow> tables lr ?ID = Some (hn_obj n)"
      by (rule tt.get_cases [OF s(2), of "ucast ?ID"]) (auto simp: tables_def)
    have "\<forall>n. q = Some n \<longrightarrow> entries_ok (malloc_n g) (hn_obj n)" using q(2) s(3) by blast
    then show ?thesis using False i r t ID q(1) s(1)
      by (cases q) (auto simp: flow_table_of_def rd_Some get_table_eq)
  qed
qed

lemma trav_find: "trav_list (\<lambda>e s. Some (if P e then Some e else None, ())) ns () = Some (find P ns, ())"
  by (induction ns) auto

lemma entry_get_ok:
  assumes "entries_ok b t"
  shows "\<exists>q. poflr_entry_get_with_index i t = Some q
    \<and> (\<forall>e. q = Some e \<longrightarrow> (\<exists>m. ti_entryMap t = Some m \<and> e \<in> set (hmap_nodes m)))"
proof (rule entries_okE [OF assms])
  fix m assume m: "ti_entryMap t = Some m" "hmap_ok m"
  have "poflr_entry_get_with_index i t = Some (find (\<lambda>e. ei_index (hn_obj e) = i) (hmap_nodes m))"
    unfolding poflr_entry_get_with_index_def
    by (subst hmap_struct_traverse_readonly [OF m(2)]) (simp_all add: m(1) trav_find)
  then show ?thesis using m(1) by (auto simp: find_Some_iff)
qed

lemma get_same_map: "tableIdMap l' = tableIdMap l \<Longrightarrow> table_get k l' = table_get k l"
  by (simp add: table_get_def)

lemma flow_ids: "2184 \<le> length flow \<Longrightarrow> \<exists>i c. get32 flow 32 = Some i \<and> get32 flow 4 = Some c"
  by (simp add: get32_def get_le_def)

lemma keeps_add_entry:
  assumes "slot_ok lr g" "chan_ok g" "flow_fits flow"
  shows "keeps_slot g (poflr_add_flow_entry flow lr g)"
proof -
  have len: "2184 \<le> length flow" using assms(3) by (simp add: flow_fits_def)
  obtain c where c: "get32 flow 4 = Some c" using flow_ids [OF len] by blast
  obtain q where q: "flow_table_of flow lr = Some q"
    "\<forall>n. q = Inr n \<longrightarrow> (\<exists>ID :: u8. table_get (ucast ID) lr = Some (Some n) \<and> entries_ok (malloc_n g) (hn_obj n))"
    using flow_table_of_ok [OF assms(1) len] by blast
  show ?thesis
  proof (cases q)
    case (Inl e)
    then show ?thesis using q(1) keeps_err [OF assms(1,2)] by (simp add: poflr_add_flow_entry_def)
  next
    case (Inr n)
    then obtain ID :: u8 where n: "table_get (ucast ID) lr = Some (Some n)" "entries_ok (malloc_n g) (hn_obj n)" using q(2) by blast
    obtain r t g1 where t: "entryInsert flow (hn_obj n) g = Some (r, t, g1)" "entries_ok (malloc_n g1) t" "chan_ok g1" "grows g g1"
      "ti_id t = ti_id (hn_obj n)" using entryInsert_ok [OF n(2) assms(3,2)] by blast
    have ok: "slot_ok (table_write (hn_ptr n) (\<lambda>_. t) lr) g1"
      using slot_table_write [OF slot_ok_grows [OF assms(1) t(4)] n(1) t(5,2)] .
    show ?thesis
    proof (cases "r = POF_OK")
      case False
      then show ?thesis using q(1) Inr t(1) keeps_trans [OF keeps_err [OF ok t(3)] t(4)] by (simp add: poflr_add_flow_entry_def Let_def)
    next
      case True
      have "poflr_add_flow_entry flow lr g = poflr_counter_init c (table_write (hn_ptr n) (\<lambda>_. t) lr) g1"
        using q(1) Inr t(1) True c
        by (cases "poflr_counter_init c (table_write (hn_ptr n) (\<lambda>_. t) lr) g1") (auto simp: poflr_add_flow_entry_def Let_def)
      then show ?thesis using keeps_trans [OF keeps_counter(1) [OF ok t(3)] t(4)] by simp
    qed
  qed
qed

text \<open>What both routines that change an entry find first: an error, or a table with the entry.\<close>

lemma entry_found:
  assumes "slot_ok lr g" "2184 \<le> length flow" "get32 flow 32 = Some i"
  obtains e where "flow_table_of flow lr = Some (Inl e)"
  | n ID where "flow_table_of flow lr = Some (Inr n)" "poflr_entry_get_with_index i (hn_obj n) = Some None"
  | n e m and ID :: u8 where "flow_table_of flow lr = Some (Inr n)" "poflr_entry_get_with_index i (hn_obj n) = Some (Some e)"
      "table_get (ucast ID) lr = Some (Some n)" "entries_ok (malloc_n g) (hn_obj n)" "ti_entryMap (hn_obj n) = Some m" "e \<in> set (hmap_nodes m)"
proof -
  obtain q where q: "flow_table_of flow lr = Some q"
    "\<forall>n. q = Inr n \<longrightarrow> (\<exists>ID :: u8. table_get (ucast ID) lr = Some (Some n) \<and> entries_ok (malloc_n g) (hn_obj n))"
    using flow_table_of_ok [OF assms(1,2)] by blast
  show ?thesis
  proof (cases q)
    case (Inl e)
    then show ?thesis using q(1) that(1) by simp
  next
    case (Inr n)
    then obtain ID :: u8 where n: "table_get (ucast ID) lr = Some (Some n)" "entries_ok (malloc_n g) (hn_obj n)" using q(2) by blast
    obtain p where p: "poflr_entry_get_with_index i (hn_obj n) = Some p"
      "\<forall>e. p = Some e \<longrightarrow> (\<exists>m. ti_entryMap (hn_obj n) = Some m \<and> e \<in> set (hmap_nodes m))" using entry_get_ok [OF n(2)] by blast
    show ?thesis
    proof (cases p)
      case None
      then show ?thesis using q(1) Inr p(1) that(2) by simp
    next
      case (Some e)
      then obtain m where "ti_entryMap (hn_obj n) = Some m" "e \<in> set (hmap_nodes m)" using p(2) by blast
      then show ?thesis using q(1) Inr p(1) Some n that(3) by simp
    qed
  qed
qed

lemma counter_step:
  assumes "slot_ok lr g" "chan_ok g"
  shows "\<exists>r lr' g'. poflr_counter_init i lr g = Some (r, lr', g') \<and> slot_ok lr' g' \<and> chan_ok g' \<and> grows g g' \<and> tableIdMap lr' = tableIdMap lr"
    and "\<exists>r lr' g'. poflr_counter_delete i lr g = Some (r, lr', g') \<and> slot_ok lr' g' \<and> chan_ok g' \<and> grows g g' \<and> tableIdMap lr' = tableIdMap lr"
proof -
  note c = conjunct1 [OF slot_counters [OF assms(1)]] conjunct2 [OF slot_counters [OF assms(1)]] assms(2)
  show "\<exists>r lr' g'. poflr_counter_init i lr g = Some (r, lr', g') \<and> slot_ok lr' g' \<and> chan_ok g' \<and> grows g g' \<and> tableIdMap lr' = tableIdMap lr"
    using counter_init_ok [OF c, of i] slot_ok_counters [OF assms(1)] grows_queue but_counters_sel(4) by blast
  show "\<exists>r lr' g'. poflr_counter_delete i lr g = Some (r, lr', g') \<and> slot_ok lr' g' \<and> chan_ok g' \<and> grows g g' \<and> tableIdMap lr' = tableIdMap lr"
    using counter_delete_ok [OF c, of i] slot_ok_counters [OF assms(1)] grows_queue but_counters_sel(4) by blast
qed

lemma keeps_delete_entry:
  assumes "slot_ok lr g" "chan_ok g" "2184 \<le> length flow"
  shows "keeps_slot g (poflr_delete_flow_entry flow lr g)"
proof -
  obtain i where i: "get32 flow 32 = Some i" using flow_ids [OF assms(3)] by blast
  show ?thesis
  proof (rule entry_found [OF assms(1,3) i])
    fix e assume "flow_table_of flow lr = Some (Inl e)"
    then show ?thesis using keeps_err [OF assms(1,2)] by (simp add: poflr_delete_flow_entry_def)
  next
    fix n assume "flow_table_of flow lr = Some (Inr n)" "poflr_entry_get_with_index i (hn_obj n) = Some None"
    then show ?thesis using i keeps_err [OF assms(1,2)] by (simp add: poflr_delete_flow_entry_def)
  next
    fix n e m and ID :: u8
    assume n: "flow_table_of flow lr = Some (Inr n)" "poflr_entry_get_with_index i (hn_obj n) = Some (Some e)"
      "table_get (ucast ID) lr = Some (Some n)" "entries_ok (malloc_n g) (hn_obj n)" "ti_entryMap (hn_obj n) = Some m" "e \<in> set (hmap_nodes m)"
    obtain r lr1 g1 where c: "poflr_counter_delete (ei_counter_id (hn_obj e)) lr g = Some (r, lr1, g1)" "slot_ok lr1 g1" "chan_ok g1"
      "grows g g1" "tableIdMap lr1 = tableIdMap lr" using counter_step(2) [OF assms(1,2)] by blast
    obtain t where t: "entryDelete e (hn_obj n) = Some t" "entries_ok (malloc_n g) t" "ti_id t = ti_id (hn_obj n)"
      using entryDelete_ok [OF n(4-6)] by blast
    have "slot_ok (table_write (hn_ptr n) (\<lambda>_. t) lr1) g1"
      using slot_table_write [OF c(2), of ID n t] n(3) t get_same_map [OF c(5)] entries_ok_mono c(4) by (simp add: grows_def)
    then show ?thesis using i n(1,2) c t(1) by (simp add: poflr_delete_flow_entry_def keeps_slot_def)
  qed
qed

lemma keeps_modify_entry:
  assumes "slot_ok lr g" "chan_ok g" "flow_fits flow"
  shows "keeps_slot g (poflr_modify_flow_entry flow lr g)"
proof -
  have len: "2184 \<le> length flow" using assms(3) by (simp add: flow_fits_def)
  obtain i c where i: "get32 flow 32 = Some i" "get32 flow 4 = Some c" using flow_ids [OF len] by blast
  show ?thesis
  proof (rule entry_found [OF assms(1) len i(1)])
    fix e assume "flow_table_of flow lr = Some (Inl e)"
    then show ?thesis using keeps_err [OF assms(1,2)] by (simp add: poflr_modify_flow_entry_def)
  next
    fix n assume "flow_table_of flow lr = Some (Inr n)" "poflr_entry_get_with_index i (hn_obj n) = Some None"
    then show ?thesis using i keeps_err [OF assms(1,2)] by (simp add: poflr_modify_flow_entry_def)
  next
    fix n e m and ID :: u8
    assume n: "flow_table_of flow lr = Some (Inr n)" "poflr_entry_get_with_index i (hn_obj n) = Some (Some e)"
      "table_get (ucast ID) lr = Some (Some n)" "entries_ok (malloc_n g) (hn_obj n)" "ti_entryMap (hn_obj n) = Some m" "e \<in> set (hmap_nodes m)"
    let ?c = "if ei_counter_id (hn_obj e) \<noteq> c then poflr_counter_init c lr g else Some (POF_OK, lr, g)"
    have "\<exists>r lr1 g1. ?c = Some (r, lr1, g1) \<and> slot_ok lr1 g1 \<and> chan_ok g1 \<and> grows g g1 \<and> tableIdMap lr1 = tableIdMap lr"
      using counter_step(1) [OF assms(1,2), of c] assms(1,2) by (cases "ei_counter_id (hn_obj e) = c") simp_all
    then obtain r lr1 g1 where c: "?c = Some (r, lr1, g1)" "slot_ok lr1 g1" "chan_ok g1" "grows g g1" "tableIdMap lr1 = tableIdMap lr"
      by blast
    obtain t where t: "entryDelete e (hn_obj n) = Some t" "entries_ok (malloc_n g) t" "ti_id t = ti_id (hn_obj n)"
      using entryDelete_ok [OF n(4-6)] by blast
    have "entries_ok (malloc_n g1) t" using t(2) c(4) entries_ok_mono by (simp add: grows_def)
    then obtain r2 t2 g2 where t2: "entryInsert flow t g1 = Some (r2, t2, g2)" "entries_ok (malloc_n g2) t2" "chan_ok g2"
      "grows g1 g2" "ti_id t2 = ti_id (hn_obj n)" using entryInsert_ok [OF _ assms(3) c(3)] t(3) by metis
    have get: "table_get (ucast ID) lr1 = Some (Some n)" using n(3) get_same_map [OF c(5)] by simp
    have ok: "slot_ok (table_write (hn_ptr n) (\<lambda>_. t2) lr1) g2"
      by (rule slot_table_write [OF slot_ok_grows [OF c(2) t2(4)] get t2(5,2)])
    have g2: "grows g g2" by (rule grows_trans [OF c(4) t2(4)])
    show ?thesis using i n(1,2) c(1-4) t(1) t2(1,3) ok g2 keeps_trans [OF keeps_err [OF ok t2(3)] g2]
      by (simp add: poflr_modify_flow_entry_def Let_def keeps_slot_def)
  qed
qed

subsection \<open>Ports\<close>

lemma slot_port_write:
  assumes "slot_ok lr g" "portPofIndexMap lr = Some im" "n \<in> set (hmap_nodes im)" "\<And>i. pi_pofIndex (f i) = pi_pofIndex i"
  shows "slot_ok (port_write (hn_ptr n) f lr) g"
proof -
  have s: "port_ok lr" "below (malloc_n g) (res_ptrs (portPofIndexMap lr))" using assms(1) by (auto simp: slot_ok_def)
  show ?thesis using slot_ok_ports [OF assms(1) _ grows_refl] port_write_ok [OF s(1) assms(2,3), of f] s(2) assms(4) by simp
qed

lemma keeps_enable_port:
  assumes "slot_ok lr g" "chan_ok g"
  shows "keeps_slot g (poflr_port_openflow_enable port_id flag lr g)"
proof -
  obtain im where im: "portPofIndexMap lr = Some im" "tbl_ok port_key im"
    using assms(1) by (auto simp: slot_ok_def elim: port_okE)
  obtain q where q: "poflr_get_port_with_pofindex (ucast port_id) lr = Some q" "\<forall>n. q = Some n \<longrightarrow> n \<in> set (hmap_nodes im)"
    using tbl_get [OF im(2)] im(1) by (auto simp: poflr_get_port_with_pofindex_def)
  show ?thesis
  proof (cases q)
    case None
    then show ?thesis using q(1) keeps_err [OF assms] by (simp add: poflr_port_openflow_enable_def)
  next
    case (Some n)
    then have "slot_ok (port_write (hn_ptr n) (\<lambda>i. i\<lparr>pi_of_enable := flag\<rparr>) lr) g"
      using slot_port_write [OF assms(1) im(1), of n "\<lambda>i. i\<lparr>pi_of_enable := flag\<rparr>"] q(2) by simp
    then show ?thesis using q(1) Some assms(2) by (simp add: poflr_port_openflow_enable_def keeps_slot_def)
  qed
qed

text \<open>
  A loop that writes to the node it visits walks a map that changes; the addresses and hashes of
  the nodes do not, and the loop visits each node once.
\<close>

lemma node_unique:
  assumes "hmap_ok m" "x \<in> set (hmap_nodes m)" "n \<in> set (hmap_nodes m)" "hn_ptr x = hn_ptr n"
  shows "x = n"
  using assms by (auto simp: hmap_ok_def distinct_map inj_on_def)

lemma hmap_write_value:
  assumes "hmap_ok m" "n \<in> set (hmap_nodes m)"
  shows "hmap_write (hn_ptr n) f m = hmap_write (hn_ptr n) (\<lambda>_. f (hn_obj n)) m"
proof -
  have u: "x = n" if "b \<in> set (hm_buckets m)" "x \<in> set b" "hn_ptr x = hn_ptr n" for b x
    using node_unique [OF assms(1) _ assms(2) that(3)] that(1,2) by (auto simp: hmap_nodes_def)
  have "map (map (\<lambda>x. if hn_ptr x = hn_ptr n then x\<lparr>hn_obj := f (hn_obj x)\<rparr> else x)) (hm_buckets m)
      = map (map (\<lambda>x. if hn_ptr x = hn_ptr n then x\<lparr>hn_obj := f (hn_obj n)\<rparr> else x)) (hm_buckets m)"
    by (intro map_cong refl) (auto dest!: u)
  then show ?thesis by (simp add: hmap_write_def)
qed

lemma hmap_write_same:
  assumes "hmap_ok m" "n \<in> set (hmap_nodes m)"
  shows "hmap_write (hn_ptr n) (\<lambda>_. hn_obj n) m = m"
proof -
  have "hmap_write (hn_ptr n) (\<lambda>x. x) m = m" by (cases m) (simp add: hmap_write_def map_idI)
  then show ?thesis using hmap_write_value [OF assms, of "\<lambda>x. x"] by simp
qed

lemma write_one:
  fixes y :: "'a hnode"
  assumes "hmap_ok m" "hmap_nodes m = zs @ y # ys"
  shows "hmap_nodes (hmap_write (hn_ptr y) (\<lambda>_. x) m) = zs @ y\<lparr>hn_obj := x\<rparr> # ys"
proof -
  have d: "distinct (map hn_ptr (zs @ y # ys))" using assms unfolding hmap_ok_def by metis
  have "map (\<lambda>n. if hn_ptr n = hn_ptr y then n\<lparr>hn_obj := x\<rparr> else n) xs = xs" if "hn_ptr y \<notin> hn_ptr ` set xs" for xs :: "'a hnode list"
    using that by (induction xs) auto
  then show ?thesis using d by (simp add: hmap_nodes_write assms(2))
qed

text \<open>The new content of a node is related to the old one by \<open>Q\<close>.\<close>

abbreviation node_rel :: "('a \<Rightarrow> 'a \<Rightarrow> bool) \<Rightarrow> 'a hnode \<Rightarrow> 'a hnode \<Rightarrow> bool" where
  "node_rel Q n n' \<equiv> (\<exists>x. n' = n\<lparr>hn_obj := x\<rparr> \<and> Q (hn_obj n) x)"

lemma hmap_trav_each:
  assumes step: "\<And>s m n. I s \<Longrightarrow> mp s = Some m \<Longrightarrow> hmap_ok m \<Longrightarrow> n \<in> set (hmap_nodes m) \<Longrightarrow>
      \<exists>s' x. body n s = Some (None, s') \<and> I s' \<and> mp s' = Some (hmap_write (hn_ptr n) (\<lambda>_. x) m) \<and> Q (hn_obj n) x"
    and "I s" "mp s = Some m" "hmap_ok m" "hmap_nodes m = zs @ ys"
  shows "\<exists>s' m' ys'. hmap_trav mp body (head_opt ys) s = Some (None, s') \<and> I s' \<and> mp s' = Some m' \<and> hmap_ok m'
    \<and> hmap_nodes m' = zs @ ys' \<and> list_all2 (node_rel Q) ys ys'"
  using assms(2-5)
proof (induction ys arbitrary: zs s m)
  case Nil
  then show ?case by (intro exI [of _ s] exI [of _ m] exI [of _ "[]"]) (subst hmap_trav.simps, simp)
next
  case (Cons y ys)
  have nxt: "hmap_nodeNext m y = Some (head_opt ys)" by (rule hmap_nodeNext_nodes [OF Cons.prems(3,4)])
  have "y \<in> set (hmap_nodes m)" using Cons.prems(4) by simp
  from step [OF Cons.prems(1-3) this] obtain s' x where s': "body y s = Some (None, s')" "I s'"
    "mp s' = Some (hmap_write (hn_ptr y) (\<lambda>_. x) m)" "Q (hn_obj y) x" by blast
  have "hmap_nodes (hmap_write (hn_ptr y) (\<lambda>_. x) m) = (zs @ [y\<lparr>hn_obj := x\<rparr>]) @ ys"
    using write_one [OF Cons.prems(3,4)] by simp
  from Cons.IH [OF s'(2,3) hmap_ok_write [OF Cons.prems(3)] this] obtain s2 m2 ys' where
    r: "hmap_trav mp body (head_opt ys) s' = Some (None, s2)" "I s2" "mp s2 = Some m2" "hmap_ok m2"
      "hmap_nodes m2 = zs @ y\<lparr>hn_obj := x\<rparr> # ys'" "list_all2 (node_rel Q) ys ys'" by auto
  have "hmap_trav mp body (head_opt (y # ys)) s = Some (None, s2)"
    using r(1) by (subst hmap_trav.simps) (simp add: Cons.prems(2) nxt s'(1))
  moreover have "list_all2 (node_rel Q) (y # ys) (y\<lparr>hn_obj := x\<rparr> # ys')" using r(6) s'(4) by auto
  ultimately show ?case using r(2-5) by blast
qed

lemma hmap_struct_traverse_each:
  assumes "\<And>s m n. I s \<Longrightarrow> mp s = Some m \<Longrightarrow> hmap_ok m \<Longrightarrow> n \<in> set (hmap_nodes m) \<Longrightarrow>
      \<exists>s' x. body n s = Some (None, s') \<and> I s' \<and> mp s' = Some (hmap_write (hn_ptr n) (\<lambda>_. x) m) \<and> Q (hn_obj n) x"
    and "I s" "mp s = Some m" "hmap_ok m"
  shows "\<exists>s' m'. hmap_struct_traverse mp body s = Some (None, s') \<and> I s' \<and> mp s' = Some m' \<and> hmap_ok m'
    \<and> list_all2 (node_rel Q) (hmap_nodes m) (hmap_nodes m')"
  using hmap_trav_each [of I mp body Q s m "[]" "hmap_nodes m", OF assms(1)] assms(2-) hmap_nodeFirst_nodes [OF assms(4)]
  by (simp add: hmap_struct_traverse_def)

lemma node_rel_fun: "list_all2 (node_rel (\<lambda>a x. x = f a)) ns ns' \<Longrightarrow> ns' = map (\<lambda>n. n\<lparr>hn_obj := f (hn_obj n)\<rparr>) ns"
  by (induction rule: list_all2_induct) auto

lemma hmap_struct_traverse_write:
  assumes step: "\<And>s m n. I s \<Longrightarrow> mp s = Some m \<Longrightarrow> hmap_ok m \<Longrightarrow> n \<in> set (hmap_nodes m) \<Longrightarrow>
      \<exists>s'. body n s = Some (None, s') \<and> I s' \<and> mp s' = Some (hmap_write (hn_ptr n) f m)"
    and "I s" "mp s = Some m" "hmap_ok m"
  shows "\<exists>s' m'. hmap_struct_traverse mp body s = Some (None, s') \<and> I s' \<and> mp s' = Some m' \<and> hmap_ok m'
    \<and> hmap_nodes m' = map (\<lambda>n. n\<lparr>hn_obj := f (hn_obj n)\<rparr>) (hmap_nodes m)"
proof -
  have "\<exists>s' x. body n s = Some (None, s') \<and> I s' \<and> mp s' = Some (hmap_write (hn_ptr n) (\<lambda>_. x) m) \<and> x = f (hn_obj n)"
    if "I s" "mp s = Some m" "hmap_ok m" "n \<in> set (hmap_nodes m)" for s m n
    using step [OF that] hmap_write_value [OF that(3,4), of f] by auto
  from hmap_struct_traverse_each [of I mp body "\<lambda>a x. x = f a", OF this assms(2-4)] show ?thesis
    using node_rel_fun by blast
qed

lemma disable_all_ok:
  assumes "port_ok lr"
  shows "\<exists>lr'. poflr_disable_all_port lr = Some (POF_OK, lr') \<and> port_ok lr' \<and> but_ports lr' = but_ports lr
    \<and> res_ptrs (portPofIndexMap lr') = res_ptrs (portPofIndexMap lr) \<and> portNum lr' = portNum lr
    \<and> ports lr' = (\<lambda>k. map_option (\<lambda>i. i\<lparr>pi_of_enable := 0\<rparr>) (ports lr k))"
proof (rule port_okE [OF assms])
  fix im nm assume m: "portPofIndexMap lr = Some im" "portNameMap lr = Some nm" "tbl_ok port_key im" "hmap_ok im"
  let ?f = "\<lambda>i :: portInfo. i\<lparr>pi_of_enable := 0\<rparr>"
  let ?body = "\<lambda>port l. Some (None :: ret option, port_write (hn_ptr port) ?f l)"
  let ?I = "\<lambda>l. port_ok l \<and> but_ports l = but_ports lr \<and> res_ptrs (portPofIndexMap l) = res_ptrs (portPofIndexMap lr)
    \<and> portNum l = portNum lr"
  have step: "\<exists>s'. ?body n s = Some (None, s') \<and> ?I s' \<and> portPofIndexMap s' = Some (hmap_write (hn_ptr n) ?f m)"
    if "?I s" "portPofIndexMap s = Some m" "n \<in> set (hmap_nodes m)" for s m n
    using that port_write_ok [of s m n ?f] by (simp add: port_write_def)
  obtain lr' im' where l: "hmap_struct_traverse portPofIndexMap ?body lr = Some (None, lr')" "?I lr'" "portPofIndexMap lr' = Some im'"
    "hmap_nodes im' = map (\<lambda>n. n\<lparr>hn_obj := ?f (hn_obj n)\<rparr>) (hmap_nodes im)"
    using hmap_struct_traverse_write [of ?I portPofIndexMap ?body ?f lr im] step assms m(1,4) by blast
  have "tbl_ok port_key im'" using l(2,3) by (auto elim!: port_okE)
  then have "ports lr' = (\<lambda>k. map_option ?f (ports lr k))"
    using l(3,4) m(1,3) by (auto simp: res_abs_def tbl_abs_def hmap_chain_def filter_map comp_def fun_eq_iff split: list.splits)
  moreover have "poflr_disable_all_port lr = Some (POF_OK, lr')" using l(1) by (simp add: poflr_disable_all_port_def)
  ultimately show ?thesis using l(2) by blast
qed

subsection \<open>Clearing a slot\<close>

lemma table_empty_entries:
  assumes "entries_ok b t"
  shows "\<exists>t'. hmap_struct_traverse ti_entryMap (\<lambda>e t. map_option (\<lambda>t'. (None :: unit option, t')) (entryDelete e t)) t = Some (None, t')
    \<and> entries_ok b t' \<and> ti_entryNum t' = 0"
proof (rule entries_okE [OF assms])
  fix m assume m: "ti_entryMap t = Some m" "hmap_ok m"
  let ?body = "\<lambda>e t. map_option (\<lambda>t'. (None :: unit option, t')) (entryDelete e t)"
  have step: "\<exists>t' m'. ?body e t = Some (None, t') \<and> entries_ok b t' \<and> ti_entryMap t' = Some m' \<and> hmap_ok m'
      \<and> hmap_nodes m' = filter (\<lambda>n. hn_ptr n \<noteq> hn_ptr e) (hmap_nodes m)"
    if "entries_ok b t" "ti_entryMap t = Some m" "e \<in> set (hmap_nodes m)" for t m e
    using entryDelete_ok [OF that] by auto
  obtain t' m' where t': "hmap_struct_traverse ti_entryMap ?body t = Some (None, t')" "entries_ok b t'" "ti_entryMap t' = Some m'" "hmap_nodes m' = []"
    using hmap_struct_traverse_delete [of "entries_ok b" ti_entryMap ?body t m] step assms m by blast
  then show ?thesis by (auto simp: entries_ok_def)
qed

lemma table_empty_ok:
  assumes "entries_ok b (hn_obj n)"
  shows "table_empty n lr = map_tableDelete n lr"
proof -
  obtain t where "hmap_struct_traverse ti_entryMap (\<lambda>e t. map_option (\<lambda>t'. (None :: unit option, t')) (entryDelete e t)) (hn_obj n) = Some (None, t)"
    "entries_ok b t" using table_empty_entries [OF assms] by blast
  moreover from this(2) have "table_destroy t = Some ()"
    using entries_table_wf [of b t] by (auto simp: table_wf_def table_destroy_def tree_destroy_def tree_nodeDestroy_ok)
  ultimately show ?thesis by (simp add: table_empty_def)
qed

lemma table_in_map:
  assumes "table_ok lr" "tableIdMap lr = Some m" "n \<in> set (hmap_nodes m)"
  shows "tables lr (ti_id (hn_obj n)) = Some (hn_obj n)"
proof -
  have t: "tbl_ok table_key m" using assms(1,2) by (simp add: res_ok_def)
  then have "hn_hash n = table_key (hn_obj n)" using assms(3) by (simp add: tbl_ok_def)
  then show ?thesis using assms(2,3) by (auto simp: tables_def res_abs_def tbl_abs_in [OF t])
qed

lemma empty_tables_ok:
  assumes "table_ok lr" "\<forall>ID t. tables lr ID = Some t \<longrightarrow> entries_ok b t"
  shows "\<exists>lr'. poflr_empty_flow_table lr = Some (POF_OK, lr') \<and> table_ok lr' \<and> tables lr' = (\<lambda>_. None)
    \<and> res_ptrs (tableIdMap lr') = {} \<and> tableNum lr' = 0 \<and> but_tables lr' = but_tables lr"
proof -
  let ?body = "\<lambda>n s. map_option (\<lambda>s'. (None :: unit option, s')) (table_empty n s)"
  let ?I = "\<lambda>s. table_ok s \<and> (\<forall>ID t. tables s ID = Some t \<longrightarrow> entries_ok b t) \<and> but_tables s = but_tables lr"
  obtain m where m: "tableIdMap lr = Some m" "hmap_ok m" using assms(1) by (auto simp: res_ok_def tbl_ok_def split: option.splits)
  have step: "\<exists>s' m'. ?body n s = Some (None, s') \<and> ?I s' \<and> tableIdMap s' = Some m' \<and> hmap_ok m'
      \<and> hmap_nodes m' = filter (\<lambda>x. hn_ptr x \<noteq> hn_ptr n) (hmap_nodes m)"
    if I: "?I s" and sm: "tableIdMap s = Some m" and n: "n \<in> set (hmap_nodes m)" for s m n
  proof -
    have t: "tbl_ok table_key m" "tableNum s = of_nat (length (hmap_nodes m))" using I sm by (auto simp: res_ok_def)
    obtain m' where m': "hmap_nodeDelete m n = Some m'" "tbl_ok table_key m'" "length (hmap_nodes m) = length (hmap_nodes m') + 1"
      "hmap_nodes m' = filter (\<lambda>x. hn_ptr x \<noteq> hn_ptr n) (hmap_nodes m)" "tbl_abs m' = (tbl_abs m)(hn_hash n := None)"
      using tbl_delete [OF t(1) n] by blast
    let ?s = "s\<lparr>tableIdMap := Some m', tableNum := tableNum s - 1\<rparr>"
    have "table_empty n s = Some ?s"
      using table_empty_ok [of b n s] table_in_map [of s m n] I sm n m'(1) by (simp add: map_tableDelete_def)
    moreover have "table_ok ?s" using t(2) m'(2,3) by (simp add: res_ok_def)
    moreover have "tables ?s ID = Some t \<Longrightarrow> tables s ID = Some t" for ID t
      using m'(5) sm by (auto simp: tables_def res_abs_def split: if_splits)
    moreover have "hmap_ok m'" using m'(2) by (simp add: tbl_ok_def)
    ultimately show ?thesis using I m'(4) by (auto simp: but_tables_def)
  qed
  obtain l' m' where l': "hmap_struct_traverse tableIdMap ?body lr = Some (None, l')" "?I l'" "tableIdMap l' = Some m'" "hmap_nodes m' = []"
    using hmap_struct_traverse_delete [of ?I tableIdMap ?body lr m] step assms m by blast
  then show ?thesis
    by (intro exI [of _ l']) (auto simp: poflr_empty_flow_table_def tables_def res_abs_def tbl_abs_def hmap_chain_def res_ptrs_def hmap_ptrs_def res_ok_def)
qed

lemma clear_resource_ok:
  assumes "slot_ok lr g"
  shows "\<exists>lr'. poflr_clear_resource lr = Some (POF_OK, lr') \<and> slot_ok lr' g
    \<and> tables lr' = (\<lambda>_. None) \<and> groups lr' = (\<lambda>_. None) \<and> meters lr' = (\<lambda>_. None) \<and> counters lr' = (\<lambda>_. None)
    \<and> ports lr' = (\<lambda>k. map_option (\<lambda>i. i\<lparr>pi_of_enable := 0\<rparr>) (ports lr k))
    \<and> but_ports (but_tables (but_groups (but_meters (but_counters lr'))))
        = but_ports (but_tables (but_groups (but_meters (but_counters lr))))"
proof -
  have s: "port_ok lr" "below (malloc_n g) (res_ptrs (portPofIndexMap lr))" using assms by (auto simp: slot_ok_def)
  obtain l1 where l1: "poflr_disable_all_port lr = Some (POF_OK, l1)" "port_ok l1" "but_ports l1 = but_ports lr"
    "res_ptrs (portPofIndexMap l1) = res_ptrs (portPofIndexMap lr)" "ports l1 = (\<lambda>k. map_option (\<lambda>i. i\<lparr>pi_of_enable := 0\<rparr>) (ports lr k))"
    using disable_all_ok [OF s(1)] by blast
  have ok1: "slot_ok l1 g" using slot_ok_ports [OF assms l1(3) grows_refl l1(2)] l1(4) s(2) by simp
  then have t1: "table_ok l1" "\<forall>ID t. tables l1 ID = Some t \<longrightarrow> entries_ok (malloc_n g) t" by (auto simp: slot_ok_def)
  obtain l2 where l2: "poflr_empty_flow_table l1 = Some (POF_OK, l2)" "table_ok l2" "tables l2 = (\<lambda>_. None)"
    "res_ptrs (tableIdMap l2) = {}" "but_tables l2 = but_tables l1" using empty_tables_ok [OF t1] by blast
  have ok2: "slot_ok l2 g" using slot_ok_tables [OF ok1 l2(5) grows_refl l2(2)] l2(3,4) by (simp add: below_def)
  then have g2: "group_ok l2" "gc_ok l2 g" by (auto simp: slot_ok_def gc_ok_def)
  obtain l3 where l3: "poflr_empty_group l2 = Some (POF_OK, l3)" "group_ok l3" "groups l3 = (\<lambda>_. None)"
    "res_ptrs (groupMap l3) = {}" "but_groups l3 = but_groups l2" using poflr_empty_group_ok [OF g2(1)] by blast
  have "gc_ok l3 g" using l3 g2(2) but_groups_sel [OF l3(5)] by (simp add: gc_ok_def below_def)
  then have ok3: "slot_ok l3 g" using slot_ok_groups [OF ok2 _ grows_refl] l3 by simp
  then have m3: "meter_ok l3" by (simp add: slot_ok_def)
  obtain l4 where l4: "poflr_empty_meter l3 = Some (POF_OK, l4)" "meter_ok l4" "meters l4 = (\<lambda>_. None)"
    "res_ptrs (meterMap l4) = {}" "but_meters l4 = but_meters l3" using poflr_empty_meter_ok [OF m3] by blast
  have ok4: "slot_ok l4 g" using slot_ok_meters [OF ok3 l4(5) grows_refl l4(2)] l4(4) by (simp add: below_def)
  then have c4: "counter_ok l4" by (simp add: slot_ok_def gc_ok_def)
  obtain l5 where l5: "poflr_empty_counter l4 = Some (POF_OK, l5)" "counter_ok l5" "counters l5 = (\<lambda>_. None)"
    "res_ptrs (counterMap l5) = {}" "but_counters l5 = but_counters l4" using poflr_empty_counter_ok [OF c4] by blast
  have ok5: "slot_ok l5 g" using slot_ok_counters [OF ok4 l5(5) grows_refl l5(2)] l5(4) by (simp add: below_def)
  have run: "poflr_clear_resource lr = Some (POF_OK, l5)"
    using l1(1) l2(1) l3(1) l4(1) l5(1) by (simp add: poflr_clear_resource_def)
  have maps: "tableIdMap l5 = tableIdMap l2" "groupMap l5 = groupMap l3" "meterMap l5 = meterMap l4" "portPofIndexMap l5 = portPofIndexMap l1"
    using l2(5) l3(5) l4(5) l5(5) by (cases l1, cases l2, cases l3, cases l4, cases l5,
      simp add: but_tables_def but_groups_def but_meters_def but_counters_def)+
  have rest: "but_ports (but_tables (but_groups (but_meters (but_counters l5))))
      = but_ports (but_tables (but_groups (but_meters (but_counters lr))))"
    using l1(3) l2(5) l3(5) l4(5) l5(5)
    by (cases lr, cases l1, cases l2, cases l3, cases l4, cases l5)
      (simp add: but_ports_def but_tables_def but_groups_def but_meters_def but_counters_def)
  show ?thesis using run ok5 rest l1(5) l2(3) l3(3) l4(3) l5(3) maps tables_cong [OF maps(1)]
    by (intro exI [of _ l5]) simp
qed


section \<open>Sequences of commands\<close>

text \<open>The changes a controller can ask for, and the loss of the connection.\<close>

datatype slot_cmd =
    CreateTable u8 u8 u16 u32 bytes u8 bytes
  | DeleteTable u8 u8
  | AddEntry bytes | ModifyEntry bytes | DeleteEntry bytes
  | Meter meter_cmd u32 u32
  | AddGroup bytes | ModifyGroup bytes | DeleteGroup bytes
  | InitCounter u32 | DeleteCounter u32 | ClearCounter u32
  | EnablePort u32 u8
  | ClearSlot

fun slot_run :: "slot_cmd \<Rightarrow> pof_local_resource \<Rightarrow> glob \<Rightarrow> (ret \<times> pof_local_resource \<times> glob) option" where
  "slot_run (CreateTable tid type key_len sz name mfn ms) lr g = poflr_create_flow_table tid type key_len sz name mfn ms lr g"
| "slot_run (DeleteTable tid type) lr g = poflr_delete_flow_table tid type lr g"
| "slot_run (AddEntry flow) lr g = poflr_add_flow_entry flow lr g"
| "slot_run (ModifyEntry flow) lr g = poflr_modify_flow_entry flow lr g"
| "slot_run (DeleteEntry flow) lr g = poflr_delete_flow_entry flow lr g"
| "slot_run (Meter c i rate) lr g = meter_op c i rate lr g"
| "slot_run (AddGroup msg) lr g = poflr_add_group_entry msg lr g"
| "slot_run (ModifyGroup msg) lr g = poflr_modify_group_entry msg lr g"
| "slot_run (DeleteGroup msg) lr g = poflr_delete_group_entry msg lr g"
| "slot_run (InitCounter i) lr g = poflr_counter_init i lr g"
| "slot_run (DeleteCounter i) lr g = poflr_counter_delete i lr g"
| "slot_run (ClearCounter i) lr g = poflr_counter_clear i lr g"
| "slot_run (EnablePort i flag) lr g = poflr_port_openflow_enable i flag lr g"
| "slot_run ClearSlot lr g = map_option (\<lambda>(r, lr'). (r, lr', g)) (poflr_clear_resource lr)"

fun cmd_ok :: "slot_cmd \<Rightarrow> bool" where
  "cmd_ok (CreateTable tid type key_len sz name mfn ms) \<longleftrightarrow> mfn \<le> 8 \<and> unat mfn * 8 \<le> length ms"
| "cmd_ok (AddEntry flow) \<longleftrightarrow> flow_fits flow"
| "cmd_ok (ModifyEntry flow) \<longleftrightarrow> flow_fits flow"
| "cmd_ok (DeleteEntry flow) \<longleftrightarrow> 2184 \<le> length flow"
| "cmd_ok (AddGroup msg) \<longleftrightarrow> group_fits msg"
| "cmd_ok (ModifyGroup msg) \<longleftrightarrow> group_fits msg"
| "cmd_ok (DeleteGroup msg) \<longleftrightarrow> group_fits msg"
| "cmd_ok _ \<longleftrightarrow> True"

fun slot_runs :: "slot_cmd list \<Rightarrow> pof_local_resource \<Rightarrow> glob \<Rightarrow> (ret list \<times> pof_local_resource \<times> glob) option" where
  "slot_runs [] lr g = Some ([], lr, g)"
| "slot_runs (c # cs) lr g = do {
     (r, lr1, g1) \<leftarrow> slot_run c lr g;
     (rs, lr2, g2) \<leftarrow> slot_runs cs lr1 g1;
     Some (r # rs, lr2, g2)
   }"

lemma keeps_clear: "slot_ok lr g \<Longrightarrow> chan_ok g \<Longrightarrow> keeps_slot g (slot_run ClearSlot lr g)"
  using clear_resource_ok [of lr g] by (auto simp: keeps_slot_def)

lemma keeps_cmd:
  assumes "slot_ok lr g" "chan_ok g" "cmd_ok c"
  shows "keeps_slot g (slot_run c lr g)"
  using assms(3) keeps_create_table [OF assms(1,2)] keeps_delete_table [OF assms(1,2)] keeps_add_entry [OF assms(1,2)]
    keeps_modify_entry [OF assms(1,2)] keeps_delete_entry [OF assms(1,2)] keeps_meter [OF assms(1,2)] keeps_group [OF assms(1,2)]
    keeps_counter [OF assms(1,2)] keeps_enable_port [OF assms(1,2)] keeps_clear [OF assms(1,2)]
  by (cases c) simp_all

lemma keeps_cmds:
  assumes "slot_ok lr g" "chan_ok g" "\<forall>c \<in> set cs. cmd_ok c"
  shows "\<exists>rs lr' g'. slot_runs cs lr g = Some (rs, lr', g') \<and> length rs = length cs \<and> slot_ok lr' g' \<and> chan_ok g'"
  using assms
proof (induction cs arbitrary: lr g)
  case (Cons c cs)
  have "keeps_slot g (slot_run c lr g)" using keeps_cmd [OF Cons.prems(1,2)] Cons.prems(3) by simp
  then obtain r lr1 g1 where 1: "slot_run c lr g = Some (r, lr1, g1)" "slot_ok lr1 g1" "chan_ok g1"
    by (auto simp: keeps_slot_def split: option.splits)
  obtain rs lr2 g2 where "slot_runs cs lr1 g1 = Some (rs, lr2, g2)" "length rs = length cs" "slot_ok lr2 g2" "chan_ok g2"
    using Cons.IH [OF 1(2,3)] Cons.prems(3) by auto
  then show ?case using 1(1) by simp
qed simp


lemma empty_hmap_wf: "hmap_ok empty_hmap"
  using empty_hmap_ok by (auto simp: tbl_ok_def)

lemma empty_hmap_ptrs: "hmap_ptrs empty_hmap = {}"
  by (simp add: hmap_ptrs_def)

lemma example_slot_ok: "slot_ok example_lr example_glob"
  using empty_hmap_wf
  by (simp add: slot_ok_def port_ok_def gc_ok_def tables_def example_lr_def example_glob_def below_def res_ptrs_def hmap_ptrs_def)

text \<open>An entry message with one match field of eight bits.\<close>

definition field_entry_msg :: bytes where
  "field_entry_msg = replicate 1 0 @ [1] @ replicate 42 0 @ [8] @ replicate 2139 0"

lemma field_entry_msg_fits: "flow_fits field_entry_msg"
proof -
  have "assemble_loop (take 320 (drop 40 field_entry_msg)) (Suc 0) 0 (replicate 128 0) (Some (replicate 128 0)) 0 \<noteq> None" by code_simp
  then show ?thesis by (simp add: flow_fits_def field_entry_msg_def)
qed



end
