(* ===== verification/Pof_Slot_Init.thy ===== *)
theory Pof_Slot_Init
  imports Pof_Slot
begin

text \<open>
  The initialisation of a slot: the ports named on the command line are created, the tables are
  empty and bounded by the parameters of the datapath, and the slot is well formed.
\<close>

section \<open>The ports of a new slot\<close>

text \<open>The names of the list that belong to a slot.\<close>

definition names_of :: "u16 \<Rightarrow> (bytes \<times> u16) list \<Rightarrow> bytes list" where
  "names_of slot pns = map fst (filter (\<lambda>pn. snd pn = slot) pns)"

lemma names_of_simps [simp]:
  "names_of slot [] = []" "names_of slot (pn # pns) = (if snd pn = slot then fst pn # names_of slot pns else names_of slot pns)"
  by (simp_all add: names_of_def)

text \<open>What the loop over the names leaves of the process state.\<close>

definition ports_added :: "nat \<Rightarrow> glob \<Rightarrow> glob \<Rightarrow> bool" where
  "ports_added n g g' \<longleftrightarrow> (\<exists>k. g' = g\<lparr>malloc_n := malloc_n g + n, portIndex := portIndex g + of_nat n, os_n := k\<rparr>)"

lemma ports_added_0: "ports_added 0 g g"
  by (cases g) (simp add: ports_added_def)

lemma ports_added_Suc:
  assumes "ports_added n (g\<lparr>malloc_n := malloc_n g + 1, portIndex := portIndex g + 1, os_n := k\<rparr>) g'"
  shows "ports_added (Suc n) g g'"
  using assms by (auto simp: ports_added_def algebra_simps)

text \<open>The ports that were added: one for each name, with consecutive indices.\<close>

definition ports_new :: "os_view \<Rightarrow> u8 \<Rightarrow> bytes list \<Rightarrow> pof_local_resource \<Rightarrow> bool" where
  "ports_new v i names lr \<longleftrightarrow> (\<forall>j < length names. \<exists>port. ports lr (of_nat (unat i + j)) = Some port
     \<and> port_of v (names ! j) (of_nat (unat i + j)) lr port)"

lemma ports_new_Cons:
  assumes "ports_new v i' names lr" "unat i' = unat i + 1"
    and "ports lr (of_nat (unat i)) = Some port" "port_of v name i lr port"
  shows "ports_new v i (name # names) lr"
  unfolding ports_new_def
proof (intro allI impI)
  fix j assume "j < length (name # names)"
  then show "\<exists>port. ports lr (of_nat (unat i + j)) = Some port \<and> port_of v ((name # names) ! j) (of_nat (unat i + j)) lr port"
    using assms by (cases j) (auto simp: ports_new_def)
qed

lemma port_of_slot: "slotID l' = slotID l \<Longrightarrow> port_of v name i l' = port_of v name i l"
  by (simp add: port_of_def fun_eq_iff)

lemma but_ports_slot: "but_ports l' = but_ports l \<Longrightarrow> slotID l' = slotID l"
  by (cases l, cases l') (simp add: but_ports_def)

lemma of_nat_index: "k < 256 \<Longrightarrow> (of_nat k :: u32) = ucast (i :: u8) \<longleftrightarrow> k = unat i"
  by (auto simp: word_unat_eq_iff unat_of_nat take_bit_eq_mod unsigned_ucast_eq)

lemma add_ports_ok:
  assumes "port_ok lr" "below (malloc_n g) (res_ptrs (portPofIndexMap lr))" "chan_ok g" "\<forall>t. os g t = v"
    and "\<forall>name \<in> set (names_of (slotID lr) pns). os_knows v name \<and> named lr (map_portHashByName name) = []"
    and "distinct (map map_portHashByName (names_of (slotID lr) pns))"
    and "unat (portIndex g) + length (names_of (slotID lr) pns) < 256"
    and "\<forall>i. unat (portIndex g) \<le> i \<and> i < 256 \<longrightarrow> ports lr (of_nat i) = None"
  shows "\<exists>lr' g'. add_ports pns lr g = Some (POF_OK, lr', g') \<and> port_ok lr' \<and> below (malloc_n g') (res_ptrs (portPofIndexMap lr'))
    \<and> chan_ok g' \<and> ports_added (length (names_of (slotID lr) pns)) g g' \<and> but_ports lr' = but_ports lr
    \<and> portNum lr' = portNum lr + of_nat (length (names_of (slotID lr) pns))
    \<and> ports_new v (portIndex g) (names_of (slotID lr) pns) lr'
    \<and> (\<forall>k < unat (portIndex g). ports lr' (of_nat k) = ports lr (of_nat k))"
  using assms
proof (induction pns arbitrary: lr g)
  case Nil
  then show ?case by (simp add: ports_added_0 ports_new_def)
next
  case (Cons pn pns)
  show ?case
  proof (cases "snd pn = slotID lr")
    case False
    then show ?thesis using Cons.IH [OF Cons.prems(1-4)] Cons.prems(5-) by simp
  next
    case True
    let ?h = "map_portHashByName (fst pn)"
    let ?i = "unat (portIndex g)"
    have free: "os_knows v (fst pn)" "named lr ?h = []" "?i < 255" using Cons.prems(5,7) True by auto
    then have none: "ports lr (ucast (portIndex g)) = None" using Cons.prems(8) [rule_format, of ?i] by simp
    obtain n lr1 g1 where 1: "port_new (fst pn) lr g = Some (POF_OK, Some (hn_ptr n, hn_obj n), lr1, g1)" "port_ok lr1"
      "port_of v (fst pn) (portIndex g) lr (hn_obj n)" "ports lr1 = (ports lr)(ucast (portIndex g) \<mapsto> hn_obj n)"
      "portNum lr1 = portNum lr + 1" "but_ports lr1 = but_ports lr" "named lr1 = (named lr)(?h := [hn_ptr n])" "chan_ok g1" "os g1 = os g"
      "res_ptrs (portPofIndexMap lr1) = insert (malloc_n g + 1) (res_ptrs (portPofIndexMap lr))"
      "node_in lr1 n"
      and g1: "g1 = g\<lparr>malloc_n := malloc_n g + 1, portIndex := portIndex g + 1, os_n := os_n g1\<rparr>"
      using port_new_ok [OF Cons.prems(1-4) free(1,2) none] by blast
    have slot: "slotID lr1 = slotID lr" by (rule but_ports_slot [OF 1(6)])
    obtain k where g1: "g1 = g\<lparr>malloc_n := malloc_n g + 1, portIndex := portIndex g + 1, os_n := k\<rparr>" using g1 ..
    have idx: "unat (portIndex g1) = ?i + 1" using free(3) by (simp add: g1 unat_word_ariths)
    have b: "below (malloc_n g1) (res_ptrs (portPofIndexMap lr1))" using Cons.prems(2) by (auto simp: 1(10) g1 below_def)
    have nm: "\<forall>name \<in> set (names_of (slotID lr1) pns). os_knows v name \<and> named lr1 (map_portHashByName name) = []"
      using Cons.prems(5,6) True by (auto simp: 1(7) slot) (metis image_eqI)
    have fr: "\<forall>i. unat (portIndex g1) \<le> i \<and> i < 256 \<longrightarrow> ports lr1 (of_nat i) = None"
      using Cons.prems(8) by (auto simp: 1(4) idx of_nat_index)
    obtain lr' g' where 2: "add_ports pns lr1 g1 = Some (POF_OK, lr', g')" "port_ok lr'" "below (malloc_n g') (res_ptrs (portPofIndexMap lr'))"
      "chan_ok g'" "ports_added (length (names_of (slotID lr) pns)) g1 g'" "but_ports lr' = but_ports lr1"
      "portNum lr' = portNum lr1 + of_nat (length (names_of (slotID lr) pns))"
      "ports_new v (portIndex g1) (names_of (slotID lr) pns) lr'" "\<forall>k < ?i + 1. ports lr' (of_nat k) = ports lr1 (of_nat k)"
      using Cons.IH [OF 1(2) b 1(8) _ nm _ _ fr] Cons.prems(4,6,7) True 1(9) by (auto simp: slot idx)
    have slot': "slotID lr' = slotID lr" using but_ports_slot [OF 2(6)] slot by simp
    have p: "ports lr' (of_nat ?i) = Some (hn_obj n)" using 2(9) [rule_format, of ?i] by (simp add: 1(4))
    have new: "ports_new v (portIndex g) (fst pn # names_of (slotID lr) pns) lr'"
      by (rule ports_new_Cons [OF 2(8) idx p]) (use 1(3) port_of_slot [OF slot'] in simp)
    have old: "\<forall>k < ?i. ports lr' (of_nat k) = ports lr (of_nat k)"
      using 2(9) free(3) by (auto simp: 1(4) of_nat_index)
    have "add_ports (pn # pns) lr g = Some (POF_OK, lr', g')"
      using True 1(1) 2(1) by (simp add: poflr_add_port_no_report_no_task_def)
    then show ?thesis
      using True 2 1(5,6) new old ports_added_Suc [of "length (names_of (slotID lr) pns)" k g g'] by (simp add: g1)
  qed
qed

section \<open>The tables of a new slot\<close>

text \<open>A slot right after \<open>fill_localresource_param\<close>: the limits of the parameters, and nothing else.\<close>

definition blank :: "u16 \<Rightarrow> pof_param \<Rightarrow> pof_local_resource" where
  "blank slot param = zero_lr\<lparr>slotID := slot, portNumMax := pm_portNumMax param, portFlag := pm_portFlag param,
     tableNumMaxEachType := take 4 (pm_tableNumMaxEachType param), tableSizeMax := pm_tableSizeMax param,
     groupNumMax := pm_groupNumMax param, meterNumMax := pm_meterNumMax param, counterNumMax := pm_counterNumMax param\<rparr>"

lemma fill_blank:
  "4 \<le> length (pm_tableNumMaxEachType param) \<Longrightarrow> fill_localresource_param param (zero_lr\<lparr>slotID := slot\<rparr>) = Some (blank slot param)"
  by (simp add: fill_localresource_param_def blank_def)

lemma mem_write_some: "off + length d \<le> length bs \<Longrightarrow> \<exists>bs'. mem_write bs off d = Some bs' \<and> length bs' = length bs"
  by (simp add: mem_write_def)

lemma desc_types_some:
  assumes "length (tableNumMaxEachType lr) = 4" "length (poflr_key_len_each_type g) = 4" "\<forall>i \<in> set is. i < 4" "length desc = 80"
  shows "\<exists>d. desc_types is lr g desc = Some d \<and> length d = 80"
  using assms(3,4)
proof (induction "is" arbitrary: desc)
  case (Cons i "is")
  let ?d = "le_bytes 4 (g_poflr_dev_id g) @ [of_nat i, ucast (tableNumMaxEachType lr ! i)]
    @ le_bytes 2 (poflr_key_len_each_type g ! i) @ le_bytes 4 (tableSizeMax lr)"
  have "16 + 16 * i + length ?d \<le> length desc" using Cons.prems by simp
  then obtain d where d: "mem_write desc (16 + 16 * i) ?d = Some d" "length d = 80"
    using mem_write_some [of "16 + 16 * i" ?d desc] Cons.prems(2) by metis
  have "desc_types (i # is) lr g desc = desc_types is lr g d" using d(1) Cons.prems assms(1,2) by (simp add: rd_Some)
  then show ?case using Cons.IH [OF _ d(2)] Cons.prems(1) by simp
qed simp

lemma init_desc_ok:
  assumes "length (tableNumMaxEachType lr) = 4" "length (poflr_key_len_each_type g) = 4" "length (poflr_table_resource_desc g) = 80"
  shows "\<exists>d. init_table_desc lr g = Some (g\<lparr>poflr_table_resource_desc := d\<rparr>) \<and> length d = 80"
proof -
  obtain d1 where 1: "desc_types [0, 1, 2, 3] lr g (poflr_table_resource_desc g) = Some d1" "length d1 = 80"
    using desc_types_some [OF assms(1,2), of "[0, 1, 2, 3]", OF _ assms(3)] by auto
  obtain d2 where 2: "mem_write d1 4 (le_bytes 4 (counterNumMax lr) @ le_bytes 4 (meterNumMax lr) @ le_bytes 4 (groupNumMax lr)) = Some d2" "length d2 = 80"
    using mem_write_some [of 4 "le_bytes 4 (counterNumMax lr) @ le_bytes 4 (meterNumMax lr) @ le_bytes 4 (groupNumMax lr)" d1] 1(2) by auto
  obtain d3 where 3: "mem_write d2 2 (le_bytes 2 (slotID lr)) = Some d3" "length d3 = 80"
    using mem_write_some [of 2 "le_bytes 2 (slotID lr)" d2] 2(2) by auto
  show ?thesis using 1(1) 2(1) 3 by (intro exI [of _ d3]) (simp add: init_table_desc_def del: desc_types.simps)
qed

lemma create_next:
  assumes "no_alloc_failure g" "malloc_n g \<le> n" "k = n + 2"
  shows "\<exists>m :: 'a hmap. hmap_create sz (g\<lparr>malloc_n := n\<rparr>) = (Some m, g\<lparr>malloc_n := k\<rparr>) \<and> hmap_ok m \<and> hmap_nodes m = []"
  using hmap_create_alloc [OF no_alloc_later [OF assms(1,2)], of sz] by (simp add: assms(3))

text \<open>The four maps of the resource are created one after the other.\<close>

lemma init_tables_ok:
  assumes "no_alloc_failure g" "length (tableNumMaxEachType lr) = 4" "length (poflr_table_resource_desc g) = 80"
  shows "\<exists>tm gm mm cm d. poflr_init_table_resource lr g = Some (POF_OK,
      lr\<lparr>tableNumMax := sum_list (tableNumMaxEachType lr), tableIdMap := Some tm, groupMap := Some gm, meterMap := Some mm, counterMap := Some cm\<rparr>,
      g\<lparr>poflr_key_len_each_type := replicate 4 (ucast (poflr_key_len g)), malloc_n := malloc_n g + 8, poflr_table_resource_desc := d\<rparr>)
    \<and> length d = 80 \<and> hmap_ok tm \<and> hmap_nodes tm = [] \<and> hmap_ok gm \<and> hmap_nodes gm = [] \<and> hmap_ok mm \<and> hmap_nodes mm = []
    \<and> hmap_ok cm \<and> hmap_nodes cm = []"
proof -
  let ?g1 = "g\<lparr>poflr_key_len_each_type := replicate 4 (ucast (poflr_key_len g))\<rparr>"
  let ?m = "\<lambda>n. ?g1\<lparr>malloc_n := malloc_n g + n\<rparr>"
  have al: "no_alloc_failure ?g1" using assms(1) by (simp add: no_alloc_failure_def)
  have g1: "?g1 = ?m 0" by (cases g) simp
  obtain tm :: "tableInfo hmap" where tm: "hmap_create (ucast (sum_list (tableNumMaxEachType lr))) (?m 0) = (Some tm, ?m 2)" "hmap_ok tm" "hmap_nodes tm = []"
    using create_next [OF al, of "malloc_n g + 0" "malloc_n g + 2", where 'a = tableInfo] by auto
  obtain gm :: "groupInfo hmap" where gm: "hmap_create (groupNumMax lr) (?m 2) = (Some gm, ?m 4)" "hmap_ok gm" "hmap_nodes gm = []"
    using create_next [OF al, of "malloc_n g + 2" "malloc_n g + 4", where 'a = groupInfo] by auto
  obtain mm :: "meterInfo hmap" where mm: "hmap_create (meterNumMax lr) (?m 4) = (Some mm, ?m 6)" "hmap_ok mm" "hmap_nodes mm = []"
    using create_next [OF al, of "malloc_n g + 4" "malloc_n g + 6", where 'a = meterInfo] by auto
  obtain cm :: "counterInfo hmap" where cm: "hmap_create (counterNumMax lr) (?m 6) = (Some cm, ?m 8)" "hmap_ok cm" "hmap_nodes cm = []"
    using create_next [OF al, of "malloc_n g + 6" "malloc_n g + 8", where 'a = counterInfo] by auto
  let ?lr = "lr\<lparr>tableNumMax := sum_list (tableNumMaxEachType lr), tableIdMap := Some tm, groupMap := Some gm, meterMap := Some mm, counterMap := Some cm\<rparr>"
  obtain d where d: "init_table_desc ?lr (?m 8) = Some ((?m 8)\<lparr>poflr_table_resource_desc := d\<rparr>)" "length d = 80"
    using init_desc_ok [of ?lr "?m 8"] assms(2,3) by auto
  have "poflr_init_table_resource lr g = Some (POF_OK, ?lr, (?m 8)\<lparr>poflr_table_resource_desc := d\<rparr>)"
    using tm(1) gm(1) mm(1) cm(1) d(1) assms(2) g1
    by (simp add: poflr_init_table_resource_def poflr_init_flow_table_def poflr_init_group_def poflr_init_meter_def poflr_init_counter_def)
  then show ?thesis using tm gm mm cm d(2) by blast
qed

section \<open>A new slot\<close>

text \<open>The names given for a slot are interfaces of the system with different name hashes, and there are indices for them.\<close>

definition names_ok :: "os_view \<Rightarrow> u8 \<Rightarrow> bytes list \<Rightarrow> bool" where
  "names_ok v i names \<longleftrightarrow> (\<forall>name \<in> set names. os_knows v name) \<and> distinct (map map_portHashByName names)
     \<and> unat i + length names < 256"

lemma empty_ports_ok:
  assumes "hmap_ok im" "hmap_nodes im = []" "hmap_ok nm" "hmap_nodes nm = []" "portNum lr = 0"
  shows "port_ok (lr\<lparr>portPofIndexMap := Some im, portNameMap := Some nm\<rparr>)"
    "named (lr\<lparr>portPofIndexMap := Some im, portNameMap := Some nm\<rparr>) = (\<lambda>_. [])"
    "ports (lr\<lparr>portPofIndexMap := Some im, portNameMap := Some nm\<rparr>) = (\<lambda>_. None)"
    "res_ptrs (Some im) = {}"
  using assms by (simp_all add: port_ok_def res_ok_def tbl_ok_def res_ptrs_def hmap_ptrs_def named_def hmap_chain_def
      res_abs_def tbl_abs_def fun_eq_iff)

lemma init_port_ok:
  assumes "chan_ok g" "\<forall>t. os g t = v" "portNum lr = 0" "bit (portFlag lr) 0 \<or> slotID lr \<noteq> 0"
    and "names_ok v (portIndex g) (names_of (slotID lr) (portNameList g))"
  shows "\<exists>lr' g'. poflr_init_port lr g = Some (POF_OK, lr', g') \<and> port_ok lr' \<and> below (malloc_n g') (res_ptrs (portPofIndexMap lr'))
    \<and> chan_ok g' \<and> but_ports lr' = but_ports lr \<and> portNum lr' = of_nat (length (names_of (slotID lr) (portNameList g)))
    \<and> ports_new v (portIndex g) (names_of (slotID lr) (portNameList g)) lr'
    \<and> ports_added (length (names_of (slotID lr) (portNameList g))) (g\<lparr>malloc_n := malloc_n g + 4\<rparr>) g'"
proof -
  let ?names = "names_of (slotID lr) (portNameList g)"
  have al: "no_alloc_failure g" by (rule chan_ok_alloc [OF assms(1)])
  obtain im :: "portInfo hmap" where im: "hmap_create (ucast (portNumMax lr)) g = (Some im, g\<lparr>malloc_n := malloc_n g + 2\<rparr>)" "hmap_ok im" "hmap_nodes im = []"
    using hmap_create_alloc [OF al, where 'a = portInfo] by blast
  obtain nm :: "unit hmap" where nm: "hmap_create (ucast (portNumMax lr)) (g\<lparr>malloc_n := malloc_n g + 2\<rparr>) = (Some nm, g\<lparr>malloc_n := malloc_n g + 4\<rparr>)" "hmap_ok nm" "hmap_nodes nm = []"
    using create_next [OF al, of "malloc_n g + 2" "malloc_n g + 4", where 'a = unit] by auto
  let ?lr = "lr\<lparr>portPofIndexMap := Some im, portNameMap := Some nm\<rparr>"
  let ?g = "g\<lparr>malloc_n := malloc_n g + 4\<rparr>"
  note e = empty_ports_ok [OF im(2,3) nm(2,3) assms(3)]
  have "below (malloc_n ?g) (res_ptrs (portPofIndexMap ?lr))" "chan_ok ?g" "\<forall>t. os ?g t = v"
    using e(4) chan_ok_later [OF assms(1)] assms(2) by (simp_all add: below_def)
  then have "\<exists>lr' g'. add_ports (portNameList g) ?lr ?g = Some (POF_OK, lr', g') \<and> port_ok lr' \<and> below (malloc_n g') (res_ptrs (portPofIndexMap lr'))
    \<and> chan_ok g' \<and> ports_added (length ?names) ?g g' \<and> but_ports lr' = but_ports ?lr \<and> portNum lr' = portNum ?lr + of_nat (length ?names)
    \<and> ports_new v (portIndex ?g) ?names lr' \<and> (\<forall>k < unat (portIndex ?g). ports lr' (of_nat k) = ports ?lr (of_nat k))"
    using add_ports_ok [OF e(1), of ?g v "portNameList g"] e(2,3) assms(5) by (simp add: names_ok_def)
  then obtain lr' g' where l: "add_ports (portNameList g) ?lr ?g = Some (POF_OK, lr', g')" "port_ok lr'" "below (malloc_n g') (res_ptrs (portPofIndexMap lr'))"
    "chan_ok g'" "ports_added (length ?names) ?g g'" "but_ports lr' = but_ports ?lr" "portNum lr' = portNum ?lr + of_nat (length ?names)"
    "ports_new v (portIndex ?g) ?names lr'" by blast
  have "poflr_init_port lr g = Some (POF_OK, lr', g')"
    using im(1) nm(1) l(1) assms(4) by (auto simp: poflr_init_port_def Let_def)
  moreover have "but_ports ?lr = but_ports lr" by (simp add: but_ports_def)
  ultimately show ?thesis using l assms(3) by (intro exI [of _ lr'] exI [of _ g']) simp
qed

lemma ports_new_disabled:
  assumes "ports_new v i names l" "ports l' = (\<lambda>k. map_option (\<lambda>i. i\<lparr>pi_of_enable := 0\<rparr>) (ports l k))" "slotID l' = slotID l"
  shows "ports_new v i names l'"
  using assms by (fastforce simp: ports_new_def port_of_def)

lemma empty_map_ok:
  assumes "hmap_ok m" "hmap_nodes m = []"
  shows "res_ok key (Some m) 0" "res_abs (Some m) = (\<lambda>_. None)" "res_ptrs (Some m) = {}"
  using assms by (simp_all add: res_ok_def tbl_ok_def res_abs_def tbl_abs_def hmap_chain_def res_ptrs_def hmap_ptrs_def fun_eq_iff)

lemma unat_ucast_le: "unat (ucast (k :: u32) :: u16) \<le> unat k"
  by (simp add: unsigned_ucast_eq take_bit_eq_mod)

text \<open>What a new slot of a number and with parameters holds.\<close>

definition new_slot :: "os_view \<Rightarrow> u8 \<Rightarrow> bytes list \<Rightarrow> u16 \<Rightarrow> pof_param \<Rightarrow> pof_local_resource \<Rightarrow> bool" where
  "new_slot v i names slot param lr \<longleftrightarrow> tables lr = (\<lambda>_. None) \<and> groups lr = (\<lambda>_. None) \<and> meters lr = (\<lambda>_. None) \<and> counters lr = (\<lambda>_. None)
     \<and> portNum lr = of_nat (length names) \<and> ports_new v i names lr
     \<and> slotID lr = slot \<and> portNumMax lr = pm_portNumMax param \<and> tableNumMaxEachType lr = take 4 (pm_tableNumMaxEachType param)
     \<and> tableNumMax lr = sum_list (take 4 (pm_tableNumMaxEachType param)) \<and> tableSizeMax lr = pm_tableSizeMax param
     \<and> groupNumMax lr = pm_groupNumMax param \<and> meterNumMax lr = pm_meterNumMax param \<and> counterNumMax lr = pm_counterNumMax param"

lemma localresource_init_ok:
  assumes "chan_ok g" "\<forall>t. os g t = v" "4 \<le> length (pm_tableNumMaxEachType param)"
    and "length (poflr_table_resource_desc g) = 80" "unat (poflr_key_len g) \<le> 1024" "bit (pm_portFlag param) 0 \<or> slot \<noteq> 0"
    and "names_ok v (portIndex g) (names_of slot (portNameList g))"
  shows "\<exists>lr' g'. pof_localresource_init (blank slot param) g = Some (POF_OK, lr', g') \<and> slot_ok lr' g' \<and> chan_ok g'
    \<and> new_slot v (portIndex g) (names_of slot (portNameList g)) slot param lr'"
proof -
  let ?lr = "blank slot param"
  let ?names = "names_of slot (portNameList g)"
  have z: "portNum ?lr = 0" "slotID ?lr = slot" "portFlag ?lr = pm_portFlag param" by (simp_all add: blank_def zero_lr_def)
  obtain l1 g1 where 1: "poflr_init_port ?lr g = Some (POF_OK, l1, g1)" "port_ok l1" "below (malloc_n g1) (res_ptrs (portPofIndexMap l1))"
    "chan_ok g1" "but_ports l1 = but_ports ?lr" "portNum l1 = of_nat (length ?names)" "ports_new v (portIndex g) ?names l1"
    "ports_added (length ?names) (g\<lparr>malloc_n := malloc_n g + 4\<rparr>) g1"
    using init_port_ok [OF assms(1,2) z(1)] assms(6,7) z(2,3) by auto
  obtain l2 where 2: "poflr_disable_all_port l1 = Some (POF_OK, l2)" "port_ok l2" "but_ports l2 = but_ports l1"
    "res_ptrs (portPofIndexMap l2) = res_ptrs (portPofIndexMap l1)" "ports l2 = (\<lambda>k. map_option (\<lambda>i. i\<lparr>pi_of_enable := 0\<rparr>) (ports l1 k))"
    and num: "portNum l2 = portNum l1" using disable_all_ok [OF 1(2)] by blast
  have b2: "but_ports l2 = but_ports ?lr" using 2(3) 1(5) by simp
  have sel: "slotID l2 = slot" "portNumMax l2 = pm_portNumMax param" "tableNumMaxEachType l2 = take 4 (pm_tableNumMaxEachType param)"
    "tableSizeMax l2 = pm_tableSizeMax param" "groupNumMax l2 = pm_groupNumMax param" "meterNumMax l2 = pm_meterNumMax param"
    "counterNumMax l2 = pm_counterNumMax param" "tableNum l2 = 0" "groupNum l2 = 0" "meterNum l2 = 0" "counterNum l2 = 0"
    using b2 by (cases l2, simp add: but_ports_def blank_def zero_lr_def)+
  have desc: "length (poflr_table_resource_desc g1) = 80" "poflr_key_len g1 = poflr_key_len g" using 1(8) assms(4) by (auto simp: ports_added_def)
  obtain tm gm mm cm d where 3: "poflr_init_table_resource l2 g1 = Some (POF_OK,
      l2\<lparr>tableNumMax := sum_list (tableNumMaxEachType l2), tableIdMap := Some tm, groupMap := Some gm, meterMap := Some mm, counterMap := Some cm\<rparr>,
      g1\<lparr>poflr_key_len_each_type := replicate 4 (ucast (poflr_key_len g1)), malloc_n := malloc_n g1 + 8, poflr_table_resource_desc := d\<rparr>)"
    "hmap_ok tm" "hmap_nodes tm = []" "hmap_ok gm" "hmap_nodes gm = []" "hmap_ok mm" "hmap_nodes mm = []" "hmap_ok cm" "hmap_nodes cm = []"
    using init_tables_ok [OF chan_ok_alloc [OF 1(4)], of l2] sel(3) assms(3) desc(1) by auto
  define l3 where "l3 = l2\<lparr>tableNumMax := sum_list (tableNumMaxEachType l2), tableIdMap := Some tm, groupMap := Some gm, meterMap := Some mm, counterMap := Some cm\<rparr>"
  define g3 where "g3 = g1\<lparr>poflr_key_len_each_type := replicate 4 (ucast (poflr_key_len g1)), malloc_n := malloc_n g1 + 8, poflr_table_resource_desc := d\<rparr>"
  have run: "pof_localresource_init ?lr g = Some (POF_OK, l3, g3)"
    using 1(1) 2(1) 3(1) by (simp add: pof_localresource_init_def l3_def g3_def)
  have s3: "portPofIndexMap l3 = portPofIndexMap l2" "portNameMap l3 = portNameMap l2" "portNum l3 = portNum l2" "slotID l3 = slotID l2"
    "tableIdMap l3 = Some tm" "groupMap l3 = Some gm" "meterMap l3 = Some mm" "counterMap l3 = Some cm" "tableNum l3 = 0" "groupNum l3 = 0"
    "meterNum l3 = 0" "counterNum l3 = 0" by (simp_all add: l3_def sel)
  have p3: "port_ok l3" using port_ok_cong [of l3 l2] s3(1-3) 2(2) by simp
  have b3: "below (malloc_n g3) (res_ptrs (portPofIndexMap l3))" using 1(3) 2(4) s3(1) below_mono [of "malloc_n g1" _ "malloc_n g1 + 8"] by (simp add: g3_def)
  have k3: "unat (ucast (poflr_key_len g1) :: u16) \<le> 1024" using unat_ucast_le [of "poflr_key_len g"] assms(5) desc(2) by simp
  have "slot_ok l3 g3" using p3 b3 k3 s3 sel(3) assms(3)
    by (simp add: empty_map_ok 3(2-9) slot_ok_def gc_ok_def tables_def below_def g3_def l3_def)
  moreover have "chan_ok g3" using chan_ok_later [OF 1(4), of "malloc_n g1 + 8"] by (simp add: chan_ok_def g3_def)
  moreover have "ports_new v (portIndex g) ?names l3"
  proof (rule ports_new_disabled [OF 1(7)])
    show "ports l3 = (\<lambda>k. map_option (\<lambda>i. i\<lparr>pi_of_enable := 0\<rparr>) (ports l1 k))" using 2(5) s3(1) by simp
    show "slotID l3 = slotID l1" using but_ports_slot [OF 2(3)] s3(4) by simp
  qed
  ultimately show ?thesis using run num 1(6) sel s3
    by (intro exI [of _ l3] exI [of _ g3]) (simp add: empty_map_ok 3(2-9) new_slot_def tables_def l3_def fun_eq_iff)
qed



end
