(* ===== verification/Pof_Start.thy ===== *)
theory Pof_Start
  imports Pof_Config_File Pof_Slot_Init Pof_Switch
begin

text \<open>
  Starting and ending the process: the initial values of the global variables, the queue and the
  timer of \<^verbatim>\<open>common/pof_basefunc.c\<close>, and \<^verbatim>\<open>pofsc_init\<close>, \<^verbatim>\<open>pofsc_destroy\<close>, \<^verbatim>\<open>terminate_handler\<close>
  and \<^verbatim>\<open>main\<close> of \<^verbatim>\<open>switch_control/pof_switch.c\<close>. What the tasks do is the subject of the other
  theories; here they are created and cancelled.
\<close>

section \<open>Initial values\<close>

text \<open>The options of the build: debugging, colours, printing of echo messages, promiscuous mode.\<close>

record build =
  POF_DEBUG_ON :: bool
  POF_DEBUG_COLOR_ON :: bool
  POF_DEBUG_PRINT_ECHO_ON :: bool
  POF_PROMISC_ON :: bool

definition text64 :: "string \<Rightarrow> bytes" where
  "text64 s = asc s @ replicate (64 - length s) 0"

definition on_off :: "bool \<Rightarrow> bytes" where
  "on_off b = text64 (if b then ''ON'' else ''OFF'')"

definition g_states :: "build \<Rightarrow> pof_state" where
  "g_states b = \<lparr>st_devID = text64 '''', st_version = text64 '''', st_os_bit = text64 ''64'',
     st_byte_order = text64 ''LITTLE ENDIAN'', st_debug_on = on_off (POF_DEBUG_ON b), st_debug_color_on = on_off (POF_DEBUG_COLOR_ON b),
     st_debug_print_echo_on = on_off (POF_DEBUG_PRINT_ECHO_ON b), st_error_print_on = on_off True, st_config_file = text64 ''NONE'',
     st_perform_after_ctrl_disconn = text64 ''RE CONNECT'', st_nomatch = text64 ''PACKET IN'', st_promisc_on = on_off (POF_PROMISC_ON b),
     st_ctrl_ip = text64 ''192.168.1.1'', st_conn_port = text64 ''6633'', st_autoclear_after_disconn = on_off True,
     st_log_file = text64 ''OFF'', st_verbosity = text64 (if POF_DEBUG_ON b then ''DEBUG'' else ''ERROR''),
     st_port_mode = text64 ''SYSTEM'', st_slotNum = text64 ''1'', st_listenPort = text64 ''6634'', st_sd2n = on_off True,
     st_sd2n_after1015 = on_off True, st_multiSlot = on_off True, st_sht_vxlan = on_off False\<rparr>"

definition g_log :: "build \<Rightarrow> log_util" where
  "g_log b = \<lparr>lg_file = None, lg_colorEnable = POF_DEBUG_COLOR_ON b, lg_dbgEnable = POF_DEBUG_ON b, lg_cmdEnable = True, lg_errEnable = True\<rparr>"

definition g_dp :: "build \<Rightarrow> pof_datapath" where
  "g_dp b = \<lparr>dp_filter = (if POF_PROMISC_ON b then pofdp_promisc else pofdp_no_promisc),
     dp_param = \<lparr>pm_portNumMax = 100, pm_portFlag = 0, pm_tableNumMaxEachType = [10, 10, 5, 20], pm_tableSizeMax = 8000,
       pm_groupNumMax = 128, pm_meterNumMax = 256, pm_counterNumMax = 512\<rparr>,
     slotMap = None, slotNum = 1, slotMax = 16, listenIP = asc ''127.0.0.1'' @ replicate 11 0, listenPort = 6634, pktCount = 0\<rparr>"

definition init_config :: "build \<Rightarrow> config" where
  "init_config b = \<lparr>cf_states = g_states b, cf_log = g_log b,
     pofsc_controller_ip_addr = asc ''192.168.1.1'' @ replicate 9 0, pofsc_controller_port = 6633\<rparr>"

text \<open>
  The rest of the globals: what \<^verbatim>\<open>pofsc_set_conn_attr\<close> stores, the task and timer ids (0 is the
  invalid id) and the flag of \<^verbatim>\<open>terminate_handler\<close>.
\<close>

record proc =
  pr_conf :: config
  pr_conn :: conn
  pr_dp :: pof_datapath
  pr_g :: glob
  controller_ip :: bytes
  controller_port :: u16
  conn_retry_max :: u32
  conn_retry_interval :: u32
  echo_interval :: u32
  pofsc_main_task_id :: u64
  pofsc_send_task_id :: u64
  pofsc_listen_task_id :: u64
  pofsc_echo_timer_id :: u32
  pofsc_terminate_flag :: bool

section \<open>Queue and timer\<close>

definition pofbf_queue_create :: "glob \<Rightarrow> ret \<times> glob" where
  "pofbf_queue_create g = (case sys os_msgget g of (ok, g1) \<Rightarrow>
     if \<not> ok then err_no_upward POFET_SOFTWARE_FAILED (SoftE POF_QUEUE_CREATE_FAIL) (g1\<lparr>send_q_valid := False\<rparr>)
     else (POF_OK, g1\<lparr>send_q_valid := True\<rparr>))"

definition pofbf_queue_delete :: "glob \<Rightarrow> ret \<times> glob" where
  "pofbf_queue_delete g = (
     if \<not> send_q_valid g then err_no_upward POFET_SOFTWARE_FAILED (SoftE POF_QUEUE_DELETE_FAIL) g
     else case sys os_msgctl g of (ok, g1) \<Rightarrow>
       if \<not> ok then err_no_upward POFET_SOFTWARE_FAILED (SoftE POF_QUEUE_DELETE_FAIL) g1
       else (POF_OK, g1\<lparr>send_q_valid := False\<rparr>))"

text \<open>The timer routines give the new content of the timer id.\<close>

definition pofbf_timer_create :: "u32 \<Rightarrow> glob \<Rightarrow> ret \<times> u32 \<times> glob" where
  "pofbf_timer_create tid g = (case sys os_signal g of (ok, g1) \<Rightarrow>
     if \<not> ok then (case err_no_upward POFET_SOFTWARE_FAILED (SoftE POF_TIMER_CREATE_FAIL) g1 of (r, g2) \<Rightarrow> (r, tid, g2))
     else case sys os_setitimer g1 of (ok, g2) \<Rightarrow>
       if \<not> ok then (case err_no_upward POFET_SOFTWARE_FAILED (SoftE POF_TIMER_CREATE_FAIL) g2 of (r, g3) \<Rightarrow> (r, tid, g3))
       else (POF_OK, 1, g2))"

definition pofbf_timer_delete :: "u32 \<Rightarrow> glob \<Rightarrow> ret \<times> u32 \<times> glob" where
  "pofbf_timer_delete tid g = (
     let fail = (\<lambda>g. case err_no_upward POFET_SOFTWARE_FAILED (SoftE POF_TIMER_DELETE_FAIL) g of (r, g') \<Rightarrow> (r, tid, g')) in
     if tid = 0 then fail g
     else case sys os_setitimer g of (ok, g1) \<Rightarrow>
       if \<not> ok then fail g1
       else case sys os_signal g1 of (ok, g2) \<Rightarrow>
         if \<not> ok then fail g2 else (POF_OK, 0, g2))"

section \<open>Start of the communication module\<close>

text \<open>
  The connection description is cleared first. An address without terminating zero makes \<^verbatim>\<open>strlen\<close>
  read behind its array.
\<close>

definition pofsc_set_conn_attr :: "bytes \<Rightarrow> u16 \<Rightarrow> u32 \<Rightarrow> u32 \<Rightarrow> proc \<Rightarrow> proc option" where
  "pofsc_set_conn_attr ip port retry_max retry_interval s = (
     if 0 \<notin> set ip \<or> 20 < length (c_str ip) then None
     else Some (s\<lparr>pr_conn := (pr_conn s)\<lparr>cn_sfd := 0, cn_send_buf := replicate 2560 0, cn_recv_buf := replicate 2560 0,
              cn_msg_buf := replicate 2560 0, cn_retry_count := 0, cn_last_error := 0, cn_last_echo_time := 0\<rparr>,
            pr_g := (pr_g s)\<lparr>conn_state := POFCS_CHANNEL_INVALID, local_port_index := 0\<rparr>,
            controller_ip := c_str ip @ replicate (20 - length (c_str ip)) 0, controller_port := port,
            conn_retry_max := retry_max, conn_retry_interval := retry_interval, echo_interval := 2000\<rparr>))"

text \<open>Creating one task: the id is stored whether or not it is valid.\<close>

definition create_task :: "(u64 \<Rightarrow> proc \<Rightarrow> proc) \<Rightarrow> proc \<Rightarrow> ret \<times> proc" where
  "create_task store s = (case pofbf_task_create (pr_g s) of (r, tid, g) \<Rightarrow> (r, store tid (s\<lparr>pr_g := g\<rparr>)))"

definition pofsc_init :: "proc \<Rightarrow> (ret \<times> proc) option" where
  "pofsc_init s = do {
     let g1 = snd (sys os_signal (snd (sys os_signal (snd (sys os_signal (pr_g s))))));
     s2 \<leftarrow> pofsc_set_conn_attr (pofsc_controller_ip_addr (pr_conf s)) (pofsc_controller_port (pr_conf s)) 0xffffffff 2 (s\<lparr>pr_g := g1\<rparr>);
     Some (case pofbf_queue_create (pr_g s2) of (r3, g3) \<Rightarrow>
       let s3 = s2\<lparr>pr_g := g3\<rparr> in
       if r3 \<noteq> POF_OK then (POF_ERROR, s3)
       else case create_task (\<lambda>t. pofsc_main_task_id_update (\<lambda>_. t)) s3 of (r4, s4) \<Rightarrow>
         if r4 \<noteq> POF_OK then (POF_ERROR, s4)
         else case create_task (\<lambda>t. pofsc_send_task_id_update (\<lambda>_. t)) s4 of (r5, s5) \<Rightarrow>
           if r5 \<noteq> POF_OK then (POF_ERROR, s5)
           else case create_task (\<lambda>t. pofsc_listen_task_id_update (\<lambda>_. t)) s5 of (r6, s6) \<Rightarrow>
             if r6 \<noteq> POF_OK then (POF_ERROR, s6)
             else case pofbf_timer_create (pofsc_echo_timer_id s6) (pr_g s6) of (r7, tid, g7) \<Rightarrow>
               let s7 = s6\<lparr>pofsc_echo_timer_id := tid, pr_g := g7\<rparr> in
               if r7 \<noteq> POF_OK then (POF_ERROR, s7) else (POF_OK, s7))
   }"

section \<open>The end of the process\<close>

definition delete_task :: "(proc \<Rightarrow> u64) \<Rightarrow> (u64 \<Rightarrow> proc \<Rightarrow> proc) \<Rightarrow> proc \<Rightarrow> proc" where
  "delete_task get store s = (if get s = 0 then s
     else case pofbf_task_delete (get s) (pr_g s) of (_, tid, g) \<Rightarrow> store tid (s\<lparr>pr_g := g\<rparr>))"

definition pof_close_log_file :: "config \<Rightarrow> config" where
  "pof_close_log_file c = c\<lparr>cf_log := (cf_log c)\<lparr>lg_file := None\<rparr>\<rparr>"

definition pofsc_destroy :: "proc \<Rightarrow> (ret \<times> proc) option" where
  "pofsc_destroy s = do {
     let s1 = delete_task pofsc_main_task_id (\<lambda>t. pofsc_main_task_id_update (\<lambda>_. t)) s;
     let s2 = delete_task pofsc_send_task_id (\<lambda>t. pofsc_send_task_id_update (\<lambda>_. t)) s1;
     let s3 = delete_task pofsc_listen_task_id (\<lambda>t. pofsc_listen_task_id_update (\<lambda>_. t)) s2;
     let s4 = (if pofsc_echo_timer_id s3 = 0 then s3
               else case pofbf_timer_delete (pofsc_echo_timer_id s3) (pr_g s3) of (_, tid, g) \<Rightarrow> s3\<lparr>pofsc_echo_timer_id := tid, pr_g := g\<rparr>);
     (_, dp, g5) \<leftarrow> for_each_slot (\<lambda>lr g. do { (_, lr', g') \<leftarrow> poflr_ports_task_delete lr g; Some (POF_OK, lr', g') }) (pr_dp s4) (pr_g s4);
     let g6 = (if send_q_valid g5 then snd (pofbf_queue_delete g5) else g5);
     Some (POF_OK, s4\<lparr>pr_dp := dp, pr_g := g6, pr_conf := pof_close_log_file (pr_conf s4)\<rparr>)
   }"

text \<open>
  How a run of the process ends: it left before anything was created, \<^verbatim>\<open>terminate_handler\<close> ended
  it, or it waits for user commands (or for ever, when the output is muted).
\<close>

datatype outcome = Exited | Terminated proc | Running proc

definition terminate_handler :: "proc \<Rightarrow> outcome option" where
  "terminate_handler s = (
     if pofsc_terminate_flag s then Some (Running s)
     else do { (_, s') \<leftarrow> pofsc_destroy (s\<lparr>pofsc_terminate_flag := True\<rparr>); Some (Terminated s') })"

text \<open>
  The slots are created by a routine without a \<^verbatim>\<open>return\<close>; \<open>left\<close> is the value found in its place.
\<close>

definition main :: "start_env \<Rightarrow> ret \<Rightarrow> bytes list \<Rightarrow> proc \<Rightarrow> outcome option" where
  "main env left args s = do {
     cfg \<leftarrow> pof_set_init_config env args (pr_conf s, pr_dp s, pr_g s);
     (case cfg of
        Exit \<Rightarrow> Some Exited
      | Go (r1, c, dp, g) \<Rightarrow>
          let s1 = s\<lparr>pr_conf := c, pr_dp := dp, pr_g := g\<rparr> in
          if r1 \<noteq> POF_OK then terminate_handler s1
          else if pofsc_check_root env \<noteq> POF_OK then Some Exited
          else do {
            (q, dp2, g2) \<leftarrow> pofdp_slot_init dp g;
            let s2 = s1\<lparr>pr_dp := dp2, pr_g := g2\<rparr>;
            (if (case q of Some r \<Rightarrow> r | None \<Rightarrow> left) \<noteq> POF_OK then terminate_handler s2
             else do {
               (r3, s3) \<leftarrow> pofsc_init s2;
               (if r3 \<noteq> POF_OK then terminate_handler s3
                else do {
                  (r4, dp4, g4) \<leftarrow> pof_datapath_init (pr_dp s3) (pr_g s3);
                  let s4 = s3\<lparr>pr_dp := dp4, pr_g := g4\<rparr>;
                  (if r4 \<noteq> POF_OK then terminate_handler s4 else Some (Running s4))
                })
             })
          })
   }"

section \<open>Everything is released\<close>

text \<open>A system that cancels every thread and removes timer and queue, seen from the thread \<open>self\<close>.\<close>

definition releasing :: "u64 \<Rightarrow> glob \<Rightarrow> bool" where
  "releasing self g \<longleftrightarrow> (\<forall>k. os_self (os g k) = self \<and> (\<forall>t. os_cancel (os g k) t)
     \<and> os_msgctl (os g k) \<and> os_setitimer (os g k) \<and> os_signal (os g k))"

definition port_threads :: "pof_local_resource \<Rightarrow> u64 set" where
  "port_threads lr = (case portPofIndexMap lr of None \<Rightarrow> {} | Some im \<Rightarrow> (\<lambda>n. pi_taskID (hn_obj n)) ` set (hmap_nodes im) - {0})"

definition slot_threads :: "pof_datapath \<Rightarrow> u64 set" where
  "slot_threads dp = (case slotMap dp of None \<Rightarrow> {} | Some sm \<Rightarrow> \<Union>n \<in> set (hmap_nodes sm). port_threads (hn_obj n))"

definition port_map_ok :: "pof_local_resource \<Rightarrow> bool" where
  "port_map_ok lr \<longleftrightarrow> (case portPofIndexMap lr of None \<Rightarrow> False | Some im \<Rightarrow> hmap_ok im)"

definition slot_maps_ok :: "pof_datapath \<Rightarrow> bool" where
  "slot_maps_ok dp \<longleftrightarrow> (case slotMap dp of None \<Rightarrow> False | Some sm \<Rightarrow> hmap_ok sm \<and> (\<forall>n \<in> set (hmap_nodes sm). port_map_ok (hn_obj n)))"

lemma task_delete_released:
  assumes "releasing self g" "t \<noteq> 0" "t \<noteq> self"
  shows "\<exists>g'. pofbf_task_delete t g = (POF_OK, 0, g') \<and> releasing self g' \<and> send_q_valid g' = send_q_valid g"
  using assms by (auto simp: pofbf_task_delete_def sys_def releasing_def)

lemma list_all2_right: "list_all2 R xs ys \<Longrightarrow> (\<And>x y. R x y \<Longrightarrow> P y) \<Longrightarrow> \<forall>y \<in> set ys. P y"
  by (induction rule: list_all2_induct) auto

lemma ports_released:
  assumes "releasing self g" "port_map_ok lr" "self \<notin> port_threads lr"
  shows "\<exists>lr' g'. poflr_ports_task_delete lr g = Some (POF_OK, lr', g') \<and> releasing self g' \<and> send_q_valid g' = send_q_valid g
    \<and> port_map_ok lr' \<and> port_threads lr' = {}"
proof -
  obtain im where im: "portPofIndexMap lr = Some im" "hmap_ok im" using assms(2) by (auto simp: port_map_ok_def split: option.splits)
  let ?I = "\<lambda>(l, h). releasing self h \<and> send_q_valid h = send_q_valid g \<and> self \<notin> port_threads l"
  let ?Q = "\<lambda>(a :: portInfo) x. pi_taskID x = 0"
  have step: "\<exists>s' x. port_task_delete n s = Some (None, s') \<and> ?I s' \<and> (portPofIndexMap \<circ> fst) s' = Some (hmap_write (hn_ptr n) (\<lambda>_. x) m) \<and> ?Q (hn_obj n) x"
    if I: "?I s" "(portPofIndexMap \<circ> fst) s = Some m" "hmap_ok m" "n \<in> set (hmap_nodes m)" for s m n
  proof -
    obtain l h where s: "s = (l, h)" by (cases s)
    show ?thesis
    proof (cases "pi_taskID (hn_obj n) = 0")
      case True
      then show ?thesis using I hmap_write_same [OF I(3,4)]
        by (intro exI [of _ s] exI [of _ "hn_obj n"]) (simp add: s port_task_delete_def)
    next
      case False
      have self: "pi_taskID (hn_obj n) \<noteq> self" using I False by (auto simp: s port_threads_def)
      let ?w = "hmap_write (hn_ptr n) (\<lambda>_. (hn_obj n)\<lparr>pi_taskID := 0\<rparr>) m"
      obtain h' where h: "pofbf_task_delete (pi_taskID (hn_obj n)) h = (POF_OK, 0, h')" "releasing self h'" "send_q_valid h' = send_q_valid h"
        using task_delete_released [OF _ False self] I(1) by (auto simp: s)
      have w: "hmap_write (hn_ptr n) (\<lambda>i. i\<lparr>pi_taskID := 0\<rparr>) m = ?w" by (rule hmap_write_value [OF I(3,4)])
      have "self \<notin> port_threads (l\<lparr>portPofIndexMap := Some ?w\<rparr>)"
        using I(1,2) by (auto simp: s port_threads_def hmap_nodes_write image_iff split: if_splits)
      then show ?thesis using False h I(1,2)
        by (intro exI [of _ "(l\<lparr>portPofIndexMap := Some ?w\<rparr>, h')"] exI [of _ "(hn_obj n)\<lparr>pi_taskID := 0\<rparr>"])
           (simp add: s port_task_delete_def port_write_def w)
    qed
  qed
  have "?I (lr, g)" "(portPofIndexMap \<circ> fst) (lr, g) = Some im" using assms im(1) by simp_all
  from hmap_struct_traverse_each [of ?I "portPofIndexMap \<circ> fst" port_task_delete ?Q, OF step this im(2)]
  obtain s' m' where s': "hmap_struct_traverse (portPofIndexMap \<circ> fst) port_task_delete (lr, g) = Some (None, s')" "?I s'"
    "(portPofIndexMap \<circ> fst) s' = Some m'" "hmap_ok m'" "list_all2 (node_rel ?Q) (hmap_nodes im) (hmap_nodes m')" by blast
  have "\<forall>n \<in> set (hmap_nodes m'). pi_taskID (hn_obj n) = 0"
    by (rule list_all2_right [OF s'(5)]) auto
  then have "port_threads (fst s') = {}" "port_map_ok (fst s')" using s'(3,4) by (auto simp: port_threads_def port_map_ok_def)
  then show ?thesis using s'(1,2) by (cases s') (simp add: poflr_ports_task_delete_def)
qed

lemma slots_released:
  assumes "releasing self g" "slot_maps_ok dp" "self \<notin> slot_threads dp"
  shows "\<exists>r dp' g'. for_each_slot (\<lambda>lr g. do { (_, lr', g') \<leftarrow> poflr_ports_task_delete lr g; Some (POF_OK, lr', g') }) dp g = Some (r, dp', g')
    \<and> releasing self g' \<and> send_q_valid g' = send_q_valid g \<and> slot_threads dp' = {}"
proof -
  obtain sm where sm: "slotMap dp = Some sm" "hmap_ok sm" using assms(2) by (auto simp: slot_maps_ok_def split: option.splits)
  let ?f = "\<lambda>lr g. do { (_, lr', g') \<leftarrow> poflr_ports_task_delete lr g; Some (POF_OK, lr', g') }"
  let ?body = "\<lambda>n (dp, g). do { (r, lr, g1) \<leftarrow> ?f (hn_obj n) g; Some (if r \<noteq> POF_OK then Some r else None, slot_write (hn_ptr n) lr dp, g1) }"
  let ?I = "\<lambda>(d, h). releasing self h \<and> send_q_valid h = send_q_valid g \<and> slot_maps_ok d \<and> self \<notin> slot_threads d"
  let ?Q = "\<lambda>(a :: pof_local_resource) x. port_threads x = {}"
  have step: "\<exists>s' x. ?body n s = Some (None, s') \<and> ?I s' \<and> (slotMap \<circ> fst) s' = Some (hmap_write (hn_ptr n) (\<lambda>_. x) m) \<and> ?Q (hn_obj n) x"
    if I: "?I s" "(slotMap \<circ> fst) s = Some m" "hmap_ok m" "n \<in> set (hmap_nodes m)" for s m n
  proof -
    obtain d h where s: "s = (d, h)" by (cases s)
    have "port_map_ok (hn_obj n)" "self \<notin> port_threads (hn_obj n)" using I by (auto simp: s slot_maps_ok_def slot_threads_def)
    then obtain lr' h' where l: "poflr_ports_task_delete (hn_obj n) h = Some (POF_OK, lr', h')" "releasing self h'"
      "send_q_valid h' = send_q_valid h" "port_map_ok lr'" "port_threads lr' = {}"
      using ports_released [of self h "hn_obj n"] I(1) by (auto simp: s)
    have "slot_maps_ok (slot_write (hn_ptr n) lr' d)" "self \<notin> slot_threads (slot_write (hn_ptr n) lr' d)"
      using I(1,2) l(4,5) hmap_ok_write [OF I(3)] by (auto simp: s slot_maps_ok_def slot_threads_def slot_write_def hmap_nodes_write)
    then show ?thesis using l I(1,2)
      by (intro exI [of _ "(slot_write (hn_ptr n) lr' d, h')"] exI [of _ lr']) (simp add: s slot_write_def)
  qed
  have "?I (dp, g)" "(slotMap \<circ> fst) (dp, g) = Some sm" using assms sm(1) by simp_all
  from hmap_struct_traverse_each [of ?I "slotMap \<circ> fst" ?body ?Q, OF step this sm(2)]
  obtain s' m' where s': "hmap_struct_traverse (slotMap \<circ> fst) ?body (dp, g) = Some (None, s')" "?I s'"
    "(slotMap \<circ> fst) s' = Some m'" "list_all2 (node_rel ?Q) (hmap_nodes sm) (hmap_nodes m')" by blast
  have "\<forall>n \<in> set (hmap_nodes m'). port_threads (hn_obj n) = {}"
    by (rule list_all2_right [OF s'(4)]) auto
  then have "slot_threads (fst s') = {}" using s'(3) by (auto simp: slot_threads_def)
  then show ?thesis using s'(1,2) by (cases s') (simp add: for_each_slot_def)
qed

text \<open>The threads of the communication module, and what a process that ends has to give back.\<close>

definition threads :: "proc \<Rightarrow> u64 set" where
  "threads s = {pofsc_main_task_id s, pofsc_send_task_id s, pofsc_listen_task_id s} - {0}"

definition released :: "proc \<Rightarrow> bool" where
  "released s \<longleftrightarrow> threads s = {} \<and> pofsc_echo_timer_id s = 0 \<and> slot_threads (pr_dp s) = {} \<and> \<not> send_q_valid (pr_g s)
     \<and> lg_file (cf_log (pr_conf s)) = None"

lemma destroy_ok:
  assumes "releasing self (pr_g s)" "slot_maps_ok (pr_dp s)" "self \<notin> slot_threads (pr_dp s) \<union> threads s"
  shows "\<exists>s'. pofsc_destroy s = Some (POF_OK, s') \<and> released s'"
proof -
  define s1 where "s1 = delete_task pofsc_main_task_id (\<lambda>t. pofsc_main_task_id_update (\<lambda>_. t)) s"
  define s2 where "s2 = delete_task pofsc_send_task_id (\<lambda>t. pofsc_send_task_id_update (\<lambda>_. t)) s1"
  define s3 where "s3 = delete_task pofsc_listen_task_id (\<lambda>t. pofsc_listen_task_id_update (\<lambda>_. t)) s2"
  define s4 where "s4 = (if pofsc_echo_timer_id s3 = 0 then s3
    else case pofbf_timer_delete (pofsc_echo_timer_id s3) (pr_g s3) of (_, tid, g) \<Rightarrow> s3\<lparr>pofsc_echo_timer_id := tid, pr_g := g\<rparr>)"
  note del = task_delete_released [of self]
  have 1: "releasing self (pr_g s1)" "pr_dp s1 = pr_dp s" "pofsc_main_task_id s1 = 0"
    "pofsc_send_task_id s1 = pofsc_send_task_id s" "pofsc_listen_task_id s1 = pofsc_listen_task_id s"
    using assms(1,3) del [of "pr_g s" "pofsc_main_task_id s"] by (auto simp: s1_def delete_task_def threads_def)
  have 2: "releasing self (pr_g s2)" "pr_dp s2 = pr_dp s" "pofsc_main_task_id s2 = 0"
    "pofsc_send_task_id s2 = 0" "pofsc_listen_task_id s2 = pofsc_listen_task_id s"
    using assms(3) 1 del [of "pr_g s1" "pofsc_send_task_id s"] by (auto simp: s2_def delete_task_def threads_def)
  have 3: "releasing self (pr_g s3)" "pr_dp s3 = pr_dp s" "pofsc_main_task_id s3 = 0"
    "pofsc_send_task_id s3 = 0" "pofsc_listen_task_id s3 = 0"
    using assms(3) 2 del [of "pr_g s2" "pofsc_listen_task_id s"] by (auto simp: s3_def delete_task_def threads_def)
  have 4: "releasing self (pr_g s4)" "pr_dp s4 = pr_dp s" "threads s4 = {}" "pofsc_echo_timer_id s4 = 0"
    using 3 by (auto simp: s4_def pofbf_timer_delete_def sys_def releasing_def threads_def)
  obtain r dp' g' where l: "for_each_slot (\<lambda>lr g. do { (_, lr', g') \<leftarrow> poflr_ports_task_delete lr g; Some (POF_OK, lr', g') }) (pr_dp s4) (pr_g s4)
      = Some (r, dp', g')" "releasing self g'" "slot_threads dp' = {}"
    using slots_released [of self "pr_g s4" "pr_dp s4"] 4 assms(2,3) by auto
  have q: "\<not> send_q_valid (if send_q_valid g' then snd (pofbf_queue_delete g') else g')"
    using l(2) by (simp add: pofbf_queue_delete_def sys_def releasing_def)
  have "pofsc_destroy s = Some (POF_OK, s4\<lparr>pr_dp := dp', pr_g := (if send_q_valid g' then snd (pofbf_queue_delete g') else g'),
      pr_conf := pof_close_log_file (pr_conf s4)\<rparr>)"
    using l(1) unfolding pofsc_destroy_def Let_def s1_def [symmetric] s2_def [symmetric] s3_def [symmetric] s4_def [symmetric] by simp
  moreover have "released (s4\<lparr>pr_dp := dp', pr_g := (if send_q_valid g' then snd (pofbf_queue_delete g') else g'),
      pr_conf := pof_close_log_file (pr_conf s4)\<rparr>)"
    using 4 l(3) q by (simp add: released_def threads_def pof_close_log_file_def)
  ultimately show ?thesis by blast
qed

section \<open>The communication module starts\<close>

text \<open>A system that provides queue, timer and threads.\<close>

definition providing :: "glob \<Rightarrow> bool" where
  "providing g \<longleftrightarrow> (\<forall>k. os_msgget (os g k) \<and> os_setitimer (os g k) \<and> os_signal (os g k)
     \<and> (case os_thread (os g k) of None \<Rightarrow> False | Some t \<Rightarrow> t \<noteq> 0))"

lemma providing_thread: "providing g \<Longrightarrow> \<exists>t. os_thread (os g k) = Some t \<and> t \<noteq> 0"
  by (auto simp: providing_def split: option.splits dest!: spec [of _ k])

definition started :: "proc \<Rightarrow> proc \<Rightarrow> bool" where
  "started s s' \<longleftrightarrow> pofsc_main_task_id s' \<noteq> 0 \<and> pofsc_send_task_id s' \<noteq> 0 \<and> pofsc_listen_task_id s' \<noteq> 0 \<and> pofsc_echo_timer_id s' \<noteq> 0
     \<and> send_q_valid (pr_g s') \<and> conn_state (pr_g s') = POFCS_CHANNEL_INVALID \<and> pr_dp s' = pr_dp s
     \<and> c_str (controller_ip s') = c_str (pofsc_controller_ip_addr (pr_conf s)) \<and> controller_port s' = pofsc_controller_port (pr_conf s)
     \<and> length (controller_ip s') = 20 \<and> echo_interval s' = 2000"

lemma c_str_pad: "c_str (c_str b @ replicate n 0) = c_str b"
  by (induction b) (simp_all add: c_str_def takeWhile_eq_all_conv)

lemma init_ok:
  assumes "providing (pr_g s)" "0 \<in> set (pofsc_controller_ip_addr (pr_conf s))" "length (c_str (pofsc_controller_ip_addr (pr_conf s))) \<le> 20"
  shows "\<exists>s'. pofsc_init s = Some (POF_OK, s') \<and> started s s' \<and> os (pr_g s') = os (pr_g s)
    \<and> (\<forall>t \<in> threads s'. \<exists>k. os_thread (os (pr_g s) k) = Some t)"
proof -
  let ?g = "pr_g s" and ?n = "os_n (pr_g s)" and ?ip = "pofsc_controller_ip_addr (pr_conf s)"
  have os: "os_msgget (os ?g k)" "os_setitimer (os ?g k)" "os_signal (os ?g k)" for k using assms(1) by (simp_all add: providing_def)
  obtain t1 t2 t3 where t: "os_thread (os ?g (?n + 4)) = Some t1" "os_thread (os ?g (?n + 5)) = Some t2" "os_thread (os ?g (?n + 6)) = Some t3"
    "t1 \<noteq> 0" "t2 \<noteq> 0" "t3 \<noteq> 0"
    using providing_thread [OF assms(1)] by metis
  let ?s = "s\<lparr>pr_conn := (pr_conn s)\<lparr>cn_sfd := 0, cn_send_buf := replicate 2560 0, cn_recv_buf := replicate 2560 0,
              cn_msg_buf := replicate 2560 0, cn_retry_count := 0, cn_last_error := 0, cn_last_echo_time := 0\<rparr>,
            pr_g := ?g\<lparr>conn_state := POFCS_CHANNEL_INVALID, local_port_index := 0, send_q_valid := True, os_n := ?n + 9\<rparr>,
            controller_ip := c_str ?ip @ replicate (20 - length (c_str ?ip)) 0, controller_port := pofsc_controller_port (pr_conf s),
            conn_retry_max := 0xffffffff, conn_retry_interval := 2, echo_interval := 2000,
            pofsc_main_task_id := t1, pofsc_send_task_id := t2, pofsc_listen_task_id := t3, pofsc_echo_timer_id := 1\<rparr>"
  have "pofsc_init s = Some (POF_OK, ?s)"
    using assms(2,3) t
    by (simp add: pofsc_init_def pofsc_set_conn_attr_def pofbf_queue_create_def create_task_def pofbf_task_create_def pofbf_timer_create_def
        sys_def os eval_nat_numeral)
  moreover have "started s ?s" using t assms(3) by (simp add: started_def c_str_pad)
  moreover have "\<forall>t \<in> threads ?s. \<exists>k. os_thread (os ?g k) = Some t" using t by (auto simp: threads_def)
  ultimately show ?thesis by auto
qed

text \<open>
  C31. The life of the communication module. On a system that provides what it is asked for, and
  with a controller address that ends within its 20 bytes, the start succeeds: three tasks, the timer and the queue
  exist, the connection is in its first state and addressed to the configured controller, and the
  datapath is untouched. Ending the process from a thread that is none of its tasks then succeeds
  as well and gives everything back: no task of the module or of a port, no timer and no queue is
  left and the log file is closed.
\<close>

theorem pofsc_init_destroy:
  assumes "providing (pr_g s)" "releasing self (pr_g s)" "\<forall>k. os_thread (os (pr_g s) k) \<noteq> Some self"
    and "0 \<in> set (pofsc_controller_ip_addr (pr_conf s))" "length (c_str (pofsc_controller_ip_addr (pr_conf s))) \<le> 20"
    and "slot_maps_ok (pr_dp s)" "self \<notin> slot_threads (pr_dp s)"
  shows "\<exists>s1 s2. pofsc_init s = Some (POF_OK, s1) \<and> started s s1 \<and> pofsc_destroy s1 = Some (POF_OK, s2) \<and> released s2"
proof -
  obtain s1 where s1: "pofsc_init s = Some (POF_OK, s1)" "started s s1" "os (pr_g s1) = os (pr_g s)"
    "\<forall>t \<in> threads s1. \<exists>k. os_thread (os (pr_g s) k) = Some t" using init_ok [OF assms(1,4,5)] by blast
  have "releasing self (pr_g s1)" using assms(2) s1(3) by (simp add: releasing_def)
  moreover have "self \<notin> slot_threads (pr_dp s1) \<union> threads s1" "slot_maps_ok (pr_dp s1)"
    using s1(2,4) assms(3,6,7) by (auto simp: started_def)
  ultimately show ?thesis using destroy_ok [of self s1] s1(1,2) by blast
qed

definition example_proc :: proc where
  "example_proc = \<lparr>pr_conf = example_config\<lparr>pofsc_controller_ip_addr := asc ''192.168.1.1'' @ replicate 9 0\<rparr>, 
     pr_conn = \<lparr>cn_sfd = 0, cn_send_buf = replicate 2560 0, cn_recv_buf = replicate 2560 0, cn_msg_buf = replicate 2560 0,
       cn_retry_count = 0, cn_last_error = 0, cn_last_echo_time = 0, cn_total_len = 0, cn_left_len = 0, cn_rcv_len = 0,
       cn_process_len = 0, cn_protocol_error = 0xff # 0xff # replicate 270 0\<rparr>,
     pr_dp = example_dp, pr_g = example_glob,
     controller_ip = replicate 20 0, controller_port = 0, conn_retry_max = 0, conn_retry_interval = 0, echo_interval = 0,
     pofsc_main_task_id = 0, pofsc_send_task_id = 0, pofsc_listen_task_id = 0, pofsc_echo_timer_id = 0, pofsc_terminate_flag = False\<rparr>"

lemma pofsc_init_destroy_witness:
  "\<exists>s1 s2. pofsc_init example_proc = Some (POF_OK, s1) \<and> started example_proc s1 \<and> pofsc_destroy s1 = Some (POF_OK, s2) \<and> released s2"
proof -
  have p: "pr_g example_proc = example_glob" "pr_dp example_proc = example_dp" by (simp_all add: example_proc_def)
  have o: "os example_glob = (\<lambda>_. example_os)" by (simp add: example_glob_def)
  have "providing example_glob" "releasing 1 example_glob" "\<forall>k. os_thread (os example_glob k) \<noteq> Some 1"
    by (simp_all add: providing_def releasing_def o example_os_def)
  moreover have "slot_maps_ok example_dp" "1 \<notin> slot_threads example_dp"
    using empty_hmap_wf by (simp_all add: slot_maps_ok_def slot_threads_def example_dp_def)
  moreover have "0 \<in> set (pofsc_controller_ip_addr (pr_conf example_proc))" "length (c_str (pofsc_controller_ip_addr (pr_conf example_proc))) \<le> 20"
    by (simp_all add: example_proc_def c_str_def asc_def)
  ultimately show ?thesis using pofsc_init_destroy [of example_proc 1] unfolding p by blast
qed

end
