(* ===== verification/Pof_Receive.thy ===== *)
theory Pof_Receive
  imports Pof_Start
begin

text \<open>
  The receive task of a port, \<^verbatim>\<open>pofdp_recv_raw_task\<close> of \<^verbatim>\<open>datapath/pof_datapath.c\<close>, as a whole: how
  it opens its sockets and what it does with a sequence of frames. Frames that match no entry of
  the first table go to the controller, one message for each.
\<close>

section \<open>The task\<close>

text \<open>
  An event is one iteration of the loop: whether the port is enabled, the content of the stack,
  what \<^verbatim>\<open>recvfrom\<close> delivers and the type of the packet. The pointer to the slot is the one found
  before the loop; no task removes a slot.
\<close>

type_synonym recv_event = "u8 \<times> bytes \<times> bytes option \<times> u8"

primrec recv_raw_loop :: "portInfo \<Rightarrow> recv_event list \<Rightarrow> pof_datapath \<times> glob \<Rightarrow> (pof_datapath \<times> glob) option" where
  "recv_raw_loop port [] s = Some s"
| "recv_raw_loop port (e # es) s = (case e of (enable, stk, received, sll_pkttype) \<Rightarrow> do {
     s1 \<leftarrow> pofdp_recv_raw_step stk (port\<lparr>pi_of_enable := enable\<rparr>) received sll_pkttype s;
     recv_raw_loop port es s1
   })"

text \<open>The task returned, the process was left, or the task waits for the next frame.\<close>

datatype recv_task = Task_Returned ret proc | Task_Left outcome | Task_Receiving proc

text \<open>
  A socket that cannot be made ends the process; when another task is ending it already, the
  task goes on.
\<close>

definition recv_check :: "bool \<Rightarrow> pof_soft_error \<Rightarrow> (proc \<Rightarrow> recv_task option) \<Rightarrow> proc \<Rightarrow> recv_task option" where
  "recv_check ok code k s = (if ok then k s else do {
     (_, g1) \<leftarrow> err_upward_new POFET_SOFTWARE_FAILED (SoftE code) (pr_g s);
     r \<leftarrow> terminate_handler (s\<lparr>pr_g := g1\<rparr>);
     (case r of Running s1 \<Rightarrow> k s1 | _ \<Rightarrow> Some (Task_Left r))
   })"

definition pofdp_recv_raw_task :: "portInfo \<Rightarrow> recv_event list \<Rightarrow> proc \<Rightarrow> recv_task option" where
  "pofdp_recv_raw_task port events s = do {
     q \<leftarrow> pofdp_get_local_resource (pi_slotID port) (pr_dp s);
     (case q of
        None \<Rightarrow> do {
          (r, g1) \<leftarrow> err_upward_new POFET_SOFTWARE_FAILED (SoftE POF_INVALID_SLOT_ID) (pr_g s);
          Some (Task_Returned r (s\<lparr>pr_g := g1\<rparr>))
        }
      | Some _ \<Rightarrow> (case sys os_socket (pr_g s) of (sockRecv, g1) \<Rightarrow>
          recv_check (sockRecv \<noteq> None) POF_CREATE_SOCKET_FAILURE (\<lambda>s1. case sys os_socket (pr_g s1) of (sockSend, g2) \<Rightarrow>
            recv_check (sockSend \<noteq> None) POF_CREATE_SOCKET_FAILURE (\<lambda>s2. case sys os_bind (pr_g s2) of (bound, g3) \<Rightarrow>
              recv_check bound POF_BIND_SOCKET_FAILURE (\<lambda>s3. do {
                (dp, g4) \<leftarrow> recv_raw_loop port events (pr_dp s3, pr_g s3);
                Some (Task_Receiving (s3\<lparr>pr_dp := dp, pr_g := g4\<rparr>))
              }) (s2\<lparr>pr_g := g3\<rparr>)) (s1\<lparr>pr_g := g2\<rparr>)) (s\<lparr>pr_g := g1\<rparr>)))
   }"

section \<open>A packet that matches nothing\<close>

text \<open>
  The message for a frame without match: buffer id, length of the frame, reason 0, table 0, no
  cookie, the device, slot 0, the port and the frame.
\<close>

definition packet_in_message :: "u32 \<Rightarrow> u32 \<Rightarrow> u8 \<Rightarrow> bytes \<Rightarrow> bytes" where
  "packet_in_message xid dev port frame =
     msg_header POFT_PACKET_IN xid (of_nat (length frame) + 32) @ [255, 255, 255, 255]
     @ rev (le_bytes 2 (of_nat (length frame) :: u16)) @ [0, 0] @ replicate 8 0
     @ rev (le_bytes 4 dev) @ [0, 0, 0, port] @ frame"

lemma frame_len_casts:
  assumes "n \<le> 1514"
  shows "unat (of_nat n :: u16) = n" "ucast (of_nat n :: u16) = (of_nat n :: u32)" "ucast (of_nat n :: u32) = (of_nat n :: u16)"
proof -
  show "unat (of_nat n :: u16) = n" using assms by (simp add: unat_of_nat_u16)
  show "ucast (of_nat n :: u16) = (of_nat n :: u32)" "ucast (of_nat n :: u32) = (of_nat n :: u16)"
    using assms by (intro word_unat_eq_iff [THEN iffD2]; simp add: unat_of_nat unsigned_ucast_eq take_bit_eq_mod)+
qed

lemma u8_u32: "ucast (ucast (p :: u8) :: u32) = p"
  by (rule bit_word_eqI) (simp add: bit_simps)

lemma le_bytes_2: "le_bytes 2 (w :: u16) = [ucast w, ucast (drop_bit 8 w)]"
  by (simp add: le_bytes_def eval_nat_numeral)

lemma packet_in_wire:
  assumes "length dat \<le> 2048"
  shows "run_conv (pof_NtoH_transfer_packet_in 0) (pof_packet_in_bytes len 0 0 dev port dat)
    = Some ([255, 255, 255, 255] @ rev (le_bytes 2 len) @ [0, 0] @ replicate 8 0 @ rev (le_bytes 4 dev)
        @ [0, 0, 0, port] @ dat @ replicate (2048 - length dat) 0)"
proof -
  obtain l0 l1 where l: "le_bytes 2 len = [l0, l1]" using length_2 length_le_bytes by blast
  obtain d0 d1 d2 d3 where d: "le_bytes 4 dev = [d0, d1, d2, d3]" using length_4 length_le_bytes by blast
  have p: "le_bytes 2 (ucast port :: u16) = [port, 0]"
  proof -
    have "ucast (ucast port :: u16) = port" "ucast (drop_bit 8 (ucast port :: u16)) = (0 :: u8)"
      by (auto intro!: bit_word_eqI simp: bit_simps)
    then show ?thesis by (simp only: le_bytes_2)
  qed
  have "le_bytes 4 (0xffffffff :: u32) = [255, 255, 255, 255]" "le_bytes 2 (0 :: u16) = [0, 0]" by code_simp+
  then have b: "pof_packet_in_bytes len 0 0 dev port dat = [255, 255, 255, 255, l0, l1, 0, 0] @ replicate 8 0
      @ [d0, d1, d2, d3, 0, 0, port, 0] @ dat @ replicate (2048 - length dat) 0"
    by (simp only: pof_packet_in_bytes_def l d p append.simps append_assoc)
  show ?thesis unfolding b l d
    by (simp add: pof_NtoH_transfer_packet_in_def conv_step_rev conv_end_def eval_nat_numeral del: conv_step.simps)
qed

lemma packet_in_of_ok:
  assumes "chan_ok g" "sending g" "frame \<noteq> []" "length frame \<le> 1514"
    and "from_ptr (pk_packetBuf dpp) (pk_buf dpp) = Some (frame @ rest)"
    and "scast (pk_offset dpp) + pk_left_len dpp = of_nat (length frame)"
  shows "\<exists>g'. packet_in_of 0 0 dpp g = Some (POF_OK, g') \<and> chan_ok g'
    \<and> same_but_queue (g\<lparr>g_upward_xid := g_upward_xid g + 1\<rparr>) g'
    \<and> send_queue g' = send_queue g @ [packet_in_message (g_upward_xid g) (g_poflr_dev_id g) (ucast (pk_ori_port_id dpp)) frame]"
proof -
  let ?len = "of_nat (length frame) :: u16" and ?g = "g\<lparr>g_upward_xid := g_upward_xid g + 1\<rparr>"
  define h where "h = [255, 255, 255, 255] @ rev (le_bytes 2 ?len) @ [0, 0] @ replicate 8 0 @ rev (le_bytes 4 (g_poflr_dev_id g))
    @ [0, 0, 0, ucast (pk_ori_port_id dpp)]"
  let ?body = "h @ frame @ replicate (2048 - length frame) 0"
  have h: "length h = 24" by (simp add: h_def)
  note len = frame_len_casts [OF assms(4)]
  have len32: "unat (24 + ucast ?len :: u32) = 24 + length frame" using assms(4) by (simp add: len unat_word_ariths unat_of_nat)
  have ok: "chan_ok ?g" "sending ?g" using assms(1,2) by (simp_all add: chan_ok_def sending_def)
  obtain g' where g': "pofec_reply_msg POFT_PACKET_IN (g_upward_xid g) (24 + ucast ?len) (Some ?body) ?g = Some (POF_OK, g')"
    "chan_ok g'" "same_but_queue ?g g'"
    "send_queue g' = send_queue g @ [reply_bytes POFT_PACKET_IN (g_upward_xid g) (24 + ucast ?len) ?body]"
    using reply_msg_ok [OF ok(1), of "24 + ucast ?len" ?body "Some ?body" POFT_PACKET_IN "g_upward_xid g"] ok(2) assms(4) len32 h by auto
  have "reply_bytes POFT_PACKET_IN (g_upward_xid g) (24 + ucast ?len) ?body
      = packet_in_message (g_upward_xid g) (g_poflr_dev_id g) (ucast (pk_ori_port_id dpp)) frame"
  proof -
    have "take (24 + length frame) ?body = h @ frame" by (simp add: h)
    then show ?thesis unfolding reply_bytes_def len32 by (simp only:) (simp add: packet_in_message_def h_def len(2) add.commute)
  qed
  moreover have "packet_in_of 0 0 dpp g = Some (POF_OK, g')"
    using g'(1) packet_in_wire [of frame ?len "g_poflr_dev_id g" "ucast (pk_ori_port_id dpp)"] assms(4-6)
    by (simp add: packet_in_of_def h_def pofdp_send_packet_in_to_controller_def mem_read_def len word_less_nat_alt)
  ultimately show ?thesis using g' by auto
qed

section \<open>The first table\<close>

text \<open>What the lookup in the first table sees: the frame and the metadata of a new packet.\<close>

definition first_metadata :: "portInfo \<Rightarrow> bytes \<Rightarrow> bytes" where
  "first_metadata port frame = rev (le_bytes 2 (of_nat (length frame) :: u16)) @ [pi_pofIndex port] @ replicate 125 0"

definition first_lookup :: "tableInfo \<Rightarrow> portInfo \<Rightarrow> bytes \<Rightarrow> entryInfo hnode option option" where
  "first_lookup table port frame = do {
     key \<leftarrow> keyAssemble (replicate (byte_ceil (unat (ti_keyLen table))) 0) (frame @ replicate (1920 - length frame) 0)
              (Some (first_metadata port frame)) (ti_match_field_num table) (ti_match table);
     (if ti_type table = POF_MM_TABLE then entryLookup_MM key table
      else if ti_type table = POF_LPM_TABLE then entryLookup_LPM key table
      else if ti_type table = POF_EM_TABLE then entryLookup_EM key table
      else None)
   }"

lemma first_instruction:
  "cur_ins (d\<lparr>pk_ins := (set_goto_first_table_instruction, 0), pk_ins_todo_num := n\<rparr>) = Some set_goto_first_table_instruction"
  "get16 set_goto_first_table_instruction 0 = Some 1"
  "rd (drop 8 set_goto_first_table_instruction) 0 = Some 0"
  "get16 (drop 8 set_goto_first_table_instruction) 2 = Some 0"
proof -
  have "length set_goto_first_table_instruction = 304" by (simp add: set_goto_first_table_instruction_def)
  then show "cur_ins (d\<lparr>pk_ins := (set_goto_first_table_instruction, 0), pk_ins_todo_num := n\<rparr>) = Some set_goto_first_table_instruction"
    by (simp add: cur_ins_def mem_read_def)
qed code_simp+

lemma first_table_id:
  assumes "length (tableNumMaxEachType lr) = 4" "\<exists>n \<in> set (tableNumMaxEachType lr). n \<noteq> 0"
  shows "\<exists>ty. (\<forall>g. poflr_table_ID_to_id 0 lr g = Some (POF_OK, Some (ty, 0), g)) \<and> poflr_table_id_to_ID ty 0 lr = Some 0"
proof -
  let ?ns = "tableNumMaxEachType lr"
  obtain i0 where "i0 < length ?ns" "?ns ! i0 \<noteq> 0" using assms(2) by (auto simp: in_set_conv_nth)
  then obtain t where t: "t < 4" "?ns ! t \<noteq> 0" "\<And>i. i < t \<Longrightarrow> ?ns ! i = 0"
    using assms(1) exists_least_iff [of "\<lambda>i. i < 4 \<and> ?ns ! i \<noteq> 0"] by force
  have sum: "offset_of ?ns t = 0" using t assms(1) by (auto simp: in_set_conv_nth)
  have ty: "unat (of_nat t :: u8) = t" using t(1) by (simp add: unat_of_nat take_bit_eq_mod)
  have "ID_to_id_loop ?ns 4 0 0 = Some (Some (0 + t, of_nat 0))"
    using t assms(1) sum by (intro ID_to_id_loop_find) (simp_all add: unat_gt_0)
  then have "poflr_table_ID_to_id 0 lr g = Some (POF_OK, Some (of_nat t, 0), g)" for g by (simp add: poflr_table_ID_to_id_def)
  moreover have "poflr_table_id_to_ID (of_nat t) 0 lr = Some 0"
    using table_id_to_ID_value [of "of_nat t" lr 0] t(1) assms(1) sum ty by simp
  ultimately show ?thesis by blast
qed

lemma init_metadata:
  assumes "length frame \<le> 1514"
  shows "init_packet_metadata 128 (recv_dpp dp stk port frame) g
    = Some (POF_OK, (recv_dpp dp stk port frame)\<lparr>pk_metadata_len := 128, pk_metadata := Some (first_metadata port frame)\<rparr>, g)"
proof -
  have "le_bytes 2 (POF_NTOHS w) = rev (le_bytes 2 w)" for w :: u16
    using le_bytes_NTOHS [of "le_bytes 2 w"] by (simp add: of_le_le_bytes)
  moreover have "replicate 126 (0 :: u8) = 0 # replicate 125 0" using replicate_Suc [of 125 "0 :: u8"] by simp
  ultimately show ?thesis
    by (simp add: list_update_append u8_u32 init_packet_metadata_def POF_PACKET_REL_LEN_SET_def upd_metadata_def put16_def put_le_def wr_def
        first_metadata_def frame_len_casts [OF assms] recv_dpp_def zero_dpp_def)
qed

lemma move_zero:
  assumes "0 \<le> sint (pk_left_len d)" "0 \<le> sint (pk_offset d)"
  shows "movePacketBufOffset 0 d g = Some (POF_OK, d, g)"
  using assms by (cases d) (simp add: movePacketBufOffset_def)

lemma lookup_first:
  assumes "chan_ok g" "first_lookup table port frame = Some e"
  shows "poflr_entry_lookup (frame @ replicate (1920 - length frame) 0) (Some (first_metadata port frame)) table g
    = Some (e, g\<lparr>malloc_n := malloc_n g + 1\<rparr>)"
  using assms by (auto simp: poflr_entry_lookup_def first_lookup_def POF_MALLOC_SAFE_def malloc_def Let_def chan_ok_def bind_eq_Some_conv)

lemma recv_dpp_not_done [simp]: "pk_packet_done (recv_dpp dp stk port frame) = False"
  by (simp add: recv_dpp_def zero_dpp_def)

text \<open>Executing the first instruction on a frame that matches nothing.\<close>

lemma execute_first_miss:
  assumes "chan_ok g" "sending g" "frame \<noteq> []" "length frame \<le> 1514"
    and "length (tableNumMaxEachType lr) = 4" "\<exists>n \<in> set (tableNumMaxEachType lr). n \<noteq> 0"
    and "poflr_get_table_with_ID 0 lr = Some (Some table)" "first_lookup (hn_obj table) port frame = Some None"
  shows "\<exists>d g'. pofdp_forward set_goto_first_table_instruction (recv_dpp dp stk port frame, lr, g) = Some (POF_OK, d, lr, g')
    \<and> chan_ok g' \<and> sending g' \<and> g_poflr_dev_id g' = g_poflr_dev_id g \<and> g_upward_xid g' = g_upward_xid g + 1
    \<and> send_queue g' = send_queue g @ [packet_in_message (g_upward_xid g) (g_poflr_dev_id g) (pi_pofIndex port) frame]"
proof -
  let ?first = "(recv_dpp dp stk port frame)\<lparr>pk_metadata_len := 128, pk_metadata := Some (first_metadata port frame),
      pk_ins := (set_goto_first_table_instruction, 0), pk_ins_todo_num := 1\<rparr>"
  obtain ty where ty: "\<And>g. poflr_table_ID_to_id 0 lr g = Some (POF_OK, Some (ty, 0), g)" "poflr_table_id_to_ID ty 0 lr = Some 0"
    using first_table_id [OF assms(5,6)] by blast
  let ?d = "?first\<lparr>pk_table_type := ty, pk_table_id := 0, pk_flow_entry := None\<rparr>" and ?g = "g\<lparr>malloc_n := malloc_n g + 1\<rparr>"
  have g: "chan_ok ?g" "sending ?g" using assms(1,2) by (auto simp: chan_ok_def sending_def)
  have "pk_offset ?d = 0" "pk_left_len ?d = of_nat (length frame)" "ucast (pk_ori_port_id ?d) = pi_pofIndex port"
    "from_ptr (pk_packetBuf ?d) (pk_buf ?d) = Some (frame @ replicate (1920 - length frame) 0)"
    using assms(4) u8_u32 by (simp_all add: recv_dpp_def zero_dpp_def from_ptr_def)
  then obtain g' where g': "packet_in_of 0 0 ?d ?g = Some (POF_OK, g')" "chan_ok g'" "same_but_queue (?g\<lparr>g_upward_xid := g_upward_xid g + 1\<rparr>) g'"
    "send_queue g' = send_queue g @ [packet_in_message (g_upward_xid g) (g_poflr_dev_id g) (pi_pofIndex port) frame]"
    using packet_in_of_ok [OF g assms(3,4), of ?d] by auto
  have "sint (of_nat (length frame) :: u32) = int (length frame)"
    using assms(4) by (simp add: signed_of_nat signed_take_bit_int_eq_self)
  then have "movePacketBufOffset 0 ?first g = Some (POF_OK, ?first, g)" by (intro move_zero) (simp_all add: recv_dpp_def zero_dpp_def)
  then have "goto_prepare 0 0 (?first, lr, g) = Some (POF_OK, ?first\<lparr>pk_table_type := ty, pk_table_id := 0\<rparr>, lr, g)"
    by (simp add: goto_prepare_def ty(1))
  moreover have "pk_window (?first\<lparr>pk_table_type := ty, pk_table_id := 0\<rparr>) = Some (frame @ replicate (1920 - length frame) 0)"
    using assms(4) by (simp add: pk_window_def recv_dpp_def zero_dpp_def from_ptr_def)
  ultimately have "execute_GOTO_TABLE (?first, lr, g) = Some (POF_OK, ?d\<lparr>pk_packet_done := True\<rparr>, lr, g')"
    using g'(1) assms(7) lookup_first [OF assms(1,8)]
    by (simp add: execute_GOTO_TABLE_def ins_p_def first_instruction check_ret_def pofdp_entry_nomatch_def ty(2))
  then have "pofdp_instruction_execute (?first, lr, g) = Some (POF_OK, ?d\<lparr>pk_packet_done := True\<rparr>, lr, g')"
    by (subst pofdp_instruction_execute.simps) (simp add: first_instruction execute_one_instruction_def
      pofdp_instruction_execute.simps)
  then show ?thesis using g' assms(2) by (auto simp: pofdp_forward_def init_metadata [OF assms(4)] check_ret_def same_but_queue_def sending_def)
qed

section \<open>Sequences of frames\<close>

text \<open>The frames the filters let through, and the messages for them.\<close>

definition accepted :: "packet_filter \<Rightarrow> recv_event \<Rightarrow> bytes option" where
  "accepted f e = (case e of (enable, _, received, sll_pkttype) \<Rightarrow> (case received of
      None \<Rightarrow> None
    | Some frame \<Rightarrow> if enable = 0 \<or> sll_pkttype = 4 \<or> 1514 < length frame \<or> (f = pofdp_no_promisc \<and> sll_pkttype = 3)
        then None else Some frame))"

text \<open>A frame that is not empty and fits the buffer.\<close>

definition sound_event :: "recv_event \<Rightarrow> bool" where
  "sound_event e = (case e of (_, _, received, _) \<Rightarrow> (case received of
      None \<Rightarrow> True | Some frame \<Rightarrow> frame \<noteq> [] \<and> length frame \<le> 1920))"

primrec packet_ins :: "u32 \<Rightarrow> u32 \<Rightarrow> u8 \<Rightarrow> bytes list \<Rightarrow> bytes list" where
  "packet_ins xid dev port [] = []"
| "packet_ins xid dev port (frame # frames) = packet_in_message xid dev port frame # packet_ins (xid + 1) dev port frames"

text \<open>The slot of a port and its first table.\<close>

definition first_table :: "pof_datapath \<Rightarrow> u16 \<Rightarrow> tableInfo \<Rightarrow> bool" where
  "first_table dp slot table \<longleftrightarrow> (\<exists>sm lr p h. slotMap dp = Some sm \<and> hmap_ok sm
     \<and> pofdp_get_local_resource slot dp = Some (Some lr) \<and> lr \<in> set (hmap_nodes sm)
     \<and> length (tableNumMaxEachType (hn_obj lr)) = 4 \<and> (\<exists>n \<in> set (tableNumMaxEachType (hn_obj lr)). n \<noteq> 0)
     \<and> poflr_get_table_with_ID 0 (hn_obj lr) = Some (Some \<lparr>hn_ptr = p, hn_hash = h, hn_obj = table\<rparr>))"

lemma first_table_count [simp]: "first_table (dp\<lparr>pktCount := n\<rparr>) slot table = first_table dp slot table"
  by (simp add: first_table_def pofdp_get_local_resource_def)

text \<open>One frame: it is dropped, or reported and counted.\<close>

lemma recv_step_miss:
  assumes "chan_ok g" "sending g" "first_table dp (pi_slotID port) table"
    and "sound_event (pi_of_enable port, stk, received, t)"
    and "\<forall>frame. accepted (dp_filter dp) (pi_of_enable port, stk, received, t) = Some frame \<longrightarrow> first_lookup table port frame = Some None"
  shows "\<exists>g'. pofdp_recv_raw_step stk port received t (dp, g) = Some (
      (case accepted (dp_filter dp) (pi_of_enable port, stk, received, t) of None \<Rightarrow> dp | Some _ \<Rightarrow> dp\<lparr>pktCount := pktCount dp + 1\<rparr>), g')
    \<and> chan_ok g' \<and> sending g' \<and> g_poflr_dev_id g' = g_poflr_dev_id g
    \<and> (case accepted (dp_filter dp) (pi_of_enable port, stk, received, t) of
         None \<Rightarrow> send_queue g' = send_queue g \<and> g_upward_xid g' = g_upward_xid g
       | Some frame \<Rightarrow> g_upward_xid g' = g_upward_xid g + 1
           \<and> send_queue g' = send_queue g @ [packet_in_message (g_upward_xid g) (g_poflr_dev_id g) (pi_pofIndex port) frame])"
proof -
  obtain sm lr p h where S: "slotMap dp = Some sm" "hmap_ok sm" "pofdp_get_local_resource (pi_slotID port) dp = Some (Some lr)"
    "lr \<in> set (hmap_nodes sm)" "length (tableNumMaxEachType (hn_obj lr)) = 4" "\<exists>n \<in> set (tableNumMaxEachType (hn_obj lr)). n \<noteq> 0"
    "poflr_get_table_with_ID 0 (hn_obj lr) = Some (Some \<lparr>hn_ptr = p, hn_hash = h, hn_obj = table\<rparr>)"
    using assms(3) unfolding first_table_def by blast
  have w: "dp\<lparr>slotMap := map_option (hmap_write (hn_ptr lr) (\<lambda>_. hn_obj lr)) (slotMap dp), pktCount := pktCount dp + 1\<rparr>
      = dp\<lparr>pktCount := pktCount dp + 1\<rparr>"
    using hmap_write_same [OF S(2,4)] S(1) by (cases dp) simp
  show ?thesis
  proof (cases "accepted (dp_filter dp) (pi_of_enable port, stk, received, t)")
    case None
    then show ?thesis using assms(1,2,4) S(3)
      by (auto simp: pofdp_recv_raw_step_def sound_event_def accepted_def filter_packet_def split: option.splits if_splits packet_filter.splits)
  next
    case (Some frame)
    then have f: "received = Some frame" "pi_of_enable port \<noteq> 0" "t \<noteq> 4" "length frame \<le> 1514" "filter_packet (dp_filter dp) t = POF_OK"
      by (auto simp: accepted_def filter_packet_def split: option.splits if_splits packet_filter.splits)
    obtain d g' where g': "pofdp_forward set_goto_first_table_instruction (recv_dpp dp stk port frame, hn_obj lr, g)
        = Some (POF_OK, d, hn_obj lr, g')" "chan_ok g'" "sending g'" "g_poflr_dev_id g' = g_poflr_dev_id g" "g_upward_xid g' = g_upward_xid g + 1"
      "send_queue g' = send_queue g @ [packet_in_message (g_upward_xid g) (g_poflr_dev_id g) (pi_pofIndex port) frame]"
      using execute_first_miss [OF assms(1,2) _ f(4) S(5-7), of port dp stk] assms(4,5) Some f(1) by (auto simp: sound_event_def)
    then show ?thesis using Some f assms(4) S(3,7) w by (simp add: pofdp_recv_raw_step_def sound_event_def)
  qed
qed

lemma first_lookup_enable [simp]: "first_lookup table (port\<lparr>pi_of_enable := e\<rparr>) frame = first_lookup table port frame"
  by (simp add: first_lookup_def first_metadata_def)

lemma recv_loop_misses:
  assumes "chan_ok g" "sending g" "first_table dp (pi_slotID port) table"
    and "\<forall>e \<in> set events. sound_event e"
    and "\<forall>frame \<in> set (List.map_filter (accepted (dp_filter dp)) events). first_lookup table port frame = Some None"
  shows "\<exists>g'. recv_raw_loop port events (dp, g)
      = Some (dp\<lparr>pktCount := pktCount dp + of_nat (length (List.map_filter (accepted (dp_filter dp)) events))\<rparr>, g')
    \<and> send_queue g' = send_queue g @ packet_ins (g_upward_xid g) (g_poflr_dev_id g) (pi_pofIndex port)
        (List.map_filter (accepted (dp_filter dp)) events)"
  using assms
proof (induction events arbitrary: dp g)
  case Nil
  then show ?case by (simp add: map_filter_simps)
next
  case (Cons ev events)
  obtain e stk received t where ev: "ev = (e, stk, received, t)" by (metis prod_cases4)
  let ?a = "accepted (dp_filter dp) ev" and ?p = "port\<lparr>pi_of_enable := e\<rparr>"
  let ?dp = "case ?a of None \<Rightarrow> dp | Some _ \<Rightarrow> dp\<lparr>pktCount := pktCount dp + 1\<rparr>"
  have sound: "sound_event (pi_of_enable ?p, stk, received, t)" using Cons.prems(4) by (simp add: ev)
  have miss: "\<forall>frame. accepted (dp_filter dp) (pi_of_enable ?p, stk, received, t) = Some frame \<longrightarrow> first_lookup table ?p frame = Some None"
    using Cons.prems(5) by (simp add: ev map_filter_simps)
  obtain g1 where g1: "pofdp_recv_raw_step stk ?p received t (dp, g) = Some (?dp, g1)" "chan_ok g1" "sending g1"
    "g_poflr_dev_id g1 = g_poflr_dev_id g"
    "case ?a of None \<Rightarrow> send_queue g1 = send_queue g \<and> g_upward_xid g1 = g_upward_xid g
       | Some frame \<Rightarrow> g_upward_xid g1 = g_upward_xid g + 1
           \<and> send_queue g1 = send_queue g @ [packet_in_message (g_upward_xid g) (g_poflr_dev_id g) (pi_pofIndex port) frame]"
    using recv_step_miss [OF Cons.prems(1,2) _ sound miss] Cons.prems(3) by (auto simp: ev cong: option.case_cong)
  have dp: "first_table ?dp (pi_slotID port) table" "dp_filter ?dp = dp_filter dp" using Cons.prems(3) by (auto split: option.splits)
  obtain g2 where g2: "recv_raw_loop port events (?dp, g1)
      = Some (?dp\<lparr>pktCount := pktCount ?dp + of_nat (length (List.map_filter (accepted (dp_filter dp)) events))\<rparr>, g2)"
    "send_queue g2 = send_queue g1 @ packet_ins (g_upward_xid g1) (g_poflr_dev_id g1) (pi_pofIndex port)
        (List.map_filter (accepted (dp_filter dp)) events)"
    using Cons.IH [OF g1(2,3) dp(1)] Cons.prems(4,5) unfolding dp(2) by (auto simp: map_filter_simps split: option.splits)
  show ?case using g1 g2 by (cases ?a) (auto simp: ev map_filter_simps add.assoc)
qed

text \<open>
  C39. The receive task of a port whose frames match no entry of the first table. When its
  sockets are made and the channel works, it keeps receiving, and for any sequence of frames, dropped or not,
  the queue to the controller gets exactly one \<^verbatim>\<open>PACKET_IN\<close> message for each frame the port and the
  filter let through, in the order of arrival, with the port, the length and the bytes of the frame
  and consecutive transaction ids; the frames are counted and the datapath is otherwise unchanged.
\<close>

theorem recv_task_reports_misses:
  assumes "chan_ok (pr_g s)" "sending (pr_g s)" "\<And>n. os_socket (os (pr_g s) n) \<noteq> None \<and> os_bind (os (pr_g s) n)"
    and "first_table (pr_dp s) (pi_slotID port) table"
    and "\<forall>e \<in> set events. sound_event e"
    and "frames = List.map_filter (accepted (dp_filter (pr_dp s))) events"
    and "\<forall>frame \<in> set frames. first_lookup table port frame = Some None"
  shows "\<exists>s'. pofdp_recv_raw_task port events s = Some (Task_Receiving s')
    \<and> pr_dp s' = (pr_dp s)\<lparr>pktCount := pktCount (pr_dp s) + of_nat (length frames)\<rparr>
    \<and> send_queue (pr_g s') = send_queue (pr_g s)
        @ packet_ins (g_upward_xid (pr_g s)) (g_poflr_dev_id (pr_g s)) (pi_pofIndex port) frames"
proof -
  let ?g = "(pr_g s)\<lparr>os_n := os_n (pr_g s) + 3\<rparr>"
  have g: "chan_ok ?g" "sending ?g" using assms(1,2) by (simp_all add: chan_ok_def sending_def)
  obtain g' where "recv_raw_loop port events (pr_dp s, ?g) = Some ((pr_dp s)\<lparr>pktCount := pktCount (pr_dp s) + of_nat (length frames)\<rparr>, g')"
    "send_queue g' = send_queue (pr_g s) @ packet_ins (g_upward_xid (pr_g s)) (g_poflr_dev_id (pr_g s)) (pi_pofIndex port) frames"
    using recv_loop_misses [OF g assms(4,5) assms(7) [unfolded assms(6)]] assms(6) by auto
  moreover obtain lr where "pofdp_get_local_resource (pi_slotID port) (pr_dp s) = Some (Some lr)"
    using assms(4) by (auto simp: first_table_def)
  ultimately show ?thesis using assms(3) by (simp add: pofdp_recv_raw_task_def sys_def recv_check_def eval_nat_numeral)
qed

text \<open>A switch with one slot whose first table is empty, and three events.\<close>

definition miss_lr :: pof_local_resource where
  "miss_lr = example_lr\<lparr>tableIdMap := Some \<lparr>hm_buckets = [[\<lparr>hn_ptr = 2, hn_hash = 0, hn_obj = example_table 0 []\<rparr>]], hm_mask = 0, hm_n = 1\<rparr>\<rparr>"

definition miss_dp :: pof_datapath where
  "miss_dp = example_dp\<lparr>slotMap := Some \<lparr>hm_buckets = [[\<lparr>hn_ptr = 1, hn_hash = 0, hn_obj = miss_lr\<rparr>]], hm_mask = 0, hm_n = 1\<rparr>\<rparr>"

definition miss_events :: "recv_event list" where
  "miss_events = [(1, replicate 64 0, Some [1, 2, 3], 0), (1, replicate 64 0, Some [4, 5], 4), (1, replicate 64 0, None, 0),
     (1, replicate 64 0, Some [6], 1)]"

lemma recv_task_reports_misses_witness:
  "\<exists>s'. pofdp_recv_raw_task example_port miss_events (example_proc\<lparr>pr_dp := miss_dp, pr_g := example_glob\<rparr>) = Some (Task_Receiving s')
    \<and> pktCount (pr_dp s') = 2
    \<and> send_queue (pr_g s') = [packet_in_message 2 3 3 [1, 2, 3], packet_in_message 3 3 3 [6]]"
proof -
  let ?s = "example_proc\<lparr>pr_dp := miss_dp, pr_g := example_glob\<rparr>"
  have frames: "[[1, 2, 3], [6]] = List.map_filter (accepted (dp_filter (pr_dp ?s))) miss_events"
    by (simp add: miss_events_def map_filter_simps accepted_def)
  have get: "pofdp_get_local_resource 0 miss_dp = Some (Some \<lparr>hn_ptr = 1, hn_hash = 0, hn_obj = miss_lr\<rparr>)"
    "poflr_get_table_with_ID 0 miss_lr = Some (Some \<lparr>hn_ptr = 2, hn_hash = 0, hn_obj = example_table 0 []\<rparr>)"
    by (simp_all add: pofdp_get_local_resource_def poflr_get_table_with_ID_def miss_dp_def miss_lr_def hmap_nodeGetWithHash_def
        bucketWithHash_def rd_def hmap_hashForLinear_def map_tableHashByID_def)
  have num: "tableNumMaxEachType miss_lr = [2, 2, 2, 2]" by (simp add: miss_lr_def example_lr_def)
  have "first_table miss_dp 0 (example_table 0 [])" unfolding first_table_def
    by (intro exI conjI, rule_tac [3] get(1)) (auto simp: get(2) num miss_dp_def hmap_nodes_def hmap_ok_def bucketWithHash_def)
  moreover have "first_lookup (example_table 0 []) example_port [1, 2, 3] = Some None"
    "first_lookup (example_table 0 []) example_port [6] = Some None" by code_simp+
  ultimately show ?thesis
    using recv_task_reports_misses [OF _ _ _ _ _ frames, of example_port "example_table 0 []"] example_glob_ok
    by (auto simp: miss_events_def sound_event_def example_port_def example_glob_def example_os_def miss_dp_def example_dp_def)
qed

end
