(* ===== verification/Pof_Listen.thy ===== *)
theory Pof_Listen
  imports Pof_Config Pof_Local_Resource
begin

text \<open>
  The control port of the switch: \<^verbatim>\<open>switch_control/pof_switch_listen.c\<close>. A client sends commands of
  65 bytes; the switch answers with its structures as they lie in memory.

  What the compiler decides is an argument: the memory of a structure, which holds pointers and
  padding too and is therefore a function of the number of the \<^verbatim>\<open>send\<close> as well. A \<^verbatim>\<open>send\<close> fails or
  takes everything. \<open>left\<close> is the value found in the place of a missing return value.
\<close>

section \<open>Commands\<close>

datatype pof_usr_cmd =
    POFUC_help | POFUC_quit | POFUC_exit | POFUC_switch_config | POFUC_switch_feature | POFUC_table_resource
  | POFUC_ports | POFUC_tables | POFUC_groups | POFUC_meters | POFUC_counters | POFUC_version | POFUC_state
  | POFUC_enable_promisc | POFUC_disable_promisc | POFUC_addport | POFUC_delport | POFUC_test
  | POFUC_clear_resource | POFUC_enable_debug | POFUC_disable_debug | POFUC_enable_color | POFUC_disable_color
  | POFUC_memory

definition COMMANDS :: "(pof_usr_cmd \<times> string) list" where
  "COMMANDS = [(POFUC_help, ''help''), (POFUC_quit, ''quit''), (POFUC_exit, ''exit''), (POFUC_switch_config, ''switch_config''),
     (POFUC_switch_feature, ''switch_feature''), (POFUC_table_resource, ''table_resource''), (POFUC_ports, ''ports''),
     (POFUC_tables, ''tables''), (POFUC_groups, ''groups''), (POFUC_meters, ''meters''), (POFUC_counters, ''counters''),
     (POFUC_version, ''version''), (POFUC_state, ''state''), (POFUC_enable_promisc, ''enable_promisc''),
     (POFUC_disable_promisc, ''disable_promisc''), (POFUC_addport, ''addport''), (POFUC_delport, ''delport''), (POFUC_test, ''test''),
     (POFUC_clear_resource, ''clear_resource''), (POFUC_enable_debug, ''enable_debug''), (POFUC_disable_debug, ''disable_debug''),
     (POFUC_enable_color, ''enable_color''), (POFUC_disable_color, ''disable_color''), (POFUC_memory, ''memory'')]"

text \<open>The number of a command is its position.\<close>

fun cmd_num :: "(pof_usr_cmd \<times> string) list \<Rightarrow> pof_usr_cmd \<Rightarrow> nat" where
  "cmd_num [] c = 0"
| "cmd_num ((d, _) # cs) c = (if c = d then 0 else Suc (cmd_num cs c))"

definition usr_cmd_val :: "pof_usr_cmd \<Rightarrow> u8" where
  "usr_cmd_val c = of_nat (cmd_num COMMANDS c)"

definition usr_cmd_of :: "u8 \<Rightarrow> pof_usr_cmd option" where
  "usr_cmd_of b = (if unat b < length COMMANDS then Some (fst (COMMANDS ! unat b)) else None)"

section \<open>Connections\<close>

text \<open>What a \<^verbatim>\<open>recv\<close> gives: the peer has closed, an error, or bytes.\<close>

datatype recvd = Closed | Failed | Got bytes

record peer =
  pe_out :: bytes
  pe_sends :: nat
  pe_send_ok :: "nat \<Rightarrow> bool"
  pe_recvs :: nat
  pe_recv :: "nat \<Rightarrow> recvd"

record layout =
  raw_port :: "nat \<Rightarrow> portInfo hnode \<Rightarrow> bytes"
  raw_table :: "nat \<Rightarrow> tableInfo hnode \<Rightarrow> bytes"
  raw_entry :: "nat \<Rightarrow> entryInfo hnode \<Rightarrow> bytes"
  raw_group :: "nat \<Rightarrow> groupInfo hnode \<Rightarrow> bytes"
  raw_meter :: "nat \<Rightarrow> meterInfo hnode \<Rightarrow> bytes"
  raw_counter :: "nat \<Rightarrow> counterInfo hnode \<Rightarrow> bytes"
  raw_state :: "pof_state \<Rightarrow> bytes"

record lst =
  ls_peer :: peer
  ls_conf :: config
  ls_dp :: pof_datapath
  ls_g :: glob

definition send :: "bytes \<Rightarrow> lst \<Rightarrow> bool \<times> lst" where
  "send b s = (let p = ls_peer s; ok = pe_send_ok p (pe_sends p) in
     (ok, s\<lparr>ls_peer := p\<lparr>pe_sends := pe_sends p + 1, pe_out := (if ok then pe_out p @ b else pe_out p)\<rparr>\<rparr>))"

text \<open>\<^verbatim>\<open>recv\<close> into the zeroed 65 bytes of a command; nothing received means that the peer has closed.\<close>

definition recv :: "lst \<Rightarrow> recvd \<times> lst" where
  "recv s = (let p = ls_peer s in
     (case pe_recv p (pe_recvs p) of Got b \<Rightarrow> if b = [] then Closed else Got (take 65 b) | x \<Rightarrow> x,
      s\<lparr>ls_peer := p\<lparr>pe_recvs := pe_recvs p + 1\<rparr>\<rparr>))"

definition responseHead :: "u32 \<Rightarrow> string \<Rightarrow> bytes" where
  "responseHead count disc = le_bytes 4 count @ asc disc @ replicate (100 - length disc) 0"

section \<open>Handlers\<close>

type_synonym listened = "(ret \<times> lst) option"

definition sent_or_error :: "bool \<times> lst \<Rightarrow> listened" where
  "sent_or_error x = (case x of (ok, s) \<Rightarrow> Some (if ok then POF_OK else POF_ERROR, s))"

definition listen_switch_config :: "lst \<Rightarrow> listened" where
  "listen_switch_config s = sent_or_error (send (poflr_switch_config (ls_g s)) s)"

definition listen_switch_feature :: "lst \<Rightarrow> listened" where
  "listen_switch_feature s = sent_or_error (send (poflr_switch_feature (ls_g s)) s)"

definition listen_table_resource :: "lst \<Rightarrow> listened" where
  "listen_table_resource s = sent_or_error (send (poflr_table_resource_desc (ls_g s)) s)"

text \<open>
  A \<^verbatim>\<open>send\<close> inside a loop, which leaves the routine when it fails; the loop over the slots; and the
  loop over the structures of a slot behind their number.
\<close>

definition send_loop :: "bytes \<Rightarrow> lst \<Rightarrow> (ret option \<times> lst) option" where
  "send_loop b s = (case send b s of (ok, s') \<Rightarrow> Some (if ok then None else Some POF_ERROR, s'))"

definition listen_slots :: "(pof_local_resource \<Rightarrow> lst \<Rightarrow> (ret option \<times> lst) option) \<Rightarrow> lst \<Rightarrow> listened" where
  "listen_slots body s = (case send (responseHead (slotNum (ls_dp s)) ''slots'') s of (ok, s1) \<Rightarrow>
     if \<not> ok then Some (POF_ERROR, s1)
     else do {
       (r, s2) \<leftarrow> hmap_struct_traverse (slotMap \<circ> ls_dp) (\<lambda>lr s. body (hn_obj lr) s) s1;
       Some (case r of Some v \<Rightarrow> v | None \<Rightarrow> POF_OK, s2)
     })"

definition listen_map ::
  "u32 \<Rightarrow> string \<Rightarrow> 'a hmap option \<Rightarrow> ('a hnode \<Rightarrow> lst \<Rightarrow> (ret option \<times> lst) option) \<Rightarrow> lst \<Rightarrow> (ret option \<times> lst) option" where
  "listen_map count disc m body s = (case send (responseHead count disc) s of (ok, s1) \<Rightarrow>
     if \<not> ok then Some (Some POF_ERROR, s1) else hmap_struct_traverse (\<lambda>_. m) body s1)"

abbreviation sends_of :: "lst \<Rightarrow> nat" where
  "sends_of s \<equiv> pe_sends (ls_peer s)"

definition listen_ports :: "layout \<Rightarrow> lst \<Rightarrow> listened" where
  "listen_ports lay = listen_slots (\<lambda>lr. listen_map (ucast (portNum lr)) ''ports'' (portPofIndexMap lr)
     (\<lambda>p s. send_loop (raw_port lay (sends_of s) p) s))"

definition listen_tables :: "layout \<Rightarrow> lst \<Rightarrow> listened" where
  "listen_tables lay = listen_slots (\<lambda>lr. listen_map (ucast (tableNum lr)) ''tables'' (tableIdMap lr)
     (\<lambda>table s. case send (raw_table lay (sends_of s) table) s of (ok, s1) \<Rightarrow>
        if \<not> ok then Some (Some POF_ERROR, s1)
        else listen_map (ti_entryNum (hn_obj table)) ''entries'' (ti_entryMap (hn_obj table))
          (\<lambda>entry s. send_loop (raw_entry lay (sends_of s) entry) s) s1))"

definition listen_groups :: "layout \<Rightarrow> lst \<Rightarrow> listened" where
  "listen_groups lay = listen_slots (\<lambda>lr. listen_map (groupNum lr) ''groups'' (groupMap lr)
     (\<lambda>p s. send_loop (raw_group lay (sends_of s) p) s))"

definition listen_meters :: "layout \<Rightarrow> lst \<Rightarrow> listened" where
  "listen_meters lay = listen_slots (\<lambda>lr. listen_map (meterNum lr) ''meters'' (meterMap lr)
     (\<lambda>p s. send_loop (raw_meter lay (sends_of s) p) s))"

definition listen_counters :: "layout \<Rightarrow> lst \<Rightarrow> listened" where
  "listen_counters lay = listen_slots (\<lambda>lr. listen_map (counterNum lr) ''counters'' (counterMap lr)
     (\<lambda>p s. send_loop (raw_counter lay (sends_of s) p) s))"

text \<open>100 bytes are read from the array of the version text.\<close>

definition listen_version :: "lst \<Rightarrow> listened" where
  "listen_version s = do { v \<leftarrow> mem_read (g_versionStr (ls_g s)) 100; sent_or_error (send v s) }"

definition listen_state :: "layout \<Rightarrow> lst \<Rightarrow> listened" where
  "listen_state lay s = sent_or_error (send (raw_state lay (cf_states (ls_conf s))) s)"

definition promisc_text :: "string \<Rightarrow> config \<Rightarrow> config option" where
  "promisc_text txt = set_state (\<lambda>st. do { t \<leftarrow> strncpy_to 63 (asc txt) (st_promisc_on st); Some (st\<lparr>st_promisc_on := t\<rparr>) })"

definition listen_enable_promisc :: "lst \<Rightarrow> listened" where
  "listen_enable_promisc s = do {
     c \<leftarrow> promisc_text ''ON'' (ls_conf s);
     Some (POF_OK, s\<lparr>ls_dp := (ls_dp s)\<lparr>dp_filter := pofdp_promisc\<rparr>, ls_conf := c\<rparr>)
   }"

definition listen_disable_promisc :: "lst \<Rightarrow> listened" where
  "listen_disable_promisc s = do {
     c \<leftarrow> promisc_text ''OFF'' (ls_conf s);
     Some (POF_OK, s\<lparr>ls_dp := (ls_dp s)\<lparr>dp_filter := pofdp_no_promisc\<rparr>, ls_conf := c\<rparr>)
   }"

text \<open>
  The argument is an array of 64 characters. Splitting it at commas stays inside when it is
  terminated or when the second token ends at a comma.
\<close>

definition arg_split :: "bytes \<Rightarrow> bytes option list option" where
  "arg_split arg = (case strtok [44] arg of (_, r) \<Rightarrow>
     if 0 \<in> set arg \<or> dropWhile (\<lambda>b. b \<noteq> 44) (dropWhile (\<lambda>b. b = 44) r) \<noteq> [] then Some (pofbf_split_str 2 [44] (c_str arg))
     else None)"

definition arg_slot :: "bytes option \<Rightarrow> u16 option" where
  "arg_slot t = (case t of Some a \<Rightarrow> map_option word_of_int (atoi a) | None \<Rightarrow> Some 0)"

definition custom_ports :: "pof_datapath \<Rightarrow> bool" where
  "custom_ports dp \<longleftrightarrow> pm_portFlag (dp_param dp) AND 1 \<noteq> 0"

definition listen_addport :: "bytes \<Rightarrow> lst \<Rightarrow> listened" where
  "listen_addport arg s = (
     if \<not> custom_ports (ls_dp s) then Some (POF_ERROR, s)
     else do {
       ts \<leftarrow> arg_split arg;
       slot \<leftarrow> arg_slot (ts ! 1);
       q \<leftarrow> pofdp_get_local_resource slot (ls_dp s);
       (case q of
          None \<Rightarrow> Some (POF_ERROR, s)
        | Some n \<Rightarrow> do {
            name \<leftarrow> ts ! 0;
            (_, lr, g) \<leftarrow> poflr_add_port name (hn_obj n) (ls_g s);
            Some (POF_OK, s\<lparr>ls_dp := slot_write (hn_ptr n) lr (ls_dp s), ls_g := g\<rparr>)
          })
     })"

text \<open>
  The deletion is given the whole argument, in which the splitting has put a zero behind the
  first token; commas in front of the token are still part of it.
\<close>

definition listen_delport :: "ret \<Rightarrow> bytes \<Rightarrow> lst \<Rightarrow> listened" where
  "listen_delport left arg s = (
     if \<not> custom_ports (ls_dp s) then Some (left, s)
     else do {
       ts \<leftarrow> arg_split arg;
       slot \<leftarrow> arg_slot (ts ! 1);
       q \<leftarrow> pofdp_get_local_resource slot (ls_dp s);
       (case q of
          None \<Rightarrow> Some (POF_ERROR, s)
        | Some n \<Rightarrow> do {
            let name = (case ts ! 0 of Some t \<Rightarrow> takeWhile (\<lambda>b. b = 44) arg @ t | None \<Rightarrow> c_str arg);
            (_, lr, g) \<leftarrow> poflr_del_port name (hn_obj n) (ls_g s);
            Some (POF_OK, s\<lparr>ls_dp := slot_write (hn_ptr n) lr (ls_dp s), ls_g := g\<rparr>)
          })
     })"

section \<open>The task\<close>

text \<open>Help, quit, exit, test and the commands of the console only do nothing here.\<close>

definition listen_cmd :: "layout \<Rightarrow> ret \<Rightarrow> pof_usr_cmd \<Rightarrow> bytes \<Rightarrow> lst \<Rightarrow> listened" where
  "listen_cmd lay left c arg s = (case c of
      POFUC_switch_config \<Rightarrow> listen_switch_config s
    | POFUC_switch_feature \<Rightarrow> listen_switch_feature s
    | POFUC_table_resource \<Rightarrow> listen_table_resource s
    | POFUC_ports \<Rightarrow> listen_ports lay s
    | POFUC_tables \<Rightarrow> listen_tables lay s
    | POFUC_groups \<Rightarrow> listen_groups lay s
    | POFUC_meters \<Rightarrow> listen_meters lay s
    | POFUC_counters \<Rightarrow> listen_counters lay s
    | POFUC_version \<Rightarrow> listen_version s
    | POFUC_state \<Rightarrow> listen_state lay s
    | POFUC_enable_promisc \<Rightarrow> listen_enable_promisc s
    | POFUC_disable_promisc \<Rightarrow> listen_disable_promisc s
    | POFUC_addport \<Rightarrow> listen_addport arg s
    | POFUC_delport \<Rightarrow> listen_delport left arg s
    | _ \<Rightarrow> Some (POF_OK, s))"

text \<open>
  The number of received bytes is unsigned, so an error of \<^verbatim>\<open>recv\<close> is not recognised: the zeroed
  command is \<^verbatim>\<open>help\<close>.
\<close>

partial_function (option) listenRecv :: "layout \<Rightarrow> ret \<Rightarrow> lst \<Rightarrow> (ret \<times> lst) option" where
  "listenRecv lay left s = (case recv s of (x, s1) \<Rightarrow>
     if x = Closed then Some (POF_OK, s1)
     else let cmd = (case x of Got b \<Rightarrow> b @ replicate (65 - length b) 0 | _ \<Rightarrow> replicate 65 0) in
       case usr_cmd_of (hd cmd) of
         None \<Rightarrow> listenRecv lay left s1
       | Some c \<Rightarrow> do {
           (r, s2) \<leftarrow> listen_cmd lay left c (tl cmd) s1;
           (if r \<noteq> POF_OK then Some (POF_OK, s2) else listenRecv lay left s2)
         })"

declare listenRecv.simps [code]

text \<open>The socket calls of the task; the n-th \<^verbatim>\<open>accept\<close> gives a connection or fails.\<close>

record listen_os =
  lo_socket :: bool
  lo_setsockopt :: bool
  lo_bind :: bool
  lo_listen :: bool
  lo_accept :: "nat \<Rightarrow> peer option"

definition tcpCreateSock :: "listen_os \<Rightarrow> ret" where
  "tcpCreateSock lo = (if lo_socket lo then POF_OK else POF_ERROR)"

definition tcpBindSock :: "listen_os \<Rightarrow> ret" where
  "tcpBindSock lo = (if \<not> lo_setsockopt lo then POF_ERROR else if \<not> lo_bind lo then POF_ERROR else POF_OK)"

definition tcpListen :: "listen_os \<Rightarrow> ret" where
  "tcpListen lo = (if lo_listen lo then POF_OK else POF_ERROR)"

partial_function (option) accept_loop :: "layout \<Rightarrow> ret \<Rightarrow> listen_os \<Rightarrow> nat \<Rightarrow> lst \<Rightarrow> lst option" where
  "accept_loop lay left lo k s = (case lo_accept lo k of
      None \<Rightarrow> Some s
    | Some p \<Rightarrow> do {
        (_, s1) \<leftarrow> listenRecv lay left (s\<lparr>ls_peer := p\<rparr>);
        accept_loop lay left lo (Suc k) s1
      })"

declare accept_loop.simps [code]

text \<open>A failure before the loop ends the process through \<^verbatim>\<open>terminate_handler\<close>.\<close>

datatype listen_end = Terminate | Ended lst

definition pof_switch_listen_task :: "layout \<Rightarrow> ret \<Rightarrow> listen_os \<Rightarrow> lst \<Rightarrow> listen_end option" where
  "pof_switch_listen_task lay left lo s = (
     if tcpCreateSock lo \<noteq> POF_OK then Some Terminate
     else if tcpBindSock lo \<noteq> POF_OK then Some Terminate
     else if tcpListen lo \<noteq> POF_OK then Some Terminate
     else map_option Ended (accept_loop lay left lo 0 s))"

end
