(* ===== verification/Pof_Sctrl.thy ===== *)
theory Pof_Sctrl
  imports Pof_Listen
begin

text \<open>
  The client of the control port, a program of its own: \<^verbatim>\<open>switch_control/pof_sctrl.c\<close>. It reads
  commands from its input, sends them to the switch and hands the structures it receives to the
  printing routines, which are not modelled: what they are given is recorded.
\<close>

section \<open>State\<close>

datatype printed =
    PrintText bytes | PrintSlot u16 | PrintConfig bytes | PrintFeature bytes | PrintResource bytes | PrintVersion bytes
  | PrintState pof_state | PrintPort portInfo | PrintTable tableInfo | PrintEntry entryInfo | PrintGroup groupInfo
  | PrintMeter meterInfo | PrintCounter counterInfo

text \<open>
  The bytes the switch has sent and still will send, up to where it closes the connection. The
  n-th \<^verbatim>\<open>recv\<close> fails or gives at most so many of the bytes asked for.
\<close>

record ctl =
  ct_in :: bytes
  ct_reads :: nat
  ct_read :: "nat \<Rightarrow> nat \<Rightarrow> nat option"
  ct_out :: bytes
  ct_sends :: nat
  ct_send_ok :: "nat \<Rightarrow> bool"
  ct_stdin :: bytes
  ct_print :: "printed list"

text \<open>Structures as the client sees them: their sizes and how memory is read as a structure.\<close>

record view =
  sz_port :: nat
  view_port :: "bytes \<Rightarrow> portInfo"
  sz_table :: nat
  view_table :: "bytes \<Rightarrow> tableInfo"
  sz_entry :: nat
  view_entry :: "bytes \<Rightarrow> entryInfo"
  sz_group :: nat
  view_group :: "bytes \<Rightarrow> groupInfo"
  sz_meter :: nat
  view_meter :: "bytes \<Rightarrow> meterInfo"
  sz_counter :: nat
  view_counter :: "bytes \<Rightarrow> counterInfo"
  sz_state :: nat
  view_state :: "bytes \<Rightarrow> pof_state"

datatype sctrl = SCTRL_OK | SCTRL_QUIT | SCTRL_RECONN | SCTRL_ERROR

definition show_data :: "printed \<Rightarrow> ctl \<Rightarrow> sctrl \<times> ctl" where
  "show_data p s = (SCTRL_OK, s\<lparr>ct_print := ct_print s @ [p]\<rparr>)"

section \<open>Transfer\<close>

text \<open>The length is unsigned, so a failing \<^verbatim>\<open>recv\<close> is a wrong length and not a lost connection.\<close>

definition cmdRecv :: "nat \<Rightarrow> ctl \<Rightarrow> sctrl \<times> bytes \<times> ctl" where
  "cmdRecv structLen s = (let s1 = s\<lparr>ct_reads := ct_reads s + 1\<rparr> in
     case ct_read s (ct_reads s) structLen of
       None \<Rightarrow> (SCTRL_ERROR, [], s1)
     | Some n \<Rightarrow> let b = take (min n structLen) (ct_in s); s2 = s1\<lparr>ct_in := drop (length b) (ct_in s)\<rparr> in
         if b = [] then (SCTRL_RECONN, b, s2)
         else if length b \<noteq> structLen then (SCTRL_ERROR, b, s2)
         else (SCTRL_OK, b, s2))"

definition cmdSend :: "pof_usr_cmd \<Rightarrow> bytes \<Rightarrow> ctl \<Rightarrow> sctrl \<times> ctl" where
  "cmdSend c arg s = (let s1 = s\<lparr>ct_sends := ct_sends s + 1\<rparr> in
     if \<not> ct_send_ok s (ct_sends s) then (SCTRL_RECONN, s1)
     else (SCTRL_OK, s1\<lparr>ct_out := ct_out s @ usr_cmd_val c # strncpy 64 arg\<rparr>))"

text \<open>The returns of the source: the first step that is not \<^verbatim>\<open>SCTRL_OK\<close> is the result.\<close>

definition recv_then :: "nat \<Rightarrow> (bytes \<Rightarrow> ctl \<Rightarrow> sctrl \<times> ctl) \<Rightarrow> ctl \<Rightarrow> sctrl \<times> ctl" where
  "recv_then n f s = (case cmdRecv n s of (r, b, s1) \<Rightarrow> if r \<noteq> SCTRL_OK then (r, s1) else f b s1)"

definition send_then :: "pof_usr_cmd \<Rightarrow> (ctl \<Rightarrow> sctrl \<times> ctl) \<Rightarrow> ctl \<Rightarrow> sctrl \<times> ctl" where
  "send_then c f s = (case cmdSend c [] s of (r, s1) \<Rightarrow> if r \<noteq> SCTRL_OK then (r, s1) else f s1)"

primrec times :: "nat \<Rightarrow> (ctl \<Rightarrow> sctrl \<times> ctl) \<Rightarrow> ctl \<Rightarrow> sctrl \<times> ctl" where
  "times 0 f s = (SCTRL_OK, s)"
| "times (Suc n) f s = (case f s of (r, s1) \<Rightarrow> if r \<noteq> SCTRL_OK then (r, s1) else times n f s1)"

definition count_of :: "bytes \<Rightarrow> nat" where
  "count_of head = unat (of_le (take 4 head) :: u32)"

definition recv_counted :: "(ctl \<Rightarrow> sctrl \<times> ctl) \<Rightarrow> ctl \<Rightarrow> sctrl \<times> ctl" where
  "recv_counted f = recv_then 104 (\<lambda>head. times (count_of head) f)"

section \<open>Commands\<close>

definition cmd_help :: "ctl \<Rightarrow> sctrl \<times> ctl" where
  "cmd_help s = (SCTRL_OK, s\<lparr>ct_print := ct_print s
     @ map (\<lambda>(_, txt). PrintText (asc txt)) (takeWhile (\<lambda>(c, _). usr_cmd_val c \<le> usr_cmd_val POFUC_test) COMMANDS)\<rparr>)"

definition cmd_switch_config :: "ctl \<Rightarrow> sctrl \<times> ctl" where
  "cmd_switch_config = send_then POFUC_switch_config (recv_then 8 (\<lambda>b. show_data (PrintConfig b)))"

definition cmd_switch_feature :: "ctl \<Rightarrow> sctrl \<times> ctl" where
  "cmd_switch_feature = send_then POFUC_switch_feature (recv_then 208 (\<lambda>b. show_data (PrintFeature b)))"

definition cmd_table_resource :: "ctl \<Rightarrow> sctrl \<times> ctl" where
  "cmd_table_resource = send_then POFUC_table_resource (recv_then 80 (\<lambda>b. show_data (PrintResource b)))"

definition cmd_ports :: "view \<Rightarrow> ctl \<Rightarrow> sctrl \<times> ctl" where
  "cmd_ports v = send_then POFUC_ports (recv_counted (recv_counted
     (recv_then (sz_port v) (\<lambda>b. show_data (PrintPort (view_port v b))))))"

definition cmd_tables :: "view \<Rightarrow> ctl \<Rightarrow> sctrl \<times> ctl" where
  "cmd_tables v = send_then POFUC_tables (recv_counted (recv_counted
     (recv_then (sz_table v) (\<lambda>b s. case show_data (PrintTable (view_table v b)) s of (_, s1) \<Rightarrow>
        recv_counted (recv_then (sz_entry v) (\<lambda>b. show_data (PrintEntry (view_entry v b)))) s1))))"

definition cmd_groups :: "view \<Rightarrow> ctl \<Rightarrow> sctrl \<times> ctl" where
  "cmd_groups v = send_then POFUC_groups (recv_counted (recv_counted
     (recv_then (sz_group v) (\<lambda>b. show_data (PrintGroup (view_group v b))))))"

definition cmd_meters :: "view \<Rightarrow> ctl \<Rightarrow> sctrl \<times> ctl" where
  "cmd_meters v = send_then POFUC_meters (recv_counted (recv_counted
     (recv_then (sz_meter v) (\<lambda>b. show_data (PrintMeter (view_meter v b))))))"

definition cmd_counters :: "view \<Rightarrow> ctl \<Rightarrow> sctrl \<times> ctl" where
  "cmd_counters v = send_then POFUC_counters (recv_counted (recv_counted
     (recv_then (sz_counter v) (\<lambda>b. show_data (PrintCounter (view_counter v b))))))"

definition cmd_version :: "ctl \<Rightarrow> sctrl \<times> ctl" where
  "cmd_version = send_then POFUC_version (recv_then 100 (\<lambda>b. show_data (PrintVersion b)))"

definition cmd_state :: "view \<Rightarrow> ctl \<Rightarrow> sctrl \<times> ctl" where
  "cmd_state v = send_then POFUC_state (recv_then (sz_state v) (\<lambda>b. show_data (PrintState (view_state v b))))"

definition cmd_enable_promisc :: "ctl \<Rightarrow> sctrl \<times> ctl" where
  "cmd_enable_promisc = cmdSend POFUC_enable_promisc []"

definition cmd_disable_promisc :: "ctl \<Rightarrow> sctrl \<times> ctl" where
  "cmd_disable_promisc = cmdSend POFUC_disable_promisc []"

definition cmd_addport :: "bytes option \<Rightarrow> ctl \<Rightarrow> sctrl \<times> ctl" where
  "cmd_addport arg s = (case arg of None \<Rightarrow> (SCTRL_OK, s) | Some a \<Rightarrow> cmdSend POFUC_addport a s)"

definition cmd_delport :: "bytes option \<Rightarrow> ctl \<Rightarrow> sctrl \<times> ctl" where
  "cmd_delport arg s = (case arg of None \<Rightarrow> (SCTRL_OK, s) | Some a \<Rightarrow> cmdSend POFUC_delport a s)"

section \<open>Reading commands\<close>

text \<open>
  \<^verbatim>\<open>fgets\<close> into an array of \<open>n\<close> characters: a line with its line feed, cut to \<open>n - 1\<close> characters.
  The last character is then overwritten, whatever it is; of an empty string the byte in front of
  the array would be.
\<close>

definition fgets :: "nat \<Rightarrow> bytes \<Rightarrow> bytes option" where
  "fgets n inp = (if inp = [] then None
     else let l = take (n - 1) inp in Some (takeWhile (\<lambda>b. b \<noteq> 10) l @ (if 10 \<in> set l then [10] else [])))"

datatype got_cmd = Cmd pof_usr_cmd | POF_CMD_EMPTY | POF_CMD_WRONG

definition find_cmd :: "bytes \<Rightarrow> got_cmd" where
  "find_cmd txt = (case find (\<lambda>(_, name). asc name = txt) COMMANDS of Some (c, _) \<Rightarrow> Cmd c | None \<Rightarrow> POF_CMD_WRONG)"

definition split_cmd :: "bytes \<Rightarrow> (got_cmd \<times> bytes option) option" where
  "split_cmd line = (if c_str line = [] then None
     else let ts = pofbf_split_str 2 [32] (butlast (c_str line)) in
       Some (case ts ! 0 of None \<Rightarrow> POF_CMD_EMPTY | Some txt \<Rightarrow> find_cmd txt, ts ! 1))"

definition cmdGet :: "ctl \<Rightarrow> ((got_cmd \<times> bytes option) \<times> ctl) option" where
  "cmdGet s = (case fgets 32 (ct_stdin s) of
      None \<Rightarrow> Some ((POF_CMD_WRONG, None), s)
    | Some line \<Rightarrow> do { q \<leftarrow> split_cmd line; Some (q, s\<lparr>ct_stdin := drop (length line) (ct_stdin s)\<rparr>) })"

definition run_cmd :: "view \<Rightarrow> pof_usr_cmd \<Rightarrow> bytes option \<Rightarrow> ctl \<Rightarrow> sctrl \<times> ctl" where
  "run_cmd v c arg s = (case c of
      POFUC_help \<Rightarrow> cmd_help s
    | POFUC_quit \<Rightarrow> (SCTRL_QUIT, s)
    | POFUC_exit \<Rightarrow> (SCTRL_QUIT, s)
    | POFUC_switch_config \<Rightarrow> cmd_switch_config s
    | POFUC_switch_feature \<Rightarrow> cmd_switch_feature s
    | POFUC_table_resource \<Rightarrow> cmd_table_resource s
    | POFUC_ports \<Rightarrow> cmd_ports v s
    | POFUC_tables \<Rightarrow> cmd_tables v s
    | POFUC_groups \<Rightarrow> cmd_groups v s
    | POFUC_meters \<Rightarrow> cmd_meters v s
    | POFUC_counters \<Rightarrow> cmd_counters v s
    | POFUC_version \<Rightarrow> cmd_version s
    | POFUC_state \<Rightarrow> cmd_state v s
    | POFUC_enable_promisc \<Rightarrow> cmd_enable_promisc s
    | POFUC_disable_promisc \<Rightarrow> cmd_disable_promisc s
    | POFUC_addport \<Rightarrow> cmd_addport arg s
    | POFUC_delport \<Rightarrow> cmd_delport arg s
    | _ \<Rightarrow> (SCTRL_OK, s))"

partial_function (option) cmd :: "view \<Rightarrow> ctl \<Rightarrow> (sctrl \<times> ctl) option" where
  "cmd v s = do {
     (q, s1) \<leftarrow> cmdGet s;
     (case q of (g, arg) \<Rightarrow>
       if g = Cmd POFUC_quit \<or> g = Cmd POFUC_exit then Some (SCTRL_QUIT, s1)
       else (case g of
           Cmd c \<Rightarrow> (case run_cmd v c arg s1 of (r, s2) \<Rightarrow> if r \<noteq> SCTRL_OK then Some (r, s2) else cmd v s2)
         | _ \<Rightarrow> cmd v s1))
   }"

declare cmd.simps [code]

section \<open>The program\<close>

record pofsctrl =
  sc_ip :: bytes
  sc_port :: u16

definition init_pofsctrl :: pofsctrl where
  "init_pofsctrl = \<lparr>sc_ip = asc ''127.0.0.1'' @ replicate 11 0, sc_port = 6634\<rparr>"

definition opt_listen_port :: "bytes option \<Rightarrow> pofsctrl \<Rightarrow> (ret \<times> pofsctrl) option" where
  "opt_listen_port optarg' p = (case optarg' of
      None \<Rightarrow> Some (POF_ERROR, p)
    | Some a \<Rightarrow> do { v \<leftarrow> atoi a; Some (POF_OK, p\<lparr>sc_port := word_of_int v\<rparr>) })"

definition opt_ip_addr :: "bytes option \<Rightarrow> pofsctrl \<Rightarrow> (ret \<times> pofsctrl) option" where
  "opt_ip_addr optarg' p = (case optarg' of
      None \<Rightarrow> Some (POF_ERROR, p)
    | Some a \<Rightarrow> do { t \<leftarrow> strncpy_to 20 a (sc_ip p); Some (POF_OK, p\<lparr>sc_ip := t\<rparr>) })"

definition OPTIONS :: "(u8 \<times> bool \<times> bytes) list" where
  "OPTIONS = [(of_char CHR ''i'', True, asc ''ip-addr''), (of_char CHR ''L'', True, asc ''listen-port''),
     (of_char CHR ''t'', False, asc ''test''), (of_char CHR ''h'', False, asc ''help''), (of_char CHR ''v'', False, asc ''version'')]"

text \<open>Test, help, version, a wrong option and an option without its argument end the program.\<close>

primrec runOptions :: "opt list \<Rightarrow> pofsctrl \<Rightarrow> pofsctrl run option" where
  "runOptions [] p = Some (Go p)"
| "runOptions (opt # opts) p = (
     if fst opt = of_char CHR ''i'' then do { (r, p') \<leftarrow> opt_ip_addr (snd opt) p; (if r \<noteq> POF_OK then Some Exit else runOptions opts p') }
     else if fst opt = of_char CHR ''L'' then do { (r, p') \<leftarrow> opt_listen_port (snd opt) p; (if r \<noteq> POF_OK then Some Exit else runOptions opts p') }
     else Some Exit)"

definition runOption :: "bytes list \<Rightarrow> pofsctrl \<Rightarrow> pofsctrl run option" where
  "runOption args = runOptions (getopt_long OPTIONS args)"

text \<open>
  Connections: the n-th \<^verbatim>\<open>connect\<close> to an address fails, or gives what the switch sends and how it is
  received and sent to. A failing attempt is repeated after a second.
\<close>

record ctl_os =
  co_socket :: bool
  co_connect :: "nat \<Rightarrow> bytes \<Rightarrow> u16 \<Rightarrow> (bytes \<times> (nat \<Rightarrow> nat \<Rightarrow> nat option) \<times> (nat \<Rightarrow> bool)) option"

partial_function (option) connect_loop :: "view \<Rightarrow> ctl_os \<Rightarrow> pofsctrl \<Rightarrow> nat \<Rightarrow> ctl \<Rightarrow> ctl option" where
  "connect_loop v co p k s = (case co_connect co k (sc_ip p) (sc_port p) of
      None \<Rightarrow> connect_loop v co p (Suc k) s
    | Some (inp, rd_n, snd_ok) \<Rightarrow> do {
        (r, s1) \<leftarrow> cmd v (s\<lparr>ct_in := inp, ct_reads := 0, ct_read := rd_n, ct_sends := 0, ct_send_ok := snd_ok\<rparr>);
        (if r = SCTRL_RECONN then connect_loop v co p (Suc k) s1 else Some s1)
      })"

declare connect_loop.simps [code]

text \<open>
  The options are read by a routine without a \<^verbatim>\<open>return\<close>; \<open>left\<close> is the value found in its place.
\<close>

definition sctrl_main :: "view \<Rightarrow> ctl_os \<Rightarrow> ret \<Rightarrow> bytes list \<Rightarrow> ctl \<Rightarrow> ctl run option" where
  "sctrl_main v co left args s = do {
     q \<leftarrow> runOption args init_pofsctrl;
     (case q of
        Exit \<Rightarrow> Some Exit
      | Go p \<Rightarrow>
          if left = POF_ERROR then Some Exit
          else if \<not> co_socket co then Some Exit
          else do { s' \<leftarrow> connect_loop v co p 0 s; Some (Go s') })
   }"

end
