(* ===== verification/Pof_Console.thy ===== *)
theory Pof_Console
  imports Pof_Sctrl Pof_Switch
begin

text \<open>
  The console of the switch itself: \<^verbatim>\<open>common/pof_command.c\<close>. What the commands hand to the printing
  routines is recorded.

  A command runs while the console holds the lock of the log, and the error reports of the switch
  take that lock. The lock is not recursive: an error reported by a command that has not released
  it blocks the console for ever, which is \<open>None\<close>.
\<close>

record con =
  cs_conf :: config
  cs_dp :: pof_datapath
  cs_g :: glob
  cs_stdin :: bytes
  cs_print :: "printed list"

definition print_data :: "printed \<Rightarrow> con \<Rightarrow> con" where
  "print_data p s = s\<lparr>cs_print := cs_print s @ [p]\<rparr>"

section \<open>Commands that change the switch\<close>

text \<open>
  Without an argument \<^verbatim>\<open>strtok\<close> goes on with the command line, of which nothing is left.
\<close>

definition usr_args :: "nat \<Rightarrow> bytes option \<Rightarrow> bytes option list" where
  "usr_args n arg = pofbf_split_str n [44] (case arg of Some a \<Rightarrow> a | None \<Rightarrow> [])"

definition usr_cmd_addport :: "bytes option \<Rightarrow> con \<Rightarrow> con option" where
  "usr_cmd_addport arg s = (
     if \<not> custom_ports (cs_dp s) then Some s
     else let ts = usr_args 2 arg in (case ts ! 0 of
         None \<Rightarrow> Some s
       | Some name \<Rightarrow> do {
           slot \<leftarrow> arg_slot (ts ! 1);
           q \<leftarrow> pofdp_get_local_resource slot (cs_dp s);
           (case q of
              None \<Rightarrow> Some s
            | Some n \<Rightarrow> do {
                (_, lr, g) \<leftarrow> poflr_add_port name (hn_obj n) (cs_g s);
                Some (s\<lparr>cs_dp := slot_write (hn_ptr n) lr (cs_dp s), cs_g := g\<rparr>)
              })
         }))"

text \<open>
  The lock is held during the deletion. A missing port is told by the return value alone; every
  other failure is reported, which needs the lock.
\<close>

definition usr_cmd_delport :: "bytes option \<Rightarrow> con \<Rightarrow> con option" where
  "usr_cmd_delport arg s = (
     if \<not> custom_ports (cs_dp s) then Some s
     else let ts = usr_args 2 arg in (case ts ! 0 of
         None \<Rightarrow> Some s
       | Some name \<Rightarrow> do {
           slot \<leftarrow> arg_slot (ts ! 1);
           q \<leftarrow> pofdp_get_local_resource slot (cs_dp s);
           (case q of
              None \<Rightarrow> Some s
            | Some n \<Rightarrow> do {
                (r, lr, g) \<leftarrow> poflr_del_port name (hn_obj n) (cs_g s);
                (if r \<noteq> POF_OK \<and> r \<noteq> POF_ERROR then None
                 else Some (s\<lparr>cs_dp := slot_write (hn_ptr n) lr (cs_dp s), cs_g := g\<rparr>))
              })
         }))"

definition usr_cmd_clear_resource :: "con \<Rightarrow> con option" where
  "usr_cmd_clear_resource s = do { dp \<leftarrow> clear_slots (cs_dp s); Some (s\<lparr>cs_dp := dp\<rparr>) }"

definition log_flag :: "(log_util \<Rightarrow> log_util) \<Rightarrow> (pof_state \<Rightarrow> pof_state option) \<Rightarrow> con \<Rightarrow> con option" where
  "log_flag f t s = do {
     c \<leftarrow> set_state t (cs_conf s);
     Some (s\<lparr>cs_conf := c\<lparr>cf_log := f (cf_log c)\<rparr>\<rparr>)
   }"

definition debug_text :: "string \<Rightarrow> pof_state \<Rightarrow> pof_state option" where
  "debug_text txt st = do { t \<leftarrow> strncpy_to 63 (asc txt) (st_debug_on st); Some (st\<lparr>st_debug_on := t\<rparr>) }"

definition color_text :: "string \<Rightarrow> pof_state \<Rightarrow> pof_state option" where
  "color_text txt st = do { t \<leftarrow> strncpy_to 63 (asc txt) (st_debug_color_on st); Some (st\<lparr>st_debug_color_on := t\<rparr>) }"

definition usr_cmd_enable_debug :: "con \<Rightarrow> con option" where
  "usr_cmd_enable_debug = log_flag (\<lambda>l. l\<lparr>lg_dbgEnable := True\<rparr>) (debug_text ''ON'')"

definition usr_cmd_disable_debug :: "con \<Rightarrow> con option" where
  "usr_cmd_disable_debug = log_flag (\<lambda>l. l\<lparr>lg_dbgEnable := False\<rparr>) (debug_text ''OFF'')"

definition usr_cmd_enable_color :: "con \<Rightarrow> con option" where
  "usr_cmd_enable_color = log_flag (\<lambda>l. l\<lparr>lg_colorEnable := True\<rparr>) (color_text ''ON'')"

definition usr_cmd_disable_color :: "con \<Rightarrow> con option" where
  "usr_cmd_disable_color = log_flag (\<lambda>l. l\<lparr>lg_colorEnable := False\<rparr>) (color_text ''OFF'')"

definition usr_cmd_enable_promisc :: "con \<Rightarrow> con option" where
  "usr_cmd_enable_promisc s = do {
     c \<leftarrow> promisc_text ''ON'' (cs_conf s);
     Some (s\<lparr>cs_dp := (cs_dp s)\<lparr>dp_filter := pofdp_promisc\<rparr>, cs_conf := c\<rparr>)
   }"

definition usr_cmd_disable_promisc :: "con \<Rightarrow> con option" where
  "usr_cmd_disable_promisc s = do {
     c \<leftarrow> promisc_text ''OFF'' (cs_conf s);
     Some (s\<lparr>cs_dp := (cs_dp s)\<lparr>dp_filter := pofdp_no_promisc\<rparr>, cs_conf := c\<rparr>)
   }"

section \<open>Commands that show the switch\<close>

definition usr_cmd_state :: "con \<Rightarrow> con option" where
  "usr_cmd_state s = Some (print_data (PrintState (cf_states (cs_conf s))) s)"

definition usr_cmd_test :: "bytes option \<Rightarrow> con \<Rightarrow> con option" where
  "usr_cmd_test arg s = Some (s\<lparr>cs_print := cs_print s @ map PrintText (List.map_filter (\<lambda>t. t) (usr_args 4 arg))\<rparr>)"

definition usr_cmd_version :: "con \<Rightarrow> con option" where
  "usr_cmd_version s = Some (print_data (PrintVersion (g_versionStr (cs_g s))) s)"

definition usr_cmd_help :: "con \<Rightarrow> con option" where
  "usr_cmd_help s = Some (s\<lparr>cs_print := cs_print s @ map (\<lambda>(_, txt). PrintText (asc txt)) COMMANDS\<rparr>)"

definition usr_cmd_switch_config :: "con \<Rightarrow> con option" where
  "usr_cmd_switch_config s = Some (print_data (PrintConfig (poflr_switch_config (cs_g s))) s)"

definition usr_cmd_switch_feature :: "con \<Rightarrow> con option" where
  "usr_cmd_switch_feature s = Some (print_data (PrintFeature (poflr_switch_feature (cs_g s))) s)"

definition usr_cmd_table_resource :: "con \<Rightarrow> con option" where
  "usr_cmd_table_resource s = Some (print_data (PrintResource (poflr_table_resource_desc (cs_g s))) s)"

text \<open>A loop over a map that prints, and one over the slots with their headings.\<close>

definition print_map :: "('a hnode \<Rightarrow> con \<Rightarrow> con option) \<Rightarrow> 'a hmap option \<Rightarrow> con \<Rightarrow> con option" where
  "print_map body m s = map_option snd (hmap_struct_traverse (\<lambda>_. m) (\<lambda>n s. map_option (\<lambda>s'. (None :: unit option, s')) (body n s)) s)"

definition print_slots :: "(pof_local_resource \<Rightarrow> con \<Rightarrow> con option) \<Rightarrow> con \<Rightarrow> con option" where
  "print_slots body s = print_map (\<lambda>lr s. body (hn_obj lr) (print_data (PrintSlot (slotID (hn_obj lr))) s)) (slotMap (cs_dp s)) s"

definition cmdPrintFlowEntrys :: "tableInfo \<Rightarrow> con \<Rightarrow> con option" where
  "cmdPrintFlowEntrys table = print_map (\<lambda>entry s. Some (print_data (PrintEntry (hn_obj entry)) s)) (ti_entryMap table)"

text \<open>Of a table its own data are printed, not what its pointers point to.\<close>

definition base_info :: "tableInfo \<Rightarrow> tableInfo" where
  "base_info t = t\<lparr>ti_entryMap := None, ti_tree := None\<rparr>"

definition cmdPrintFlowTable :: "tableInfo \<Rightarrow> con \<Rightarrow> con option" where
  "cmdPrintFlowTable table s = cmdPrintFlowEntrys table (print_data (PrintTable (base_info table)) s)"

definition usr_cmd_tables :: "con \<Rightarrow> con option" where
  "usr_cmd_tables = print_slots (\<lambda>lr. print_map (\<lambda>t. cmdPrintFlowTable (hn_obj t)) (tableIdMap lr))"

definition usr_cmd_groups :: "con \<Rightarrow> con option" where
  "usr_cmd_groups = print_slots (\<lambda>lr. print_map (\<lambda>n s. Some (print_data (PrintGroup (hn_obj n)) s)) (groupMap lr))"

definition usr_cmd_meters :: "con \<Rightarrow> con option" where
  "usr_cmd_meters = print_slots (\<lambda>lr. print_map (\<lambda>n s. Some (print_data (PrintMeter (hn_obj n)) s)) (meterMap lr))"

definition usr_cmd_counters :: "con \<Rightarrow> con option" where
  "usr_cmd_counters = print_slots (\<lambda>lr. print_map (\<lambda>n s. Some (print_data (PrintCounter (hn_obj n)) s)) (counterMap lr))"

definition usr_cmd_ports :: "con \<Rightarrow> con option" where
  "usr_cmd_ports = print_slots (\<lambda>lr. print_map (\<lambda>n s. Some (print_data (PrintPort (hn_obj n)) s)) (portPofIndexMap lr))"

section \<open>The loop\<close>

definition usr_cmd_gets :: "con \<Rightarrow> ((got_cmd \<times> bytes option) \<times> con) option" where
  "usr_cmd_gets s = (case fgets 32 (cs_stdin s) of
      None \<Rightarrow> Some ((POF_CMD_WRONG, None), s)
    | Some line \<Rightarrow> do { q \<leftarrow> split_cmd line; Some (q, s\<lparr>cs_stdin := drop (length line) (cs_stdin s)\<rparr>) })"

text \<open>The memory command is empty in this build.\<close>

definition usr_cmd :: "pof_usr_cmd \<Rightarrow> bytes option \<Rightarrow> con \<Rightarrow> con option" where
  "usr_cmd c arg s = (case c of
      POFUC_help \<Rightarrow> usr_cmd_help s
    | POFUC_switch_config \<Rightarrow> usr_cmd_switch_config s
    | POFUC_switch_feature \<Rightarrow> usr_cmd_switch_feature s
    | POFUC_table_resource \<Rightarrow> usr_cmd_table_resource s
    | POFUC_ports \<Rightarrow> usr_cmd_ports s
    | POFUC_tables \<Rightarrow> usr_cmd_tables s
    | POFUC_groups \<Rightarrow> usr_cmd_groups s
    | POFUC_meters \<Rightarrow> usr_cmd_meters s
    | POFUC_counters \<Rightarrow> usr_cmd_counters s
    | POFUC_version \<Rightarrow> usr_cmd_version s
    | POFUC_state \<Rightarrow> usr_cmd_state s
    | POFUC_enable_promisc \<Rightarrow> usr_cmd_enable_promisc s
    | POFUC_disable_promisc \<Rightarrow> usr_cmd_disable_promisc s
    | POFUC_addport \<Rightarrow> usr_cmd_addport arg s
    | POFUC_delport \<Rightarrow> usr_cmd_delport arg s
    | POFUC_test \<Rightarrow> usr_cmd_test arg s
    | POFUC_clear_resource \<Rightarrow> usr_cmd_clear_resource s
    | POFUC_enable_debug \<Rightarrow> usr_cmd_enable_debug s
    | POFUC_disable_debug \<Rightarrow> usr_cmd_disable_debug s
    | POFUC_enable_color \<Rightarrow> usr_cmd_enable_color s
    | POFUC_disable_color \<Rightarrow> usr_cmd_disable_color s
    | _ \<Rightarrow> Some s)"

partial_function (option) pof_runing_command :: "con \<Rightarrow> con option" where
  "pof_runing_command s = do {
     (q, s1) \<leftarrow> usr_cmd_gets s;
     (case q of (g, arg) \<Rightarrow>
       if g = Cmd POFUC_quit \<or> g = Cmd POFUC_exit then Some s1
       else (case g of
           Cmd c \<Rightarrow> do { s2 \<leftarrow> usr_cmd c arg s1; pof_runing_command s2 }
         | _ \<Rightarrow> pof_runing_command s1))
   }"

declare pof_runing_command.simps [code]

end
