(* ===== verification/Pof_Commands.thy ===== *)
theory Pof_Commands
  imports Pof_Slot Pof_Parse
begin

text \<open>
  The messages by which a controller changes the switch, from the bytes on the wire to the slots
  of the datapath: they are handled without undefined behaviour and keep every slot well formed.
\<close>

section \<open>The slots of a datapath\<close>

definition dp_ok :: "pof_datapath \<Rightarrow> glob \<Rightarrow> bool" where
  "dp_ok dp g \<longleftrightarrow> (case slotMap dp of None \<Rightarrow> False | Some m \<Rightarrow> hmap_ok m \<and> (\<forall>n \<in> set (hmap_nodes m). slot_ok (hn_obj n) g))"

lemma dp_okE:
  assumes "dp_ok dp g"
  obtains m where "slotMap dp = Some m" "hmap_ok m" "\<And>n. n \<in> set (hmap_nodes m) \<Longrightarrow> slot_ok (hn_obj n) g"
  using assms by (auto simp: dp_ok_def split: option.splits)

lemma dp_ok_grows: "dp_ok dp g \<Longrightarrow> grows g g' \<Longrightarrow> dp_ok dp g'"
  by (auto simp: dp_ok_def split: option.splits intro: slot_ok_grows)

lemma dp_ok_write:
  assumes "dp_ok dp g" "slot_ok lr g"
  shows "dp_ok (slot_write p lr dp) g"
  using assms hmap_ok_write by (auto simp: dp_ok_def slot_write_def hmap_nodes_write split: option.splits)

text \<open>A modification of every slot.\<close>

definition keeps_dp :: "parsed \<Rightarrow> bool" where
  "keeps_dp x = (case x of None \<Rightarrow> False | Some (r, msg, dp, g) \<Rightarrow> dp_ok dp g \<and> chan_ok g)"

lemma keeps_dp_fail: "dp_ok dp g \<Longrightarrow> chan_ok g \<Longrightarrow> keeps_dp (fail_upward t c msg dp g)"
  using err_upward_ok [of g t c] dp_ok_grows err_upward_grows [of g t c] by (fastforce simp: fail_upward_def keeps_dp_def)

lemma keeps_mod_each:
  assumes "dp_ok dp g" "chan_ok g" and f: "\<And>lr g. slot_ok lr g \<Longrightarrow> chan_ok g \<Longrightarrow> keeps_slot g (f lr g)"
  shows "keeps_dp (mod_each_slot f msg dp g)"
proof (rule dp_okE [OF assms(1)])
  fix m assume m: "slotMap dp = Some m" "hmap_ok m"
  let ?body = "\<lambda>n (dp, g, _). do { (r, lr, g1) \<leftarrow> f (hn_obj n) g; Some (None :: ret option, slot_write (hn_ptr n) lr dp, g1, r) }"
  let ?I = "\<lambda>(dp, g, r :: ret). dp_ok dp g \<and> chan_ok g"
  have step: "\<exists>s' x. ?body n s = Some (None, s') \<and> ?I s' \<and> (slotMap \<circ> fst) s' = Some (hmap_write (hn_ptr n) (\<lambda>_. x) m) \<and> True"
    if "?I s" "(slotMap \<circ> fst) s = Some m" "n \<in> set (hmap_nodes m)" for s m n
  proof -
    obtain dp g r where s: "s = (dp, g, r)" by (cases s)
    have sl: "slot_ok (hn_obj n) g" using that by (auto simp: s dp_ok_def)
    then have "keeps_slot g (f (hn_obj n) g)" using f that(1) by (simp add: s)
    then obtain r' lr g' where f': "f (hn_obj n) g = Some (r', lr, g')" "slot_ok lr g'" "chan_ok g'" "grows g g'"
      by (auto simp: keeps_slot_def split: option.splits)
    have "dp_ok (slot_write (hn_ptr n) lr dp) g'" using dp_ok_write [OF dp_ok_grows [OF _ f'(4)] f'(2)] that(1) by (simp add: s)
    then show ?thesis using f' that(2) by (auto simp: s slot_write_def)
  qed
  obtain s' where "hmap_struct_traverse (slotMap \<circ> fst) ?body (dp, g, POF_OK) = Some (None, s')" "?I s'"
    using hmap_struct_traverse_each [of ?I "slotMap \<circ> fst" ?body "\<lambda>_ _. True" "(dp, g, POF_OK)" m] step assms(1,2) m by auto
  then show ?thesis by (auto simp: mod_each_slot_def keeps_dp_def)
qed

section \<open>Messages\<close>

text \<open>
  A message of a modifying type, as far as the code relies on it: its length, and in host order the
  number of match fields of a table, the match fields of an entry and the number of actions of a group.
\<close>

definition mod_ok :: "u8 \<Rightarrow> bytes \<Rightarrow> bool" where
  "mod_ok type msg = (
     if type = pof_type_val POFT_TABLE_MOD then
       (case run_conv (pof_NtoH_transfer_flow_table 8) msg of None \<Rightarrow> False | Some m \<Rightarrow> 152 \<le> length m \<and> m ! 11 \<le> 8)
     else if type = pof_type_val POFT_FLOW_MOD then
       (case pof_NtoH_transfer_flow_entry 8 msg of None \<Rightarrow> False | Some m \<Rightarrow> flow_fits (take 2184 (drop 8 m)))
     else if type = pof_type_val POFT_GROUP_MOD then
       (case pof_NtoH_transfer_group 8 msg of None \<Rightarrow> False | Some m \<Rightarrow> group_fits (take 208 (drop 8 m)))
     else if type = pof_type_val POFT_METER_MOD then
       (case run_conv (pof_NtoH_transfer_meter 8) msg of None \<Rightarrow> False | Some m \<Rightarrow> 24 \<le> length m)
     else if type = pof_type_val POFT_COUNTER_MOD then
       (case run_conv (pof_NtoH_transfer_counter 8) msg of None \<Rightarrow> False | Some m \<Rightarrow> 32 \<le> length m)
     else type = pof_type_val POFT_PORT_MOD \<and>
       (case run_conv (pof_NtoH_transfer_port 16) msg of None \<Rightarrow> False | Some m \<Rightarrow> 136 \<le> length m))"

lemmas msg_read = get16_def get32_def get_le_def rd_def

lemma keeps_TABLE_MOD:
  assumes "dp_ok dp g" "chan_ok g" "mod_ok (pof_type_val POFT_TABLE_MOD) msg"
  shows "keeps_dp (parse_TABLE_MOD msg dp g)"
proof -
  obtain m where m: "run_conv (pof_NtoH_transfer_flow_table 8) msg = Some m" "152 \<le> length m" "m ! 11 \<le> 8"
    using assms(3) by (auto simp: mod_ok_def split: option.splits)
  have n: "unat (m ! 11) * 8 \<le> length (take 64 (drop 88 m))" using m(2,3) by (simp add: word_le_nat_alt)
  have create: "keeps_dp (mod_each_slot (poflr_create_flow_table tid type key_len sz name (m ! 11) (take 64 (drop 88 m))) m dp g)" for tid type key_len sz name
    by (rule keeps_mod_each [OF assms(1,2)]) (use keeps_create_table m(3) n in blast)
  have delete: "keeps_dp (mod_each_slot (poflr_delete_flow_table tid type) m dp g)" for tid type
    by (rule keeps_mod_each [OF assms(1,2)]) (rule keeps_delete_table)
  show ?thesis using m create delete keeps_dp_fail [OF assms(1,2)] by (auto simp: parse_TABLE_MOD_def msg_read)
qed

lemma keeps_FLOW_MOD:
  assumes "dp_ok dp g" "chan_ok g" "mod_ok (pof_type_val POFT_FLOW_MOD) msg"
  shows "keeps_dp (parse_FLOW_MOD msg dp g)"
proof -
  obtain m where m: "pof_NtoH_transfer_flow_entry 8 msg = Some m" "flow_fits (take 2184 (drop 8 m))"
    using assms(3) by (auto simp: mod_ok_def split: option.splits)
  let ?flow = "take 2184 (drop 8 m)"
  have len: "2184 \<le> length ?flow" using m(2) by (simp add: flow_fits_def)
  have "keeps_dp (mod_each_slot (poflr_add_flow_entry ?flow) m dp g)" "keeps_dp (mod_each_slot (poflr_delete_flow_entry ?flow) m dp g)"
    "keeps_dp (mod_each_slot (poflr_modify_flow_entry ?flow) m dp g)"
    using keeps_mod_each [OF assms(1,2)] keeps_add_entry keeps_modify_entry keeps_delete_entry m(2) len by blast+
  then show ?thesis using m(1) len keeps_dp_fail [OF assms(1,2)] by (auto simp: parse_FLOW_MOD_def Let_def msg_read)
qed

lemma keeps_GROUP_MOD:
  assumes "dp_ok dp g" "chan_ok g" "mod_ok (pof_type_val POFT_GROUP_MOD) msg"
  shows "keeps_dp (parse_GROUP_MOD msg dp g)"
proof -
  obtain m where m: "pof_NtoH_transfer_group 8 msg = Some m" "group_fits (take 208 (drop 8 m))"
    using assms(3) by (auto simp: mod_ok_def split: option.splits)
  let ?grp = "take 208 (drop 8 m)"
  have len: "208 \<le> length ?grp" using m(2) by (simp add: group_fits_def)
  have "keeps_dp (mod_each_slot (poflr_add_group_entry ?grp) m dp g)" "keeps_dp (mod_each_slot (poflr_modify_group_entry ?grp) m dp g)"
    "keeps_dp (mod_each_slot (poflr_delete_group_entry ?grp) m dp g)"
    using keeps_mod_each [OF assms(1,2)] keeps_group m(2) by blast+
  then show ?thesis using m(1) len keeps_dp_fail [OF assms(1,2)] by (auto simp: parse_GROUP_MOD_def Let_def msg_read)
qed

lemma keeps_METER_MOD:
  assumes "dp_ok dp g" "chan_ok g" "mod_ok (pof_type_val POFT_METER_MOD) msg"
  shows "keeps_dp (parse_METER_MOD msg dp g)"
proof -
  obtain m where m: "run_conv (pof_NtoH_transfer_meter 8) msg = Some m" "24 \<le> length m"
    using assms(3) by (auto simp: mod_ok_def split: option.splits)
  have op: "keeps_slot g (poflr_add_meter_entry i rate lr g)" "keeps_slot g (poflr_modify_meter_entry i rate lr g)"
    "keeps_slot g (poflr_delete_meter_entry i rate lr g)" if "slot_ok lr g" "chan_ok g" for i rate lr g
    using keeps_meter [of lr g MAdd i rate] keeps_meter [of lr g MModify i rate] keeps_meter [of lr g MDelete i rate] that
    by (simp_all add: meter_op_def)
  have "keeps_dp (mod_each_slot (poflr_add_meter_entry i rate) m dp g)" "keeps_dp (mod_each_slot (poflr_modify_meter_entry i rate) m dp g)"
    "keeps_dp (mod_each_slot (poflr_delete_meter_entry i rate) m dp g)" for i rate
    using keeps_mod_each [OF assms(1,2)] op by blast+
  then show ?thesis using m keeps_dp_fail [OF assms(1,2)] by (auto simp: parse_METER_MOD_def msg_read)
qed

lemma keeps_COUNTER_MOD:
  assumes "dp_ok dp g" "chan_ok g" "mod_ok (pof_type_val POFT_COUNTER_MOD) msg"
  shows "keeps_dp (parse_COUNTER_MOD msg dp g)"
proof -
  obtain m where m: "run_conv (pof_NtoH_transfer_counter 8) msg = Some m" "32 \<le> length m"
    using assms(3) by (auto simp: mod_ok_def split: option.splits)
  have "keeps_dp (mod_each_slot (poflr_counter_init i) m dp g)" "keeps_dp (mod_each_slot (poflr_counter_delete i) m dp g)"
    "keeps_dp (mod_each_slot (poflr_counter_clear i) m dp g)" for i
    using keeps_mod_each [OF assms(1,2)] keeps_counter by blast+
  then show ?thesis using m keeps_dp_fail [OF assms(1,2)] by (auto simp: parse_COUNTER_MOD_def msg_read)
qed

lemma head_opt_mem: "head_opt (filter P xs) = Some n \<Longrightarrow> n \<in> set xs"
  by (cases "filter P xs") (auto dest: filter_eq_ConsD)

lemma get_local_resource_mem:
  assumes "hmap_ok sm" "slotMap dp = Some sm"
  shows "\<exists>q. pofdp_get_local_resource slot dp = Some q \<and> (\<forall>n. q = Some n \<longrightarrow> n \<in> set (hmap_nodes sm))"
proof -
  have "hmap_nodeGetWithHash sm k = Some (head_opt (hmap_chain sm k))" for k using hm.get_chain [OF assms(1)] by auto
  then have q: "pofdp_get_local_resource slot dp = Some (head_opt (hmap_chain sm (hmap_hashForLinear (ucast slot))))"
    using assms(2) by (simp add: pofdp_get_local_resource_def)
  have mem: "n \<in> set (hmap_nodes sm)" if "head_opt (hmap_chain sm k) = Some n" for n k
    using that unfolding hmap_chain_def by (rule head_opt_mem)
  show ?thesis by (rule exI, rule conjI, rule q, intro allI impI, rule mem)
qed

lemma keeps_PORT_MOD:
  assumes "dp_ok dp g" "chan_ok g" "mod_ok (pof_type_val POFT_PORT_MOD) msg"
  shows "keeps_dp (parse_PORT_MOD msg dp g)"
proof (rule dp_okE [OF assms(1)])
  fix sm assume sm: "slotMap dp = Some sm" "hmap_ok sm" "\<And>n. n \<in> set (hmap_nodes sm) \<Longrightarrow> slot_ok (hn_obj n) g"
  obtain m where m: "run_conv (pof_NtoH_transfer_port 16) msg = Some m" "136 \<le> length m"
    using assms(3) by (auto simp: mod_ok_def split: option.splits)
  obtain slot p where g: "get16 m 16 = Some slot" "get16 m 18 = Some p" "rd m 128 = Some (m ! 128)" using m(2) by (auto simp: msg_read)
  obtain q where q: "pofdp_get_local_resource slot dp = Some q" "\<And>n. q = Some n \<Longrightarrow> n \<in> set (hmap_nodes sm)"
    using get_local_resource_mem [OF sm(2,1)] by blast
  show ?thesis
  proof (cases q)
    case None
    then show ?thesis using m(1) g q(1) keeps_dp_fail [OF assms(1,2)] by (simp add: parse_PORT_MOD_def)
  next
    case (Some n)
    have "keeps_slot g (poflr_port_openflow_enable (ucast p) (m ! 128) (hn_obj n) g)"
      using keeps_enable_port [OF sm(3) assms(2)] q(2) Some by blast
    then obtain r lr g' where "poflr_port_openflow_enable (ucast p) (m ! 128) (hn_obj n) g = Some (r, lr, g')" "slot_ok lr g'" "chan_ok g'" "grows g g'"
      by (auto simp: keeps_slot_def split: option.splits)
    then show ?thesis using m(1) g q(1) Some dp_ok_write [OF dp_ok_grows [OF assms(1)]] by (simp add: parse_PORT_MOD_def keeps_dp_def)
  qed
qed

lemma keeps_parse_body:
  assumes "dp_ok dp g" "chan_ok g" "mod_ok type msg"
  shows "keeps_dp (parse_body jk type msg dp g)"
proof -
  have "type \<in> {pof_type_val POFT_TABLE_MOD, pof_type_val POFT_FLOW_MOD, pof_type_val POFT_GROUP_MOD, pof_type_val POFT_METER_MOD,
      pof_type_val POFT_COUNTER_MOD, pof_type_val POFT_PORT_MOD}" using assms(3) by (auto simp: mod_ok_def split: if_splits)
  then show ?thesis using assms(3) keeps_TABLE_MOD [OF assms(1,2)] keeps_FLOW_MOD [OF assms(1,2)] keeps_GROUP_MOD [OF assms(1,2)]
    keeps_METER_MOD [OF assms(1,2)] keeps_COUNTER_MOD [OF assms(1,2)] keeps_PORT_MOD [OF assms(1,2)]
    by (elim insertE emptyE) (simp_all add: parse_body_def)
qed

section \<open>A session\<close>

text \<open>The messages of a controller are handled one after the other.\<close>

fun parse_msgs :: "junk \<Rightarrow> bytes list \<Rightarrow> pof_datapath \<Rightarrow> glob \<Rightarrow> (ret list \<times> pof_datapath \<times> glob) option" where
  "parse_msgs jk [] dp g = Some ([], dp, g)"
| "parse_msgs jk (m # ms) dp g = do {
     (r, _, dp1, g1) \<leftarrow> pof_parse_msg_from_controller jk m dp g;
     (rs, dp2, g2) \<leftarrow> parse_msgs jk ms dp1 g1;
     Some (r # rs, dp2, g2)
   }"

definition message_ok :: "bytes \<Rightarrow> bool" where
  "message_ok msg = (case run_conv (pof_NtoH_transfer_header 0) msg of None \<Rightarrow> False | Some m \<Rightarrow> 8 \<le> length m \<and> mod_ok (m ! 1) m)"

lemma recv_xid_ok: "dp_ok dp (g\<lparr>g_recv_xid := x\<rparr>) = dp_ok dp g" "chan_ok (g\<lparr>g_recv_xid := x\<rparr>) = chan_ok g"
  using dp_ok_grows [of dp g "g\<lparr>g_recv_xid := x\<rparr>"] dp_ok_grows [of dp "g\<lparr>g_recv_xid := x\<rparr>" g] by (auto simp: grows_def chan_ok_def)

lemma keeps_message:
  assumes "dp_ok dp g" "chan_ok g" "message_ok msg"
  shows "keeps_dp (pof_parse_msg_from_controller jk msg dp g)"
proof -
  obtain m where m: "run_conv (pof_NtoH_transfer_header 0) msg = Some m" "8 \<le> length m" "mod_ok (m ! 1) m"
    using assms(3) by (auto simp: message_ok_def split: option.splits)
  then show ?thesis using keeps_parse_body [OF _ _ m(3), of dp "g\<lparr>g_recv_xid := x\<rparr>" for x] assms(1,2)
    by (auto simp: pof_parse_msg_from_controller_def msg_read recv_xid_ok)
qed

lemma keeps_messages:
  assumes "dp_ok dp g" "chan_ok g" "\<forall>m \<in> set ms. message_ok m"
  shows "\<exists>rs dp' g'. parse_msgs jk ms dp g = Some (rs, dp', g') \<and> length rs = length ms \<and> dp_ok dp' g' \<and> chan_ok g'"
  using assms
proof (induction ms arbitrary: dp g)
  case (Cons m ms)
  obtain r x dp1 g1 where 1: "pof_parse_msg_from_controller jk m dp g = Some (r, x, dp1, g1)" "dp_ok dp1 g1" "chan_ok g1"
    using keeps_message [OF Cons.prems(1,2)] Cons.prems(3) by (fastforce simp: keeps_dp_def split: option.splits)
  obtain rs dp2 g2 where "parse_msgs jk ms dp1 g1 = Some (rs, dp2, g2)" "length rs = length ms" "dp_ok dp2 g2" "chan_ok g2"
    using Cons.IH [OF 1(2,3)] Cons.prems(3) by auto
  then show ?case using 1(1) by simp
qed simp


text \<open>A datapath with one slot, and three messages: a counter, a meter and a port are modified.\<close>

definition slot_dp :: pof_datapath where
  "slot_dp = example_dp\<lparr>slotMap := Some \<lparr>hm_buckets = [[\<lparr>hn_ptr = 1, hn_hash = 0, hn_obj = example_lr\<rparr>]], hm_mask = 0, hm_n = 1\<rparr>\<rparr>"

definition example_jk :: junk where
  "example_jk = \<lparr>jk_stk = replicate 2048 0, jk_lr = example_lr, jk_mem = (\<lambda>n. replicate n 0), jk_ret = POF_OK, jk_overlap = True\<rparr>"

definition counter_mod :: bytes where
  "counter_mod = [4, 31, 0, 32, 0, 0, 0, 9] @ [0, 0, 0, 0, 0, 0, 0, 3] @ replicate 16 0"

definition meter_mod :: bytes where
  "meter_mod = [4, 30, 0, 24, 0, 0, 0, 10] @ [0, 0, 0, 0, 0, 0, 0, 2, 0, 0, 3, 132, 0, 0, 0, 0]"

lemma slot_dp_ok: "dp_ok slot_dp example_glob"
  using example_slot_ok by (simp add: dp_ok_def slot_dp_def hmap_nodes_def hmap_ok_def bucketWithHash_def)


section \<open>Answers\<close>

definition known_types :: "pof_type set" where
  "known_types = {POFT_ECHO_REQUEST, POFT_SET_CONFIG, POFT_GET_CONFIG_REQUEST, POFT_PORT_MOD, POFT_FEATURES_REQUEST, POFT_TABLE_MOD,
     POFT_FLOW_MOD, POFT_PACKET_OUT, POFT_METER_MOD, POFT_GROUP_MOD, POFT_COUNTER_MOD, POFT_COUNTER_REQUEST, POFT_QUERYALL_REQUEST}"

lemma header_host:
  assumes "msg = [v, t, l0, l1, x0, x1, x2, x3] @ rest"
  shows "run_conv (pof_NtoH_transfer_header 0) msg = Some ([v, t, l1, l0, x3, x2, x1, x0] @ rest)"
  unfolding assms by (simp add: pof_NtoH_transfer_header_def conv_step_rev conv_end_def eval_nat_numeral del: conv_step.simps)

lemma parse_header:
  assumes "msg = [v, t, l0, l1] @ rev (le_bytes 4 (xid :: u32)) @ rest"
  shows "\<exists>m. pof_parse_msg_from_controller jk msg dp g = parse_body jk t m dp (g\<lparr>g_recv_xid := xid\<rparr>)"
proof -
  obtain x0 x1 x2 x3 where x: "le_bytes 4 xid = [x0, x1, x2, x3]" using length_4 length_le_bytes by blast
  let ?m = "[v, t, l1, l0] @ le_bytes 4 xid @ rest"
  have "of_le (le_bytes 4 xid) = xid" by (rule of_le_le_bytes) simp
  then have "get32 ?m 4 = Some xid" "rd ?m 1 = Some t" by (simp_all add: msg_read)
  moreover have "run_conv (pof_NtoH_transfer_header 0) msg = Some ?m"
    using header_host [of msg v t l0 l1 x3 x2 x1 x0 rest] assms by (simp add: x)
  ultimately show ?thesis by (simp only: pof_parse_msg_from_controller_def bind.bind_lunit) blast
qed

lemma unknown_body:
  assumes "t \<notin> pof_type_val ` known_types"
  shows "parse_body jk t m dp g = fail_upward POFET_BAD_REQUEST (ReqE POFBRC_BAD_TYPE) m dp g"
  using assms by (simp add: parse_body_def known_types_def)

lemma echo_body:
  assumes "chan_ok g"
  shows "\<exists>g'. parse_body jk (pof_type_val POFT_ECHO_REQUEST) m dp g = Some (POF_OK, m, dp, g') \<and> chan_ok g'
    \<and> send_queue g' = (if sending g then send_queue g @ [msg_header POFT_ECHO_REPLY (g_recv_xid g) 8] else send_queue g)"
proof -
  obtain g' where "pofec_reply_msg POFT_ECHO_REPLY (g_recv_xid g) 0 None g = Some (POF_OK, g')" "chan_ok g'"
    "send_queue g' = (if sending g then send_queue g @ [reply_bytes POFT_ECHO_REPLY (g_recv_xid g) 0 (drop 8 (pofec_queue_msg_buf g))] else send_queue g)"
    using reply_msg_ok [OF assms, of 0 "drop 8 (pofec_queue_msg_buf g)" None POFT_ECHO_REPLY "g_recv_xid g"] by auto
  then show ?thesis by (simp add: parse_body_def parse_ECHO_REQUEST_def reply_bytes_def)
qed

text \<open>
  C27. Answers of the dispatch on a working channel: an echo request is answered by exactly one
  echo reply of eight bytes with the transaction id of the request, and a message of a type the
  switch does not know by exactly one error message with that id that carries the type and code of
  a bad request; the datapath is as before in both cases.
\<close>

theorem parse_answers:
  assumes "chan_ok g" "sending g" "msg = [v, t, l0, l1] @ rev (le_bytes 4 (xid :: u32)) @ rest"
    and "t = pof_type_val POFT_ECHO_REQUEST \<or> t \<notin> pof_type_val ` known_types"
  shows "\<exists>r m g' answer. pof_parse_msg_from_controller jk msg dp g = Some (r, m, dp, g') \<and> chan_ok g'
    \<and> send_queue g' = send_queue g @ [answer]
    \<and> (if t = pof_type_val POFT_ECHO_REQUEST
       then r = POF_OK \<and> answer = [4, 3, 0, 8] @ rev (le_bytes 4 xid)
       else r = ERR (ReqE POFBRC_BAD_TYPE) \<and> length answer = 280
         \<and> take 12 answer = [4, 1, 1, 24] @ rev (le_bytes 4 xid) @ [0, 1, 0, 1])"
proof -
  let ?g = "g\<lparr>g_recv_xid := xid\<rparr>"
  have g: "chan_ok ?g" "sending ?g" using assms(1,2) by (simp_all add: recv_xid_ok sending_def)
  obtain m where m: "pof_parse_msg_from_controller jk msg dp g = parse_body jk t m dp ?g" using parse_header [OF assms(3)] by blast
  show ?thesis
  proof (cases "t = pof_type_val POFT_ECHO_REQUEST")
    case True
    have "msg_header POFT_ECHO_REPLY xid 8 = [4, 3, 0, 8] @ rev (le_bytes 4 xid)"
      by (simp add: msg_header_def le_bytes_def upt_rec drop_bit_eq_div)
    then show ?thesis using echo_body [OF g(1), of jk m dp] g(2) True m by auto
  next
    case False
    then have t: "t \<notin> pof_type_val ` known_types" using assms(4) by blast
    obtain g' body where e: "err_upward POFET_BAD_REQUEST (ReqE POFBRC_BAD_TYPE) ?g = Some (ERR (ReqE POFBRC_BAD_TYPE), g')" "chan_ok g'"
      "error_message POFET_BAD_REQUEST (ReqE POFBRC_BAD_TYPE) (g_poflr_dev_id g) body"
      "send_queue g' = send_queue g @ [msg_header POFT_ERROR xid 280 @ body]"
      using err_upward_message [OF g(1), of POFET_BAD_REQUEST "ReqE POFBRC_BAD_TYPE"] g(2) by auto
    have "msg_header POFT_ERROR xid 280 = [4, 1, 1, 24] @ rev (le_bytes 4 xid)"
      by (simp add: msg_header_def le_bytes_def upt_rec drop_bit_eq_div)
    moreover have "take 4 body = [0, 1, 0, 1]" "length body = 272"
      using e(3) by (auto simp: error_message_def error_wire_def le_bytes_def upt_rec drop_bit_eq_div err_val_def)
    ultimately show ?thesis using e(1,2,4) False unfolding m unknown_body [OF t] by (simp add: fail_upward_def)
  qed
qed

lemma parse_answers_witness:
  "\<exists>r m g'. pof_parse_msg_from_controller example_jk [4, 2, 0, 8, 0, 0, 0, 7] slot_dp example_glob = Some (r, m, slot_dp, g')
    \<and> send_queue g' = [[4, 3, 0, 8, 0, 0, 0, 7]]"
proof -
  have x: "[4, 2, 0, 8, 0, 0, 0, 7] = [4, 2, 0, 8] @ rev (le_bytes 4 (7 :: u32)) @ []" by code_simp
  have "send_queue example_glob = []" "rev (le_bytes 4 (7 :: u32)) = [0, 0, 0, 7]" by (simp add: example_glob_def) code_simp
  then show ?thesis using parse_answers [OF example_glob_ok x, of example_jk slot_dp] by auto
qed

end
