(* ===== verification/Pof_Control.thy ===== *)
theory Pof_Control
  imports Pof_Console Pof_Commands Pof_Config_File
begin

text \<open>
  The control port and its client together: what the switch sends in answer to a query is read by
  the client as exactly the contents of the switch, and it is what the console of the switch shows.
\<close>

section \<open>The contents of the switch\<close>

definition map_nodes :: "'a hmap option \<Rightarrow> 'a hnode list" where
  "map_nodes m = (case m of None \<Rightarrow> [] | Some m \<Rightarrow> hmap_nodes m)"

definition table_contents :: "tableInfo \<Rightarrow> printed list" where
  "table_contents t = PrintTable (base_info t) # map (\<lambda>n. PrintEntry (hn_obj n)) (map_nodes (ti_entryMap t))"

fun slot_contents :: "pof_usr_cmd \<Rightarrow> pof_local_resource \<Rightarrow> printed list" where
  "slot_contents POFUC_ports lr = map (\<lambda>n. PrintPort (hn_obj n)) (map_nodes (portPofIndexMap lr))"
| "slot_contents POFUC_tables lr = concat (map (\<lambda>n. table_contents (hn_obj n)) (map_nodes (tableIdMap lr)))"
| "slot_contents POFUC_groups lr = map (\<lambda>n. PrintGroup (hn_obj n)) (map_nodes (groupMap lr))"
| "slot_contents POFUC_meters lr = map (\<lambda>n. PrintMeter (hn_obj n)) (map_nodes (meterMap lr))"
| "slot_contents POFUC_counters lr = map (\<lambda>n. PrintCounter (hn_obj n)) (map_nodes (counterMap lr))"
| "slot_contents _ lr = []"

definition contents :: "pof_usr_cmd \<Rightarrow> pof_datapath \<Rightarrow> printed list" where
  "contents q dp = concat (map (\<lambda>n. slot_contents q (hn_obj n)) (map_nodes (slotMap dp)))"

definition queries :: "pof_usr_cmd set" where
  "queries = {POFUC_ports, POFUC_tables, POFUC_groups, POFUC_meters, POFUC_counters}"

text \<open>The numbers the switch keeps beside its maps are the numbers of structures in them.\<close>

definition counted :: "'a hmap option \<Rightarrow> 'w::len word \<Rightarrow> bool" where
  "counted m num = (case m of None \<Rightarrow> False | Some m \<Rightarrow> hmap_ok m \<and> unat num = length (hmap_nodes m))"

definition slot_counted :: "pof_local_resource \<Rightarrow> bool" where
  "slot_counted lr \<longleftrightarrow> counted (portPofIndexMap lr) (portNum lr) \<and> counted (tableIdMap lr) (tableNum lr)
     \<and> (\<forall>t \<in> set (map_nodes (tableIdMap lr)). counted (ti_entryMap (hn_obj t)) (ti_entryNum (hn_obj t)))
     \<and> counted (groupMap lr) (groupNum lr) \<and> counted (meterMap lr) (meterNum lr) \<and> counted (counterMap lr) (counterNum lr)"

definition dp_counted :: "pof_datapath \<Rightarrow> bool" where
  "dp_counted dp \<longleftrightarrow> counted (slotMap dp) (slotNum dp) \<and> (\<forall>n \<in> set (map_nodes (slotMap dp)). slot_counted (hn_obj n))"

text \<open>The memory of the structures of the switch has the size the client expects and is read as what it is.\<close>

definition seen :: "(nat \<Rightarrow> 'a hnode \<Rightarrow> bytes) \<Rightarrow> nat \<Rightarrow> (bytes \<Rightarrow> 'b) \<Rightarrow> ('a \<Rightarrow> 'b) \<Rightarrow> 'a hnode list \<Rightarrow> bool" where
  "seen raw sz vw f ns \<longleftrightarrow> 0 < sz \<and> (\<forall>n \<in> set ns. \<forall>k. length (raw k n) = sz \<and> vw (raw k n) = f (hn_obj n))"

definition slot_seen :: "layout \<Rightarrow> view \<Rightarrow> pof_local_resource \<Rightarrow> bool" where
  "slot_seen lay v lr \<longleftrightarrow> seen (raw_port lay) (sz_port v) (view_port v) (\<lambda>x. x) (map_nodes (portPofIndexMap lr))
     \<and> seen (raw_table lay) (sz_table v) (view_table v) base_info (map_nodes (tableIdMap lr))
     \<and> (\<forall>t \<in> set (map_nodes (tableIdMap lr)). seen (raw_entry lay) (sz_entry v) (view_entry v) (\<lambda>x. x) (map_nodes (ti_entryMap (hn_obj t))))
     \<and> seen (raw_group lay) (sz_group v) (view_group v) (\<lambda>x. x) (map_nodes (groupMap lr))
     \<and> seen (raw_meter lay) (sz_meter v) (view_meter v) (\<lambda>x. x) (map_nodes (meterMap lr))
     \<and> seen (raw_counter lay) (sz_counter v) (view_counter v) (\<lambda>x. x) (map_nodes (counterMap lr))"

section \<open>What is sent\<close>

text \<open>The bytes of a sequence, each element with one of its encodings.\<close>

fun enc_list :: "('a \<Rightarrow> bytes \<Rightarrow> bool) \<Rightarrow> 'a list \<Rightarrow> bytes \<Rightarrow> bool" where
  "enc_list E [] b \<longleftrightarrow> b = []"
| "enc_list E (x # xs) b \<longleftrightarrow> (\<exists>b1 b2. b = b1 @ b2 \<and> E x b1 \<and> enc_list E xs b2)"

definition enc_counted :: "u32 \<Rightarrow> string \<Rightarrow> ('a \<Rightarrow> bytes \<Rightarrow> bool) \<Rightarrow> 'a list \<Rightarrow> bytes \<Rightarrow> bool" where
  "enc_counted count disc E xs b \<longleftrightarrow> (\<exists>b2. b = responseHead count disc @ b2 \<and> enc_list E xs b2)"

definition all_sent :: "lst \<Rightarrow> bool" where
  "all_sent s \<longleftrightarrow> (\<forall>k. pe_send_ok (ls_peer s) k)"

definition sent_more :: "lst \<Rightarrow> bytes \<Rightarrow> nat \<Rightarrow> lst" where
  "sent_more s b k = s\<lparr>ls_peer := (ls_peer s)\<lparr>pe_sends := k, pe_out := pe_out (ls_peer s) @ b\<rparr>\<rparr>"

lemma sent_more_sel [simp]:
  "all_sent (sent_more s b k) = all_sent s" "ls_dp (sent_more s b k) = ls_dp s"
  "sent_more (sent_more s b k) b' k' = sent_more s (b @ b') k'"
  by (simp_all add: sent_more_def all_sent_def)

definition emits :: "(lst \<Rightarrow> (ret option \<times> lst) option) \<Rightarrow> (bytes \<Rightarrow> bool) \<Rightarrow> bool" where
  "emits f E \<longleftrightarrow> (\<forall>s r s'. f s = Some (r, s') \<longrightarrow> ls_dp s' = ls_dp s)
     \<and> (\<forall>s. all_sent s \<longrightarrow> (\<exists>b k. f s = Some (None, sent_more s b k) \<and> E b))"

lemma emitsE:
  assumes "emits f E" "all_sent s"
  obtains b k where "f s = Some (None, sent_more s b k)" "E b"
  using assms by (auto simp: emits_def)

lemma emits_keeps: "emits f E \<Longrightarrow> f s = Some (r, s') \<Longrightarrow> ls_dp s' = ls_dp s"
  by (simp add: emits_def)

lemma send_all: "all_sent s \<Longrightarrow> send b s = (True, sent_more s b (sends_of s + 1))"
  by (simp add: send_def all_sent_def sent_more_def Let_def)

lemma send_dp: "send b s = (ok, s') \<Longrightarrow> ls_dp s' = ls_dp s"
  by (auto simp: send_def Let_def)

lemma emits_send: "emits (\<lambda>s. send_loop (raw (sends_of s) n) s) (\<lambda>b. \<exists>k. b = raw k n)"
  by (auto simp: emits_def send_loop_def send_all split: prod.splits dest: send_dp)

lemma emits_trav_list:
  assumes "\<And>n. n \<in> set ns \<Longrightarrow> emits (body n) (E n)" "all_sent s"
  shows "\<exists>b k. trav_list body ns s = Some (None, sent_more s b k) \<and> enc_list E ns b"
  using assms
proof (induction ns arbitrary: s)
  case Nil
  then show ?case by (auto simp: sent_more_def intro!: exI [of _ "sends_of s"])
next
  case (Cons n ns)
  obtain b k where 1: "body n s = Some (None, sent_more s b k)" "E n b" using emitsE [OF Cons.prems(1) Cons.prems(2)] by auto
  obtain b' k' where "trav_list body ns (sent_more s b k) = Some (None, sent_more s (b @ b') k')" "enc_list E ns b'"
    using Cons.IH [of "sent_more s b k"] Cons.prems by auto
  then show ?case using 1 by auto
qed

lemma listen_map_dp:
  assumes "listen_map count disc m body s = Some (r, s')" "\<And>n s r s'. body n s = Some (r, s') \<Longrightarrow> ls_dp s' = ls_dp s"
  shows "ls_dp s' = ls_dp s"
proof -
  have "ls_dp s' = ls_dp s1" if "hmap_struct_traverse (\<lambda>_. m) body s1 = Some (r, s')" for s1
    by (rule trav_keeps [OF that, of "\<lambda>s. ls_dp s = ls_dp s1"]) (use assms(2) in auto)
  then show ?thesis using assms(1) by (auto simp: listen_map_def split: prod.splits if_splits dest: send_dp)
qed

lemma emits_map:
  assumes "counted m num" "\<And>n s r s'. body n s = Some (r, s') \<Longrightarrow> ls_dp s' = ls_dp s"
    and "\<And>n. n \<in> set (map_nodes m) \<Longrightarrow> emits (body n) (E n)"
  shows "emits (listen_map count disc m body) (enc_counted count disc E (map_nodes m))"
proof -
  obtain hm where m: "m = Some hm" "hmap_ok hm" using assms(1) by (auto simp: counted_def split: option.splits)
  have "\<exists>b k. listen_map count disc m body s = Some (None, sent_more s b k) \<and> enc_counted count disc E (map_nodes m) b" if all: "all_sent s" for s
  proof -
    let ?h = "responseHead count disc" and ?k = "sends_of s + 1"
    have tr: "hmap_struct_traverse (\<lambda>_. m) body (sent_more s ?h ?k) = trav_list body (hmap_nodes hm) (sent_more s ?h ?k)"
      by (rule hmap_struct_traverse_readonly) (use m in auto)
    obtain b k where "trav_list body (hmap_nodes hm) (sent_more s ?h ?k) = Some (None, sent_more s (?h @ b) k)" "enc_list E (hmap_nodes hm) b"
      using emits_trav_list [of "hmap_nodes hm" body E "sent_more s ?h ?k"] assms(3) all m(1) by (auto simp: map_nodes_def)
    then show ?thesis using tr m(1)
      by (intro exI [of _ "?h @ b"] exI [of _ k]) (simp add: listen_map_def send_all [OF all] enc_counted_def map_nodes_def)
  qed
  then show ?thesis using listen_map_dp [OF _ assms(2)] by (auto simp: emits_def)
qed

lemma slots_sent:
  assumes "counted (slotMap (ls_dp s)) num" "all_sent s"
    and "\<And>n. n \<in> set (map_nodes (slotMap (ls_dp s))) \<Longrightarrow> emits (body (hn_obj n)) (E n)"
    and "\<And>lr s r s'. body lr s = Some (r, s') \<Longrightarrow> ls_dp s' = ls_dp s"
  shows "\<exists>b k. listen_slots body s = Some (POF_OK, sent_more s b k)
    \<and> enc_counted (slotNum (ls_dp s)) ''slots'' E (map_nodes (slotMap (ls_dp s))) b"
proof -
  obtain hm where m: "slotMap (ls_dp s) = Some hm" "hmap_ok hm" using assms(1) by (auto simp: counted_def split: option.splits)
  let ?h = "responseHead (slotNum (ls_dp s)) ''slots''" and ?k = "sends_of s + 1"
  have tr: "hmap_struct_traverse (slotMap \<circ> ls_dp) (\<lambda>n. body (hn_obj n)) (sent_more s ?h ?k)
      = trav_list (\<lambda>n. body (hn_obj n)) (hmap_nodes hm) (sent_more s ?h ?k)"
    by (rule hmap_struct_traverse_readonly) (use m assms(4) in auto)
  obtain b k where "trav_list (\<lambda>n. body (hn_obj n)) (hmap_nodes hm) (sent_more s ?h ?k) = Some (None, sent_more s (?h @ b) k)"
    "enc_list E (hmap_nodes hm) b"
    using emits_trav_list [of "hmap_nodes hm" "\<lambda>n. body (hn_obj n)" E "sent_more s ?h ?k"] assms(2,3) m(1) by (auto simp: map_nodes_def)
  then show ?thesis using tr m(1)
    by (intro exI [of _ "?h @ b"] exI [of _ k]) (simp add: listen_slots_def send_all [OF assms(2)] enc_counted_def map_nodes_def)
qed

section \<open>What is read\<close>

text \<open>Every \<^verbatim>\<open>recv\<close> gives all the bytes asked for while there are so many.\<close>

definition full :: "ctl \<Rightarrow> bool" where
  "full s \<longleftrightarrow> (\<forall>k n. ct_read s k n = Some n)"

definition read_more :: "ctl \<Rightarrow> bytes \<Rightarrow> nat \<Rightarrow> printed list \<Rightarrow> ctl" where
  "read_more s rest k ps = s\<lparr>ct_in := rest, ct_reads := k, ct_print := ct_print s @ ps\<rparr>"

lemma read_more_sel [simp]:
  "full (read_more s r k ps) = full s" "ct_in (read_more s r k ps) = r"
  "read_more (read_more s r k ps) r' k' ps' = read_more s r' k' (ps @ ps')"
  by (simp_all add: read_more_def full_def)

definition reads :: "(ctl \<Rightarrow> sctrl \<times> ctl) \<Rightarrow> (bytes \<Rightarrow> bool) \<Rightarrow> printed list \<Rightarrow> bool" where
  "reads f E ps \<longleftrightarrow> (\<forall>s b rest. full s \<longrightarrow> E b \<longrightarrow> ct_in s = b @ rest \<longrightarrow> (\<exists>k. f s = (SCTRL_OK, read_more s rest k ps)))"

lemma recv_full:
  assumes "full s" "ct_in s = b @ rest" "length b = n" "0 < n"
  shows "recv_then n f s = f b (read_more s rest (ct_reads s + 1) [])"
  using assms by (cases s) (auto simp: recv_then_def cmdRecv_def full_def read_more_def Let_def)

lemma readsD: "reads f E ps \<Longrightarrow> full s \<Longrightarrow> E b \<Longrightarrow> ct_in s = b @ rest \<Longrightarrow> \<exists>k. f s = (SCTRL_OK, read_more s rest k ps)"
  unfolding reads_def by blast

lemma reads_times:
  assumes "\<And>x. x \<in> set xs \<Longrightarrow> reads f (E x) (P x)"
  shows "reads (times (length xs) f) (enc_list E xs) (concat (map P xs))"
  using assms
proof (induction xs)
  case Nil
  have "s = read_more s (ct_in s) (ct_reads s) []" for s by (simp add: read_more_def)
  then show ?case by (auto simp: reads_def)
next
  case (Cons x xs)
  have 1: "reads f (E x) (P x)" "reads (times (length xs) f) (enc_list E xs) (concat (map P xs))" using Cons by simp_all
  show ?case unfolding reads_def
  proof (intro allI impI)
    fix s b rest assume s: "full s" "enc_list E (x # xs) b" "ct_in s = b @ rest"
    then obtain b1 b2 where b: "b = b1 @ b2" "E x b1" "enc_list E xs b2" by auto
    obtain k where k: "f s = (SCTRL_OK, read_more s (b2 @ rest) k (P x))" using readsD [OF 1(1) s(1) b(2), of "b2 @ rest"] s(3) b(1) by auto
    obtain k' where "times (length xs) f (read_more s (b2 @ rest) k (P x)) = (SCTRL_OK, read_more s rest k' (P x @ concat (map P xs)))"
      using readsD [OF 1(2) _ b(3), of "read_more s (b2 @ rest) k (P x)" rest] s(1) by auto
    then show "\<exists>k. times (length (x # xs)) f s = (SCTRL_OK, read_more s rest k (concat (map P (x # xs))))" using k by auto
  qed
qed

lemma responseHead_props: "length disc \<le> 100 \<Longrightarrow> length (responseHead count disc) = 104" "count_of (responseHead count disc @ b) = unat count"
proof -
  show "length disc \<le> 100 \<Longrightarrow> length (responseHead count disc) = 104" by (simp add: responseHead_def asc_def)
  have "of_le (le_bytes 4 count) = count" by (rule of_le_le_bytes) simp
  then show "count_of (responseHead count disc @ b) = unat count" by (simp add: count_of_def responseHead_def)
qed

lemma reads_counted:
  assumes "\<And>x. x \<in> set xs \<Longrightarrow> reads f (E x) (P x)" "unat count = length xs" "length disc \<le> 100"
  shows "reads (recv_counted f) (enc_counted count disc E xs) (concat (map P xs))"
  unfolding reads_def
proof (intro allI impI)
  fix s b rest assume s: "full s" "enc_counted count disc E xs b" "ct_in s = b @ rest"
  then obtain b2 where b: "b = responseHead count disc @ b2" "enc_list E xs b2" by (auto simp: enc_counted_def)
  let ?s = "read_more s (b2 @ rest) (ct_reads s + 1) []"
  have t: "reads (times (length xs) f) (enc_list E xs) (concat (map P xs))" by (rule reads_times) (rule assms(1))
  have "recv_counted f s = times (count_of (responseHead count disc)) f ?s"
    unfolding recv_counted_def using recv_full [OF s(1), of "responseHead count disc" "b2 @ rest" 104] s(3) b(1) responseHead_props(1) [OF assms(3)] by simp
  also have "count_of (responseHead count disc) = length xs" using responseHead_props(2) [of count disc "[]"] assms(2) by simp
  also have "\<exists>k. times (length xs) f ?s = (SCTRL_OK, read_more ?s rest k (concat (map P xs)))"
    by (rule readsD [OF t _ b(2)]) (use s(1) in auto)
  finally show "\<exists>k. recv_counted f s = (SCTRL_OK, read_more s rest k (concat (map P xs)))" by auto
qed

lemma reads_struct:
  assumes "seen raw sz vw f ns" "n \<in> set ns"
  shows "reads (recv_then sz (\<lambda>b. show_data (Pr (vw b)))) (\<lambda>b. \<exists>k. b = raw k n) [Pr (f (hn_obj n))]"
  using assms by (auto simp: reads_def seen_def recv_full show_data_def read_more_def)

lemma reads_send:
  assumes "reads f E ps" "full s" "ct_send_ok s (ct_sends s)" "E b" "ct_in s = b @ rest"
  shows "\<exists>s'. send_then c f s = (SCTRL_OK, s') \<and> ct_print s' = ct_print s @ ps \<and> ct_in s' = rest
    \<and> ct_out s' = ct_out s @ usr_cmd_val c # replicate 64 0 \<and> ct_stdin s' = ct_stdin s"
proof -
  let ?s = "s\<lparr>ct_sends := ct_sends s + 1, ct_out := ct_out s @ usr_cmd_val c # replicate 64 0\<rparr>"
  have "full ?s" "ct_in ?s = b @ rest" using assms(2,5) by (simp_all add: full_def)
  then obtain k where "f ?s = (SCTRL_OK, read_more ?s rest k ps)" using assms(1,4) unfolding reads_def by blast
  moreover have "strncpy 64 [] = replicate 64 0" by (simp add: strncpy_def)
  ultimately show ?thesis using assms(3) by (simp add: send_then_def cmdSend_def read_more_def)
qed

section \<open>Queries\<close>

text \<open>An answer of the switch that a client command reads as the given structures.\<close>

definition answered :: "pof_usr_cmd \<Rightarrow> (lst \<Rightarrow> listened) \<Rightarrow> (ctl \<Rightarrow> sctrl \<times> ctl) \<Rightarrow> printed list \<Rightarrow> lst \<Rightarrow> bool" where
  "answered q f h ps s \<longleftrightarrow> (\<exists>b k. f s = Some (POF_OK, sent_more s b k)
     \<and> (\<forall>c rest. full c \<longrightarrow> ct_send_ok c (ct_sends c) \<longrightarrow> ct_in c = b @ rest \<longrightarrow>
          (\<exists>c'. h c = (SCTRL_OK, c') \<and> ct_print c' = ct_print c @ ps \<and> ct_in c' = rest
             \<and> ct_out c' = ct_out c @ usr_cmd_val q # replicate 64 0 \<and> ct_stdin c' = ct_stdin c)))"

lemma query_answered:
  assumes "dp_counted (ls_dp s)" "all_sent s"
    and dp: "\<And>lr s r s'. body lr s = Some (r, s') \<Longrightarrow> ls_dp s' = ls_dp s"
    and slot: "\<And>n. n \<in> set (map_nodes (slotMap (ls_dp s))) \<Longrightarrow> emits (body (hn_obj n)) (E n) \<and> reads f (E n) (slot_contents q (hn_obj n))"
  shows "answered q (listen_slots body) (send_then q (recv_counted f)) (contents q (ls_dp s)) s"
proof -
  let ?ns = "map_nodes (slotMap (ls_dp s))"
  have c: "counted (slotMap (ls_dp s)) (slotNum (ls_dp s))" using assms(1) by (simp add: dp_counted_def)
  obtain b k where b: "listen_slots body s = Some (POF_OK, sent_more s b k)" "enc_counted (slotNum (ls_dp s)) ''slots'' E ?ns b"
    using slots_sent [OF c assms(2), of body E] slot dp by blast
  have "unat (slotNum (ls_dp s)) = length ?ns" using c by (auto simp: counted_def map_nodes_def split: option.splits)
  then have r: "reads (recv_counted f) (enc_counted (slotNum (ls_dp s)) ''slots'' E ?ns) (contents q (ls_dp s))"
    unfolding contents_def by (intro reads_counted) (use slot in auto)
  show ?thesis unfolding answered_def using b(1) reads_send [OF r _ _ b(2)] by blast
qed

lemma unat_ucast_u16: "unat (ucast (w :: u16) :: u32) = unat w"
  by (rule unat_ucast_u16_u32)

lemma send_loop_dp: "send_loop b s = Some (r, s') \<Longrightarrow> ls_dp s' = ls_dp s"
  by (auto simp: send_loop_def split: prod.splits dest: send_dp)

lemma simple_slot:
  assumes "counted m num" "unat count = unat num" "length disc \<le> 100" "seen raw sz vw (\<lambda>x. x) (map_nodes m)"
  shows "emits (listen_map count disc m (\<lambda>p s. send_loop (raw (sends_of s) p) s)) (enc_counted count disc (\<lambda>p b. \<exists>k. b = raw k p) (map_nodes m))
    \<and> reads (recv_counted (recv_then sz (\<lambda>b. show_data (Pr (vw b))))) (enc_counted count disc (\<lambda>p b. \<exists>k. b = raw k p) (map_nodes m))
        (map (\<lambda>n. Pr (hn_obj n)) (map_nodes m))"
proof
  have len: "unat count = length (map_nodes m)" using assms(1,2) by (auto simp: counted_def map_nodes_def split: option.splits)
  show "emits (listen_map count disc m (\<lambda>p s. send_loop (raw (sends_of s) p) s)) (enc_counted count disc (\<lambda>p b. \<exists>k. b = raw k p) (map_nodes m))"
    by (rule emits_map [OF assms(1)]) (auto intro: emits_send dest: send_loop_dp)
  have "reads (recv_counted (recv_then sz (\<lambda>b. show_data (Pr (vw b))))) (enc_counted count disc (\<lambda>p b. \<exists>k. b = raw k p) (map_nodes m))
      (concat (map (\<lambda>n. [Pr (hn_obj n)]) (map_nodes m)))"
    by (rule reads_counted [OF _ len assms(3)]) (rule reads_struct [OF assms(4)])
  then show "reads (recv_counted (recv_then sz (\<lambda>b. show_data (Pr (vw b))))) (enc_counted count disc (\<lambda>p b. \<exists>k. b = raw k p) (map_nodes m))
      (map (\<lambda>n. Pr (hn_obj n)) (map_nodes m))" by (simp add: concat_map_singleton)
qed

text \<open>A table is followed by its entries.\<close>

definition enc_table :: "layout \<Rightarrow> tableInfo hnode \<Rightarrow> bytes \<Rightarrow> bool" where
  "enc_table lay n b \<longleftrightarrow> (\<exists>k b2. b = raw_table lay k n @ b2
     \<and> enc_counted (ti_entryNum (hn_obj n)) ''entries'' (\<lambda>p b. \<exists>k. b = raw_entry lay k p) (map_nodes (ti_entryMap (hn_obj n))) b2)"

lemma table_emits:
  assumes "counted (ti_entryMap (hn_obj n)) (ti_entryNum (hn_obj n))"
    and "seen (raw_entry lay) sz vw (\<lambda>x. x) (map_nodes (ti_entryMap (hn_obj n)))"
  shows "emits (\<lambda>s. case send (raw_table lay (sends_of s) n) s of (ok, s1) \<Rightarrow>
        if \<not> ok then Some (Some POF_ERROR, s1)
        else listen_map (ti_entryNum (hn_obj n)) ''entries'' (ti_entryMap (hn_obj n)) (\<lambda>entry s. send_loop (raw_entry lay (sends_of s) entry) s) s1)
      (enc_table lay n)" (is "emits ?f _")
proof -
  let ?map = "listen_map (ti_entryNum (hn_obj n)) ''entries'' (ti_entryMap (hn_obj n)) (\<lambda>entry s. send_loop (raw_entry lay (sends_of s) entry) s)"
  let ?E = "enc_counted (ti_entryNum (hn_obj n)) ''entries'' (\<lambda>p b. \<exists>k. b = raw_entry lay k p) (map_nodes (ti_entryMap (hn_obj n)))"
  have m: "emits ?map ?E" using simple_slot [OF assms(1) refl _ assms(2), of "''entries''"] by simp
  have "ls_dp s' = ls_dp s" if "?f s = Some (r, s')" for s r s'
    using that emits_keeps [OF m] by (auto split: prod.splits if_splits dest!: send_dp)
  moreover have "\<exists>b k. ?f s = Some (None, sent_more s b k) \<and> enc_table lay n b" if all: "all_sent s" for s
  proof -
    let ?s1 = "sent_more s (raw_table lay (sends_of s) n) (sends_of s + 1)"
    have "all_sent ?s1" using all by simp
    from m [unfolded emits_def, THEN conjunct2, THEN spec, THEN mp, OF this]
    obtain b k where "?map ?s1 = Some (None, sent_more ?s1 b k)" "?E b" by (elim exE conjE)
    then show ?thesis
      by (intro exI [of _ "raw_table lay (sends_of s) n @ b"] exI [of _ k]) (auto simp: send_all [OF all] enc_table_def)
  qed
  ultimately show ?thesis unfolding emits_def by blast
qed

lemma table_reads:
  assumes "counted (ti_entryMap (hn_obj n)) (ti_entryNum (hn_obj n))"
    and "seen (raw_entry lay) (sz_entry v) (view_entry v) (\<lambda>x. x) (map_nodes (ti_entryMap (hn_obj n)))"
    and "seen (raw_table lay) (sz_table v) (view_table v) base_info ns" "n \<in> set ns"
  shows "reads (recv_then (sz_table v) (\<lambda>b s. case show_data (PrintTable (view_table v b)) s of (_, s1) \<Rightarrow>
        recv_counted (recv_then (sz_entry v) (\<lambda>b. show_data (PrintEntry (view_entry v b)))) s1)) (enc_table lay n) (table_contents (hn_obj n))"
  unfolding reads_def
proof (intro allI impI)
  let ?h = "recv_counted (recv_then (sz_entry v) (\<lambda>b. show_data (PrintEntry (view_entry v b))))"
  let ?E = "enc_counted (ti_entryNum (hn_obj n)) ''entries'' (\<lambda>p b. \<exists>k. b = raw_entry lay k p) (map_nodes (ti_entryMap (hn_obj n)))"
  fix s b rest assume s: "full s" "enc_table lay n b" "ct_in s = b @ rest"
  then obtain k b2 where b: "b = raw_table lay k n @ b2" "?E b2" by (auto simp: enc_table_def)
  have t: "length (raw_table lay k n) = sz_table v" "view_table v (raw_table lay k n) = base_info (hn_obj n)" "0 < sz_table v"
    using assms(3,4) by (auto simp: seen_def)
  have m: "reads ?h ?E (map (\<lambda>n. PrintEntry (hn_obj n)) (map_nodes (ti_entryMap (hn_obj n))))"
    using simple_slot [OF assms(1) refl _ assms(2), of "''entries''"] by simp
  let ?s = "read_more s (b2 @ rest) (ct_reads s + 1) [PrintTable (base_info (hn_obj n))]"
  obtain k' where "?h ?s = (SCTRL_OK, read_more ?s rest k' (map (\<lambda>n. PrintEntry (hn_obj n)) (map_nodes (ti_entryMap (hn_obj n)))))"
    using readsD [OF m _ b(2), of ?s rest] s(1) by auto
  moreover have "show_data (PrintTable (view_table v (raw_table lay k n))) (read_more s (b2 @ rest) (ct_reads s + 1) []) = (SCTRL_OK, ?s)"
    by (simp add: show_data_def t(2) read_more_def)
  ultimately show "\<exists>k. recv_then (sz_table v) (\<lambda>b s. case show_data (PrintTable (view_table v b)) s of (_, s1) \<Rightarrow> ?h s1) s
      = (SCTRL_OK, read_more s rest k (table_contents (hn_obj n)))"
    using recv_full [OF s(1), of "raw_table lay k n" "b2 @ rest"] s(3) b(1) t(1,3) by (intro exI [of _ k']) (simp add: table_contents_def)
qed

lemma table_dp:
  "(case send b s of (ok, s1) \<Rightarrow> if \<not> ok then Some (Some POF_ERROR, s1)
      else listen_map count disc m (\<lambda>entry s. send_loop (raw (sends_of s) entry) s) s1) = Some (r, s') \<Longrightarrow> ls_dp s' = ls_dp s"
  by (auto split: prod.splits if_splits dest!: send_dp listen_map_dp send_loop_dp)

lemma tables_slot:
  assumes "slot_counted lr" "slot_seen lay v lr"
  defines "E \<equiv> enc_counted (ucast (tableNum lr)) ''tables'' (enc_table lay) (map_nodes (tableIdMap lr))"
  shows "emits (listen_map (ucast (tableNum lr)) ''tables'' (tableIdMap lr)
     (\<lambda>table s. case send (raw_table lay (sends_of s) table) s of (ok, s1) \<Rightarrow>
        if \<not> ok then Some (Some POF_ERROR, s1)
        else listen_map (ti_entryNum (hn_obj table)) ''entries'' (ti_entryMap (hn_obj table))
          (\<lambda>entry s. send_loop (raw_entry lay (sends_of s) entry) s) s1)) E
    \<and> reads (recv_counted (recv_then (sz_table v) (\<lambda>b s. case show_data (PrintTable (view_table v b)) s of (_, s1) \<Rightarrow>
        recv_counted (recv_then (sz_entry v) (\<lambda>b. show_data (PrintEntry (view_entry v b)))) s1))) E (slot_contents POFUC_tables lr)"
proof
  have c: "counted (tableIdMap lr) (tableNum lr)"
    "\<And>t. t \<in> set (map_nodes (tableIdMap lr)) \<Longrightarrow> counted (ti_entryMap (hn_obj t)) (ti_entryNum (hn_obj t))"
    "\<And>t. t \<in> set (map_nodes (tableIdMap lr)) \<Longrightarrow> seen (raw_entry lay) (sz_entry v) (view_entry v) (\<lambda>x. x) (map_nodes (ti_entryMap (hn_obj t)))"
    "seen (raw_table lay) (sz_table v) (view_table v) base_info (map_nodes (tableIdMap lr))"
    using assms(1,2) by (auto simp: slot_counted_def slot_seen_def)
  have len: "unat (ucast (tableNum lr) :: u32) = length (map_nodes (tableIdMap lr))"
    using c(1) by (auto simp: counted_def map_nodes_def unat_ucast_u16 split: option.splits)
  show "emits (listen_map (ucast (tableNum lr)) ''tables'' (tableIdMap lr)
     (\<lambda>table s. case send (raw_table lay (sends_of s) table) s of (ok, s1) \<Rightarrow>
        if \<not> ok then Some (Some POF_ERROR, s1)
        else listen_map (ti_entryNum (hn_obj table)) ''entries'' (ti_entryMap (hn_obj table))
          (\<lambda>entry s. send_loop (raw_entry lay (sends_of s) entry) s) s1)) E"
    unfolding E_def
  proof (rule emits_map [OF c(1)])
    show "emits (\<lambda>s. case send (raw_table lay (sends_of s) n) s of (ok, s1) \<Rightarrow>
        if \<not> ok then Some (Some POF_ERROR, s1)
        else listen_map (ti_entryNum (hn_obj n)) ''entries'' (ti_entryMap (hn_obj n)) (\<lambda>entry s. send_loop (raw_entry lay (sends_of s) entry) s) s1)
      (enc_table lay n)" if "n \<in> set (map_nodes (tableIdMap lr))" for n
      by (rule table_emits [OF c(2) c(3)]) (rule that)+
  qed (erule table_dp)
  show "reads (recv_counted (recv_then (sz_table v) (\<lambda>b s. case show_data (PrintTable (view_table v b)) s of (_, s1) \<Rightarrow>
        recv_counted (recv_then (sz_entry v) (\<lambda>b. show_data (PrintEntry (view_entry v b)))) s1))) E (slot_contents POFUC_tables lr)"
    unfolding E_def slot_contents.simps by (rule reads_counted [OF table_reads [OF c(2,3,4)] len]) auto
qed

lemma listen_query:
  "listen_cmd lay left POFUC_ports arg = listen_ports lay" "listen_cmd lay left POFUC_tables arg = listen_tables lay"
  "listen_cmd lay left POFUC_groups arg = listen_groups lay" "listen_cmd lay left POFUC_meters arg = listen_meters lay"
  "listen_cmd lay left POFUC_counters arg = listen_counters lay"
  by (simp_all add: listen_cmd_def fun_eq_iff)

lemma run_query:
  "run_cmd v POFUC_ports arg = cmd_ports v" "run_cmd v POFUC_tables arg = cmd_tables v" "run_cmd v POFUC_groups arg = cmd_groups v"
  "run_cmd v POFUC_meters arg = cmd_meters v" "run_cmd v POFUC_counters arg = cmd_counters v"
  by (simp_all add: run_cmd_def fun_eq_iff)

lemma control_answered:
  assumes "dp_counted (ls_dp s)" "all_sent s" "\<forall>n \<in> set (map_nodes (slotMap (ls_dp s))). slot_seen lay v (hn_obj n)" "q \<in> queries"
  shows "answered q (listen_cmd lay left q arg) (run_cmd v q arg') (contents q (ls_dp s)) s"
proof -
  have slot: "slot_counted (hn_obj n)" "slot_seen lay v (hn_obj n)" if "n \<in> set (map_nodes (slotMap (ls_dp s)))" for n
    using assms(1,3) that by (auto simp: dp_counted_def)
  have parts: "counted (portPofIndexMap (hn_obj n)) (portNum (hn_obj n))" "counted (groupMap (hn_obj n)) (groupNum (hn_obj n))"
    "counted (meterMap (hn_obj n)) (meterNum (hn_obj n))" "counted (counterMap (hn_obj n)) (counterNum (hn_obj n))"
    "seen (raw_port lay) (sz_port v) (view_port v) (\<lambda>x. x) (map_nodes (portPofIndexMap (hn_obj n)))"
    "seen (raw_group lay) (sz_group v) (view_group v) (\<lambda>x. x) (map_nodes (groupMap (hn_obj n)))"
    "seen (raw_meter lay) (sz_meter v) (view_meter v) (\<lambda>x. x) (map_nodes (meterMap (hn_obj n)))"
    "seen (raw_counter lay) (sz_counter v) (view_counter v) (\<lambda>x. x) (map_nodes (counterMap (hn_obj n)))"
    if "n \<in> set (map_nodes (slotMap (ls_dp s)))" for n
    using slot [OF that] by (auto simp: slot_counted_def slot_seen_def)
  note q = query_answered [OF assms(1,2)]
  have "answered POFUC_ports (listen_ports lay) (cmd_ports v) (contents POFUC_ports (ls_dp s)) s"
    unfolding listen_ports_def cmd_ports_def
    by (rule q) (erule listen_map_dp, erule send_loop_dp, unfold slot_contents.simps, rule simple_slot [OF parts(1) _ _ parts(5)], simp_all add: unat_ucast_u16)
  moreover have "answered POFUC_tables (listen_tables lay) (cmd_tables v) (contents POFUC_tables (ls_dp s)) s"
    unfolding listen_tables_def cmd_tables_def
    by (rule q) (erule listen_map_dp, erule table_dp, rule tables_slot, (erule slot)+)
  moreover have "answered POFUC_groups (listen_groups lay) (cmd_groups v) (contents POFUC_groups (ls_dp s)) s"
    unfolding listen_groups_def cmd_groups_def
    by (rule q) (erule listen_map_dp, erule send_loop_dp, unfold slot_contents.simps, rule simple_slot [OF parts(2) _ _ parts(6)], simp_all)
  moreover have "answered POFUC_meters (listen_meters lay) (cmd_meters v) (contents POFUC_meters (ls_dp s)) s"
    unfolding listen_meters_def cmd_meters_def
    by (rule q) (erule listen_map_dp, erule send_loop_dp, unfold slot_contents.simps, rule simple_slot [OF parts(3) _ _ parts(7)], simp_all)
  moreover have "answered POFUC_counters (listen_counters lay) (cmd_counters v) (contents POFUC_counters (ls_dp s)) s"
    unfolding listen_counters_def cmd_counters_def
    by (rule q) (erule listen_map_dp, erule send_loop_dp, unfold slot_contents.simps, rule simple_slot [OF parts(4) _ _ parts(8)], simp_all)
  ultimately show ?thesis using assms(4) by (auto simp: queries_def listen_query run_query)
qed

text \<open>
  C36. Round trip of a query. When the numbers beside the maps of the switch are right, every
  \<^verbatim>\<open>send\<close> and \<^verbatim>\<open>recv\<close> is complete and the client reads the memory of a structure as the structure, then
  asking for ports, tables, groups, meters or counters sends the command, and the answer of the switch
  makes the client print exactly the structures of all slots, tables with their entries, in the
  order of the maps, and read its connection to the end of the answer and not beyond. The switch is unchanged.
\<close>

theorem control_query_roundtrip:
  assumes "dp_counted (ls_dp s)" "all_sent s" "\<forall>n \<in> set (map_nodes (slotMap (ls_dp s))). slot_seen lay v (hn_obj n)" "q \<in> queries"
  shows "\<exists>s' b. listen_cmd lay left q arg s = Some (POF_OK, s') \<and> pe_out (ls_peer s') = pe_out (ls_peer s) @ b
    \<and> ls_dp s' = ls_dp s \<and> ls_g s' = ls_g s \<and> ls_conf s' = ls_conf s
    \<and> (\<forall>c rest. full c \<longrightarrow> ct_send_ok c (ct_sends c) \<longrightarrow> ct_in c = b @ rest \<longrightarrow>
         (\<exists>c'. run_cmd v q arg' c = (SCTRL_OK, c') \<and> ct_out c' = ct_out c @ usr_cmd_val q # replicate 64 0
            \<and> ct_print c' = ct_print c @ contents q (ls_dp s) \<and> ct_in c' = rest))"
proof -
  obtain b k where b: "listen_cmd lay left q arg s = Some (POF_OK, sent_more s b k)"
    "\<forall>c rest. full c \<longrightarrow> ct_send_ok c (ct_sends c) \<longrightarrow> ct_in c = b @ rest \<longrightarrow>
       (\<exists>c'. run_cmd v q arg' c = (SCTRL_OK, c') \<and> ct_print c' = ct_print c @ contents q (ls_dp s) \<and> ct_in c' = rest
          \<and> ct_out c' = ct_out c @ usr_cmd_val q # replicate 64 0 \<and> ct_stdin c' = ct_stdin c)"
    using control_answered [OF assms, of left arg arg'] unfolding answered_def by blast
  show ?thesis
  proof (intro exI [of _ "sent_more s b k"] exI [of _ b] conjI allI impI)
    show "listen_cmd lay left q arg s = Some (POF_OK, sent_more s b k)" by (rule b(1))
    fix c rest assume "full c" "ct_send_ok c (ct_sends c)" "ct_in c = b @ rest"
    then show "\<exists>c'. run_cmd v q arg' c = (SCTRL_OK, c') \<and> ct_out c' = ct_out c @ usr_cmd_val q # replicate 64 0
        \<and> ct_print c' = ct_print c @ contents q (ls_dp s) \<and> ct_in c' = rest" using b(2) by blast
  qed (simp_all add: sent_more_def)
qed

section \<open>The console\<close>

lemma print_map_list:
  assumes "hmap_ok m" "\<And>n s. n \<in> set (hmap_nodes m) \<Longrightarrow> body n s = Some (s\<lparr>cs_print := cs_print s @ P n\<rparr>)"
  shows "print_map body (Some m) s = Some (s\<lparr>cs_print := cs_print s @ concat (map P (hmap_nodes m))\<rparr>)"
proof -
  let ?b = "\<lambda>n s. map_option (\<lambda>s'. (None :: unit option, s')) (body n s)"
  have "trav_list ?b ns s = Some (None, s\<lparr>cs_print := cs_print s @ concat (map P ns)\<rparr>)" if "set ns \<subseteq> set (hmap_nodes m)" for ns s
    using that by (induction ns arbitrary: s) (simp_all add: assms(2))
  moreover have "hmap_struct_traverse (\<lambda>_. Some m) ?b s = trav_list ?b (hmap_nodes m) s"
    by (rule hmap_struct_traverse_readonly [OF assms(1)]) auto
  ultimately show ?thesis by (simp add: print_map_def)
qed

lemma print_simple:
  assumes "counted m num"
  shows "print_map (\<lambda>n s. Some (print_data (Pr (hn_obj n)) s)) m s = Some (s\<lparr>cs_print := cs_print s @ map (\<lambda>n. Pr (hn_obj n)) (map_nodes m)\<rparr>)"
proof -
  obtain hm where m: "m = Some hm" "hmap_ok hm" using assms by (auto simp: counted_def split: option.splits)
  show ?thesis unfolding m(1)
    by (subst print_map_list [OF m(2), where P = "\<lambda>n. [Pr (hn_obj n)]"]) (simp_all add: print_data_def map_nodes_def concat_map_singleton)
qed

lemma print_tables:
  assumes "slot_counted lr"
  shows "print_map (\<lambda>t. cmdPrintFlowTable (hn_obj t)) (tableIdMap lr) s = Some (s\<lparr>cs_print := cs_print s @ slot_contents POFUC_tables lr\<rparr>)"
proof -
  obtain hm where m: "tableIdMap lr = Some hm" "hmap_ok hm" using assms by (auto simp: slot_counted_def counted_def split: option.splits)
  have t: "cmdPrintFlowTable (hn_obj n) s = Some (s\<lparr>cs_print := cs_print s @ table_contents (hn_obj n)\<rparr>)" if "n \<in> set (hmap_nodes hm)" for n s
  proof -
    have "counted (ti_entryMap (hn_obj n)) (ti_entryNum (hn_obj n))" using assms that m by (simp add: slot_counted_def map_nodes_def)
    from print_simple [OF this, of PrintEntry] show ?thesis
      by (simp add: cmdPrintFlowTable_def cmdPrintFlowEntrys_def table_contents_def) (simp add: print_data_def)
  qed
  show ?thesis unfolding m(1) by (subst print_map_list [OF m(2) t]) (simp_all add: map_nodes_def m(1))
qed

definition heading :: "printed \<Rightarrow> bool" where
  "heading p \<longleftrightarrow> (\<exists>i. p = PrintSlot i)"

lemma contents_no_heading: "filter (\<lambda>p. \<not> heading p) (slot_contents q lr) = slot_contents q lr"
  by (cases q) (auto simp: heading_def table_contents_def filter_id_conv)

lemma console_shows:
  assumes "dp_counted (cs_dp s)" "q \<in> queries"
  shows "usr_cmd q arg s = Some (s\<lparr>cs_print := cs_print s
    @ concat (map (\<lambda>n. PrintSlot (slotID (hn_obj n)) # slot_contents q (hn_obj n)) (map_nodes (slotMap (cs_dp s))))\<rparr>)"
proof -
  obtain hm where m: "slotMap (cs_dp s) = Some hm" "hmap_ok hm" "\<And>n. n \<in> set (hmap_nodes hm) \<Longrightarrow> slot_counted (hn_obj n)"
    using assms(1) by (auto simp: dp_counted_def counted_def map_nodes_def split: option.splits)
  have slots: "print_slots body s = Some (s\<lparr>cs_print := cs_print s
      @ concat (map (\<lambda>n. PrintSlot (slotID (hn_obj n)) # slot_contents q (hn_obj n)) (map_nodes (slotMap (cs_dp s))))\<rparr>)"
    if "\<And>lr s. slot_counted lr \<Longrightarrow> body lr s = Some (s\<lparr>cs_print := cs_print s @ slot_contents q lr\<rparr>)" for body
    unfolding print_slots_def m(1)
    by (subst print_map_list [OF m(2), where P = "\<lambda>n. PrintSlot (slotID (hn_obj n)) # slot_contents q (hn_obj n)"])
      (simp_all add: that m(3) print_data_def map_nodes_def)
  have p: "slot_counted lr \<Longrightarrow> print_map (\<lambda>n s. Some (print_data (PrintPort (hn_obj n)) s)) (portPofIndexMap lr) s
        = Some (s\<lparr>cs_print := cs_print s @ slot_contents POFUC_ports lr\<rparr>)"
    "slot_counted lr \<Longrightarrow> print_map (\<lambda>n s. Some (print_data (PrintGroup (hn_obj n)) s)) (groupMap lr) s
        = Some (s\<lparr>cs_print := cs_print s @ slot_contents POFUC_groups lr\<rparr>)"
    "slot_counted lr \<Longrightarrow> print_map (\<lambda>n s. Some (print_data (PrintMeter (hn_obj n)) s)) (meterMap lr) s
        = Some (s\<lparr>cs_print := cs_print s @ slot_contents POFUC_meters lr\<rparr>)"
    "slot_counted lr \<Longrightarrow> print_map (\<lambda>n s. Some (print_data (PrintCounter (hn_obj n)) s)) (counterMap lr) s
        = Some (s\<lparr>cs_print := cs_print s @ slot_contents POFUC_counters lr\<rparr>)" for lr s
    by (auto simp: slot_counted_def intro: print_simple)
  from assms(2) consider "q = POFUC_ports" | "q = POFUC_tables" | "q = POFUC_groups" | "q = POFUC_meters" | "q = POFUC_counters"
    by (auto simp: queries_def)
  then show ?thesis
  proof cases
    case 1
    then show ?thesis using slots p(1) by (simp add: usr_cmd_def usr_cmd_ports_def)
  next
    case 2
    then show ?thesis using slots print_tables by (simp add: usr_cmd_def usr_cmd_tables_def del: slot_contents.simps)
  next
    case 3
    then show ?thesis using slots p(2) by (simp add: usr_cmd_def usr_cmd_groups_def)
  next
    case 4
    then show ?thesis using slots p(3) by (simp add: usr_cmd_def usr_cmd_meters_def)
  next
    case 5
    then show ?thesis using slots p(4) by (simp add: usr_cmd_def usr_cmd_counters_def)
  qed
qed

text \<open>
  C37. The console and the control port agree. Under the same conditions, and for a console on
  the same datapath, the client prints for a query exactly what the console of the switch prints,
  less the heading of each slot.
\<close>

theorem console_and_client_agree:
  assumes "dp_counted (ls_dp s)" "all_sent s" "\<forall>n \<in> set (map_nodes (slotMap (ls_dp s))). slot_seen lay v (hn_obj n)" "q \<in> queries"
    and "cs_dp t = ls_dp s"
  shows "\<exists>ps b s'. usr_cmd q arg t = Some (t\<lparr>cs_print := cs_print t @ ps\<rparr>)
    \<and> listen_cmd lay left q arg2 s = Some (POF_OK, s') \<and> pe_out (ls_peer s') = pe_out (ls_peer s) @ b
    \<and> (\<forall>c rest. full c \<longrightarrow> ct_send_ok c (ct_sends c) \<longrightarrow> ct_in c = b @ rest \<longrightarrow>
         (\<exists>c'. run_cmd v q arg3 c = (SCTRL_OK, c') \<and> ct_print c' = ct_print c @ filter (\<lambda>p. \<not> heading p) ps))"
proof -
  let ?ps = "concat (map (\<lambda>n. PrintSlot (slotID (hn_obj n)) # slot_contents q (hn_obj n)) (map_nodes (slotMap (ls_dp s))))"
  have 1: "usr_cmd q arg t = Some (t\<lparr>cs_print := cs_print t @ ?ps\<rparr>)"
    using console_shows [of t q arg] assms(1,4,5) by simp
  have 2: "filter (\<lambda>p. \<not> heading p) ?ps = contents q (ls_dp s)"
    by (simp add: contents_def filter_concat comp_def contents_no_heading heading_def [of "PrintSlot i" for i])
  show ?thesis using control_answered [OF assms(1-4), of left arg2 arg3] 1
    unfolding answered_def 2 [symmetric] by (fastforce simp: sent_more_def)
qed

section \<open>Sessions\<close>

text \<open>The commands of a client arrive one by one, and then it closes the connection.\<close>

definition arrive :: "u8 list \<Rightarrow> lst \<Rightarrow> bool" where
  "arrive cs s \<longleftrightarrow> (\<forall>i < length cs. pe_recv (ls_peer s) (pe_recvs (ls_peer s) + i) = Got (cs ! i # replicate 64 0))
     \<and> pe_recv (ls_peer s) (pe_recvs (ls_peer s) + length cs) = Closed"

lemma usr_cmd_val_of: "usr_cmd_of (usr_cmd_val c) = Some c"
  by (cases c) (simp_all add: usr_cmd_of_def usr_cmd_val_def COMMANDS_def)

lemma session_ends:
  assumes "dp_counted (ls_dp s)" "all_sent s" "\<forall>n \<in> set (map_nodes (slotMap (ls_dp s))). slot_seen lay v (hn_obj n)"
    and "arrive (map usr_cmd_val qs) s" "set qs \<subseteq> queries"
  shows "\<exists>s'. listenRecv lay left s = Some (POF_OK, s') \<and> ls_dp s' = ls_dp s"
  using assms
proof (induction qs arbitrary: s)
  case Nil
  then show ?case by (subst listenRecv.simps) (simp add: arrive_def recv_def Let_def)
next
  case (Cons q qs)
  let ?s1 = "s\<lparr>ls_peer := (ls_peer s)\<lparr>pe_recvs := pe_recvs (ls_peer s) + 1\<rparr>\<rparr>"
  have r: "recv s = (Got (usr_cmd_val q # replicate 64 0), ?s1)" using Cons.prems(4) by (auto simp: arrive_def recv_def Let_def)
  have "answered q (listen_cmd lay left q (replicate 64 0)) (run_cmd v q None) (contents q (ls_dp ?s1)) ?s1"
    by (rule control_answered) (use Cons.prems in \<open>auto simp: all_sent_def\<close>)
  then obtain b k where b: "listen_cmd lay left q (replicate 64 0) ?s1 = Some (POF_OK, sent_more ?s1 b k)" by (auto simp: answered_def)
  have "arrive (map usr_cmd_val qs) (sent_more ?s1 b k)"
    using Cons.prems(4) by (auto simp: arrive_def sent_more_def dest: spec [of _ "Suc i" for i])
  moreover have "all_sent (sent_more ?s1 b k)" using Cons.prems(2) by (simp add: all_sent_def sent_more_def)
  ultimately obtain s' where "listenRecv lay left (sent_more ?s1 b k) = Some (POF_OK, s')" "ls_dp s' = ls_dp s"
    using Cons.IH [of "sent_more ?s1 b k"] Cons.prems(1,3,5) by auto
  then show ?case using r b by (subst listenRecv.simps) (simp add: usr_cmd_val_of)
qed


text \<open>
  A connection on which \<^verbatim>\<open>recv\<close> fails for good is never left, because the negative length is stored
  in an unsigned variable.
\<close>

definition broken :: "lst \<Rightarrow> bool" where
  "broken s \<longleftrightarrow> (\<forall>k. pe_recv (ls_peer s) k = Failed)"

lemma broken_recv: "broken s \<Longrightarrow> \<exists>s1. recv s = (Failed, s1) \<and> broken s1"
  by (simp add: broken_def recv_def Let_def)

lemma zero_is_help: "usr_cmd_of 0 = Some POFUC_help"
  by (simp add: usr_cmd_of_def COMMANDS_def)

lemma listenRecv_broken_diverges: "broken s \<Longrightarrow> listenRecv lay left s = None"
proof (rule ccontr)
  assume s: "broken s" and "listenRecv lay left s \<noteq> None"
  then obtain y where y: "listenRecv lay left s = Some y" by blast
  have "\<not> broken s"
  proof (rule listenRecv.raw_induct [where P = "\<lambda>lay left s y. \<not> broken s", OF _ y])
    fix f lay left s y
    assume IH: "\<And>lay left s y. f lay left s = Some y \<Longrightarrow> \<not> broken s"
      and step: "(case recv s of (x, s1) \<Rightarrow>
         if x = Closed then Some (POF_OK, s1)
         else let cmd = (case x of Got b \<Rightarrow> b @ replicate (65 - length b) 0 | _ \<Rightarrow> replicate 65 0) in
           case usr_cmd_of (hd cmd) of
             None \<Rightarrow> f lay left s1
           | Some c \<Rightarrow> do {
               (r, s2) \<leftarrow> listen_cmd lay left c (tl cmd) s1;
               (if r \<noteq> POF_OK then Some (POF_OK, s2) else f lay left s2)
             }) = Some (y :: ret \<times> lst)"
    show "\<not> broken s"
    proof
      assume "broken s"
      then obtain s1 where "recv s = (Failed, s1)" "broken s1" using broken_recv by blast
      then show False using step IH by (simp add: zero_is_help listen_cmd_def)
    qed
  qed
  then show False using s by blast
qed

text \<open>The client at the end of its input asks for commands for ever.\<close>

lemma cmd_at_end_diverges: "ct_stdin s = [] \<Longrightarrow> cmd v s = None"
proof (rule ccontr)
  assume s: "ct_stdin s = []" and "cmd v s \<noteq> None"
  then obtain y where y: "cmd v s = Some y" by blast
  have "ct_stdin s \<noteq> []"
  proof (rule cmd.raw_induct [where P = "\<lambda>v s y. ct_stdin s \<noteq> []", OF _ y])
    fix f v s y
    assume IH: "\<And>v s y. f v s = Some y \<Longrightarrow> ct_stdin s \<noteq> []"
      and step: "do {
         (q, s1) \<leftarrow> cmdGet s;
         (case q of (g, arg) \<Rightarrow>
           if g = Cmd POFUC_quit \<or> g = Cmd POFUC_exit then Some (SCTRL_QUIT, s1)
           else (case g of
               Cmd c \<Rightarrow> (case run_cmd v c arg s1 of (r, s2) \<Rightarrow> if r \<noteq> SCTRL_OK then Some (r, s2) else f v s2)
             | _ \<Rightarrow> f v s1))
       } = Some (y :: sctrl \<times> ctl)"
    show "ct_stdin s \<noteq> []"
    proof
      assume "ct_stdin s = []"
      then show False using step IH by (simp add: cmdGet_def fgets_def)
    qed
  qed
  then show False using s by blast
qed

section \<open>Slots and examples\<close>

text \<open>A well formed slot has right numbers while they fit.\<close>

definition slot_small :: "pof_local_resource \<Rightarrow> bool" where
  "slot_small lr \<longleftrightarrow> length (map_nodes (portPofIndexMap lr)) < 2 ^ 16 \<and> length (map_nodes (tableIdMap lr)) < 2 ^ 16
     \<and> (\<forall>t \<in> set (map_nodes (tableIdMap lr)). length (map_nodes (ti_entryMap (hn_obj t))) < 2 ^ 32)
     \<and> length (map_nodes (groupMap lr)) < 2 ^ 32 \<and> length (map_nodes (meterMap lr)) < 2 ^ 32
     \<and> length (map_nodes (counterMap lr)) < 2 ^ 32"

lemma res_counted: "res_ok key m (num :: 'w::len word) \<Longrightarrow> length (map_nodes m) < 2 ^ LENGTH('w) \<Longrightarrow> counted m num"
  by (auto simp: res_ok_def tbl_ok_def counted_def map_nodes_def unat_of_nat split: option.splits)

lemma slot_ok_counted:
  assumes "slot_ok lr g" "slot_small lr"
  shows "slot_counted lr"
proof -
  have s: "port_ok lr" "table_ok lr" "\<And>ID t. tables lr ID = Some t \<Longrightarrow> entries_ok (malloc_n g) t" "group_ok lr" "counter_ok lr" "meter_ok lr"
    using assms(1) by (auto simp: slot_ok_def gc_ok_def)
  obtain tm where tm: "tableIdMap lr = Some tm" using s(2) by (auto simp: res_ok_def split: option.splits)
  have "counted (ti_entryMap (hn_obj t)) (ti_entryNum (hn_obj t))" if "t \<in> set (map_nodes (tableIdMap lr))" for t
  proof -
    have "entries_ok (malloc_n g) (hn_obj t)" using s(3) [OF table_in_map [OF s(2) tm, of t]] that tm by (simp add: map_nodes_def)
    moreover have "length (map_nodes (ti_entryMap (hn_obj t))) < 2 ^ 32" using assms(2) that by (simp add: slot_small_def)
    ultimately show ?thesis by (auto simp: entries_ok_def counted_def map_nodes_def unat_of_nat split: option.splits)
  qed
  moreover have "res_ok port_key (portPofIndexMap lr) (portNum lr)" using s(1) by (simp add: port_ok_def)
  from res_counted [OF this] res_counted [OF s(2)] res_counted [OF s(4)] res_counted [OF s(5)] res_counted [OF s(6)]
  have "counted (portPofIndexMap lr) (portNum lr)" "counted (tableIdMap lr) (tableNum lr)" "counted (groupMap lr) (groupNum lr)"
    "counted (counterMap lr) (counterNum lr)" "counted (meterMap lr) (meterNum lr)"
    using assms(2) by (simp_all add: slot_small_def)
  ultimately show ?thesis by (simp add: slot_counted_def)
qed

text \<open>A switch with one slot and one counter in it.\<close>

definition control_dp :: pof_datapath where
  "control_dp = example_dp\<lparr>slotMap := Some \<lparr>hm_buckets = [[\<lparr>hn_ptr = 1, hn_hash = 7, hn_obj = counted_lr\<rparr>]], hm_mask = 0, hm_n = 1\<rparr>\<rparr>"

definition example_layout :: layout where
  "example_layout = \<lparr>raw_port = (\<lambda>_ _. [1]), raw_table = (\<lambda>_ _. [2]), raw_entry = (\<lambda>_ _. [3]), raw_group = (\<lambda>_ _. [4]),
     raw_meter = (\<lambda>_ _. [5]), raw_counter = (\<lambda>k n. [of_nat k, ucast (ci_id (hn_obj n))]), raw_state = (\<lambda>_. [7])\<rparr>"

definition example_view :: view where
  "example_view = \<lparr>sz_port = 1, view_port = (\<lambda>_. example_port), sz_table = 1, view_table = (\<lambda>_. example_table 0 []),
     sz_entry = 1, view_entry = (\<lambda>_. zero_entry), sz_group = 1, view_group = (\<lambda>_. zero_group),
     sz_meter = 1, view_meter = (\<lambda>_. \<lparr>mi_rate = 0, mi_id = 0\<rparr>),
     sz_counter = 2, view_counter = (\<lambda>b. \<lparr>ci_id = ucast (b ! 1), ci_value = 5, ci_byte_value = 88\<rparr>),
     sz_state = 1, view_state = (\<lambda>_. example_states)\<rparr>"

definition example_lst :: lst where
  "example_lst = \<lparr>ls_peer = \<lparr>pe_out = [], pe_sends = 0, pe_send_ok = (\<lambda>_. True), pe_recvs = 0,
       pe_recv = (\<lambda>k. if k = 0 then Got (usr_cmd_val POFUC_counters # replicate 64 0) else Closed)\<rparr>,
     ls_conf = example_config, ls_dp = control_dp, ls_g = example_glob\<rparr>"

lemma control_dp_nodes: "map_nodes (slotMap control_dp) = [\<lparr>hn_ptr = 1, hn_hash = 7, hn_obj = counted_lr\<rparr>]"
  by (simp add: control_dp_def map_nodes_def hmap_nodes_def)

lemma counted_lr_nodes:
  "map_nodes (portPofIndexMap counted_lr) = []" "map_nodes (tableIdMap counted_lr) = []" "map_nodes (groupMap counted_lr) = []"
  "map_nodes (meterMap counted_lr) = []"
  "map_nodes (counterMap counted_lr) = [\<lparr>hn_ptr = 1, hn_hash = 3, hn_obj = \<lparr>ci_id = 3, ci_value = 5, ci_byte_value = 88\<rparr>\<rparr>]"
  by (simp_all add: counted_lr_def example_lr_def map_nodes_def) (simp add: hmap_nodes_def)

lemma control_dp_counted: "dp_counted control_dp"
proof -
  have "slot_counted counted_lr"
    using res_counted [OF counted_lr_ok(1)] counted_lr_nodes(2,5)
    by (simp add: slot_counted_def) (simp add: counted_def counted_lr_def example_lr_def empty_hmap_wf)
  then show ?thesis
    by (simp add: dp_counted_def control_dp_nodes) (simp add: counted_def control_dp_def example_dp_def hmap_nodes_def hmap_ok_def bucketWithHash_def)
qed

lemma example_seen: "\<forall>n \<in> set (map_nodes (slotMap (ls_dp example_lst))). slot_seen example_layout example_view (hn_obj n)"
  by (simp add: example_lst_def control_dp_nodes slot_seen_def counted_lr_nodes seen_def example_layout_def example_view_def)

lemma example_lst_ok: "dp_counted (ls_dp example_lst)" "all_sent example_lst"
  using control_dp_counted by (simp_all add: example_lst_def all_sent_def)

lemma control_contents: "contents POFUC_counters (ls_dp example_lst) = [PrintCounter \<lparr>ci_id = 3, ci_value = 5, ci_byte_value = 88\<rparr>]"
  by (simp add: contents_def example_lst_def control_dp_nodes counted_lr_nodes)

lemma control_query_roundtrip_witness:
  "\<exists>s' b. listen_cmd example_layout POF_OK POFUC_counters [] example_lst = Some (POF_OK, s') \<and> pe_out (ls_peer s') = pe_out (ls_peer example_lst) @ b
    \<and> (\<forall>c rest. full c \<longrightarrow> ct_send_ok c (ct_sends c) \<longrightarrow> ct_in c = b @ rest \<longrightarrow>
         (\<exists>c'. run_cmd example_view POFUC_counters None c = (SCTRL_OK, c')
            \<and> ct_print c' = ct_print c @ [PrintCounter \<lparr>ci_id = 3, ci_value = 5, ci_byte_value = 88\<rparr>] \<and> ct_in c' = rest))"
proof -
  have q: "POFUC_counters \<in> queries" by (simp add: queries_def)
  show ?thesis using control_query_roundtrip [OF example_lst_ok example_seen q, of POF_OK "[]" None] unfolding control_contents by blast
qed

definition example_con :: con where
  "example_con = \<lparr>cs_conf = example_config, cs_dp = control_dp, cs_g = example_glob, cs_stdin = [], cs_print = []\<rparr>"

lemma console_and_client_agree_witness:
  "\<exists>ps b s'. usr_cmd POFUC_counters None example_con = Some (example_con\<lparr>cs_print := ps\<rparr>)
    \<and> listen_cmd example_layout POF_OK POFUC_counters [] example_lst = Some (POF_OK, s') \<and> pe_out (ls_peer s') = b
    \<and> (\<forall>c. full c \<longrightarrow> ct_send_ok c (ct_sends c) \<longrightarrow> ct_in c = b \<longrightarrow>
         (\<exists>c'. run_cmd example_view POFUC_counters None c = (SCTRL_OK, c') \<and> ct_print c' = ct_print c @ filter (\<lambda>p. \<not> heading p) ps))"
proof -
  have q: "POFUC_counters \<in> queries" by (simp add: queries_def)
  have e: "cs_dp example_con = ls_dp example_lst" "cs_print example_con = []" "pe_out (ls_peer example_lst) = []"
    by (simp_all add: example_con_def example_lst_def)
  show ?thesis using console_and_client_agree [OF example_lst_ok example_seen q e(1), of None POF_OK "[]" None]
    unfolding e(2,3) append_Nil by (metis append_Nil2)
qed


end
