(* ===== verification/Pof_Main.thy ===== *)
theory Pof_Main
  imports Pof_Start Pof_Control
begin

text \<open>
  The whole program: \<^verbatim>\<open>pofsc_wait_exit\<close> of \<^verbatim>\<open>switch_control/pof_switch.c\<close> behind \<^verbatim>\<open>main\<close>. The main thread
  serves the console until the user quits; a muted switch never comes back. What the other tasks
  do meanwhile is not part of this run.
\<close>

definition pofsc_wait_exit :: "bytes \<Rightarrow> proc \<Rightarrow> outcome option" where
  "pofsc_wait_exit stdin s = (
     if c_str (st_verbosity (cf_states (pr_conf s))) \<noteq> asc ''MUTE'' then do {
       t \<leftarrow> pof_runing_command \<lparr>cs_conf = pr_conf s, cs_dp = pr_dp s, cs_g = pr_g s, cs_stdin = stdin, cs_print = []\<rparr>;
       terminate_handler (s\<lparr>pr_conf := cs_conf t, pr_dp := cs_dp t, pr_g := cs_g t\<rparr>)
     }
     else None)"

definition program :: "start_env \<Rightarrow> ret \<Rightarrow> bytes list \<Rightarrow> bytes \<Rightarrow> proc \<Rightarrow> outcome option" where
  "program env left args stdin s = do {
     r \<leftarrow> main env left args s;
     (case r of Running s' \<Rightarrow> pofsc_wait_exit stdin s' | _ \<Rightarrow> Some r)
   }"

text \<open>Queries on the console, then \<^verbatim>\<open>quit\<close>.\<close>

definition query_line :: "pof_usr_cmd \<Rightarrow> bytes" where
  "query_line q = asc (the (map_of COMMANDS q)) @ [10]"

lemma fgets_line:
  assumes "10 \<notin> set l" "length l + 2 \<le> n"
  shows "fgets n (l @ 10 # rest) = Some (l @ [10])"
proof -
  define m where "m = n - 2 - length l"
  have "n - 1 = Suc (length l + m)" using assms(2) by (simp add: m_def)
  then have "take (n - 1) (l @ 10 # rest) = l @ 10 # take m rest" by (simp only:) simp
  moreover have "takeWhile (\<lambda>b. b \<noteq> 10) (l @ 10 # r) = l" for r using assms(1) by (auto simp: takeWhile_append)
  ultimately show ?thesis by (simp add: fgets_def Let_def)
qed

lemma query_lines:
  assumes "q \<in> queries \<union> {POFUC_quit}"
  shows "\<exists>l. query_line q = l @ [10] \<and> 10 \<notin> set l \<and> length l + 2 \<le> 32" "split_cmd (query_line q) = Some (Cmd q, None)"
proof -
  have "10 \<notin> set (asc (the (map_of COMMANDS q))) \<and> length (asc (the (map_of COMMANDS q))) + 2 \<le> 32" if "q = c" for c
    using assms that by (cases c) (simp_all add: queries_def COMMANDS_def asc_def)
  then show "\<exists>l. query_line q = l @ [10] \<and> 10 \<notin> set l \<and> length l + 2 \<le> 32" by (auto simp: query_line_def)
  have "split_cmd (query_line POFUC_ports) = Some (Cmd POFUC_ports, None)" by code_simp
  moreover have "split_cmd (query_line POFUC_tables) = Some (Cmd POFUC_tables, None)" by code_simp
  moreover have "split_cmd (query_line POFUC_groups) = Some (Cmd POFUC_groups, None)" by code_simp
  moreover have "split_cmd (query_line POFUC_meters) = Some (Cmd POFUC_meters, None)" by code_simp
  moreover have "split_cmd (query_line POFUC_counters) = Some (Cmd POFUC_counters, None)" by code_simp
  moreover have "split_cmd (query_line POFUC_quit) = Some (Cmd POFUC_quit, None)" by code_simp
  ultimately show "split_cmd (query_line q) = Some (Cmd q, None)" using assms by (auto simp: queries_def)
qed

lemma query_gets:
  assumes "q \<in> queries \<union> {POFUC_quit}" "cs_stdin s = query_line q @ rest"
  shows "usr_cmd_gets s = Some ((Cmd q, None), s\<lparr>cs_stdin := rest\<rparr>)"
proof -
  obtain l where l: "query_line q = l @ [10]" "10 \<notin> set l" "length l + 2 \<le> 32" using query_lines(1) [OF assms(1)] by blast
  have "fgets 32 (cs_stdin s) = Some (query_line q)" using fgets_line [OF l(2,3)] assms(2) l(1) by simp
  then show ?thesis using query_lines(2) [OF assms(1)] assms(2) by (simp add: usr_cmd_gets_def)
qed

lemma running_quits:
  assumes "set qs \<subseteq> queries" "dp_counted (cs_dp s)" "cs_stdin s = concat (map query_line qs) @ query_line POFUC_quit @ rest"
  shows "\<exists>ps. pof_runing_command s = Some (s\<lparr>cs_stdin := rest, cs_print := cs_print s @ ps\<rparr>)"
  using assms
proof (induction qs arbitrary: s)
  case Nil
  then have "usr_cmd_gets s = Some ((Cmd POFUC_quit, None), s\<lparr>cs_stdin := rest\<rparr>)" using query_gets [of POFUC_quit s rest] by simp
  then show ?case by (subst pof_runing_command.simps) (cases s, simp)
next
  case (Cons q qs)
  let ?rest = "concat (map query_line qs) @ query_line POFUC_quit @ rest"
  have g: "usr_cmd_gets s = Some ((Cmd q, None), s\<lparr>cs_stdin := ?rest\<rparr>)" using Cons.prems query_gets [of q s ?rest] by simp
  obtain ps where p: "usr_cmd q None (s\<lparr>cs_stdin := ?rest\<rparr>) = Some (s\<lparr>cs_stdin := ?rest, cs_print := cs_print s @ ps\<rparr>)"
    using console_shows [of "s\<lparr>cs_stdin := ?rest\<rparr>" q None] Cons.prems(1,2) by auto
  obtain ps' where "pof_runing_command (s\<lparr>cs_stdin := ?rest, cs_print := cs_print s @ ps\<rparr>)
      = Some (s\<lparr>cs_stdin := rest, cs_print := cs_print s @ ps @ ps'\<rparr>)"
    using Cons.IH [of "s\<lparr>cs_stdin := ?rest, cs_print := cs_print s @ ps\<rparr>"] Cons.prems(1,2) by auto
  moreover have "q \<noteq> POFUC_quit" "q \<noteq> POFUC_exit" using Cons.prems(1) by (auto simp: queries_def)
  ultimately show ?case using g p by (subst pof_runing_command.simps) auto
qed

text \<open>
  C40. The user can always leave. A running switch that is not muted, on a system that releases
  what it is asked to, ends when the user asks any number of queries on the console and then
  quits: the process terminates and all its tasks, its timer, its queue and its log file are released.
\<close>

theorem quit_releases:
  assumes "set qs \<subseteq> queries" "dp_counted (pr_dp s)" "slot_maps_ok (pr_dp s)"
    and "c_str (st_verbosity (cf_states (pr_conf s))) \<noteq> asc ''MUTE''" "\<not> pofsc_terminate_flag s"
    and "releasing self (pr_g s)" "self \<notin> slot_threads (pr_dp s) \<union> threads s"
  shows "\<exists>s'. pofsc_wait_exit (concat (map query_line qs) @ query_line POFUC_quit) s = Some (Terminated s') \<and> released s'"
proof -
  let ?c = "\<lparr>cs_conf = pr_conf s, cs_dp = pr_dp s, cs_g = pr_g s,
    cs_stdin = concat (map query_line qs) @ query_line POFUC_quit, cs_print = []\<rparr>"
  obtain ps where "pof_runing_command ?c = Some (?c\<lparr>cs_stdin := [], cs_print := cs_print ?c @ ps\<rparr>)"
    using running_quits [of qs ?c "[]"] assms(1,2) by auto
  moreover obtain s' where "pofsc_destroy (s\<lparr>pofsc_terminate_flag := True\<rparr>) = Some (POF_OK, s')" "released s'"
    using destroy_ok [of self "s\<lparr>pofsc_terminate_flag := True\<rparr>"] assms(3,6,7) by (auto simp: threads_def)
  ultimately show ?thesis using assms(4,5) by (auto simp: pofsc_wait_exit_def terminate_handler_def)
qed

definition running_proc :: proc where
  "running_proc = example_proc\<lparr>pr_dp := control_dp, pofsc_main_task_id := 77, pofsc_echo_timer_id := 1\<rparr>"

lemma quit_releases_witness:
  "\<exists>s'. pofsc_wait_exit (query_line POFUC_counters @ query_line POFUC_quit) running_proc = Some (Terminated s') \<and> released s'"
proof -
  have r: "pr_dp running_proc = control_dp" "pr_g running_proc = example_glob" "pr_conf running_proc = pr_conf example_proc"
    by (simp_all add: running_proc_def example_proc_def)
  have o: "os example_glob = (\<lambda>_. example_os)" by (simp add: example_glob_def)
  have q: "set [POFUC_counters] \<subseteq> queries" by (simp add: queries_def)
  have m: "slot_maps_ok control_dp" "slot_threads control_dp = {}"
    using control_dp_counted
    by (auto simp: slot_maps_ok_def slot_threads_def dp_counted_def slot_counted_def counted_def port_map_ok_def port_threads_def control_dp_nodes
        control_dp_def hmap_nodes_def map_nodes_def counted_lr_def example_lr_def split: option.splits)
  have "c_str (st_verbosity (cf_states (pr_conf running_proc))) \<noteq> asc ''MUTE''"
    by (simp add: r example_proc_def example_config_def example_states_def c_str_def asc_def)
  moreover have "\<not> pofsc_terminate_flag running_proc" "1 \<notin> slot_threads (pr_dp running_proc) \<union> threads running_proc"
    by (simp_all add: running_proc_def example_proc_def threads_def m)
  moreover have "releasing 1 (pr_g running_proc)" unfolding r by (simp add: releasing_def o example_os_def)
  ultimately show ?thesis
    using quit_releases [OF q, of running_proc 1] control_dp_counted m by (simp add: r)
qed

end
