(* ===== verification/Spec2Isabelle.thy ===== *)
theory Spec2Isabelle
  imports Pof_Bits Pof_Hmap Pof_Tree Pof_Encap Pof_Flow_Mod Pof_Exec Pof_Port_Table Pof_Channel Pof_List Pof_Receive Pof_Main
begin

text \<open>
  \<^bold>\<open>A verification library of POFSwitch.\<close>

  POFSwitch is a software switch of the protocol-oblivious forwarding family, written in C. One
  process has a \<^emph>\<open>datapath\<close> that receives frames, looks them up in flow tables and executes
  instructions and actions on their bits; \<^emph>\<open>local resources\<close> (tables, entries, groups, meters,
  counters and ports of each slot) kept in hash maps and a prefix tree; a \<^emph>\<open>connection\<close> to a controller
  with a handshake, a receive buffer, a send queue and an echo timer; a \<^emph>\<open>dispatch\<close> of the
  messages of the controller that changes the resources; \<^emph>\<open>error reports\<close> that go back to the
  controller; a \<^emph>\<open>start\<close> that reads options and a configuration file; and a \<^emph>\<open>control port\<close> with a
  client program and a console. The library models the build of version 1.4.0: \<^verbatim>\<open>POF_SD2N\<close>,
  \<^verbatim>\<open>POF_SD2N_AFTER1015\<close> and \<^verbatim>\<open>POF_MULTIPLE_SLOTS\<close> are defined, \<^verbatim>\<open>POF_SHT_VXLAN\<close> and \<^verbatim>\<open>MALLOC_DEBUG\<close> are
  not, and the machine is little-endian with 64 bits. File names below are relative to \<^verbatim>\<open>src/\<close>.
\<close>

text \<open>
  \<^bold>\<open>Conventions.\<close>

  \<^item> A routine is a function of the same name. State is passed explicitly: \<open>glob\<close> holds the global
    variables and what the operating system does, \<open>pof_local_resource\<close> one slot, \<open>pof_datapath\<close> the
    slots, \<open>config\<close> the settings, \<open>conn\<close> the connection, \<open>proc\<close> the whole process.

  \<^item> The return values are \<open>POF_OK\<close>, \<open>POF_ERROR\<close> and \<open>ERR\<close> with the code of a report. \<open>None\<close> means
    that the code has undefined behaviour there (an access outside an array, a null pointer, a
    read of memory that was never written) or that it does not return. Theorems therefore state
    that the result is \<open>Some\<close>, unless they show a fault or a divergence.

  \<^item> Loops without an obvious end are partial functions, for which not returning is \<open>None\<close>; there is no fuel.
    The other loops are structural recursions over the number of rounds or over a list.

  \<^item> Machine integers are words of the width of the source; comparisons and subtractions
    wrap as they do there. Structures the code treats as raw memory are lists of bytes with
    little-endian accessors; converting byte order is a list of the fields that are swapped.

  \<^item> A structure in a hash map is a node with an address, a hash and its contents. A write
    through a pointer is a write to the node with that address. The n-th allocation fails when the
    predicate of \<open>glob\<close> says so, and otherwise has a new address; freed memory is not reused.

  \<^item> The operating system is a parameter: a view of what each call gives, indexed by the number of
    the call. A write takes all bytes or fails. What the compiler decides (the memory of a
    structure sent as it is) and what uninitialised memory holds are parameters as well.
\<close>

text \<open>
  \<^bold>\<open>The theories.\<close>

  \<^item> \<open>Pof_Prelude\<close> has the types of bytes and words, bit addressing, array access, and the lemmas
    shared by all; \<open>Pof_Global\<close> the enumerations and error codes of \<^verbatim>\<open>include/pof_global.h\<close>, the process
    state and the allocator.

  \<^item> \<open>Pof_Bits\<close> models the bit-field routines of \<^verbatim>\<open>common/pof_basefunc.c\<close>: a field is written and read
    exactly, and read back as written.

  \<^item> \<open>Pof_Hmap\<close> (\<^verbatim>\<open>common/pof_hmap.c\<close>) and \<open>Pof_Tree\<close> (\<^verbatim>\<open>common/pof_tree.c\<close>) are the containers. The hash map
    has a locale of its interface, interpreted on its routines; the tree refines a map from bit
    strings and finds longest prefixes. \<open>Pof_List\<close> (\<^verbatim>\<open>common/pof_list.c\<close>, \<^verbatim>\<open>common/pof_memory.c\<close>) is the
    ring of intrusive nodes over an explicit store, which refines a list, and the accounting allocator.

  \<^item> \<open>Pof_Byteorder\<close> (\<^verbatim>\<open>common/pof_byte_transfer.c\<close>) and \<open>Pof_Encap\<close> (\<^verbatim>\<open>switch_control/pof_encap.c\<close>): conversions are
    involutions where they can be; replies and error messages are queued with the right bytes, and
    reporting never returns while the queue fails.

  \<^item> \<open>Pof_Resource\<close> (\<^verbatim>\<open>include/pof_local_resource.h\<close>), \<open>Pof_Counter\<close>, \<open>Pof_Meter\<close>, \<open>Pof_Group\<close>, \<open>Pof_Flow_Table\<close>,
    \<open>Pof_Flow_Lookup\<close>, \<open>Pof_Flow_Lpm\<close>, \<open>Pof_Flow_Mod\<close>, \<open>Pof_Port\<close>, \<open>Pof_Port_Table\<close> and \<open>Pof_Local_Resource\<close> model
    \<^verbatim>\<open>local_resource/\<close>. A locale of keyed resources is interpreted for each kind; the operations refine
    bounded maps on every branch, with the error the code reports. Masked lookup gives a matching entry of
    highest priority, prefix lookup the longest prefix, and key assembly concatenates the fields.

  \<^item> \<open>Pof_Slot\<close> and \<open>Pof_Slot_Init\<close> put the resources of a slot together: its invariant holds after
    initialisation and is kept by every command, whose run is free of undefined behaviour; clearing empties it.

  \<^item> \<open>Pof_Packet\<close>, \<open>Pof_Action\<close>, \<open>Pof_Instruction\<close>, \<open>Pof_Datapath\<close>, \<open>Pof_Field\<close>, \<open>Pof_Tag\<close>, \<open>Pof_Exec\<close> and
    \<open>Pof_Receive\<close> model \<^verbatim>\<open>datapath/\<close>. Fields are set, modified, added and deleted at any bit position; lists of actions and
    instructions are executed in order, each once; self-referring groups and jumps in place diverge. The
    receive task of a port reports every frame without match to the controller, in order and once.

  \<^item> \<open>Pof_Parse\<close> (\<^verbatim>\<open>switch_control/pof_parse.c\<close>), \<open>Pof_Commands\<close>, \<open>Pof_Switch\<close> (\<^verbatim>\<open>switch_control/pof_switch.c\<close>), \<open>Pof_Stream\<close> and
    \<open>Pof_Channel\<close>: the stream of the controller is cut into its messages, the running state is reached
    only through the handshake under every interleaving of the tasks, modifications of protocol size
    keep all slots well formed, and requests are answered.

  \<^item> \<open>Pof_Config\<close>, \<open>Pof_Config_File\<close> (\<^verbatim>\<open>switch_control/pof_config.c\<close>), \<open>Pof_Start\<close> and \<open>Pof_Main\<close>: options and files
    set what they say; the module starts with all its tasks and gives them back, at the latest when the user quits.

  \<^item> \<open>Pof_Listen\<close> (\<^verbatim>\<open>switch_control/pof_switch_listen.c\<close>), \<open>Pof_Sctrl\<close> (\<^verbatim>\<open>switch_control/pof_sctrl.c\<close>), \<open>Pof_Console\<close>
    (\<^verbatim>\<open>common/pof_command.c\<close>) and \<open>Pof_Control\<close>: the client reads from the bytes of the switch exactly the
    contents of its maps, which is what the console shows; sessions end.
\<close>

text \<open>
  \<^bold>\<open>Bounds and hypotheses.\<close> Theorems about error-free runs assume that the allocator and the queue do
  not fail from then on (\<open>chan_ok\<close>), theorems about the start that the system provides what is asked
  (\<open>providing\<close>, \<open>releasing\<close>), and those about messages that they have the sizes and counts of the protocol
  (\<open>message_ok\<close>, \<open>cmd_ok\<close>, \<open>flow_fits\<close>, \<open>group_fits\<close>); the code checks none of these. Numbers that are kept in
  words are right while they fit the word. Each hypothesis is met by a witness.

  \<^bold>\<open>Not modelled.\<close>

  \<^item> \<^verbatim>\<open>local_resource/pof_ins_block.c\<close> and every other part under \<^verbatim>\<open>POF_SHT_VXLAN\<close>, which the build does not define.

  \<^item> \<^verbatim>\<open>common/pof_log_print.c\<close>, apart from opening and closing the log file: it prints structures and
    changes no state. The printing commands record what they hand to it. The lock of the log
    matters in the console only and is described there.

  \<^item> The traffic-control calls and the reader of \<^verbatim>\<open>/proc/net/dev\<close> in \<^verbatim>\<open>local_resource/pof_port.c\<close>, and the
    unused \<^verbatim>\<open>tcpSend\<close> and \<^verbatim>\<open>tcpRecv\<close> of the client.

  \<^item> Preemption inside a routine. Interleavings are those of whole rounds of the tasks; races on
    the resources between the datapath and the connection, which the code does not guard, are outside the model.
\<close>

end
